(* ===== verification/KP_Prelude.thy ===== *)
theory KP_Prelude
  imports
    Main
    "HOL-Library.Word"
    "HOL-Library.AList"
    "HOL-Library.Sublist"
    "HOL-Library.Char_ord"
    "HOL-Library.List_Lexorder"
begin

text \<open>
  Shared vocabulary of the development: the byte and result types, the pieces of Rust's
  standard library that the sources use (\<open>str::split\<close>, \<open>str::replace\<close>, \<open>strip_prefix\<close>,
  integer parsing, \<open>div_ceil\<close>, slices into chunks) written out once, and the generic lemmas
  about them.  A Rust \<open>String\<close> is a \<^typ>\<open>string\<close> whose characters are its UTF-8 bytes.
\<close>

named_theorems fs_simps
named_theorems store_simps

type_synonym byte = "8 word"
type_synonym bytes = "8 word list"

text \<open>Rust's \<open>Result<T, E>\<close> is a sum: \<open>Err\<close> is the left injection.\<close>

abbreviation Ok :: "'a \<Rightarrow> 'e + 'a" where "Ok \<equiv> Inr"
abbreviation Err :: "'e \<Rightarrow> 'e + 'a" where "Err \<equiv> Inl"

definition is_ok :: "'e + 'a \<Rightarrow> bool" where
  "is_ok r = (case r of Inl _ \<Rightarrow> False | Inr _ \<Rightarrow> True)"

lemma is_ok_simps [simp]: "is_ok (Ok a)" "\<not> is_ok (Err e)"
  by (simp_all add: is_ok_def)

section \<open>Strings\<close>

text \<open>\<open>str::split(c)\<close>: always at least one piece; \<open>n\<close> separators give \<open>n + 1\<close> pieces.\<close>

fun split_on :: "char \<Rightarrow> string \<Rightarrow> string list" where
  "split_on c [] = [[]]"
| "split_on c (x # xs) =
     (if x = c then [] # split_on c xs
      else (case split_on c xs of [] \<Rightarrow> [[x]] | s # ss \<Rightarrow> (x # s) # ss))"

fun join_with :: "string \<Rightarrow> string list \<Rightarrow> string" where
  "join_with sep [] = []"
| "join_with sep [s] = s"
| "join_with sep (s # t # ss) = s @ sep @ join_with sep (t # ss)"

lemma split_on_not_Nil [simp]: "split_on c s \<noteq> []"
  by (induction s) (auto split: list.splits)

lemma split_on_no_sep: "seg \<in> set (split_on c s) \<Longrightarrow> c \<notin> set seg"
  by (induction s arbitrary: seg) (auto split: list.splits if_splits)

lemma join_with_Cons:
  "ss \<noteq> [] \<Longrightarrow> join_with sep (s # ss) = s @ sep @ join_with sep ss"
  by (cases ss) auto

lemma join_with_Cons_char:
  "join_with sep ((x # s) # ss) = x # join_with sep (s # ss)"
  by (cases ss) auto

lemma join_split_on: "join_with [c] (split_on c s) = s"
proof (induction s)
  case (Cons x xs)
  then show ?case
    by (auto simp: join_with_Cons join_with_Cons_char split: list.splits)
qed simp

lemma split_on_trailing: "split_on c (s @ [c]) = split_on c s @ [[]]"
  by (induction s) (auto split: list.splits)

lemma split_on_single: "c \<notin> set s \<Longrightarrow> split_on c s = [s]"
  by (induction s) auto

lemma split_on_append: "c \<notin> set s \<Longrightarrow> split_on c (s @ c # t) = s # split_on c t"
  by (induction s) auto

lemma split_join_on:
  "ss \<noteq> [] \<Longrightarrow> \<forall>s \<in> set ss. c \<notin> set s \<Longrightarrow> split_on c (join_with [c] ss) = ss"
proof (induction ss)
  case (Cons s ss)
  then show ?case
    by (cases "ss = []") (auto simp: join_with_Cons split_on_single split_on_append)
qed simp

text \<open>\<open>str::starts_with\<close> and \<open>str::strip_prefix\<close>.\<close>

definition starts_with :: "string \<Rightarrow> string \<Rightarrow> bool" where
  "starts_with s p = (take (length p) s = p)"

definition strip_prefix :: "string \<Rightarrow> string \<Rightarrow> string option" where
  "strip_prefix p s = (if starts_with s p then Some (drop (length p) s) else None)"

definition strip_suffix :: "string \<Rightarrow> string \<Rightarrow> string option" where
  "strip_suffix q s = map_option rev (strip_prefix (rev q) (rev s))"

lemma starts_with_iff: "starts_with s p \<longleftrightarrow> (\<exists>t. s = p @ t)"
  by (metis append_eq_conv_conj append_take_drop_id starts_with_def)

lemma starts_with_append [simp]: "starts_with (p @ s) p"
  by (auto simp: starts_with_iff)

lemma starts_with_Nil [simp]: "starts_with s []"
  by (simp add: starts_with_def)

lemma strip_prefix_append [simp]: "strip_prefix p (p @ s) = Some s"
  by (simp add: strip_prefix_def)

lemma strip_prefix_Some: "strip_prefix p s = Some t \<longleftrightarrow> s = p @ t"
  by (auto simp: strip_prefix_def starts_with_iff)

text \<open>\<open>str::find(pat)\<close>: the index of the first occurrence of a non-empty pattern.\<close>

fun find_sub :: "string \<Rightarrow> string \<Rightarrow> nat option" where
  "find_sub pat [] = (if pat = [] then Some 0 else None)"
| "find_sub pat (x # xs) =
     (if starts_with (x # xs) pat then Some 0 else map_option Suc (find_sub pat xs))"

definition contains_sub :: "string \<Rightarrow> string \<Rightarrow> bool" where
  "contains_sub s pat = (find_sub pat s \<noteq> None)"

lemma find_sub_Some:
  "find_sub pat s = Some i \<Longrightarrow> i \<le> length s \<and> starts_with (drop i s) pat"
proof (induction s arbitrary: i)
  case Nil
  then show ?case by (auto split: if_splits)
next
  case (Cons x xs)
  then show ?case by (fastforce split: if_splits)
qed

lemma find_sub_split:
  "find_sub pat s = Some i \<Longrightarrow> s = take i s @ pat @ drop (i + length pat) s"
  by (metis add.commute append_take_drop_id drop_drop find_sub_Some starts_with_def)

text \<open>\<open>str::split_once(c)\<close>.\<close>

definition split_once :: "char \<Rightarrow> string \<Rightarrow> (string \<times> string) option" where
  "split_once c s =
     (if c \<in> set s then Some (takeWhile (\<lambda>x. x \<noteq> c) s, tl (dropWhile (\<lambda>x. x \<noteq> c) s)) else None)"

lemma split_once_append: "c \<notin> set s \<Longrightarrow> split_once c (s @ c # t) = Some (s, t)"
  by (induction s) (auto simp: split_once_def)

text \<open>\<open>str::replace(c, r)\<close> for a one-character pattern.\<close>

definition replace_char :: "char \<Rightarrow> string \<Rightarrow> string \<Rightarrow> string" where
  "replace_char c r s = concat (map (\<lambda>x. if x = c then r else [x]) s)"

lemma replace_char_simps [simp]:
  "replace_char c r [] = []"
  "replace_char c r (x # xs) = (if x = c then r else [x]) @ replace_char c r xs"
  by (simp_all add: replace_char_def)

lemma replace_char_append: "replace_char c r (s @ t) = replace_char c r s @ replace_char c r t"
  by (simp add: replace_char_def)

text \<open>\<open>char::is_whitespace\<close> on the one-byte range, \<open>str::trim\<close>, \<open>to_ascii_lowercase\<close>.\<close>

definition is_space :: "char \<Rightarrow> bool" where
  "is_space c = (c = CHR '' '' \<or> (9 \<le> (of_char c :: nat) \<and> (of_char c :: nat) \<le> 13))"

definition trim_start :: "string \<Rightarrow> string" where
  "trim_start s = dropWhile is_space s"

definition trim :: "string \<Rightarrow> string" where
  "trim s = rev (dropWhile is_space (rev (dropWhile is_space s)))"

definition trim_matches :: "char \<Rightarrow> string \<Rightarrow> string" where
  "trim_matches c s = rev (dropWhile (\<lambda>x. x = c) (rev (dropWhile (\<lambda>x. x = c) s)))"

definition is_ascii_lower :: "char \<Rightarrow> bool" where
  "is_ascii_lower c = (97 \<le> (of_char c :: nat) \<and> (of_char c :: nat) \<le> 122)"

definition is_ascii_upper :: "char \<Rightarrow> bool" where
  "is_ascii_upper c = (65 \<le> (of_char c :: nat) \<and> (of_char c :: nat) \<le> 90)"

definition is_ascii_digit :: "char \<Rightarrow> bool" where
  "is_ascii_digit c = (48 \<le> (of_char c :: nat) \<and> (of_char c :: nat) \<le> 57)"

definition ascii_lower_char :: "char \<Rightarrow> char" where
  "ascii_lower_char c = (if is_ascii_upper c then char_of (of_char c + (32 :: nat)) else c)"

definition ascii_lowercase :: "string \<Rightarrow> string" where
  "ascii_lowercase s = map ascii_lower_char s"

definition eq_ignore_ascii_case :: "string \<Rightarrow> string \<Rightarrow> bool" where
  "eq_ignore_ascii_case s t = (ascii_lowercase s = ascii_lowercase t)"

text \<open>The same on the bits of a character, for evaluation.\<close>

lemma is_space_code [code]:
  "is_space (Char b0 b1 b2 b3 b4 b5 b6 b7) \<longleftrightarrow> \<not> b7 \<and> \<not> b6 \<and>
     (if b5 then \<not> b4 \<and> \<not> b3 \<and> \<not> b2 \<and> \<not> b1 \<and> \<not> b0 else \<not> b4 \<and> b3 \<and> (b2 \<or> b1 \<or> b0) \<and> \<not> (b2 \<and> b1))"
  by (cases b0; cases b1; cases b2; cases b3; cases b4; cases b5; cases b6; cases b7; simp add: is_space_def)

lemma is_ascii_upper_code [code]:
  "is_ascii_upper (Char b0 b1 b2 b3 b4 b5 b6 b7) \<longleftrightarrow>
     \<not> b7 \<and> b6 \<and> \<not> b5 \<and> (b4 \<or> b3 \<or> b2 \<or> b1 \<or> b0) \<and> \<not> (b4 \<and> b3 \<and> (b2 \<or> b1 \<and> b0))"
  by (cases b0; cases b1; cases b2; cases b3; cases b4; cases b5; cases b6; cases b7; simp add: is_ascii_upper_def)

lemma is_ascii_lower_code [code]:
  "is_ascii_lower (Char b0 b1 b2 b3 b4 b5 b6 b7) \<longleftrightarrow>
     \<not> b7 \<and> b6 \<and> b5 \<and> (b4 \<or> b3 \<or> b2 \<or> b1 \<or> b0) \<and> \<not> (b4 \<and> b3 \<and> (b2 \<or> b1 \<and> b0))"
  by (cases b0; cases b1; cases b2; cases b3; cases b4; cases b5; cases b6; cases b7; simp add: is_ascii_lower_def)

lemma is_ascii_digit_code [code]:
  "is_ascii_digit (Char b0 b1 b2 b3 b4 b5 b6 b7) \<longleftrightarrow> \<not> b7 \<and> \<not> b6 \<and> b5 \<and> b4 \<and> \<not> (b3 \<and> (b2 \<or> b1))"
  by (cases b0; cases b1; cases b2; cases b3; cases b4; cases b5; cases b6; cases b7; simp add: is_ascii_digit_def)

lemma ascii_lower_char_code [code]:
  "ascii_lower_char (Char b0 b1 b2 b3 b4 b5 b6 b7) =
     (if is_ascii_upper (Char b0 b1 b2 b3 b4 b5 b6 b7) then Char b0 b1 b2 b3 b4 True b6 b7 else Char b0 b1 b2 b3 b4 b5 b6 b7)"
  by (cases b0; cases b1; cases b2; cases b3; cases b4; cases b5; cases b6; cases b7; simp add: ascii_lower_char_def is_ascii_upper_def char_of_def bit_numeral_rec bit_0)

section \<open>Unsigned integer parsing and printing\<close>

definition digit_value :: "char \<Rightarrow> nat option" where
  "digit_value c =
     (if is_ascii_digit c then Some (of_char c - 48)
      else if is_ascii_lower c then Some (of_char c - 87)
      else if is_ascii_upper c then Some (of_char c - 55) else None)"

fun parse_digits :: "nat \<Rightarrow> nat \<Rightarrow> string \<Rightarrow> nat \<Rightarrow> nat option" where
  "parse_digits radix mx [] acc = Some acc"
| "parse_digits radix mx (c # cs) acc =
     (case digit_value c of
        None \<Rightarrow> None
      | Some v \<Rightarrow>
          (if v < radix \<and> acc * radix + v \<le> mx
           then parse_digits radix mx cs (acc * radix + v) else None))"

text \<open>
  \<open>from_str_radix\<close> of an unsigned type with maximum \<open>mx\<close>: an optional leading \<open>+\<close>, at least
  one digit, leading zeros accepted, an error on overflow.
\<close>

definition parse_radix :: "nat \<Rightarrow> nat \<Rightarrow> string \<Rightarrow> nat option" where
  "parse_radix radix mx s =
     (let ds = (case s of c # cs \<Rightarrow> if c = CHR ''+'' then cs else s | [] \<Rightarrow> [])
      in if ds = [] then None else parse_digits radix mx ds 0)"

abbreviation parse_u8 :: "string \<Rightarrow> nat option" where "parse_u8 \<equiv> parse_radix 10 255"
abbreviation parse_u32 :: "string \<Rightarrow> nat option" where "parse_u32 \<equiv> parse_radix 10 (2 ^ 32 - 1)"
abbreviation parse_u64 :: "string \<Rightarrow> nat option" where "parse_u64 \<equiv> parse_radix 10 (2 ^ 64 - 1)"

definition digit_char :: "nat \<Rightarrow> char" where
  "digit_char d = char_of (if d < 10 then 48 + d else 87 + d)"

fun show_radix :: "nat \<Rightarrow> nat \<Rightarrow> string" where
  "show_radix radix n =
     (if n < radix \<or> radix < 2 then [digit_char n]
      else show_radix radix (n div radix) @ [digit_char (n mod radix)])"

declare show_radix.simps [simp del]

abbreviation show_nat :: "nat \<Rightarrow> string" where "show_nat \<equiv> show_radix 10"

lemma parse_digits_bound: "parse_digits radix mx s acc = Some n \<Longrightarrow> acc \<le> mx \<Longrightarrow> n \<le> mx"
  by (induction radix mx s acc rule: parse_digits.induct) (auto split: option.splits if_splits)

lemma parse_radix_bound: "parse_radix radix mx s = Some n \<Longrightarrow> n \<le> mx"
  unfolding parse_radix_def Let_def
  by (metis option.distinct(1) parse_digits_bound zero_le)

text \<open>A printed number parses back, has no surrounding space and none of the separators around numbers.\<close>

lemma digit_char_value: "d < 16 \<Longrightarrow> digit_value (digit_char d) = Some d"
  by (auto simp: digit_value_def digit_char_def is_ascii_digit_def is_ascii_lower_def)

lemma digit_char_not_space: "d < 16 \<Longrightarrow> \<not> is_space (digit_char d)"
  by (auto simp: is_space_def digit_char_def dest: arg_cong [of _ _ "of_char :: char \<Rightarrow> nat"])

lemma digit_char_neq:
  "d < 16 \<Longrightarrow> c \<in> {CHR ''+'', CHR ''-'', CHR ''='', CHR ''/'', CHR '';'', CHR '',''} \<Longrightarrow> digit_char d \<noteq> c"
  by (auto simp: digit_char_def split: if_splits dest: arg_cong [of _ _ "of_char :: char \<Rightarrow> nat"])

lemma parse_digits_append:
  "parse_digits r mx (xs @ ys) acc = (case parse_digits r mx xs acc of Some a \<Rightarrow> parse_digits r mx ys a | None \<Rightarrow> None)"
  by (induction r mx xs acc rule: parse_digits.induct) (auto split: option.splits)

lemma show_radix_digits:
  assumes "2 \<le> r"
  shows "\<exists>d ds. show_radix r n = map digit_char (d # ds) \<and> (\<forall>x \<in> set (d # ds). x < r)"
proof (induction n rule: less_induct)
  case (less n)
  show ?case
  proof (cases "n < r")
    case True
    then have "show_radix r n = map digit_char [n] \<and> (\<forall>x \<in> set [n]. x < r)" by (simp add: show_radix.simps [of r n])
    then show ?thesis by blast
  next
    case False
    then have "n div r < n" using assms by (intro div_less_dividend) auto
    with less obtain d ds where ih: "show_radix r (n div r) = map digit_char (d # ds)" "\<forall>x \<in> set (d # ds). x < r" by blast
    have "show_radix r n = map digit_char (d # (ds @ [n mod r])) \<and> (\<forall>x \<in> set (d # (ds @ [n mod r])). x < r)"
      using False ih assms by (simp add: show_radix.simps [of r n])
    then show ?thesis by blast
  qed
qed

lemma parse_show_digits:
  assumes "2 \<le> r" "r \<le> 16"
  shows "n \<le> mx \<Longrightarrow> parse_digits r mx (show_radix r n) 0 = Some n"
proof (induction n rule: less_induct)
  case (less n)
  show ?case
  proof (cases "n < r")
    case True
    with less.prems assms show ?thesis by (simp add: show_radix.simps [of r n] digit_char_value)
  next
    case False
    then have "n div r < n" using assms by (intro div_less_dividend) auto
    then have "parse_digits r mx (show_radix r (n div r)) 0 = Some (n div r)" using less by simp
    moreover have "n mod r < 16" using assms by (intro less_le_trans [OF mod_less_divisor]) auto
    ultimately show ?thesis
      using False less.prems assms by (simp add: show_radix.simps [of r n] parse_digits_append digit_char_value)
  qed
qed

lemma parse_show_radix:
  assumes r: "2 \<le> r" "r \<le> 16" and n: "n \<le> mx"
  shows "parse_radix r mx (show_radix r n) = Some n"
proof -
  obtain d ds where s: "show_radix r n = map digit_char (d # ds)" "\<forall>x \<in> set (d # ds). x < r"
    using show_radix_digits [OF r(1)] by blast
  then have "digit_char d \<noteq> CHR ''+''" using r by (intro digit_char_neq) auto
  with s parse_show_digits [OF r n] show ?thesis by (simp add: parse_radix_def)
qed

lemma parse_show [simp]: "n \<le> mx \<Longrightarrow> parse_radix 10 mx (show_nat n) = Some n"
  by (rule parse_show_radix) simp_all

lemma trim_show_radix:
  assumes r: "2 \<le> r" "r \<le> 16"
  shows "trim (show_radix r n) = show_radix r n"
proof -
  obtain d ds where s: "show_radix r n = map digit_char (d # ds)" "\<forall>x \<in> set (d # ds). x < r"
    using show_radix_digits [OF r(1)] by blast
  have "dropWhile is_space (map digit_char xs) = map digit_char xs" if "\<forall>x \<in> set xs. x < r" for xs
    using that r by (cases xs) (auto simp: digit_char_not_space)
  from this [of "d # ds"] this [of "rev (d # ds)"] s(2) show ?thesis
    by (simp only: trim_def s(1) rev_map set_rev rev_rev_ident)
qed

lemma trim_show [simp]: "trim (show_nat n) = show_nat n"
  by (rule trim_show_radix) simp_all

lemma show_radix_no_sep:
  assumes r: "2 \<le> r" "r \<le> 16" and c: "c \<in> {CHR ''+'', CHR ''-'', CHR ''='', CHR ''/'', CHR '';'', CHR '',''}"
  shows "c \<notin> set (show_radix r n)"
proof
  assume "c \<in> set (show_radix r n)"
  moreover obtain d ds where s: "show_radix r n = map digit_char (d # ds)" "\<forall>x \<in> set (d # ds). x < r"
    using show_radix_digits [OF r(1)] by blast
  ultimately have "c \<in> digit_char ` set (d # ds)" by (simp only: s(1) set_map)
  then obtain x where "x \<in> set (d # ds)" "c = digit_char x" by (rule imageE)
  with s(2) r(2) have "x < 16" "c = digit_char x" by fastforce+
  with digit_char_neq [OF this(1) c] show False by simp
qed

lemma show_nat_no_sep:
  "c \<in> {CHR ''+'', CHR ''-'', CHR ''='', CHR ''/'', CHR '';'', CHR '',''} \<Longrightarrow> c \<notin> set (show_nat n)"
  by (rule show_radix_no_sep) simp_all

section \<open>Arithmetic and chunking\<close>

text \<open>\<open>usize::div_ceil\<close> (the divisor is positive wherever the sources call it).\<close>

definition div_ceil :: "nat \<Rightarrow> nat \<Rightarrow> nat" where
  "div_ceil a b = (if a mod b = 0 then a div b else a div b + 1)"

lemma div_ceil_mult_ge: "0 < b \<Longrightarrow> a \<le> div_ceil a b * b"
proof -
  assume "0 < b"
  have "a = a div b * b + a mod b" by simp
  moreover have "a mod b < b" using \<open>0 < b\<close> by simp
  ultimately have "a \<le> a div b * b + b" by linarith
  then show ?thesis by (auto simp: div_ceil_def)
qed

lemma div_ceil_le:
  assumes "0 < b" and "a \<le> c * b"
  shows "div_ceil a b \<le> c"
proof -
  have *: "a = a div b * b + a mod b" by simp
  have "a div b \<le> c" using assms div_le_mono [of a "c * b" b] by simp
  moreover have "a div b < c" if "a mod b \<noteq> 0"
  proof (rule ccontr)
    assume "\<not> a div b < c"
    then have "c * b \<le> a div b * b" by simp
    with * that assms(2) show False by linarith
  qed
  ultimately show ?thesis by (auto simp: div_ceil_def)
qed

text \<open>
  \<open>slice::chunks(n)\<close>: pieces of \<open>n\<close> elements, the last one possibly shorter, none empty.
\<close>

function chunks :: "nat \<Rightarrow> 'a list \<Rightarrow> 'a list list" where
  "chunks n xs = (if n = 0 \<or> xs = [] then [] else take n xs # chunks n (drop n xs))"
  by pat_completeness auto
termination
  by (relation "measure (\<lambda>(n, xs). length xs)") auto

declare chunks.simps [simp del]

lemma chunks_Nil [simp]: "chunks n [] = []"
  by (subst chunks.simps) simp

lemma chunks_step: "0 < n \<Longrightarrow> xs \<noteq> [] \<Longrightarrow> chunks n xs = take n xs # chunks n (drop n xs)"
  by (subst chunks.simps) simp

lemma concat_chunks: "0 < n \<Longrightarrow> concat (chunks n xs) = xs"
proof (induction n xs rule: chunks.induct)
  case (1 n xs)
  then show ?case by (cases "xs = []") (auto simp: chunks_step)
qed

lemma length_chunks: "0 < n \<Longrightarrow> length (chunks n xs) = div_ceil (length xs) n"
proof (induction n xs rule: chunks.induct)
  case (1 n xs)
  show ?case
  proof (cases "xs = []")
    case True
    then show ?thesis by (simp add: div_ceil_def)
  next
    case False
    with 1 have IH: "length (chunks n (drop n xs)) = div_ceil (length xs - n) n" by simp
    show ?thesis
    proof (cases "length xs \<le> n")
      case True
      with False \<open>0 < n\<close> show ?thesis
        by (cases "length xs = n") (auto simp: chunks_step div_ceil_def)
    next
      case False
      then have "(length xs - n) div n + 1 = length xs div n" "(length xs - n) mod n = length xs mod n"
        using \<open>0 < n\<close> by (simp_all add: le_div_geq le_mod_geq)
      with False \<open>xs \<noteq> []\<close> \<open>0 < n\<close> IH show ?thesis
        by (simp add: chunks_step div_ceil_def)
    qed
  qed
qed

lemma chunks_not_Nil [simp]: "0 < n \<Longrightarrow> chunks n xs = [] \<longleftrightarrow> xs = []"
  by (subst chunks.simps) simp

section \<open>Lists and association lists\<close>

lemma map_of_update [simp]: "map_of (AList.update k v al) = (map_of al)(k \<mapsto> v)"
  by (rule update_conv')

lemma map_of_delete_key [simp]: "map_of (filter (\<lambda>e. fst e \<noteq> k) al) = (map_of al)(k := None)"
proof
  fix x
  show "map_of (filter (\<lambda>e. fst e \<noteq> k) al) x = ((map_of al)(k := None)) x"
    by (induction al) auto
qed

lemma map_of_filter_key:
  "map_of (filter (\<lambda>e. P (fst e)) al) x = (if P x then map_of al x else None)"
  by (induction al) auto

text \<open>\<open>Iterator::find_map\<close> and \<open>Iterator::position\<close>.\<close>

fun first_some :: "('a \<Rightarrow> 'b option) \<Rightarrow> 'a list \<Rightarrow> 'b option" where
  "first_some f [] = None"
| "first_some f (x # xs) = (case f x of Some y \<Rightarrow> Some y | None \<Rightarrow> first_some f xs)"

fun position :: "('a \<Rightarrow> bool) \<Rightarrow> 'a list \<Rightarrow> nat option" where
  "position p [] = None"
| "position p (x # xs) = (if p x then Some 0 else map_option Suc (position p xs))"

text \<open>\<open>Vec::remove(i)\<close> of an index in range.\<close>

definition remove_at :: "nat \<Rightarrow> 'a list \<Rightarrow> 'a list" where
  "remove_at i xs = take i xs @ drop (Suc i) xs"

lemma position_Some:
  "position p xs = Some i \<Longrightarrow> i < length xs \<and> p (xs ! i) \<and> (\<forall>j < i. \<not> p (xs ! j))"
proof (induction xs arbitrary: i)
  case (Cons x xs)
  then show ?case
    by (cases i) (auto simp: nth_Cons split: if_splits nat.splits)
qed simp

lemma position_None: "position p xs = None \<longleftrightarrow> (\<forall>x \<in> set xs. \<not> p x)"
  by (induction xs) auto

end
