(* ===== verification/S3_Error.thy ===== *)
theory S3_Error
  imports KP_Prelude
begin

text \<open>
  \<open>src/error.rs\<close>: the S3 error type, its code, message and HTTP status, the XML escaping of the
  error document and the rendered response.  The text of a wrapped library error (the \<open>{e}\<close> of a
  \<open>format!\<close>) is left out of the \<open>Internal\<close> messages of this development.
\<close>

datatype s3error =
    NoSuchBucket | NoSuchKey | BucketAlreadyOwnedByYou | BucketNotEmpty | InvalidBucketName
  | NoSuchUpload | InvalidPart | EntityTooSmall | AccessDenied | SignatureDoesNotMatch
  | InvalidAccessKeyId | AuthorizationHeaderMalformed | InvalidArgument string | NotImplemented
  | Internal string | NoSuchBucketEncryption | NoSuchBucketPolicy | NoSuchLifecycleConfiguration
  | ObjectLocked | NoSuchVersion | MethodNotAllowed

type_synonym 'a result = "s3error + 'a"

fun code :: "s3error \<Rightarrow> string" where
  "code NoSuchBucket = ''NoSuchBucket''"
| "code NoSuchKey = ''NoSuchKey''"
| "code BucketAlreadyOwnedByYou = ''BucketAlreadyOwnedByYou''"
| "code BucketNotEmpty = ''BucketNotEmpty''"
| "code InvalidBucketName = ''InvalidBucketName''"
| "code NoSuchUpload = ''NoSuchUpload''"
| "code InvalidPart = ''InvalidPart''"
| "code EntityTooSmall = ''EntityTooSmall''"
| "code AccessDenied = ''AccessDenied''"
| "code SignatureDoesNotMatch = ''SignatureDoesNotMatch''"
| "code InvalidAccessKeyId = ''InvalidAccessKeyId''"
| "code AuthorizationHeaderMalformed = ''AuthorizationHeaderMalformed''"
| "code (InvalidArgument _) = ''InvalidArgument''"
| "code NotImplemented = ''NotImplemented''"
| "code (Internal _) = ''InternalError''"
| "code NoSuchBucketEncryption = ''ServerSideEncryptionConfigurationNotFoundError''"
| "code NoSuchBucketPolicy = ''NoSuchBucketPolicy''"
| "code NoSuchLifecycleConfiguration = ''NoSuchLifecycleConfiguration''"
| "code ObjectLocked = ''ObjectLocked''"
| "code NoSuchVersion = ''NoSuchVersion''"
| "code MethodNotAllowed = ''MethodNotAllowed''"

fun message :: "s3error \<Rightarrow> string" where
  "message NoSuchBucket = ''The specified bucket does not exist.''"
| "message NoSuchKey = ''The specified key does not exist.''"
| "message BucketAlreadyOwnedByYou = ''The bucket you tried to create already exists, and you own it.''"
| "message BucketNotEmpty = ''The bucket you tried to delete is not empty.''"
| "message InvalidBucketName = ''The specified bucket is not valid.''"
| "message NoSuchUpload = ''The specified multipart upload does not exist.''"
| "message InvalidPart = ''One or more of the specified parts could not be found.''"
| "message EntityTooSmall = ''Your proposed upload is smaller than the minimum allowed object size.''"
| "message AccessDenied = ''Access Denied.''"
| "message SignatureDoesNotMatch =
     ''The request signature we calculated does not match the signature you provided.''"
| "message InvalidAccessKeyId = ''The access key Id you provided does not exist in our records.''"
| "message AuthorizationHeaderMalformed = ''The authorization header that you provided is not valid.''"
| "message (InvalidArgument m) = m"
| "message NotImplemented = ''A header or operation you provided is not implemented.''"
| "message (Internal m) = ''We encountered an internal error: '' @ m"
| "message NoSuchBucketEncryption = ''The server side encryption configuration was not found.''"
| "message NoSuchBucketPolicy = ''The bucket policy does not exist.''"
| "message NoSuchLifecycleConfiguration = ''The lifecycle configuration does not exist.''"
| "message ObjectLocked =
     ''Object is protected by an active lock and cannot be deleted or modified.''"
| "message NoSuchVersion = ''The specified version does not exist.''"
| "message MethodNotAllowed = ''The specified method is not allowed against this resource.''"

fun status :: "s3error \<Rightarrow> nat" where
  "status NoSuchBucket = 404"
| "status NoSuchKey = 404"
| "status NoSuchUpload = 404"
| "status BucketAlreadyOwnedByYou = 409"
| "status BucketNotEmpty = 409"
| "status InvalidBucketName = 400"
| "status InvalidPart = 400"
| "status EntityTooSmall = 400"
| "status AuthorizationHeaderMalformed = 400"
| "status (InvalidArgument _) = 400"
| "status AccessDenied = 403"
| "status SignatureDoesNotMatch = 403"
| "status InvalidAccessKeyId = 403"
| "status NotImplemented = 501"
| "status (Internal _) = 500"
| "status NoSuchBucketEncryption = 404"
| "status NoSuchBucketPolicy = 404"
| "status NoSuchLifecycleConfiguration = 404"
| "status ObjectLocked = 403"
| "status NoSuchVersion = 404"
| "status MethodNotAllowed = 405"

text \<open>The five replacements run one after the other, the ampersand first.\<close>

definition xml_escape :: "string \<Rightarrow> string" where
  "xml_escape s =
     replace_char (CHR 0x27) ''&apos;''
       (replace_char (CHR 0x22) ''&quot;''
         (replace_char (CHR ''>'') ''&gt;''
           (replace_char (CHR ''<'') ''&lt;''
             (replace_char (CHR ''&'') ''&amp;'' s))))"

record http_response =
  rsp_status :: nat
  rsp_headers :: "(string \<times> string) list"
  rsp_body :: string

definition into_response_with_resource :: "string \<Rightarrow> s3error \<Rightarrow> string \<Rightarrow> http_response" where
  "into_response_with_resource request_id e resource =
     \<lparr> rsp_status = status e,
       rsp_headers = [(''content-type'', ''application/xml'')],
       rsp_body =
         ''<?xml version='' @ [CHR 0x22] @ ''1.0'' @ [CHR 0x22] @ '' encoding='' @ [CHR 0x22] @
         ''UTF-8'' @ [CHR 0x22] @ ''?><Error><Code>'' @ code e @ ''</Code><Message>'' @
         xml_escape (message e) @ ''</Message><Resource>'' @ xml_escape resource @
         ''</Resource><RequestId>'' @ request_id @ ''</RequestId></Error>'' \<rparr>"

definition into_response :: "string \<Rightarrow> s3error \<Rightarrow> http_response" where
  "into_response request_id e = into_response_with_resource request_id e []"

section \<open>The escaping is a per-character encoding that can be undone\<close>

definition escape_one :: "char \<Rightarrow> string" where
  "escape_one c =
     (if c = CHR ''&'' then ''&amp;'' else if c = CHR ''<'' then ''&lt;''
      else if c = CHR ''>'' then ''&gt;'' else if c = CHR 0x22 then ''&quot;''
      else if c = CHR 0x27 then ''&apos;'' else [c])"

lemma xml_escape_Cons: "xml_escape (c # s) = escape_one c @ xml_escape s"
  by (auto simp: xml_escape_def escape_one_def replace_char_append)

lemma xml_escape_Nil [simp]: "xml_escape [] = []"
  by (simp add: xml_escape_def)

lemma xml_escape_concat: "xml_escape s = concat (map escape_one s)"
  by (induction s) (auto simp: xml_escape_Cons)

lemma escape_one_safe:
  "x \<in> set (escape_one c) \<Longrightarrow> x \<noteq> CHR ''<'' \<and> x \<noteq> CHR ''>'' \<and> x \<noteq> CHR 0x22 \<and> x \<noteq> CHR 0x27"
  by (auto simp: escape_one_def split: if_splits)

text \<open>A reader of the five predefined entities, as an XML parser has it.\<close>

function xml_unescape :: "string \<Rightarrow> string" where
  "xml_unescape s =
     (case s of [] \<Rightarrow> []
      | c # t \<Rightarrow>
          (if starts_with s ''&amp;'' then CHR ''&'' # xml_unescape (drop 5 s)
           else if starts_with s ''&lt;'' then CHR ''<'' # xml_unescape (drop 4 s)
           else if starts_with s ''&gt;'' then CHR ''>'' # xml_unescape (drop 4 s)
           else if starts_with s ''&quot;'' then CHR 0x22 # xml_unescape (drop 6 s)
           else if starts_with s ''&apos;'' then CHR 0x27 # xml_unescape (drop 6 s)
           else c # xml_unescape t))"
  by pat_completeness auto
termination
  by (relation "measure length") auto

declare xml_unescape.simps [simp del]

lemma xml_unescape_plain: "c \<noteq> CHR ''&'' \<Longrightarrow> xml_unescape (c # s) = c # xml_unescape s"
  by (subst xml_unescape.simps) (simp add: starts_with_def)

lemma xml_unescape_Nil [simp]: "xml_unescape [] = []"
  by (subst xml_unescape.simps) simp

lemma xml_unescape_entities:
  "xml_unescape (''&amp;'' @ s) = CHR ''&'' # xml_unescape s"
  "xml_unescape (''&lt;'' @ s) = CHR ''<'' # xml_unescape s"
  "xml_unescape (''&gt;'' @ s) = CHR ''>'' # xml_unescape s"
  "xml_unescape (''&quot;'' @ s) = CHR 0x22 # xml_unescape s"
  "xml_unescape (''&apos;'' @ s) = CHR 0x27 # xml_unescape s"
  by (subst xml_unescape.simps, simp add: starts_with_def)+

lemma xml_unescape_escape_one: "xml_unescape (escape_one c @ s) = c # xml_unescape s"
  using xml_unescape_entities [of s]
  by (auto simp: escape_one_def xml_unescape_plain)

lemma xml_unescape_escape: "xml_unescape (xml_escape s) = s"
  by (induction s) (auto simp: xml_escape_Cons xml_unescape_escape_one)

end
