(* ===== verification/Crypto.thy ===== *)
theory Crypto
  imports KP_Prelude
begin

text \<open>
  \<open>src/crypto/mod.rs\<close> and the local key providers of \<open>src/crypto/provider.rs\<close>: the encrypted
  container (header, sealed chunks), its streaming and buffered readers, and the wrapping of the
  per-object data key.  AES-256-GCM, ML-KEM-1024 and Argon2id are third-party crates: they are the
  record \<open>crypto_lib\<close>, with the laws the code relies on in \<open>aead_laws\<close> and \<open>kem_laws\<close>.  The random
  bytes an operation draws are the argument \<open>entropy\<close>.
\<close>

section \<open>The libraries\<close>

record crypto_lib =
  aes_seal :: "bytes \<Rightarrow> bytes \<Rightarrow> bytes \<Rightarrow> bytes"
  aes_open :: "bytes \<Rightarrow> bytes \<Rightarrow> bytes \<Rightarrow> bytes option"
  kem_encap :: "bytes \<Rightarrow> bytes \<Rightarrow> bytes \<times> bytes"
  kem_decap :: "bytes \<Rightarrow> bytes \<Rightarrow> bytes option"
  argon2id :: "bytes \<Rightarrow> bytes \<Rightarrow> bytes option"

record entropy =
  en_dek :: bytes
  en_wrap :: bytes
  en_kem :: bytes
  en_base :: bytes

definition MAGIC :: bytes where "MAGIC = [0x4B, 0x50, 0x45, 0x01]"
definition VERSION :: byte where "VERSION = 1"
definition ALG_AES_MASTER :: byte where "ALG_AES_MASTER = 1"
definition ALG_MLKEM :: byte where "ALG_MLKEM = 2"
definition ALG_KMS :: byte where "ALG_KMS = 3"
definition CHUNK_SIZE :: nat where "CHUNK_SIZE = 65536"
definition TAG_LEN :: nat where "TAG_LEN = 16"
definition NONCE_LEN :: nat where "NONCE_LEN = 12"
definition BASE_NONCE_LEN :: nat where "BASE_NONCE_LEN = 8"
definition MLKEM_CT_LEN :: nat where "MLKEM_CT_LEN = 1568"
definition CHUNK_BLOCK :: nat where "CHUNK_BLOCK = CHUNK_SIZE + TAG_LEN"
definition WRAPPED_DEK_LEN_AES :: nat where "WRAPPED_DEK_LEN_AES = NONCE_LEN + 32 + TAG_LEN"

lemmas crypto_consts = CHUNK_SIZE_def TAG_LEN_def NONCE_LEN_def BASE_NONCE_LEN_def
  MLKEM_CT_LEN_def CHUNK_BLOCK_def WRAPPED_DEK_LEN_AES_def

text \<open>
  AES-256-GCM: opening undoes sealing under the same key and nonce, and the tag adds 16 bytes.
  ML-KEM-1024: decapsulating with the seed of a key pair gives the encapsulated secret.
\<close>

definition aead_laws :: "crypto_lib \<Rightarrow> bool" where
  "aead_laws A = (\<forall>k n p. length k = 32 \<longrightarrow> length n = NONCE_LEN \<longrightarrow>
     aes_open A k n (aes_seal A k n p) = Some p \<and> length (aes_seal A k n p) = length p + TAG_LEN)"

definition kem_laws :: "crypto_lib \<Rightarrow> bytes \<Rightarrow> bytes \<Rightarrow> bool" where
  "kem_laws A seed ek = (\<forall>r ct ss. kem_encap A ek r = (ct, ss) \<longrightarrow>
     kem_decap A seed ct = Some ss \<and> length ss = 32 \<and> length ct = MLKEM_CT_LEN)"

definition entropy_ok :: "entropy \<Rightarrow> bool" where
  "entropy_ok en = (length (en_dek en) = 32 \<and> length (en_wrap en) = NONCE_LEN \<and>
     length (en_base en) = BASE_NONCE_LEN)"

section \<open>Errors\<close>

datatype key_error = KUnavailable string | KUnwrap | KFormat | KUnknown string

datatype crypto_error = CFormat | CDecrypt | CProvider string

fun key_error_display :: "key_error \<Rightarrow> string" where
  "key_error_display (KUnavailable s) = ''key provider unavailable: '' @ s"
| "key_error_display KUnwrap = ''DEK unwrap failed''"
| "key_error_display KFormat = ''malformed wrapped DEK''"
| "key_error_display (KUnknown s) = ''unknown key provider: '' @ s"

fun crypto_of_key_error :: "key_error \<Rightarrow> crypto_error" where
  "crypto_of_key_error KUnwrap = CDecrypt"
| "crypto_of_key_error KFormat = CFormat"
| "crypto_of_key_error e = CProvider (key_error_display e)"

section \<open>Data keys and providers\<close>

record wrapped_dek =
  wd_alg :: byte
  wd_bytes :: bytes

text \<open>The trait \<open>KeyProvider\<close>: the three operations the container code calls.\<close>

record key_provider =
  kp_new_wrapped_dek :: "entropy \<Rightarrow> key_error + bytes \<times> wrapped_dek"
  kp_unwrap_dek :: "wrapped_dek \<Rightarrow> key_error + bytes"
  kp_wrapped_dek_len :: nat

definition wrap_dek :: "crypto_lib \<Rightarrow> bytes \<Rightarrow> bytes \<Rightarrow> bytes \<Rightarrow> bytes" where
  "wrap_dek A nonce master dek = nonce @ aes_seal A master nonce dek"

definition unwrap_dek :: "crypto_lib \<Rightarrow> bytes \<Rightarrow> bytes \<Rightarrow> crypto_error + bytes" where
  "unwrap_dek A master wrapped =
     (if length wrapped < NONCE_LEN + TAG_LEN then Err CFormat
      else case aes_open A master (take NONCE_LEN wrapped) (drop NONCE_LEN wrapped) of
        None \<Rightarrow> Err CDecrypt
      | Some plaintext \<Rightarrow> if length plaintext \<noteq> 32 then Err CFormat else Ok plaintext)"

record pq_keypair =
  pq_seed :: bytes
  pq_ek :: bytes

record file_key_provider =
  fk_master :: bytes
  fk_pq :: "pq_keypair option"

definition decapsulate :: "crypto_lib \<Rightarrow> pq_keypair \<Rightarrow> bytes \<Rightarrow> crypto_error + bytes" where
  "decapsulate A pq ct =
     (case kem_decap A (pq_seed pq) ct of
        None \<Rightarrow> Err CFormat
      | Some ss \<Rightarrow> if length ss \<noteq> 32 then Err CFormat else Ok ss)"

definition file_new_wrapped_dek ::
  "crypto_lib \<Rightarrow> file_key_provider \<Rightarrow> entropy \<Rightarrow> key_error + bytes \<times> wrapped_dek" where
  "file_new_wrapped_dek A p en =
     (case fk_pq p of
        Some pq \<Rightarrow>
          (let (ct, ss) = kem_encap A (pq_ek pq) (en_kem en)
           in Ok (ss, \<lparr> wd_alg = ALG_MLKEM, wd_bytes = ct \<rparr>))
      | None \<Rightarrow>
          (let dek = en_dek en
           in Ok (dek, \<lparr> wd_alg = ALG_AES_MASTER, wd_bytes = wrap_dek A (en_wrap en) (fk_master p) dek \<rparr>)))"

definition file_unwrap_dek :: "crypto_lib \<Rightarrow> file_key_provider \<Rightarrow> wrapped_dek \<Rightarrow> key_error + bytes" where
  "file_unwrap_dek A p w =
     (if wd_alg w = ALG_AES_MASTER then
        (case unwrap_dek A (fk_master p) (wd_bytes w) of Ok d \<Rightarrow> Ok d | Err _ \<Rightarrow> Err KUnwrap)
      else if wd_alg w = ALG_MLKEM then
        (case fk_pq p of
           None \<Rightarrow> Err KFormat
         | Some pq \<Rightarrow>
             (case decapsulate A pq (wd_bytes w) of Ok d \<Rightarrow> Ok d | Err _ \<Rightarrow> Err KUnwrap))
      else Err KFormat)"

definition file_wrapped_dek_len :: "file_key_provider \<Rightarrow> nat" where
  "file_wrapped_dek_len p = (if fk_pq p \<noteq> None then MLKEM_CT_LEN else WRAPPED_DEK_LEN_AES)"

definition file_provider :: "crypto_lib \<Rightarrow> file_key_provider \<Rightarrow> key_provider" where
  "file_provider A p =
     \<lparr> kp_new_wrapped_dek = file_new_wrapped_dek A p, kp_unwrap_dek = file_unwrap_dek A p,
       kp_wrapped_dek_len = file_wrapped_dek_len p \<rparr>"

text \<open>The \<open>passphrase\<close> provider; its store is the pair of files it keeps, if they exist.\<close>

definition pass_new_wrapped_dek ::
  "crypto_lib \<Rightarrow> bytes \<Rightarrow> entropy \<Rightarrow> key_error + bytes \<times> wrapped_dek" where
  "pass_new_wrapped_dek A kek en =
     Ok (en_dek en, \<lparr> wd_alg = ALG_AES_MASTER, wd_bytes = wrap_dek A (en_wrap en) kek (en_dek en) \<rparr>)"

definition pass_unwrap_dek :: "crypto_lib \<Rightarrow> bytes \<Rightarrow> wrapped_dek \<Rightarrow> key_error + bytes" where
  "pass_unwrap_dek A kek w =
     (if wd_alg w = ALG_AES_MASTER then
        (case unwrap_dek A kek (wd_bytes w) of Ok d \<Rightarrow> Ok d | Err _ \<Rightarrow> Err KUnwrap)
      else Err KFormat)"

definition pass_provider :: "crypto_lib \<Rightarrow> bytes \<Rightarrow> key_provider" where
  "pass_provider A kek =
     \<lparr> kp_new_wrapped_dek = pass_new_wrapped_dek A kek, kp_unwrap_dek = pass_unwrap_dek A kek,
       kp_wrapped_dek_len = WRAPPED_DEK_LEN_AES \<rparr>"

record pass_store =
  ps_salt :: "bytes option"
  ps_check :: "bytes option"

definition SENTINEL :: bytes where
  "SENTINEL = map of_char ''KerPlace.passphrase.verifier.v1!''"

definition pass_derive :: "crypto_lib \<Rightarrow> bytes \<Rightarrow> bytes \<Rightarrow> key_error + bytes" where
  "pass_derive A passphrase salt =
     (case argon2id A passphrase salt of
        None \<Rightarrow> Err (KUnavailable ''argon2 derive'')
      | Some kek \<Rightarrow> Ok kek)"

text \<open>\<open>open_or_init\<close> on a writable directory: \<open>salt\<close> is the random salt of a first run.\<close>

definition pass_open_or_init ::
  "crypto_lib \<Rightarrow> pass_store \<Rightarrow> bytes \<Rightarrow> bytes \<Rightarrow> bytes \<Rightarrow> pass_store \<times> (key_error + bytes)" where
  "pass_open_or_init A st passphrase new_salt nonce =
     (if passphrase = [] then
        (st, Err (KUnavailable ''the `passphrase` provider needs a non-empty KP_KEY_PASSPHRASE''))
      else case ps_salt st of
        Some salt \<Rightarrow>
          (st, case pass_derive A passphrase salt of
                 Err e \<Rightarrow> Err e
               | Ok kek \<Rightarrow>
                   (case ps_check st of
                      None \<Rightarrow> Err (KUnavailable ''passphrase.check'')
                    | Some blob \<Rightarrow>
                        if unwrap_dek A kek blob = Ok SENTINEL then Ok kek
                        else Err (KUnavailable ''incorrect KP_KEY_PASSPHRASE for this data directory'')))
      | None \<Rightarrow>
          (case pass_derive A passphrase new_salt of
             Err e \<Rightarrow> (st, Err e)
           | Ok kek \<Rightarrow>
               (\<lparr> ps_salt = Some new_salt, ps_check = Some (wrap_dek A nonce kek SENTINEL) \<rparr>, Ok kek)))"

section \<open>The container\<close>

text \<open>\<open>to_be_bytes\<close> and \<open>from_be_bytes\<close>; the cast of a length to \<open>u16\<close> keeps its low bits.\<close>

definition be16 :: "nat \<Rightarrow> bytes" where
  "be16 n = [word_of_nat (n div 256), word_of_nat n]"

definition from_be16 :: "byte \<Rightarrow> byte \<Rightarrow> nat" where
  "from_be16 a b = unat a * 256 + unat b"

definition be32 :: "32 word \<Rightarrow> bytes" where
  "be32 c = [word_of_nat (unat c div 2 ^ 24), word_of_nat (unat c div 2 ^ 16),
             word_of_nat (unat c div 2 ^ 8), word_of_nat (unat c)]"

definition chunk_nonce :: "bytes \<Rightarrow> 32 word \<Rightarrow> bytes" where
  "chunk_nonce base counter = base @ be32 counter"

definition header_bytes :: "wrapped_dek \<Rightarrow> bytes \<Rightarrow> bytes" where
  "header_bytes w base =
     MAGIC @ [VERSION, wd_alg w] @ be16 (length (wd_bytes w)) @ wd_bytes w @ base"

definition unwrap_dek_for_alg :: "key_provider \<Rightarrow> byte \<Rightarrow> bytes \<Rightarrow> crypto_error + bytes" where
  "unwrap_dek_for_alg P alg wrapped =
     (case kp_unwrap_dek P \<lparr> wd_alg = alg, wd_bytes = wrapped \<rparr> of
        Ok dek \<Rightarrow> Ok dek
      | Err e \<Rightarrow> Err (crypto_of_key_error e))"

definition ctx_header_len :: "key_provider \<Rightarrow> nat" where
  "ctx_header_len P = 8 + kp_wrapped_dek_len P + BASE_NONCE_LEN"

definition encrypt_object :: "crypto_lib \<Rightarrow> entropy \<Rightarrow> bytes \<Rightarrow> bytes \<Rightarrow> bytes" where
  "encrypt_object A en master plaintext =
     (let dek = en_dek en;
          wrapped = wrap_dek A (en_wrap en) master dek
      in header_bytes \<lparr> wd_alg = ALG_AES_MASTER, wd_bytes = wrapped \<rparr> (en_base en)
         @ concat (map (\<lambda>(i, chunk). aes_seal A dek (chunk_nonce (en_base en) (word_of_nat i)) chunk)
             (enumerate 0 (chunks CHUNK_SIZE plaintext))))"

function open_loop ::
  "crypto_lib \<Rightarrow> bytes \<Rightarrow> bytes \<Rightarrow> bytes \<Rightarrow> 32 word \<Rightarrow> bytes \<Rightarrow> crypto_error + bytes" where
  "open_loop A dek base body counter out =
     (if body = [] then Ok out
      else case aes_open A dek (chunk_nonce base counter) (take CHUNK_BLOCK body) of
        None \<Rightarrow> Err CDecrypt
      | Some plaintext \<Rightarrow>
          open_loop A dek base (drop CHUNK_BLOCK body) (counter + 1) (out @ plaintext))"
  by pat_completeness auto
termination
  by (relation "measure (\<lambda>(A, dek, base, body, counter, out). length body)")
    (auto simp: CHUNK_BLOCK_def CHUNK_SIZE_def)

declare open_loop.simps [simp del]

definition decrypt_object_with_ctx :: "crypto_lib \<Rightarrow> key_provider \<Rightarrow> bytes \<Rightarrow> crypto_error + bytes" where
  "decrypt_object_with_ctx A P data =
     (if length data < 8 \<or> take 4 data \<noteq> MAGIC then Err CFormat
      else
        let alg = data ! 5;
            wrapped_len = from_be16 (data ! 6) (data ! 7)
        in if length data < 8 + wrapped_len + BASE_NONCE_LEN then Err CFormat
           else
             let wrapped = take wrapped_len (drop 8 data);
                 base = take BASE_NONCE_LEN (drop (8 + wrapped_len) data)
             in case unwrap_dek_for_alg P alg wrapped of
                  Err e \<Rightarrow> Err e
                | Ok dek \<Rightarrow> open_loop A dek base (drop (8 + wrapped_len + BASE_NONCE_LEN) data) 0 [])"

definition plaintext_len :: "nat \<Rightarrow> nat \<Rightarrow> nat" where
  "plaintext_len ciphertext_len header_len =
     (if ciphertext_len \<le> header_len then 0
      else
        let body = ciphertext_len - header_len;
            full = body div CHUNK_BLOCK;
            rem = body mod CHUNK_BLOCK
        in if rem = 0 then full * CHUNK_SIZE
           else full * CHUNK_SIZE + (rem - TAG_LEN))"

record object_cipher =
  oc_dek :: bytes
  oc_base_nonce :: bytes

definition object_cipher_open ::
  "key_provider \<Rightarrow> bytes \<Rightarrow> crypto_error + object_cipher \<times> nat" where
  "object_cipher_open P header =
     (if length header < 8 \<or> take 4 header \<noteq> MAGIC then Err CFormat
      else
        let alg = header ! 5;
            wrapped_len = from_be16 (header ! 6) (header ! 7);
            header_len = 8 + wrapped_len + BASE_NONCE_LEN
        in if length header < header_len then Err CFormat
           else
             let wrapped = take wrapped_len (drop 8 header);
                 base = take (header_len - (8 + wrapped_len)) (drop (8 + wrapped_len) header)
             in case unwrap_dek_for_alg P alg wrapped of
                  Err e \<Rightarrow> Err e
                | Ok dek \<Rightarrow> Ok (\<lparr> oc_dek = dek, oc_base_nonce = base \<rparr>, header_len))"

definition decrypt_chunk ::
  "crypto_lib \<Rightarrow> object_cipher \<Rightarrow> 32 word \<Rightarrow> bytes \<Rightarrow> crypto_error + bytes" where
  "decrypt_chunk A oc counter block =
     (case aes_open A (oc_dek oc) (chunk_nonce (oc_base_nonce oc) counter) block of
        None \<Rightarrow> Err CDecrypt
      | Some p \<Rightarrow> Ok p)"

section \<open>Streams\<close>

text \<open>
  A \<open>BodyReader\<close>: the bytes it yields and whether it then fails with an I/O error (otherwise it
  ends).  A \<open>read\<close> may return fewer bytes than asked; the fill loops of the source make that
  invisible, so a fill takes \<open>CHUNK_SIZE\<close> bytes, or what is left followed by the end or the error.
\<close>

datatype body = Body (body_bytes: bytes) (body_fails: bool)

function seal_stream ::
  "crypto_lib \<Rightarrow> bytes \<Rightarrow> bytes \<Rightarrow> body \<Rightarrow> 32 word \<Rightarrow> bytes" where
  "seal_stream A dek base (Body p fails) counter =
     (let buf = take CHUNK_SIZE p in
      if length buf < CHUNK_SIZE \<and> fails then []
      else if buf = [] then []
      else aes_seal A dek (chunk_nonce base counter) buf @
        (if length buf < CHUNK_SIZE then []
         else seal_stream A dek base (Body (drop CHUNK_SIZE p) fails) (counter + 1)))"
  by pat_completeness auto
termination
  by (relation "measure (\<lambda>(A, dek, base, b, counter). length (body_bytes b))")
    (auto simp: CHUNK_SIZE_def)

declare seal_stream.simps [simp del]

definition encrypting_reader ::
  "crypto_lib \<Rightarrow> entropy \<Rightarrow> key_provider \<Rightarrow> body \<Rightarrow> crypto_error + body" where
  "encrypting_reader A en P plaintext =
     (case kp_new_wrapped_dek P en of
        Err e \<Rightarrow> Err (crypto_of_key_error e)
      | Ok (dek, wrapped) \<Rightarrow>
          Ok (Body (header_bytes wrapped (en_base en) @ seal_stream A dek (en_base en) plaintext 0) False))"

text \<open>\<open>read_exact\<close>: the bytes and the rest of the stream, or an error.\<close>

definition read_exact :: "nat \<Rightarrow> body \<Rightarrow> (bytes \<times> body) option" where
  "read_exact n b =
     (if length (body_bytes b) < n then None
      else Some (take n (body_bytes b), Body (drop n (body_bytes b)) (body_fails b)))"

definition open_stream_header ::
  "key_provider \<Rightarrow> body \<Rightarrow> crypto_error + (bytes \<times> bytes) \<times> body" where
  "open_stream_header P ciphertext =
     (case read_exact 8 ciphertext of
        None \<Rightarrow> Err CFormat
      | Some (head, c1) \<Rightarrow>
          if take 4 head \<noteq> MAGIC then Err CFormat
          else
            let alg = head ! 5;
                wrapped_len = from_be16 (head ! 6) (head ! 7)
            in case read_exact (wrapped_len + BASE_NONCE_LEN) c1 of
                 None \<Rightarrow> Err CFormat
               | Some (rest, c2) \<Rightarrow>
                   (case unwrap_dek_for_alg P alg (take wrapped_len rest) of
                      Err e \<Rightarrow> Err e
                    | Ok dek \<Rightarrow> Ok ((dek, drop wrapped_len rest), c2)))"

function stream_chunks :: "crypto_lib \<Rightarrow> bytes \<Rightarrow> bytes \<Rightarrow> body \<Rightarrow> 32 word \<Rightarrow> bytes" where
  "stream_chunks A dek base (Body c fails) counter =
     (let buf = take CHUNK_BLOCK c in
      if length buf < CHUNK_BLOCK \<and> fails then []
      else if buf = [] then []
      else case aes_open A dek (chunk_nonce base counter) buf of
        None \<Rightarrow> []
      | Some plain \<Rightarrow> plain @
          (if length buf < CHUNK_BLOCK then []
           else stream_chunks A dek base (Body (drop CHUNK_BLOCK c) fails) (counter + 1)))"
  by pat_completeness auto
termination
  by (relation "measure (\<lambda>(A, dek, base, b, counter). length (body_bytes b))")
    (auto simp: CHUNK_BLOCK_def CHUNK_SIZE_def)

declare stream_chunks.simps [simp del]

definition decrypting_reader_checked ::
  "crypto_lib \<Rightarrow> key_provider \<Rightarrow> body \<Rightarrow> crypto_error + body" where
  "decrypting_reader_checked A P ciphertext =
     (case open_stream_header P ciphertext of
        Err e \<Rightarrow> Err e
      | Ok ((dek, base), rest) \<Rightarrow> Ok (Body (stream_chunks A dek base rest 0) False))"

end
