(* ===== verification/Crypto_Facts.thy ===== *)
theory Crypto_Facts
  imports Crypto
begin

text \<open>
  What the container code promises: sealing and opening agree chunk by chunk, the three readers
  (buffered, streaming, random access) give the plaintext back for every key provider that meets
  the custody contract, and the length of a plaintext can be computed from its container.  The
  contract is the locale \<open>key_custody\<close>, met by the file and the passphrase provider.
\<close>

section \<open>Big-endian numbers and nonces\<close>

lemma length_be32 [simp]: "length (be32 c) = 4"
  by (simp add: be32_def)

lemma length_be16 [simp]: "length (be16 n) = 2"
  by (simp add: be16_def)

lemma unat_byte_of_nat: "unat (word_of_nat n :: byte) = n mod 256"
  by (simp add: unat_of_nat)

lemma from_be16_be16: "n < 65536 \<Longrightarrow> from_be16 (be16 n ! 0) (be16 n ! 1) = n"
  by (simp add: be16_def from_be16_def unat_byte_of_nat)

lemma unat_lt: "unat (x :: 32 word) < 2 ^ 32"
  using unsigned_less [of x] by simp

lemma be32_inj: "be32 c = be32 d \<Longrightarrow> c = d"
proof -
  assume eq: "be32 c = be32 d"
  have dec: "unat x = ((unat x div 2 ^ 24 mod 256 * 256 + unat x div 2 ^ 16 mod 256) * 256
    + unat x div 2 ^ 8 mod 256) * 256 + unat x mod 256" for x :: "32 word"
  proof -
    let ?n = "unat x"
    have top: "?n div 2 ^ 24 mod 256 = ?n div 2 ^ 24" using unat_lt [of x] by simp
    have steps: "?n div 2 ^ 8 div 256 = ?n div 2 ^ 16" "?n div 2 ^ 16 div 256 = ?n div 2 ^ 24"
      by (simp_all flip: div_mult2_eq)
    have "?n = ?n div 2 ^ 8 * 256 + ?n mod 256" by simp
    moreover have "?n div 2 ^ 8 = ?n div 2 ^ 16 * 256 + ?n div 2 ^ 8 mod 256"
      by (metis div_mult_mod_eq steps(1))
    moreover have "?n div 2 ^ 16 = ?n div 2 ^ 24 * 256 + ?n div 2 ^ 16 mod 256"
      by (metis div_mult_mod_eq steps(2))
    ultimately show ?thesis unfolding top by metis
  qed
  from eq have *: "unat (word_of_nat (unat c div 2 ^ k) :: byte) = unat (word_of_nat (unat d div 2 ^ k) :: byte)"
    if "k \<in> {24, 16, 8, 0}" for k
    using that by (auto simp: be32_def)
  have "unat c div 2 ^ k mod 256 = unat d div 2 ^ k mod 256" if "k \<in> {24, 16, 8, 0}" for k
    using * [OF that] by (simp add: unat_byte_of_nat)
  from this [of 24] this [of 16] this [of 8] this [of 0] have "unat c = unat d"
    by (subst dec [of c], subst dec [of d]) simp
  then show "c = d" by (rule word_unat_eq_iff [THEN iffD2])
qed

lemma chunk_nonce_inj: "chunk_nonce base c = chunk_nonce base d \<longleftrightarrow> c = d"
  by (auto simp: chunk_nonce_def dest: be32_inj)

lemma length_chunk_nonce: "length base = BASE_NONCE_LEN \<Longrightarrow> length (chunk_nonce base c) = NONCE_LEN"
  by (simp add: chunk_nonce_def crypto_consts)

section \<open>Sealing and opening chunks\<close>

definition aead_key :: "crypto_lib \<Rightarrow> bytes \<Rightarrow> bytes \<Rightarrow> bool" where
  "aead_key A k base = (aead_laws A \<and> length k = 32 \<and> length base = BASE_NONCE_LEN)"

lemma aead_open_seal:
  "aead_key A k base \<Longrightarrow>
   aes_open A k (chunk_nonce base c) (aes_seal A k (chunk_nonce base c) p) = Some p"
  by (simp add: aead_key_def aead_laws_def length_chunk_nonce)

lemma length_seal:
  "aead_key A k base \<Longrightarrow>
   length (aes_seal A k (chunk_nonce base c) p) = length p + TAG_LEN"
  by (simp add: aead_key_def aead_laws_def length_chunk_nonce)

lemma seal_stream_Nil [simp]: "seal_stream A k base (Body [] f) c = []"
  by (subst seal_stream.simps) simp

lemma seal_stream_short:
  "p \<noteq> [] \<Longrightarrow> length p < CHUNK_SIZE \<Longrightarrow>
   seal_stream A k base (Body p f) c = (if f then [] else aes_seal A k (chunk_nonce base c) p)"
  by (subst seal_stream.simps) simp

lemma seal_stream_long:
  "CHUNK_SIZE \<le> length p \<Longrightarrow> seal_stream A k base (Body p f) c =
   aes_seal A k (chunk_nonce base c) (take CHUNK_SIZE p) @
   seal_stream A k base (Body (drop CHUNK_SIZE p) f) (c + 1)"
  by (subst seal_stream.simps) (auto simp: min_def CHUNK_SIZE_def)

lemmas seal_stream_cases = seal_stream_short seal_stream_long

text \<open>Induction over a payload, one chunk at a time.\<close>

lemma chunk_induct [case_names Nil Short Long]:
  fixes P :: "'a list \<Rightarrow> 'c :: {plus, one} \<Rightarrow> bool" and p :: "'a list" and c :: 'c
  assumes "\<And>c. P [] c"
    and "\<And>p c. p \<noteq> [] \<Longrightarrow> length p < CHUNK_SIZE \<Longrightarrow> P p c"
    and "\<And>p c. CHUNK_SIZE \<le> length p \<Longrightarrow> P (drop CHUNK_SIZE p) (c + 1) \<Longrightarrow> P p c"
  shows "P p c"
proof (induction "length p" arbitrary: p c rule: less_induct)
  case (less p c)
  consider "p = []" | "p \<noteq> []" "length p < CHUNK_SIZE" | "CHUNK_SIZE \<le> length p" by linarith
  then show ?case
  proof cases
    case 1
    then show ?thesis using assms(1) by simp
  next
    case 2
    then show ?thesis by (rule assms(2))
  next
    case 3
    then have "length (drop CHUNK_SIZE p) < length p" by (simp add: CHUNK_SIZE_def)
    then have "P (drop CHUNK_SIZE p) (c + 1)" by (rule less)
    with 3 show ?thesis by (rule assms(3))
  qed
qed

lemma sealed_length:
  assumes "aead_key A k base"
  shows "length (seal_stream A k base (Body p False) c) = length p + TAG_LEN * div_ceil (length p) CHUNK_SIZE"
proof (induction p c rule: chunk_induct)
  case (Nil c)
  then show ?case by (simp add: div_ceil_def)
next
  case (Short p c)
  then show ?case by (simp add: seal_stream_short length_seal [OF assms] div_ceil_def)
next
  case (Long p c)
  let ?n = "length p - CHUNK_SIZE"
  have "div_ceil (length p) CHUNK_SIZE = Suc (div_ceil ?n CHUNK_SIZE)"
    using Long(1) by (simp add: div_ceil_def le_div_geq le_mod_geq CHUNK_SIZE_def)
  with Long show ?case by (simp add: seal_stream_long length_seal [OF assms] min_def)
qed

lemma sealed_long:
  assumes "aead_key A k base" "CHUNK_SIZE \<le> length p"
  shows "seal_stream A k base (Body p False) c \<noteq> []"
    and "CHUNK_BLOCK \<le> length (seal_stream A k base (Body p False) c)"
    and "take CHUNK_BLOCK (seal_stream A k base (Body p False) c) = aes_seal A k (chunk_nonce base c) (take CHUNK_SIZE p)"
    and "drop CHUNK_BLOCK (seal_stream A k base (Body p False) c) =
      seal_stream A k base (Body (drop CHUNK_SIZE p) False) (c + 1)"
proof -
  have "length (aes_seal A k (chunk_nonce base c) (take CHUNK_SIZE p)) = CHUNK_BLOCK"
    using assms by (simp add: length_seal min_def CHUNK_BLOCK_def)
  then show "CHUNK_BLOCK \<le> length (seal_stream A k base (Body p False) c)"
    and "take CHUNK_BLOCK (seal_stream A k base (Body p False) c) = aes_seal A k (chunk_nonce base c) (take CHUNK_SIZE p)"
    and "drop CHUNK_BLOCK (seal_stream A k base (Body p False) c) =
      seal_stream A k base (Body (drop CHUNK_SIZE p) False) (c + 1)"
    using assms(2) by (simp_all add: seal_stream_long)
  then show "seal_stream A k base (Body p False) c \<noteq> []"
    by (auto simp: CHUNK_BLOCK_def TAG_LEN_def)
qed

lemma sealed_short:
  assumes "aead_key A k base" "p \<noteq> []" "length p < CHUNK_SIZE"
  shows "length (aes_seal A k (chunk_nonce base c) p) < CHUNK_BLOCK"
    and "aes_seal A k (chunk_nonce base c) p \<noteq> []"
  using assms length_seal [OF assms(1), of c p] by (auto simp: CHUNK_BLOCK_def)

lemma open_sealed:
  assumes "aead_key A k base"
  shows "open_loop A k base (seal_stream A k base (Body p False) c) c out = Ok (out @ p)"
proof (induction p c arbitrary: out rule: chunk_induct)
  case (Nil c)
  then show ?case by (simp add: open_loop.simps)
next
  case (Short p c)
  note facts = sealed_short [OF assms Short, of c]
  show ?case
    by (subst open_loop.simps)
      (simp add: seal_stream_short [OF Short] facts aead_open_seal [OF assms] less_imp_le open_loop.simps)
next
  case (Long p c)
  show ?case
    by (subst open_loop.simps) (simp add: sealed_long [OF assms Long(1)] aead_open_seal [OF assms] Long(2))
qed

lemma stream_sealed:
  assumes "aead_key A k base"
  shows "stream_chunks A k base (Body (seal_stream A k base (Body p False) c) False) c = p"
proof (induction p c rule: chunk_induct)
  case (Nil c)
  then show ?case by (simp add: stream_chunks.simps)
next
  case (Short p c)
  note facts = sealed_short [OF assms Short, of c]
  show ?case
    by (subst stream_chunks.simps)
      (simp add: seal_stream_short [OF Short] facts aead_open_seal [OF assms] less_imp_le)
next
  case (Long p c)
  note facts = sealed_long [OF assms Long(1), of c]
  have len: "length (take CHUNK_BLOCK (seal_stream A k base (Body p False) c)) = CHUNK_BLOCK"
    using facts(2) by simp
  then have "aes_seal A k (chunk_nonce base c) (take CHUNK_SIZE p) \<noteq> []"
    and "length (aes_seal A k (chunk_nonce base c) (take CHUNK_SIZE p)) = CHUNK_BLOCK"
    unfolding facts(3) by (auto simp: CHUNK_BLOCK_def TAG_LEN_def)
  with Long(2) show ?case
    by (subst stream_chunks.simps) (simp add: Let_def facts(3,4) aead_open_seal [OF assms])
qed

text \<open>Whole chunks stream the same when the container breaks off behind them with an error.\<close>

lemma stream_sealed_whole:
  assumes "aead_key A k base"
  shows "length p mod CHUNK_SIZE = 0 \<Longrightarrow> stream_chunks A k base (Body (seal_stream A k base (Body p False) c) f) c = p"
proof (induction p c rule: chunk_induct)
  case (Nil c)
  then show ?case by (simp add: stream_chunks.simps)
next
  case (Long p c)
  have "length (drop CHUNK_SIZE p) mod CHUNK_SIZE = 0"
    using Long(1,3) by (simp add: le_mod_geq)
  note IH = Long(2) [OF this]
  note facts = sealed_long [OF assms Long(1), of c]
  have len: "length (take CHUNK_BLOCK (seal_stream A k base (Body p False) c)) = CHUNK_BLOCK"
    using facts(2) by simp
  then have "aes_seal A k (chunk_nonce base c) (take CHUNK_SIZE p) \<noteq> []"
    and "length (aes_seal A k (chunk_nonce base c) (take CHUNK_SIZE p)) = CHUNK_BLOCK"
    unfolding facts(3) by (auto simp: CHUNK_BLOCK_def TAG_LEN_def)
  with IH show ?case
    by (subst stream_chunks.simps) (simp add: Let_def facts(3,4) aead_open_seal [OF assms])
qed simp

text \<open>Random access: block \<open>i\<close> of the container is the seal of chunk \<open>i\<close>.\<close>

lemma sealed_block:
  assumes "aead_key A k base"
  shows "i * CHUNK_SIZE < length p \<Longrightarrow>
   take CHUNK_BLOCK (drop (i * CHUNK_BLOCK) (seal_stream A k base (Body p False) c)) =
   aes_seal A k (chunk_nonce base (c + word_of_nat i)) (take CHUNK_SIZE (drop (i * CHUNK_SIZE) p))"
proof (induction i arbitrary: p c)
  case 0
  then have ne: "p \<noteq> []" by auto
  show ?case
  proof (cases "length p < CHUNK_SIZE")
    case True
    with sealed_short [OF assms ne True, of c] ne show ?thesis
      by (simp add: seal_stream_short less_imp_le)
  next
    case False
    then show ?thesis by (simp add: sealed_long [OF assms])
  qed
next
  case (Suc i)
  then have long: "CHUNK_SIZE \<le> length p" and i: "i * CHUNK_SIZE < length (drop CHUNK_SIZE p)" by auto
  have "drop (Suc i * CHUNK_BLOCK) (seal_stream A k base (Body p False) c) =
    drop (i * CHUNK_BLOCK) (seal_stream A k base (Body (drop CHUNK_SIZE p) False) (c + 1))"
    using sealed_long(4) [OF assms long, of c] by (metis add.commute drop_drop mult_Suc)
  with Suc.IH [OF i, of "c + 1"] show ?case by (simp add: add.commute add.left_commute)
qed

text \<open>A container cut after whole blocks is the container of the plaintext cut after whole chunks.\<close>

lemma sealed_cut:
  assumes "aead_key A k base"
  shows "i * CHUNK_SIZE \<le> length p \<Longrightarrow>
   take (i * CHUNK_BLOCK) (seal_stream A k base (Body p False) c) =
   seal_stream A k base (Body (take (i * CHUNK_SIZE) p) False) c"
proof (induction i arbitrary: p c)
  case (Suc i)
  then have long: "CHUNK_SIZE \<le> length p" and i: "i * CHUNK_SIZE \<le> length (drop CHUNK_SIZE p)" by auto
  have "take (Suc i * CHUNK_BLOCK) (seal_stream A k base (Body p False) c) =
    aes_seal A k (chunk_nonce base c) (take CHUNK_SIZE p) @
    take (i * CHUNK_BLOCK) (seal_stream A k base (Body (drop CHUNK_SIZE p) False) (c + 1))"
    using sealed_long(3,4) [OF assms long, of c] by (metis mult_Suc take_add)
  also have "\<dots> = seal_stream A k base (Body (take (Suc i * CHUNK_SIZE) p) False) c"
    using Suc.IH [OF i] long Suc.prems by (simp add: seal_stream_long min_def drop_take)
  finally show ?case .
qed simp

text \<open>A source that fails mid-object is sealed up to its last whole chunk, and the stream ends.\<close>

lemma seal_stream_fails:
  "seal_stream A k base (Body p True) c =
   seal_stream A k base (Body (take (length p div CHUNK_SIZE * CHUNK_SIZE) p) False) c"
proof (induction p c rule: chunk_induct)
  case (Short p c)
  then show ?case by (simp add: seal_stream_short)
next
  case (Long p c)
  have "length p div CHUNK_SIZE * CHUNK_SIZE = CHUNK_SIZE + (length p - CHUNK_SIZE) div CHUNK_SIZE * CHUNK_SIZE"
    using Long(1) by (simp add: le_div_geq CHUNK_SIZE_def)
  with Long show ?case by (simp add: seal_stream_long drop_take)
qed simp

lemma seal_enumerate:
  "concat (map (\<lambda>(i, chunk). aes_seal A k (chunk_nonce base (word_of_nat i)) chunk)
     (enumerate i (chunks CHUNK_SIZE p))) = seal_stream A k base (Body p False) (word_of_nat i)"
proof (induction p i rule: chunk_induct)
  case (Nil c)
  then show ?case by simp
next
  case (Short p c)
  then show ?case by (simp add: chunks_step CHUNK_SIZE_def seal_stream_short)
next
  case (Long p c)
  then have "p \<noteq> []" by (auto simp: CHUNK_SIZE_def)
  with Long show ?case
    by (simp add: chunks_step CHUNK_SIZE_def seal_stream_long [unfolded CHUNK_SIZE_def] add.commute)
qed

lemma plaintext_len_sealed:
  "plaintext_len (h + (n + TAG_LEN * div_ceil n CHUNK_SIZE)) h = n"
proof -
  let ?q = "n div CHUNK_SIZE" and ?r = "n mod CHUNK_SIZE"
  have n: "n = ?q * CHUNK_SIZE + ?r" by simp
  show ?thesis
  proof (cases "?r = 0")
    case True
    then have "n + TAG_LEN * div_ceil n CHUNK_SIZE = ?q * CHUNK_BLOCK"
      using n by (simp add: div_ceil_def CHUNK_BLOCK_def algebra_simps)
    moreover have "0 < CHUNK_BLOCK" by (simp add: CHUNK_BLOCK_def TAG_LEN_def)
    ultimately have "plaintext_len (h + (n + TAG_LEN * div_ceil n CHUNK_SIZE)) h = ?q * CHUNK_SIZE"
      by (simp only:) (simp add: plaintext_len_def Let_def)
    with True n show ?thesis by simp
  next
    case False
    then have b: "n + TAG_LEN * div_ceil n CHUNK_SIZE = ?r + TAG_LEN + ?q * CHUNK_BLOCK"
      using n by (simp add: div_ceil_def CHUNK_BLOCK_def algebra_simps)
    have "?r + TAG_LEN < CHUNK_BLOCK" by (simp add: CHUNK_BLOCK_def CHUNK_SIZE_def)
    then have "(?r + TAG_LEN + ?q * CHUNK_BLOCK) div CHUNK_BLOCK = ?q"
      "(?r + TAG_LEN + ?q * CHUNK_BLOCK) mod CHUNK_BLOCK = ?r + TAG_LEN" by simp_all
    then have "plaintext_len (h + (?r + TAG_LEN + ?q * CHUNK_BLOCK)) h = ?q * CHUNK_SIZE + ?r"
      by (simp add: plaintext_len_def Let_def TAG_LEN_def)
    with n show ?thesis unfolding b by simp
  qed
qed

end
