(* ===== verification/Custody.thy ===== *)
theory Custody
  imports Crypto_Facts
begin

text \<open>
  The custody contract between the container code and a key provider (the trait \<open>KeyProvider\<close> of
  \<open>src/crypto/provider.rs\<close>) as the locale \<open>key_custody\<close>, the container lemmas it gives, its
  instances for the file and the passphrase provider, and the properties of the encrypted container.
\<close>

section \<open>The contract\<close>

locale key_custody =
  fixes ok :: bool
    and P :: key_provider
  assumes custody: "ok \<Longrightarrow> entropy_ok en \<Longrightarrow> kp_new_wrapped_dek P en = Ok (dek, w) \<Longrightarrow>
      kp_unwrap_dek P w = Ok dek \<and> length dek = 32 \<and> length (wd_bytes w) = kp_wrapped_dek_len P"
    and short: "ok \<Longrightarrow> kp_wrapped_dek_len P < 65536"
begin

lemma header_length:
  "ok \<Longrightarrow> entropy_ok en \<Longrightarrow> kp_new_wrapped_dek P en = Ok (dek, w) \<Longrightarrow>
   length (header_bytes w (en_base en)) = ctx_header_len P"
  using custody [of en dek w] by (simp add: header_bytes_def ctx_header_len_def entropy_ok_def MAGIC_def)

lemma header_fields:
  assumes "ok" "entropy_ok en" "kp_new_wrapped_dek P en = Ok (dek, w)"
  shows "take 4 (header_bytes w (en_base en) @ rest) = MAGIC"
    and "(header_bytes w (en_base en) @ rest) ! 5 = wd_alg w"
    and "from_be16 ((header_bytes w (en_base en) @ rest) ! 6) ((header_bytes w (en_base en) @ rest) ! 7)
         = length (wd_bytes w)"
    and "take (length (wd_bytes w)) (drop 8 (header_bytes w (en_base en) @ rest)) = wd_bytes w"
    and "drop (8 + length (wd_bytes w)) (header_bytes w (en_base en) @ rest) = en_base en @ rest"
proof -
  let ?d = "header_bytes w (en_base en) @ rest"
  have small: "length (wd_bytes w) < 65536"
    using custody [OF assms] short [OF assms(1)] by simp
  show "take 4 ?d = MAGIC" "?d ! 5 = wd_alg w"
    by (simp_all add: header_bytes_def MAGIC_def)
  have "?d ! 6 = be16 (length (wd_bytes w)) ! 0" "?d ! 7 = be16 (length (wd_bytes w)) ! 1"
    by (simp_all add: header_bytes_def MAGIC_def be16_def)
  then show "from_be16 (?d ! 6) (?d ! 7) = length (wd_bytes w)"
    using from_be16_be16 [OF small] by simp
  show "take (length (wd_bytes w)) (drop 8 ?d) = wd_bytes w"
    "drop (8 + length (wd_bytes w)) ?d = en_base en @ rest"
    using drop_drop [of "length (wd_bytes w)" 8 ?d]
    by (simp_all add: header_bytes_def MAGIC_def be16_def add.commute)
qed

lemma header_opens:
  assumes "ok" "entropy_ok en" "kp_new_wrapped_dek P en = Ok (dek, w)"
  shows "unwrap_dek_for_alg P (wd_alg w) (wd_bytes w) = Ok dek"
    and "length (en_base en) = BASE_NONCE_LEN"
  using custody [OF assms] assms(2)
  by (cases w; simp add: unwrap_dek_for_alg_def entropy_ok_def)+

lemma header_long:
  assumes "ok" "entropy_ok en" "kp_new_wrapped_dek P en = Ok (dek, w)"
  shows "length (header_bytes w (en_base en) @ rest) = 8 + length (wd_bytes w) + BASE_NONCE_LEN + length rest"
  using assms by (simp add: header_bytes_def MAGIC_def entropy_ok_def)

lemma aead_key_new:
  "ok \<Longrightarrow> entropy_ok en \<Longrightarrow> kp_new_wrapped_dek P en = Ok (dek, w) \<Longrightarrow> aead_laws A \<Longrightarrow>
   aead_key A dek (en_base en)"
  using custody [of en dek w] by (simp add: aead_key_def entropy_ok_def)

lemma open_stream_header_ok:
  assumes "ok" "entropy_ok en" "kp_new_wrapped_dek P en = Ok (dek, w)"
  shows "open_stream_header P (Body (header_bytes w (en_base en) @ rest) f) = Ok ((dek, en_base en), Body rest f)"
proof -
  let ?d = "header_bytes w (en_base en) @ rest"
  note h = header_fields [OF assms, of rest] and l = header_long [OF assms, of rest]
  have rd: "read_exact 8 (Body ?d f) = Some (take 8 ?d, Body (drop 8 ?d) f)"
    using l by (simp add: read_exact_def)
  have idx: "take 8 ?d ! 5 = wd_alg w" "take 8 ?d ! 6 = ?d ! 6" "take 8 ?d ! 7 = ?d ! 7"
    "take 4 (take 8 ?d) = MAGIC"
    using h(1,2) take_take [of 4 8 ?d] by (simp_all del: take_append)
  have "drop 8 ?d = wd_bytes w @ en_base en @ rest"
    by (simp add: header_bytes_def MAGIC_def be16_def)
  then have rd2: "read_exact (length (wd_bytes w) + BASE_NONCE_LEN) (Body (drop 8 ?d) f) =
    Some (wd_bytes w @ en_base en, Body rest f)"
    using header_opens [OF assms] by (simp add: read_exact_def)
  show ?thesis
    unfolding open_stream_header_def rd using idx h(3) header_opens [OF assms] rd2 by (simp add: Let_def)
qed

lemma object_cipher_open_ok:
  assumes "ok" "entropy_ok en" "kp_new_wrapped_dek P en = Ok (dek, w)"
  shows "object_cipher_open P (header_bytes w (en_base en) @ rest) =
    Ok (\<lparr> oc_dek = dek, oc_base_nonce = en_base en \<rparr>, ctx_header_len P)"
  using header_fields [OF assms, of rest] header_long [OF assms, of rest] header_length [OF assms]
    header_long [OF assms, of "[]"] header_opens [OF assms]
  by (simp add: object_cipher_open_def Let_def)

lemma decrypt_object_header:
  assumes "ok" "entropy_ok en" "kp_new_wrapped_dek P en = Ok (dek, w)"
  shows "decrypt_object_with_ctx A P (header_bytes w (en_base en) @ rest) =
    open_loop A dek (en_base en) rest 0 []"
proof -
  let ?d = "header_bytes w (en_base en) @ rest"
  have "drop (8 + length (wd_bytes w) + BASE_NONCE_LEN) ?d = rest"
    using header_fields(5) [OF assms, of rest] header_opens(2) [OF assms] by (metis append_eq_conv_conj drop_drop add.commute)
  with header_fields [OF assms, of rest] header_long [OF assms, of rest] header_opens [OF assms] show ?thesis
    by (simp add: decrypt_object_with_ctx_def Let_def)
qed

lemma container_shape:
  assumes "encrypting_reader A en P src = Ok c"
  obtains dek w where "kp_new_wrapped_dek P en = Ok (dek, w)"
    "c = Body (header_bytes w (en_base en) @ seal_stream A dek (en_base en) src 0) False"
  using assms by (auto simp: encrypting_reader_def split: sum.splits)

lemma stream_roundtrip:
  assumes "ok" "entropy_ok en" "aead_laws A" "encrypting_reader A en P (Body p False) = Ok c"
  shows "decrypting_reader_checked A P c = Ok (Body p False)"
    and "decrypt_object_with_ctx A P (body_bytes c) = Ok p"
    and "plaintext_len (length (body_bytes c)) (ctx_header_len P) = length p"
proof -
  from container_shape [OF assms(4)] obtain dek w where new: "kp_new_wrapped_dek P en = Ok (dek, w)"
    and c: "c = Body (header_bytes w (en_base en) @ seal_stream A dek (en_base en) (Body p False) 0) False" .
  note key = aead_key_new [OF assms(1,2) new assms(3)]
  show "decrypting_reader_checked A P c = Ok (Body p False)"
    using open_stream_header_ok [OF assms(1,2) new] stream_sealed [OF key]
    by (simp add: decrypting_reader_checked_def c)
  show "decrypt_object_with_ctx A P (body_bytes c) = Ok p"
    using decrypt_object_header [OF assms(1,2) new] open_sealed [OF key] by (simp add: c)
  show "plaintext_len (length (body_bytes c)) (ctx_header_len P) = length p"
    using header_length [OF assms(1,2) new] sealed_length [OF key] plaintext_len_sealed by (simp add: c)
qed

lemma range_chunk:
  assumes "ok" "entropy_ok en" "aead_laws A" "encrypting_reader A en P (Body p False) = Ok c"
    and "i * CHUNK_SIZE < length p" "object_cipher_open P (body_bytes c) = Ok (oc, h)"
  shows "decrypt_chunk A oc (word_of_nat i) (take CHUNK_BLOCK (drop (h + i * CHUNK_BLOCK) (body_bytes c)))
    = Ok (take CHUNK_SIZE (drop (i * CHUNK_SIZE) p))"
proof -
  from container_shape [OF assms(4)] obtain dek w where new: "kp_new_wrapped_dek P en = Ok (dek, w)"
    and c: "c = Body (header_bytes w (en_base en) @ seal_stream A dek (en_base en) (Body p False) 0) False" .
  note key = aead_key_new [OF assms(1,2) new assms(3)]
  from assms(6) have oc: "oc = \<lparr> oc_dek = dek, oc_base_nonce = en_base en \<rparr>" and h: "h = ctx_header_len P"
    using object_cipher_open_ok [OF assms(1,2) new] by (simp_all add: c)
  have "drop (h + i * CHUNK_BLOCK) (body_bytes c) =
    drop (i * CHUNK_BLOCK) (seal_stream A dek (en_base en) (Body p False) 0)"
    using header_length [OF assms(1,2) new] by (simp add: c h)
  with sealed_block [OF key assms(5), of 0] aead_open_seal [OF key] show ?thesis
    by (simp add: decrypt_chunk_def oc)
qed

lemma cut_container:
  assumes "ok" "entropy_ok en" "aead_laws A" "encrypting_reader A en P (Body p False) = Ok c"
    and "i * CHUNK_SIZE \<le> length p"
  shows "decrypting_reader_checked A P (Body (take (ctx_header_len P + i * CHUNK_BLOCK) (body_bytes c)) f)
      = Ok (Body (take (i * CHUNK_SIZE) p) False)"
    and "decrypt_object_with_ctx A P (take (ctx_header_len P + i * CHUNK_BLOCK) (body_bytes c))
      = Ok (take (i * CHUNK_SIZE) p)"
proof -
  from container_shape [OF assms(4)] obtain dek w where new: "kp_new_wrapped_dek P en = Ok (dek, w)"
    and c: "c = Body (header_bytes w (en_base en) @ seal_stream A dek (en_base en) (Body p False) 0) False" .
  note key = aead_key_new [OF assms(1,2) new assms(3)]
  have cut: "take (ctx_header_len P + i * CHUNK_BLOCK) (body_bytes c) =
    header_bytes w (en_base en) @ seal_stream A dek (en_base en) (Body (take (i * CHUNK_SIZE) p) False) 0"
    using header_length [OF assms(1,2) new] sealed_cut [OF key assms(5), of 0] by (simp add: c)
  have "length (take (i * CHUNK_SIZE) p) mod CHUNK_SIZE = 0" using assms(5) by (simp add: min_def)
  then show "decrypting_reader_checked A P (Body (take (ctx_header_len P + i * CHUNK_BLOCK) (body_bytes c)) f)
      = Ok (Body (take (i * CHUNK_SIZE) p) False)"
    using open_stream_header_ok [OF assms(1,2) new] stream_sealed_whole [OF key]
    by (simp add: decrypting_reader_checked_def cut)
  show "decrypt_object_with_ctx A P (take (ctx_header_len P + i * CHUNK_BLOCK) (body_bytes c))
      = Ok (take (i * CHUNK_SIZE) p)"
    using decrypt_object_header [OF assms(1,2) new] open_sealed [OF key] by (simp add: cut)
qed

lemma failing_source:
  assumes "ok" "entropy_ok en" "aead_laws A" "kp_new_wrapped_dek P en = Ok (dek, w)"
  shows "\<exists>c. encrypting_reader A en P (Body p True) = Ok c \<and> \<not> body_fails c \<and>
    decrypting_reader_checked A P c = Ok (Body (take (length p div CHUNK_SIZE * CHUNK_SIZE) p) False)"
  using open_stream_header_ok [OF assms(1,2,4)] stream_sealed [OF aead_key_new [OF assms(1,2,4,3)]] assms(4)
  by (simp add: encrypting_reader_def decrypting_reader_checked_def seal_stream_fails)

end

section \<open>The providers meet it\<close>

lemma unwrap_wrap:
  "aead_laws A \<Longrightarrow> length master = 32 \<Longrightarrow> length nonce = NONCE_LEN \<Longrightarrow> length dek = 32 \<Longrightarrow>
   unwrap_dek A master (wrap_dek A nonce master dek) = Ok dek \<and>
   length (wrap_dek A nonce master dek) = WRAPPED_DEK_LEN_AES"
  by (simp add: unwrap_dek_def wrap_dek_def aead_laws_def WRAPPED_DEK_LEN_AES_def)

definition file_keys_ok :: "crypto_lib \<Rightarrow> file_key_provider \<Rightarrow> bool" where
  "file_keys_ok A p =
     (aead_laws A \<and> length (fk_master p) = 32 \<and>
      (case fk_pq p of None \<Rightarrow> True | Some pq \<Rightarrow> kem_laws A (pq_seed pq) (pq_ek pq)))"

interpretation file_keys: key_custody "file_keys_ok A p" "file_provider A p" for A p
proof unfold_locales
  show "file_keys_ok A p \<Longrightarrow> kp_wrapped_dek_len (file_provider A p) < 65536"
    by (simp add: file_provider_def file_wrapped_dek_len_def crypto_consts)
next
  fix en dek w
  assume ok: "file_keys_ok A p" "entropy_ok en" "kp_new_wrapped_dek (file_provider A p) en = Ok (dek, w)"
  then have new: "file_new_wrapped_dek A p en = Ok (dek, w)" by (simp add: file_provider_def)
  show "kp_unwrap_dek (file_provider A p) w = Ok dek \<and> length dek = 32 \<and>
    length (wd_bytes w) = kp_wrapped_dek_len (file_provider A p)"
  proof (cases "fk_pq p")
    case None
    with new have "dek = en_dek en" "w = \<lparr> wd_alg = ALG_AES_MASTER, wd_bytes = wrap_dek A (en_wrap en) (fk_master p) dek \<rparr>"
      by (auto simp: file_new_wrapped_dek_def Let_def)
    with None ok unwrap_wrap [of A "fk_master p" "en_wrap en" dek] show ?thesis
      by (simp add: file_provider_def file_unwrap_dek_def file_wrapped_dek_len_def file_keys_ok_def entropy_ok_def)
  next
    case (Some pq)
    then have laws: "kem_laws A (pq_seed pq) (pq_ek pq)" using ok by (simp add: file_keys_ok_def)
    from Some new obtain ct where ct: "kem_encap A (pq_ek pq) (en_kem en) = (ct, dek)"
      and w: "w = \<lparr> wd_alg = ALG_MLKEM, wd_bytes = ct \<rparr>"
      by (auto simp: file_new_wrapped_dek_def split: prod.splits)
    from laws ct have "kem_decap A (pq_seed pq) ct = Some dek" "length dek = 32" "length ct = MLKEM_CT_LEN"
      unfolding kem_laws_def by blast+
    with Some w show ?thesis
      by (simp add: file_provider_def file_unwrap_dek_def file_wrapped_dek_len_def decapsulate_def
          ALG_MLKEM_def ALG_AES_MASTER_def)
  qed
qed

interpretation pass_keys: key_custody "aead_laws A \<and> length kek = 32" "pass_provider A kek" for A kek
proof unfold_locales
  show "aead_laws A \<and> length kek = 32 \<Longrightarrow> kp_wrapped_dek_len (pass_provider A kek) < 65536"
    by (simp add: pass_provider_def crypto_consts)
next
  fix en dek w
  assume "aead_laws A \<and> length kek = 32" "entropy_ok en"
    "kp_new_wrapped_dek (pass_provider A kek) en = Ok (dek, w)"
  then show "kp_unwrap_dek (pass_provider A kek) w = Ok dek \<and> length dek = 32 \<and>
    length (wd_bytes w) = kp_wrapped_dek_len (pass_provider A kek)"
    using unwrap_wrap [of A kek "en_wrap en" "en_dek en"]
    by (auto simp: pass_provider_def pass_new_wrapped_dek_def pass_unwrap_dek_def entropy_ok_def)
qed

section \<open>A concrete library\<close>

text \<open>An instance of the library laws that only pads: it lets the hypotheses be discharged.\<close>

definition plain_lib :: crypto_lib where
  "plain_lib =
     \<lparr> aes_seal = (\<lambda>k n p. p @ replicate 16 0),
       aes_open = (\<lambda>k n c. if length c < 16 then None else Some (take (length c - 16) c)),
       kem_encap = (\<lambda>ek r. (replicate 1568 0, replicate 32 7)),
       kem_decap = (\<lambda>seed ct. Some (replicate 32 7)),
       argon2id = (\<lambda>p s. Some (replicate 32 (if p = [1] then 1 else 2))) \<rparr>"

definition plain_entropy :: entropy where
  "plain_entropy = \<lparr> en_dek = replicate 32 5, en_wrap = replicate 12 6, en_kem = [], en_base = replicate 8 9 \<rparr>"

definition plain_keys :: file_key_provider where
  "plain_keys = \<lparr> fk_master = replicate 32 3, fk_pq = Some \<lparr> pq_seed = [], pq_ek = [] \<rparr> \<rparr>"

lemma plain_lib_laws: "aead_laws plain_lib"
  by (simp add: aead_laws_def plain_lib_def TAG_LEN_def)

lemma plain_keys_ok: "file_keys_ok plain_lib plain_keys"
  using plain_lib_laws
  by (simp add: file_keys_ok_def plain_keys_def kem_laws_def plain_lib_def MLKEM_CT_LEN_def)

lemma plain_entropy_ok: "entropy_ok plain_entropy"
  by (simp add: entropy_ok_def plain_entropy_def crypto_consts)

lemmas plain_ok = plain_lib_laws plain_keys_ok plain_entropy_ok

lemma file_new_ok: "\<exists>dek w. kp_new_wrapped_dek (file_provider A p) en = Ok (dek, w)"
  by (cases "fk_pq p") (auto simp: file_provider_def file_new_wrapped_dek_def Let_def split: prod.splits)

lemma file_encrypts: "\<exists>c. encrypting_reader A en (file_provider A p) src = Ok c"
  using file_new_ok [of A p en] by (auto simp: encrypting_reader_def)

section \<open>Properties of the encrypted container\<close>

text \<open>
  C26: with the file provider, encrypting a stream always succeeds, decrypting the container (both
  as a stream and from a buffer) gives exactly the plaintext back, and the plaintext length that
  \<open>plaintext_len\<close> computes from the container's length is the true one.
\<close>

theorem container_roundtrip:
  assumes "file_keys_ok A p" and "entropy_ok en"
  shows "\<exists>c. encrypting_reader A en (file_provider A p) (Body b False) = Ok c \<and>
    decrypting_reader_checked A (file_provider A p) c = Ok (Body b False) \<and>
    decrypt_object_with_ctx A (file_provider A p) (body_bytes c) = Ok b \<and>
    plaintext_len (length (body_bytes c)) (ctx_header_len (file_provider A p)) = length b"
proof -
  from file_encrypts obtain c where c: "encrypting_reader A en (file_provider A p) (Body b False) = Ok c"
    by blast
  from assms(1) have "aead_laws A" by (simp add: file_keys_ok_def)
  from file_keys.stream_roundtrip [OF assms this c] c show ?thesis by blast
qed

theorem container_roundtrip_witness:
  "\<exists>c. encrypting_reader plain_lib plain_entropy (file_provider plain_lib plain_keys) (Body [1, 2, 3] False) = Ok c \<and>
    decrypting_reader_checked plain_lib (file_provider plain_lib plain_keys) c = Ok (Body [1, 2, 3] False) \<and>
    decrypt_object_with_ctx plain_lib (file_provider plain_lib plain_keys) (body_bytes c) = Ok [1, 2, 3] \<and>
    plaintext_len (length (body_bytes c)) (ctx_header_len (file_provider plain_lib plain_keys)) = 3"
  using container_roundtrip [OF plain_keys_ok plain_entropy_ok, of "[1, 2, 3]"] by (simp add: numeral_3_eq_3)

text \<open>
  Random access into a container is exact: opening its header and decrypting only the \<open>i\<close>-th
  block, at its offset behind the header, gives the \<open>i\<close>-th 64 KiB chunk of the plaintext.
\<close>

theorem range_block_decrypts:
  assumes "file_keys_ok A p" and "entropy_ok en"
    and "encrypting_reader A en (file_provider A p) (Body b False) = Ok c"
    and "i * CHUNK_SIZE < length b"
  shows "\<exists>oc h. object_cipher_open (file_provider A p) (body_bytes c) = Ok (oc, h) \<and>
    h = ctx_header_len (file_provider A p) \<and>
    decrypt_chunk A oc (word_of_nat i) (take CHUNK_BLOCK (drop (h + i * CHUNK_BLOCK) (body_bytes c)))
      = Ok (take CHUNK_SIZE (drop (i * CHUNK_SIZE) b))"
proof -
  obtain dek w where new: "kp_new_wrapped_dek (file_provider A p) en = Ok (dek, w)"
    using file_new_ok by blast
  with assms(3) obtain rest where "body_bytes c = header_bytes w (en_base en) @ rest"
    by (auto simp: encrypting_reader_def)
  with file_keys.object_cipher_open_ok [OF assms(1,2) new, of rest]
  have open': "object_cipher_open (file_provider A p) (body_bytes c) =
    Ok (\<lparr> oc_dek = dek, oc_base_nonce = en_base en \<rparr>, ctx_header_len (file_provider A p))" by simp
  from assms(1) have "aead_laws A" by (simp add: file_keys_ok_def)
  from file_keys.range_chunk [OF assms(1,2) this assms(3,4) open'] open' show ?thesis by blast
qed

theorem range_block_decrypts_witness:
  "\<exists>c oc h. encrypting_reader plain_lib plain_entropy (file_provider plain_lib plain_keys) (Body [1, 2, 3] False) = Ok c \<and>
    object_cipher_open (file_provider plain_lib plain_keys) (body_bytes c) = Ok (oc, h) \<and>
    decrypt_chunk plain_lib oc 0 (take CHUNK_BLOCK (drop h (body_bytes c))) = Ok [1, 2, 3]"
proof -
  obtain c where c: "encrypting_reader plain_lib plain_entropy (file_provider plain_lib plain_keys) (Body [1, 2, 3] False) = Ok c"
    using file_encrypts by blast
  from range_block_decrypts [OF plain_keys_ok plain_entropy_ok c, of 0] c show ?thesis
    by (auto simp: CHUNK_SIZE_def)
qed

text \<open>
  Two chunks of one object get the same nonce exactly when their indices agree modulo 2^32, so
  no nonce repeats within the first 2^32 chunks (256 TiB) and the counter wraps beyond them.
\<close>

theorem chunk_nonce_repeats:
  "chunk_nonce base (word_of_nat i) = chunk_nonce base (word_of_nat j) \<longleftrightarrow> i mod 2 ^ 32 = j mod 2 ^ 32"
  unfolding chunk_nonce_inj by (simp add: word_of_nat_eq_iff take_bit_eq_mod)

text \<open>
  Encrypting a source that fails mid-object does not fail: the reader yields a well-formed
  container that ends without an error and decrypts to the whole chunks read before the failure.
\<close>

theorem failing_source_sealed_short:
  assumes "file_keys_ok A p" and "entropy_ok en"
  shows "\<exists>c. encrypting_reader A en (file_provider A p) (Body b True) = Ok c \<and> \<not> body_fails c \<and>
    decrypting_reader_checked A (file_provider A p) c =
      Ok (Body (take (length b div CHUNK_SIZE * CHUNK_SIZE) b) False)"
proof -
  obtain dek w where "kp_new_wrapped_dek (file_provider A p) en = Ok (dek, w)"
    using file_new_ok by blast
  moreover from assms(1) have "aead_laws A" by (simp add: file_keys_ok_def)
  ultimately show ?thesis using file_keys.failing_source [OF assms] by blast
qed

theorem failing_source_sealed_short_witness:
  "\<exists>c. encrypting_reader plain_lib plain_entropy (file_provider plain_lib plain_keys) (Body [1, 2, 3] True) = Ok c \<and>
    \<not> body_fails c \<and>
    decrypting_reader_checked plain_lib (file_provider plain_lib plain_keys) c = Ok (Body [] False)"
  using failing_source_sealed_short [OF plain_keys_ok plain_entropy_ok, of "[1, 2, 3]"]
  by (simp add: CHUNK_SIZE_def)

text \<open>
  C29: a container of the file key provider that is cut behind its header at a block boundary still
  decrypts without an error, to the whole chunks before the cut: the format authenticates each chunk but not the number of chunks.  The
  reader that serves objects, \<open>decrypting_reader_checked\<close>, ends its stream normally there, even when
  the container does not end but breaks off with a read error; the buffered variant accepts it too.
\<close>

theorem cut_container_decrypts:
  assumes "file_keys_ok A p" and "entropy_ok en"
    and "encrypting_reader A en (file_provider A p) (Body b False) = Ok c"
    and "i * CHUNK_SIZE \<le> length b"
  shows "decrypting_reader_checked A (file_provider A p)
      (Body (take (ctx_header_len (file_provider A p) + i * CHUNK_BLOCK) (body_bytes c)) f)
      = Ok (Body (take (i * CHUNK_SIZE) b) False)
    \<and> decrypt_object_with_ctx A (file_provider A p)
      (take (ctx_header_len (file_provider A p) + i * CHUNK_BLOCK) (body_bytes c))
      = Ok (take (i * CHUNK_SIZE) b)"
proof -
  from assms(1) have "aead_laws A" by (simp add: file_keys_ok_def)
  from file_keys.cut_container [OF assms(1,2) this assms(3,4)] show ?thesis by blast
qed

text \<open>An object of one whole chunk and one byte more loses the byte.\<close>

theorem cut_container_decrypts_witness:
  "\<exists>c. encrypting_reader plain_lib plain_entropy (file_provider plain_lib plain_keys)
      (Body (replicate (CHUNK_SIZE + 1) 1) False) = Ok c \<and>
    decrypting_reader_checked plain_lib (file_provider plain_lib plain_keys)
      (Body (take (ctx_header_len (file_provider plain_lib plain_keys) + CHUNK_BLOCK) (body_bytes c)) True)
      = Ok (Body (replicate CHUNK_SIZE 1) False)"
proof -
  obtain c where c: "encrypting_reader plain_lib plain_entropy (file_provider plain_lib plain_keys)
      (Body (replicate (CHUNK_SIZE + 1) 1) False) = Ok c"
    using file_encrypts by blast
  have len: "1 * CHUNK_SIZE \<le> length (replicate (CHUNK_SIZE + 1) (1 :: byte))" by simp
  have whole: "take CHUNK_SIZE (replicate (CHUNK_SIZE + 1) (1 :: byte)) = replicate CHUNK_SIZE 1"
    by (simp only: take_replicate) (simp add: min_def)
  from cut_container_decrypts [OF plain_keys_ok plain_entropy_ok c len, of True] c show ?thesis
    unfolding mult_1 whole by blast
qed

text \<open>
  The buffered encryption of an object is the stream encryption: both write the same container
  for a file provider without a post-quantum key pair.
\<close>

theorem encrypt_object_is_stream:
  assumes "fk_pq p = None"
  shows "encrypting_reader A en (file_provider A p) (Body b False) =
    Ok (Body (encrypt_object A en (fk_master p) b) False)"
  using seal_enumerate [of A "en_dek en" "en_base en" 0 b] assms
  by (simp add: encrypting_reader_def file_provider_def file_new_wrapped_dek_def encrypt_object_def Let_def)

theorem encrypt_object_is_stream_witness:
  "encrypting_reader plain_lib plain_entropy
     (file_provider plain_lib \<lparr> fk_master = replicate 32 3, fk_pq = None \<rparr>) (Body [1, 2, 3] False) =
   Ok (Body (encrypt_object plain_lib plain_entropy (replicate 32 3) [1, 2, 3]) False)"
  using encrypt_object_is_stream [of "\<lparr> fk_master = replicate 32 3, fk_pq = None \<rparr>" plain_lib plain_entropy "[1, 2, 3]"]
  by simp

text \<open>
  A passphrase store initialised on a first run reopens with the same passphrase to the same
  key, whatever the random bytes of the later run; a passphrase whose derived key does not open
  the stored verifier is refused, and reopening never changes the store.
\<close>

theorem passphrase_store_reopens:
  assumes "aead_laws A" and "length nonce = NONCE_LEN" and "ps_salt st = None"
    and "pass_open_or_init A st pass salt nonce = (st', Ok kek)" and "length kek = 32"
  shows "pass_open_or_init A st' pass salt' nonce' = (st', Ok kek) \<and>
    (\<forall>pass' kek'. argon2id A pass' salt = Some kek' \<longrightarrow>
       unwrap_dek A kek' (wrap_dek A nonce kek SENTINEL) \<noteq> Ok SENTINEL \<longrightarrow>
       fst (pass_open_or_init A st' pass' salt' nonce') = st' \<and>
       \<not> is_ok (snd (pass_open_or_init A st' pass' salt' nonce')))"
proof -
  have sentinel: "length SENTINEL = 32" by (simp add: SENTINEL_def)
  from assms(3,4) have "pass \<noteq> []" and der: "argon2id A pass salt = Some kek"
    and st': "st' = \<lparr> ps_salt = Some salt, ps_check = Some (wrap_dek A nonce kek SENTINEL) \<rparr>"
    by (auto simp: pass_open_or_init_def pass_derive_def split: if_splits option.splits)
  with unwrap_wrap [OF assms(1,5,2) sentinel] show ?thesis
    by (auto simp: pass_open_or_init_def pass_derive_def)
qed

theorem passphrase_store_reopens_witness:
  "\<exists>st kek. pass_open_or_init plain_lib \<lparr> ps_salt = None, ps_check = None \<rparr> [1] [9] (replicate 12 0) = (st, Ok kek) \<and>
    pass_open_or_init plain_lib st [1] [] [] = (st, Ok kek)"
proof -
  let ?run = "pass_open_or_init plain_lib \<lparr> ps_salt = None, ps_check = None \<rparr> [1] [9] (replicate 12 0)"
  have run: "?run = (fst ?run, Ok (replicate 32 1))"
    by (simp add: pass_open_or_init_def pass_derive_def plain_lib_def)
  from passphrase_store_reopens [OF plain_lib_laws _ _ run] run show ?thesis
    by (force simp: NONCE_LEN_def)
qed

end
