(* ===== verification/Object_Types.thy ===== *)
theory Object_Types
  imports S3_Error
begin

text \<open>
  \<open>src/storage/mod.rs\<close>: the data the object store hands to the HTTP layer and the two validation
  functions in front of every write.  A \<open>BTreeMap<String, String>\<close> is its sorted association list,
  an \<open>OffsetDateTime\<close> its Unix time in seconds.
\<close>

type_synonym string_map = "(string \<times> string) list"

record version_audit =
  au_author :: "string option"
  au_source_ip :: "string option"

definition audit_is_some :: "version_audit \<Rightarrow> bool" where
  "audit_is_some a = (au_author a \<noteq> None \<or> au_source_ip a \<noteq> None)"

record drive_status =
  ds_path :: string
  ds_state :: string

record backend_info =
  bi_backend_type :: string
  bi_data_shards :: nat
  bi_parity_shards :: nat
  bi_drives :: "drive_status list"

record heal_report =
  hr_objects_scanned :: nat
  hr_objects_healed :: nat
  hr_shards_rewritten :: nat
  hr_objects_unrecoverable :: nat
  hr_dry_run :: bool

definition heal_report_default :: heal_report where
  "heal_report_default =
     \<lparr> hr_objects_scanned = 0, hr_objects_healed = 0, hr_shards_rewritten = 0,
       hr_objects_unrecoverable = 0, hr_dry_run = False \<rparr>"

record object_meta =
  om_key :: string
  om_size :: nat
  om_etag :: string
  om_last_modified :: int
  om_content_type :: string
  om_user_metadata :: string_map
  om_encrypted :: bool
  om_version_id :: "string option"
  om_audit :: "version_audit option"

record delete_outcome =
  do_version_id :: "string option"
  do_delete_marker :: bool

definition delete_outcome_default :: delete_outcome where
  "delete_outcome_default = \<lparr> do_version_id = None, do_delete_marker = False \<rparr>"

record object_version =
  ov_key :: string
  ov_version_id :: string
  ov_is_latest :: bool
  ov_last_modified :: int
  ov_etag :: string
  ov_size :: nat
  ov_is_delete_marker :: bool
  ov_audit :: "version_audit option"

record version_listing =
  vl_versions :: "object_version list"
  vl_common_prefixes :: "string list"
  vl_is_truncated :: bool
  vl_next_key_marker :: "string option"
  vl_next_version_id_marker :: "string option"

record listing =
  ls_objects :: "object_meta list"
  ls_common_prefixes :: "string list"
  ls_is_truncated :: bool
  ls_next_continuation_token :: "string option"

record part_info =
  pi_part_number :: nat
  pi_etag :: string
  pi_size :: nat
  pi_last_modified :: int

record completed_part =
  cp_part_number :: nat
  cp_etag :: string

section \<open>Validation\<close>

definition is_alnum :: "char \<Rightarrow> bool" where
  "is_alnum b = (is_ascii_lower b \<or> is_ascii_digit b)"

definition validate_bucket_name :: "string \<Rightarrow> unit result" where
  "validate_bucket_name name =
     (let len = length name in
      if \<not> (3 \<le> len \<and> len \<le> 63) then Err InvalidBucketName
      else if \<not> is_alnum (name ! 0) \<or> \<not> is_alnum (name ! (len - 1)) then Err InvalidBucketName
      else if \<not> list_all (\<lambda>b. is_alnum b \<or> b = CHR ''-'' \<or> b = CHR ''.'') name
      then Err InvalidBucketName
      else if contains_sub name ''..'' then Err InvalidBucketName
      else if length (split_on (CHR ''.'') name) = 4
              \<and> list_all (\<lambda>p. parse_u8 p \<noteq> None) (split_on (CHR ''.'') name)
      then Err InvalidBucketName
      else Ok ())"

definition validate_key :: "string \<Rightarrow> unit result" where
  "validate_key key =
     (if key = [] then Err (InvalidArgument ''object key is empty'')
      else if starts_with key ''/'' \<or> CHR 0x5C \<in> set key
      then Err (InvalidArgument ''invalid object key'')
      else if list_ex (\<lambda>seg. seg = ''..'' \<or> seg = ''.'') (split_on (CHR ''/'') key)
      then Err (InvalidArgument ''invalid object key'')
      else Ok ())"

section \<open>What the validation guarantees\<close>

lemma validate_bucket_name_Ok:
  "validate_bucket_name b = Ok () \<Longrightarrow>
     3 \<le> length b \<and> length b \<le> 63 \<and> is_alnum (b ! 0) \<and> is_alnum (last b)
     \<and> (\<forall>c \<in> set b. is_alnum c \<or> c = CHR ''-'' \<or> c = CHR ''.'') \<and> find_sub ''..'' b = None"
  by (cases "b = []") (auto simp: validate_bucket_name_def Let_def contains_sub_def list_all_iff
      last_conv_nth split: if_splits)

lemma is_alnum_not_special [simp]:
  "\<not> is_alnum (CHR ''.'')" "\<not> is_alnum (CHR ''/'')" "\<not> is_alnum (CHR 0x5C)" "\<not> is_alnum (CHR ''-'')"
  by (simp_all add: is_alnum_def is_ascii_lower_def is_ascii_digit_def)

lemma valid_bucket_no_slash: "validate_bucket_name b = Ok () \<Longrightarrow> CHR ''/'' \<notin> set b"
  by (auto dest!: validate_bucket_name_Ok)

lemma valid_bucket_first: "validate_bucket_name b = Ok () \<Longrightarrow> b \<noteq> [] \<and> is_alnum (hd b)"
  by (cases b) (auto dest!: validate_bucket_name_Ok)

lemma validate_key_Ok:
  "validate_key k = Ok () \<longleftrightarrow>
     k \<noteq> [] \<and> \<not> starts_with k ''/'' \<and> CHR 0x5C \<notin> set k
     \<and> (\<forall>seg \<in> set (split_on (CHR ''/'') k). seg \<noteq> ''..'' \<and> seg \<noteq> ''.'')"
  by (auto simp: validate_key_def list_ex_iff)

end
