(* ===== verification/Layout.thy ===== *)
theory Layout
  imports Object_Types
begin

text \<open>
  The on-disk layout of \<open>src/erasure/store.rs\<close> (lines 36 to 167): \<open>std::path\<close> values as component
  lists, the \<open>r_*\<close> path helpers, and the documents kept on a drive.  A JSON document is kept as
  the value it decodes to; a file whose bytes no decoder accepts is \<open>Bytes\<close>.
\<close>

type_synonym path = "string list"

section \<open>Rust paths\<close>

text \<open>
  A \<open>PathBuf\<close> is a flag (absolute or not) and its components.  Empty and \<open>.\<close> components vanish, as
  \<open>Path::components\<close> and the operating system have it; \<open>..\<close> stays.  Joining an absolute path
  replaces the base.
\<close>

datatype pathbuf = PathBuf (pb_abs: bool) (pb_comps: path)

definition components :: "string \<Rightarrow> path" where
  "components s = filter (\<lambda>c. c \<noteq> [] \<and> c \<noteq> ''.'') (split_on (CHR ''/'') s)"

definition path_new :: "string \<Rightarrow> pathbuf" where
  "path_new s = PathBuf (starts_with s ''/'') (components s)"

definition pjoin :: "pathbuf \<Rightarrow> string \<Rightarrow> pathbuf" where
  "pjoin p s = (if starts_with s ''/'' then path_new s else PathBuf (pb_abs p) (pb_comps p @ components s))"

definition pparent :: "pathbuf \<Rightarrow> pathbuf option" where
  "pparent p = (if pb_comps p = [] then None else Some (PathBuf (pb_abs p) (butlast (pb_comps p))))"

definition pstarts_with :: "pathbuf \<Rightarrow> pathbuf \<Rightarrow> bool" where
  "pstarts_with p q = (pb_abs p = pb_abs q \<and> prefix (pb_comps q) (pb_comps p))"

section \<open>Names and path helpers\<close>

definition SYS_DIR :: string where "SYS_DIR = ''.kerplace.sys''"
definition XL_META :: string where "XL_META = ''kp.meta''"
definition PART :: string where "PART = ''kp.part''"
definition PART_TMP :: string where "PART_TMP = PART @ ''.tmp''"
definition HEAL_TMP :: string where "HEAL_TMP = PART @ ''.heal.tmp''"

definition r_bucket :: "string \<Rightarrow> pathbuf" where
  "r_bucket bucket = path_new bucket"

definition r_object :: "string \<Rightarrow> string \<Rightarrow> pathbuf" where
  "r_object bucket key = pjoin (path_new bucket) key"

definition r_obj_v :: "string \<Rightarrow> string \<Rightarrow> string option \<Rightarrow> pathbuf" where
  "r_obj_v bucket key vid =
     (let base = r_object bucket key in
      case vid of Some v \<Rightarrow> pjoin (pjoin base ''.v'') v | None \<Rightarrow> base)"

definition r_bucket_cfg :: "string \<Rightarrow> string \<Rightarrow> pathbuf" where
  "r_bucket_cfg bucket file = pjoin (pjoin (pjoin (path_new SYS_DIR) ''buckets'') bucket) file"

definition r_obj_sidecar :: "string \<Rightarrow> string \<Rightarrow> string \<Rightarrow> pathbuf" where
  "r_obj_sidecar bucket key file = pjoin (r_object bucket key) file"

definition r_history :: "string \<Rightarrow> string \<Rightarrow> pathbuf" where
  "r_history bucket key = pjoin (pjoin (r_object bucket key) ''.v'') ''kp.history.json''"

definition r_upload :: "string \<Rightarrow> pathbuf" where
  "r_upload upload_id = pjoin (pjoin (path_new SYS_DIR) ''multipart'') upload_id"

section \<open>Documents\<close>

record xl_meta =
  xm_version :: nat
  xm_data :: nat
  xm_parity :: nat
  xm_block_size :: nat
  xm_stored_size :: nat
  xm_size :: nat
  xm_etag :: string
  xm_content_type :: string
  xm_user_metadata :: string_map
  xm_encrypted :: bool
  xm_last_modified :: int
  xm_owner :: "string option"
  xm_src_ip :: "string option"
  xm_checksums :: "string list list"

record upload_manifest =
  um_bucket :: string
  um_key :: string
  um_content_type :: string
  um_user_metadata :: string_map
  um_created :: int
  um_encrypt :: bool

record part_meta =
  pm_etag :: string
  pm_size :: nat
  pm_created :: int

datatype version_mode = Off | Enabled | Suspended

record v_entry =
  ve_version_id :: string
  ve_delete_marker :: bool
  ve_last_modified :: int
  ve_etag :: string
  ve_size :: nat
  ve_owner :: "string option"
  ve_src_ip :: "string option"

record v_history =
  vh_versions :: "v_entry list"
  vh_epoch :: nat

definition v_history_default :: v_history where
  "v_history_default = \<lparr> vh_versions = [], vh_epoch = 0 \<rparr>"

text \<open>
  The documents of the plain filesystem backend (\<open>src/storage/fs.rs\<close>, lines 56 to 137): an object's
  metadata, the history of a key with the newest version first, and the manifest of an upload.
\<close>

record stored_meta =
  sm_etag :: string
  sm_size :: nat
  sm_content_type :: string
  sm_user_metadata :: string_map
  sm_last_modified :: int
  sm_encrypted :: bool
  sm_version_id :: "string option"

record version_entry =
  fe_version_id :: string
  fe_delete_marker :: bool
  fe_last_modified :: int
  fe_etag :: string
  fe_size :: nat

record fs_manifest =
  fm_key :: string
  fm_content_type :: string
  fm_user_metadata :: string_map
  fm_created :: int
  fm_encrypt :: bool

text \<open>
  The content of a drive file.  \<open>SseDoc\<close> and \<open>StatusDoc\<close> are the one-field JSON objects
  \<open>{"sse": ...}\<close> and \<open>{"status": ...}\<close>; \<open>TextDoc\<close> is a file stored as a raw string.  The last four
  are written by the filesystem backend; \<open>TypeDoc\<close> is \<open>{"type": ...}\<close>.
\<close>

datatype doc =
    Bytes bytes
  | XlDoc xl_meta
  | HistDoc v_history
  | ManifestDoc upload_manifest
  | PartDoc part_meta
  | SseDoc string
  | StatusDoc string
  | TagsDoc string_map
  | TextDoc string
  | StoredDoc stored_meta
  | VersionsDoc "version_entry list"
  | FsManifestDoc fs_manifest
  | TypeDoc string

fun as_bytes :: "doc \<Rightarrow> bytes option" where
  "as_bytes (Bytes b) = Some b" | "as_bytes _ = None"

fun as_xl :: "doc \<Rightarrow> xl_meta option" where
  "as_xl (XlDoc m) = Some m" | "as_xl _ = None"

fun as_history :: "doc \<Rightarrow> v_history option" where
  "as_history (HistDoc h) = Some h" | "as_history _ = None"

fun as_manifest :: "doc \<Rightarrow> upload_manifest option" where
  "as_manifest (ManifestDoc m) = Some m" | "as_manifest _ = None"

fun as_part_meta :: "doc \<Rightarrow> part_meta option" where
  "as_part_meta (PartDoc m) = Some m" | "as_part_meta _ = None"

fun as_sse :: "doc \<Rightarrow> string option" where
  "as_sse (SseDoc s) = Some s" | "as_sse _ = None"

fun as_status :: "doc \<Rightarrow> string option" where
  "as_status (StatusDoc s) = Some s" | "as_status _ = None"

fun as_tags :: "doc \<Rightarrow> string_map option" where
  "as_tags (TagsDoc t) = Some t" | "as_tags _ = None"

fun as_text :: "doc \<Rightarrow> string option" where
  "as_text (TextDoc s) = Some s" | "as_text _ = None"

fun as_stored :: "doc \<Rightarrow> stored_meta option" where
  "as_stored (StoredDoc m) = Some m" | "as_stored _ = None"

fun as_versions :: "doc \<Rightarrow> version_entry list option" where
  "as_versions (VersionsDoc vs) = Some vs" | "as_versions _ = None"

fun as_fs_manifest :: "doc \<Rightarrow> fs_manifest option" where
  "as_fs_manifest (FsManifestDoc m) = Some m" | "as_fs_manifest _ = None"

fun as_type :: "doc \<Rightarrow> string option" where
  "as_type (TypeDoc s) = Some s" | "as_type _ = None"

section \<open>Safe components\<close>

text \<open>A component that is an ordinary file name, and a key whose components all are.\<close>

definition plain_comp :: "string \<Rightarrow> bool" where
  "plain_comp c = (c \<noteq> [] \<and> c \<noteq> ''.'' \<and> c \<noteq> ''..'' \<and> CHR ''/'' \<notin> set c)"

definition plain_key :: "string \<Rightarrow> bool" where
  "plain_key k = (\<not> starts_with k ''/'' \<and> ''..'' \<notin> set (components k))"

lemma components_plain:
  "c \<in> set (components k) \<Longrightarrow> c \<noteq> ''..'' \<Longrightarrow> plain_comp c"
  by (auto simp: components_def plain_comp_def dest: split_on_no_sep)

lemma components_single: "plain_comp c \<Longrightarrow> components c = [c]"
  by (simp add: components_def plain_comp_def split_on_single)

lemma components_trailing: "components (s @ ''/'') = components s"
  using split_on_trailing [of "CHR ''/''" s] by (simp add: components_def)

lemma plain_comp_no_slash_start: "plain_comp c \<Longrightarrow> \<not> starts_with c ''/''"
  by (auto simp: plain_comp_def starts_with_iff)

lemma path_new_plain: "plain_comp b \<Longrightarrow> path_new b = PathBuf False [b]"
  by (simp add: path_new_def components_single plain_comp_no_slash_start)

lemma pjoin_plain: "plain_comp c \<Longrightarrow> pjoin p c = PathBuf (pb_abs p) (pb_comps p @ [c])"
  by (simp add: pjoin_def components_single plain_comp_no_slash_start)

lemma plain_names [simp]:
  "plain_comp SYS_DIR" "plain_comp XL_META" "plain_comp PART" "plain_comp PART_TMP"
  "plain_comp HEAL_TMP" "plain_comp ''.v''" "plain_comp ''kp.history.json''"
  "plain_comp ''buckets''" "plain_comp ''multipart''" "plain_comp ''manifest.json''"
  by (simp_all add: plain_comp_def SYS_DIR_def XL_META_def PART_def PART_TMP_def HEAL_TMP_def)

lemma r_bucket_plain: "plain_comp b \<Longrightarrow> r_bucket b = PathBuf False [b]"
  by (simp add: r_bucket_def path_new_plain)

lemma r_object_plain:
  "plain_comp b \<Longrightarrow> plain_key k \<Longrightarrow> r_object b k = PathBuf False (b # components k)"
  by (simp add: r_object_def pjoin_def path_new_plain plain_key_def)

definition plain_path :: "path \<Rightarrow> bool" where
  "plain_path q = list_all plain_comp q"

lemma plain_path_simps [simp]: "plain_path []" "plain_path (c # q) \<longleftrightarrow> plain_comp c \<and> plain_path q"
  "plain_path (p @ q) \<longleftrightarrow> plain_path p \<and> plain_path q"
  by (simp_all add: plain_path_def)

lemma components_join: "plain_path q \<Longrightarrow> components (join_with ''/'' q) = q"
proof (cases "q = []")
  case False
  assume p: "plain_path q"
  then have "\<forall>s \<in> set q. CHR ''/'' \<notin> set s" "\<forall>s \<in> set q. s \<noteq> [] \<and> s \<noteq> ''.''"
    by (auto simp: plain_path_def list_all_iff plain_comp_def)
  with False show ?thesis by (simp add: components_def split_join_on)
qed (simp add: components_def)

lemma join_no_slash_start: "plain_path q \<Longrightarrow> \<not> starts_with (join_with ''/'' q) ''/''"
proof (cases q)
  case (Cons c cs)
  assume "plain_path q"
  with Cons have "plain_comp c" by simp
  with Cons show ?thesis
    by (cases c; cases cs) (auto simp: plain_comp_def starts_with_iff)
qed (simp add: starts_with_def)

lemma valid_bucket_plain: "validate_bucket_name b = Ok () \<Longrightarrow> plain_comp b"
  using valid_bucket_first [of b] valid_bucket_no_slash [of b]
  by (auto simp: plain_comp_def)

lemma valid_bucket_not_sys: "validate_bucket_name b = Ok () \<Longrightarrow> b \<noteq> SYS_DIR"
  using valid_bucket_first [of b] by (auto simp: SYS_DIR_def)

lemma valid_key_plain: "validate_key k = Ok () \<Longrightarrow> plain_key k"
  by (auto simp: validate_key_Ok plain_key_def components_def)

lemma valid_key_components: "validate_key k = Ok () \<Longrightarrow> components k \<noteq> []"
proof
  assume v: "validate_key k = Ok ()" and e: "components k = []"
  then have all: "\<forall>seg \<in> set (split_on (CHR ''/'') k). seg = []"
    by (auto simp: components_def validate_key_Ok filter_empty_conv)
  from v obtain c cs where k: "k = c # cs" by (cases k) (auto simp: validate_key_Ok)
  with all have "c = CHR ''/''" by (auto split: list.splits if_splits)
  with v k show False by (simp add: validate_key_Ok starts_with_def)
qed

end
