(* ===== verification/Drive.thy ===== *)
theory Drive
  imports Layout
begin

text \<open>
  \<open>src/erasure/drive.rs\<close>: a shard slot.  A \<open>LocalDrive\<close> is a root directory in a file tree; every
  operation resolves a drive-relative path against the root and acts on the tree.  The environment
  decides through \<open>drv_fault\<close> which operations fail (a node that is down, a full disk, a lost
  connection): a failed operation returns an error and leaves the tree as it was.
\<close>

section \<open>File trees\<close>

datatype node = Dir | File doc

type_synonym fs = "(path \<times> node) list"

definition lookup :: "fs \<Rightarrow> path \<Rightarrow> node option" where
  "lookup fs p = (if p = [] then Some Dir else map_of fs p)"

definition put :: "path \<Rightarrow> node \<Rightarrow> fs \<Rightarrow> fs" where
  "put p n fs = AList.update p n fs"

definition remove_tree :: "path \<Rightarrow> fs \<Rightarrow> fs" where
  "remove_tree p fs = filter (\<lambda>e. \<not> prefix p (fst e)) fs"

definition move_tree :: "path \<Rightarrow> path \<Rightarrow> fs \<Rightarrow> fs" where
  "move_tree src dst fs =
     map (\<lambda>(p, n). if prefix src p then (dst @ drop (length src) p, n) else (p, n))
       (remove_tree dst fs)"

definition has_children :: "fs \<Rightarrow> path \<Rightarrow> bool" where
  "has_children fs p = list_ex (\<lambda>e. strict_prefix p (fst e)) fs"

text \<open>\<open>create_dir_all\<close>: every missing directory on the way down.\<close>

fun mkdirs :: "fs \<Rightarrow> path \<Rightarrow> path \<Rightarrow> fs option" where
  "mkdirs fs cur [] = Some fs"
| "mkdirs fs cur (c # cs) =
     (case lookup fs (cur @ [c]) of
        Some Dir \<Rightarrow> mkdirs fs (cur @ [c]) cs
      | Some (File _) \<Rightarrow> None
      | None \<Rightarrow> mkdirs (put (cur @ [c]) Dir fs) (cur @ [c]) cs)"

text \<open>The operating system's walk along a path: \<open>..\<close> leaves the directory reached so far.\<close>

fun resolve :: "fs \<Rightarrow> path \<Rightarrow> path \<Rightarrow> path option" where
  "resolve fs cur [] = Some cur"
| "resolve fs cur (c # cs) =
     (if c = ''..''
      then (if lookup fs cur = Some Dir then resolve fs (butlast cur) cs else None)
      else resolve fs (cur @ [c]) cs)"

section \<open>The drive and its operations\<close>

datatype drive_op =
    OpOnline | OpRead | OpReadAt nat | OpWrite | OpOpen | OpCreate | OpAppend nat | OpShutdown
  | OpRename | OpRemoveFile | OpRemoveDir | OpRemoveDirAll | OpMkdir | OpStat | OpReadDir | OpWalk

record drive =
  drv_root :: path
  drv_fs :: fs
  drv_fault :: "drive_op \<Rightarrow> pathbuf \<Rightarrow> bool"

definition drive_new :: "path \<Rightarrow> fs \<Rightarrow> drive" where
  "drive_new root fs = \<lparr> drv_root = root, drv_fs = fs, drv_fault = (\<lambda>_ _. False) \<rparr>"

definition drive_abs :: "drive \<Rightarrow> pathbuf \<Rightarrow> path" where
  "drive_abs d rel = (if pb_abs rel then pb_comps rel else drv_root d @ pb_comps rel)"

definition drive_id :: "drive \<Rightarrow> string" where
  "drive_id d = ''/'' @ join_with ''/'' (drv_root d)"

definition local_root :: "drive \<Rightarrow> path option" where
  "local_root d = Some (drv_root d)"

definition locate :: "drive \<Rightarrow> pathbuf \<Rightarrow> path option" where
  "locate d rel = resolve (drv_fs d) [] (drive_abs d rel)"

text \<open>The tree node an operation reaches, unless it fails.\<close>

definition reach :: "drive \<Rightarrow> drive_op \<Rightarrow> pathbuf \<Rightarrow> (path \<times> node option) option" where
  "reach d op rel =
     (if drv_fault d op rel then None
      else map_option (\<lambda>p. (p, lookup (drv_fs d) p)) (locate d rel))"

definition drive_online :: "drive \<Rightarrow> bool" where
  "drive_online d = (case reach d OpOnline (PathBuf False []) of Some (_, Some _) \<Rightarrow> True | _ \<Rightarrow> False)"

definition drive_read :: "drive \<Rightarrow> pathbuf \<Rightarrow> doc option" where
  "drive_read d rel = (case reach d OpRead rel of Some (_, Some (File c)) \<Rightarrow> Some c | _ \<Rightarrow> None)"

definition drive_open :: "drive \<Rightarrow> pathbuf \<Rightarrow> doc option" where
  "drive_open d rel = (case reach d OpOpen rel of Some (_, Some (File c)) \<Rightarrow> Some c | _ \<Rightarrow> None)"

definition drive_read_at :: "drive \<Rightarrow> pathbuf \<Rightarrow> nat \<Rightarrow> nat \<Rightarrow> bytes option" where
  "drive_read_at d rel offset len =
     (case reach d (OpReadAt offset) rel of
        Some (_, Some (File (Bytes b))) \<Rightarrow>
          (if offset + len \<le> length b then Some (take len (drop offset b)) else None)
      | _ \<Rightarrow> None)"

definition drive_stat :: "drive \<Rightarrow> pathbuf \<Rightarrow> bool option" where
  "drive_stat d rel =
     (case reach d OpStat rel of
        Some (_, Some Dir) \<Rightarrow> Some True | Some (_, Some (File _)) \<Rightarrow> Some False | _ \<Rightarrow> None)"

text \<open>Writing a whole file: the parent must be a directory and the target not one.\<close>

definition write_at :: "drive \<Rightarrow> drive_op \<Rightarrow> pathbuf \<Rightarrow> doc \<Rightarrow> drive \<times> bool" where
  "write_at d op rel c =
     (case reach d op rel of
        Some (p, n) \<Rightarrow>
          (if n \<noteq> Some Dir \<and> lookup (drv_fs d) (butlast p) = Some Dir
           then (d\<lparr>drv_fs := put p (File c) (drv_fs d)\<rparr>, True) else (d, False))
      | None \<Rightarrow> (d, False))"

definition drive_write :: "drive \<Rightarrow> pathbuf \<Rightarrow> doc \<Rightarrow> drive \<times> bool" where
  "drive_write d rel c = write_at d OpWrite rel c"

definition drive_create :: "drive \<Rightarrow> pathbuf \<Rightarrow> drive \<times> bool" where
  "drive_create d rel = write_at d OpCreate rel (Bytes [])"

text \<open>
  \<open>write_all\<close> and \<open>shutdown\<close> on the writer that \<open>create\<close> returned; \<open>b\<close> numbers the calls on one
  writer, so that the environment can fail any one of them.
\<close>

definition drive_append :: "drive \<Rightarrow> nat \<Rightarrow> pathbuf \<Rightarrow> bytes \<Rightarrow> drive \<times> bool" where
  "drive_append d b rel xs =
     (case reach d (OpAppend b) rel of
        Some (p, Some (File (Bytes old))) \<Rightarrow>
          (d\<lparr>drv_fs := put p (File (Bytes (old @ xs))) (drv_fs d)\<rparr>, True)
      | _ \<Rightarrow> (d, False))"

definition drive_shutdown :: "drive \<Rightarrow> pathbuf \<Rightarrow> bool" where
  "drive_shutdown d rel = (\<not> drv_fault d OpShutdown rel)"

definition drive_rename :: "drive \<Rightarrow> pathbuf \<Rightarrow> pathbuf \<Rightarrow> drive \<times> bool" where
  "drive_rename d src dst =
     (case (reach d OpRename src, locate d dst) of
        (Some (p, Some n), Some q) \<Rightarrow>
          (if p = q then (d, True)
           else if lookup (drv_fs d) (butlast q) \<noteq> Some Dir \<or> prefix p q
                \<or> (case lookup (drv_fs d) q of
                     None \<Rightarrow> False
                   | Some Dir \<Rightarrow> n \<noteq> Dir \<or> has_children (drv_fs d) q
                   | Some (File _) \<Rightarrow> n = Dir)
           then (d, False)
           else (d\<lparr>drv_fs := move_tree p q (drv_fs d)\<rparr>, True))
      | _ \<Rightarrow> (d, False))"

definition drive_remove_file :: "drive \<Rightarrow> pathbuf \<Rightarrow> drive \<times> bool" where
  "drive_remove_file d rel =
     (case reach d OpRemoveFile rel of
        Some (p, Some (File _)) \<Rightarrow> (d\<lparr>drv_fs := remove_tree p (drv_fs d)\<rparr>, True)
      | _ \<Rightarrow> (d, False))"

definition drive_remove_dir :: "drive \<Rightarrow> pathbuf \<Rightarrow> drive \<times> bool" where
  "drive_remove_dir d rel =
     (case reach d OpRemoveDir rel of
        Some (p, Some Dir) \<Rightarrow>
          (if p = [] \<or> has_children (drv_fs d) p then (d, False)
           else (d\<lparr>drv_fs := remove_tree p (drv_fs d)\<rparr>, True))
      | _ \<Rightarrow> (d, False))"

definition drive_remove_dir_all :: "drive \<Rightarrow> pathbuf \<Rightarrow> drive \<times> bool" where
  "drive_remove_dir_all d rel =
     (case reach d OpRemoveDirAll rel of
        Some (p, Some Dir) \<Rightarrow> (d\<lparr>drv_fs := remove_tree p (drv_fs d)\<rparr>, True)
      | _ \<Rightarrow> (d, False))"

definition drive_create_dir_all :: "drive \<Rightarrow> pathbuf \<Rightarrow> drive \<times> bool" where
  "drive_create_dir_all d rel =
     (if drv_fault d OpMkdir rel then (d, False)
      else (case locate d rel of
              None \<Rightarrow> (d, False)
            | Some p \<Rightarrow>
                (case mkdirs (drv_fs d) [] p of
                   None \<Rightarrow> (d, False)
                 | Some fs' \<Rightarrow> (d\<lparr>drv_fs := fs'\<rparr>, True))))"

record dir_entry =
  de_name :: string
  de_is_dir :: bool

definition drive_read_dir :: "drive \<Rightarrow> pathbuf \<Rightarrow> dir_entry list option" where
  "drive_read_dir d rel =
     (case reach d OpReadDir rel of
        Some (p, Some Dir) \<Rightarrow>
          Some (map (\<lambda>(q, n). \<lparr> de_name = last q, de_is_dir = (n = Dir) \<rparr>)
            (filter (\<lambda>(q, n). q \<noteq> [] \<and> butlast q = p) (drv_fs d)))
      | _ \<Rightarrow> None)"

record walk_entry =
  wk_rel :: path
  wk_is_file :: bool

definition drive_walk :: "drive \<Rightarrow> pathbuf \<Rightarrow> walk_entry list option" where
  "drive_walk d rel =
     (if drv_fault d OpWalk rel then None
      else (case locate d rel of
              None \<Rightarrow> Some []
            | Some p \<Rightarrow>
                Some (map (\<lambda>(q, n). \<lparr> wk_rel = drop (length p) q, wk_is_file = (n \<noteq> Dir) \<rparr>)
                  (filter (\<lambda>(q, n). strict_prefix p q) (drv_fs d)))))"

end
