(* ===== verification/Drive_Laws.thy ===== *)
theory Drive_Laws
  imports Drive
begin

text \<open>
  What the drive operations do, seen through \<open>look\<close>, the tree below the drive's root.  Every
  operation on a plain relative path (no \<open>..\<close>) is a pointwise update of \<open>look\<close>, stated once here;
  the store's proofs use these equations and never unfold the tree.
\<close>

section \<open>Trees\<close>

definition wf_fs :: "fs \<Rightarrow> bool" where
  "wf_fs fs = (\<forall>p n. map_of fs p = Some n \<longrightarrow> p \<noteq> [] \<and> lookup fs (butlast p) = Some Dir)"

lemma lookup_Nil [simp]: "lookup fs [] = Some Dir"
  by (simp add: lookup_def)

lemma lookup_put: "p \<noteq> [] \<Longrightarrow> lookup (put p n fs) q = (if q = p then Some n else lookup fs q)"
  by (simp add: lookup_def put_def)

lemma map_of_remove_tree: "map_of (remove_tree p fs) q = (if prefix p q then None else map_of fs q)"
  using map_of_filter_key [of "\<lambda>k. \<not> prefix p k" fs q] by (simp add: remove_tree_def)

lemma lookup_remove_tree:
  "lookup (remove_tree p fs) q = (if q \<noteq> [] \<and> prefix p q then None else lookup fs q)"
  by (simp add: lookup_def map_of_remove_tree)

lemma wf_parent: "wf_fs fs \<Longrightarrow> lookup fs p = Some n \<Longrightarrow> lookup fs (butlast p) = Some Dir"
  by (cases "p = []") (auto simp: wf_fs_def lookup_def)

lemma wf_ancestor:
  "wf_fs fs \<Longrightarrow> lookup fs (p @ q) = Some n \<Longrightarrow> q \<noteq> [] \<Longrightarrow> lookup fs p = Some Dir"
proof (induction q arbitrary: n rule: rev_induct)
  case (snoc x xs)
  then have "lookup fs (p @ xs) = Some Dir" using wf_parent [of fs "p @ xs @ [x]"] by (simp add: butlast_append)
  with snoc show ?case by (cases "xs = []") auto
qed simp

lemma wf_prefix:
  "wf_fs fs \<Longrightarrow> lookup fs q \<noteq> None \<Longrightarrow> strict_prefix p q \<Longrightarrow> lookup fs p = Some Dir"
  by (auto simp: strict_prefix_def prefix_def intro: wf_ancestor)

lemma wf_file_no_children:
  "wf_fs fs \<Longrightarrow> lookup fs p \<noteq> Some Dir \<Longrightarrow> strict_prefix p q \<Longrightarrow> lookup fs q = None"
  using wf_prefix by blast

lemma has_children_iff: "has_children fs p \<longleftrightarrow> (\<exists>q. strict_prefix p q \<and> lookup fs q \<noteq> None)"
proof
  assume "has_children fs p"
  then obtain q n where "(q, n) \<in> set fs" "strict_prefix p q" by (auto simp: has_children_def list_ex_iff)
  then have "lookup fs q \<noteq> None"
    by (auto simp: lookup_def weak_map_of_SomeI map_of_eq_None_iff image_iff)
  with \<open>strict_prefix p q\<close> show "\<exists>q. strict_prefix p q \<and> lookup fs q \<noteq> None" by blast
next
  assume "\<exists>q. strict_prefix p q \<and> lookup fs q \<noteq> None"
  then obtain q n where "strict_prefix p q" "lookup fs q = Some n" by blast
  moreover from this have "q \<noteq> []" by auto
  ultimately have "(q, n) \<in> set fs" by (auto simp: lookup_def dest: map_of_SomeD)
  with \<open>strict_prefix p q\<close> show "has_children fs p"
    by (force simp: has_children_def list_ex_iff)
qed

lemma wf_put:
  "wf_fs fs \<Longrightarrow> p \<noteq> [] \<Longrightarrow> lookup fs (butlast p) = Some Dir \<Longrightarrow>
     n = Dir \<or> lookup fs p \<noteq> Some Dir \<Longrightarrow> wf_fs (put p n fs)"
proof -
  assume wf: "wf_fs fs" and p: "p \<noteq> []" and par: "lookup fs (butlast p) = Some Dir"
    and n: "n = Dir \<or> lookup fs p \<noteq> Some Dir"
  show ?thesis
    unfolding wf_fs_def
  proof (intro allI impI)
    fix q m assume q: "map_of (put p n fs) q = Some m"
    then have qne: "q \<noteq> []" using wf p by (auto simp: put_def wf_fs_def split: if_splits)
    have "lookup (put p n fs) (butlast q) = Some Dir"
    proof (cases "q = p")
      case True
      then show ?thesis using p par lookup_put [OF p, of n fs "butlast p"]
        by (metis append_butlast_last_id append_self_conv list.distinct(1))
    next
      case False
      with q have "lookup fs q = Some m" using qne by (simp add: put_def lookup_def)
      then have d: "lookup fs (butlast q) = Some Dir" using wf wf_parent by blast
      with n show ?thesis using lookup_put [OF p, of n fs "butlast q"] by auto
    qed
    with qne show "q \<noteq> [] \<and> lookup (put p n fs) (butlast q) = Some Dir" by simp
  qed
qed

lemma wf_remove_tree: "wf_fs fs \<Longrightarrow> wf_fs (remove_tree p fs)"
  unfolding wf_fs_def
proof (intro allI impI)
  fix q m
  assume wf: "\<forall>p n. map_of fs p = Some n \<longrightarrow> p \<noteq> [] \<and> lookup fs (butlast p) = Some Dir"
    and q: "map_of (remove_tree p fs) q = Some m"
  then have np: "\<not> prefix p q" and "map_of fs q = Some m"
    by (auto simp: map_of_remove_tree split: if_splits)
  then have q': "q \<noteq> []" "lookup fs (butlast q) = Some Dir" using wf by auto
  moreover have "\<not> prefix p (butlast q)" using np by (metis prefix_order.trans prefixeq_butlast)
  ultimately show "q \<noteq> [] \<and> lookup (remove_tree p fs) (butlast q) = Some Dir"
    by (simp add: lookup_remove_tree)
qed

section \<open>Creating directories\<close>

lemma prefix_step:
  "(prefix q (cur @ c # cs) \<and> strict_prefix cur q)
     \<longleftrightarrow> q = cur @ [c] \<or> (prefix q ((cur @ [c]) @ cs) \<and> strict_prefix (cur @ [c]) q)"
  by (auto simp: strict_prefix_def prefix_def append_eq_append_conv2 Cons_eq_append_conv)

lemma mkdirs_lookup:
  "mkdirs fs cur cs = Some fs' \<Longrightarrow> lookup fs cur = Some Dir \<Longrightarrow>
     lookup fs' q = (if prefix q (cur @ cs) \<and> strict_prefix cur q then Some Dir else lookup fs q)"
proof (induction fs cur cs arbitrary: fs' rule: mkdirs.induct)
  case (1 fs cur)
  then show ?case by (auto simp: strict_prefix_def dest: prefix_order.antisym)
next
  case (2 fs cur c cs)
  note pre = prefix_step [of q cur c cs]
  show ?case
  proof (cases "lookup fs (cur @ [c])")
    case None
    with 2 have "lookup fs' q =
        (if prefix q ((cur @ [c]) @ cs) \<and> strict_prefix (cur @ [c]) q then Some Dir
         else lookup (put (cur @ [c]) Dir fs) q)"
      by (intro 2(1)) (auto simp: lookup_put)
    then show ?thesis unfolding pre by (auto simp: lookup_put)
  next
    case (Some n)
    with 2 have "n = Dir" by (auto split: node.splits)
    with 2 Some have "lookup fs' q =
        (if prefix q ((cur @ [c]) @ cs) \<and> strict_prefix (cur @ [c]) q then Some Dir else lookup fs q)"
      by (intro 2(2)) auto
    then show ?thesis unfolding pre using Some \<open>n = Dir\<close> by auto
  qed
qed

lemma mkdirs_wf: "mkdirs fs cur cs = Some fs' \<Longrightarrow> lookup fs cur = Some Dir \<Longrightarrow> wf_fs fs \<Longrightarrow> wf_fs fs'"
proof (induction fs cur cs arbitrary: fs' rule: mkdirs.induct)
  case (2 fs cur c cs)
  show ?case
  proof (cases "lookup fs (cur @ [c])")
    case None
    have "wf_fs (put (cur @ [c]) Dir fs)" using 2(4,5) by (intro wf_put) simp_all
    moreover have "lookup (put (cur @ [c]) Dir fs) (cur @ [c]) = Some Dir" by (simp add: lookup_put)
    moreover have "mkdirs (put (cur @ [c]) Dir fs) (cur @ [c]) cs = Some fs'" using 2(3) None by simp
    ultimately show ?thesis using 2(1) [OF None] by blast
  next
    case (Some n)
    with 2(3) have "n = Dir" "mkdirs fs (cur @ [c]) cs = Some fs'" by (auto split: node.splits)
    with Some 2(5) show ?thesis by (auto intro: 2(2) [OF Some])
  qed
qed simp

definition dirs_free :: "fs \<Rightarrow> path \<Rightarrow> path \<Rightarrow> bool" where
  "dirs_free fs cur p =
     (\<forall>q. prefix q p \<and> strict_prefix cur q \<longrightarrow> lookup fs q = None \<or> lookup fs q = Some Dir)"

lemma dirs_free_step:
  "dirs_free fs cur (cur @ c # cs) \<longleftrightarrow>
     (lookup fs (cur @ [c]) = None \<or> lookup fs (cur @ [c]) = Some Dir)
     \<and> dirs_free fs (cur @ [c]) ((cur @ [c]) @ cs)"
proof -
  have "(\<forall>q. (q = a \<or> B q) \<longrightarrow> X q) \<longleftrightarrow> X a \<and> (\<forall>q. B q \<longrightarrow> X q)" for a :: path and B X
    by auto
  then show ?thesis by (simp only: dirs_free_def prefix_step)
qed

lemma dirs_free_put:
  "dirs_free (put (cur @ [c]) n fs) (cur @ [c]) p \<longleftrightarrow> dirs_free fs (cur @ [c]) p"
proof -
  have "lookup (put (cur @ [c]) n fs) q = lookup fs q" if "strict_prefix (cur @ [c]) q" for q
    using that by (auto simp: lookup_put)
  then show ?thesis unfolding dirs_free_def by metis
qed

lemma mkdirs_Some_iff:
  "mkdirs fs cur cs \<noteq> None \<longleftrightarrow> dirs_free fs cur (cur @ cs)"
proof (induction fs cur cs rule: mkdirs.induct)
  case (1 fs cur)
  then show ?case by (auto simp: dirs_free_def prefix_order.less_le_not_le)
next
  case (2 fs cur c cs)
  show ?case
  proof (cases "lookup fs (cur @ [c])")
    case None
    with 2(1) [OF None] show ?thesis unfolding dirs_free_step dirs_free_put by simp
  next
    case (Some n)
    with 2(2) [OF Some] show ?thesis unfolding dirs_free_step by (cases n) auto
  qed
qed

section \<open>Moving a file\<close>

lemma map_of_map_key:
  assumes "\<And>p p'. p \<in> fst ` set al \<Longrightarrow> p' \<in> fst ` set al \<Longrightarrow> f p = f p' \<Longrightarrow> p = p'"
    and "p \<in> fst ` set al"
  shows "map_of (map (\<lambda>(p, n). (f p, n)) al) (f p) = map_of al p"
  using assms
proof (induction al)
  case (Cons e al)
  obtain p' n where e: "e = (p', n)" by (cases e)
  show ?case
  proof (cases "p = p'")
    case True
    with e show ?thesis by simp
  next
    case False
    have "f p \<noteq> f p'" using Cons.prems(1)[of p p'] Cons.prems(2) False e by auto
    moreover have "p \<in> fst ` set al" using Cons.prems(2) False e by auto
    moreover have "map_of (map (\<lambda>(p, n). (f p, n)) al) (f p) = map_of al p"
      using \<open>p \<in> fst ` set al\<close> by (intro Cons.IH) (rule Cons.prems(1), auto)
    ultimately show ?thesis using e False by simp
  qed
qed simp

lemma lookup_move_file:
  assumes wf: "wf_fs fs" and src: "lookup fs p = Some (File c)" and dst: "lookup fs q \<noteq> Some Dir"
    and ne: "p \<noteq> q" "q \<noteq> []"
  shows "lookup (move_tree p q fs) r =
           (if r = q then Some (File c) else if r = p then None else lookup fs r)"
proof -
  define al where "al = remove_tree q fs"
  define f where "f = (\<lambda>x. if prefix p x then q @ drop (length p) x else x)"
  have p0: "p \<noteq> []" using src by auto
  have look_al: "lookup al x = (if x = q then None else lookup fs x)" for x
    using wf_file_no_children [OF wf dst, of x] ne
    by (auto simp: al_def lookup_remove_tree strict_prefix_def)
  have dom_al: "x \<in> fst ` set al \<longleftrightarrow> map_of al x \<noteq> None" for x
    by (simp add: map_of_eq_None_iff)
  have al_ne: "x \<in> fst ` set al \<Longrightarrow> x \<noteq> [] \<and> lookup fs x \<noteq> None \<and> x \<noteq> q" for x
  proof -
    assume "x \<in> fst ` set al"
    then have "map_of al x \<noteq> None" by (simp add: dom_al)
    then have np: "\<not> prefix q x" and m: "map_of fs x \<noteq> None"
      by (auto simp: al_def map_of_remove_tree split: if_splits)
    moreover from m wf have "x \<noteq> []" by (auto simp: wf_fs_def)
    ultimately show ?thesis by (auto simp: lookup_def)
  qed
  have fx: "f x = (if x = p then q else x)" if "x \<in> fst ` set al" for x
    using wf_file_no_children [OF wf, of p x] src al_ne [OF that]
    by (auto simp: f_def strict_prefix_def)
  have inj: "x = y" if "x \<in> fst ` set al" "y \<in> fst ` set al" "f x = f y" for x y
    using fx [OF that(1)] fx [OF that(2)] that(3) al_ne [OF that(1)] al_ne [OF that(2)]
    by (auto split: if_splits)
  have mv: "move_tree p q fs = map (\<lambda>(x, n). (f x, n)) al"
    by (auto simp: move_tree_def al_def f_def)
  have pin: "p \<in> fst ` set al"
    using look_al [of p] src ne p0 dom_al [of p] by (auto simp: lookup_def)
  have keep: "map_of (map (\<lambda>(x, n). (f x, n)) al) (f x) = map_of al x" if "x \<in> fst ` set al" for x
    by (rule map_of_map_key [OF inj that])
  have none: "map_of (map (\<lambda>(x, n). (f x, n)) al) y = None" if "y \<notin> f ` fst ` set al" for y
    using that by (force simp: map_of_eq_None_iff)
  show ?thesis
  proof (cases "r = [] \<or> r = q")
    case True
    then show ?thesis
      using keep [OF pin] fx [OF pin] look_al [of p] src ne p0
      by (auto simp: mv lookup_def)
  next
    case False
    show ?thesis
    proof (cases "r \<in> fst ` set al \<and> r \<noteq> p")
      case True
      then have "map_of (map (\<lambda>(x, n). (f x, n)) al) r = map_of al r"
        using keep [of r] fx [of r] by simp
      with False True look_al [of r] show ?thesis by (auto simp: mv lookup_def)
    next
      case F: False
      have "r \<notin> f ` fst ` set al"
        using F False fx by (auto split: if_splits)
      then have "map_of (map (\<lambda>(x, n). (f x, n)) al) r = None" by (rule none)
      moreover have "r \<noteq> p \<Longrightarrow> lookup fs r = None"
        using F False look_al [of r] dom_al [of r] by (auto simp: lookup_def)
      ultimately show ?thesis using False by (auto simp: mv lookup_def)
    qed
  qed
qed

section \<open>Operations through the view below the root\<close>

definition look :: "drive \<Rightarrow> path \<Rightarrow> node option" where
  "look d q = lookup (drv_fs d) (drv_root d @ q)"

definition drive_wf :: "drive \<Rightarrow> bool" where
  "drive_wf d = (''..'' \<notin> set (drv_root d) \<and> wf_fs (drv_fs d)
     \<and> lookup (drv_fs d) (drv_root d) = Some Dir)"

text \<open>A path whose components are all ordinary names.\<close>

definition safe :: "path \<Rightarrow> bool" where
  "safe q = (''..'' \<notin> set q)"

lemma safe_simps [simp]:
  "safe []" "safe (c # q) \<longleftrightarrow> c \<noteq> ''..'' \<and> safe q" "safe (p @ q) \<longleftrightarrow> safe p \<and> safe q"
  by (auto simp: safe_def)

lemma plain_path_safe: "plain_path q \<Longrightarrow> safe q"
  by (induction q) (auto simp: plain_comp_def)

lemma resolve_safe: "safe q \<Longrightarrow> resolve fs cur q = Some (cur @ q)"
  by (induction fs cur q rule: resolve.induct) (auto simp: safe_def)

lemma locate_safe [simp]:
  "drive_wf d \<Longrightarrow> safe q \<Longrightarrow> locate d (PathBuf False q) = Some (drv_root d @ q)"
  by (simp add: locate_def drive_abs_def drive_wf_def resolve_safe safe_def)

lemma look_Nil [simp]: "drive_wf d \<Longrightarrow> look d [] = Some Dir"
  by (simp add: look_def drive_wf_def)

lemma look_parent: "drive_wf d \<Longrightarrow> look d q = Some n \<Longrightarrow> q \<noteq> [] \<Longrightarrow> look d (butlast q) = Some Dir"
  using wf_parent [of "drv_fs d" "drv_root d @ q"] by (simp add: look_def drive_wf_def butlast_append)

lemma look_prefix:
  "drive_wf d \<Longrightarrow> look d q \<noteq> None \<Longrightarrow> strict_prefix p q \<Longrightarrow> look d p = Some Dir"
  using wf_prefix [of "drv_fs d" "drv_root d @ q" "drv_root d @ p"]
  by (auto simp: look_def drive_wf_def strict_prefix_def)

lemma look_below_file:
  "drive_wf d \<Longrightarrow> look d p \<noteq> Some Dir \<Longrightarrow> strict_prefix p q \<Longrightarrow> look d q = None"
  using look_prefix by blast

lemma root_file: "drive_wf d \<Longrightarrow> q = [] \<Longrightarrow> look d q \<noteq> Some (File c)"
  by simp

lemma reach_safe:
  "drive_wf d \<Longrightarrow> safe q \<Longrightarrow>
     reach d op (PathBuf False q) =
       (if drv_fault d op (PathBuf False q) then None else Some (drv_root d @ q, look d q))"
  by (simp add: reach_def look_def)

lemma drive_read_eq:
  "drive_wf d \<Longrightarrow> safe q \<Longrightarrow>
     drive_read d (PathBuf False q) =
       (if drv_fault d OpRead (PathBuf False q) then None
        else (case look d q of Some (File c) \<Rightarrow> Some c | _ \<Rightarrow> None))"
  by (simp add: drive_read_def reach_safe split: option.splits node.splits)

lemma drive_read_at_eq:
  "drive_wf d \<Longrightarrow> safe q \<Longrightarrow>
     drive_read_at d (PathBuf False q) off len =
       (if drv_fault d (OpReadAt off) (PathBuf False q) then None
        else (case look d q of
                Some (File (Bytes b)) \<Rightarrow>
                  if off + len \<le> length b then Some (take len (drop off b)) else None
              | _ \<Rightarrow> None))"
  by (simp add: drive_read_at_def reach_safe split: option.splits node.splits doc.splits)

lemma drive_stat_eq:
  "drive_wf d \<Longrightarrow> safe q \<Longrightarrow>
     drive_stat d (PathBuf False q) =
       (if drv_fault d OpStat (PathBuf False q) then None
        else map_option (\<lambda>n. n = Dir) (look d q))"
  by (simp add: drive_stat_def reach_safe split: option.splits node.splits)

text \<open>The three facts every operation keeps: the root, the fault oracle, well-formedness.\<close>

definition same_env :: "drive \<Rightarrow> drive \<Rightarrow> bool" where
  "same_env d d' = (drv_root d' = drv_root d \<and> drv_fault d' = drv_fault d)"

lemma same_env_refl [simp]: "same_env d d"
  by (simp add: same_env_def)

lemma same_env_trans: "same_env a b \<Longrightarrow> same_env b c \<Longrightarrow> same_env a c"
  by (simp add: same_env_def)

definition writable :: "drive \<Rightarrow> drive_op \<Rightarrow> path \<Rightarrow> bool" where
  "writable d op q = (\<not> drv_fault d op (PathBuf False q) \<and> q \<noteq> [] \<and> look d q \<noteq> Some Dir
     \<and> look d (butlast q) = Some Dir)"

lemma write_at_eq:
  assumes wf: "drive_wf d" and q: "safe q" "q \<noteq> []"
  shows "look (fst (write_at d op (PathBuf False q) c)) =
           (if writable d op q then (look d)(q := Some (File c)) else look d)"
    and "snd (write_at d op (PathBuf False q) c) = writable d op q"
    and "drive_wf (fst (write_at d op (PathBuf False q) c))"
    and "same_env d (fst (write_at d op (PathBuf False q) c))"
proof -
  let ?p = "drv_root d @ q"
  have bl: "butlast ?p = drv_root d @ butlast q" using q by (simp add: butlast_append)
  have ne: "?p \<noteq> []" using q by simp
  have eq: "write_at d op (PathBuf False q) c =
      (if writable d op q then (d\<lparr>drv_fs := put ?p (File c) (drv_fs d)\<rparr>, True) else (d, False))"
    using q by (simp add: write_at_def reach_safe [OF wf] writable_def bl look_def [of d "butlast q"])
  show "look (fst (write_at d op (PathBuf False q) c)) =
           (if writable d op q then (look d)(q := Some (File c)) else look d)"
    unfolding eq by (auto simp: look_def lookup_put [OF ne] fun_eq_iff)
  show "snd (write_at d op (PathBuf False q) c) = writable d op q" unfolding eq by simp
  show "same_env d (fst (write_at d op (PathBuf False q) c))"
    unfolding eq by (simp add: same_env_def)
  show "drive_wf (fst (write_at d op (PathBuf False q) c))"
  proof (cases "writable d op q")
    case True
    then have "wf_fs (put ?p (File c) (drv_fs d))"
      using wf by (intro wf_put [OF _ ne]) (auto simp: bl writable_def look_def drive_wf_def)
    with True wf q show ?thesis unfolding eq by (auto simp: drive_wf_def lookup_put [OF ne])
  qed (use wf eq in simp)
qed

lemmas drive_write_eq = write_at_eq [where op = OpWrite, folded drive_write_def]
lemmas drive_create_eq = write_at_eq [where op = OpCreate and c = "Bytes []", folded drive_create_def]

definition appendable :: "drive \<Rightarrow> nat \<Rightarrow> path \<Rightarrow> bool" where
  "appendable d b q = (\<not> drv_fault d (OpAppend b) (PathBuf False q)
     \<and> (case look d q of Some (File (Bytes _)) \<Rightarrow> True | _ \<Rightarrow> False))"

definition file_bytes :: "drive \<Rightarrow> path \<Rightarrow> bytes" where
  "file_bytes d q = (case look d q of Some (File (Bytes b)) \<Rightarrow> b | _ \<Rightarrow> [])"

lemma drive_append_eq:
  assumes wf: "drive_wf d" and q: "safe q"
  shows "look (fst (drive_append d b (PathBuf False q) xs)) =
           (if appendable d b q then (look d)(q := Some (File (Bytes (file_bytes d q @ xs)))) else look d)"
    and "snd (drive_append d b (PathBuf False q) xs) = appendable d b q"
    and "drive_wf (fst (drive_append d b (PathBuf False q) xs))"
    and "same_env d (fst (drive_append d b (PathBuf False q) xs))"
proof -
  let ?p = "drv_root d @ q"
  have q0: "appendable d b q \<Longrightarrow> q \<noteq> []" using wf by (auto simp: appendable_def)
  have eq: "drive_append d b (PathBuf False q) xs =
      (if appendable d b q
       then (d\<lparr>drv_fs := put ?p (File (Bytes (file_bytes d q @ xs))) (drv_fs d)\<rparr>, True)
       else (d, False))"
    by (simp add: drive_append_def reach_safe [OF wf q] appendable_def file_bytes_def
        split: option.splits node.splits doc.splits)
  show "look (fst (drive_append d b (PathBuf False q) xs)) =
           (if appendable d b q then (look d)(q := Some (File (Bytes (file_bytes d q @ xs)))) else look d)"
    unfolding eq using q0 by (auto simp: look_def lookup_put fun_eq_iff)
  show "snd (drive_append d b (PathBuf False q) xs) = appendable d b q" unfolding eq by simp
  show "same_env d (fst (drive_append d b (PathBuf False q) xs))"
    unfolding eq by (simp add: same_env_def)
  show "drive_wf (fst (drive_append d b (PathBuf False q) xs))"
  proof (cases "appendable d b q")
    case True
    then obtain old where l: "look d q = Some (File (Bytes old))"
      by (auto simp: appendable_def split: option.splits node.splits doc.splits)
    then have "look d (butlast q) = Some Dir" using look_parent [OF wf] q0 [OF True] by blast
    then have "wf_fs (put ?p (File (Bytes (file_bytes d q @ xs))) (drv_fs d))"
      using wf q0 [OF True] l
      by (intro wf_put) (auto simp: look_def drive_wf_def butlast_append)
    with True wf q0 show ?thesis unfolding eq by (auto simp: drive_wf_def lookup_put)
  qed (use wf eq in simp)
qed

definition mkdir_able :: "drive \<Rightarrow> path \<Rightarrow> bool" where
  "mkdir_able d q = (\<not> drv_fault d OpMkdir (PathBuf False q)
     \<and> (\<forall>r. prefix r q \<longrightarrow> look d r = None \<or> look d r = Some Dir))"

lemma root_prefix_dir: "drive_wf d \<Longrightarrow> prefix r (drv_root d) \<Longrightarrow> lookup (drv_fs d) r = Some Dir"
  using wf_prefix [of "drv_fs d" "drv_root d" r]
  by (cases "r = drv_root d") (auto simp: drive_wf_def strict_prefix_def)

lemma dirs_free_root:
  "drive_wf d \<Longrightarrow> dirs_free (drv_fs d) [] (drv_root d @ q) \<longleftrightarrow>
     (\<forall>r. prefix r q \<longrightarrow> look d r = None \<or> look d r = Some Dir)"
proof (intro iffI allI impI)
  fix r assume wf: "drive_wf d" and df: "dirs_free (drv_fs d) [] (drv_root d @ q)" and r: "prefix r q"
  show "look d r = None \<or> look d r = Some Dir"
  proof (cases "drv_root d @ r = []")
    case True
    then show ?thesis by (simp add: look_def)
  next
    case False
    with df r show ?thesis by (auto simp: dirs_free_def look_def strict_prefix_def)
  qed
next
  assume wf: "drive_wf d" and all: "\<forall>r. prefix r q \<longrightarrow> look d r = None \<or> look d r = Some Dir"
  show "dirs_free (drv_fs d) [] (drv_root d @ q)"
    unfolding dirs_free_def
  proof (intro allI impI)
    fix p assume "prefix p (drv_root d @ q) \<and> strict_prefix [] p"
    then have "prefix p (drv_root d) \<or> (\<exists>r. p = drv_root d @ r \<and> prefix r q)"
      by (auto simp: prefix_append)
    then show "lookup (drv_fs d) p = None \<or> lookup (drv_fs d) p = Some Dir"
      using all root_prefix_dir [OF wf] by (auto simp: look_def)
  qed
qed

lemma drive_create_dir_all_eq:
  assumes wf: "drive_wf d" and q: "safe q"
  shows "look (fst (drive_create_dir_all d (PathBuf False q))) =
           (if mkdir_able d q then (\<lambda>r. if prefix r q then Some Dir else look d r) else look d)"
    and "snd (drive_create_dir_all d (PathBuf False q)) = mkdir_able d q"
    and "drive_wf (fst (drive_create_dir_all d (PathBuf False q)))"
    and "same_env d (fst (drive_create_dir_all d (PathBuf False q)))"
proof -
  let ?p = "drv_root d @ q" and ?r = "drive_create_dir_all d (PathBuf False q)"
  have able: "mkdir_able d q \<longleftrightarrow> \<not> drv_fault d OpMkdir (PathBuf False q) \<and> mkdirs (drv_fs d) [] ?p \<noteq> None"
    unfolding mkdirs_Some_iff using dirs_free_root [OF wf] by (simp add: mkdir_able_def)
  have "look (fst ?r) = (if mkdir_able d q then (\<lambda>r. if prefix r q then Some Dir else look d r) else look d)
      \<and> snd ?r = mkdir_able d q \<and> drive_wf (fst ?r) \<and> same_env d (fst ?r)"
  proof (cases "mkdir_able d q")
    case False
    then have "?r = (d, False)"
      using q by (auto simp: drive_create_dir_all_def wf able split: option.splits)
    with False wf show ?thesis by simp
  next
    case True
    then obtain fs' where m: "mkdirs (drv_fs d) [] ?p = Some fs'" using able by auto
    have r: "?r = (d\<lparr>drv_fs := fs'\<rparr>, True)"
      using True q m by (auto simp: drive_create_dir_all_def wf able)
    have lk: "lookup fs' x = (if prefix x ?p \<and> x \<noteq> [] then Some Dir else lookup (drv_fs d) x)" for x
      using mkdirs_lookup [OF m, of x] by (auto simp: strict_prefix_def)
    have "look (d\<lparr>drv_fs := fs'\<rparr>) x = (if prefix x q then Some Dir else look d x)" for x
      by (cases "drv_root d @ x = []") (auto simp: look_def lk)
    moreover have "wf_fs fs'" using mkdirs_wf [OF m] wf by (simp add: drive_wf_def)
    moreover have "lookup fs' (drv_root d) = Some Dir" using wf by (auto simp: lk drive_wf_def)
    ultimately show ?thesis using True wf unfolding r
      by (auto simp: drive_wf_def same_env_def fun_eq_iff)
  qed
  then show "look (fst ?r) =
        (if mkdir_able d q then (\<lambda>r. if prefix r q then Some Dir else look d r) else look d)"
    and "snd ?r = mkdir_able d q" and "drive_wf (fst ?r)" and "same_env d (fst ?r)" by simp_all
qed

text \<open>Removing a tree or a file.\<close>

lemma look_remove_tree:
  assumes wf: "drive_wf d" and q: "q \<noteq> []"
  shows "look (d\<lparr>drv_fs := remove_tree (drv_root d @ q) (drv_fs d)\<rparr>) =
           (\<lambda>r. if prefix q r then None else look d r)"
    and "drive_wf (d\<lparr>drv_fs := remove_tree (drv_root d @ q) (drv_fs d)\<rparr>)"
proof -
  show "look (d\<lparr>drv_fs := remove_tree (drv_root d @ q) (drv_fs d)\<rparr>) =
           (\<lambda>r. if prefix q r then None else look d r)"
    using q by (auto simp: look_def lookup_remove_tree fun_eq_iff)
  have "\<not> prefix (drv_root d @ q) (drv_root d)"
    using q by (metis append_Nil2 same_prefix_prefix prefix_Nil)
  then show "drive_wf (d\<lparr>drv_fs := remove_tree (drv_root d @ q) (drv_fs d)\<rparr>)"
    using wf by (auto simp: drive_wf_def wf_remove_tree lookup_remove_tree)
qed

definition removable_dir :: "drive \<Rightarrow> path \<Rightarrow> bool" where
  "removable_dir d q = (\<not> drv_fault d OpRemoveDirAll (PathBuf False q) \<and> look d q = Some Dir)"

lemma drive_remove_dir_all_eq:
  assumes wf: "drive_wf d" and q: "safe q" "q \<noteq> []"
  shows "look (fst (drive_remove_dir_all d (PathBuf False q))) =
           (if removable_dir d q then (\<lambda>r. if prefix q r then None else look d r) else look d)"
    and "snd (drive_remove_dir_all d (PathBuf False q)) = removable_dir d q"
    and "drive_wf (fst (drive_remove_dir_all d (PathBuf False q)))"
    and "same_env d (fst (drive_remove_dir_all d (PathBuf False q)))"
proof -
  have eq: "drive_remove_dir_all d (PathBuf False q) =
      (if removable_dir d q
       then (d\<lparr>drv_fs := remove_tree (drv_root d @ q) (drv_fs d)\<rparr>, True) else (d, False))"
    using q by (simp add: drive_remove_dir_all_def reach_safe [OF wf] removable_dir_def
        split: option.splits node.splits)
  show "look (fst (drive_remove_dir_all d (PathBuf False q))) =
           (if removable_dir d q then (\<lambda>r. if prefix q r then None else look d r) else look d)"
    and "snd (drive_remove_dir_all d (PathBuf False q)) = removable_dir d q"
    and "drive_wf (fst (drive_remove_dir_all d (PathBuf False q)))"
    and "same_env d (fst (drive_remove_dir_all d (PathBuf False q)))"
    unfolding eq using look_remove_tree [OF wf q(2)] wf by (auto simp: same_env_def)
qed

definition removable_file :: "drive \<Rightarrow> path \<Rightarrow> bool" where
  "removable_file d q = (\<not> drv_fault d OpRemoveFile (PathBuf False q)
     \<and> (case look d q of Some (File _) \<Rightarrow> True | _ \<Rightarrow> False))"

lemma drive_remove_file_eq:
  assumes wf: "drive_wf d" and q: "safe q" "q \<noteq> []"
  shows "look (fst (drive_remove_file d (PathBuf False q))) =
           (if removable_file d q then (look d)(q := None) else look d)"
    and "snd (drive_remove_file d (PathBuf False q)) = removable_file d q"
    and "drive_wf (fst (drive_remove_file d (PathBuf False q)))"
    and "same_env d (fst (drive_remove_file d (PathBuf False q)))"
proof -
  have eq: "drive_remove_file d (PathBuf False q) =
      (if removable_file d q
       then (d\<lparr>drv_fs := remove_tree (drv_root d @ q) (drv_fs d)\<rparr>, True) else (d, False))"
    using q by (simp add: drive_remove_file_def reach_safe [OF wf] removable_file_def
        split: option.splits node.splits)
  have "removable_file d q \<Longrightarrow> prefix q r \<Longrightarrow> r \<noteq> q \<Longrightarrow> look d r = None" for r
    using look_below_file [OF wf, of q r]
    by (auto simp: removable_file_def strict_prefix_def split: option.splits node.splits)
  then have "removable_file d q \<Longrightarrow>
      (\<lambda>r. if prefix q r then None else look d r) = (look d)(q := None)"
    by (auto simp: fun_eq_iff)
  then show "look (fst (drive_remove_file d (PathBuf False q))) =
           (if removable_file d q then (look d)(q := None) else look d)"
    and "snd (drive_remove_file d (PathBuf False q)) = removable_file d q"
    and "drive_wf (fst (drive_remove_file d (PathBuf False q)))"
    and "same_env d (fst (drive_remove_file d (PathBuf False q)))"
    unfolding eq using look_remove_tree [OF wf q(2)] wf by (auto simp: same_env_def)
qed

text \<open>Renaming a file.\<close>

definition renamable :: "drive \<Rightarrow> path \<Rightarrow> path \<Rightarrow> bool" where
  "renamable d p q = (\<not> drv_fault d OpRename (PathBuf False p)
     \<and> (case look d p of Some (File _) \<Rightarrow> True | _ \<Rightarrow> False)
     \<and> look d (butlast q) = Some Dir \<and> look d q \<noteq> Some Dir)"

lemma wf_move_file:
  assumes wf: "wf_fs fs" and src: "lookup fs p = Some (File c)" and dst: "lookup fs q \<noteq> Some Dir"
    and ne: "p \<noteq> q" "q \<noteq> []" and par: "lookup fs (butlast q) = Some Dir"
  shows "wf_fs (move_tree p q fs)"
  unfolding wf_fs_def
proof (intro allI impI)
  fix x m assume x: "map_of (move_tree p q fs) x = Some m"
  note mv = lookup_move_file [OF wf src dst ne]
  have "[] \<notin> fst ` set (move_tree p q fs)"
  proof
    assume "[] \<in> fst ` set (move_tree p q fs)"
    then have "[] \<in> fst ` set (remove_tree q fs)"
      using ne by (auto simp: move_tree_def split: if_splits)
    then have "map_of fs [] \<noteq> None"
      by (metis map_of_eq_None_iff map_of_remove_tree)
    then show False using wf by (auto simp: wf_fs_def)
  qed
  then have x0: "x \<noteq> []" using x by (metis map_of_eq_None_iff option.distinct(1))
  then have lx: "lookup (move_tree p q fs) x = Some m" using x by (simp add: lookup_def)
  have "lookup fs (butlast x) = Some Dir"
  proof (cases "x = q")
    case True
    then show ?thesis using par by simp
  next
    case False
    with lx have "lookup fs x = Some m" by (simp add: mv split: if_splits)
    then show ?thesis using wf_parent [OF wf] by blast
  qed
  then have "lookup (move_tree p q fs) (butlast x) = Some Dir"
    using src dst by (auto simp: mv)
  with x0 show "x \<noteq> [] \<and> lookup (move_tree p q fs) (butlast x) = Some Dir" by simp
qed

lemma drive_rename_eq:
  assumes wf: "drive_wf d" and pq: "safe p" "safe q" "p \<noteq> q" "q \<noteq> []" and src: "look d p \<noteq> Some Dir"
  shows "look (fst (drive_rename d (PathBuf False p) (PathBuf False q))) =
           (if renamable d p q then (look d)(q := look d p, p := None) else look d)"
    and "snd (drive_rename d (PathBuf False p) (PathBuf False q)) = renamable d p q"
    and "drive_wf (fst (drive_rename d (PathBuf False p) (PathBuf False q)))"
    and "same_env d (fst (drive_rename d (PathBuf False p) (PathBuf False q)))"
proof -
  let ?r = "drv_root d" and ?m = "drive_rename d (PathBuf False p) (PathBuf False q)"
  have bl: "butlast (?r @ q) = ?r @ butlast q" using pq by (simp add: butlast_append)
  have npre: "\<not> prefix p q" if "renamable d p q"
  proof
    assume "prefix p q"
    then have "prefix p (butlast q)"
      using \<open>p \<noteq> q\<close> by (metis append_butlast_last_id prefix_snoc pq(4))
    moreover have "look d (butlast q) = Some Dir" using that by (simp add: renamable_def)
    ultimately have "look d p = Some Dir"
      using look_prefix [OF wf, of "butlast q" p] by (cases "p = butlast q") (auto simp: strict_prefix_def)
    with src show False by simp
  qed
  have "?m = (if renamable d p q then (d\<lparr>drv_fs := move_tree (?r @ p) (?r @ q) (drv_fs d)\<rparr>, True) else (d, False))"
  proof (cases "look d p")
    case (Some n)
    with src obtain c where "look d p = Some (File c)" by (cases n) auto
    then show ?thesis
      using npre pq wf
      by (auto simp: drive_rename_def reach_safe renamable_def bl look_def split: option.splits node.splits)
  qed (use pq wf in \<open>auto simp: drive_rename_def reach_safe renamable_def\<close>)
  moreover have "look (d\<lparr>drv_fs := move_tree (?r @ p) (?r @ q) (drv_fs d)\<rparr>) = (look d)(q := look d p, p := None)
      \<and> drive_wf (d\<lparr>drv_fs := move_tree (?r @ p) (?r @ q) (drv_fs d)\<rparr>)"
    if ren: "renamable d p q"
  proof -
    from ren obtain c where c: "look d p = Some (File c)"
      by (auto simp: renamable_def split: option.splits node.splits)
    have w: "wf_fs (drv_fs d)" using wf by (simp add: drive_wf_def)
    have f: "lookup (drv_fs d) (?r @ p) = Some (File c)" using c by (simp add: look_def)
    have g: "lookup (drv_fs d) (?r @ q) \<noteq> Some Dir" "lookup (drv_fs d) (butlast (?r @ q)) = Some Dir"
      using ren by (simp_all add: renamable_def look_def bl)
    have ne: "?r @ p \<noteq> ?r @ q" "?r @ q \<noteq> []" using pq by simp_all
    note mv = lookup_move_file [OF w f g(1) ne]
    have "p \<noteq> []" using c wf by auto
    then have "lookup (move_tree (?r @ p) (?r @ q) (drv_fs d)) ?r = Some Dir"
      using pq wf by (simp add: mv drive_wf_def)
    with wf_move_file [OF w f g(1) ne g(2)] wf c pq(3) show ?thesis
      by (auto simp: drive_wf_def look_def mv fun_eq_iff)
  qed
  ultimately show "look (fst ?m) = (if renamable d p q then (look d)(q := look d p, p := None) else look d)"
    and "snd ?m = renamable d p q" and "drive_wf (fst ?m)" and "same_env d (fst ?m)"
    using wf by (auto simp: same_env_def)
qed

end
