(* ===== verification/Codec.thy ===== *)
theory Codec
  imports KP_Prelude
begin

text \<open>
  \<open>src/erasure/codec.rs\<close>: a block of bytes becomes \<open>K\<close> zero-padded data shards and \<open>M\<close> parity
  shards, and any \<open>K\<close> of them give the block back.  The Reed-Solomon arithmetic and BLAKE3 are
  third-party crates: they are the record \<open>rs_lib\<close> and a function argument, and what the code
  relies on is the predicate \<open>rs_laws\<close>.
\<close>

datatype codec_error = BadConfig | TooManyMissing | BadShardLen | Rs

section \<open>The Reed-Solomon library\<close>

text \<open>
  \<open>rs_new\<close> tells whether \<open>ReedSolomon::new(data, parity)\<close> succeeds; \<open>rs_encode\<close> overwrites the
  last \<open>parity\<close> shards; \<open>rs_reconstruct\<close> fills the missing ones.  \<open>None\<close> is the crate's error.
\<close>

record rs_lib =
  rs_new :: "nat \<Rightarrow> nat \<Rightarrow> bool"
  rs_encode :: "nat \<Rightarrow> nat \<Rightarrow> bytes list \<Rightarrow> bytes list option"
  rs_reconstruct :: "nat \<Rightarrow> nat \<Rightarrow> bytes option list \<Rightarrow> bytes option list option"

definition present :: "'a option list \<Rightarrow> nat" where
  "present xs = length (filter (\<lambda>x. x \<noteq> None) xs)"

text \<open>Slots that hold either nothing or the shard of that index.\<close>

definition agrees :: "'a option list \<Rightarrow> 'a list \<Rightarrow> bool" where
  "agrees xs ys = list_all2 (\<lambda>x y. x = None \<or> x = Some y) xs ys"

text \<open>
  The crate's documented behaviour for a shape: encoding keeps the data shards and writes parity
  shards of the same length that depend on the data only; from any \<open>data\<close> intact shards of one
  codeword, reconstruction gives the codeword.
\<close>

definition rs_laws :: "rs_lib \<Rightarrow> nat \<Rightarrow> nat \<Rightarrow> bool" where
  "rs_laws L k m \<longleftrightarrow>
     0 < k \<and> 0 < m \<and> k + m \<le> 256 \<and> rs_new L k m \<and>
     (\<forall>n ds zs. 0 < n \<longrightarrow> length ds = k \<longrightarrow> length zs = m \<longrightarrow> (\<forall>s \<in> set (ds @ zs). length s = n) \<longrightarrow>
        (\<exists>ps. rs_encode L k m (ds @ zs) = Some (ds @ ps) \<and> length ps = m \<and> (\<forall>s \<in> set ps. length s = n) \<and>
           (\<forall>xs. agrees xs (ds @ ps) \<longrightarrow> k \<le> present xs \<longrightarrow>
              rs_reconstruct L k m xs = Some (map Some (ds @ ps)))))"

section \<open>The codec\<close>

record codec =
  cd_data :: nat
  cd_parity :: nat

definition codec_new :: "rs_lib \<Rightarrow> nat \<Rightarrow> nat \<Rightarrow> codec_error + codec" where
  "codec_new L data parity =
     (if data = 0 \<or> parity = 0 \<or> data + parity > 256 then Err BadConfig
      else if \<not> rs_new L data parity then Err BadConfig
      else Ok \<lparr> cd_data = data, cd_parity = parity \<rparr>)"

definition codec_total :: "codec \<Rightarrow> nat" where
  "codec_total c = cd_data c + cd_parity c"

definition shard_len :: "codec \<Rightarrow> nat \<Rightarrow> nat" where
  "shard_len c block_len = max (div_ceil block_len (cd_data c)) 1"

definition data_shard :: "nat \<Rightarrow> bytes \<Rightarrow> nat \<Rightarrow> bytes" where
  "data_shard slen block i =
     (let start = i * slen in
      if start < length block
      then (let piece = take (min (start + slen) (length block) - start) (drop start block)
            in piece @ replicate (slen - length piece) 0)
      else replicate slen 0)"

definition encode_block :: "rs_lib \<Rightarrow> codec \<Rightarrow> bytes \<Rightarrow> codec_error + bytes list" where
  "encode_block L c block =
     (let slen = shard_len c (length block);
          shards = map (data_shard slen block) [0 ..< cd_data c]
                   @ replicate (cd_parity c) (replicate slen 0)
      in case rs_encode L (cd_data c) (cd_parity c) shards of
           None \<Rightarrow> Err Rs
         | Some out \<Rightarrow> Ok out)"

fun collect_data :: "nat \<Rightarrow> bytes option list \<Rightarrow> bytes \<Rightarrow> codec_error + bytes" where
  "collect_data slen [] out = Ok out"
| "collect_data slen (None # ss) out = Err Rs"
| "collect_data slen (Some s # ss) out =
     (if length s \<noteq> slen then Err BadShardLen else collect_data slen ss (out @ s))"

definition reconstruct_block ::
  "rs_lib \<Rightarrow> codec \<Rightarrow> bytes option list \<Rightarrow> nat \<Rightarrow> codec_error + bytes" where
  "reconstruct_block L c shards block_len =
     (if length shards \<noteq> codec_total c then Err BadShardLen
      else if present shards < cd_data c then Err TooManyMissing
      else case rs_reconstruct L (cd_data c) (cd_parity c) shards of
        None \<Rightarrow> Err TooManyMissing
      | Some filled \<Rightarrow>
          (case collect_data (shard_len c block_len) (take (cd_data c) filled) [] of
             Err e \<Rightarrow> Err e
           | Ok out \<Rightarrow> Ok (take block_len out)))"

text \<open>\<open>checksum\<close>: the crate's digest in lowercase hex.\<close>

definition hex_byte :: "byte \<Rightarrow> string" where
  "hex_byte b = [digit_char (unat b div 16), digit_char (unat b mod 16)]"

definition hex_encode :: "bytes \<Rightarrow> string" where
  "hex_encode bs = concat (map hex_byte bs)"

definition checksum :: "(bytes \<Rightarrow> bytes) \<Rightarrow> bytes \<Rightarrow> string" where
  "checksum blake3 shard = hex_encode (blake3 shard)"

section \<open>Padding\<close>

lemma shard_len_pos [simp]: "0 < shard_len c n"
  by (simp add: shard_len_def)

lemma length_data_shard [simp]: "length (data_shard slen block i) = slen"
  by (auto simp: data_shard_def Let_def)

lemma take_padded:
  "j < length xs \<Longrightarrow> take n (drop j (xs @ replicate (j + n) z)) =
    (let p = take (min (j + n) (length xs) - j) (drop j xs) in p @ replicate (n - length p) z)"
  by (auto simp: min_def Let_def)

lemma data_shard_eq:
  "data_shard slen block i = take slen (drop (i * slen) (block @ replicate (i * slen + slen) 0))"
proof (cases "i * slen < length block")
  case True
  then show ?thesis by (simp only: take_padded [OF True]) (simp only: data_shard_def Let_def if_True True)
next
  case False
  then show ?thesis by (simp add: data_shard_def)
qed

lemma concat_data_shards:
  "concat (map (data_shard slen block) [0 ..< k]) = take (k * slen) (block @ replicate (k * slen) 0)"
proof (induction k)
  case (Suc k)
  let ?p = "block @ replicate (Suc k * slen) 0"
  have "take (k * slen) (block @ replicate (k * slen) 0) = take (k * slen) ?p"
    by (auto simp: min_def)
  moreover have "data_shard slen block k = take slen (drop (k * slen) ?p)"
    by (simp add: data_shard_eq add.commute)
  ultimately show ?case
    using Suc take_add [of "k * slen" slen ?p] by (simp add: add.commute)
qed simp

lemma padded_block: "n \<le> k * slen \<Longrightarrow> n = length block \<Longrightarrow>
  take n (concat (map (data_shard slen block) [0 ..< k])) = block"
  by (simp add: concat_data_shards)

lemma shard_len_covers: "0 < cd_data c \<Longrightarrow> n \<le> cd_data c * shard_len c n"
proof -
  assume "0 < cd_data c"
  then have "n \<le> div_ceil n (cd_data c) * cd_data c" by (rule div_ceil_mult_ge)
  also have "\<dots> \<le> shard_len c n * cd_data c" by (simp add: shard_len_def)
  finally show ?thesis by (simp add: mult.commute)
qed

lemma shard_len_minimal:
  "0 < cd_data c \<Longrightarrow> 0 < n \<Longrightarrow> n \<le> cd_data c * s \<Longrightarrow> shard_len c n \<le> s"
  using div_ceil_le [of "cd_data c" n s] by (cases s) (auto simp: shard_len_def mult.commute)

lemma collect_data_ok:
  "\<forall>s \<in> set ss. length s = slen \<Longrightarrow> collect_data slen (map Some ss) out = Ok (out @ concat ss)"
  by (induction ss arbitrary: out) auto

lemma present_map_Some [simp]: "present (map Some xs) = length xs"
  by (simp add: present_def)

lemma agrees_length: "agrees xs ys \<Longrightarrow> length xs = length ys"
  unfolding agrees_def by (rule list_all2_lengthD)

lemma agrees_nth:
  "agrees xs ys \<longleftrightarrow> length xs = length ys \<and> (\<forall>i < length ys. xs ! i = None \<or> xs ! i = Some (ys ! i))"
  by (auto simp: agrees_def list_all2_conv_all_nth)

section \<open>Round trip\<close>

definition codec_ok :: "rs_lib \<Rightarrow> codec \<Rightarrow> bool" where
  "codec_ok L c = rs_laws L (cd_data c) (cd_parity c)"

lemma codec_ok_new:
  "rs_laws L k m \<Longrightarrow> codec_new L k m = Ok \<lparr> cd_data = k, cd_parity = m \<rparr>"
  by (simp add: codec_new_def rs_laws_def)

lemma encode_block_shape:
  assumes "codec_ok L c"
  obtains ps where
    "encode_block L c block = Ok (map (data_shard (shard_len c (length block)) block) [0 ..< cd_data c] @ ps)"
    "length ps = cd_parity c" "\<forall>s \<in> set ps. length s = shard_len c (length block)"
    "\<forall>xs. agrees xs (map (data_shard (shard_len c (length block)) block) [0 ..< cd_data c] @ ps) \<longrightarrow>
       cd_data c \<le> present xs \<longrightarrow> rs_reconstruct L (cd_data c) (cd_parity c) xs =
       Some (map Some (map (data_shard (shard_len c (length block)) block) [0 ..< cd_data c] @ ps))"
proof -
  let ?n = "shard_len c (length block)"
  let ?ds = "map (data_shard ?n block) [0 ..< cd_data c]"
  let ?zs = "replicate (cd_parity c) (replicate ?n (0 :: byte))"
  have len: "\<forall>s \<in> set (?ds @ ?zs). length s = ?n" by auto
  have "length ?ds = cd_data c" "length ?zs = cd_parity c" by simp_all
  with len assms obtain ps where
    "rs_encode L (cd_data c) (cd_parity c) (?ds @ ?zs) = Some (?ds @ ps)" "length ps = cd_parity c"
    "\<forall>s \<in> set ps. length s = ?n"
    "\<forall>xs. agrees xs (?ds @ ps) \<longrightarrow> cd_data c \<le> present xs \<longrightarrow>
       rs_reconstruct L (cd_data c) (cd_parity c) xs = Some (map Some (?ds @ ps))"
    unfolding codec_ok_def rs_laws_def using shard_len_pos [of c "length block"] by blast
  then show thesis by (intro that) (simp_all add: encode_block_def Let_def)
qed

lemma encode_block_total:
  assumes "codec_ok L c"
  shows "\<exists>ss. encode_block L c block = Ok ss \<and> length ss = codec_total c \<and>
    (\<forall>s \<in> set ss. length s = shard_len c (length block))"
  by (rule encode_block_shape [OF assms, of block]) (auto simp: codec_total_def)

lemma reconstruct_encoded:
  assumes "codec_ok L c" "encode_block L c block = Ok ss" "agrees xs ss" "cd_data c \<le> present xs"
  shows "reconstruct_block L c xs (length block) = Ok block"
proof (rule encode_block_shape [OF assms(1), of block])
  let ?n = "shard_len c (length block)"
  let ?ds = "map (data_shard ?n block) [0 ..< cd_data c]"
  fix ps
  assume *: "encode_block L c block = Ok (?ds @ ps)" "length ps = cd_parity c"
    "\<forall>xs. agrees xs (?ds @ ps) \<longrightarrow> cd_data c \<le> present xs \<longrightarrow>
       rs_reconstruct L (cd_data c) (cd_parity c) xs = Some (map Some (?ds @ ps))"
  with assms have ss: "ss = ?ds @ ps"
    and rec: "rs_reconstruct L (cd_data c) (cd_parity c) xs = Some (map Some (?ds @ ps))" by auto
  have len: "length xs = codec_total c"
    using agrees_length [OF assms(3)] ss *(2) by (simp add: codec_total_def)
  have "collect_data ?n (map Some ?ds) [] = Ok (concat ?ds)"
    by (subst collect_data_ok) auto
  moreover have "take (length block) (concat ?ds) = block"
    using assms(1) by (intro padded_block shard_len_covers) (auto simp: codec_ok_def rs_laws_def)
  ultimately show ?thesis
    using assms(4) rec len by (simp add: reconstruct_block_def)
qed

lemma reconstruct_too_few:
  "length xs = codec_total c \<Longrightarrow> present xs < cd_data c \<Longrightarrow>
   reconstruct_block L c xs n = Err TooManyMissing"
  by (simp add: reconstruct_block_def)

section \<open>The interface of an erasure code\<close>

text \<open>
  What the store needs of the codec: every block has an encoding of \<open>total\<close> shards of one length,
  and enough agreeing shards give the block back.  \<open>ok\<close> is the condition on the library.
\<close>

locale erasure_code =
  fixes ok :: bool
    and enc :: "bytes \<Rightarrow> codec_error + bytes list"
    and dec :: "bytes option list \<Rightarrow> nat \<Rightarrow> codec_error + bytes"
    and need total :: nat
    and slen :: "nat \<Rightarrow> nat"
  assumes enc_total: "ok \<Longrightarrow> \<exists>ss. enc b = Ok ss \<and> length ss = total \<and> (\<forall>s \<in> set ss. length s = slen (length b))"
    and dec_enc: "ok \<Longrightarrow> enc b = Ok ss \<Longrightarrow> agrees xs ss \<Longrightarrow> need \<le> present xs \<Longrightarrow> dec xs (length b) = Ok b"
    and need_le: "ok \<Longrightarrow> need \<le> total"
begin

definition shards_of :: "bytes \<Rightarrow> bytes list" where
  "shards_of b = (case enc b of Ok ss \<Rightarrow> ss | Err _ \<Rightarrow> [])"

lemma enc_shards: "ok \<Longrightarrow> enc b = Ok (shards_of b)"
  using enc_total [of b] by (auto simp: shards_of_def)

lemma length_shards: "ok \<Longrightarrow> length (shards_of b) = total"
  using enc_total [of b] by (auto simp: shards_of_def)

lemma length_shard: "ok \<Longrightarrow> i < total \<Longrightarrow> length (shards_of b ! i) = slen (length b)"
  using enc_total [of b] by (auto simp: shards_of_def)

lemma dec_all: "ok \<Longrightarrow> dec (map Some (shards_of b)) (length b) = Ok b"
  by (rule dec_enc) (auto simp: enc_shards length_shards need_le agrees_nth)

lemma enc_inj: "ok \<Longrightarrow> length b = length c \<Longrightarrow> enc b = enc c \<Longrightarrow> b = c"
  using dec_all [of b] dec_all [of c] by (simp add: shards_of_def)

end

interpretation rs: erasure_code "codec_ok L c" "encode_block L c" "reconstruct_block L c"
  "cd_data c" "codec_total c" "shard_len c" for L c
proof unfold_locales
  show "codec_ok L c \<Longrightarrow> \<exists>ss. encode_block L c b = Ok ss \<and> length ss = codec_total c \<and>
    (\<forall>s \<in> set ss. length s = shard_len c (length b))" for b
    by (rule encode_block_total)
  show "codec_ok L c \<Longrightarrow> encode_block L c b = Ok ss \<Longrightarrow> agrees xs ss \<Longrightarrow> cd_data c \<le> present xs \<Longrightarrow>
    reconstruct_block L c xs (length b) = Ok b" for b ss xs
    by (rule reconstruct_encoded)
  show "codec_ok L c \<Longrightarrow> cd_data c \<le> codec_total c" by (simp add: codec_total_def)
qed

section \<open>A concrete library\<close>

text \<open>The shape 2 + 1 with an exclusive-or parity shard meets the laws.\<close>

definition xor_bytes :: "bytes \<Rightarrow> bytes \<Rightarrow> bytes" where
  "xor_bytes a b = map2 (\<lambda>x y. Bit_Operations.xor x y) a b"

fun xor_encode :: "bytes list \<Rightarrow> bytes list option" where
  "xor_encode [a, b, p] = Some [a, b, xor_bytes a b]"
| "xor_encode _ = None"

fun xor_reconstruct :: "bytes option list \<Rightarrow> bytes option list option" where
  "xor_reconstruct [Some a, Some b, None] = Some [Some a, Some b, Some (xor_bytes a b)]"
| "xor_reconstruct [Some a, None, Some p] = Some [Some a, Some (xor_bytes a p), Some p]"
| "xor_reconstruct [None, Some b, Some p] = Some [Some (xor_bytes b p), Some b, Some p]"
| "xor_reconstruct [Some a, Some b, Some p] = Some [Some a, Some b, Some p]"
| "xor_reconstruct _ = None"

definition rs_xor :: rs_lib where
  "rs_xor =
     \<lparr> rs_new = (\<lambda>d p. d = 2 \<and> p = 1),
       rs_encode = (\<lambda>d p xs. if d = 2 \<and> p = 1 then xor_encode xs else None),
       rs_reconstruct = (\<lambda>d p xs. if d = 2 \<and> p = 1 then xor_reconstruct xs else None) \<rparr>"

lemma xor_bytes_cancel:
  "length a = length b \<Longrightarrow> xor_bytes a (xor_bytes a b) = b \<and> xor_bytes b (xor_bytes a b) = a"
proof (induction a b rule: list_induct2)
  case (Cons x xs y ys)
  have "Bit_Operations.xor x (Bit_Operations.xor x y) = y"
    "Bit_Operations.xor y (Bit_Operations.xor x y) = x"
    by (simp_all add: bit_eq_iff bit_xor_iff) blast+
  with Cons show ?case by (simp add: xor_bytes_def)
qed (simp add: xor_bytes_def)

lemma rs_laws_xor: "rs_laws rs_xor 2 1"
proof -
  have "\<exists>ps. rs_encode rs_xor 2 1 (ds @ zs) = Some (ds @ ps) \<and> length ps = 1 \<and> (\<forall>s \<in> set ps. length s = n) \<and>
     (\<forall>xs. agrees xs (ds @ ps) \<longrightarrow> 2 \<le> present xs \<longrightarrow> rs_reconstruct rs_xor 2 1 xs = Some (map Some (ds @ ps)))"
    if "length ds = 2" "length zs = 1" "\<forall>s \<in> set (ds @ zs). length s = n" for n and ds zs :: "bytes list"
  proof -
    from that(1) obtain a b where ds: "ds = [a, b]"
      by (auto simp: numeral_2_eq_2 length_Suc_conv)
    from that(2) obtain z where zs: "zs = [z]" by (auto simp: length_Suc_conv)
    have eq: "length a = length b" using that(3) ds by simp
    have rec: "xor_reconstruct xs = Some [Some a, Some b, Some (xor_bytes a b)]"
      if "agrees xs [a, b, xor_bytes a b]" "2 \<le> present xs" for xs
    proof -
      from that(1) obtain u v w where xs: "xs = [u, v, w]" "u = None \<or> u = Some a"
        "v = None \<or> v = Some b" "w = None \<or> w = Some (xor_bytes a b)"
        by (auto simp: agrees_def list_all2_Cons2)
      with that(2) xor_bytes_cancel [OF eq] show ?thesis
        by (auto simp: present_def)
    qed
    show ?thesis
      proof (intro exI conjI)
      show "rs_encode rs_xor 2 1 (ds @ zs) = Some (ds @ [xor_bytes a b])"
        by (simp add: rs_xor_def ds zs)
      show "length [xor_bytes a b] = 1" by simp
      show "\<forall>s \<in> set [xor_bytes a b]. length s = n" using that(3) ds by (simp add: xor_bytes_def)
      show "\<forall>xs. agrees xs (ds @ [xor_bytes a b]) \<longrightarrow> 2 \<le> present xs \<longrightarrow>
        rs_reconstruct rs_xor 2 1 xs = Some (map Some (ds @ [xor_bytes a b]))"
        using rec by (simp add: rs_xor_def ds)
    qed
  qed
  then show ?thesis by (simp add: rs_laws_def) (simp add: rs_xor_def)
qed

section \<open>Properties of the codec\<close>

text \<open>
  C4: for a shape the constructor accepts, a block encodes into \<open>K + M\<close> shards of the length
  \<open>shard_len\<close> (the first \<open>K\<close> of them the padded block itself), and whatever subset of at least \<open>K\<close>
  intact shards survives, reconstruction returns exactly the block; with fewer than \<open>K\<close> it reports
  \<open>TooManyMissing\<close>.
\<close>

theorem block_survives_losses:
  assumes "rs_laws L k m" and "codec_new L k m = Ok c"
  shows "\<exists>ss. encode_block L c block = Ok ss \<and> length ss = k + m \<and>
    (\<forall>s \<in> set ss. length s = shard_len c (length block)) \<and>
    take (length block) (concat (take k ss)) = block \<and>
    (\<forall>xs. agrees xs ss \<longrightarrow> reconstruct_block L c xs (length block) =
      (if k \<le> present xs then Ok block else Err TooManyMissing))"
proof -
  have c: "c = \<lparr> cd_data = k, cd_parity = m \<rparr>" using assms codec_ok_new by auto
  then have ok: "codec_ok L c" using assms(1) by (simp add: codec_ok_def)
  let ?ds = "map (data_shard (shard_len c (length block)) block) [0 ..< cd_data c]"
  obtain ps where enc: "encode_block L c block = Ok (?ds @ ps)" "length ps = cd_parity c"
    and len: "\<forall>s \<in> set ps. length s = shard_len c (length block)"
    by (rule encode_block_shape [OF ok, of block]) blast
  have pos: "0 < cd_data c" using assms(1) c by (simp add: rs_laws_def)
  have "take k (?ds @ ps) = ?ds" using c by simp
  then have "take (length block) (concat (take k (?ds @ ps))) = block"
    using padded_block [OF shard_len_covers [OF pos] refl, of block] by (simp only:)
  moreover have "reconstruct_block L c xs (length block) = (if k \<le> present xs then Ok block else Err TooManyMissing)"
    if "agrees xs (?ds @ ps)" for xs
    using rs.dec_enc [OF ok enc(1) that] reconstruct_too_few [of xs c L "length block"]
      agrees_length [OF that] enc(2) c by (simp add: codec_total_def)
  ultimately show ?thesis using enc len c by (intro exI [of _ "?ds @ ps"]) auto
qed

theorem block_survives_losses_witness:
  "\<exists>ss. encode_block rs_xor \<lparr> cd_data = 2, cd_parity = 1 \<rparr> [5, 6, 7] = Ok ss \<and>
    reconstruct_block rs_xor \<lparr> cd_data = 2, cd_parity = 1 \<rparr> (map Some ss) 3 = Ok [5, 6, 7]"
  using block_survives_losses [OF rs_laws_xor codec_ok_new [OF rs_laws_xor], of "[5, 6, 7]"]
  by (fastforce simp: agrees_nth numeral_3_eq_3)

text \<open>
  The length \<open>shard_len\<close> is the smallest shard length that fits: \<open>K\<close> shards of it hold the block, and no
  shorter positive length does.
\<close>

theorem shard_len_least:
  assumes "0 < cd_data c"
  shows "n \<le> cd_data c * shard_len c n \<and>
    (\<forall>s. 0 < s \<longrightarrow> n \<le> cd_data c * s \<longrightarrow> shard_len c n \<le> s)"
  using shard_len_covers [OF assms, of n] shard_len_minimal [OF assms]
  by (cases "n = 0") (auto simp: shard_len_def div_ceil_def)

theorem shard_len_least_witness:
  "(10 :: nat) \<le> 4 * shard_len \<lparr> cd_data = 4, cd_parity = 2 \<rparr> 10"
  using shard_len_least [of "\<lparr> cd_data = 4, cd_parity = 2 \<rparr>" 10] by simp

end
