(* ===== verification/Store_Base.thy ===== *)
theory Store_Base
  imports Drive_Laws Codec Crypto
begin

text \<open>
  The core of \<open>src/erasure/store.rs\<close> (lines 167 to 618 and 1000 to 1082): the store over its drive
  slots, the replicated metadata helpers, the sharded write and the reconstructing read.  Loops over
  the drives act on one drive at a time and are maps over the drive list; the write runs phase by
  phase as in the source, each slot keeping its drive, its \<open>ok\<close> flag and whether its writer is open.
  The text of an internal error keeps its fixed part and drops the formatted path or cause.
\<close>

section \<open>State and environment\<close>

text \<open>
  The third-party code and the key provider a store calls, and what one call finds outside it: the
  clock, a fresh UUID, random bytes, an opaque ETag, and the audit context of the request.
\<close>

record store_env =
  ev_rs :: rs_lib
  ev_blake3 :: "bytes \<Rightarrow> bytes"
  ev_md5 :: "bytes \<Rightarrow> bytes"
  ev_crypto :: crypto_lib
  ev_provider :: key_provider

record call_ctx =
  cx_now :: int
  cx_uuid :: string
  cx_entropy :: entropy
  cx_opaque_etag :: string
  cx_access_key :: "string option"
  cx_remote_ip :: "string option"

record store =
  st_drives :: "drive list"
  st_codec :: codec
  st_block_size :: nat
  st_encrypt_all :: bool

definition with_drives ::
  "store_env \<Rightarrow> drive list \<Rightarrow> bool \<Rightarrow> nat \<Rightarrow> nat \<Rightarrow> store result" where
  "with_drives E drives encrypt_all parity block_size =
     (let n = length drives in
      if n < 2 \<or> parity = 0 \<or> parity \<ge> n then Err (Internal ''erasure: need >=2 drives and 1 <= parity < drives'')
      else case codec_new (ev_rs E) (n - parity) parity of
        Err e \<Rightarrow> Err (Internal ''erasure codec'')
      | Ok c \<Rightarrow> Ok \<lparr> st_drives = drives, st_codec = c, st_block_size = block_size,
                     st_encrypt_all = encrypt_all \<rparr>)"

definition should_encrypt :: "store \<Rightarrow> bool \<Rightarrow> bool" where
  "should_encrypt st encrypt = (encrypt \<or> st_encrypt_all st)"

section \<open>Replicated metadata\<close>

definition meta_read_any :: "drive list \<Rightarrow> pathbuf \<Rightarrow> doc option" where
  "meta_read_any ds rel = first_some (\<lambda>d. drive_read d rel) ds"

definition make_parent :: "pathbuf \<Rightarrow> drive \<Rightarrow> drive" where
  "make_parent rel d =
     (case pparent rel of Some p \<Rightarrow> fst (drive_create_dir_all d p) | None \<Rightarrow> d)"

definition meta_write_one :: "pathbuf \<Rightarrow> doc \<Rightarrow> drive \<Rightarrow> drive \<times> bool" where
  "meta_write_one rel data d = drive_write (make_parent rel d) rel data"

definition meta_write_all :: "drive list \<Rightarrow> pathbuf \<Rightarrow> doc \<Rightarrow> drive list \<times> unit result" where
  "meta_write_all ds rel data =
     (let rs = map (meta_write_one rel data) ds
      in (map fst rs,
          if length (filter snd rs) = 0 then Err (Internal ''metadata write: no drive reachable'')
          else Ok ()))"

definition meta_del_all :: "drive list \<Rightarrow> pathbuf \<Rightarrow> drive list" where
  "meta_del_all ds rel = map (\<lambda>d. fst (drive_remove_file d rel)) ds"

fun dedup_entries :: "walk_entry list \<Rightarrow> walk_entry list \<Rightarrow> walk_entry list" where
  "dedup_entries seen [] = []"
| "dedup_entries seen (e # es) =
     (if e \<in> set seen then dedup_entries seen es else e # dedup_entries (e # seen) es)"

definition walk_union :: "drive list \<Rightarrow> string \<Rightarrow> walk_entry list" where
  "walk_union ds bucket =
     dedup_entries [] (concat (map (\<lambda>d. case drive_walk d (r_bucket bucket) of
                                          Some es \<Rightarrow> es | None \<Rightarrow> []) ds))"

definition meta_stat_any :: "drive list \<Rightarrow> pathbuf \<Rightarrow> bool" where
  "meta_stat_any ds rel = list_ex (\<lambda>d. drive_stat d rel \<noteq> None) ds"

definition first_online_drive :: "drive list \<Rightarrow> nat option" where
  "first_online_drive ds = position drive_online ds"

definition upload_drive :: "drive list \<Rightarrow> string \<Rightarrow> nat" where
  "upload_drive ds upload_id =
     (if length upload_id < 2 then 0
      else case parse_radix 16 (2 ^ 64 - 1) (take 2 upload_id) of
        Some i \<Rightarrow> if i < length ds then i else 0
      | None \<Rightarrow> 0)"

section \<open>Object metadata\<close>

definition decode_xl :: "drive \<Rightarrow> pathbuf \<Rightarrow> xl_meta option" where
  "decode_xl d rel = (case drive_read d rel of Some c \<Rightarrow> as_xl c | None \<Rightarrow> None)"

definition read_xl_v :: "drive list \<Rightarrow> string \<Rightarrow> string \<Rightarrow> string option \<Rightarrow> xl_meta result" where
  "read_xl_v ds bucket key vid =
     (let rel = pjoin (r_obj_v bucket key vid) XL_META
      in case first_some (\<lambda>d. decode_xl d rel) ds of Some m \<Rightarrow> Ok m | None \<Rightarrow> Err NoSuchKey)"

definition read_xl :: "drive list \<Rightarrow> string \<Rightarrow> string \<Rightarrow> xl_meta result" where
  "read_xl ds bucket key = read_xl_v ds bucket key None"

text \<open>\<open>OffsetDateTime::from_unix_timestamp(..).unwrap_or(UNIX_EPOCH)\<close>: years -9999 to 9999.\<close>

definition unix_time :: "int \<Rightarrow> int" where
  "unix_time t = (if - 377705116800 \<le> t \<and> t \<le> 253402300799 then t else 0)"

definition audit_of :: "string option \<Rightarrow> string option \<Rightarrow> version_audit option" where
  "audit_of who src =
     (let a = \<lparr> au_author = who, au_source_ip = src \<rparr>
      in if audit_is_some a then Some a else None)"

definition meta_to_object :: "string \<Rightarrow> xl_meta \<Rightarrow> object_meta" where
  "meta_to_object key m =
     \<lparr> om_key = key, om_size = xm_size m, om_etag = xm_etag m,
       om_last_modified = unix_time (xm_last_modified m), om_content_type = xm_content_type m,
       om_user_metadata = xm_user_metadata m, om_encrypted = xm_encrypted m,
       om_version_id = None, om_audit = audit_of (xm_owner m) (xm_src_ip m) \<rparr>"

section \<open>Writing an object\<close>

text \<open>
  \<open>read_block\<close> in the loop of \<open>write_sharded\<close>: the blocks the loop processes, and whether a read of
  the body failed.  A body whose length is a multiple of the block size has no short last block; an
  empty body is one empty block.
\<close>

function read_blocks :: "nat \<Rightarrow> bool \<Rightarrow> body \<Rightarrow> bytes list \<times> bool" where
  "read_blocks bs wrote_any (Body p fails) =
     (let got = take bs p in
      if length got < bs \<and> fails then ([], True)
      else if got = [] \<and> wrote_any then ([], False)
      else if length got < bs then ([got], False)
      else let (rest, err) = read_blocks bs True (Body (drop bs p) fails) in (got # rest, err))"
  by pat_completeness auto
termination
  by (relation "measure (\<lambda>(bs, wrote, b). length (body_bytes b) + (if wrote then 0 else 1))") auto

declare read_blocks.simps [simp del]

record slot =
  sl_drive :: drive
  sl_ok :: bool
  sl_open :: bool

definition slot_prepare :: "pathbuf \<Rightarrow> pathbuf \<Rightarrow> drive \<Rightarrow> slot" where
  "slot_prepare rel_dir tmp_rel d =
     (let (d1, k1) = drive_create_dir_all d rel_dir in
      if \<not> k1 then \<lparr> sl_drive = d1, sl_ok = False, sl_open = False \<rparr>
      else let (d2, k2) = drive_create d1 tmp_rel
           in \<lparr> sl_drive = d2, sl_ok = k2, sl_open = k2 \<rparr>)"

definition slot_append :: "nat \<Rightarrow> pathbuf \<Rightarrow> slot \<Rightarrow> bytes \<Rightarrow> slot" where
  "slot_append b tmp_rel s shard =
     (if sl_open s
      then let (d', k) = drive_append (sl_drive s) b tmp_rel shard
           in \<lparr> sl_drive = d', sl_ok = (sl_ok s \<and> k), sl_open = k \<rparr>
      else s)"

definition slot_finish :: "pathbuf \<Rightarrow> slot \<Rightarrow> slot" where
  "slot_finish tmp_rel s =
     (if sl_open s
      then s\<lparr> sl_ok := sl_ok s \<and> drive_shutdown (sl_drive s) tmp_rel, sl_open := False \<rparr>
      else s)"

definition slot_publish :: "pathbuf \<Rightarrow> pathbuf \<Rightarrow> slot \<Rightarrow> slot" where
  "slot_publish tmp_rel part_rel s =
     (if sl_ok s
      then let (d', k) = drive_rename (sl_drive s) tmp_rel part_rel
           in s\<lparr> sl_drive := d', sl_ok := k \<rparr>
      else s)"

definition slot_meta :: "pathbuf \<Rightarrow> doc \<Rightarrow> slot \<Rightarrow> slot" where
  "slot_meta meta_rel c s =
     (if sl_ok s
      then let (d', k) = drive_write (sl_drive s) meta_rel c
           in s\<lparr> sl_drive := d', sl_ok := k \<rparr>
      else s)"

text \<open>One block: every drive's checksum is recorded, live writers get their shard.\<close>

fun write_blocks ::
  "store_env \<Rightarrow> codec \<Rightarrow> pathbuf \<Rightarrow> nat \<Rightarrow> bytes list \<Rightarrow> slot list \<Rightarrow> string list list \<Rightarrow>
   slot list \<times> string list list result" where
  "write_blocks E c tmp_rel b [] slots sums = (slots, Ok sums)"
| "write_blocks E c tmp_rel b (blk # blks) slots sums =
     (case encode_block (ev_rs E) c blk of
        Err e \<Rightarrow> (slots, Err (Internal ''erasure encode''))
      | Ok shards \<Rightarrow>
          write_blocks E c tmp_rel (Suc b) blks
            (map2 (slot_append b tmp_rel) slots shards)
            (map2 (\<lambda>cs s. cs @ [checksum (ev_blake3 E) s]) sums shards))"

definition count_ok :: "slot list \<Rightarrow> nat" where
  "count_ok slots = length (filter sl_ok slots)"

definition quorum_error :: "nat \<Rightarrow> nat \<Rightarrow> nat \<Rightarrow> s3error" where
  "quorum_error written n quorum =
     Internal (''write quorum not met: '' @ show_nat written @ ''/'' @ show_nat n
       @ '' shards written (need '' @ show_nat quorum @ '')'')"

definition new_xl_meta ::
  "store_env \<Rightarrow> call_ctx \<Rightarrow> store \<Rightarrow> bytes list \<Rightarrow> string list list \<Rightarrow> string \<Rightarrow> string_map \<Rightarrow>
   bool \<Rightarrow> string option \<Rightarrow> xl_meta" where
  "new_xl_meta E C st blocks sums content_type user_metadata encrypted etag_override =
     (let need_md5 = (etag_override = None \<and> \<not> encrypted);
          stored_size = length (concat blocks);
          etag = (case etag_override of
                    Some e \<Rightarrow> e
                  | None \<Rightarrow> if need_md5 then hex_encode (ev_md5 E (concat blocks)) else cx_opaque_etag C);
          size = (if encrypted then plaintext_len stored_size (ctx_header_len (ev_provider E))
                  else stored_size)
      in \<lparr> xm_version = 1, xm_data = cd_data (st_codec st), xm_parity = cd_parity (st_codec st),
           xm_block_size = st_block_size st, xm_stored_size = stored_size, xm_size = size,
           xm_etag = etag, xm_content_type = content_type, xm_user_metadata = user_metadata,
           xm_encrypted = encrypted, xm_last_modified = cx_now C, xm_owner = cx_access_key C,
           xm_src_ip = cx_remote_ip C, xm_checksums = sums \<rparr>)"

definition write_sharded ::
  "store_env \<Rightarrow> call_ctx \<Rightarrow> store \<Rightarrow> string \<Rightarrow> string \<Rightarrow> body \<Rightarrow> string \<Rightarrow> string_map \<Rightarrow> bool \<Rightarrow>
   string option \<Rightarrow> store \<times> object_meta result" where
  "write_sharded E C st bucket key src content_type user_metadata encrypted etag_override =
     (let n = length (st_drives st);
          quorum = cd_data (st_codec st) + 1;
          rel_dir = r_object bucket key;
          tmp_rel = pjoin rel_dir PART_TMP;
          part_rel = pjoin rel_dir PART;
          meta_rel = pjoin rel_dir XL_META;
          prepared = map (slot_prepare rel_dir tmp_rel) (st_drives st);
          (blocks, read_failed) = read_blocks (st_block_size st) False src;
          (written, outcome) = write_blocks E (st_codec st) tmp_rel 0 blocks prepared (replicate n [])
      in case outcome of
           Err e \<Rightarrow> (st\<lparr>st_drives := map sl_drive written\<rparr>, Err e)
         | Ok sums \<Rightarrow>
             if read_failed
             then (st\<lparr>st_drives := map sl_drive written\<rparr>, Err (Internal ''read body''))
             else
               let finished = map (slot_finish tmp_rel) written;
                   published = map (slot_publish tmp_rel part_rel) finished;
                   meta = new_xl_meta E C st blocks sums content_type user_metadata encrypted etag_override;
                   final = map (slot_meta meta_rel (XlDoc meta)) published
               in if count_ok final < quorum
                  then (st\<lparr>st_drives := map (\<lambda>s. fst (drive_remove_dir_all (sl_drive s) rel_dir)) final\<rparr>,
                        Err (quorum_error (count_ok final) n quorum))
                  else (st\<lparr>st_drives := map sl_drive final\<rparr>, Ok (meta_to_object key meta)))"

section \<open>Reading an object\<close>

text \<open>The length of block \<open>b\<close> of an object of \<open>stored\<close> bytes in \<open>nblocks\<close> blocks.\<close>

definition num_blocks :: "nat \<Rightarrow> nat \<Rightarrow> nat" where
  "num_blocks bs stored = (if stored = 0 then 1 else div_ceil stored bs)"

definition block_len :: "nat \<Rightarrow> nat \<Rightarrow> nat \<Rightarrow> nat" where
  "block_len bs stored b =
     (if stored = 0 then 0
      else if b = num_blocks bs stored - 1 then stored - b * bs else bs)"

text \<open>\<open>checksums.get(d).and_then(|c| c.get(b))\<close>.\<close>

definition recorded_sum :: "string list list \<Rightarrow> nat \<Rightarrow> nat \<Rightarrow> string option" where
  "recorded_sum sums d b =
     (if d < length sums then (if b < length (sums ! d) then Some (sums ! d ! b) else None) else None)"

definition read_shard ::
  "store_env \<Rightarrow> string list list \<Rightarrow> pathbuf \<Rightarrow> nat \<Rightarrow> nat \<Rightarrow> nat \<Rightarrow> nat \<times> drive \<Rightarrow> bytes option" where
  "read_shard E sums part_rel b offset slen = (\<lambda>(d, drv).
     case drive_read_at drv part_rel offset slen of
       Some buf \<Rightarrow>
         (if recorded_sum sums d b = Some (checksum (ev_blake3 E) buf) then Some buf else None)
     | None \<Rightarrow> None)"

fun reconstruct_blocks ::
  "store_env \<Rightarrow> drive list \<Rightarrow> pathbuf \<Rightarrow> codec \<Rightarrow> nat \<Rightarrow> nat \<Rightarrow> string list list \<Rightarrow>
   nat list \<Rightarrow> nat \<Rightarrow> bytes" where
  "reconstruct_blocks E ds part_rel c bs stored sums [] offset = []"
| "reconstruct_blocks E ds part_rel c bs stored sums (b # rest) offset =
     (let blen = block_len bs stored b;
          slen = shard_len c blen;
          shards = map (read_shard E sums part_rel b offset slen) (enumerate 0 ds)
      in case reconstruct_block (ev_rs E) c shards blen of
           Ok block \<Rightarrow>
             block @ reconstruct_blocks E ds part_rel c bs stored sums rest (offset + slen)
         | Err _ \<Rightarrow> [])"

definition reconstruct_into ::
  "store_env \<Rightarrow> drive list \<Rightarrow> pathbuf \<Rightarrow> codec \<Rightarrow> nat \<Rightarrow> nat \<Rightarrow> string list list \<Rightarrow> bytes" where
  "reconstruct_into E ds rel_dir c bs stored sums =
     reconstruct_blocks E ds (pjoin rel_dir PART) c bs stored sums [0 ..< num_blocks bs stored] 0"

definition streaming_body ::
  "store_env \<Rightarrow> drive list \<Rightarrow> string \<Rightarrow> string \<Rightarrow> string option \<Rightarrow> xl_meta \<Rightarrow> body result" where
  "streaming_body E ds bucket key vid m =
     (case codec_new (ev_rs E) (xm_data m) (xm_parity m) of
        Err e \<Rightarrow> Err (Internal ''erasure codec'')
      | Ok c \<Rightarrow>
          Ok (Body (reconstruct_into E ds (r_obj_v bucket key vid) c (xm_block_size m)
                      (xm_stored_size m) (xm_checksums m)) False))"

definition object_body ::
  "store_env \<Rightarrow> drive list \<Rightarrow> string \<Rightarrow> string \<Rightarrow> string option \<Rightarrow> xl_meta \<Rightarrow> body result" where
  "object_body E ds bucket key vid m =
     (case streaming_body E ds bucket key vid m of
        Err e \<Rightarrow> Err e
      | Ok raw \<Rightarrow>
          if xm_encrypted m
          then (case decrypting_reader_checked (ev_crypto E) (ev_provider E) raw of
                  Err e \<Rightarrow> Err (Internal ''decrypt object'')
                | Ok b \<Rightarrow> Ok b)
          else Ok raw)"

text \<open>\<open>skip_bytes\<close>: discard up to \<open>n\<close> bytes; reaching the end is not an error.\<close>

definition skip_bytes :: "nat \<Rightarrow> body \<Rightarrow> body result" where
  "skip_bytes n b =
     (if length (body_bytes b) < n \<and> body_fails b then Err (Internal ''body'')
      else Ok (Body (drop n (body_bytes b)) (body_fails b)))"

text \<open>\<open>stream_to_part\<close>: the body is appended as it is read; a failed read leaves what was written.\<close>

definition stream_to_part ::
  "store_env \<Rightarrow> drive \<Rightarrow> body \<Rightarrow> pathbuf \<Rightarrow> drive \<times> (string \<times> nat) result" where
  "stream_to_part E d b dest =
     (case drive_create d dest of
        (d1, False) \<Rightarrow> (d1, Err (Internal ''create part''))
      | (d1, True) \<Rightarrow>
          (case (if body_bytes b = [] then (d1, True) else drive_append d1 0 dest (body_bytes b)) of
             (d2, False) \<Rightarrow> (d2, Err (Internal ''write part''))
           | (d2, True) \<Rightarrow>
               if body_fails b then (d2, Err (Internal ''read part''))
               else if \<not> drive_shutdown d2 dest then (d2, Err (Internal ''finish part''))
               else (d2, Ok (hex_encode (ev_md5 E (body_bytes b)), length (body_bytes b)))))"

end
