(* ===== verification/Store_Versions.thy ===== *)
theory Store_Versions
  imports Store_Base
begin

text \<open>
  Versioning in \<open>src/erasure/store.rs\<close> (lines 620 to 775 and 1771 to 1805): the bucket's mode, the
  replicated history of a key, and the moves between the current slot of an object and its archive
  \<open>.v/<version id>\<close>.
\<close>

section \<open>The mode of a bucket\<close>

definition status_rank :: "string \<Rightarrow> nat" where
  "status_rank s = (if s = ''Enabled'' then 2 else if s = ''Suspended'' then 1 else 0)"

definition decode_status :: "drive \<Rightarrow> pathbuf \<Rightarrow> string option" where
  "decode_status d rel = (case drive_read d rel of Some c \<Rightarrow> as_status c | None \<Rightarrow> None)"

definition more_protective :: "pathbuf \<Rightarrow> string \<Rightarrow> drive \<Rightarrow> string" where
  "more_protective rel best d =
     (case decode_status d rel of
        Some s \<Rightarrow> if status_rank s > status_rank best then s else best
      | None \<Rightarrow> best)"

definition get_bucket_versioning :: "drive list \<Rightarrow> string \<Rightarrow> string" where
  "get_bucket_versioning ds bucket =
     foldl (more_protective (r_bucket_cfg bucket ''versioning.json'')) [] ds"

definition vmode :: "drive list \<Rightarrow> string \<Rightarrow> version_mode" where
  "vmode ds bucket =
     (let s = get_bucket_versioning ds bucket
      in if s = ''Enabled'' then Enabled else if s = ''Suspended'' then Suspended else Off)"

section \<open>The history of a key\<close>

definition decode_history :: "drive \<Rightarrow> pathbuf \<Rightarrow> v_history option" where
  "decode_history d rel = (case drive_read d rel of Some c \<Rightarrow> as_history c | None \<Rightarrow> None)"

definition newer_history :: "pathbuf \<Rightarrow> v_history option \<Rightarrow> drive \<Rightarrow> v_history option" where
  "newer_history rel best d =
     (case decode_history d rel of
        Some h \<Rightarrow>
          (case best of
             None \<Rightarrow> Some h
           | Some x \<Rightarrow> if vh_epoch h > vh_epoch x then Some h else best)
      | None \<Rightarrow> best)"

definition read_history :: "drive list \<Rightarrow> string \<Rightarrow> string \<Rightarrow> v_history" where
  "read_history ds bucket key =
     (case foldl (newer_history (r_history bucket key)) None ds of
        Some h \<Rightarrow> h | None \<Rightarrow> v_history_default)"

definition write_history ::
  "drive list \<Rightarrow> string \<Rightarrow> string \<Rightarrow> v_history \<Rightarrow> drive list \<times> unit result" where
  "write_history ds bucket key h =
     meta_write_all ds (r_history bucket key) (HistDoc (h\<lparr>vh_epoch := vh_epoch h + 1\<rparr>))"

definition has_history :: "drive list \<Rightarrow> string \<Rightarrow> string \<Rightarrow> bool" where
  "has_history ds bucket key = meta_stat_any ds (r_history bucket key)"

definition legacy_entry :: "xl_meta \<Rightarrow> v_entry" where
  "legacy_entry m =
     \<lparr> ve_version_id = ''null'', ve_delete_marker = False, ve_last_modified = xm_last_modified m,
       ve_etag = xm_etag m, ve_size = xm_size m, ve_owner = xm_owner m, ve_src_ip = xm_src_ip m \<rparr>"

definition seed_legacy_history :: "drive list \<Rightarrow> string \<Rightarrow> string \<Rightarrow> drive list \<times> unit result" where
  "seed_legacy_history ds bucket key =
     (if has_history ds bucket key then (ds, Ok ())
      else case read_xl ds bucket key of
        Ok m \<Rightarrow> write_history ds bucket key \<lparr> vh_versions = [legacy_entry m], vh_epoch = 0 \<rparr>
      | Err _ \<Rightarrow> (ds, Ok ()))"

section \<open>Moves between the current slot and the archive\<close>

definition demote_one :: "pathbuf \<Rightarrow> pathbuf \<Rightarrow> drive \<Rightarrow> drive" where
  "demote_one cur arch d =
     (let d1 = fst (drive_create_dir_all d arch);
          d2 = fst (drive_rename d1 (pjoin cur XL_META) (pjoin arch XL_META))
      in fst (drive_rename d2 (pjoin cur PART) (pjoin arch PART)))"

definition demote_current :: "drive list \<Rightarrow> string \<Rightarrow> string \<Rightarrow> string \<Rightarrow> drive list" where
  "demote_current ds bucket key vid =
     map (demote_one (r_object bucket key) (r_obj_v bucket key (Some vid))) ds"

definition promote_one :: "pathbuf \<Rightarrow> pathbuf \<Rightarrow> drive \<Rightarrow> drive" where
  "promote_one cur arch d =
     (let d1 = fst (drive_rename d (pjoin arch XL_META) (pjoin cur XL_META));
          d2 = fst (drive_rename d1 (pjoin arch PART) (pjoin cur PART))
      in fst (drive_remove_dir d2 arch))"

definition promote_archive :: "drive list \<Rightarrow> string \<Rightarrow> string \<Rightarrow> string \<Rightarrow> drive list" where
  "promote_archive ds bucket key vid =
     map (promote_one (r_object bucket key) (r_obj_v bucket key (Some vid))) ds"

definition discard_current :: "drive list \<Rightarrow> string \<Rightarrow> string \<Rightarrow> drive list" where
  "discard_current ds bucket key =
     (let cur = r_object bucket key
      in map (\<lambda>d. fst (drive_remove_file (fst (drive_remove_file d (pjoin cur XL_META))) (pjoin cur PART))) ds)"

definition remove_archive :: "drive list \<Rightarrow> string \<Rightarrow> string \<Rightarrow> string \<Rightarrow> drive list" where
  "remove_archive ds bucket key vid =
     map (\<lambda>d. fst (drive_remove_dir_all d (r_obj_v bucket key (Some vid)))) ds"

section \<open>A versioned write\<close>

text \<open>The head of the history occupies the current slot unless it is a delete marker.\<close>

definition canonical_occupied :: "v_history \<Rightarrow> bool" where
  "canonical_occupied h =
     (case vh_versions h of v # _ \<Rightarrow> \<not> ve_delete_marker v | [] \<Rightarrow> False)"

text \<open>
  In a suspended bucket a write replaces the \<open>null\<close> version: the drives, the history without it, and
  whether the current slot is still occupied.
\<close>

definition purge_null ::
  "drive list \<Rightarrow> string \<Rightarrow> string \<Rightarrow> v_history \<Rightarrow> bool \<Rightarrow> drive list \<times> v_history \<times> bool" where
  "purge_null ds bucket key hist occupied =
     (case position (\<lambda>v. ve_version_id v = ''null'') (vh_versions hist) of
        None \<Rightarrow> (ds, hist, occupied)
      | Some idx \<Rightarrow>
          let is_marker = ve_delete_marker (vh_versions hist ! idx);
              hist' = hist\<lparr>vh_versions := remove_at idx (vh_versions hist)\<rparr>
          in if idx = 0 \<and> occupied then (discard_current ds bucket key, hist', False)
             else if \<not> is_marker then (remove_archive ds bucket key ''null'', hist', occupied)
             else (ds, hist', occupied))"

definition new_version_id :: "call_ctx \<Rightarrow> version_mode \<Rightarrow> string" where
  "new_version_id C mode = (if mode = Suspended then ''null'' else cx_uuid C)"

text \<open>
  What \<open>begin_versioned_write\<close> and the marker branch of \<open>delete_object\<close> share: seed, purge, demote.
  The source unwinds on \<open>VMode::Off\<close>; both callers exclude it.
\<close>

definition begin_versioned_write ::
  "call_ctx \<Rightarrow> drive list \<Rightarrow> string \<Rightarrow> string \<Rightarrow> version_mode \<Rightarrow> drive list \<times> (string \<times> v_history) result" where
  "begin_versioned_write C ds bucket key mode =
     (case seed_legacy_history ds bucket key of
        (ds1, Err e) \<Rightarrow> (ds1, Err e)
      | (ds1, Ok _) \<Rightarrow>
          let hist = read_history ds1 bucket key;
              occupied = canonical_occupied hist;
              (ds2, hist2, occupied2) =
                (if mode = Suspended then purge_null ds1 bucket key hist occupied
                 else (ds1, hist, occupied));
              ds3 = (if occupied2
                     then demote_current ds2 bucket key (ve_version_id (hd (vh_versions hist2)))
                     else ds2)
          in (ds3, Ok (new_version_id C mode, hist2)))"

definition finish_versioned_write ::
  "call_ctx \<Rightarrow> drive list \<Rightarrow> string \<Rightarrow> string \<Rightarrow> v_history \<Rightarrow> string \<Rightarrow> string \<Rightarrow> nat \<Rightarrow> int \<Rightarrow>
   drive list \<times> unit result" where
  "finish_versioned_write C ds bucket key hist vid etag sz last_modified =
     write_history ds bucket key
       (hist\<lparr>vh_versions :=
          \<lparr> ve_version_id = vid, ve_delete_marker = False, ve_last_modified = last_modified,
            ve_etag = etag, ve_size = sz, ve_owner = cx_access_key C, ve_src_ip = cx_remote_ip C \<rparr>
          # vh_versions hist\<rparr>)"

end
