(* ===== verification/Store_Objects.thy ===== *)
theory Store_Objects
  imports Store_Versions Custody "HOL-Library.Product_Lexorder" "HOL-Library.Option_ord"
begin

text \<open>
  The object operations of \<open>impl ObjectStore for ErasureStore\<close> (\<open>src/erasure/store.rs\<close>, lines 1085
  to 1590): buckets, put, get, range, head, delete, copy, the two listings and the operations on one
  version.  Every operation takes the store and returns it updated; the per-key lock around the
  writing ones is the subject of the lock theories.
\<close>

section \<open>Buckets\<close>

definition head_bucket :: "drive list \<Rightarrow> string \<Rightarrow> unit result" where
  "head_bucket ds bucket =
     (if list_ex (\<lambda>d. drive_stat d (r_bucket bucket) = Some True) ds then Ok () else Err NoSuchBucket)"

definition create_bucket :: "store \<Rightarrow> string \<Rightarrow> store \<times> unit result" where
  "create_bucket st bucket =
     (case validate_bucket_name bucket of
        Err e \<Rightarrow> (st, Err e)
      | Ok _ \<Rightarrow>
          if meta_stat_any (st_drives st) (r_bucket bucket) then (st, Err BucketAlreadyOwnedByYou)
          else
            let rs = map (\<lambda>d. drive_create_dir_all d (r_bucket bucket)) (st_drives st);
                st' = st\<lparr>st_drives := map fst rs\<rparr>
            in if length (filter snd rs) = 0
               then (st', Err (Internal ''create bucket: no drive reachable''))
               else (st', Ok ()))"

text \<open>The names of the buckets; the creation dates come from the file system.\<close>

definition list_buckets :: "drive list \<Rightarrow> string list result" where
  "list_buckets ds =
     (case first_some (\<lambda>d. drive_read_dir d (path_new [])) ds of
        None \<Rightarrow> Err (Internal ''list buckets: no drive reachable'')
      | Some entries \<Rightarrow>
          Ok (sort (map de_name (filter (\<lambda>e. \<not> (de_name e = SYS_DIR \<or> \<not> de_is_dir e)) entries))))"

section \<open>Listing\<close>

text \<open>The keys of a walk: directories that hold a \<open>kp.meta\<close> and are not below a \<open>.v\<close>.\<close>

definition entry_keys :: "walk_entry list \<Rightarrow> string list" where
  "entry_keys entries =
     map (\<lambda>e. join_with ''/'' (butlast (wk_rel e)))
       (filter (\<lambda>e. wk_is_file e \<and> wk_rel e \<noteq> [] \<and> last (wk_rel e) = XL_META
                    \<and> ''.v'' \<notin> set (butlast (wk_rel e))) entries)"

definition listed_keys :: "drive list \<Rightarrow> string \<Rightarrow> string \<Rightarrow> string list" where
  "listed_keys ds bucket pre =
     sort (filter (\<lambda>k. starts_with k pre \<and> k \<noteq> []) (entry_keys (walk_union ds bucket)))"

text \<open>The common prefix a key falls under, when a non-empty delimiter is given.\<close>

definition common_prefix :: "string \<Rightarrow> string option \<Rightarrow> string \<Rightarrow> string option" where
  "common_prefix pre delim key =
     (case delim of
        None \<Rightarrow> None
      | Some dl \<Rightarrow>
          if dl = [] then None
          else let rest = drop (length pre) key
               in map_option (\<lambda>idx. pre @ take idx rest @ dl) (find_sub dl rest))"

record page =
  pg_chosen :: "string list"
  pg_common :: "string list"
  pg_truncated :: bool
  pg_next :: "string option"

definition skipped :: "string option \<Rightarrow> string option \<Rightarrow> string \<Rightarrow> bool" where
  "skipped token after key =
     ((case token of Some t \<Rightarrow> key < t | None \<Rightarrow> False)
      \<or> (case after of Some a \<Rightarrow> key \<le> a | None \<Rightarrow> False))"

fun page_loop ::
  "string \<Rightarrow> string option \<Rightarrow> string option \<Rightarrow> string option \<Rightarrow> nat \<Rightarrow> string list \<Rightarrow>
   string list \<Rightarrow> string list \<Rightarrow> nat \<Rightarrow> page" where
  "page_loop pre delim token after mx [] chosen common count =
     \<lparr> pg_chosen = chosen, pg_common = common, pg_truncated = False, pg_next = None \<rparr>"
| "page_loop pre delim token after mx (key # keys) chosen common count =
     (if skipped token after key then page_loop pre delim token after mx keys chosen common count
      else case common_prefix pre delim key of
        Some cp \<Rightarrow>
          if cp \<in> set common then page_loop pre delim token after mx keys chosen common count
          else if count \<ge> mx
          then \<lparr> pg_chosen = chosen, pg_common = common, pg_truncated = True, pg_next = Some key \<rparr>
          else page_loop pre delim token after mx keys chosen (common @ [cp]) (count + 1)
      | None \<Rightarrow>
          if count \<ge> mx
          then \<lparr> pg_chosen = chosen, pg_common = common, pg_truncated = True, pg_next = Some key \<rparr>
          else page_loop pre delim token after mx keys (chosen @ [key]) common (count + 1))"

definition read_objects :: "drive list \<Rightarrow> string \<Rightarrow> string list \<Rightarrow> object_meta list" where
  "read_objects ds bucket keys =
     concat (map (\<lambda>key. case read_xl ds bucket key of
                          Ok m \<Rightarrow> [meta_to_object key m] | Err _ \<Rightarrow> []) keys)"

definition list_objects_v2 ::
  "drive list \<Rightarrow> string \<Rightarrow> string \<Rightarrow> string option \<Rightarrow> string option \<Rightarrow> string option \<Rightarrow> nat \<Rightarrow>
   listing result" where
  "list_objects_v2 ds bucket pre delim token after mx =
     (case head_bucket ds bucket of
        Err e \<Rightarrow> Err e
      | Ok _ \<Rightarrow>
          let pg = page_loop pre delim token after mx (listed_keys ds bucket pre) [] [] 0
          in Ok \<lparr> ls_objects = read_objects ds bucket (pg_chosen pg),
                  ls_common_prefixes = sort (pg_common pg),
                  ls_is_truncated = pg_truncated pg,
                  ls_next_continuation_token = pg_next pg \<rparr>)"

definition delete_bucket :: "store \<Rightarrow> string \<Rightarrow> store \<times> unit result" where
  "delete_bucket st bucket =
     (if \<not> meta_stat_any (st_drives st) (r_bucket bucket) then (st, Err NoSuchBucket)
      else case list_objects_v2 (st_drives st) bucket [] None None None 1 of
        Err e \<Rightarrow> (st, Err e)
      | Ok l \<Rightarrow>
          if ls_objects l \<noteq> [] then (st, Err BucketNotEmpty)
          else
            let cfg_dir = pjoin (pjoin (path_new SYS_DIR) ''buckets'') bucket
            in (st\<lparr>st_drives :=
                  map (\<lambda>d. fst (drive_remove_dir_all (fst (drive_remove_dir_all d (r_bucket bucket))) cfg_dir))
                    (st_drives st)\<rparr>, Ok ()))"

section \<open>Put, get, head\<close>

definition encrypt_source ::
  "store_env \<Rightarrow> call_ctx \<Rightarrow> bool \<Rightarrow> body \<Rightarrow> body result" where
  "encrypt_source E C encrypted body =
     (if encrypted
      then (case encrypting_reader (ev_crypto E) (cx_entropy C) (ev_provider E) body of
              Err e \<Rightarrow> Err (Internal ''encrypt object'')
            | Ok b \<Rightarrow> Ok b)
      else Ok body)"

definition put_object ::
  "store_env \<Rightarrow> call_ctx \<Rightarrow> store \<Rightarrow> string \<Rightarrow> string \<Rightarrow> body \<Rightarrow> string \<Rightarrow> string_map \<Rightarrow> bool \<Rightarrow>
   store \<times> object_meta result" where
  "put_object E C st bucket key body content_type user_metadata encrypt =
     (case head_bucket (st_drives st) bucket of
        Err e \<Rightarrow> (st, Err e)
      | Ok _ \<Rightarrow>
     (case validate_key key of
        Err e \<Rightarrow> (st, Err e)
      | Ok _ \<Rightarrow>
          let encrypted = should_encrypt st encrypt
          in case encrypt_source E C encrypted body of
               Err e \<Rightarrow> (st, Err e)
             | Ok src \<Rightarrow>
                 let mode = vmode (st_drives st) bucket
                 in if mode = Off
                    then write_sharded E C st bucket key src content_type user_metadata encrypted None
                    else
                      (case begin_versioned_write C (st_drives st) bucket key mode of
                         (ds1, Err e) \<Rightarrow> (st\<lparr>st_drives := ds1\<rparr>, Err e)
                       | (ds1, Ok (vid, hist)) \<Rightarrow>
                           (case write_sharded E C (st\<lparr>st_drives := ds1\<rparr>) bucket key src content_type
                                   user_metadata encrypted None of
                              (st2, Err e) \<Rightarrow> (st2, Err e)
                            | (st2, Ok meta) \<Rightarrow>
                                (case finish_versioned_write C (st_drives st2) bucket key hist vid
                                        (om_etag meta) (om_size meta) (om_last_modified meta) of
                                   (ds3, Err e) \<Rightarrow> (st2\<lparr>st_drives := ds3\<rparr>, Err e)
                                 | (ds3, Ok _) \<Rightarrow>
                                     (st2\<lparr>st_drives := ds3\<rparr>, Ok (meta\<lparr>om_version_id := Some vid\<rparr>)))))))"

definition get_object ::
  "store_env \<Rightarrow> drive list \<Rightarrow> string \<Rightarrow> string \<Rightarrow> (object_meta \<times> body) result" where
  "get_object E ds bucket key =
     (case read_xl ds bucket key of
        Err e \<Rightarrow> Err e
      | Ok m \<Rightarrow>
          (case object_body E ds bucket key None m of
             Err e \<Rightarrow> Err e
           | Ok b \<Rightarrow> Ok (meta_to_object key m, b)))"

text \<open>The window of a range request on an object of \<open>size\<close> bytes: its start and length.\<close>

definition range_window :: "nat \<Rightarrow> nat \<Rightarrow> nat option \<Rightarrow> nat \<times> nat" where
  "range_window sz start stop =
     (let start' = min start sz;
          last = (case stop of Some e \<Rightarrow> min e (sz - 1) | None \<Rightarrow> sz - 1)
      in (start', if sz = 0 \<or> last < start' then 0 else last - start' + 1))"

definition get_object_range ::
  "store_env \<Rightarrow> drive list \<Rightarrow> string \<Rightarrow> string \<Rightarrow> nat \<Rightarrow> nat option \<Rightarrow>
   (object_meta \<times> nat \<times> body) result" where
  "get_object_range E ds bucket key start stop =
     (case get_object E ds bucket key of
        Err e \<Rightarrow> Err e
      | Ok (meta, body) \<Rightarrow>
          let (start', len) = range_window (om_size meta) start stop
          in case skip_bytes start' body of
               Err e \<Rightarrow> Err e
             | Ok b \<Rightarrow>
                 (case read_exact len b of
                    None \<Rightarrow> Err (Internal ''range read'')
                  | Some (piece, _) \<Rightarrow> Ok (meta, len, Body piece False)))"

definition head_object :: "drive list \<Rightarrow> string \<Rightarrow> string \<Rightarrow> object_meta result" where
  "head_object ds bucket key =
     (case read_xl ds bucket key of Err e \<Rightarrow> Err e | Ok m \<Rightarrow> Ok (meta_to_object key m))"

section \<open>Delete\<close>

text \<open>\<open>prune_empty\<close>: remove empty directories upward until \<open>stop\<close> (exclusive).\<close>

function prune_empty :: "drive \<Rightarrow> pathbuf \<Rightarrow> pathbuf \<Rightarrow> drive" where
  "prune_empty d rel stop =
     (if rel \<noteq> stop \<and> pstarts_with rel stop
      then (case drive_remove_dir d rel of
              (d', False) \<Rightarrow> d'
            | (d', True) \<Rightarrow> (case pparent rel of Some p \<Rightarrow> prune_empty d' p stop | None \<Rightarrow> d'))
      else d)"
  by pat_completeness auto
termination
  by (relation "measure (\<lambda>(d, rel, stop). length (pb_comps rel))")
    (auto simp: pparent_def split: if_splits)

declare prune_empty.simps [simp del]

definition remove_object_dir :: "string \<Rightarrow> pathbuf \<Rightarrow> drive \<Rightarrow> drive" where
  "remove_object_dir bucket rel d =
     (let d1 = fst (drive_remove_dir_all d rel)
      in case pparent rel of Some p \<Rightarrow> prune_empty d1 p (r_bucket bucket) | None \<Rightarrow> d1)"

definition marker_entry :: "call_ctx \<Rightarrow> string \<Rightarrow> v_entry" where
  "marker_entry C vid =
     \<lparr> ve_version_id = vid, ve_delete_marker = True, ve_last_modified = cx_now C, ve_etag = [],
       ve_size = 0, ve_owner = cx_access_key C, ve_src_ip = cx_remote_ip C \<rparr>"

definition delete_object :: "call_ctx \<Rightarrow> store \<Rightarrow> string \<Rightarrow> string \<Rightarrow> store \<times> delete_outcome result" where
  "delete_object C st bucket key =
     (case head_bucket (st_drives st) bucket of
        Err e \<Rightarrow> (st, Err e)
      | Ok _ \<Rightarrow>
          let mode = vmode (st_drives st) bucket
          in if mode \<noteq> Off
             then (case begin_versioned_write C (st_drives st) bucket key mode of
                     (ds1, Err e) \<Rightarrow> (st\<lparr>st_drives := ds1\<rparr>, Err e)
                   | (ds1, Ok (vid, hist)) \<Rightarrow>
                       (case write_history ds1 bucket key
                               (hist\<lparr>vh_versions := marker_entry C vid # vh_versions hist\<rparr>) of
                          (ds2, Err e) \<Rightarrow> (st\<lparr>st_drives := ds2\<rparr>, Err e)
                        | (ds2, Ok _) \<Rightarrow>
                            (st\<lparr>st_drives := ds2\<rparr>,
                             Ok \<lparr> do_version_id = Some vid, do_delete_marker = True \<rparr>)))
             else (st\<lparr>st_drives := map (remove_object_dir bucket (r_object bucket key)) (st_drives st)\<rparr>,
                   Ok delete_outcome_default))"

definition copy_object ::
  "store_env \<Rightarrow> call_ctx \<Rightarrow> store \<Rightarrow> string \<Rightarrow> string \<Rightarrow> string \<Rightarrow> string \<Rightarrow> bool \<Rightarrow>
   store \<times> object_meta result" where
  "copy_object E C st src_bucket src_key dst_bucket dst_key encrypt =
     (case get_object E (st_drives st) src_bucket src_key of
        Err e \<Rightarrow> (st, Err e)
      | Ok (src_meta, body) \<Rightarrow>
          if body_fails body then (st, Err (Internal ''body''))
          else put_object E C st dst_bucket dst_key (Body (body_bytes body) False)
                 (om_content_type src_meta) (om_user_metadata src_meta) encrypt)"

section \<open>Versions\<close>

definition find_version :: "v_history \<Rightarrow> string \<Rightarrow> nat result" where
  "find_version hist version_id =
     (case position (\<lambda>v. ve_version_id v = version_id) (vh_versions hist) of
        Some idx \<Rightarrow> Ok idx | None \<Rightarrow> Err NoSuchVersion)"

definition read_version ::
  "store \<Rightarrow> string \<Rightarrow> string \<Rightarrow> string \<Rightarrow> store \<times> (string option \<times> xl_meta) result" where
  "read_version st bucket key version_id =
     (case head_bucket (st_drives st) bucket of
        Err e \<Rightarrow> (st, Err e)
      | Ok _ \<Rightarrow>
     (case seed_legacy_history (st_drives st) bucket key of
        (ds1, Err e) \<Rightarrow> (st\<lparr>st_drives := ds1\<rparr>, Err e)
      | (ds1, Ok _) \<Rightarrow>
          (st\<lparr>st_drives := ds1\<rparr>,
           let hist = read_history ds1 bucket key
           in case find_version hist version_id of
                Err e \<Rightarrow> Err e
              | Ok idx \<Rightarrow>
                  if ve_delete_marker (vh_versions hist ! idx) then Err MethodNotAllowed
                  else let vopt = (if idx = 0 then None else Some version_id)
                       in case read_xl_v ds1 bucket key vopt of
                            Err e \<Rightarrow> Err e
                          | Ok m \<Rightarrow> Ok (vopt, m))))"

definition get_object_version ::
  "store_env \<Rightarrow> store \<Rightarrow> string \<Rightarrow> string \<Rightarrow> string \<Rightarrow> store \<times> (object_meta \<times> body) result" where
  "get_object_version E st bucket key version_id =
     (case read_version st bucket key version_id of
        (st', Err e) \<Rightarrow> (st', Err e)
      | (st', Ok (vopt, m)) \<Rightarrow>
          (st', case object_body E (st_drives st') bucket key vopt m of
                  Err e \<Rightarrow> Err e
                | Ok b \<Rightarrow> Ok ((meta_to_object key m)\<lparr>om_version_id := Some version_id\<rparr>, b)))"

definition head_object_version ::
  "store \<Rightarrow> string \<Rightarrow> string \<Rightarrow> string \<Rightarrow> store \<times> object_meta result" where
  "head_object_version st bucket key version_id =
     (case read_version st bucket key version_id of
        (st', Err e) \<Rightarrow> (st', Err e)
      | (st', Ok (vopt, m)) \<Rightarrow>
          (st', Ok ((meta_to_object key m)\<lparr>om_version_id := Some version_id\<rparr>)))"

definition delete_object_version ::
  "store \<Rightarrow> string \<Rightarrow> string \<Rightarrow> string \<Rightarrow> store \<times> delete_outcome result" where
  "delete_object_version st bucket key version_id =
     (case head_bucket (st_drives st) bucket of
        Err e \<Rightarrow> (st, Err e)
      | Ok _ \<Rightarrow>
     (case seed_legacy_history (st_drives st) bucket key of
        (ds1, Err e) \<Rightarrow> (st\<lparr>st_drives := ds1\<rparr>, Err e)
      | (ds1, Ok _) \<Rightarrow>
          let hist = read_history ds1 bucket key
          in case find_version hist version_id of
               Err e \<Rightarrow> (st\<lparr>st_drives := ds1\<rparr>, Err e)
             | Ok idx \<Rightarrow>
                 let entry = vh_versions hist ! idx;
                     was_current = (idx = 0);
                     ds2 = (if ve_delete_marker entry then ds1
                            else if was_current then discard_current ds1 bucket key
                            else remove_archive ds1 bucket key version_id);
                     rest = remove_at idx (vh_versions hist);
                     ds3 = (if was_current \<and> rest \<noteq> [] \<and> \<not> ve_delete_marker (hd rest)
                            then promote_archive ds2 bucket key (ve_version_id (hd rest)) else ds2);
                     outcome = \<lparr> do_version_id = Some version_id, do_delete_marker = ve_delete_marker entry \<rparr>
                 in if rest = []
                    then (st\<lparr>st_drives := map (remove_object_dir bucket (r_object bucket key)) ds3\<rparr>, Ok outcome)
                    else (case write_history ds3 bucket key (hist\<lparr>vh_versions := rest\<rparr>) of
                            (ds4, Err e) \<Rightarrow> (st\<lparr>st_drives := ds4\<rparr>, Err e)
                          | (ds4, Ok _) \<Rightarrow> (st\<lparr>st_drives := ds4\<rparr>, Ok outcome))))"

section \<open>Listing versions\<close>

definition current_keys :: "walk_entry list \<Rightarrow> string list" where
  "current_keys entries = filter (\<lambda>k. k \<noteq> []) (entry_keys entries)"

definition versioned_keys :: "walk_entry list \<Rightarrow> string list" where
  "versioned_keys entries =
     filter (\<lambda>k. k \<noteq> [])
       (map (\<lambda>e. join_with ''/'' (butlast (butlast (wk_rel e))))
         (filter (\<lambda>e. wk_is_file e \<and> wk_rel e \<noteq> [] \<and> last (wk_rel e) = ''kp.history.json''
                      \<and> butlast (wk_rel e) \<noteq> []) entries))"

definition history_versions :: "string \<Rightarrow> v_entry list \<Rightarrow> object_version list" where
  "history_versions key vs =
     map (\<lambda>(i, v). \<lparr> ov_key = key, ov_version_id = ve_version_id v, ov_is_latest = (i = 0),
            ov_last_modified = unix_time (ve_last_modified v), ov_etag = ve_etag v, ov_size = ve_size v,
            ov_is_delete_marker = ve_delete_marker v, ov_audit = audit_of (ve_owner v) (ve_src_ip v) \<rparr>)
       (enumerate 0 vs)"

definition key_versions :: "drive list \<Rightarrow> string \<Rightarrow> string list \<Rightarrow> string \<Rightarrow> object_version list" where
  "key_versions ds bucket versioned key =
     (if key \<in> set versioned then history_versions key (vh_versions (read_history ds bucket key))
      else case read_xl ds bucket key of
        Ok m \<Rightarrow>
          [\<lparr> ov_key = key, ov_version_id = ''null'', ov_is_latest = True,
             ov_last_modified = unix_time (xm_last_modified m), ov_etag = xm_etag m, ov_size = xm_size m,
             ov_is_delete_marker = False, ov_audit = audit_of (xm_owner m) (xm_src_ip m) \<rparr>]
      | Err _ \<Rightarrow> [])"

fun versions_loop ::
  "string \<Rightarrow> string option \<Rightarrow> nat \<Rightarrow> (string \<Rightarrow> object_version list) \<Rightarrow> string list \<Rightarrow>
   object_version list \<Rightarrow> string list \<Rightarrow> object_version list \<times> string list \<times> bool" where
  "versions_loop pre delim mx entries [] out common = (out, common, False)"
| "versions_loop pre delim mx entries (key # keys) out common =
     (case common_prefix pre delim key of
        Some cp \<Rightarrow>
          if cp \<in> set common then versions_loop pre delim mx entries keys out common
          else if length out + length common \<ge> mx then (out, common, True)
          else versions_loop pre delim mx entries keys out (common @ [cp])
      | None \<Rightarrow>
          let room = mx - (length out + length common)
          in if length (entries key) > room then (out @ take room (entries key), common, True)
             else versions_loop pre delim mx entries keys (out @ entries key) common)"

definition list_object_versions ::
  "drive list \<Rightarrow> string \<Rightarrow> string \<Rightarrow> string option \<Rightarrow> string option \<Rightarrow> string option \<Rightarrow> nat \<Rightarrow>
   version_listing result" where
  "list_object_versions ds bucket pre delim key_marker version_id_marker mx =
     (case head_bucket ds bucket of
        Err e \<Rightarrow> Err e
      | Ok _ \<Rightarrow>
          let es = walk_union ds bucket;
              versioned = versioned_keys es;
              all_keys = sort (remdups (filter (\<lambda>k. starts_with k pre) (versioned @ current_keys es)));
              (out, common, truncated) =
                versions_loop pre delim mx (key_versions ds bucket versioned) all_keys [] []
          in Ok \<lparr> vl_versions = out, vl_common_prefixes = sort common, vl_is_truncated = truncated,
                  vl_next_key_marker = None, vl_next_version_id_marker = None \<rparr>)"

end
