(* ===== verification/Store_Multipart.thy ===== *)
theory Store_Multipart
  imports Store_Objects
begin

text \<open>
  Multipart uploads and the configuration sidecars of \<open>src/erasure/store.rs\<close> (lines 1591 to 1860).
  An upload is staged in plain text on one drive, whose index is the head of the upload id; completing
  it checks the listed parts, concatenates them and runs the sharded write.
\<close>

section \<open>Hexadecimal text\<close>

definition hex_digit :: "char \<Rightarrow> nat option" where
  "hex_digit c = (case digit_value c of Some v \<Rightarrow> if v < 16 then Some v else None | None \<Rightarrow> None)"

text \<open>\<open>hex::decode\<close>: pairs of digits of either case; an odd length is an error.\<close>

fun hex_decode :: "string \<Rightarrow> bytes option" where
  "hex_decode [] = Some []"
| "hex_decode [c] = None"
| "hex_decode (c # d # cs) =
     (case (hex_digit c, hex_digit d, hex_decode cs) of
        (Some a, Some b, Some bs) \<Rightarrow> Some (word_of_nat (a * 16 + b) # bs)
      | _ \<Rightarrow> None)"

text \<open>\<open>{stage:02x}\<close>.\<close>

definition hex2 :: "nat \<Rightarrow> string" where
  "hex2 n = (if n < 16 then ''0'' @ show_radix 16 n else show_radix 16 n)"

section \<open>Uploads\<close>

definition on_drive :: "store \<Rightarrow> nat \<Rightarrow> drive \<Rightarrow> store" where
  "on_drive st i d = st\<lparr>st_drives := (st_drives st)[i := d]\<rparr>"

definition create_multipart ::
  "call_ctx \<Rightarrow> store \<Rightarrow> string \<Rightarrow> string \<Rightarrow> string \<Rightarrow> string_map \<Rightarrow> bool \<Rightarrow> store \<times> string result" where
  "create_multipart C st bucket key content_type user_metadata encrypt =
     (case head_bucket (st_drives st) bucket of
        Err e \<Rightarrow> (st, Err e)
      | Ok _ \<Rightarrow>
     (case validate_key key of
        Err e \<Rightarrow> (st, Err e)
      | Ok _ \<Rightarrow>
     (case first_online_drive (st_drives st) of
        None \<Rightarrow> (st, Err (Internal ''multipart: no drive reachable''))
      | Some stage \<Rightarrow>
          let upload_id = hex2 stage @ cx_uuid C;
              dir = r_upload upload_id;
              (d1, k1) = drive_create_dir_all (st_drives st ! stage) dir
          in if \<not> k1 then (on_drive st stage d1, Err (Internal ''mkdir upload''))
             else
               let manifest =
                     \<lparr> um_bucket = bucket, um_key = key, um_content_type = content_type,
                       um_user_metadata = user_metadata, um_created = cx_now C,
                       um_encrypt = should_encrypt st encrypt \<rparr>;
                   (d2, k2) = drive_write d1 (pjoin dir ''manifest.json'') (ManifestDoc manifest)
               in (on_drive st stage d2,
                   if k2 then Ok upload_id else Err (Internal ''write manifest'')))))"

definition part_file :: "nat \<Rightarrow> string" where
  "part_file n = ''part.'' @ show_nat n"

definition part_meta_file :: "nat \<Rightarrow> string" where
  "part_meta_file n = ''part.'' @ show_nat n @ ''.json''"

definition upload_part ::
  "store_env \<Rightarrow> call_ctx \<Rightarrow> store \<Rightarrow> string \<Rightarrow> string \<Rightarrow> string \<Rightarrow> nat \<Rightarrow> body \<Rightarrow> store \<times> string result" where
  "upload_part E C st bucket key upload_id part_number body =
     (let sd = upload_drive (st_drives st) upload_id;
          dir = r_upload upload_id;
          d = st_drives st ! sd
      in if drive_stat d (pjoin dir ''manifest.json'') = None then (st, Err NoSuchUpload)
         else case stream_to_part E d body (pjoin dir (part_file part_number)) of
           (d1, Err e) \<Rightarrow> (on_drive st sd d1, Err e)
         | (d1, Ok (etag, sz)) \<Rightarrow>
             let pm = \<lparr> pm_etag = etag, pm_size = sz, pm_created = cx_now C \<rparr>;
                 (d2, k) = drive_write d1 (pjoin dir (part_meta_file part_number)) (PartDoc pm)
             in (on_drive st sd d2, if k then Ok etag else Err (Internal ''write part meta'')))"

text \<open>
  The part loop of \<open>complete_multipart\<close>: the drive, and the concatenated MD5s; the part contents are
  appended to \<open>assembly\<close>, \<open>b\<close> counting the appends.
\<close>

fun assemble_parts ::
  "pathbuf \<Rightarrow> pathbuf \<Rightarrow> nat \<Rightarrow> completed_part list \<Rightarrow> drive \<Rightarrow> bytes \<Rightarrow> drive \<times> bytes result" where
  "assemble_parts dir assembly b [] d md5s = (d, Ok md5s)"
| "assemble_parts dir assembly b (part # parts) d md5s =
     (case drive_read d (pjoin dir (part_meta_file (cp_part_number part))) of
        None \<Rightarrow> (d, Err InvalidPart)
      | Some c \<Rightarrow>
     (case as_part_meta c of
        None \<Rightarrow> (d, Err (Internal ''decode part meta''))
      | Some pm \<Rightarrow>
          if trim_matches (CHR 0x22) (cp_etag part) \<noteq> pm_etag pm then (d, Err InvalidPart)
          else
     (case hex_decode (pm_etag pm) of
        None \<Rightarrow> (d, Err (Internal ''bad part etag''))
      | Some md5 \<Rightarrow>
     (case drive_open d (pjoin dir (part_file (cp_part_number part))) of
        None \<Rightarrow> (d, Err InvalidPart)
      | Some pf \<Rightarrow>
     (case as_bytes pf of
        None \<Rightarrow> (d, Err (Internal ''assemble part''))
      | Some xs \<Rightarrow>
     (case (if xs = [] then (d, True) else drive_append d b assembly xs) of
        (d', False) \<Rightarrow> (d', Err (Internal ''assemble part''))
      | (d', True) \<Rightarrow> assemble_parts dir assembly (Suc b) parts d' (md5s @ md5)))))))"

definition complete_multipart ::
  "store_env \<Rightarrow> call_ctx \<Rightarrow> store \<Rightarrow> string \<Rightarrow> string \<Rightarrow> string \<Rightarrow> completed_part list \<Rightarrow>
   store \<times> object_meta result" where
  "complete_multipart E C st bucket key upload_id parts =
     (let sd = upload_drive (st_drives st) upload_id;
          dir = r_upload upload_id;
          d0 = st_drives st ! sd
      in case drive_read d0 (pjoin dir ''manifest.json'') of
           None \<Rightarrow> (st, Err NoSuchUpload)
         | Some c \<Rightarrow>
      (case as_manifest c of
           None \<Rightarrow> (st, Err (Internal ''decode manifest''))
         | Some manifest \<Rightarrow>
             let assembly = pjoin dir ''assembly.tmp''
             in case drive_create d0 assembly of
                  (d1, False) \<Rightarrow> (on_drive st sd d1, Err (Internal ''create assembly''))
                | (d1, True) \<Rightarrow>
      (case assemble_parts dir assembly 0 parts d1 [] of
                  (d2, Err e) \<Rightarrow> (on_drive st sd d2, Err e)
                | (d2, Ok md5s) \<Rightarrow>
                    let st2 = on_drive st sd d2
                    in if \<not> drive_shutdown d2 assembly then (st2, Err (Internal ''finish assembly''))
                       else
                         let etag = hex_encode (ev_md5 E md5s) @ ''-'' @ show_nat (length parts);
                             encrypted = um_encrypt manifest
                         in case drive_open d2 assembly of
                              None \<Rightarrow> (st2, Err (Internal ''reopen assembly''))
                            | Some c \<Rightarrow>
      (case as_bytes c of
                              None \<Rightarrow> (st2, Err (Internal ''reopen assembly''))
                            | Some plain \<Rightarrow>
      (case encrypt_source E C encrypted (Body plain False) of
                              Err e \<Rightarrow> (st2, Err e)
                            | Ok src \<Rightarrow>
      (case write_sharded E C st2 (um_bucket manifest) (um_key manifest) src
                                    (um_content_type manifest) (um_user_metadata manifest) encrypted (Some etag) of
                              (st3, Err e) \<Rightarrow> (st3, Err e)
                            | (st3, Ok meta) \<Rightarrow>
                                (on_drive st3 sd (fst (drive_remove_dir_all (st_drives st3 ! sd) dir)),
                                 Ok meta)))))))"

definition abort_multipart :: "store \<Rightarrow> string \<Rightarrow> string \<Rightarrow> string \<Rightarrow> store \<times> unit result" where
  "abort_multipart st bucket key upload_id =
     (let sd = upload_drive (st_drives st) upload_id;
          dir = r_upload upload_id;
          d = st_drives st ! sd
      in if drive_stat d dir = None then (st, Err NoSuchUpload)
         else let (d', k) = drive_remove_dir_all d dir
              in (on_drive st sd d', if k then Ok () else Err (Internal ''abort'')))"

text \<open>The part number in a file name \<open>part.<n>.json\<close>.\<close>

definition part_number_of :: "string \<Rightarrow> nat option" where
  "part_number_of name =
     (case strip_prefix ''part.'' name of
        None \<Rightarrow> None
      | Some rest \<Rightarrow>
          (case strip_suffix ''.json'' rest of None \<Rightarrow> None | Some num \<Rightarrow> parse_u32 num))"

definition listed_part :: "drive \<Rightarrow> pathbuf \<Rightarrow> string \<Rightarrow> part_info option" where
  "listed_part d dir name =
     (case part_number_of name of
        None \<Rightarrow> None
      | Some n \<Rightarrow>
          (case drive_read d (pjoin dir name) of
             None \<Rightarrow> None
           | Some c \<Rightarrow>
               map_option (\<lambda>pm. \<lparr> pi_part_number = n, pi_etag = pm_etag pm, pi_size = pm_size pm,
                 pi_last_modified = unix_time (pm_created pm) \<rparr>) (as_part_meta c)))"

definition list_parts :: "store \<Rightarrow> string \<Rightarrow> string \<Rightarrow> string \<Rightarrow> part_info list result" where
  "list_parts st bucket key upload_id =
     (let d = st_drives st ! upload_drive (st_drives st) upload_id;
          dir = r_upload upload_id
      in case drive_read_dir d dir of
           None \<Rightarrow> Err NoSuchUpload
         | Some entries \<Rightarrow>
             Ok (sort_key pi_part_number (List.map_filter (\<lambda>e. listed_part d dir (de_name e)) entries)))"

section \<open>Configuration sidecars\<close>

definition read_cfg_as :: "(doc \<Rightarrow> 'a option) \<Rightarrow> drive list \<Rightarrow> pathbuf \<Rightarrow> 'a option" where
  "read_cfg_as f ds rel = (case meta_read_any ds rel of Some c \<Rightarrow> f c | None \<Rightarrow> None)"

definition set_bucket_cfg :: "store \<Rightarrow> string \<Rightarrow> string \<Rightarrow> doc \<Rightarrow> store \<times> unit result" where
  "set_bucket_cfg st bucket file c =
     (case head_bucket (st_drives st) bucket of
        Err e \<Rightarrow> (st, Err e)
      | Ok _ \<Rightarrow>
          let (ds, r) = meta_write_all (st_drives st) (r_bucket_cfg bucket file) c
          in (st\<lparr>st_drives := ds\<rparr>, r))"

definition del_bucket_cfg :: "store \<Rightarrow> string \<Rightarrow> string \<Rightarrow> store \<times> unit result" where
  "del_bucket_cfg st bucket file =
     (st\<lparr>st_drives := meta_del_all (st_drives st) (r_bucket_cfg bucket file)\<rparr>, Ok ())"

definition get_bucket_encryption :: "store \<Rightarrow> string \<Rightarrow> string option" where
  "get_bucket_encryption st bucket = read_cfg_as as_sse (st_drives st) (r_bucket_cfg bucket ''sse.json'')"
definition set_bucket_encryption :: "store \<Rightarrow> string \<Rightarrow> string \<Rightarrow> store \<times> unit result" where
  "set_bucket_encryption st bucket sse_type = set_bucket_cfg st bucket ''sse.json'' (SseDoc sse_type)"
definition delete_bucket_encryption :: "store \<Rightarrow> string \<Rightarrow> store \<times> unit result" where
  "delete_bucket_encryption st bucket = del_bucket_cfg st bucket ''sse.json''"

definition get_bucket_policy :: "store \<Rightarrow> string \<Rightarrow> string option" where
  "get_bucket_policy st bucket = read_cfg_as as_text (st_drives st) (r_bucket_cfg bucket ''policy.json'')"
definition set_bucket_policy :: "store \<Rightarrow> string \<Rightarrow> string \<Rightarrow> store \<times> unit result" where
  "set_bucket_policy st bucket policy = set_bucket_cfg st bucket ''policy.json'' (TextDoc policy)"
definition delete_bucket_policy :: "store \<Rightarrow> string \<Rightarrow> store \<times> unit result" where
  "delete_bucket_policy st bucket = del_bucket_cfg st bucket ''policy.json''"

definition get_bucket_tags :: "store \<Rightarrow> string \<Rightarrow> string_map option" where
  "get_bucket_tags st bucket = read_cfg_as as_tags (st_drives st) (r_bucket_cfg bucket ''tags.json'')"
definition set_bucket_tags :: "store \<Rightarrow> string \<Rightarrow> string_map \<Rightarrow> store \<times> unit result" where
  "set_bucket_tags st bucket tags = set_bucket_cfg st bucket ''tags.json'' (TagsDoc tags)"
definition delete_bucket_tags :: "store \<Rightarrow> string \<Rightarrow> store \<times> unit result" where
  "delete_bucket_tags st bucket = del_bucket_cfg st bucket ''tags.json''"

definition set_bucket_versioning :: "store \<Rightarrow> string \<Rightarrow> string \<Rightarrow> store \<times> unit result" where
  "set_bucket_versioning st bucket s = set_bucket_cfg st bucket ''versioning.json'' (StatusDoc s)"

definition get_bucket_lifecycle :: "store \<Rightarrow> string \<Rightarrow> string option" where
  "get_bucket_lifecycle st bucket = read_cfg_as as_text (st_drives st) (r_bucket_cfg bucket ''lifecycle.xml'')"
definition set_bucket_lifecycle :: "store \<Rightarrow> string \<Rightarrow> string \<Rightarrow> store \<times> unit result" where
  "set_bucket_lifecycle st bucket xml = set_bucket_cfg st bucket ''lifecycle.xml'' (TextDoc xml)"
definition delete_bucket_lifecycle :: "store \<Rightarrow> string \<Rightarrow> store \<times> unit result" where
  "delete_bucket_lifecycle st bucket = del_bucket_cfg st bucket ''lifecycle.xml''"

text \<open>The sidecars of an object, in its directory.\<close>

definition get_sidecar :: "(doc \<Rightarrow> 'a option) \<Rightarrow> store \<Rightarrow> string \<Rightarrow> string \<Rightarrow> string \<Rightarrow> 'a option result" where
  "get_sidecar f st bucket key file =
     (case head_object (st_drives st) bucket key of
        Err e \<Rightarrow> Err e
      | Ok _ \<Rightarrow> Ok (read_cfg_as f (st_drives st) (r_obj_sidecar bucket key file)))"

definition set_sidecar :: "store \<Rightarrow> string \<Rightarrow> string \<Rightarrow> string \<Rightarrow> doc \<Rightarrow> store \<times> unit result" where
  "set_sidecar st bucket key file c =
     (case head_object (st_drives st) bucket key of
        Err e \<Rightarrow> (st, Err e)
      | Ok _ \<Rightarrow>
          let (ds, r) = meta_write_all (st_drives st) (r_obj_sidecar bucket key file) c
          in (st\<lparr>st_drives := ds\<rparr>, r))"

definition get_object_tags :: "store \<Rightarrow> string \<Rightarrow> string \<Rightarrow> string_map option result" where
  "get_object_tags st bucket key = get_sidecar as_tags st bucket key ''tags.json''"
definition set_object_tags :: "store \<Rightarrow> string \<Rightarrow> string \<Rightarrow> string_map \<Rightarrow> store \<times> unit result" where
  "set_object_tags st bucket key tags = set_sidecar st bucket key ''tags.json'' (TagsDoc tags)"
definition delete_object_tags :: "store \<Rightarrow> string \<Rightarrow> string \<Rightarrow> store \<times> unit result" where
  "delete_object_tags st bucket key =
     (case head_object (st_drives st) bucket key of
        Err e \<Rightarrow> (st, Err e)
      | Ok _ \<Rightarrow>
          (st\<lparr>st_drives := meta_del_all (st_drives st) (r_obj_sidecar bucket key ''tags.json'')\<rparr>, Ok ()))"
definition get_object_retention :: "store \<Rightarrow> string \<Rightarrow> string \<Rightarrow> string option result" where
  "get_object_retention st bucket key = get_sidecar as_text st bucket key ''retention.json''"
definition set_object_retention :: "store \<Rightarrow> string \<Rightarrow> string \<Rightarrow> string \<Rightarrow> store \<times> unit result" where
  "set_object_retention st bucket key data = set_sidecar st bucket key ''retention.json'' (TextDoc data)"
definition get_object_legal_hold :: "store \<Rightarrow> string \<Rightarrow> string \<Rightarrow> string option result" where
  "get_object_legal_hold st bucket key = get_sidecar as_status st bucket key ''legalhold.json''"
definition set_object_legal_hold :: "store \<Rightarrow> string \<Rightarrow> string \<Rightarrow> string \<Rightarrow> store \<times> unit result" where
  "set_object_legal_hold st bucket key s = set_sidecar st bucket key ''legalhold.json'' (StatusDoc s)"

end
