(* ===== verification/Store_Heal.thy ===== *)
theory Store_Heal
  imports Store_Objects
begin

text \<open>
  Healing in \<open>src/erasure/store.rs\<close> (lines 777 to 998 and 1862 to 1896): finding the object versions
  of a bucket on any drive, verifying every shard against its checksum, and rebuilding the bad drives
  from the good ones.
\<close>

section \<open>Finding the object versions\<close>

text \<open>The object version a walk entry belongs to.\<close>

definition version_of_entry :: "walk_entry \<Rightarrow> (string \<times> string option) option" where
  "version_of_entry e =
     (if \<not> wk_is_file e \<or> wk_rel e = [] then None
      else if last (wk_rel e) \<noteq> XL_META \<and> last (wk_rel e) \<noteq> PART then None
      else let comps = butlast (wk_rel e) in
        if comps = [] then None
        else case position (\<lambda>c. c = ''.v'') comps of
          Some pos \<Rightarrow>
            if pos + 1 < length comps \<and> pos > 0
            then Some (join_with ''/'' (take pos comps), Some (comps ! (pos + 1))) else None
        | None \<Rightarrow> Some (join_with ''/'' comps, None))"

definition collect_object_dirs :: "drive list \<Rightarrow> string \<Rightarrow> (string \<times> string option) list" where
  "collect_object_dirs ds bucket =
     sort (remdups (List.map_filter version_of_entry
       (concat (map (\<lambda>d. case drive_walk d (r_bucket bucket) of Some es \<Rightarrow> es | None \<Rightarrow> []) ds))))"

section \<open>Healing one object version\<close>

datatype heal_outcome = Healthy | Healed nat | Unrecoverable

record heal_slot =
  hs_drive :: drive
  hs_bad_part :: bool
  hs_bad_meta :: bool

text \<open>\<open>bsz\<close>, the block size with a floor of one, and the length of block \<open>b\<close>.\<close>

definition heal_block_size :: "xl_meta \<Rightarrow> nat" where
  "heal_block_size m = max (xm_block_size m) 1"

text \<open>Pass 1 over the blocks: per drive whether some shard is bad, and the least number of good shards.\<close>

definition good_shards ::
  "store_env \<Rightarrow> codec \<Rightarrow> xl_meta \<Rightarrow> pathbuf \<Rightarrow> drive list \<Rightarrow> nat \<Rightarrow> nat \<Rightarrow> bool list" where
  "good_shards E c m part_rel ds b offset =
     map (\<lambda>p. read_shard E (xm_checksums m) part_rel b offset
                (shard_len c (block_len (heal_block_size m) (xm_stored_size m) b)) p \<noteq> None)
       (enumerate 0 ds)"

fun scan_blocks ::
  "store_env \<Rightarrow> codec \<Rightarrow> xl_meta \<Rightarrow> pathbuf \<Rightarrow> drive list \<Rightarrow> nat list \<Rightarrow> nat \<Rightarrow> bool list \<Rightarrow>
   nat option \<Rightarrow> bool list \<times> nat option" where
  "scan_blocks E c m part_rel ds [] offset bad min_good = (bad, min_good)"
| "scan_blocks E c m part_rel ds (b # rest) offset bad min_good =
     (let slen = shard_len c (block_len (heal_block_size m) (xm_stored_size m) b);
          good = good_shards E c m part_rel ds b offset;
          n_good = length (filter id good)
      in scan_blocks E c m part_rel ds rest (offset + slen)
           (map2 (\<lambda>bd g. bd \<or> \<not> g) bad good)
           (Some (case min_good of None \<Rightarrow> n_good | Some g \<Rightarrow> min g n_good)))"

text \<open>One step on every slot in order, stopping at the first error.\<close>

fun try_each :: "('a \<Rightarrow> 'a \<times> unit result) \<Rightarrow> 'a list \<Rightarrow> 'a list \<times> unit result" where
  "try_each f [] = ([], Ok ())"
| "try_each f (x # xs) =
     (case f x of
        (x', Err e) \<Rightarrow> (x' # xs, Err e)
      | (x', Ok _) \<Rightarrow> (let (ys, r) = try_each f xs in (x' # ys, r)))"

definition heal_open :: "pathbuf \<Rightarrow> pathbuf \<Rightarrow> heal_slot \<Rightarrow> heal_slot \<times> unit result" where
  "heal_open rel_dir tmp_rel s =
     (if \<not> hs_bad_part s then (s, Ok ())
      else case drive_create_dir_all (hs_drive s) rel_dir of
        (d1, False) \<Rightarrow> (s\<lparr>hs_drive := d1\<rparr>, Err (Internal ''heal mkdir''))
      | (d1, True) \<Rightarrow>
          (case drive_create d1 tmp_rel of
             (d2, False) \<Rightarrow> (s\<lparr>hs_drive := d2\<rparr>, Err (Internal ''heal create''))
           | (d2, True) \<Rightarrow> (s\<lparr>hs_drive := d2\<rparr>, Ok ())))"

definition heal_append ::
  "nat \<Rightarrow> pathbuf \<Rightarrow> heal_slot \<times> bytes \<Rightarrow> (heal_slot \<times> bytes) \<times> unit result" where
  "heal_append b tmp_rel = (\<lambda>(s, shard).
     if \<not> hs_bad_part s then ((s, shard), Ok ())
     else case drive_append (hs_drive s) b tmp_rel shard of
       (d1, False) \<Rightarrow> ((s\<lparr>hs_drive := d1\<rparr>, shard), Err (Internal ''heal write''))
     | (d1, True) \<Rightarrow> ((s\<lparr>hs_drive := d1\<rparr>, shard), Ok ()))"

definition heal_shard ::
  "store_env \<Rightarrow> xl_meta \<Rightarrow> pathbuf \<Rightarrow> nat \<Rightarrow> nat \<Rightarrow> nat \<Rightarrow> nat \<times> heal_slot \<Rightarrow> bytes option" where
  "heal_shard E m part_rel b offset slen = (\<lambda>(i, s).
     if hs_bad_part s then None
     else read_shard E (xm_checksums m) part_rel b offset slen (i, hs_drive s))"

fun rebuild_blocks ::
  "store_env \<Rightarrow> codec \<Rightarrow> xl_meta \<Rightarrow> pathbuf \<Rightarrow> pathbuf \<Rightarrow> nat list \<Rightarrow> nat \<Rightarrow> heal_slot list \<Rightarrow>
   heal_slot list \<times> unit result" where
  "rebuild_blocks E c m part_rel tmp_rel [] offset slots = (slots, Ok ())"
| "rebuild_blocks E c m part_rel tmp_rel (b # rest) offset slots =
     (let blen = block_len (heal_block_size m) (xm_stored_size m) b;
          slen = shard_len c blen;
          shards = map (heal_shard E m part_rel b offset slen) (enumerate 0 slots)
      in case reconstruct_block (ev_rs E) c shards blen of
           Err _ \<Rightarrow> (slots, Err (Internal ''heal: block unrecoverable''))
         | Ok block \<Rightarrow>
             (case encode_block (ev_rs E) c block of
                Err e \<Rightarrow> (slots, Err (Internal ''heal encode''))
              | Ok reshards \<Rightarrow>
                  (case try_each (heal_append b tmp_rel) (zip slots reshards) of
                     (ps, Err e) \<Rightarrow> (map fst ps, Err e)
                   | (ps, Ok _) \<Rightarrow>
                       rebuild_blocks E c m part_rel tmp_rel rest (offset + slen) (map fst ps))))"

definition heal_publish :: "pathbuf \<Rightarrow> pathbuf \<Rightarrow> heal_slot \<Rightarrow> heal_slot \<times> unit result" where
  "heal_publish tmp_rel part_rel s =
     (if \<not> hs_bad_part s then (s, Ok ())
      else if \<not> drive_shutdown (hs_drive s) tmp_rel then (s, Err (Internal ''heal finish''))
      else case drive_rename (hs_drive s) tmp_rel part_rel of
        (d1, False) \<Rightarrow> (s\<lparr>hs_drive := d1\<rparr>, Err (Internal ''heal rename''))
      | (d1, True) \<Rightarrow> (s\<lparr>hs_drive := d1\<rparr>, Ok ()))"

definition heal_meta :: "pathbuf \<Rightarrow> pathbuf \<Rightarrow> doc \<Rightarrow> heal_slot \<Rightarrow> heal_slot \<times> unit result" where
  "heal_meta rel_dir meta_rel c s =
     (if \<not> (hs_bad_meta s \<or> hs_bad_part s) then (s, Ok ())
      else case drive_create_dir_all (hs_drive s) rel_dir of
        (d1, False) \<Rightarrow> (s\<lparr>hs_drive := d1\<rparr>, Err (Internal ''heal mkdir meta''))
      | (d1, True) \<Rightarrow>
          (case drive_write d1 meta_rel c of
             (d2, False) \<Rightarrow> (s\<lparr>hs_drive := d2\<rparr>, Err (Internal ''heal write meta''))
           | (d2, True) \<Rightarrow> (s\<lparr>hs_drive := d2\<rparr>, Ok ())))"

text \<open>Pass 2: the new shard files, then the metadata.\<close>

definition rebuild_parts ::
  "store_env \<Rightarrow> codec \<Rightarrow> xl_meta \<Rightarrow> pathbuf \<Rightarrow> heal_slot list \<Rightarrow> heal_slot list \<times> unit result" where
  "rebuild_parts E c m rel_dir slots =
     (let tmp_rel = pjoin rel_dir HEAL_TMP;
          part_rel = pjoin rel_dir PART;
          nblocks = num_blocks (heal_block_size m) (xm_stored_size m)
      in case try_each (heal_open rel_dir tmp_rel) slots of
           (s1, Err e) \<Rightarrow> (s1, Err e)
         | (s1, Ok _) \<Rightarrow>
             (case rebuild_blocks E c m part_rel tmp_rel [0 ..< nblocks] 0 s1 of
                (s2, Err e) \<Rightarrow> (s2, Err e)
              | (s2, Ok _) \<Rightarrow> try_each (heal_publish tmp_rel part_rel) s2))"

definition heal_object ::
  "store_env \<Rightarrow> drive list \<Rightarrow> string \<Rightarrow> string \<Rightarrow> string option \<Rightarrow> bool \<Rightarrow>
   drive list \<times> heal_outcome result" where
  "heal_object E ds bucket key vid dry_run =
     (case read_xl_v ds bucket key vid of
        Err _ \<Rightarrow> (ds, Ok Unrecoverable)
      | Ok m \<Rightarrow>
     (case codec_new (ev_rs E) (xm_data m) (xm_parity m) of
        Err e \<Rightarrow> (ds, Err (Internal ''heal codec''))
      | Ok c \<Rightarrow>
          let rel_dir = r_obj_v bucket key vid;
              part_rel = pjoin rel_dir PART;
              meta_rel = pjoin rel_dir XL_META;
              nblocks = num_blocks (heal_block_size m) (xm_stored_size m);
              bad_meta = map (\<lambda>d. decode_xl d meta_rel = None) ds;
              (bad_part, min_good) =
                scan_blocks E c m part_rel ds [0 ..< nblocks] 0 (replicate (length ds) False) None;
              need_part = list_ex id bad_part;
              need_meta = list_ex id bad_meta;
              rewritten = length (filter id (map2 (\<or>) bad_part bad_meta))
          in if \<not> need_part \<and> \<not> need_meta then (ds, Ok Healthy)
             else if need_part \<and> (case min_good of Some g \<Rightarrow> g < xm_data m | None \<Rightarrow> False)
             then (ds, Ok Unrecoverable)
             else if dry_run then (ds, Ok (Healed rewritten))
             else
               let slots = map (\<lambda>(d, bp, bm). \<lparr> hs_drive = d, hs_bad_part = bp, hs_bad_meta = bm \<rparr>)
                             (zip ds (zip bad_part bad_meta));
                   (s1, r1) = (if need_part then rebuild_parts E c m rel_dir slots else (slots, Ok ()))
               in case r1 of
                    Err e \<Rightarrow> (map hs_drive s1, Err e)
                  | Ok _ \<Rightarrow>
                      (case try_each (heal_meta rel_dir meta_rel (XlDoc m)) s1 of
                         (s2, Err e) \<Rightarrow> (map hs_drive s2, Err e)
                       | (s2, Ok _) \<Rightarrow> (map hs_drive s2, Ok (Healed rewritten)))))"

section \<open>Healing buckets\<close>

definition count_outcome :: "heal_report \<Rightarrow> heal_outcome \<Rightarrow> heal_report" where
  "count_outcome r out =
     (let r1 = r\<lparr>hr_objects_scanned := hr_objects_scanned r + 1\<rparr>
      in case out of
           Healthy \<Rightarrow> r1
         | Healed shards \<Rightarrow>
             r1\<lparr>hr_objects_healed := hr_objects_healed r1 + 1,
                hr_shards_rewritten := hr_shards_rewritten r1 + shards\<rparr>
         | Unrecoverable \<Rightarrow> r1\<lparr>hr_objects_unrecoverable := hr_objects_unrecoverable r1 + 1\<rparr>)"

fun heal_versions ::
  "store_env \<Rightarrow> string \<Rightarrow> bool \<Rightarrow> (string \<times> string option) list \<Rightarrow> drive list \<Rightarrow> heal_report \<Rightarrow>
   drive list \<times> heal_report result" where
  "heal_versions E bucket dry_run [] ds r = (ds, Ok r)"
| "heal_versions E bucket dry_run ((key, vid) # rest) ds r =
     (case heal_object E ds bucket key vid dry_run of
        (ds1, Err e) \<Rightarrow> (ds1, Err e)
      | (ds1, Ok out) \<Rightarrow> heal_versions E bucket dry_run rest ds1 (count_outcome r out))"

fun heal_buckets ::
  "store_env \<Rightarrow> bool \<Rightarrow> string list \<Rightarrow> drive list \<Rightarrow> heal_report \<Rightarrow> drive list \<times> heal_report result" where
  "heal_buckets E dry_run [] ds r = (ds, Ok r)"
| "heal_buckets E dry_run (b # bs) ds r =
     (case heal_versions E b dry_run (collect_object_dirs ds b) ds r of
        (ds1, Err e) \<Rightarrow> (ds1, Err e)
      | (ds1, Ok r1) \<Rightarrow> heal_buckets E dry_run bs ds1 r1)"

definition heal :: "store_env \<Rightarrow> store \<Rightarrow> string option \<Rightarrow> bool \<Rightarrow> store \<times> heal_report result" where
  "heal E st bucket dry_run =
     (let r0 = heal_report_default\<lparr>hr_dry_run := dry_run\<rparr>;
          buckets = (case bucket of
                       Some b \<Rightarrow> (case head_bucket (st_drives st) b of Err e \<Rightarrow> Err e | Ok _ \<Rightarrow> Ok [b])
                     | None \<Rightarrow> list_buckets (st_drives st))
      in case buckets of
           Err e \<Rightarrow> (st, Err e)
         | Ok bs \<Rightarrow>
             let (ds, r) = heal_buckets E dry_run bs (st_drives st) r0
             in (st\<lparr>st_drives := ds\<rparr>, r))"

definition get_backend_info :: "store \<Rightarrow> backend_info" where
  "get_backend_info st =
     \<lparr> bi_backend_type = ''Erasure'', bi_data_shards = cd_data (st_codec st),
       bi_parity_shards = cd_parity (st_codec st),
       bi_drives = map (\<lambda>d. \<lparr> ds_path = drive_id d,
                               ds_state = (if drive_online d then ''ok'' else ''offline'') \<rparr>) (st_drives st) \<rparr>"

end
