(* ===== verification/Store_Write.thy ===== *)
theory Store_Write
  imports Store_Base
begin

text \<open>
  What the sharded write leaves on the drives: the blocks it cuts a body into, the file each slot ends
  up with, and the files no slot touches.
\<close>

section \<open>Blocks\<close>

definition split_blocks :: "nat \<Rightarrow> bytes \<Rightarrow> bytes list" where
  "split_blocks bs p = (if p = [] then [[]] else chunks bs p)"

lemma read_blocks_rest: "0 < bs \<Longrightarrow> read_blocks bs True (Body p False) = (chunks bs p, False)"
proof (induction "length p" arbitrary: p rule: less_induct)
  case less
  show ?case
  proof (cases "p = []")
    case True
    then show ?thesis using less.prems by (subst read_blocks.simps) simp
  next
    case False
    then have IH: "read_blocks bs True (Body (drop bs p) False) = (chunks bs (drop bs p), False)"
      using less by simp
    show ?thesis
      using False less.prems by (subst read_blocks.simps) (auto simp: chunks_step IH Let_def)
  qed
qed

lemma read_blocks_eq: "0 < bs \<Longrightarrow> read_blocks bs False (Body p False) = (split_blocks bs p, False)"
  by (subst read_blocks.simps)
    (auto simp: split_blocks_def chunks_step read_blocks_rest Let_def)

lemma read_blocks_fails: "0 < bs \<Longrightarrow> snd (read_blocks bs w (Body p True))"
proof (induction "length p" arbitrary: p w rule: less_induct)
  case less
  show ?case
  proof (cases "length p < bs")
    case True
    then show ?thesis by (subst read_blocks.simps) simp
  next
    case False
    then have "snd (read_blocks bs True (Body (drop bs p) True))"
      using less by auto
    with False less.prems show ?thesis
      by (subst read_blocks.simps) (auto simp: Let_def split: prod.splits)
  qed
qed

lemma concat_split_blocks [simp]: "0 < bs \<Longrightarrow> concat (split_blocks bs p) = p"
  by (simp add: split_blocks_def concat_chunks)

lemma length_split_blocks: "0 < bs \<Longrightarrow> length (split_blocks bs p) = num_blocks bs (length p)"
  by (simp add: split_blocks_def num_blocks_def length_chunks)

lemma nth_chunks: "0 < n \<Longrightarrow> i < length (chunks n xs) \<Longrightarrow> chunks n xs ! i = take n (drop (i * n) xs)"
proof (induction i arbitrary: xs)
  case 0
  then show ?case by (cases "xs = []") (auto simp: chunks_step)
next
  case (Suc i)
  then show ?case by (cases "xs = []") (auto simp: chunks_step add.commute)
qed

lemma div_ceil_last:
  assumes "0 < n" and "0 < a"
  shows "(div_ceil a n - 1) * n < a" and "a \<le> (div_ceil a n - 1) * n + n"
proof -
  show "a \<le> (div_ceil a n - 1) * n + n"
    using div_ceil_mult_ge [OF assms(1), of a] assms by (cases "div_ceil a n") auto
  show "(div_ceil a n - 1) * n < a"
  proof (rule ccontr)
    assume "\<not> (div_ceil a n - 1) * n < a"
    then have "div_ceil a n \<le> div_ceil a n - 1" by (intro div_ceil_le [OF assms(1)]) simp
    moreover have "0 < div_ceil a n" using assms by (cases "div_ceil a n") (use div_ceil_mult_ge [of n a] in auto)
    ultimately show False by simp
  qed
qed

lemma length_block:
  assumes "0 < bs" and "b < length (split_blocks bs p)"
  shows "length (split_blocks bs p ! b) = block_len bs (length p) b"
proof (cases "p = []")
  case True
  with assms show ?thesis by (simp add: split_blocks_def block_len_def)
next
  case False
  then have n: "num_blocks bs (length p) = div_ceil (length p) bs" by (simp add: num_blocks_def)
  have b: "b < div_ceil (length p) bs"
    using assms False by (simp add: length_split_blocks n)
  have nth: "split_blocks bs p ! b = take bs (drop (b * bs) p)"
    using assms False by (simp add: split_blocks_def nth_chunks)
  note last = div_ceil_last [OF assms(1), of "length p"]
  show ?thesis
  proof (cases "b = div_ceil (length p) bs - 1")
    case True
    have "0 < length p" using False by simp
    with last [OF this] have "min bs (length p - (div_ceil (length p) bs - 1) * bs)
      = length p - (div_ceil (length p) bs - 1) * bs" by linarith
    with False show ?thesis unfolding nth by (simp add: True block_len_def n)
  next
    case F: False
    with b have "b + 1 \<le> div_ceil (length p) bs - 1" by simp
    then have "(b + 1) * bs \<le> (div_ceil (length p) bs - 1) * bs" by (rule mult_le_mono1)
    moreover have "0 < length p" using False by simp
    ultimately have "b * bs + bs \<le> length p" using last(1) by fastforce
    with F False show ?thesis by (simp add: nth block_len_def n)
  qed
qed

section \<open>One slot\<close>

fun slot_appends :: "pathbuf \<Rightarrow> nat \<Rightarrow> slot \<Rightarrow> bytes list \<Rightarrow> slot" where
  "slot_appends tmp b s [] = s"
| "slot_appends tmp b s (x # xs) = slot_appends tmp (Suc b) (slot_append b tmp s x) xs"

text \<open>Where a slot may write: the three files of the object directory and the directory itself.\<close>

definition own_paths :: "path \<Rightarrow> path set" where
  "own_paths q = {r. prefix r q} \<union> {q @ [PART_TMP], q @ [PART], q @ [XL_META]}"

definition slot_inv :: "drive \<Rightarrow> path \<Rightarrow> bytes \<Rightarrow> slot \<Rightarrow> bool" where
  "slot_inv d q acc s \<longleftrightarrow>
     drive_wf (sl_drive s) \<and> same_env d (sl_drive s) \<and> (sl_ok s \<longrightarrow> sl_open s)
     \<and> (sl_open s \<longrightarrow> look (sl_drive s) (q @ [PART_TMP]) = Some (File (Bytes acc)))
     \<and> (\<forall>r. r \<noteq> q @ [PART_TMP] \<longrightarrow> \<not> prefix r q \<longrightarrow> look (sl_drive s) r = look d r)
     \<and> (\<forall>r. prefix r q \<longrightarrow> look (sl_drive s) r = look d r \<or> (look d r = None \<and> look (sl_drive s) r = Some Dir))"

lemma not_prefix_child [simp]: "\<not> prefix (q @ [x]) q"
  by (auto dest: prefix_length_le)

lemma file_names_safe [simp]:
  "PART_TMP \<noteq> ''..''" "PART \<noteq> ''..''" "XL_META \<noteq> ''..''" "HEAL_TMP \<noteq> ''..''"
  by (simp_all add: PART_TMP_def PART_def XL_META_def HEAL_TMP_def)

lemma file_names_distinct [simp]:
  "PART_TMP \<noteq> PART" "PART_TMP \<noteq> XL_META" "PART \<noteq> XL_META" "PART \<noteq> PART_TMP" "XL_META \<noteq> PART_TMP" "XL_META \<noteq> PART"
  by (simp_all add: PART_TMP_def PART_def XL_META_def)

lemma slot_prepare_inv:
  assumes wf: "drive_wf d" and q: "safe q"
  shows "slot_inv d q [] (slot_prepare (PathBuf False q) (PathBuf False (q @ [PART_TMP])) d)"
proof -
  let ?d1 = "fst (drive_create_dir_all d (PathBuf False q))"
  note mk = drive_create_dir_all_eq [OF wf q]
  have t: "safe (q @ [PART_TMP])" "q @ [PART_TMP] \<noteq> []" using q by simp_all
  note cr = drive_create_eq [OF mk(3) t]
  have able: "mkdir_able d q \<Longrightarrow> prefix r q \<Longrightarrow> look d r = Some y \<Longrightarrow> Dir = y" for r y
    by (auto simp: mkdir_able_def)
  show ?thesis
    using mk(1-4) cr(1-4) same_env_trans [OF mk(4) cr(4)]
    by (cases "drive_create_dir_all d (PathBuf False q)"; cases "drive_create ?d1 (PathBuf False (q @ [PART_TMP]))")
      (auto simp: slot_inv_def slot_prepare_def dest: able)
qed

lemma slot_append_inv:
  assumes inv: "slot_inv d q acc s" and q: "safe q"
  shows "slot_inv d q (acc @ x) (slot_append b (PathBuf False (q @ [PART_TMP])) s x)"
proof (cases "sl_open s")
  case True
  let ?e = "sl_drive s"
  from inv have wf: "drive_wf ?e" and env: "same_env d ?e" by (auto simp: slot_inv_def)
  have t: "safe (q @ [PART_TMP])" using q by simp
  note ap = drive_append_eq [OF wf t, of b x]
  from inv True have fb: "file_bytes ?e (q @ [PART_TMP]) = acc" by (simp add: slot_inv_def file_bytes_def)
  show ?thesis
    using inv True ap same_env_trans [OF env ap(4)] fb
    by (cases "drive_append ?e b (PathBuf False (q @ [PART_TMP])) x")
      (auto simp: slot_inv_def slot_append_def)
qed (use inv in \<open>auto simp: slot_inv_def slot_append_def\<close>)

lemma slot_appends_inv:
  "slot_inv d q acc s \<Longrightarrow> safe q \<Longrightarrow>
   slot_inv d q (acc @ concat xs) (slot_appends (PathBuf False (q @ [PART_TMP])) b s xs)"
proof (induction xs arbitrary: acc b s)
  case (Cons x xs)
  from Cons.IH [OF slot_append_inv [OF Cons.prems, of x b] Cons.prems(2), of "Suc b"] show ?case by simp
qed simp

definition slot_run :: "pathbuf \<Rightarrow> bytes list \<Rightarrow> doc \<Rightarrow> drive \<Rightarrow> slot" where
  "slot_run dir xs c d =
     slot_meta (pjoin dir XL_META) c
       (slot_publish (pjoin dir PART_TMP) (pjoin dir PART)
         (slot_finish (pjoin dir PART_TMP)
           (slot_appends (pjoin dir PART_TMP) 0 (slot_prepare dir (pjoin dir PART_TMP) d) xs)))"

text \<open>What a finished slot guarantees.\<close>

definition slot_done :: "drive \<Rightarrow> path \<Rightarrow> bytes \<Rightarrow> doc \<Rightarrow> slot \<Rightarrow> bool" where
  "slot_done d q acc c s \<longleftrightarrow>
     drive_wf (sl_drive s) \<and> same_env d (sl_drive s)
     \<and> (sl_ok s \<longrightarrow> look (sl_drive s) (q @ [PART]) = Some (File (Bytes acc))
                 \<and> look (sl_drive s) (q @ [XL_META]) = Some (File c))
     \<and> (\<not> sl_ok s \<longrightarrow> look (sl_drive s) (q @ [XL_META]) = look d (q @ [XL_META]))
     \<and> (\<forall>r. r \<notin> own_paths q \<longrightarrow> look (sl_drive s) r = look d r)
     \<and> (\<forall>r. prefix r q \<longrightarrow> look (sl_drive s) r = look d r \<or> (look d r = None \<and> look (sl_drive s) r = Some Dir))"

lemma slot_publish_facts:
  assumes inv: "slot_inv d q acc s" and q: "safe q"
  defines "s' \<equiv> slot_publish (PathBuf False (q @ [PART_TMP])) (PathBuf False (q @ [PART]))
                  (slot_finish (PathBuf False (q @ [PART_TMP])) s)"
  shows "drive_wf (sl_drive s') \<and> same_env d (sl_drive s')
    \<and> (sl_ok s' \<longrightarrow> look (sl_drive s') (q @ [PART]) = Some (File (Bytes acc)))
    \<and> (\<forall>r. r \<notin> {q @ [PART_TMP], q @ [PART]} \<longrightarrow> \<not> prefix r q \<longrightarrow> look (sl_drive s') r = look d r)
    \<and> (\<forall>r. prefix r q \<longrightarrow> look (sl_drive s') r = look d r \<or> (look d r = None \<and> look (sl_drive s') r = Some Dir))"
proof (cases "sl_ok (slot_finish (PathBuf False (q @ [PART_TMP])) s)")
  case True
  let ?e = "sl_drive s"
  from True inv have op: "sl_open s" by (auto simp: slot_finish_def slot_inv_def split: if_splits)
  from inv op have wf: "drive_wf ?e" and env: "same_env d ?e"
    and tmp: "look ?e (q @ [PART_TMP]) = Some (File (Bytes acc))" by (auto simp: slot_inv_def)
  have ps: "safe (q @ [PART_TMP])" "safe (q @ [PART])" "q @ [PART_TMP] \<noteq> q @ [PART]" "q @ [PART] \<noteq> []"
    using q by simp_all
  have src: "look ?e (q @ [PART_TMP]) \<noteq> Some Dir" using tmp by simp
  note rn = drive_rename_eq [OF wf ps src]
  have s': "s' = s\<lparr>sl_ok := snd (drive_rename ?e (PathBuf False (q @ [PART_TMP])) (PathBuf False (q @ [PART]))),
      sl_open := False,
      sl_drive := fst (drive_rename ?e (PathBuf False (q @ [PART_TMP])) (PathBuf False (q @ [PART])))\<rparr>"
    using True op by (simp add: s'_def slot_publish_def slot_finish_def split: prod.splits)
  show ?thesis
    unfolding s' using inv rn tmp same_env_trans [OF env rn(4)] by (auto simp: slot_inv_def)
next
  case False
  then have "s' = slot_finish (PathBuf False (q @ [PART_TMP])) s" by (simp add: s'_def slot_publish_def)
  with False inv show ?thesis by (auto simp: slot_inv_def slot_finish_def)
qed

lemma slot_run_done:
  assumes wf: "drive_wf d" and q: "safe q"
  shows "slot_done d q (concat xs) c (slot_run (PathBuf False q) xs c d)"
proof -
  have paths: "pjoin (PathBuf False q) PART_TMP = PathBuf False (q @ [PART_TMP])"
    "pjoin (PathBuf False q) PART = PathBuf False (q @ [PART])"
    "pjoin (PathBuf False q) XL_META = PathBuf False (q @ [XL_META])"
    by (simp_all add: pjoin_plain)
  let ?t = "PathBuf False (q @ [PART_TMP])"
  define s1 where "s1 = slot_appends ?t 0 (slot_prepare (PathBuf False q) ?t d) xs"
  define s2 where "s2 = slot_publish ?t (PathBuf False (q @ [PART])) (slot_finish ?t s1)"
  have "slot_inv d q (concat xs) s1"
    using slot_appends_inv [OF slot_prepare_inv [OF wf q] q, of xs 0] by (simp add: s1_def)
  from slot_publish_facts [OF this q, folded s2_def]
  have p: "drive_wf (sl_drive s2)" "same_env d (sl_drive s2)"
    "sl_ok s2 \<longrightarrow> look (sl_drive s2) (q @ [PART]) = Some (File (Bytes (concat xs)))"
    "\<forall>r. r \<notin> {q @ [PART_TMP], q @ [PART]} \<longrightarrow> \<not> prefix r q \<longrightarrow> look (sl_drive s2) r = look d r"
    "\<forall>r. prefix r q \<longrightarrow> look (sl_drive s2) r = look d r \<or> (look d r = None \<and> look (sl_drive s2) r = Some Dir)" by auto
  have m: "safe (q @ [XL_META])" "q @ [XL_META] \<noteq> []" using q by simp_all
  note wr = drive_write_eq [OF p(1) m, of c]
  have run: "slot_run (PathBuf False q) xs c d = slot_meta (PathBuf False (q @ [XL_META])) c s2"
    by (simp add: slot_run_def paths s1_def s2_def)
  show ?thesis
  proof (cases "sl_ok s2")
    case True
    then have "slot_meta (PathBuf False (q @ [XL_META])) c s2 =
      s2\<lparr>sl_drive := fst (drive_write (sl_drive s2) (PathBuf False (q @ [XL_META])) c),
         sl_ok := snd (drive_write (sl_drive s2) (PathBuf False (q @ [XL_META])) c)\<rparr>"
      by (simp add: slot_meta_def split: prod.splits)
    then show ?thesis
      unfolding run using True p wr same_env_trans [OF p(2) wr(4)]
      by (auto simp: slot_done_def own_paths_def)
  next
    case False
    then have "slot_meta (PathBuf False (q @ [XL_META])) c s2 = s2" by (simp add: slot_meta_def)
    then show ?thesis unfolding run using False p by (auto simp: slot_done_def own_paths_def)
  qed
qed

text \<open>A drive that fails nothing and has nothing in the way takes its shard.\<close>

definition healthy :: "drive \<Rightarrow> bool" where
  "healthy d = (\<forall>op p. \<not> drv_fault d op p)"

definition clear_for :: "drive \<Rightarrow> path \<Rightarrow> bool" where
  "clear_for d q =
     ((\<forall>r. prefix r q \<longrightarrow> look d r = None \<or> look d r = Some Dir)
      \<and> look d (q @ [PART_TMP]) \<noteq> Some Dir \<and> look d (q @ [PART]) \<noteq> Some Dir \<and> look d (q @ [XL_META]) \<noteq> Some Dir)"


text \<open>On such a drive every phase succeeds.\<close>

lemma healthy_env: "same_env d e \<Longrightarrow> healthy d \<Longrightarrow> healthy e"
  by (simp add: healthy_def same_env_def)

lemma slot_appends_healthy:
  assumes "slot_inv d q acc s" "safe q" "healthy d" "sl_ok s"
  shows "sl_ok (slot_appends (PathBuf False (q @ [PART_TMP])) b s xs)"
  using assms
proof (induction xs arbitrary: acc b s)
  case (Cons x xs)
  let ?t = "PathBuf False (q @ [PART_TMP])"
  from Cons.prems have op: "sl_open s" and wf: "drive_wf (sl_drive s)" and h: "healthy (sl_drive s)"
    and lk: "look (sl_drive s) (q @ [PART_TMP]) = Some (File (Bytes acc))"
    by (auto simp: slot_inv_def intro: healthy_env)
  have "appendable (sl_drive s) b (q @ [PART_TMP])"
    using h lk by (simp add: appendable_def healthy_def)
  then have "sl_ok (slot_append b ?t s x)"
    using op Cons.prems drive_append_eq(2) [OF wf, of "q @ [PART_TMP]" b x]
    by (simp add: slot_append_def case_prod_beta)
  with Cons.IH [OF slot_append_inv [OF Cons.prems(1,2)]] Cons.prems show ?case by simp
qed simp

lemma slot_run_healthy:
  assumes wf: "drive_wf d" and q: "safe q" "q \<noteq> []" and h: "healthy d" and cl: "clear_for d q"
  shows "sl_ok (slot_run (PathBuf False q) xs c d)"
proof -
  have paths: "pjoin (PathBuf False q) PART_TMP = PathBuf False (q @ [PART_TMP])"
    "pjoin (PathBuf False q) PART = PathBuf False (q @ [PART])"
    "pjoin (PathBuf False q) XL_META = PathBuf False (q @ [XL_META])"
    by (simp_all add: pjoin_plain)
  let ?t = "PathBuf False (q @ [PART_TMP])"
  let ?d1 = "fst (drive_create_dir_all d (PathBuf False q))"
  define s0 where "s0 = slot_prepare (PathBuf False q) ?t d"
  define s1 where "s1 = slot_appends ?t 0 s0 xs"
  note mk = drive_create_dir_all_eq [OF wf q(1)]
  have able: "mkdir_able d q" using h cl by (simp add: mkdir_able_def healthy_def clear_for_def)
  have "writable ?d1 OpCreate (q @ [PART_TMP])"
    using able mk healthy_env [OF mk(4) h] cl by (auto simp: writable_def healthy_def clear_for_def)
  then have ok0: "sl_ok s0"
    using able mk(2) drive_create_eq(2) [OF mk(3), of "q @ [PART_TMP]"] q
    by (simp add: s0_def slot_prepare_def case_prod_beta)
  have inv0: "slot_inv d q [] s0" unfolding s0_def by (rule slot_prepare_inv [OF wf q(1)])
  have inv1: "slot_inv d q (concat xs) s1"
    using slot_appends_inv [OF inv0 q(1), of xs 0] by (simp add: s1_def)
  have ok1: "sl_ok s1" unfolding s1_def by (rule slot_appends_healthy [OF inv0 q(1) h ok0])
  from inv1 ok1 have op: "sl_open s1" and wf1: "drive_wf (sl_drive s1)" and env1: "same_env d (sl_drive s1)"
    and tmp: "look (sl_drive s1) (q @ [PART_TMP]) = Some (File (Bytes (concat xs)))"
    and frame: "\<forall>r. r \<noteq> q @ [PART_TMP] \<longrightarrow> \<not> prefix r q \<longrightarrow> look (sl_drive s1) r = look d r"
    by (auto simp: slot_inv_def)
  note h1 = healthy_env [OF env1 h]
  have dir: "look (sl_drive s1) q = Some Dir" using look_parent [OF wf1 tmp] by simp
  have "renamable (sl_drive s1) (q @ [PART_TMP]) (q @ [PART])"
    using h1 tmp dir frame cl by (simp add: renamable_def healthy_def clear_for_def)
  moreover have ps: "safe (q @ [PART_TMP])" "safe (q @ [PART])" "q @ [PART_TMP] \<noteq> q @ [PART]" "q @ [PART] \<noteq> []"
    using q by simp_all
  have src: "look (sl_drive s1) (q @ [PART_TMP]) \<noteq> Some Dir" using tmp by simp
  note rn = drive_rename_eq [OF wf1 ps src]
  ultimately have ren: "snd (drive_rename (sl_drive s1) ?t (PathBuf False (q @ [PART])))" by simp
  let ?e = "fst (drive_rename (sl_drive s1) ?t (PathBuf False (q @ [PART])))"
  have "look ?e q = Some Dir" "look ?e (q @ [XL_META]) = look d (q @ [XL_META])"
    using rn(1) dir frame by auto
  then have "writable ?e OpWrite (q @ [XL_META])"
    using healthy_env [OF rn(4) h1] cl by (simp add: writable_def healthy_def clear_for_def)
  then have "snd (drive_write ?e (PathBuf False (q @ [XL_META])) c)"
    using drive_write_eq(2) [OF rn(3), of "q @ [XL_META]" c] q by simp
  then show ?thesis
    using op ok1 ren h1
    by (simp add: slot_run_def paths s0_def [symmetric] s1_def [symmetric] slot_publish_def slot_finish_def
        slot_meta_def drive_shutdown_def healthy_def case_prod_beta)
qed

section \<open>All slots\<close>

text \<open>The shards of a block, and the shard file of slot \<open>i\<close> for a list of blocks.\<close>

definition enc_shards :: "store_env \<Rightarrow> codec \<Rightarrow> bytes \<Rightarrow> bytes list" where
  "enc_shards E c blk = (case encode_block (ev_rs E) c blk of Ok ss \<Rightarrow> ss | Err _ \<Rightarrow> [])"

definition slot_shards :: "store_env \<Rightarrow> codec \<Rightarrow> bytes list \<Rightarrow> nat \<Rightarrow> bytes list" where
  "slot_shards E c blocks i = map (\<lambda>blk. enc_shards E c blk ! i) blocks"

definition all_sums :: "store_env \<Rightarrow> codec \<Rightarrow> bytes list \<Rightarrow> string list list" where
  "all_sums E c blocks =
     map (\<lambda>i. map (checksum (ev_blake3 E)) (slot_shards E c blocks i)) [0 ..< codec_total c]"

lemma enc_shards_ok:
  assumes "codec_ok (ev_rs E) c"
  shows "encode_block (ev_rs E) c blk = Ok (enc_shards E c blk)"
    and "length (enc_shards E c blk) = codec_total c"
    and "i < codec_total c \<Longrightarrow> length (enc_shards E c blk ! i) = shard_len c (length blk)"
  using rs.enc_shards [OF assms, of blk] rs.length_shards [OF assms, of blk] rs.length_shard [OF assms, of i blk]
  by (simp_all add: enc_shards_def)

lemma write_blocks_eq:
  assumes "codec_ok (ev_rs E) c" "length slots = codec_total c" "length sums = codec_total c"
  shows "write_blocks E c tmp b blocks slots sums =
    (map (\<lambda>i. slot_appends tmp b (slots ! i) (slot_shards E c blocks i)) [0 ..< codec_total c],
     Ok (map (\<lambda>i. sums ! i @ map (checksum (ev_blake3 E)) (slot_shards E c blocks i)) [0 ..< codec_total c]))"
  using assms(2,3)
proof (induction blocks arbitrary: b slots sums)
  case Nil
  then show ?case by (auto simp: slot_shards_def intro: nth_equalityI)
next
  case (Cons blk blocks)
  note enc = enc_shards_ok(1,2) [OF assms(1), of blk]
  let ?s = "map2 (slot_append b tmp) slots (enc_shards E c blk)"
  let ?c = "map2 (\<lambda>cs s. cs @ [checksum (ev_blake3 E) s]) sums (enc_shards E c blk)"
  have len: "length ?s = codec_total c" "length ?c = codec_total c" using Cons.prems enc by simp_all
  show ?case
    using Cons.IH [OF len, of "Suc b"] Cons.prems enc by (simp add: slot_shards_def)
qed


definition store_ok :: "store_env \<Rightarrow> store \<Rightarrow> bool" where
  "store_ok E st \<longleftrightarrow> codec_ok (ev_rs E) (st_codec st) \<and> length (st_drives st) = codec_total (st_codec st)
     \<and> 0 < st_block_size st \<and> (\<forall>d \<in> set (st_drives st). drive_wf d)"

definition final_slots ::
  "store_env \<Rightarrow> call_ctx \<Rightarrow> store \<Rightarrow> pathbuf \<Rightarrow> bytes \<Rightarrow> string \<Rightarrow> string_map \<Rightarrow> bool \<Rightarrow> string option \<Rightarrow> slot list" where
  "final_slots E C st dir p ct um encrypted ov =
     (let blocks = split_blocks (st_block_size st) p;
          meta = new_xl_meta E C st blocks (all_sums E (st_codec st) blocks) ct um encrypted ov
      in map (\<lambda>i. slot_run dir (slot_shards E (st_codec st) blocks i) (XlDoc meta) (st_drives st ! i))
           [0 ..< codec_total (st_codec st)])"

definition new_meta ::
  "store_env \<Rightarrow> call_ctx \<Rightarrow> store \<Rightarrow> bytes \<Rightarrow> string \<Rightarrow> string_map \<Rightarrow> bool \<Rightarrow> string option \<Rightarrow> xl_meta" where
  "new_meta E C st p ct um encrypted ov =
     (let blocks = split_blocks (st_block_size st) p
      in new_xl_meta E C st blocks (all_sums E (st_codec st) blocks) ct um encrypted ov)"

text \<open>The sharded write of a body that does not fail, slot by slot.\<close>

lemma write_sharded_eq:
  assumes ok: "store_ok E st"
  shows "write_sharded E C st bucket key (Body p False) ct um encrypted ov =
    (let dir = r_object bucket key;
         slots = final_slots E C st dir p ct um encrypted ov;
         n = codec_total (st_codec st);
         quorum = cd_data (st_codec st) + 1
     in if count_ok slots < quorum
        then (st\<lparr>st_drives := map (\<lambda>s. fst (drive_remove_dir_all (sl_drive s) dir)) slots\<rparr>,
              Err (quorum_error (count_ok slots) n quorum))
        else (st\<lparr>st_drives := map sl_drive slots\<rparr>,
              Ok (meta_to_object key (new_meta E C st p ct um encrypted ov))))"
proof -
  let ?c = "st_codec st" and ?n = "codec_total (st_codec st)" and ?dir = "r_object bucket key"
  let ?blocks = "split_blocks (st_block_size st) p"
  let ?tmp = "pjoin ?dir PART_TMP"
  let ?prep = "map (slot_prepare ?dir ?tmp) (st_drives st)"
  from ok have cok: "codec_ok (ev_rs E) ?c" and len: "length (st_drives st) = ?n" and bs: "0 < st_block_size st"
    by (auto simp: store_ok_def)
  have wb: "write_blocks E ?c ?tmp 0 ?blocks ?prep (replicate ?n []) =
    (map (\<lambda>i. slot_appends ?tmp 0 (?prep ! i) (slot_shards E ?c ?blocks i)) [0 ..< ?n],
     Ok (all_sums E ?c ?blocks))"
    using write_blocks_eq [OF cok, of ?prep "replicate ?n []" ?tmp 0 ?blocks] len
    by (simp add: all_sums_def)
  have run: "map (slot_meta (pjoin ?dir XL_META) c)
     (map (slot_publish ?tmp (pjoin ?dir PART)) (map (slot_finish ?tmp)
       (map (\<lambda>i. slot_appends ?tmp 0 (?prep ! i) (slot_shards E ?c ?blocks i)) [0 ..< ?n]))) =
     map (\<lambda>i. slot_run ?dir (slot_shards E ?c ?blocks i) c (st_drives st ! i)) [0 ..< ?n]" for c
    using len by (simp add: slot_run_def)
  show ?thesis
    unfolding write_sharded_def Let_def len read_blocks_eq [OF bs] prod.case wb sum.case run if_False
      final_slots_def new_meta_def ..
qed

lemma final_slots_nth:
  assumes "store_ok E st" "i < codec_total (st_codec st)" "safe q"
  shows "slot_done (st_drives st ! i) q
    (concat (slot_shards E (st_codec st) (split_blocks (st_block_size st) p) i))
    (XlDoc (new_meta E C st p ct um encrypted ov))
    (final_slots E C st (PathBuf False q) p ct um encrypted ov ! i)"
proof -
  have "drive_wf (st_drives st ! i)" using assms(1,2) by (auto simp: store_ok_def)
  from slot_run_done [OF this assms(3)] assms(2) show ?thesis
    by (simp add: final_slots_def new_meta_def Let_def)
qed

lemma length_final_slots [simp]:
  "length (final_slots E C st dir p ct um encrypted ov) = codec_total (st_codec st)"
  by (simp add: final_slots_def Let_def)

lemma final_slots_healthy:
  assumes "store_ok E st" "i < codec_total (st_codec st)" "safe q" "q \<noteq> []"
    and "healthy (st_drives st ! i)" "clear_for (st_drives st ! i) q"
  shows "sl_ok (final_slots E C st (PathBuf False q) p ct um encrypted ov ! i)"
proof -
  have "drive_wf (st_drives st ! i)" using assms(1,2) by (auto simp: store_ok_def)
  from slot_run_healthy [OF this assms(3-6)] assms(2) show ?thesis
    by (simp add: final_slots_def Let_def)
qed

end
