(* ===== verification/Store_Read.thy ===== *)
theory Store_Read
  imports Store_Write Store_Objects
begin

text \<open>
  The reconstructing read: when enough drives still serve the shards that were written and the
  checksums reveal every damaged one, the reader yields exactly the stored bytes.
\<close>

section \<open>Good shards\<close>

definition shard_offset :: "codec \<Rightarrow> bytes list \<Rightarrow> nat \<Rightarrow> nat" where
  "shard_offset c blocks b = sum_list (map (\<lambda>blk. shard_len c (length blk)) (take b blocks))"

definition shard_at :: "store_env \<Rightarrow> codec \<Rightarrow> bytes list \<Rightarrow> nat \<Rightarrow> nat \<Rightarrow> bytes" where
  "shard_at E c blocks b i = enc_shards E c (blocks ! b) ! i"

definition read_block_shard :: "codec \<Rightarrow> bytes list \<Rightarrow> pathbuf \<Rightarrow> drive \<Rightarrow> nat \<Rightarrow> bytes option" where
  "read_block_shard c blocks part d b =
     drive_read_at d part (shard_offset c blocks b) (shard_len c (length (blocks ! b)))"

text \<open>Drive \<open>i\<close> serves every shard that was written to it.\<close>

definition serves :: "store_env \<Rightarrow> codec \<Rightarrow> bytes list \<Rightarrow> pathbuf \<Rightarrow> drive \<Rightarrow> nat \<Rightarrow> bool" where
  "serves E c blocks part d i \<longleftrightarrow>
     (\<forall>b < length blocks. read_block_shard c blocks part d b = Some (shard_at E c blocks b i))"

text \<open>Damaged bytes have another checksum than the shard they replace.\<close>

definition bitrot_detected :: "store_env \<Rightarrow> codec \<Rightarrow> bytes list \<Rightarrow> pathbuf \<Rightarrow> drive \<Rightarrow> nat \<Rightarrow> bool" where
  "bitrot_detected E c blocks part d i \<longleftrightarrow>
     (\<forall>b < length blocks. \<forall>buf. read_block_shard c blocks part d b = Some buf \<longrightarrow>
        checksum (ev_blake3 E) buf = checksum (ev_blake3 E) (shard_at E c blocks b i) \<longrightarrow>
        buf = shard_at E c blocks b i)"

lemma serves_detects: "serves E c blocks part d i \<Longrightarrow> bitrot_detected E c blocks part d i"
  by (simp add: serves_def bitrot_detected_def)

lemma recorded_all_sums:
  "i < codec_total c \<Longrightarrow> b < length blocks \<Longrightarrow>
   recorded_sum (all_sums E c blocks) i b = Some (checksum (ev_blake3 E) (shard_at E c blocks b i))"
  by (simp add: recorded_sum_def all_sums_def slot_shards_def shard_at_def)

lemma read_shard_cases:
  assumes "i < codec_total c" "b < length blocks" "bitrot_detected E c blocks part d i"
  shows "read_shard E (all_sums E c blocks) part b (shard_offset c blocks b)
      (shard_len c (length (blocks ! b))) (i, d) \<in> {None, Some (shard_at E c blocks b i)}"
    and "serves E c blocks part d i \<Longrightarrow> read_shard E (all_sums E c blocks) part b (shard_offset c blocks b)
      (shard_len c (length (blocks ! b))) (i, d) = Some (shard_at E c blocks b i)"
  using assms recorded_all_sums [OF assms(1,2), of E]
  by (auto simp: read_shard_def bitrot_detected_def serves_def read_block_shard_def split: option.splits)

definition serving :: "store_env \<Rightarrow> codec \<Rightarrow> bytes list \<Rightarrow> pathbuf \<Rightarrow> drive list \<Rightarrow> nat" where
  "serving E c blocks part ds = card {i. i < length ds \<and> serves E c blocks part (ds ! i) i}"

lemma present_card: "present xs = card {i. i < length xs \<and> xs ! i \<noteq> None}"
  by (simp add: present_def length_filter_conv_card)

lemma block_slots:
  assumes ok: "codec_ok (ev_rs E) c" and len: "length ds = codec_total c" and b: "b < length blocks"
    and det: "\<forall>i < length ds. bitrot_detected E c blocks part (ds ! i) i"
  defines "xs \<equiv> map (read_shard E (all_sums E c blocks) part b (shard_offset c blocks b)
                  (shard_len c (length (blocks ! b)))) (enumerate 0 ds)"
  shows "agrees xs (enc_shards E c (blocks ! b))"
    and "serving E c blocks part ds \<le> present xs"
proof -
  have lx: "length xs = codec_total c" using len by (simp add: xs_def)
  have nth: "xs ! i = read_shard E (all_sums E c blocks) part b (shard_offset c blocks b)
      (shard_len c (length (blocks ! b))) (i, ds ! i)" if "i < codec_total c" for i
    using that len by (simp add: xs_def nth_enumerate_eq)
  show "agrees xs (enc_shards E c (blocks ! b))"
    unfolding agrees_nth using lx nth read_shard_cases(1) [OF _ b] det len enc_shards_ok(2) [OF ok, of "blocks ! b"]
    by (auto simp: shard_at_def)
  have "{i. i < length ds \<and> serves E c blocks part (ds ! i) i} \<subseteq> {i. i < length xs \<and> xs ! i \<noteq> None}"
    using nth len lx read_shard_cases(2) [OF _ b] det by auto
  then show "serving E c blocks part ds \<le> present xs"
    unfolding serving_def present_card by (intro card_mono) auto
qed

section \<open>Reconstruction\<close>

lemma shard_offset_Suc:
  "b < length blocks \<Longrightarrow>
   shard_offset c blocks (Suc b) = shard_offset c blocks b + shard_len c (length (blocks ! b))"
  by (simp add: shard_offset_def take_Suc_conv_app_nth)

lemma reconstruct_blocks_ok:
  assumes ok: "codec_ok (ev_rs E) c" and len: "length ds = codec_total c" and bs: "0 < bs"
    and blocks: "blocks = split_blocks bs p"
    and det: "\<forall>i < length ds. bitrot_detected E c blocks part (ds ! i) i"
    and enough: "cd_data c \<le> serving E c blocks part ds"
  shows "b \<le> length blocks \<Longrightarrow>
    reconstruct_blocks E ds part c bs (length p) (all_sums E c blocks) [b ..< length blocks]
      (shard_offset c blocks b) = concat (drop b blocks)"
proof (induction "length blocks - b" arbitrary: b)
  case 0
  then show ?case by simp
next
  case (Suc k)
  then have b: "b < length blocks" by simp
  have upt: "[b ..< length blocks] = b # [Suc b ..< length blocks]" using b by (rule upt_conv_Cons)
  have blen: "block_len bs (length p) b = length (blocks ! b)"
    using length_block [OF bs] b by (simp add: blocks)
  note sl = block_slots [OF ok len b det]
  have rec: "reconstruct_block (ev_rs E) c
      (map (read_shard E (all_sums E c blocks) part b (shard_offset c blocks b)
         (shard_len c (length (blocks ! b)))) (enumerate 0 ds)) (length (blocks ! b)) = Ok (blocks ! b)"
    using rs.dec_enc [OF ok enc_shards_ok(1) [OF ok] sl(1)] enough sl(2) by simp
  from Suc have IH: "reconstruct_blocks E ds part c bs (length p) (all_sums E c blocks) [Suc b ..< length blocks]
      (shard_offset c blocks (Suc b)) = concat (drop (Suc b) blocks)" by simp
  show ?case
    using IH by (simp add: upt blen rec Let_def shard_offset_Suc [OF b] Cons_nth_drop_Suc [OF b, symmetric])
qed

lemma reconstruct_into_ok:
  assumes "codec_ok (ev_rs E) c" "length ds = codec_total c" "0 < bs"
    and "\<forall>i < length ds. bitrot_detected E c (split_blocks bs p) (pjoin dir PART) (ds ! i) i"
    and "cd_data c \<le> serving E c (split_blocks bs p) (pjoin dir PART) ds"
  shows "reconstruct_into E ds dir c bs (length p) (all_sums E c (split_blocks bs p)) = p"
  using reconstruct_blocks_ok [OF assms(1-3) refl assms(4,5), of 0] assms(3)
  by (simp add: reconstruct_into_def length_split_blocks shard_offset_def)

section \<open>A written file serves its shards\<close>

lemma drop_concat_take:
  "b < length xs \<Longrightarrow> take (length (xs ! b)) (drop (sum_list (map length (take b xs))) (concat xs)) = xs ! b"
proof (induction xs arbitrary: b)
  case (Cons x xs)
  then show ?case by (cases b) auto
qed simp

lemma concat_bound:
  "b < length xs \<Longrightarrow> sum_list (map length (take b xs)) + length (xs ! b) \<le> length (concat xs)"
proof (induction xs arbitrary: b)
  case (Cons x xs)
  then show ?case by (cases b) auto
qed simp

definition reads_parts :: "drive \<Rightarrow> path \<Rightarrow> bool" where
  "reads_parts d q = (\<forall>off. \<not> drv_fault d (OpReadAt off) (PathBuf False q))"

lemma file_serves:
  assumes ok: "codec_ok (ev_rs E) c" and i: "i < codec_total c"
    and wf: "drive_wf d" "safe q" "reads_parts d q"
    and lk: "look d q = Some (File (Bytes (concat (slot_shards E c blocks i))))"
  shows "serves E c blocks (PathBuf False q) d i"
  unfolding serves_def
proof (intro allI impI)
  fix b assume b: "b < length blocks"
  let ?xs = "slot_shards E c blocks i"
  have lens: "length (enc_shards E c blk ! i) = shard_len c (length blk)" for blk
    by (rule enc_shards_ok(3) [OF ok i])
  have off: "shard_offset c blocks b = sum_list (map length (take b ?xs))"
    by (simp add: shard_offset_def slot_shards_def take_map comp_def lens)
  have nth: "?xs ! b = shard_at E c blocks b i" "length (?xs ! b) = shard_len c (length (blocks ! b))"
    using b lens by (simp_all add: slot_shards_def shard_at_def)
  have lb: "b < length ?xs" using b by (simp add: slot_shards_def)
  have "take (shard_len c (length (blocks ! b))) (drop (shard_offset c blocks b) (concat ?xs)) = shard_at E c blocks b i"
    using drop_concat_take [OF lb] nth by (simp only: off)
  moreover have "shard_offset c blocks b + shard_len c (length (blocks ! b)) \<le> length (concat ?xs)"
    using concat_bound [OF lb] nth(2) by (simp only: off)
  ultimately show "read_block_shard c blocks (PathBuf False q) d b = Some (shard_at E c blocks b i)"
    using wf lk by (simp add: read_block_shard_def drive_read_at_eq reads_parts_def)
qed

section \<open>Finding the metadata\<close>

lemma first_some_unique:
  "\<forall>x \<in> set xs. f x = None \<or> f x = Some y \<Longrightarrow> \<exists>x \<in> set xs. f x \<noteq> None \<Longrightarrow> first_some f xs = Some y"
  by (induction xs) (auto split: option.splits)

lemma first_some_None: "first_some f xs = None \<longleftrightarrow> (\<forall>x \<in> set xs. f x = None)"
  by (induction xs) (auto split: option.splits)

lemma first_some_Some: "first_some f xs = Some y \<Longrightarrow> \<exists>x \<in> set xs. f x = Some y"
  by (induction xs) (auto split: option.splits)

lemma decode_xl_eq:
  "drive_wf d \<Longrightarrow> safe q \<Longrightarrow> decode_xl d (PathBuf False q) =
    (if drv_fault d OpRead (PathBuf False q) then None
     else (case look d q of Some (File c) \<Rightarrow> as_xl c | _ \<Rightarrow> None))"
  by (auto simp: decode_xl_def drive_read_eq split: option.splits node.splits)

lemma read_xl_unique:
  assumes "\<forall>d \<in> set ds. decode_xl d (pjoin (r_obj_v b k vid) XL_META) \<in> {None, Some m}"
    and "\<exists>d \<in> set ds. decode_xl d (pjoin (r_obj_v b k vid) XL_META) \<noteq> None"
  shows "read_xl_v ds b k vid = Ok m"
proof -
  have "first_some (\<lambda>d. decode_xl d (pjoin (r_obj_v b k vid) XL_META)) ds = Some m"
    using assms by (intro first_some_unique) auto
  then show ?thesis by (simp add: read_xl_v_def)
qed

end
