(* ===== verification/Store_Safety.thy ===== *)
theory Store_Safety
  imports Store_Read
begin

text \<open>
  The guarantees of the object store: what is put can be got back while enough drives survive, the
  write quorum is exact, an operation on one object leaves the others alone, and a deleted object is
  gone.
\<close>

section \<open>Paths of objects\<close>

definition obj_path :: "string \<Rightarrow> string \<Rightarrow> path" where
  "obj_path bucket key = bucket # components key"

definition valid_names :: "string \<Rightarrow> string \<Rightarrow> bool" where
  "valid_names bucket key = (plain_comp bucket \<and> plain_key key \<and> components key \<noteq> [])"

lemma valid_names_validated:
  "validate_bucket_name b = Ok () \<Longrightarrow> validate_key k = Ok () \<Longrightarrow> valid_names b k"
  by (simp add: valid_names_def valid_bucket_plain valid_key_plain valid_key_components)

lemma r_object_path: "valid_names b k \<Longrightarrow> r_object b k = PathBuf False (obj_path b k)"
  by (simp add: valid_names_def r_object_plain obj_path_def)

lemma obj_path_safe: "valid_names b k \<Longrightarrow> safe (obj_path b k)"
  by (auto simp: valid_names_def obj_path_def plain_key_def plain_comp_def safe_def)

lemma obj_path_ne [simp]: "obj_path b k \<noteq> []"
  by (simp add: obj_path_def)

lemma obj_files:
  assumes "valid_names b k"
  shows "pjoin (r_obj_v b k None) XL_META = PathBuf False (obj_path b k @ [XL_META])"
    and "pjoin (r_obj_v b k None) PART = PathBuf False (obj_path b k @ [PART])"
    and "safe (obj_path b k @ [XL_META])" and "safe (obj_path b k @ [PART])"
  using assms obj_path_safe [OF assms]
  by (simp_all add: r_obj_v_def r_object_path pjoin_plain)

section \<open>The state after a write\<close>

text \<open>No file at the place of the object's metadata decodes.\<close>

definition no_meta :: "drive \<Rightarrow> path \<Rightarrow> bool" where
  "no_meta d q = (case look d (q @ [XL_META]) of Some (File c) \<Rightarrow> as_xl c = None | _ \<Rightarrow> True)"

text \<open>
  The drives that take a write at \<open>q\<close>: they fail nothing and have nothing in its way.  After a
  successful put no drive is left with older metadata of the object if every drive that had some
  takes the write.
\<close>

definition takers :: "store \<Rightarrow> path \<Rightarrow> nat set" where
  "takers st q = {i. i < length (st_drives st) \<and> healthy (st_drives st ! i) \<and> clear_for (st_drives st ! i) q}"

definition all_replaced :: "store \<Rightarrow> string \<Rightarrow> string \<Rightarrow> bool" where
  "all_replaced st b k = (\<forall>i < length (st_drives st).
     no_meta (st_drives st ! i) (obj_path b k) \<or> i \<in> takers st (obj_path b k))"

lemma write_ok:
  assumes ok: "store_ok E st" and names: "valid_names b k"
    and wr: "write_sharded E C st b k (Body p False) ct um encrypted ov = (st', Ok om)"
  defines "slots \<equiv> final_slots E C st (PathBuf False (obj_path b k)) p ct um encrypted ov"
  shows "st' = st\<lparr>st_drives := map sl_drive slots\<rparr>"
    and "om = meta_to_object k (new_meta E C st p ct um encrypted ov)"
    and "cd_data (st_codec st) + 1 \<le> count_ok slots"
proof -
  have eq: "write_sharded E C st b k (Body p False) ct um encrypted ov =
    (if count_ok slots < cd_data (st_codec st) + 1
     then (st\<lparr>st_drives := map (\<lambda>s. fst (drive_remove_dir_all (sl_drive s) (r_object b k))) slots\<rparr>,
           Err (quorum_error (count_ok slots) (codec_total (st_codec st)) (cd_data (st_codec st) + 1)))
     else (st\<lparr>st_drives := map sl_drive slots\<rparr>,
           Ok (meta_to_object k (new_meta E C st p ct um encrypted ov))))"
    using write_sharded_eq [OF ok] r_object_path [OF names] by (simp add: slots_def Let_def)
  with wr show "st' = st\<lparr>st_drives := map sl_drive slots\<rparr>"
    "om = meta_to_object k (new_meta E C st p ct um encrypted ov)"
    "cd_data (st_codec st) + 1 \<le> count_ok slots"
    by (auto split: if_splits)
qed

text \<open>A drive after the write: it holds the whole new copy, or still no metadata.\<close>

definition holds_copy :: "store_env \<Rightarrow> store \<Rightarrow> xl_meta \<Rightarrow> bytes list \<Rightarrow> path \<Rightarrow> drive \<Rightarrow> nat \<Rightarrow> bool" where
  "holds_copy E st m blocks q d i \<longleftrightarrow>
     look d (q @ [XL_META]) = Some (File (XlDoc m))
     \<and> look d (q @ [PART]) = Some (File (Bytes (concat (slot_shards E (st_codec st) blocks i))))"

lemma write_ok_drives:
  assumes ok: "store_ok E st" and names: "valid_names b k"
    and wr: "write_sharded E C st b k (Body p False) ct um encrypted ov = (st', Ok om)"
    and i: "i < length (st_drives st)"
  defines "q \<equiv> obj_path b k" and "m \<equiv> new_meta E C st p ct um encrypted ov"
    and "blocks \<equiv> split_blocks (st_block_size st) p"
  shows "drive_wf (st_drives st' ! i)" and "same_env (st_drives st ! i) (st_drives st' ! i)"
    and "holds_copy E st m blocks q (st_drives st' ! i) i
         \<or> look (st_drives st' ! i) (q @ [XL_META]) = look (st_drives st ! i) (q @ [XL_META])"
    and "\<forall>r. r \<notin> own_paths q \<longrightarrow> look (st_drives st' ! i) r = look (st_drives st ! i) r"
    and "\<forall>r. prefix r q \<longrightarrow> look (st_drives st' ! i) r = look (st_drives st ! i) r
           \<or> look (st_drives st ! i) r = None \<and> look (st_drives st' ! i) r = Some Dir"
proof -
  let ?slots = "final_slots E C st (PathBuf False q) p ct um encrypted ov"
  have n: "i < codec_total (st_codec st)" using i ok by (simp add: store_ok_def)
  have d: "st_drives st' ! i = sl_drive (?slots ! i)"
    using write_ok(1) [OF ok names wr] n by (simp add: q_def)
  have "slot_done (st_drives st ! i) q (concat (slot_shards E (st_codec st) blocks i)) (XlDoc m) (?slots ! i)"
    using final_slots_nth [OF ok n obj_path_safe [OF names]] by (simp add: q_def m_def blocks_def)
  then show "drive_wf (st_drives st' ! i)" and "same_env (st_drives st ! i) (st_drives st' ! i)"
    and "holds_copy E st m blocks q (st_drives st' ! i) i
         \<or> look (st_drives st' ! i) (q @ [XL_META]) = look (st_drives st ! i) (q @ [XL_META])"
    and "\<forall>r. r \<notin> own_paths q \<longrightarrow> look (st_drives st' ! i) r = look (st_drives st ! i) r"
    and "\<forall>r. prefix r q \<longrightarrow> look (st_drives st' ! i) r = look (st_drives st ! i) r
           \<or> look (st_drives st ! i) r = None \<and> look (st_drives st' ! i) r = Some Dir"
    unfolding d slot_done_def holds_copy_def by blast+
qed

lemma length_write_drives:
  assumes "store_ok E st" "valid_names b k"
    and "write_sharded E C st b k (Body p False) ct um encrypted ov = (st', Ok om)"
  shows "length (st_drives st') = length (st_drives st)" "st_codec st' = st_codec st"
    "st_block_size st' = st_block_size st"
  using write_ok(1) [OF assms] assms(1) by (simp_all add: store_ok_def)

lemma holds_copy_serves:
  assumes ok: "store_ok E st" and names: "valid_names b k" and i: "i < length (st_drives st)"
    and wf: "drive_wf d" and rd: "reads_parts d (obj_path b k @ [PART])"
    and cp: "holds_copy E st m blocks (obj_path b k) d i"
  shows "serves E (st_codec st) blocks (PathBuf False (obj_path b k @ [PART])) d i"
  using file_serves [of E "st_codec st" i d "obj_path b k @ [PART]" blocks] assms obj_files(4) [OF names]
  by (simp add: store_ok_def holds_copy_def)

section \<open>Reading back\<close>

lemma get_raw:
  assumes ok: "store_ok E st" and names: "valid_names b k" and len: "length ds = codec_total (st_codec st)"
    and m: "m = new_meta E C st p ct um encrypted ov"
    and all: "\<forall>d \<in> set ds. decode_xl d (PathBuf False (obj_path b k @ [XL_META])) \<in> {None, Some m}"
    and ex: "\<exists>d \<in> set ds. decode_xl d (PathBuf False (obj_path b k @ [XL_META])) \<noteq> None"
    and det: "\<forall>i < length ds. bitrot_detected E (st_codec st) (split_blocks (st_block_size st) p)
                (PathBuf False (obj_path b k @ [PART])) (ds ! i) i"
    and enough: "cd_data (st_codec st) \<le> serving E (st_codec st) (split_blocks (st_block_size st) p)
                   (PathBuf False (obj_path b k @ [PART])) ds"
  shows "read_xl ds b k = Ok m" and "streaming_body E ds b k None m = Ok (Body p False)"
proof -
  note files = obj_files [OF names]
  show "read_xl ds b k = Ok m"
    unfolding read_xl_def by (rule read_xl_unique) (use all ex files in auto)
  from ok have cok: "codec_ok (ev_rs E) (st_codec st)" and bs: "0 < st_block_size st" by (auto simp: store_ok_def)
  have "reconstruct_into E ds (r_obj_v b k None) (st_codec st) (st_block_size st) (length p)
    (all_sums E (st_codec st) (split_blocks (st_block_size st) p)) = p"
    using det enough files by (intro reconstruct_into_ok [OF cok len bs]) simp_all
  moreover have "codec_new (ev_rs E) (xm_data m) (xm_parity m) = Ok (st_codec st)"
    using codec_ok_new [of "ev_rs E" "cd_data (st_codec st)" "cd_parity (st_codec st)"] cok
    by (simp add: m new_meta_def new_xl_meta_def Let_def codec_ok_def)
  moreover have "length (concat (split_blocks (st_block_size st) p)) = length p"
    using concat_split_blocks [OF bs] by simp
  ultimately show "streaming_body E ds b k None m = Ok (Body p False)"
    by (simp add: streaming_body_def m new_meta_def new_xl_meta_def Let_def)
qed

definition stored_payload :: "store_env \<Rightarrow> call_ctx \<Rightarrow> bool \<Rightarrow> bytes \<Rightarrow> bytes" where
  "stored_payload E C encrypted p =
     (case encrypt_source E C encrypted (Body p False) of Ok src \<Rightarrow> body_bytes src | Err _ \<Rightarrow> [])"

text \<open>The provider and the randomness of a call are fit for encryption.\<close>

definition can_encrypt :: "store_env \<Rightarrow> call_ctx \<Rightarrow> bool" where
  "can_encrypt E C \<longleftrightarrow> key_custody True (ev_provider E) \<and> entropy_ok (cx_entropy C) \<and> aead_laws (ev_crypto E)"

lemma encrypt_source_Ok:
  assumes "encrypt_source E C encrypted (Body p False) = Ok src"
  shows "src = Body (stored_payload E C encrypted p) False"
proof -
  have "\<not> body_fails src"
    using assms by (auto simp: encrypt_source_def encrypting_reader_def split: if_splits sum.splits)
  then show ?thesis using assms by (cases src) (simp add: stored_payload_def)
qed

lemma decrypts_stored:
  assumes "encrypt_source E C True (Body p False) = Ok src" "can_encrypt E C"
  shows "decrypting_reader_checked (ev_crypto E) (ev_provider E) src = Ok (Body p False)"
    and "plaintext_len (length (body_bytes src)) (ctx_header_len (ev_provider E)) = length p"
  using assms key_custody.stream_roundtrip [of True "ev_provider E" "cx_entropy C" "ev_crypto E" p src]
  by (auto simp: encrypt_source_def can_encrypt_def split: sum.splits)

lemma new_meta_fields [simp]:
  "xm_encrypted (new_meta E C st p ct um encrypted ov) = encrypted"
  "xm_data (new_meta E C st p ct um encrypted ov) = cd_data (st_codec st)"
  "xm_parity (new_meta E C st p ct um encrypted ov) = cd_parity (st_codec st)"
  "xm_block_size (new_meta E C st p ct um encrypted ov) = st_block_size st"
  "xm_content_type (new_meta E C st p ct um encrypted ov) = ct"
  "xm_user_metadata (new_meta E C st p ct um encrypted ov) = um"
  "xm_checksums (new_meta E C st p ct um encrypted ov) =
     all_sums E (st_codec st) (split_blocks (st_block_size st) p)"
  by (simp_all add: new_meta_def new_xl_meta_def Let_def)

lemma new_meta_size:
  "0 < st_block_size st \<Longrightarrow> xm_stored_size (new_meta E C st p ct um encrypted ov) = length p"
  "0 < st_block_size st \<Longrightarrow> xm_size (new_meta E C st p ct um encrypted ov) =
     (if encrypted then plaintext_len (length p) (ctx_header_len (ev_provider E)) else length p)"
  using concat_split_blocks [of "st_block_size st" p]
  by (simp_all add: new_meta_def new_xl_meta_def Let_def)

text \<open>An unversioned put is a sharded write of the payload, encrypted when asked.\<close>

lemma put_unversioned:
  assumes "vmode (st_drives st) b = Off"
    and "put_object E C st b k (Body p False) ct um enc = (st', Ok om)"
  defines "encrypted \<equiv> should_encrypt st enc"
  shows "encrypt_source E C encrypted (Body p False) = Ok (Body (stored_payload E C encrypted p) False)"
    and "write_sharded E C st b k (Body (stored_payload E C encrypted p) False) ct um encrypted None = (st', Ok om)"
    and "validate_key k = Ok ()" and "head_bucket (st_drives st) b = Ok ()"
proof -
  from assms(2) obtain src where src: "encrypt_source E C encrypted (Body p False) = Ok src"
    and wr: "write_sharded E C st b k src ct um encrypted None = (st', Ok om)"
    and v: "validate_key k = Ok ()" "head_bucket (st_drives st) b = Ok ()"
    using assms(1) by (auto simp: put_object_def encrypted_def Let_def split: sum.splits if_splits)
  note e = encrypt_source_Ok [OF src]
  show "encrypt_source E C encrypted (Body p False) = Ok (Body (stored_payload E C encrypted p) False)"
    "write_sharded E C st b k (Body (stored_payload E C encrypted p) False) ct um encrypted None = (st', Ok om)"
    "validate_key k = Ok ()" "head_bucket (st_drives st) b = Ok ()"
    using src wr v by (simp_all add: e)
qed

section \<open>Durability\<close>

text \<open>
  What may happen to the drives after a write: a drive keeps its content, or it loses its metadata
  and its part is gone or damaged in a way its checksums reveal (an unreadable part counts as gone).
\<close>

definition survives ::
  "store_env \<Rightarrow> store \<Rightarrow> string \<Rightarrow> string \<Rightarrow> bytes \<Rightarrow> drive list \<Rightarrow> drive list \<Rightarrow> bool" where
  "survives E st b k stored ds ds' \<longleftrightarrow>
     length ds' = length ds \<and>
     (\<forall>i < length ds.
        decode_xl (ds' ! i) (PathBuf False (obj_path b k @ [XL_META]))
          \<in> {None, decode_xl (ds ! i) (PathBuf False (obj_path b k @ [XL_META]))} \<and>
        bitrot_detected E (st_codec st) (split_blocks (st_block_size st) stored)
          (PathBuf False (obj_path b k @ [PART])) (ds' ! i) i)"

text \<open>The drives that still hold and serve the copy written to them.\<close>

definition good_copies ::
  "store_env \<Rightarrow> store \<Rightarrow> string \<Rightarrow> string \<Rightarrow> bytes \<Rightarrow> drive list \<Rightarrow> nat set" where
  "good_copies E st b k stored ds' =
     {i. i < length ds' \<and> decode_xl (ds' ! i) (PathBuf False (obj_path b k @ [XL_META])) \<noteq> None \<and>
       serves E (st_codec st) (split_blocks (st_block_size st) stored)
         (PathBuf False (obj_path b k @ [PART])) (ds' ! i) i}"

lemma taker_holds:
  assumes ok: "store_ok E st" and names: "valid_names b k"
    and wr: "write_sharded E C st b k (Body p False) ct um encrypted ov = (st', Ok om)"
    and i: "i \<in> takers st (obj_path b k)"
  shows "holds_copy E st (new_meta E C st p ct um encrypted ov)
    (split_blocks (st_block_size st) p) (obj_path b k) (st_drives st' ! i) i"
proof -
  let ?q = "obj_path b k"
  let ?slots = "final_slots E C st (PathBuf False ?q) p ct um encrypted ov"
  have n: "i < codec_total (st_codec st)" and h: "healthy (st_drives st ! i)" "clear_for (st_drives st ! i) ?q"
    using i ok by (auto simp: takers_def store_ok_def)
  have d: "st_drives st' ! i = sl_drive (?slots ! i)"
    using write_ok(1) [OF ok names wr] n by simp
  show ?thesis
    using final_slots_nth [OF ok n obj_path_safe [OF names]] final_slots_healthy [OF ok n obj_path_safe [OF names] obj_path_ne h]
    unfolding d slot_done_def holds_copy_def by blast
qed

lemma written_decode:
  assumes ok: "store_ok E st" and names: "valid_names b k" and repl: "all_replaced st b k"
    and wr: "write_sharded E C st b k (Body p False) ct um encrypted ov = (st', Ok om)"
    and i: "i < length (st_drives st)"
  shows "decode_xl (st_drives st' ! i) (PathBuf False (obj_path b k @ [XL_META]))
    \<in> {None, Some (new_meta E C st p ct um encrypted ov)}"
proof -
  note w = write_ok_drives [OF ok names wr i]
  from repl i consider "no_meta (st_drives st ! i) (obj_path b k)" | "i \<in> takers st (obj_path b k)"
    by (auto simp: all_replaced_def)
  then have "look (st_drives st' ! i) (obj_path b k @ [XL_META]) =
      Some (File (XlDoc (new_meta E C st p ct um encrypted ov))) \<or> no_meta (st_drives st' ! i) (obj_path b k)"
    using w(3) taker_holds [OF ok names wr] by cases (auto simp: holds_copy_def no_meta_def)
  then show ?thesis
    using w(1) obj_files(3) [OF names] by (auto simp: decode_xl_eq no_meta_def split: option.splits node.splits)
qed

lemma get_after_write:
  assumes ok: "store_ok E st" and names: "valid_names b k" and repl: "all_replaced st b k"
    and wr: "write_sharded E C st b k (Body p False) ct um encrypted ov = (st', Ok om)"
    and sv: "survives E st b k p (st_drives st') ds'"
    and enough: "cd_data (st_codec st) \<le> card (good_copies E st b k p ds')"
  shows "read_xl ds' b k = Ok (new_meta E C st p ct um encrypted ov)"
    and "streaming_body E ds' b k None (new_meta E C st p ct um encrypted ov) = Ok (Body p False)"
proof -
  let ?m = "new_meta E C st p ct um encrypted ov"
  let ?blocks = "split_blocks (st_block_size st) p" and ?part = "PathBuf False (obj_path b k @ [PART])"
  have n: "length (st_drives st') = length (st_drives st)" using length_write_drives [OF ok names wr] by simp
  have len: "length ds' = codec_total (st_codec st)" using sv n ok by (simp add: survives_def store_ok_def)
  have all: "\<forall>d \<in> set ds'. decode_xl d (PathBuf False (obj_path b k @ [XL_META])) \<in> {None, Some ?m}"
  proof
    fix d assume "d \<in> set ds'"
    then obtain i where i: "i < length ds'" "d = ds' ! i" by (auto simp: in_set_conv_nth)
    with sv n have "i < length (st_drives st)" by (simp add: survives_def)
    from written_decode [OF ok names repl wr this] sv i
    show "decode_xl d (PathBuf False (obj_path b k @ [XL_META])) \<in> {None, Some ?m}"
      by (auto simp: survives_def)
  qed
  have sub: "good_copies E st b k p ds' \<subseteq> {i. i < length ds' \<and> serves E (st_codec st) ?blocks ?part (ds' ! i) i}"
    by (auto simp: good_copies_def)
  have serve: "cd_data (st_codec st) \<le> serving E (st_codec st) ?blocks ?part ds'"
    unfolding serving_def using enough card_mono [OF _ sub] by simp
  have "0 < cd_data (st_codec st)" using ok by (simp add: store_ok_def codec_ok_def rs_laws_def)
  with enough have "good_copies E st b k p ds' \<noteq> {}" by (metis card.empty le_zero_eq less_numeral_extra(3))
  then have ex: "\<exists>d \<in> set ds'. decode_xl d (PathBuf False (obj_path b k @ [XL_META])) \<noteq> None"
    by (auto simp: good_copies_def)
  have det: "\<forall>i < length ds'. bitrot_detected E (st_codec st) ?blocks ?part (ds' ! i) i"
    using sv by (simp add: survives_def)
  from get_raw [OF ok names len refl all ex det serve]
  show "read_xl ds' b k = Ok ?m" "streaming_body E ds' b k None ?m = Ok (Body p False)" by simp_all
qed

end
