(* ===== verification/Store_Frame.thy ===== *)
theory Store_Frame
  imports Store_Safety
begin

text \<open>
  What an operation on one object leaves alone: a read of another object sees only the files at two
  paths of each drive, and neither a write, whatever its outcome, nor a removal changes those.
\<close>

section \<open>Removing empty directories\<close>

definition removable_empty :: "drive \<Rightarrow> path \<Rightarrow> bool" where
  "removable_empty d q = (\<not> drv_fault d OpRemoveDir (PathBuf False q) \<and> look d q = Some Dir
     \<and> \<not> has_children (drv_fs d) (drv_root d @ q))"

lemma drive_remove_dir_eq:
  assumes wf: "drive_wf d" and q: "safe q" "q \<noteq> []"
  shows "look (fst (drive_remove_dir d (PathBuf False q))) =
           (if removable_empty d q then (look d)(q := None) else look d)"
    and "drive_wf (fst (drive_remove_dir d (PathBuf False q)))"
    and "same_env d (fst (drive_remove_dir d (PathBuf False q)))"
proof -
  have eq: "drive_remove_dir d (PathBuf False q) =
      (if removable_empty d q
       then (d\<lparr>drv_fs := remove_tree (drv_root d @ q) (drv_fs d)\<rparr>, True) else (d, False))"
    using q by (auto simp: drive_remove_dir_def reach_safe [OF wf] removable_empty_def
        split: option.splits node.splits)
  have "removable_empty d q \<Longrightarrow> prefix q r \<Longrightarrow> r \<noteq> q \<Longrightarrow> look d r = None" for r
  proof -
    assume "removable_empty d q" "prefix q r" "r \<noteq> q"
    then have "strict_prefix (drv_root d @ q) (drv_root d @ r)" by (auto simp: strict_prefix_def)
    with \<open>removable_empty d q\<close> show "look d r = None"
      unfolding removable_empty_def has_children_iff look_def by blast
  qed
  then have "removable_empty d q \<Longrightarrow>
      (\<lambda>r. if prefix q r then None else look d r) = (look d)(q := None)"
    by (auto simp: fun_eq_iff)
  then show "look (fst (drive_remove_dir d (PathBuf False q))) =
           (if removable_empty d q then (look d)(q := None) else look d)"
    and "drive_wf (fst (drive_remove_dir d (PathBuf False q)))"
    and "same_env d (fst (drive_remove_dir d (PathBuf False q)))"
    unfolding eq using look_remove_tree [OF wf q(2)] wf by (auto simp: same_env_def)
qed

text \<open>Two drives with the same files at a path.\<close>

definition same_file :: "drive \<Rightarrow> drive \<Rightarrow> path \<Rightarrow> bool" where
  "same_file d d' r \<longleftrightarrow> (\<forall>c. look d r = Some (File c) \<longleftrightarrow> look d' r = Some (File c))"

lemma same_file_trans: "same_file a b r \<Longrightarrow> same_file b c r \<Longrightarrow> same_file a c r"
  by (simp add: same_file_def)

lemma prune_empty_facts:
  assumes "drive_wf d" "safe (pb_comps rel)" "\<not> pb_abs rel" "pb_comps stop \<noteq> []"
  shows "drive_wf (prune_empty d rel stop) \<and> same_env d (prune_empty d rel stop)
    \<and> (\<forall>r. same_file d (prune_empty d rel stop) r)
    \<and> (\<forall>r. look d r = None \<longrightarrow> look (prune_empty d rel stop) r = None)"
  using assms
proof (induction d rel stop rule: prune_empty.induct)
  case (1 d rel stop)
  obtain q where rel: "rel = PathBuf False q" using 1(4) by (cases rel) auto
  show ?case
  proof (cases "rel \<noteq> stop \<and> pstarts_with rel stop")
    case True
    then have "q \<noteq> []" using 1(5) rel by (auto simp: pstarts_with_def)
    moreover have "safe q" using 1(3) rel by simp
    ultimately have rd: "look (fst (drive_remove_dir d rel)) =
           (if removable_empty d q then (look d)(q := None) else look d)"
      "drive_wf (fst (drive_remove_dir d rel))" "same_env d (fst (drive_remove_dir d rel))"
      using drive_remove_dir_eq [OF 1(2), of q] rel by simp_all
    have keep: "\<forall>r. same_file d (fst (drive_remove_dir d rel)) r"
      "\<forall>r. look d r = None \<longrightarrow> look (fst (drive_remove_dir d rel)) r = None"
      using rd(1) by (auto simp: same_file_def removable_empty_def)
    show ?thesis
    proof (cases "snd (drive_remove_dir d rel)")
      case False
      then have "prune_empty d rel stop = fst (drive_remove_dir d rel)"
        using True by (subst prune_empty.simps) (auto split: prod.splits bool.splits)
      then show ?thesis using rd keep by simp
    next
      case rm: True
      have par: "pparent rel = Some (PathBuf False (butlast q))" using \<open>q \<noteq> []\<close> rel by (simp add: pparent_def)
      let ?d = "fst (drive_remove_dir d rel)"
      have pr: "prune_empty d rel stop = prune_empty ?d (PathBuf False (butlast q)) stop"
        using True rm par by (subst prune_empty.simps) (auto split: prod.splits bool.splits)
      have "safe (butlast q)" using \<open>safe q\<close> by (auto simp: safe_def dest: in_set_butlastD)
      then have "drive_wf (prune_empty ?d (PathBuf False (butlast q)) stop) \<and>
          same_env ?d (prune_empty ?d (PathBuf False (butlast q)) stop) \<and>
          (\<forall>r. same_file ?d (prune_empty ?d (PathBuf False (butlast q)) stop) r) \<and>
          (\<forall>r. look ?d r = None \<longrightarrow> look (prune_empty ?d (PathBuf False (butlast q)) stop) r = None)"
        using 1(1) [OF True, of ?d True "PathBuf False (butlast q)"] rm par rd(2) 1(5)
        by (simp add: prod_eq_iff)
      then show ?thesis
        unfolding pr using keep rd(3) same_file_trans same_env_trans by blast
    qed
  next
    case False
    then have "prune_empty d rel stop = d" by (subst prune_empty.simps) auto
    with 1 show ?thesis by (simp add: same_file_def)
  qed
qed

section \<open>Reads depend on two files per drive\<close>

definition alike :: "drive \<Rightarrow> drive \<Rightarrow> path \<Rightarrow> bool" where
  "alike d d' q \<longleftrightarrow> drive_wf d \<and> drive_wf d' \<and> same_env d d'
     \<and> same_file d d' (q @ [XL_META]) \<and> same_file d d' (q @ [PART])"

lemma same_file_read:
  assumes "drive_wf d" "drive_wf d'" "same_env d d'" "same_file d d' r" "safe r"
  shows "drive_read d (PathBuf False r) = drive_read d' (PathBuf False r)"
    and "drive_read_at d (PathBuf False r) off len = drive_read_at d' (PathBuf False r) off len"
proof -
  have *: "(case look d r of Some (File c) \<Rightarrow> Some c | _ \<Rightarrow> None) = (case look d' r of Some (File c) \<Rightarrow> Some c | _ \<Rightarrow> None)"
    using assms(4) by (auto simp: same_file_def split: option.splits node.splits)
  then show "drive_read d (PathBuf False r) = drive_read d' (PathBuf False r)"
    using assms by (simp add: drive_read_eq same_env_def)
  have "(case look d r of Some (File (Bytes b)) \<Rightarrow> if off + len \<le> length b then Some (take len (drop off b)) else None | _ \<Rightarrow> None)
    = (case (case look d r of Some (File c) \<Rightarrow> Some c | _ \<Rightarrow> None) of
         Some (Bytes b) \<Rightarrow> if off + len \<le> length b then Some (take len (drop off b)) else None | _ \<Rightarrow> None)" for d
    by (auto split: option.splits node.splits doc.splits)
  with * show "drive_read_at d (PathBuf False r) off len = drive_read_at d' (PathBuf False r) off len"
    using assms(1-3,5) by (simp add: drive_read_at_eq same_env_def)
qed

lemma first_some_map: "first_some f xs = first_some id (map f xs)"
  by (induction xs) (auto split: option.splits)

lemma reconstruct_blocks_cong:
  assumes "length ds = length ds'"
    and "\<forall>i < length ds. \<forall>off len. drive_read_at (ds ! i) part off len = drive_read_at (ds' ! i) part off len"
  shows "reconstruct_blocks E ds part c bs stored sums bl off = reconstruct_blocks E ds' part c bs stored sums bl off"
proof (induction bl arbitrary: off)
  case (Cons b bl)
  have "map (read_shard E sums part b off n) (enumerate 0 ds) = map (read_shard E sums part b off n) (enumerate 0 ds')" for n
    using assms by (intro nth_equalityI) (auto simp: nth_enumerate_eq read_shard_def)
  then show ?case by (simp only: reconstruct_blocks.simps Cons.IH)
qed simp

lemma get_object_alike:
  assumes names: "valid_names b k" and len: "length ds = length ds'"
    and al: "\<forall>i < length ds. alike (ds ! i) (ds' ! i) (obj_path b k)"
  shows "read_xl ds b k = read_xl ds' b k" and "get_object E ds b k = get_object E ds' b k"
proof -
  note files = obj_files [OF names]
  have "map (\<lambda>d. decode_xl d (PathBuf False (obj_path b k @ [XL_META]))) ds =
    map (\<lambda>d. decode_xl d (PathBuf False (obj_path b k @ [XL_META]))) ds'"
    using len al files(3) same_file_read(1)
    by (intro nth_equalityI) (auto simp: decode_xl_def alike_def)
  then show rx: "read_xl ds b k = read_xl ds' b k"
    unfolding read_xl_def read_xl_v_def files(1) Let_def
    by (subst (1 2) first_some_map) simp
  have rd: "drive_read_at (ds ! i) (PathBuf False (obj_path b k @ [PART])) off n =
    drive_read_at (ds' ! i) (PathBuf False (obj_path b k @ [PART])) off n" if "i < length ds" for i off n
    using al that files(4) same_file_read(2) by (auto simp: alike_def)
  have "streaming_body E ds b k None m = streaming_body E ds' b k None m" for m
    unfolding streaming_body_def reconstruct_into_def files(2)
    using reconstruct_blocks_cong [OF len] rd by (auto split: sum.splits)
  then have "object_body E ds b k None m = object_body E ds' b k None m" for m
    by (simp only: object_body_def)
  then show "get_object E ds b k = get_object E ds' b k"
    by (simp only: get_object_def rx)
qed

section \<open>Writes and removals\<close>

lemma write_alike:
  assumes ok: "store_ok E st" and names: "valid_names b k"
    and wr: "write_sharded E C st b k (Body p False) ct um encrypted ov = (st', Ok om)"
    and other: "q2 \<noteq> obj_path b k" and i: "i < length (st_drives st)"
  shows "alike (st_drives st ! i) (st_drives st' ! i) q2"
proof -
  note w = write_ok_drives [OF ok names wr i]
  have "same_file (st_drives st ! i) (st_drives st' ! i) (q2 @ [x])" if "x \<in> {XL_META, PART}" for x
  proof (cases "prefix (q2 @ [x]) (obj_path b k)")
    case True
    with w(5) show ?thesis by (auto simp: same_file_def)
  next
    case False
    then have "q2 @ [x] \<notin> own_paths (obj_path b k)" using other that by (auto simp: own_paths_def)
    with w(4) show ?thesis by (simp add: same_file_def)
  qed
  moreover have "drive_wf (st_drives st ! i)" using ok i by (simp add: store_ok_def)
  ultimately show ?thesis using w(1,2) by (simp add: alike_def)
qed

text \<open>A body that fails is written into the temporary files only.\<close>

lemma write_failing_body:
  assumes ok: "store_ok E st" and names: "valid_names b k"
    and wr: "write_sharded E C st b k (Body p True) ct um encrypted ov = (st', r)"
  shows "r = Err (Internal ''read body'')" and "length (st_drives st') = length (st_drives st)"
    and "i < length (st_drives st) \<Longrightarrow> alike (st_drives st ! i) (st_drives st' ! i) q2"
proof -
  let ?c = "st_codec st" and ?q = "obj_path b k"
  let ?tmp = "PathBuf False (?q @ [PART_TMP])"
  let ?prep = "map (slot_prepare (PathBuf False ?q) ?tmp) (st_drives st)"
  have dirs: "r_object b k = PathBuf False ?q" "pjoin (PathBuf False ?q) PART_TMP = ?tmp"
    using r_object_path [OF names] by (simp_all add: pjoin_plain)
  have safe: "safe ?q" by (rule obj_path_safe [OF names])
  obtain blocks where rb: "read_blocks (st_block_size st) False (Body p True) = (blocks, True)"
    using read_blocks_fails [of "st_block_size st" False p] ok by (metis prod.collapse store_ok_def)
  let ?slots = "map (\<lambda>i. slot_appends ?tmp 0 (?prep ! i) (slot_shards E ?c blocks i)) [0 ..< codec_total ?c]"
  have n: "length (st_drives st) = codec_total ?c" and cok: "codec_ok (ev_rs E) ?c"
    using ok by (simp_all add: store_ok_def)
  obtain sums where wb: "write_blocks E ?c ?tmp 0 blocks ?prep (replicate (length (st_drives st)) []) = (?slots, Ok sums)"
    using write_blocks_eq [OF cok, of ?prep "replicate (codec_total ?c) []" ?tmp 0 blocks] n by simp
  have eq: "st' = st\<lparr>st_drives := map sl_drive ?slots\<rparr>" "r = Err (Internal ''read body'')"
    using wr unfolding write_sharded_def Let_def dirs rb prod.case wb sum.case if_True by simp_all
  then show "r = Err (Internal ''read body'')" "length (st_drives st') = length (st_drives st)"
    by (simp_all add: n)
  show "alike (st_drives st ! i) (st_drives st' ! i) q2" if i: "i < length (st_drives st)"
  proof -
    have wf: "drive_wf (st_drives st ! i)" using ok i by (simp add: store_ok_def)
    have "slot_inv (st_drives st ! i) ?q ([] @ concat (slot_shards E ?c blocks i))
      (slot_appends ?tmp 0 (slot_prepare (PathBuf False ?q) ?tmp (st_drives st ! i)) (slot_shards E ?c blocks i))"
      by (rule slot_appends_inv [OF slot_prepare_inv [OF wf safe] safe])
    moreover have "st_drives st' ! i =
        sl_drive (slot_appends ?tmp 0 (slot_prepare (PathBuf False ?q) ?tmp (st_drives st ! i)) (slot_shards E ?c blocks i))"
      using eq i n by simp
    ultimately have inv: "drive_wf (st_drives st' ! i)" "same_env (st_drives st ! i) (st_drives st' ! i)"
      "\<forall>r. r \<noteq> ?q @ [PART_TMP] \<longrightarrow> \<not> prefix r ?q \<longrightarrow> look (st_drives st' ! i) r = look (st_drives st ! i) r"
      "\<forall>r. prefix r ?q \<longrightarrow> look (st_drives st' ! i) r = look (st_drives st ! i) r
         \<or> look (st_drives st ! i) r = None \<and> look (st_drives st' ! i) r = Some Dir"
      by (auto simp: slot_inv_def)
    have "same_file (st_drives st ! i) (st_drives st' ! i) (q2 @ [x])" if "x \<in> {XL_META, PART}" for x
    proof (cases "prefix (q2 @ [x]) ?q")
      case True
      with inv(4) show ?thesis by (auto simp: same_file_def)
    next
      case False
      with inv(3) that show ?thesis by (auto simp: same_file_def)
    qed
    with inv(1,2) wf show ?thesis by (simp add: alike_def)
  qed
qed

text \<open>Whatever the outcome of a write, it changes no read outside the object's directory.\<close>

lemma write_any_alike:
  assumes ok: "store_ok E st" and names: "valid_names b k"
    and wr: "write_sharded E C st b k src ct um encrypted ov = (st', r)"
    and other: "q2 \<noteq> obj_path b k" and apart: "is_ok r \<or> \<not> prefix (obj_path b k) q2"
  shows "length (st_drives st') = length (st_drives st)"
    and "i < length (st_drives st) \<Longrightarrow> alike (st_drives st ! i) (st_drives st' ! i) q2"
proof -
  let ?q = "obj_path b k"
  obtain p f where src: "src = Body p f" by (cases src)
  let ?slots = "final_slots E C st (PathBuf False ?q) p ct um encrypted ov"
  have n: "length (st_drives st) = codec_total (st_codec st)" using ok by (simp add: store_ok_def)
  consider (failing) f | (written) om where "\<not> f" "r = Ok om"
    | (undone) "\<not> f" "\<not> is_ok r" "st' = st\<lparr>st_drives := map (\<lambda>s. fst (drive_remove_dir_all (sl_drive s) (PathBuf False ?q))) ?slots\<rparr>"
    using write_sharded_eq [OF ok, of C b k p ct um encrypted ov] wr
    by (cases f) (auto simp: src Let_def r_object_path [OF names] split: if_splits)
  then have "length (st_drives st') = length (st_drives st) \<and>
    (i < length (st_drives st) \<longrightarrow> alike (st_drives st ! i) (st_drives st' ! i) q2)" for i
  proof cases
    case failing
    with wr src have "write_sharded E C st b k (Body p True) ct um encrypted ov = (st', r)" by simp
    from write_failing_body [OF ok names this] show ?thesis by blast
  next
    case written
    with wr src have "write_sharded E C st b k (Body p False) ct um encrypted ov = (st', Ok om)" by simp
    from write_alike [OF ok names this other] length_write_drives [OF ok names this] show ?thesis by blast
  next
    case undone
    then have apart: "\<not> prefix ?q q2" using apart by simp
    have "alike (st_drives st ! i) (st_drives st' ! i) q2" if i: "i < length (st_drives st)"
    proof -
      let ?d = "st_drives st ! i" and ?s = "?slots ! i"
      have "i < codec_total (st_codec st)" using i n by simp
      from final_slots_nth [OF ok this obj_path_safe [OF names], where C = C and p = p and ct = ct and um = um
          and encrypted = encrypted and ov = ov]
      have s: "drive_wf (sl_drive ?s)" "same_env ?d (sl_drive ?s)"
        "\<forall>r. r \<notin> own_paths ?q \<longrightarrow> look (sl_drive ?s) r = look ?d r"
        "\<forall>r. prefix r ?q \<longrightarrow> look (sl_drive ?s) r = look ?d r \<or> look ?d r = None \<and> look (sl_drive ?s) r = Some Dir"
        by (auto simp: slot_done_def)
      note rm = drive_remove_dir_all_eq [OF s(1) obj_path_safe [OF names] obj_path_ne]
      have d': "st_drives st' ! i = fst (drive_remove_dir_all (sl_drive ?s) (PathBuf False ?q))"
        using undone(3) i n by simp
      have "same_file ?d (st_drives st' ! i) (q2 @ [x])" if "x \<in> {XL_META, PART}" for x
      proof -
        have "same_file ?d (sl_drive ?s) (q2 @ [x])"
        proof (cases "prefix (q2 @ [x]) ?q")
          case True
          with s(4) show ?thesis by (auto simp: same_file_def)
        next
          case False
          then have "q2 @ [x] \<notin> own_paths ?q" using other that by (auto simp: own_paths_def)
          with s(3) show ?thesis by (simp add: same_file_def)
        qed
        moreover have "same_file (sl_drive ?s) (st_drives st' ! i) (q2 @ [x])"
        proof (cases "prefix ?q (q2 @ [x])")
          case True
          then have q: "?q = q2 @ [x]" using apart by (simp add: prefix_snoc)
          show ?thesis using rm(1) by (auto simp: d' same_file_def removable_dir_def q)
        next
          case False
          then show ?thesis using rm(1) by (auto simp: d' same_file_def)
        qed
        ultimately show ?thesis by (rule same_file_trans)
      qed
      moreover have "drive_wf ?d" using ok i by (simp add: store_ok_def)
      ultimately show ?thesis
        using rm(3,4) s(2) same_env_trans [OF s(2) rm(4)] by (simp add: alike_def d')
    qed
    with undone(3) n show ?thesis by simp
  qed
  then show "length (st_drives st') = length (st_drives st)"
    and "i < length (st_drives st) \<Longrightarrow> alike (st_drives st ! i) (st_drives st' ! i) q2" by blast+
qed

lemma remove_object_dir_facts:
  assumes wf: "drive_wf d" and names: "valid_names b k"
  shows "drive_wf (remove_object_dir b (r_object b k) d)" and "same_env d (remove_object_dir b (r_object b k) d)"
    and "\<not> strict_prefix (obj_path b k) r \<Longrightarrow> same_file d (remove_object_dir b (r_object b k) d) r"
    and "\<not> drv_fault d OpRemoveDirAll (r_object b k) \<Longrightarrow> prefix (obj_path b k) r \<Longrightarrow>
      look d (obj_path b k) \<noteq> None \<Longrightarrow> (\<forall>c. look d (obj_path b k) \<noteq> Some (File c)) \<Longrightarrow>
      look (remove_object_dir b (r_object b k) d) r = None"
proof -
  let ?q = "obj_path b k"
  have r: "r_object b k = PathBuf False ?q" by (rule r_object_path [OF names])
  have s: "safe ?q" "?q \<noteq> []" using obj_path_safe [OF names] by simp_all
  note rm = drive_remove_dir_all_eq [OF wf s]
  let ?d1 = "fst (drive_remove_dir_all d (PathBuf False ?q))"
  have par: "pparent (PathBuf False ?q) = Some (PathBuf False (butlast ?q))" by (simp add: pparent_def)
  have eq: "remove_object_dir b (r_object b k) d = prune_empty ?d1 (PathBuf False (butlast ?q)) (r_bucket b)"
    by (simp add: remove_object_dir_def r par)
  have bl: "safe (butlast ?q)" using s(1) by (auto simp: safe_def dest: in_set_butlastD)
  have stop: "pb_comps (r_bucket b) \<noteq> []" using names by (simp add: valid_names_def r_bucket_plain)
  note pr = prune_empty_facts [of ?d1 "PathBuf False (butlast ?q)" "r_bucket b", simplified, OF rm(3) bl stop]
  show "drive_wf (remove_object_dir b (r_object b k) d)" using pr eq by simp
  show "same_env d (remove_object_dir b (r_object b k) d)"
    using pr eq rm(4) same_env_trans by metis
  show "\<not> strict_prefix ?q r \<Longrightarrow> same_file d (remove_object_dir b (r_object b k) d) r"
  proof -
    assume "\<not> strict_prefix ?q r"
    then have "same_file d ?d1 r"
      using rm(1) by (auto simp: same_file_def strict_prefix_def removable_dir_def)
    then show ?thesis using pr eq same_file_trans by metis
  qed
  assume "\<not> drv_fault d OpRemoveDirAll (r_object b k)" "prefix ?q r" "look d ?q \<noteq> None" "\<forall>c. look d ?q \<noteq> Some (File c)"
  moreover from this have "look d ?q = Some Dir" by (metis node.exhaust not_None_eq)
  ultimately have "look ?d1 r = None" using rm(1) r by (simp add: removable_dir_def)
  then show "look (remove_object_dir b (r_object b k) d) r = None" using pr eq by simp
qed

lemma remove_object_dir_gone:
  assumes wf: "drive_wf d" and names: "valid_names b k" and "\<not> drv_fault d OpRemoveDirAll (r_object b k)"
    and "strict_prefix (obj_path b k) r"
  shows "look (remove_object_dir b (r_object b k) d) r = None"
proof (cases "look d (obj_path b k) = Some Dir")
  case True
  with remove_object_dir_facts(4) [OF wf names assms(3)] assms(4) show ?thesis by (simp add: strict_prefix_def)
next
  case False
  then have "look d r = None" using look_below_file [OF wf _ assms(4)] by blast
  moreover have "\<not> removable_dir d (obj_path b k)" using False by (simp add: removable_dir_def)
  ultimately have "look (fst (drive_remove_dir_all d (PathBuf False (obj_path b k)))) r = None"
    using drive_remove_dir_all_eq(1) [OF wf obj_path_safe [OF names]] by simp
  moreover have "safe (butlast (obj_path b k))"
    using obj_path_safe [OF names] by (auto simp: safe_def dest: in_set_butlastD)
  ultimately show ?thesis
    using prune_empty_facts [of "fst (drive_remove_dir_all d (PathBuf False (obj_path b k)))"
        "PathBuf False (butlast (obj_path b k))" "r_bucket b"]
      drive_remove_dir_all_eq(3) [OF wf obj_path_safe [OF names]] names
    by (simp add: remove_object_dir_def r_object_path [OF names] pparent_def valid_names_def r_bucket_plain)
qed

end
