(* ===== verification/Heal_Facts.thy ===== *)
theory Heal_Facts
  imports Store_Heal Store_Frame
begin

text \<open>
  Healing restores full redundancy: on drives that fail nothing, once enough good shards are left,
  every drive serves its shards and holds the metadata afterwards.
\<close>

section \<open>Detection\<close>

lemma scan_blocks_bad:
  "length bad = length ds \<Longrightarrow>
   fst (scan_blocks E c m part ds bl off bad mg) =
     map (\<lambda>i. bad ! i \<or> \<not> (\<forall>j < length bl.
        read_shard E (xm_checksums m) part (bl ! j)
          (off + sum_list (map (\<lambda>b. shard_len c (block_len (heal_block_size m) (xm_stored_size m) b)) (take j bl)))
          (shard_len c (block_len (heal_block_size m) (xm_stored_size m) (bl ! j))) (i, ds ! i) \<noteq> None))
       [0 ..< length ds]"
proof (induction bl arbitrary: off bad mg)
  case Nil
  then show ?case by (auto intro: nth_equalityI)
next
  case (Cons b bl)
  let ?slen = "\<lambda>b. shard_len c (block_len (heal_block_size m) (xm_stored_size m) b)"
  let ?good = "good_shards E c m part ds b off"
  have len: "length ?good = length ds" by (simp add: good_shards_def)
  have nth: "?good ! i \<longleftrightarrow> read_shard E (xm_checksums m) part b off (?slen b) (i, ds ! i) \<noteq> None"
    if "i < length ds" for i using that by (simp add: good_shards_def nth_enumerate_eq)
  show ?case
    using Cons
    by (auto simp: Let_def len nth All_less_Suc2 Ex_less_Suc2 add.assoc intro!: nth_equalityI simp del: not_None_eq)
qed

lemma scan_blocks_min:
  assumes "\<And>j. j < length bl \<Longrightarrow> k \<le> length (filter id (good_shards E c m part ds (bl ! j)
      (off + sum_list (map (\<lambda>b. shard_len c (block_len (heal_block_size m) (xm_stored_size m) b)) (take j bl)))))"
    and "case mg of None \<Rightarrow> True | Some g \<Rightarrow> k \<le> g"
  shows "case snd (scan_blocks E c m part ds bl off bad mg) of None \<Rightarrow> True | Some g \<Rightarrow> k \<le> g"
  using assms
proof (induction bl arbitrary: off bad mg)
  case (Cons b bl)
  have "k \<le> length (filter id (good_shards E c m part ds b off))"
    using Cons.prems(1) [of 0] by (simp add: id_def)
  then have mg: "case Some (case mg of None \<Rightarrow> length (filter id (good_shards E c m part ds b off))
      | Some g \<Rightarrow> min g (length (filter id (good_shards E c m part ds b off)))) of None \<Rightarrow> True | Some g \<Rightarrow> k \<le> g"
    using Cons.prems(2) by (auto split: option.splits)
  have step: "k \<le> length (filter id (good_shards E c m part ds (bl ! j)
      (off + shard_len c (block_len (heal_block_size m) (xm_stored_size m) b)
       + sum_list (map (\<lambda>b. shard_len c (block_len (heal_block_size m) (xm_stored_size m) b)) (take j bl)))))"
    if "j < length bl" for j
    using Cons.prems(1) [of "Suc j"] that by (simp add: add.assoc id_def)
  show ?case using Cons.IH [OF step mg] by (simp add: Let_def)
qed simp

lemma sum_shard_offset:
  assumes bs: "0 < bs" and blocks: "blocks = split_blocks bs p" and j: "j \<le> length blocks"
  shows "sum_list (map (\<lambda>b. shard_len c (block_len bs (length p) b)) (take j [0 ..< length blocks])) = shard_offset c blocks j"
proof -
  have "map (\<lambda>b. shard_len c (block_len bs (length p) b)) (take j [0 ..< length blocks]) =
    map (\<lambda>blk. shard_len c (length blk)) (take j blocks)"
    using length_block [OF bs] j by (intro nth_equalityI) (auto simp: blocks)
  then show ?thesis by (simp only: shard_offset_def)
qed

text \<open>The facts about an object version that healing relies on; \<open>q\<close> is its directory.\<close>

definition healable ::
  "store_env \<Rightarrow> codec \<Rightarrow> xl_meta \<Rightarrow> nat \<Rightarrow> bytes \<Rightarrow> path \<Rightarrow> drive list \<Rightarrow> bool" where
  "healable E c m bs p q ds \<longleftrightarrow>
     codec_ok (ev_rs E) c \<and> xm_data m = cd_data c \<and> xm_parity m = cd_parity c \<and>
     xm_block_size m = bs \<and> 0 < bs \<and> xm_stored_size m = length p \<and>
     xm_checksums m = all_sums E c (split_blocks bs p) \<and>
     length ds = codec_total c \<and> safe q \<and> q \<noteq> [] \<and>
     (\<forall>d \<in> set ds. drive_wf d \<and> healthy d \<and> clear_for d q \<and> look d (q @ [HEAL_TMP]) \<noteq> Some Dir \<and>
        decode_xl d (PathBuf False (q @ [XL_META])) \<in> {None, Some m}) \<and>
     (\<exists>d \<in> set ds. decode_xl d (PathBuf False (q @ [XL_META])) \<noteq> None) \<and>
     (\<forall>i < length ds. bitrot_detected E c (split_blocks bs p) (PathBuf False (q @ [PART])) (ds ! i) i) \<and>
     cd_data c \<le> serving E c (split_blocks bs p) (PathBuf False (q @ [PART])) ds"

lemma scan_result:
  assumes "healable E c m bs p q ds"
  defines "part \<equiv> PathBuf False (q @ [PART])" and "blocks \<equiv> split_blocks bs p"
  shows "fst (scan_blocks E c m part ds [0 ..< num_blocks (heal_block_size m) (xm_stored_size m)] 0
           (replicate (length ds) False) None) = map (\<lambda>i. \<not> serves E c blocks part (ds ! i) i) [0 ..< length ds]"
    and "case snd (scan_blocks E c m part ds [0 ..< num_blocks (heal_block_size m) (xm_stored_size m)] 0
           (replicate (length ds) False) None) of None \<Rightarrow> True | Some g \<Rightarrow> cd_data c \<le> g"
proof -
  from assms(1) have ok: "codec_ok (ev_rs E) c" and bs: "0 < bs" and len: "length ds = codec_total c"
    and sums: "xm_checksums m = all_sums E c blocks" and hb: "heal_block_size m = bs"
    and st: "xm_stored_size m = length p"
    and det: "\<forall>i < length ds. bitrot_detected E c blocks part (ds ! i) i"
    and enough: "cd_data c \<le> serving E c blocks part ds"
    by (auto simp: healable_def heal_block_size_def part_def blocks_def)
  have nb: "num_blocks (heal_block_size m) (xm_stored_size m) = length blocks"
    using bs by (simp add: hb st blocks_def length_split_blocks)
  have slen: "shard_len c (block_len (heal_block_size m) (xm_stored_size m) b) = shard_len c (length (blocks ! b))"
    if "b < length blocks" for b
    using length_block [OF bs] that by (simp add: hb st blocks_def)
  have off: "sum_list (map (\<lambda>b. shard_len c (block_len (heal_block_size m) (xm_stored_size m) b))
      (take j [0 ..< length blocks])) = shard_offset c blocks j" if "j \<le> length blocks" for j
    using sum_shard_offset [OF bs blocks_def [THEN meta_eq_to_obj_eq] that] by (simp only: hb st)
  have good: "read_shard E (xm_checksums m) part b (shard_offset c blocks b) (shard_len c (length (blocks ! b)))
      (i, ds ! i) = None \<longleftrightarrow> read_block_shard c blocks part (ds ! i) b \<noteq> Some (shard_at E c blocks b i)"
    if "i < length ds" "b < length blocks" for i b
    using that det len recorded_all_sums [of i c b blocks E]
    by (auto simp: sums read_shard_def read_block_shard_def bitrot_detected_def split: option.splits)
  show "fst (scan_blocks E c m part ds [0 ..< num_blocks (heal_block_size m) (xm_stored_size m)] 0
           (replicate (length ds) False) None) = map (\<lambda>i. \<not> serves E c blocks part (ds ! i) i) [0 ..< length ds]"
    using off slen good by (subst scan_blocks_bad) (auto simp: nb serves_def intro!: map_cong simp del: not_None_eq)
  show "case snd (scan_blocks E c m part ds [0 ..< num_blocks (heal_block_size m) (xm_stored_size m)] 0
           (replicate (length ds) False) None) of None \<Rightarrow> True | Some g \<Rightarrow> cd_data c \<le> g"
  proof (rule scan_blocks_min)
    fix j assume "j < length [0 ..< num_blocks (heal_block_size m) (xm_stored_size m)]"
    then have j: "j < length blocks" by (simp add: nb)
    have eq: "good_shards E c m part ds j (shard_offset c blocks j) =
      map (\<lambda>x. x \<noteq> None) (map (read_shard E (all_sums E c blocks) part j (shard_offset c blocks j)
        (shard_len c (length (blocks ! j)))) (enumerate 0 ds))"
      by (simp add: good_shards_def slen [OF j] sums)
    have "length (filter id (good_shards E c m part ds j (shard_offset c blocks j))) =
      present (map (read_shard E (all_sums E c blocks) part j (shard_offset c blocks j)
        (shard_len c (length (blocks ! j)))) (enumerate 0 ds))"
      unfolding eq present_def by (simp only: filter_map length_map comp_def id_apply)
    with block_slots(2) [OF ok len j det] enough
    show "cd_data c \<le> length (filter id (good_shards E c m part ds
        ([0 ..< num_blocks (heal_block_size m) (xm_stored_size m)] ! j)
        (0 + sum_list (map (\<lambda>b. shard_len c (block_len (heal_block_size m) (xm_stored_size m) b))
          (take j [0 ..< num_blocks (heal_block_size m) (xm_stored_size m)])))))"
      using off [of j] j by (simp add: nb)
  qed simp
qed

section \<open>One slot\<close>

lemma try_each_ok:
  "\<forall>x \<in> set xs. snd (f x) = Ok () \<Longrightarrow> try_each f xs = (map (\<lambda>x. fst (f x)) xs, Ok ())"
  by (induction xs) (auto split: prod.splits)

lemma heal_tmp_distinct [simp]:
  "HEAL_TMP \<noteq> PART" "PART \<noteq> HEAL_TMP" "HEAL_TMP \<noteq> XL_META" "XL_META \<noteq> HEAL_TMP"
  "PART_TMP \<noteq> HEAL_TMP"
  by (simp_all add: HEAL_TMP_def PART_def XL_META_def PART_TMP_def)

text \<open>A slot whose part is bad has \<open>acc\<close> in its temporary file; any other slot is untouched.\<close>

definition heal_inv :: "drive \<Rightarrow> path \<Rightarrow> bytes \<Rightarrow> bool \<Rightarrow> bool \<Rightarrow> heal_slot \<Rightarrow> bool" where
  "heal_inv d q acc bp bm s \<longleftrightarrow>
     hs_bad_part s = bp \<and> hs_bad_meta s = bm \<and>
     (if bp then drive_wf (hs_drive s) \<and> same_env d (hs_drive s)
        \<and> look (hs_drive s) (q @ [HEAL_TMP]) = Some (File (Bytes acc))
        \<and> (\<forall>r. r \<noteq> q @ [HEAL_TMP] \<longrightarrow> \<not> prefix r q \<longrightarrow> look (hs_drive s) r = look d r)
        \<and> (\<forall>r. prefix r q \<longrightarrow> look (hs_drive s) r = Some Dir)
      else hs_drive s = d)"

text \<open>A drive that can be healed.\<close>

definition heal_drive :: "drive \<Rightarrow> path \<Rightarrow> bool" where
  "heal_drive d q \<longleftrightarrow> drive_wf d \<and> healthy d \<and> clear_for d q \<and> look d (q @ [HEAL_TMP]) \<noteq> Some Dir \<and> safe q \<and> q \<noteq> []"

lemma heal_open_ok:
  fixes bp bm :: bool
  assumes d: "heal_drive d q"
  defines "r \<equiv> heal_open (PathBuf False q) (PathBuf False (q @ [HEAL_TMP]))
      \<lparr> hs_drive = d, hs_bad_part = bp, hs_bad_meta = bm \<rparr>"
  shows "snd r = Ok ()" and "heal_inv d q [] bp bm (fst r)"
proof -
  let ?d1 = "fst (drive_create_dir_all d (PathBuf False q))"
  from d have wf: "drive_wf d" and h: "healthy d" and cl: "clear_for d q" and q: "safe q" "q \<noteq> []"
    and t: "look d (q @ [HEAL_TMP]) \<noteq> Some Dir" by (auto simp: heal_drive_def)
  note mk = drive_create_dir_all_eq [OF wf q(1)]
  have able: "mkdir_able d q" using h cl by (simp add: mkdir_able_def healthy_def clear_for_def)
  have ts: "safe (q @ [HEAL_TMP])" "q @ [HEAL_TMP] \<noteq> []" using q by simp_all
  note cr = drive_create_eq [OF mk(3) ts]
  have wr: "writable ?d1 OpCreate (q @ [HEAL_TMP])"
    using able mk healthy_env [OF mk(4) h] t by (simp add: writable_def healthy_def)
  have r: "r = (if bp then (\<lparr> hs_drive = fst (drive_create ?d1 (PathBuf False (q @ [HEAL_TMP]))),
      hs_bad_part = bp, hs_bad_meta = bm \<rparr>, Ok ()) else (\<lparr> hs_drive = d, hs_bad_part = bp, hs_bad_meta = bm \<rparr>, Ok ()))"
    using able wr mk(2) cr(2)
    by (cases "drive_create_dir_all d (PathBuf False q)"; cases "drive_create ?d1 (PathBuf False (q @ [HEAL_TMP]))")
      (auto simp: r_def heal_open_def)
  show "snd r = Ok ()" by (simp add: r)
  show "heal_inv d q [] bp bm (fst r)"
    using able wr mk cr same_env_trans [OF mk(4) cr(4)] by (auto simp: r heal_inv_def)
qed

lemma heal_append_ok:
  fixes b :: nat and x :: bytes
  assumes inv: "heal_inv d q acc bp bm s" and d: "heal_drive d q"
  defines "r \<equiv> heal_append b (PathBuf False (q @ [HEAL_TMP])) (s, x)"
  shows "snd r = Ok ()" and "heal_inv d q (acc @ x) bp bm (fst (fst r))"
proof -
  let ?ap = "drive_append (hs_drive s) b (PathBuf False (q @ [HEAL_TMP])) x"
  have both: "snd r = Ok () \<and> heal_inv d q (acc @ x) bp bm (fst (fst r))"
  proof (cases bp)
    case True
    with inv have bp: "hs_bad_part s" and wf: "drive_wf (hs_drive s)" and env: "same_env d (hs_drive s)"
      and tmp: "look (hs_drive s) (q @ [HEAL_TMP]) = Some (File (Bytes acc))" by (auto simp: heal_inv_def)
    from d have q: "safe (q @ [HEAL_TMP])" and h: "healthy d" by (auto simp: heal_drive_def)
    note ap = drive_append_eq [OF wf q, of b x]
    have able: "appendable (hs_drive s) b (q @ [HEAL_TMP])"
      using healthy_env [OF env h] tmp by (simp add: appendable_def healthy_def)
    have r: "r = ((s\<lparr>hs_drive := fst ?ap\<rparr>, x), Ok ())"
      using bp able ap(2) by (simp add: r_def heal_append_def case_prod_beta)
    show ?thesis
      using inv True able ap tmp same_env_trans [OF env ap(4)] by (auto simp: r heal_inv_def file_bytes_def)
  qed (use inv in \<open>auto simp: r_def heal_append_def heal_inv_def\<close>)
  then show "snd r = Ok ()" and "heal_inv d q (acc @ x) bp bm (fst (fst r))" by simp_all
qed

text \<open>What a slot holds once it is published and its metadata rewritten.\<close>

definition heal_done :: "drive \<Rightarrow> path \<Rightarrow> bytes \<Rightarrow> bool \<Rightarrow> bool \<Rightarrow> doc \<Rightarrow> drive \<Rightarrow> bool" where
  "heal_done d q acc bp bm c e \<longleftrightarrow>
     drive_wf e \<and> same_env d e \<and>
     look e (q @ [PART]) = (if bp then Some (File (Bytes acc)) else look d (q @ [PART])) \<and>
     look e (q @ [XL_META]) = (if bp \<or> bm then Some (File c) else look d (q @ [XL_META])) \<and>
     (\<forall>r. r \<notin> {q @ [PART], q @ [XL_META], q @ [HEAL_TMP]} \<longrightarrow> \<not> prefix r q \<longrightarrow> look e r = look d r) \<and>
     (\<not> bp \<longrightarrow> look e (q @ [HEAL_TMP]) = look d (q @ [HEAL_TMP])) \<and>
     (bp \<longrightarrow> look e (q @ [HEAL_TMP]) = None) \<and>
     (\<forall>r. prefix r q \<longrightarrow> look e r = look d r \<or> look e r = Some Dir)"

lemma heal_publish_ok:
  assumes inv: "heal_inv d q acc bp bm s" and d: "heal_drive d q"
  defines "r \<equiv> heal_publish (PathBuf False (q @ [HEAL_TMP])) (PathBuf False (q @ [PART])) s"
  shows "snd r = Ok ()" and "hs_bad_part (fst r) = bp \<and> hs_bad_meta (fst r) = bm"
    and "if bp then drive_wf (hs_drive (fst r)) \<and> same_env d (hs_drive (fst r))
        \<and> look (hs_drive (fst r)) = (look (hs_drive s))(q @ [PART] := Some (File (Bytes acc)), q @ [HEAL_TMP] := None)
      else fst r = s"
proof -
  let ?rn = "drive_rename (hs_drive s) (PathBuf False (q @ [HEAL_TMP])) (PathBuf False (q @ [PART]))"
  have "snd r = Ok () \<and> hs_bad_part (fst r) = bp \<and> hs_bad_meta (fst r) = bm \<and>
    (if bp then drive_wf (hs_drive (fst r)) \<and> same_env d (hs_drive (fst r))
        \<and> look (hs_drive (fst r)) = (look (hs_drive s))(q @ [PART] := Some (File (Bytes acc)), q @ [HEAL_TMP] := None)
      else fst r = s)"
  proof (cases bp)
    case True
    with inv have bp: "hs_bad_part s" and wf: "drive_wf (hs_drive s)" and env: "same_env d (hs_drive s)"
      and tmp: "look (hs_drive s) (q @ [HEAL_TMP]) = Some (File (Bytes acc))"
      and dir: "look (hs_drive s) q = Some Dir"
      and part: "look (hs_drive s) (q @ [PART]) = look d (q @ [PART])" by (auto simp: heal_inv_def)
    from d have q: "safe (q @ [HEAL_TMP])" "safe (q @ [PART])" "q @ [HEAL_TMP] \<noteq> q @ [PART]" "q @ [PART] \<noteq> []"
      and h: "healthy (hs_drive s)" and cl: "clear_for d q"
      using healthy_env [OF env] by (auto simp: heal_drive_def)
    have "look (hs_drive s) (q @ [HEAL_TMP]) \<noteq> Some Dir" using tmp by simp
    note rn = drive_rename_eq [OF wf q this]
    have able: "renamable (hs_drive s) (q @ [HEAL_TMP]) (q @ [PART])"
      using h tmp dir part cl by (simp add: renamable_def healthy_def clear_for_def)
    have r: "r = (s\<lparr>hs_drive := fst ?rn\<rparr>, Ok ())"
      using bp able rn(2) h by (simp add: r_def heal_publish_def drive_shutdown_def healthy_def case_prod_beta)
    show ?thesis
      using inv True able rn tmp same_env_trans [OF env rn(4)] by (simp add: r heal_inv_def)
  qed (use inv in \<open>auto simp: r_def heal_publish_def heal_inv_def\<close>)
  then show "snd r = Ok ()" and "hs_bad_part (fst r) = bp \<and> hs_bad_meta (fst r) = bm"
    and "if bp then drive_wf (hs_drive (fst r)) \<and> same_env d (hs_drive (fst r))
        \<and> look (hs_drive (fst r)) = (look (hs_drive s))(q @ [PART] := Some (File (Bytes acc)), q @ [HEAL_TMP] := None)
      else fst r = s" by blast+
qed

definition publish_inv :: "drive \<Rightarrow> path \<Rightarrow> bytes \<Rightarrow> bool \<Rightarrow> bool \<Rightarrow> heal_slot \<Rightarrow> bool" where
  "publish_inv d q acc bp bm s \<longleftrightarrow>
     hs_bad_part s = bp \<and> hs_bad_meta s = bm \<and>
     (if bp then drive_wf (hs_drive s) \<and> same_env d (hs_drive s)
        \<and> look (hs_drive s) (q @ [PART]) = Some (File (Bytes acc))
        \<and> look (hs_drive s) (q @ [HEAL_TMP]) = None
        \<and> (\<forall>r. r \<notin> {q @ [PART], q @ [HEAL_TMP]} \<longrightarrow> \<not> prefix r q \<longrightarrow> look (hs_drive s) r = look d r)
        \<and> (\<forall>r. prefix r q \<longrightarrow> look (hs_drive s) r = Some Dir)
      else hs_drive s = d)"

lemma heal_publish_inv:
  assumes inv: "heal_inv d q acc bp bm s" and d: "heal_drive d q"
  shows "publish_inv d q acc bp bm
    (fst (heal_publish (PathBuf False (q @ [HEAL_TMP])) (PathBuf False (q @ [PART])) s))"
  using heal_publish_ok(2,3) [OF inv d] inv by (auto simp: publish_inv_def heal_inv_def split: if_splits)

lemma heal_meta_ok:
  fixes c :: doc
  assumes inv: "publish_inv d q acc bp bm s" and d: "heal_drive d q"
  defines "r \<equiv> heal_meta (PathBuf False q) (PathBuf False (q @ [XL_META])) c s"
  shows "snd r = Ok ()" and "heal_done d q acc bp bm c (hs_drive (fst r))"
proof -
  let ?e = "hs_drive s"
  let ?mk = "drive_create_dir_all ?e (PathBuf False q)"
  let ?wr = "drive_write (fst ?mk) (PathBuf False (q @ [XL_META])) c"
  from d have q: "safe q" "q \<noteq> []" "safe (q @ [XL_META])" "q @ [XL_META] \<noteq> []" and h: "healthy d" and cl: "clear_for d q"
    by (auto simp: heal_drive_def)
  have e: "drive_wf ?e" "same_env d ?e" "\<forall>r. prefix r q \<longrightarrow> look ?e r = None \<or> look ?e r = Some Dir"
    "look ?e (q @ [XL_META]) = look d (q @ [XL_META])"
    using inv d cl by (auto simp: publish_inv_def heal_drive_def clear_for_def split: if_splits)
  note he = healthy_env [OF e(2) h]
  note mk = drive_create_dir_all_eq [OF e(1) q(1)]
  note wr = drive_write_eq [OF mk(3) q(3,4), of c]
  have able: "mkdir_able ?e q" using he e(3) by (simp add: mkdir_able_def healthy_def)
  have w: "writable (fst ?mk) OpWrite (q @ [XL_META])"
    using able mk healthy_env [OF mk(4) he] e(4) cl by (simp add: writable_def healthy_def clear_for_def)
  have r: "r = (if bp \<or> bm then (s\<lparr>hs_drive := fst ?wr\<rparr>, Ok ()) else (s, Ok ()))"
    using inv able w mk(2) wr(2) by (auto simp: r_def heal_meta_def publish_inv_def case_prod_beta)
  show "snd r = Ok ()" by (simp add: r)
  show "heal_done d q acc bp bm c (hs_drive (fst r))"
    using inv able w mk wr e(2) same_env_trans [OF same_env_trans [OF e(2) mk(4)] wr(4)] d
    by (auto simp: r heal_done_def publish_inv_def heal_drive_def split: if_splits)
qed

section \<open>All slots\<close>

text \<open>The slots of a heal and their invariant, slot by slot.\<close>

definition heal_slots :: "drive list \<Rightarrow> bool list \<Rightarrow> bool list \<Rightarrow> heal_slot list" where
  "heal_slots ds bps bms = map (\<lambda>(d, bp, bm). \<lparr> hs_drive = d, hs_bad_part = bp, hs_bad_meta = bm \<rparr>)
     (zip ds (zip bps bms))"

definition slots_inv :: "(drive \<Rightarrow> path \<Rightarrow> bytes \<Rightarrow> bool \<Rightarrow> bool \<Rightarrow> heal_slot \<Rightarrow> bool) \<Rightarrow>
    drive list \<Rightarrow> path \<Rightarrow> (nat \<Rightarrow> bytes) \<Rightarrow> bool list \<Rightarrow> bool list \<Rightarrow> heal_slot list \<Rightarrow> bool" where
  "slots_inv P ds q acc bps bms ss \<longleftrightarrow>
     length ss = length ds \<and> length bps = length ds \<and> length bms = length ds \<and>
     (\<forall>i < length ds. heal_drive (ds ! i) q \<and> P (ds ! i) q (acc i) (bps ! i) (bms ! i) (ss ! i))"

lemma slots_inv_all: "slots_inv P ds q acc bps bms ss \<Longrightarrow> s \<in> set ss \<Longrightarrow>
    \<exists>d a bp bm. heal_drive d q \<and> P d q a bp bm s"
  unfolding slots_inv_def in_set_conv_nth by metis

lemma try_slots:
  assumes inv: "slots_inv P ds q acc bps bms ss"
    and step: "\<And>d a bp bm s. P d q a bp bm s \<Longrightarrow> heal_drive d q \<Longrightarrow> snd (f s) = Ok () \<and> Q d q a bp bm (fst (f s))"
  shows "try_each f ss = (map (\<lambda>s. fst (f s)) ss, Ok ()) \<and> slots_inv Q ds q acc bps bms (map (\<lambda>s. fst (f s)) ss)"
proof
  show "try_each f ss = (map (\<lambda>s. fst (f s)) ss, Ok ())"
    using slots_inv_all [OF inv] step by (intro try_each_ok) blast
  show "slots_inv Q ds q acc bps bms (map (\<lambda>s. fst (f s)) ss)"
    using inv step by (simp add: slots_inv_def)
qed

definition heal_raw :: "drive \<Rightarrow> path \<Rightarrow> bytes \<Rightarrow> bool \<Rightarrow> bool \<Rightarrow> heal_slot \<Rightarrow> bool" where
  "heal_raw d q acc bp bm s \<longleftrightarrow> s = \<lparr> hs_drive = d, hs_bad_part = bp, hs_bad_meta = bm \<rparr> \<and> acc = []"

lemma heal_slots_inv:
  assumes "length bps = length ds" "length bms = length ds" "\<forall>d \<in> set ds. heal_drive d q"
  shows "slots_inv heal_raw ds q (\<lambda>_. []) bps bms (heal_slots ds bps bms)"
  using assms by (simp add: slots_inv_def heal_slots_def heal_raw_def)

lemma append_slots:
  assumes inv: "slots_inv heal_inv ds q acc bps bms ss" and len: "length xs = length ds"
  shows "\<exists>ps. try_each (heal_append b (PathBuf False (q @ [HEAL_TMP]))) (zip ss xs) = (ps, Ok ()) \<and>
    slots_inv heal_inv ds q (\<lambda>i. acc i @ xs ! i) bps bms (map fst ps)"
proof -
  let ?f = "heal_append b (PathBuf False (q @ [HEAL_TMP]))"
  have ok: "\<forall>p \<in> set (zip ss xs). snd (?f p) = Ok ()"
  proof
    fix p assume p: "p \<in> set (zip ss xs)"
    then have "fst p \<in> set ss" by (metis prod.collapse set_zip_leftD)
    from slots_inv_all [OF inv this] obtain d a bp bm where
      "heal_drive d q" "heal_inv d q a bp bm (fst p)" by blast
    from heal_append_ok(1) [OF this(2,1), of b "snd p"] show "snd (?f p) = Ok ()" by simp
  qed
  have "slots_inv heal_inv ds q (\<lambda>i. acc i @ xs ! i) bps bms (map fst (map (\<lambda>p. fst (?f p)) (zip ss xs)))"
    using inv len heal_append_ok(2) by (simp add: slots_inv_def)
  with try_each_ok [OF ok] show ?thesis by blast
qed

text \<open>Rebuilding the blocks: the bad slots gather the shards of all blocks.\<close>

lemma shard_slots:
  assumes ok: "codec_ok (ev_rs E) c" and len: "length ds = codec_total c" and b: "b < length blocks"
    and det: "\<forall>i < length ds. bitrot_detected E c blocks part (ds ! i) i"
    and bps: "bps = map (\<lambda>i. \<not> serves E c blocks part (ds ! i) i) [0 ..< length ds]"
    and enough: "cd_data c \<le> serving E c blocks part ds"
    and sums: "xm_checksums m = all_sums E c blocks"
    and inv: "slots_inv heal_inv ds q acc bps bms ss"
  defines "xs \<equiv> map (heal_shard E m part b (shard_offset c blocks b) (shard_len c (length (blocks ! b)))) (enumerate 0 ss)"
  shows "reconstruct_block (ev_rs E) c xs (length (blocks ! b)) = Ok (blocks ! b)"
proof -
  have ls: "length ss = length ds" and lx: "length xs = codec_total c"
    using inv len by (simp_all add: slots_inv_def xs_def)
  have nth: "xs ! i = (if serves E c blocks part (ds ! i) i then Some (enc_shards E c (blocks ! b) ! i) else None)"
    if i: "i < codec_total c" for i
  proof -
    have "heal_inv (ds ! i) q (acc i) (bps ! i) (bms ! i) (ss ! i)" using inv i len by (simp add: slots_inv_def)
    then have "hs_bad_part (ss ! i) = (\<not> serves E c blocks part (ds ! i) i)"
      "serves E c blocks part (ds ! i) i \<Longrightarrow> hs_drive (ss ! i) = ds ! i"
      using i len by (auto simp: heal_inv_def bps)
    moreover have "i < length ss" using i ls len by simp
    ultimately show ?thesis
      using read_shard_cases(2) [OF _ b] i det len
      by (auto simp: xs_def nth_enumerate_eq heal_shard_def sums shard_at_def)
  qed
  have "agrees xs (enc_shards E c (blocks ! b))"
    unfolding agrees_nth using lx nth enc_shards_ok(2) [OF ok, of "blocks ! b"] by auto
  moreover have "{i. i < length ds \<and> serves E c blocks part (ds ! i) i} \<subseteq> {i. i < length xs \<and> xs ! i \<noteq> None}"
    using nth len lx by auto
  then have "serving E c blocks part ds \<le> present xs"
    unfolding serving_def present_card by (intro card_mono) auto
  ultimately show ?thesis
    using rs.dec_enc [OF ok enc_shards_ok(1) [OF ok]] enough by (meson le_trans)
qed

lemma rebuild_blocks_ok:
  assumes ok: "codec_ok (ev_rs E) c" and len: "length ds = codec_total c" and bs: "0 < bs"
    and blocks: "blocks = split_blocks bs p"
    and det: "\<forall>i < length ds. bitrot_detected E c blocks part (ds ! i) i"
    and bps: "bps = map (\<lambda>i. \<not> serves E c blocks part (ds ! i) i) [0 ..< length ds]"
    and enough: "cd_data c \<le> serving E c blocks part ds"
    and m: "xm_checksums m = all_sums E c blocks" "heal_block_size m = bs" "xm_stored_size m = length p"
  shows "b \<le> length blocks \<Longrightarrow> slots_inv heal_inv ds q acc bps bms ss \<Longrightarrow>
    \<exists>ss'. rebuild_blocks E c m part (PathBuf False (q @ [HEAL_TMP])) [b ..< length blocks] (shard_offset c blocks b) ss
        = (ss', Ok ()) \<and>
      slots_inv heal_inv ds q (\<lambda>i. acc i @ concat (slot_shards E c (drop b blocks) i)) bps bms ss'"
proof (induction "length blocks - b" arbitrary: b acc ss)
  case 0
  then show ?case by (simp add: slot_shards_def)
next
  case (Suc k)
  then have b: "b < length blocks" by simp
  have upt: "[b ..< length blocks] = b # [Suc b ..< length blocks]" using b by (rule upt_conv_Cons)
  have blen: "block_len bs (length p) b = length (blocks ! b)"
    using length_block [OF bs] b by (simp add: blocks)
  note rec = shard_slots [OF ok len b det bps enough m(1) Suc.prems(2)]
  note enc = enc_shards_ok(1,2) [OF ok, of "blocks ! b"]
  from append_slots [OF Suc.prems(2), of "enc_shards E c (blocks ! b)" b] enc(2) len
  obtain ps where ps: "try_each (heal_append b (PathBuf False (q @ [HEAL_TMP]))) (zip ss (enc_shards E c (blocks ! b))) = (ps, Ok ())"
    and inv: "slots_inv heal_inv ds q (\<lambda>i. acc i @ enc_shards E c (blocks ! b) ! i) bps bms (map fst ps)" by auto
  have k: "k = length blocks - Suc b" "Suc b \<le> length blocks" using Suc.hyps b by simp_all
  from Suc.hyps(1) [OF k inv] obtain ss' where
    ss': "rebuild_blocks E c m part (PathBuf False (q @ [HEAL_TMP])) [Suc b ..< length blocks]
      (shard_offset c blocks (Suc b)) (map fst ps) = (ss', Ok ())"
    and inv': "slots_inv heal_inv ds q (\<lambda>i. (acc i @ enc_shards E c (blocks ! b) ! i)
      @ concat (slot_shards E c (drop (Suc b) blocks) i)) bps bms ss'" by blast
  have "slot_shards E c (drop b blocks) i = enc_shards E c (blocks ! b) ! i # slot_shards E c (drop (Suc b) blocks) i" for i
    using b by (simp add: slot_shards_def Cons_nth_drop_Suc [symmetric])
  with inv' have "slots_inv heal_inv ds q (\<lambda>i. acc i @ concat (slot_shards E c (drop b blocks) i)) bps bms ss'" by simp
  moreover have "rebuild_blocks E c m part (PathBuf False (q @ [HEAL_TMP])) [b ..< length blocks] (shard_offset c blocks b) ss = (ss', Ok ())"
    using ss' by (simp add: upt Let_def m blen rec enc(1) ps shard_offset_Suc [OF b])
  ultimately show ?case by blast
qed

section \<open>The whole object\<close>

lemma raw_unbad: "heal_raw d q a False bm s \<Longrightarrow> publish_inv d q b False bm s"
  by (simp add: heal_raw_def publish_inv_def)

lemma rebuild_parts_ok:
  assumes ok: "codec_ok (ev_rs E) c" and len: "length ds = codec_total c" and bs: "0 < bs"
    and blocks: "blocks = split_blocks bs p"
    and det: "\<forall>i < length ds. bitrot_detected E c blocks (PathBuf False (q @ [PART])) (ds ! i) i"
    and bps: "bps = map (\<lambda>i. \<not> serves E c blocks (PathBuf False (q @ [PART])) (ds ! i) i) [0 ..< length ds]"
    and enough: "cd_data c \<le> serving E c blocks (PathBuf False (q @ [PART])) ds"
    and m: "xm_checksums m = all_sums E c blocks" "heal_block_size m = bs" "xm_stored_size m = length p"
    and bms: "length bms = length ds" and ds: "\<forall>d \<in> set ds. heal_drive d q"
  shows "\<exists>ss. rebuild_parts E c m (PathBuf False q) (heal_slots ds bps bms) = (ss, Ok ()) \<and>
    slots_inv publish_inv ds q (\<lambda>i. concat (slot_shards E c blocks i)) bps bms ss"
proof -
  let ?t = "PathBuf False (q @ [HEAL_TMP])" and ?p = "PathBuf False (q @ [PART])"
  have paths: "pjoin (PathBuf False q) HEAL_TMP = ?t" "pjoin (PathBuf False q) PART = ?p"
    by (simp_all add: pjoin_plain)
  have raw: "slots_inv heal_raw ds q (\<lambda>_. []) bps bms (heal_slots ds bps bms)"
    using bms ds by (intro heal_slots_inv) (simp_all add: bps)
  have op: "snd (heal_open (PathBuf False q) ?t s) = Ok () \<and> heal_inv d q a bp bm (fst (heal_open (PathBuf False q) ?t s))"
    if "heal_raw d q a bp bm s" "heal_drive d q" for d a bp bm s
    using heal_open_ok [OF that(2)] that(1) by (simp add: heal_raw_def)
  define s1 where "s1 = map (\<lambda>s. fst (heal_open (PathBuf False q) ?t s)) (heal_slots ds bps bms)"
  have s1: "try_each (heal_open (PathBuf False q) ?t) (heal_slots ds bps bms) = (s1, Ok ())"
    "slots_inv heal_inv ds q (\<lambda>_. []) bps bms s1"
    using try_slots [where P = heal_raw and Q = heal_inv and f = "heal_open (PathBuf False q) ?t", OF raw op] by (simp_all add: s1_def)
  from rebuild_blocks_ok [OF ok len bs blocks det bps enough m _ s1(2), of 0]
  obtain s2 where s2: "rebuild_blocks E c m ?p ?t [0 ..< length blocks] 0 s1 = (s2, Ok ())"
    "slots_inv heal_inv ds q (\<lambda>i. concat (slot_shards E c blocks i)) bps bms s2"
    by (auto simp: shard_offset_def)
  have pub: "snd (heal_publish ?t ?p s) = Ok () \<and> publish_inv d q a bp bm (fst (heal_publish ?t ?p s))"
    if "heal_inv d q a bp bm s" "heal_drive d q" for d a bp bm s
    using heal_publish_ok(1) [OF that] heal_publish_inv [OF that] by simp
  have nb: "num_blocks (heal_block_size m) (xm_stored_size m) = length blocks"
    using bs by (simp add: m blocks length_split_blocks)
  show ?thesis
    using try_slots [where P = heal_inv and Q = publish_inv and f = "heal_publish ?t ?p", OF s2(2) pub] s1(1) s2(1) by (simp add: rebuild_parts_def Let_def paths nb)
qed

text \<open>The drives after a heal: every one serves its shards and holds the metadata.\<close>

definition restored :: "store_env \<Rightarrow> codec \<Rightarrow> xl_meta \<Rightarrow> bytes list \<Rightarrow> path \<Rightarrow> drive \<Rightarrow> nat \<Rightarrow> bool" where
  "restored E c m blocks q d i \<longleftrightarrow>
     serves E c blocks (PathBuf False (q @ [PART])) d i \<and> decode_xl d (PathBuf False (q @ [XL_META])) = Some m"

lemma healed_drive:
  assumes fin: "heal_done d q (concat (slot_shards E c blocks i)) bp bm (XlDoc m) e" and d: "heal_drive d q"
    and ok: "codec_ok (ev_rs E) c" "i < codec_total c"
    and bp: "bp \<longleftrightarrow> \<not> serves E c blocks (PathBuf False (q @ [PART])) d i"
    and bm: "bm \<longleftrightarrow> decode_xl d (PathBuf False (q @ [XL_META])) = None"
    and xl: "decode_xl d (PathBuf False (q @ [XL_META])) \<in> {None, Some m}"
  shows "restored E c m blocks q e i" and "heal_drive e q"
proof -
  from d have q: "safe (q @ [PART])" "safe (q @ [XL_META])" and wf: "drive_wf d" and h: "healthy d" by (auto simp: heal_drive_def)
  from fin have wfe: "drive_wf e" and env: "same_env d e" by (simp_all add: heal_done_def)
  note he = healthy_env [OF env h]
  have "serves E c blocks (PathBuf False (q @ [PART])) e i"
  proof (cases bp)
    case True
    then show ?thesis
      using fin he by (intro file_serves [OF ok wfe q(1)]) (auto simp: heal_done_def reads_parts_def healthy_def)
  next
    case False
    then have "look e (q @ [PART]) = look d (q @ [PART])" using fin by (simp add: heal_done_def)
    then have "drive_read_at e (PathBuf False (q @ [PART])) off n = drive_read_at d (PathBuf False (q @ [PART])) off n" for off n
      using wf wfe q h he by (simp add: drive_read_at_eq healthy_def)
    with False bp show ?thesis by (simp add: serves_def read_block_shard_def)
  qed
  moreover have "decode_xl e (PathBuf False (q @ [XL_META])) = Some m"
    using fin bm xl wf wfe q h he by (auto simp: decode_xl_eq heal_done_def healthy_def split: if_splits)
  ultimately show "restored E c m blocks q e i" by (simp add: restored_def)
  have "look e (q @ [PART_TMP]) = look d (q @ [PART_TMP])"
    using fin by (simp add: heal_done_def)
  moreover have "look e r = None \<or> look e r = Some Dir" if "prefix r q" for r
    using that fin d unfolding heal_done_def heal_drive_def clear_for_def by metis
  ultimately show "heal_drive e q"
    using fin d he wfe by (simp add: heal_drive_def heal_done_def clear_for_def split: if_splits)
qed

text \<open>The recorded facts of a healable object in the form the lemmas above use.\<close>

lemma healableD:
  assumes "healable E c m bs p q ds"
  shows "codec_ok (ev_rs E) c" "length ds = codec_total c" "0 < bs" "\<forall>d \<in> set ds. heal_drive d q"
    "heal_block_size m = bs" "xm_stored_size m = length p" "xm_checksums m = all_sums E c (split_blocks bs p)"
    "\<forall>i < length ds. bitrot_detected E c (split_blocks bs p) (PathBuf False (q @ [PART])) (ds ! i) i"
    "cd_data c \<le> serving E c (split_blocks bs p) (PathBuf False (q @ [PART])) ds"
    "\<forall>d \<in> set ds. decode_xl d (PathBuf False (q @ [XL_META])) \<in> {None, Some m}"
    "\<exists>d \<in> set ds. decode_xl d (PathBuf False (q @ [XL_META])) \<noteq> None"
    "codec_new (ev_rs E) (xm_data m) (xm_parity m) = Ok c" "xm_data m = cd_data c"
proof -
  from assms show "codec_ok (ev_rs E) c" "length ds = codec_total c" "0 < bs"
    "\<forall>d \<in> set ds. heal_drive d q"
    "heal_block_size m = bs" "xm_stored_size m = length p" "xm_checksums m = all_sums E c (split_blocks bs p)"
    "\<forall>i < length ds. bitrot_detected E c (split_blocks bs p) (PathBuf False (q @ [PART])) (ds ! i) i"
    "cd_data c \<le> serving E c (split_blocks bs p) (PathBuf False (q @ [PART])) ds"
    "\<forall>d \<in> set ds. decode_xl d (PathBuf False (q @ [XL_META])) \<in> {None, Some m}"
    "\<exists>d \<in> set ds. decode_xl d (PathBuf False (q @ [XL_META])) \<noteq> None" "xm_data m = cd_data c"
    by (auto simp: healable_def heal_drive_def heal_block_size_def)
  from assms have "rs_laws (ev_rs E) (cd_data c) (cd_parity c)" "xm_data m = cd_data c" "xm_parity m = cd_parity c"
    by (simp_all add: healable_def codec_ok_def)
  then show "codec_new (ev_rs E) (xm_data m) (xm_parity m) = Ok c" by (simp add: codec_ok_new)
qed

text \<open>One heal of the object: nothing to do when every drive is intact, else every drive is restored.\<close>

lemma heal_object_cases:
  assumes h: "healable E c m bs p q ds" and dir: "r_obj_v b k vid = PathBuf False q"
  defines "blocks \<equiv> split_blocks bs p"
  defines "bps \<equiv> map (\<lambda>i. \<not> serves E c blocks (PathBuf False (q @ [PART])) (ds ! i) i) [0 ..< length ds]"
    and "bms \<equiv> map (\<lambda>d. decode_xl d (PathBuf False (q @ [XL_META])) = None) ds"
  shows "True \<notin> set bps \<Longrightarrow> True \<notin> set bms \<Longrightarrow> heal_object E ds b k vid False = (ds, Ok Healthy)"
    and "True \<in> set bps \<or> True \<in> set bms \<Longrightarrow>
      \<exists>ss. heal_object E ds b k vid False = (map hs_drive ss, Ok (Healed (length (filter id (map2 (\<or>) bps bms))))) \<and>
        slots_inv (\<lambda>d q a bp bm s. heal_done d q a bp bm (XlDoc m) (hs_drive s)) ds q
          (\<lambda>i. concat (slot_shards E c blocks i)) bps bms ss"
    and "heal_object E ds b k vid True = (ds, Ok (if True \<in> set bps \<or> True \<in> set bms
      then Healed (length (filter id (map2 (\<or>) bps bms))) else Healthy))"
proof -
  note H = healableD [OF h]
  have paths: "pjoin (PathBuf False q) PART = PathBuf False (q @ [PART])"
    "pjoin (PathBuf False q) XL_META = PathBuf False (q @ [XL_META])" by (simp_all add: pjoin_plain)
  have rd: "read_xl_v ds b k vid = Ok m" using H(10,11) by (intro read_xl_unique) (simp_all add: dir paths)
  let ?scan = "scan_blocks E c m (PathBuf False (q @ [PART])) ds [0 ..< num_blocks (heal_block_size m) (xm_stored_size m)] 0
      (replicate (length ds) False) None"
  define mg where "mg = snd ?scan"
  have scan: "?scan = (bps, mg)" "case mg of None \<Rightarrow> True | Some g \<Rightarrow> cd_data c \<le> g"
    using scan_result(1) [OF h] scan_result(2) [OF h]
    by (simp_all only: mg_def bps_def blocks_def prod_eq_iff fst_conv snd_conv simp_thms)
  have mg: "\<not> (case mg of Some g \<Rightarrow> g < xm_data m | None \<Rightarrow> False)" using scan(2) H(13) by (auto split: option.splits)
  have ex: "list_ex id xs \<longleftrightarrow> True \<in> set xs" for xs by (auto simp: list_ex_iff)
  note unf = heal_object_def rd sum.case H(12) Let_def dir paths scan(1) prod.case bms_def [symmetric] ex
  show "heal_object E ds b k vid False = (ds, Ok Healthy)" if "True \<notin> set bps" "True \<notin> set bms"
    unfolding unf using that by simp
  show "heal_object E ds b k vid True = (ds, Ok (if True \<in> set bps \<or> True \<in> set bms
      then Healed (length (filter id (map2 (\<or>) bps bms))) else Healthy))"
    unfolding unf using mg by simp
  assume need: "True \<in> set bps \<or> True \<in> set bms"
  have len: "length bps = length ds" "length bms = length ds" by (simp_all add: bps_def bms_def)
  have "\<exists>ss. (if True \<in> set bps then rebuild_parts E c m (PathBuf False q) (heal_slots ds bps bms)
      else (heal_slots ds bps bms, Ok ())) = (ss, Ok ()) \<and>
    slots_inv publish_inv ds q (\<lambda>i. concat (slot_shards E c blocks i)) bps bms ss"
  proof (cases "True \<in> set bps")
    case True
    with rebuild_parts_ok [OF H(1,2,3) refl H(8) _ H(9,7,5,6) len(2) H(4), of bps] show ?thesis
      by (simp add: bps_def blocks_def)
  next
    case False
    have "slots_inv publish_inv ds q (\<lambda>i. concat (slot_shards E c blocks i)) bps bms (heal_slots ds bps bms)"
      unfolding slots_inv_def
    proof (intro conjI allI impI)
      fix i assume i: "i < length ds"
      then have "bps ! i = False" using False len nth_mem by metis
      moreover have "heal_raw (ds ! i) q [] (bps ! i) (bms ! i) (heal_slots ds bps bms ! i)"
        using heal_slots_inv [OF len H(4)] i by (simp add: slots_inv_def)
      ultimately show "publish_inv (ds ! i) q (concat (slot_shards E c blocks i)) (bps ! i) (bms ! i) (heal_slots ds bps bms ! i)"
        using raw_unbad by simp
    qed (use H(4) len in \<open>simp_all add: heal_slots_def\<close>)
    with False show ?thesis by simp
  qed
  then obtain s1 where s1: "(if True \<in> set bps then rebuild_parts E c m (PathBuf False q) (heal_slots ds bps bms)
      else (heal_slots ds bps bms, Ok ())) = (s1, Ok ())"
    "slots_inv publish_inv ds q (\<lambda>i. concat (slot_shards E c blocks i)) bps bms s1" by blast
  let ?f = "heal_meta (PathBuf False q) (PathBuf False (q @ [XL_META])) (XlDoc m)"
  have step: "snd (?f s) = Ok () \<and> heal_done d q a bp bm (XlDoc m) (hs_drive (fst (?f s)))"
    if "publish_inv d q a bp bm s" "heal_drive d q" for d a bp bm s
    using heal_meta_ok [OF that] by simp
  note fin = try_slots [where P = publish_inv and Q = "\<lambda>d q a bp bm s. heal_done d q a bp bm (XlDoc m) (hs_drive s)" and f = ?f,
      OF s1(2) step]
  define s2 where "s2 = map (\<lambda>s. fst (?f s)) s1"
  show "\<exists>ss. heal_object E ds b k vid False = (map hs_drive ss, Ok (Healed (length (filter id (map2 (\<or>) bps bms))))) \<and>
      slots_inv (\<lambda>d q a bp bm s. heal_done d q a bp bm (XlDoc m) (hs_drive s)) ds q
        (\<lambda>i. concat (slot_shards E c blocks i)) bps bms ss"
    unfolding unf heal_slots_def [symmetric] s1(1) using need mg fin [folded s2_def] by auto
qed

lemma heal_object_restored:
  assumes h: "healable E c m bs p q ds" and dir: "r_obj_v b k vid = PathBuf False q"
  obtains ds' out where "heal_object E ds b k vid False = (ds', Ok out)" "out \<noteq> Unrecoverable" "length ds' = length ds"
    "\<forall>i < length ds. restored E c m (split_blocks bs p) q (ds' ! i) i \<and> heal_drive (ds' ! i) q"
proof -
  note H = healableD [OF h] and cases = heal_object_cases [OF h dir]
  let ?bps = "map (\<lambda>i. \<not> serves E c (split_blocks bs p) (PathBuf False (q @ [PART])) (ds ! i) i) [0 ..< length ds]"
  let ?bms = "map (\<lambda>d. decode_xl d (PathBuf False (q @ [XL_META])) = None) ds"
  show thesis
  proof (cases "True \<in> set ?bps \<or> True \<in> set ?bms")
    case False
    have "restored E c m (split_blocks bs p) q (ds ! i) i \<and> heal_drive (ds ! i) q" if i: "i < length ds" for i
    proof
      from False i have "serves E c (split_blocks bs p) (PathBuf False (q @ [PART])) (ds ! i) i"
        "decode_xl (ds ! i) (PathBuf False (q @ [XL_META])) \<noteq> None" by (auto simp: image_iff)
      moreover have "decode_xl (ds ! i) (PathBuf False (q @ [XL_META])) \<in> {None, Some m}" using H(10) i by simp
      ultimately show "restored E c m (split_blocks bs p) q (ds ! i) i" by (auto simp: restored_def)
      show "heal_drive (ds ! i) q" using H(4) i by simp
    qed
    with False cases(1) that [of ds Healthy] show thesis by blast
  next
    case True
    from cases(2) [OF True] obtain ss where
      run: "heal_object E ds b k vid False = (map hs_drive ss, Ok (Healed (length (filter id (map2 (\<or>) ?bps ?bms)))))"
      and inv: "slots_inv (\<lambda>d q a bp bm s. heal_done d q a bp bm (XlDoc m) (hs_drive s)) ds q
          (\<lambda>i. concat (slot_shards E c (split_blocks bs p) i)) ?bps ?bms ss" by blast
    have ls: "length ss = length ds" using inv by (simp add: slots_inv_def)
    have "restored E c m (split_blocks bs p) q (map hs_drive ss ! i) i \<and> heal_drive (map hs_drive ss ! i) q"
      if i: "i < length ds" for i
    proof -
      have d: "heal_drive (ds ! i) q" and xl: "decode_xl (ds ! i) (PathBuf False (q @ [XL_META])) \<in> {None, Some m}"
        and tot: "i < codec_total c" using H(2,4,10) i by simp_all
      have "heal_done (ds ! i) q (concat (slot_shards E c (split_blocks bs p) i)) (?bps ! i) (?bms ! i) (XlDoc m) (hs_drive (ss ! i))"
        using inv i by (simp add: slots_inv_def)
      from healed_drive [OF this d H(1) tot _ _ xl] i ls show ?thesis by simp
    qed
    with run ls that show thesis by force
  qed
qed

lemma restored_healable:
  assumes h: "healable E c m bs p q ds" and len: "length ds' = length ds"
    and res: "\<forall>i < length ds. restored E c m (split_blocks bs p) q (ds' ! i) i \<and> heal_drive (ds' ! i) q"
  shows "healable E c m bs p q ds'"
proof -
  note H = healableD [OF h]
  have all: "heal_drive d q \<and> decode_xl d (PathBuf False (q @ [XL_META])) = Some m" if "d \<in> set ds'" for d
    using that res len by (auto simp: in_set_conv_nth restored_def)
  have "0 < cd_data c" using H(1) by (simp add: codec_ok_def rs_laws_def)
  then have ne: "0 < length ds'" using H(2) len by (simp add: codec_total_def)
  have "{i. i < length ds' \<and> serves E c (split_blocks bs p) (PathBuf False (q @ [PART])) (ds' ! i) i} = {0 ..< length ds'}"
    using res len by (auto simp: restored_def)
  then have "cd_data c \<le> serving E c (split_blocks bs p) (PathBuf False (q @ [PART])) ds'"
    using H(2) len by (simp add: serving_def codec_total_def)
  moreover have "\<forall>i < length ds'. bitrot_detected E c (split_blocks bs p) (PathBuf False (q @ [PART])) (ds' ! i) i"
    using res len by (auto simp: restored_def intro: serves_detects)
  moreover have "\<exists>d \<in> set ds'. decode_xl d (PathBuf False (q @ [XL_META])) \<noteq> None"
    using all ne nth_mem [of 0 ds'] by (intro bexI [of _ "ds' ! 0"]) auto
  ultimately show ?thesis using h all len by (auto simp: healable_def heal_drive_def)
qed

lemma restored_healthy:
  assumes h: "healable E c m bs p q ds" and dir: "r_obj_v b k vid = PathBuf False q"
    and res: "\<forall>i < length ds. restored E c m (split_blocks bs p) q (ds ! i) i"
  shows "heal_object E ds b k vid False = (ds, Ok Healthy)"
proof (rule heal_object_cases(1) [OF h dir])
  show "True \<notin> set (map (\<lambda>i. \<not> serves E c (split_blocks bs p) (PathBuf False (q @ [PART])) (ds ! i) i) [0 ..< length ds])"
    using res by (auto simp: restored_def)
  show "True \<notin> set (map (\<lambda>d. decode_xl d (PathBuf False (q @ [XL_META])) = None) ds)"
    using res by (auto simp: restored_def in_set_conv_nth)
qed

lemma serving_after_loss:
  assumes len: "length es = codec_total c" and res: "\<forall>i < codec_total c. serves E c blocks part (ds ! i) i"
    and lost: "card {i. i < n \<and> es ! i \<noteq> ds ! i} \<le> cd_parity c" and n: "n = codec_total c"
  shows "cd_data c \<le> serving E c blocks part es"
proof -
  let ?lost = "{i. i < codec_total c \<and> es ! i \<noteq> ds ! i}"
  have "{0 ..< codec_total c} - ?lost \<subseteq> {i. i < length es \<and> serves E c blocks part (es ! i) i}"
    using res len by auto
  then have "card ({0 ..< codec_total c} - ?lost) \<le> serving E c blocks part es"
    unfolding serving_def by (intro card_mono) auto
  moreover have "card ({0 ..< codec_total c} - ?lost) = codec_total c - card ?lost"
    by (subst card_Diff_subset) auto
  ultimately show ?thesis using lost n by (simp add: codec_total_def)
qed

end
