(* ===== verification/Store_Instances.thy ===== *)
theory Store_Instances
  imports Store_Safety
begin

text \<open>
  Concrete stores on which the properties of the object store are applied: three drives with one
  empty bucket, over the exclusive-or code (two data shards and one parity shard) or over the
  mirroring code (one data shard and two parity shards).
\<close>

section \<open>The mirroring code\<close>

definition mirror_encode :: "nat \<Rightarrow> bytes list \<Rightarrow> bytes list option" where
  "mirror_encode m xs = (case xs of d # zs \<Rightarrow> Some (d # map (\<lambda>_. d) zs) | [] \<Rightarrow> None)"

definition mirror_reconstruct :: "bytes option list \<Rightarrow> bytes option list option" where
  "mirror_reconstruct xs = (case first_some id xs of Some d \<Rightarrow> Some (map (\<lambda>_. Some d) xs) | None \<Rightarrow> None)"

definition rs_mirror :: rs_lib where
  "rs_mirror =
     \<lparr> rs_new = (\<lambda>k m. k = 1 \<and> 0 < m),
       rs_encode = (\<lambda>k m xs. mirror_encode m xs),
       rs_reconstruct = (\<lambda>k m xs. mirror_reconstruct xs) \<rparr>"

lemma rs_laws_mirror: "0 < m \<Longrightarrow> m \<le> 255 \<Longrightarrow> rs_laws rs_mirror 1 m"
proof -
  assume m: "0 < m" "m \<le> 255"
  have "\<exists>ps. rs_encode rs_mirror 1 m (ds @ zs) = Some (ds @ ps) \<and> length ps = m \<and> (\<forall>s \<in> set ps. length s = n) \<and>
     (\<forall>xs. agrees xs (ds @ ps) \<longrightarrow> 1 \<le> present xs \<longrightarrow> rs_reconstruct rs_mirror 1 m xs = Some (map Some (ds @ ps)))"
    if "length ds = 1" "length zs = m" "\<forall>s \<in> set (ds @ zs). length s = n" for n and ds zs :: "bytes list"
  proof -
    from that(1) obtain d where ds: "ds = [d]" by (auto simp: length_Suc_conv)
    let ?ps = "replicate m d"
    have enc: "rs_encode rs_mirror 1 m (ds @ zs) = Some (ds @ ?ps)"
      using that(2) by (simp add: rs_mirror_def mirror_encode_def ds map_replicate_const)
    have rec: "rs_reconstruct rs_mirror 1 m xs = Some (map Some (ds @ ?ps))"
      if ag: "agrees xs (ds @ ?ps)" and pr: "1 \<le> present xs" for xs
    proof -
      have all: "ds @ ?ps = replicate (Suc m) d" by (simp add: ds)
      from ag have len: "length xs = Suc m" and el: "\<forall>x \<in> set xs. x = None \<or> x = Some d"
        unfolding all agrees_nth by (auto simp: in_set_conv_nth simp del: replicate_Suc)
      have "\<exists>x \<in> set xs. x \<noteq> None"
      proof (rule ccontr)
        assume "\<not> (\<exists>x \<in> set xs. x \<noteq> None)"
        then have "filter (\<lambda>x. x \<noteq> None) xs = []" by (simp add: filter_empty_conv)
        with pr show False by (simp only: present_def list.size)
      qed
      then have "first_some id xs = Some d" using el by (intro first_some_unique) auto
      then show ?thesis
        using len by (simp add: rs_mirror_def mirror_reconstruct_def ds map_replicate_const)
    qed
    show ?thesis
      using enc rec that(3) ds by (intro exI [of _ ?ps]) auto
  qed
  with m show ?thesis by (simp add: rs_laws_def) (simp add: rs_mirror_def)
qed

section \<open>Environments and stores\<close>

definition ex_env :: "rs_lib \<Rightarrow> store_env" where
  "ex_env L = \<lparr> ev_rs = L, ev_blake3 = (\<lambda>x. x), ev_md5 = (\<lambda>x. x), ev_crypto = plain_lib,
     ev_provider = file_provider plain_lib plain_keys \<rparr>"

definition ex_ctx :: "string \<Rightarrow> call_ctx" where
  "ex_ctx uuid = \<lparr> cx_now = 1000, cx_uuid = uuid, cx_entropy = plain_entropy, cx_opaque_etag = ''opaque'',
     cx_access_key = Some ''alice'', cx_remote_ip = None \<rparr>"

definition ex_drive :: "string \<Rightarrow> drive" where
  "ex_drive name = drive_new [name] [([name], Dir), ([name, ''bkt''], Dir)]"

definition ex_store :: "nat \<Rightarrow> nat \<Rightarrow> store" where
  "ex_store k m = \<lparr> st_drives = map ex_drive [''d0'', ''d1'', ''d2''],
     st_codec = \<lparr> cd_data = k, cd_parity = m \<rparr>, st_block_size = 2, st_encrypt_all = False \<rparr>"

lemma ex_drive_wf: "drive_wf (ex_drive name) \<longleftrightarrow> name \<noteq> ''..''"
  by (auto simp: drive_wf_def ex_drive_def drive_new_def wf_fs_def lookup_def split: if_splits)

lemma ex_store_ok:
  assumes "rs_laws L k m" "k + m = 3"
  shows "store_ok (ex_env L) (ex_store k m)"
  using assms by (simp add: store_ok_def ex_env_def ex_store_def codec_ok_def codec_total_def ex_drive_wf)

lemma xor_store_ok: "store_ok (ex_env rs_xor) (ex_store 2 1)"
  using ex_store_ok [OF rs_laws_xor] by simp

lemma mirror_store_ok: "store_ok (ex_env rs_mirror) (ex_store 1 2)"
  using ex_store_ok [OF rs_laws_mirror] by simp

lemma byte_lt: "unat (x :: byte) < 256"
  using unsigned_less [of x] by simp

lemma hex_encode_inj: "hex_encode a = hex_encode b \<Longrightarrow> a = b"
proof -
  have digit: "digit_char (unat x div 16) = digit_char (unat y div 16) \<Longrightarrow>
    digit_char (unat x mod 16) = digit_char (unat y mod 16) \<Longrightarrow> x = y" for x y :: byte
  proof -
    have val: "(of_char (digit_char k) :: nat) = (if k < 10 then 48 + k else 87 + k)" if "k < 16" for k
      using that by (auto simp: digit_char_def)
    have inj: "m = n" if "m < 16" "n < 16" "digit_char m = digit_char n" for m n :: nat
    proof -
      have "(if m < 10 then 48 + m else 87 + m) = (if n < 10 then 48 + n else 87 + n)"
        using val [OF that(1)] val [OF that(2)] arg_cong [OF that(3), of "of_char :: char \<Rightarrow> nat"] by (simp only:)
      with that(1,2) show ?thesis by (simp split: if_splits)
    qed
    assume "digit_char (unat x div 16) = digit_char (unat y div 16)"
      "digit_char (unat x mod 16) = digit_char (unat y mod 16)"
    moreover have "unat x div 16 < 16" "unat y div 16 < 16"
      by (auto intro: less_mult_imp_div_less simp: byte_lt)
    ultimately have "unat x div 16 = unat y div 16" "unat x mod 16 = unat y mod 16"
      using inj by simp_all
    then show "x = y" by (metis div_mult_mod_eq word_unat_eq_iff)
  qed
  show "hex_encode a = hex_encode b \<Longrightarrow> a = b"
  proof (induction a arbitrary: b)
    case Nil
    then show ?case by (cases b) (auto simp: hex_encode_def hex_byte_def)
  next
    case (Cons x xs)
    then obtain y ys where b: "b = y # ys" by (cases b) (auto simp: hex_encode_def hex_byte_def)
    with Cons.prems have "digit_char (unat x div 16) = digit_char (unat y div 16)"
      "digit_char (unat x mod 16) = digit_char (unat y mod 16)" "hex_encode xs = hex_encode ys"
      by (simp_all add: hex_encode_def hex_byte_def)
    with digit Cons.IH b show ?case by blast
  qed
qed

text \<open>With the identity as a digest every damage is detected.\<close>

lemma ex_detects: "bitrot_detected (ex_env L) c blocks part d i"
  by (auto simp: bitrot_detected_def ex_env_def checksum_def dest: hex_encode_inj)

end
