(* ===== verification/Store_Props.thy ===== *)
theory Store_Props
  imports Store_Instances Store_Frame
begin

text \<open>
  The properties of single objects in the erasure store, each with its instance on a concrete store.
\<close>

section \<open>Durability\<close>

text \<open>
  C1: an object put into an unversioned bucket from a body that does not fail is read back, byte for
  byte and with the metadata the put returned, when the put succeeded: plain, or encrypted with a key
  provider that keeps its contract, whatever faults the drives had during the put, and after any loss or damage to the drives as long as as many
  drives as there are data shards still serve their copy and the checksums reveal the damage.  The
  object may be new or replace an older one, provided that every drive that held readable metadata of
  the older one takes the write (it fails nothing and has nothing in its way): a drive that kept the
  old metadata may win the read, as shown below for stale copies.
\<close>

theorem put_then_get:
  assumes "store_ok E st" and "validate_bucket_name b = Ok ()" and "vmode (st_drives st) b = Off"
    and "all_replaced st b k" and "should_encrypt st enc \<Longrightarrow> can_encrypt E C"
    and "put_object E C st b k (Body p False) ct um enc = (st', Ok om)"
    and "survives E st b k (stored_payload E C (should_encrypt st enc) p) (st_drives st') ds'"
    and "cd_data (st_codec st) \<le> card (good_copies E st b k (stored_payload E C (should_encrypt st enc) p) ds')"
  shows "get_object E ds' b k = Ok (om, Body p False) \<and> om_size om = length p"
proof -
  let ?e = "should_encrypt st enc"
  let ?s = "stored_payload E C ?e p"
  let ?m = "new_meta E C st ?s ct um ?e None"
  note put = put_unversioned [OF assms(3,6)]
  have names: "valid_names b k" using assms(2) put(3) by (rule valid_names_validated)
  note got = get_after_write [OF assms(1) names assms(4) put(2) assms(7,8)]
  have om: "om = meta_to_object k ?m" by (rule write_ok(2) [OF assms(1) names put(2)])
  have bs: "0 < st_block_size st" using assms(1) by (simp add: store_ok_def)
  show ?thesis
  proof (cases ?e)
    case True
    have "encrypt_source E C True (Body p False) = Ok (Body ?s False)" using put(1) True by simp
    note dec = decrypts_stored [OF this assms(5) [OF True]]
    from True dec got om show ?thesis
      by (simp add: get_object_def object_body_def meta_to_object_def new_meta_size [OF bs])
  next
    case False
    then have "?s = p" by (simp add: stored_payload_def encrypt_source_def)
    with False got om show ?thesis
      by (simp add: get_object_def object_body_def meta_to_object_def new_meta_size [OF bs])
  qed
qed


definition ex_put :: "store \<times> object_meta result" where
  "ex_put = put_object (ex_env rs_xor) (ex_ctx ''u1'') (ex_store 2 1) ''bkt'' ''k'' (Body [1, 2, 3] False)
     ''text/plain'' [] False"

definition ex_lost :: "drive list" where
  "ex_lost = (st_drives (fst ex_put))[1 := ex_drive ''d1'']"

lemma ex_put_ok: "is_ok (snd ex_put)"
  by code_simp

lemma ex_put_run:
  obtains om where "put_object (ex_env rs_xor) (ex_ctx ''u1'') (ex_store 2 1) ''bkt'' ''k''
    (Body [1, 2, 3] False) ''text/plain'' [] False = (fst ex_put, Ok om)"
  using ex_put_ok by (cases "snd ex_put") (auto simp: ex_put_def prod_eq_iff)

lemma put_keeps_store:
  assumes "store_ok E st" "validate_bucket_name b = Ok ()" "vmode (st_drives st) b = Off"
    and "put_object E C st b k (Body p False) ct um enc = (st', Ok om)"
  shows "store_ok E st'" and "\<forall>d \<in> set (st_drives st). healthy d \<Longrightarrow> \<forall>d \<in> set (st_drives st'). healthy d"
proof -
  note put = put_unversioned [OF assms(3,4)]
  have names: "valid_names b k" using assms(2) put(3) by (rule valid_names_validated)
  note len = length_write_drives [OF assms(1) names put(2)] and w = write_ok_drives [OF assms(1) names put(2)]
  show "store_ok E st'"
    using assms(1) len w(1) by (auto simp: store_ok_def in_set_conv_nth)
  show "\<forall>d \<in> set (st_drives st'). healthy d" if h: "\<forall>d \<in> set (st_drives st). healthy d"
  proof
    fix d assume "d \<in> set (st_drives st')"
    then obtain i where "i < length (st_drives st)" "d = st_drives st' ! i"
      using len by (auto simp: in_set_conv_nth)
    with h w(2) show "healthy d" by (metis healthy_env nth_mem)
  qed
qed

lemma ex_healthy: "\<forall>d \<in> set (st_drives (ex_store k m)). healthy d"
  by (simp add: ex_store_def healthy_def ex_drive_def drive_new_def)

text \<open>The object is overwritten, and then a drive is lost.\<close>

definition ex_over :: "store \<times> object_meta result" where
  "ex_over = put_object (ex_env rs_xor) (ex_ctx ''u3'') (fst ex_put) ''bkt'' ''k'' (Body [4, 5, 6] False)
     ''text/plain'' [] False"

definition ex_over_lost :: "drive list" where
  "ex_over_lost = (st_drives (fst ex_over))[1 := ex_drive ''d1'']"

lemma ex_over_ok: "is_ok (snd ex_over)"
  by code_simp

lemma ex_over_run:
  obtains om where "put_object (ex_env rs_xor) (ex_ctx ''u3'') (fst ex_put) ''bkt'' ''k''
    (Body [4, 5, 6] False) ''text/plain'' [] False = (fst ex_over, Ok om)" "snd ex_over = Ok om"
  using ex_over_ok by (cases "snd ex_over") (auto simp: ex_over_def prod_eq_iff)

lemma ex_put_kept: "store_ok (ex_env rs_xor) (fst ex_put)" "\<forall>d \<in> set (st_drives (fst ex_put)). healthy d"
  "st_codec (fst ex_put) = \<lparr> cd_data = 2, cd_parity = 1 \<rparr>" "st_block_size (fst ex_put) = 2"
proof -
  obtain om where run: "put_object (ex_env rs_xor) (ex_ctx ''u1'') (ex_store 2 1) ''bkt'' ''k''
    (Body [1, 2, 3] False) ''text/plain'' [] False = (fst ex_put, Ok om)" by (rule ex_put_run)
  have v: "validate_bucket_name ''bkt'' = Ok ()" "vmode (st_drives (ex_store 2 1)) ''bkt'' = Off"
    by code_simp+
  show "store_ok (ex_env rs_xor) (fst ex_put)" "\<forall>d \<in> set (st_drives (fst ex_put)). healthy d"
    using put_keeps_store [OF xor_store_ok v run] ex_healthy by blast+
  have names: "valid_names ''bkt'' ''k''" by code_simp
  show "st_codec (fst ex_put) = \<lparr> cd_data = 2, cd_parity = 1 \<rparr>" "st_block_size (fst ex_put) = 2"
    using length_write_drives(2,3) [OF xor_store_ok names put_unversioned(2) [OF v(2) run]]
    by (simp_all add: ex_store_def)
qed

lemma ex_put_replaceable: "all_replaced (fst ex_put) ''bkt'' ''k''"
proof -
  have "\<forall>d \<in> set (st_drives (fst ex_put)). (\<forall>r \<in> set (prefixes (obj_path ''bkt'' ''k'')). look d r = None \<or> look d r = Some Dir) \<and>
    look d (obj_path ''bkt'' ''k'' @ [PART_TMP]) \<noteq> Some Dir \<and> look d (obj_path ''bkt'' ''k'' @ [PART]) \<noteq> Some Dir \<and>
    look d (obj_path ''bkt'' ''k'' @ [XL_META]) \<noteq> Some Dir"
    by code_simp
  then show ?thesis
    using ex_put_kept(2) by (auto simp: all_replaced_def takers_def clear_for_def)
qed

lemma ex_over_lost_survives:
  "survives (ex_env rs_xor) (fst ex_put) ''bkt'' ''k'' [4, 5, 6] (st_drives (fst ex_over)) ex_over_lost"
proof -
  have len: "length (st_drives (fst ex_over)) = 3" by code_simp
  have gone: "decode_xl (ex_drive ''d1'') (PathBuf False (obj_path ''bkt'' ''k'' @ [XL_META])) = None"
    by code_simp
  show ?thesis
    using gone by (simp add: survives_def ex_detects len ex_over_lost_def nth_list_update)
qed

lemma ex_over_lost_good:
  "{0, 2} \<subseteq> good_copies (ex_env rs_xor) (fst ex_put) ''bkt'' ''k'' [4, 5, 6] ex_over_lost"
proof -
  have "\<forall>i \<in> {0, 2}. i < length ex_over_lost \<and>
    decode_xl (ex_over_lost ! i) (PathBuf False (obj_path ''bkt'' ''k'' @ [XL_META])) \<noteq> None \<and>
    serves (ex_env rs_xor) \<lparr> cd_data = 2, cd_parity = 1 \<rparr> (split_blocks 2 [4, 5, 6])
      (PathBuf False (obj_path ''bkt'' ''k'' @ [PART])) (ex_over_lost ! i) i"
    by code_simp
  then show ?thesis by (auto simp: good_copies_def ex_put_kept)
qed

theorem put_then_get_witness:
  "\<exists>om. snd ex_over = Ok om \<and> get_object (ex_env rs_xor) ex_over_lost ''bkt'' ''k'' = Ok (om, Body [4, 5, 6] False)"
proof -
  obtain om where run: "put_object (ex_env rs_xor) (ex_ctx ''u3'') (fst ex_put) ''bkt'' ''k''
    (Body [4, 5, 6] False) ''text/plain'' [] False = (fst ex_over, Ok om)" and om: "snd ex_over = Ok om"
    by (rule ex_over_run)
  have plain: "\<not> should_encrypt (fst ex_put) False" by code_simp
  have stored: "stored_payload (ex_env rs_xor) (ex_ctx ''u3'') False [4, 5, 6] = [4, 5, 6]"
    by (simp add: stored_payload_def encrypt_source_def)
  have "card {0, 2 :: nat} \<le> card (good_copies (ex_env rs_xor) (fst ex_put) ''bkt'' ''k'' [4, 5, 6] ex_over_lost)"
    by (intro card_mono ex_over_lost_good) (simp add: good_copies_def)
  then have good: "cd_data (st_codec (fst ex_put)) \<le>
    card (good_copies (ex_env rs_xor) (fst ex_put) ''bkt'' ''k'' [4, 5, 6] ex_over_lost)"
    by (simp add: ex_put_kept)
  have hyps: "validate_bucket_name ''bkt'' = Ok ()" "vmode (st_drives (fst ex_put)) ''bkt'' = Off"
    by code_simp+
  have "get_object (ex_env rs_xor) ex_over_lost ''bkt'' ''k'' = Ok (om, Body [4, 5, 6] False)"
    using put_then_get [OF ex_put_kept(1) hyps ex_put_replaceable _ run, of ex_over_lost] plain ex_over_lost_survives good stored
    by simp
  with om show ?thesis by blast
qed

section \<open>Stale copies\<close>

lemma slot_appends_closed: "\<not> sl_open s \<Longrightarrow> slot_appends tmp b s xs = s"
  by (induction xs arbitrary: b) (simp_all add: slot_append_def)

lemma slot_run_refused:
  assumes "drv_fault d OpMkdir dir"
  shows "\<not> sl_ok (slot_run dir xs c d)"
proof -
  have "\<not> snd (drive_create_dir_all d dir)" using assms by (simp add: drive_create_dir_all_def)
  then have "\<not> sl_ok (slot_prepare dir tmp d) \<and> \<not> sl_open (slot_prepare dir tmp d)" for tmp
    by (cases "drive_create_dir_all d dir") (simp add: slot_prepare_def)
  then show ?thesis
    by (simp add: slot_run_def slot_appends_closed slot_finish_def slot_publish_def slot_meta_def)
qed

text \<open>
  C35: a drive that was out of reach of an overwrite wins the reads afterwards.  When the first drive
  holds metadata of an object and refuses the directory of the overwriting put, the put of an
  unversioned object still succeeds with the other drives, but the object reads with the old metadata,
  as if the put had not happened.
\<close>

theorem stale_copy_wins:
  assumes "store_ok E st" and "validate_bucket_name b = Ok ()" and "vmode (st_drives st) b = Off"
    and "put_object E C st b k (Body p False) ct um enc = (st', Ok om)"
    and "st_drives st = d # ds" and "drv_fault d OpMkdir (r_object b k)"
    and "decode_xl d (pjoin (r_object b k) XL_META) = Some m"
  shows "head_object (st_drives st') b k = Ok (meta_to_object k m)"
proof -
  let ?q = "obj_path b k" and ?e = "should_encrypt st enc"
  note put = put_unversioned [OF assms(3,4)]
  have names: "valid_names b k" using assms(2) put(3) by (rule valid_names_validated)
  have n: "0 < codec_total (st_codec st)" using assms(1,5) by (auto simp: store_ok_def)
  let ?s = "final_slots E C st (PathBuf False ?q) (stored_payload E C ?e p) ct um ?e None ! 0"
  have slot: "slot_done d ?q (concat (slot_shards E (st_codec st) (split_blocks (st_block_size st) (stored_payload E C ?e p)) 0))
      (XlDoc (new_meta E C st (stored_payload E C ?e p) ct um ?e None)) ?s"
    using final_slots_nth [OF assms(1) n obj_path_safe [OF names]] assms(5) by simp
  moreover have "\<not> sl_ok ?s"
    using slot_run_refused [OF assms(6)] n assms(5) by (simp add: final_slots_def Let_def r_object_path [OF names])
  ultimately have same: "look (sl_drive ?s) (?q @ [XL_META]) = look d (?q @ [XL_META])" "drive_wf (sl_drive ?s)"
    "same_env d (sl_drive ?s)" by (auto simp: slot_done_def)
  have wf: "drive_wf d" using assms(1,5) by (simp add: store_ok_def)
  have path: "pjoin (r_object b k) XL_META = PathBuf False (?q @ [XL_META])"
    using obj_files(1) [OF names] by (simp add: r_obj_v_def)
  have old: "decode_xl (sl_drive ?s) (PathBuf False (?q @ [XL_META])) = Some m"
    using assms(7) same_file_read(1) [OF wf same(2,3) _ obj_files(3) [OF names]] same(1)
    by (simp add: path decode_xl_def same_file_def)
  have "st_drives st' \<noteq> []"
    using length_write_drives(1) [OF assms(1) names put(2)] assms(5) by (metis length_0_conv list.distinct(1))
  moreover have "st_drives st' ! 0 = sl_drive ?s"
    using write_ok(1) [OF assms(1) names put(2)] n by simp
  ultimately have "first_some (\<lambda>d. decode_xl d (PathBuf False (?q @ [XL_META]))) (st_drives st') = Some m"
    using old by (cases "st_drives st'") simp_all
  then show ?thesis
    by (simp add: head_object_def read_xl_def read_xl_v_def obj_files(1) [OF names])
qed

text \<open>The first drive was full when the object was overwritten.\<close>

definition ex_mirrored :: "store \<times> object_meta result" where
  "ex_mirrored = put_object (ex_env rs_mirror) (ex_ctx ''u1'') (ex_store 1 2) ''bkt'' ''k''
     (Body [1, 2, 3] False) ''text/plain'' [] False"

definition ex_full :: "drive \<Rightarrow> drive" where
  "ex_full d = d\<lparr>drv_fault := (\<lambda>op p. op = OpMkdir)\<rparr>"

definition ex_degraded :: store where
  "ex_degraded = (case st_drives (fst ex_mirrored) of
     d # ds \<Rightarrow> (fst ex_mirrored)\<lparr>st_drives := ex_full d # ds\<rparr> | [] \<Rightarrow> fst ex_mirrored)"

definition ex_overwrite :: "store \<times> object_meta result" where
  "ex_overwrite = put_object (ex_env rs_mirror) (ex_ctx ''u2'') ex_degraded ''bkt'' ''k''
     (Body [4, 5] False) ''text/plain'' [] False"

theorem stale_copy_wins_witness:
  "\<exists>new old. snd ex_overwrite = Ok new \<and> om_size new = 2 \<and>
     head_object (st_drives (fst ex_overwrite)) ''bkt'' ''k'' = Ok old \<and> om_size old = 3"
proof -
  have ok: "store_ok (ex_env rs_mirror) ex_degraded"
  proof -
    have v: "validate_bucket_name ''bkt'' = Ok ()" "vmode (st_drives (ex_store 1 2)) ''bkt'' = Off" "is_ok (snd ex_mirrored)"
      by code_simp+
    then obtain om where "put_object (ex_env rs_mirror) (ex_ctx ''u1'') (ex_store 1 2) ''bkt'' ''k''
      (Body [1, 2, 3] False) ''text/plain'' [] False = (fst ex_mirrored, Ok om)"
      by (cases "snd ex_mirrored") (auto simp: ex_mirrored_def prod_eq_iff)
    from put_keeps_store(1) [OF mirror_store_ok v(1,2) this] show ?thesis
      by (auto simp: store_ok_def ex_degraded_def ex_full_def drive_wf_def split: list.splits)
  qed
  have v: "validate_bucket_name ''bkt'' = Ok ()" "vmode (st_drives ex_degraded) ''bkt'' = Off" by code_simp+
  have size: "case snd ex_overwrite of Ok om \<Rightarrow> om_size om = 2 | Err _ \<Rightarrow> False" by code_simp
  then obtain new where new: "snd ex_overwrite = Ok new" "om_size new = 2" by (auto split: sum.splits)
  then have run: "put_object (ex_env rs_mirror) (ex_ctx ''u2'') ex_degraded ''bkt'' ''k''
      (Body [4, 5] False) ''text/plain'' [] False = (fst ex_overwrite, Ok new)"
    by (simp add: ex_overwrite_def prod_eq_iff)
  have "case st_drives ex_degraded of d # ds \<Rightarrow>
      (case decode_xl d (pjoin (r_object ''bkt'' ''k'') XL_META) of Some m \<Rightarrow> xm_size m = 3 | None \<Rightarrow> False) \<and>
      drv_fault d OpMkdir (r_object ''bkt'' ''k'') | [] \<Rightarrow> False" by code_simp
  then obtain d ds m where d: "st_drives ex_degraded = d # ds" "drv_fault d OpMkdir (r_object ''bkt'' ''k'')"
      "decode_xl d (pjoin (r_object ''bkt'' ''k'') XL_META) = Some m" and m: "xm_size m = 3"
    by (auto split: list.splits option.splits)
  from stale_copy_wins [OF ok v run d] new m show ?thesis by (auto simp: meta_to_object_def)
qed

section \<open>The write quorum\<close>

definition holders ::
  "store_env \<Rightarrow> store \<Rightarrow> xl_meta \<Rightarrow> bytes \<Rightarrow> path \<Rightarrow> drive list \<Rightarrow> nat set" where
  "holders E st m stored q ds =
     {i. i < length ds \<and> holds_copy E st m (split_blocks (st_block_size st) stored) q (ds ! i) i}"

lemma count_ok_card: "count_ok slots = card {i. i < length slots \<and> sl_ok (slots ! i)}"
  by (simp add: count_ok_def length_filter_conv_card)

lemma final_slots_counts:
  fixes E C st p ct um encrypted ov
  assumes ok: "store_ok E st" and names: "valid_names b k"
  defines "q \<equiv> obj_path b k"
    and "slots \<equiv> final_slots E C st (PathBuf False (obj_path b k)) p ct um encrypted ov"
  shows "card (takers st q) \<le> count_ok slots"
    and "count_ok slots \<le> card (holders E st (new_meta E C st p ct um encrypted ov) p q (map sl_drive slots))"
    and "i < length (st_drives st) \<Longrightarrow> healthy (st_drives st ! i) \<Longrightarrow> strict_prefix q r \<Longrightarrow>
      look (fst (drive_remove_dir_all (sl_drive (slots ! i)) (PathBuf False q))) r = None"
proof -
  have safe: "safe q" "q \<noteq> []" using obj_path_safe [OF names] by (simp_all add: q_def)
  have n: "length slots = codec_total (st_codec st)" "length (st_drives st) = codec_total (st_codec st)"
    using ok by (simp_all add: slots_def store_ok_def)
  have fin: "slot_done (st_drives st ! i) q
    (concat (slot_shards E (st_codec st) (split_blocks (st_block_size st) p) i))
    (XlDoc (new_meta E C st p ct um encrypted ov)) (slots ! i)" if "i < codec_total (st_codec st)" for i
    using final_slots_nth [OF ok that safe(1)] by (simp add: slots_def q_def)
  have "takers st q \<subseteq> {i. i < length slots \<and> sl_ok (slots ! i)}"
    using final_slots_healthy [OF ok _ safe] n by (auto simp: takers_def slots_def q_def)
  then show "card (takers st q) \<le> count_ok slots"
    unfolding count_ok_card by (intro card_mono) auto
  have "{i. i < length slots \<and> sl_ok (slots ! i)} \<subseteq>
      holders E st (new_meta E C st p ct um encrypted ov) p q (map sl_drive slots)"
    using fin n by (auto simp: holders_def holds_copy_def slot_done_def)
  then show "count_ok slots \<le> card (holders E st (new_meta E C st p ct um encrypted ov) p q (map sl_drive slots))"
    unfolding count_ok_card by (intro card_mono) (auto simp: holders_def)
  show "look (fst (drive_remove_dir_all (sl_drive (slots ! i)) (PathBuf False q))) r = None"
    if i: "i < length (st_drives st)" and h: "healthy (st_drives st ! i)" and r: "strict_prefix q r"
  proof -
    let ?d = "sl_drive (slots ! i)"
    have wf: "drive_wf ?d" and env: "same_env (st_drives st ! i) ?d"
      using fin [of i] i n by (simp_all add: slot_done_def)
    note rm = drive_remove_dir_all_eq(1) [OF wf safe]
    show ?thesis
    proof (cases "look ?d q = Some Dir")
      case True
      with healthy_env [OF env h] have "removable_dir ?d q" by (simp add: removable_dir_def healthy_def)
      with rm r show ?thesis by (simp add: strict_prefix_def)
    next
      case False
      then have "\<not> removable_dir ?d q" by (simp add: removable_dir_def)
      with rm look_below_file [OF wf False r] show ?thesis by simp
    qed
  qed
qed

text \<open>
  C2: the outcome of a put into an existing unversioned bucket under valid names, whatever its body and
  whatever fails.  The stream that is written is the body, or its container when the put is encrypted.
  When the body cannot be encrypted, nothing changes.  When reading the stream fails in the middle, the
  put is refused and no object reads differently afterwards, in particular not the one the put would
  have replaced.  (The container of a body that fails is short but does not itself fail, so an encrypted
  put of such a body falls under the last case.)  Otherwise the write quorum is exact: the put succeeds whenever
  \<open>K + 1\<close> drives fail nothing and have nothing in the way; when it succeeds, at least \<open>K + 1\<close> drives
  hold the complete copy (so one more loss is tolerated than reading needs); and when it fails, every
  healthy drive is left with nothing below the object's directory, not even an older version of it.
\<close>

theorem write_quorum_exact:
  assumes "store_ok E st" and "validate_bucket_name b = Ok ()" and "validate_key k = Ok ()"
    and "head_bucket (st_drives st) b = Ok ()" and "vmode (st_drives st) b = Off"
    and "put_object E C st b k body ct um enc = (st', r)"
  shows "case encrypt_source E C (should_encrypt st enc) body of
      Err e \<Rightarrow> r = Err e \<and> st' = st
    | Ok (Body p True) \<Rightarrow> r = Err (Internal ''read body'') \<and>
        (\<forall>b2 k2. valid_names b2 k2 \<longrightarrow>
           get_object E (st_drives st') b2 k2 = get_object E (st_drives st) b2 k2)
    | Ok (Body p False) \<Rightarrow>
        (cd_data (st_codec st) + 1 \<le> card (takers st (obj_path b k)) \<longrightarrow> is_ok r) \<and>
        (is_ok r \<longrightarrow> cd_data (st_codec st) + 1 \<le>
           card (holders E st (new_meta E C st p ct um (should_encrypt st enc) None) p (obj_path b k) (st_drives st'))) \<and>
        (\<not> is_ok r \<longrightarrow> (\<forall>i < length (st_drives st). healthy (st_drives st ! i) \<longrightarrow>
           (\<forall>f. strict_prefix (obj_path b k) f \<longrightarrow> look (st_drives st' ! i) f = None)))"
proof (cases "encrypt_source E C (should_encrypt st enc) body")
  case (Inl e)
  then show ?thesis using assms(3-6) by (simp add: put_object_def Let_def)
next
  case (Inr src)
  have names: "valid_names b k" by (rule valid_names_validated [OF assms(2,3)])
  obtain p f where src: "src = Body p f" by (cases src)
  have wr: "write_sharded E C st b k (Body p f) ct um (should_encrypt st enc) None = (st', r)"
    using assms(3-6) Inr src by (simp add: put_object_def Let_def)
  show ?thesis
  proof (cases f)
    case True
    then have "write_sharded E C st b k (Body p True) ct um (should_encrypt st enc) None = (st', r)"
      using wr by simp
    note fail = write_failing_body [OF assms(1) names this]
    have "get_object E (st_drives st') b2 k2 = get_object E (st_drives st) b2 k2" if "valid_names b2 k2" for b2 k2
      using get_object_alike(2) [OF that fail(2) [symmetric]] fail(3) by simp
    with fail(1) True show ?thesis by (simp add: Inr src)
  next
    case False
    note cnt = final_slots_counts [OF assms(1) names, where C = C and p = p and ct = ct and um = um
        and encrypted = "should_encrypt st enc" and ov = None]
    have n: "length (st_drives st) = codec_total (st_codec st)" using assms(1) by (simp add: store_ok_def)
    show ?thesis
      using write_sharded_eq [OF assms(1), of C b k p ct um "should_encrypt st enc" None] wr cnt n
      by (auto simp: Let_def r_object_path [OF names] Inr src False split: if_splits)
  qed
qed

text \<open>A put that reaches its quorum, and one whose body breaks off after two bytes.\<close>

definition ex_cut :: "store \<times> object_meta result" where
  "ex_cut = put_object (ex_env rs_xor) (ex_ctx ''u4'') (fst ex_put) ''bkt'' ''k'' (Body [7, 8] True)
     ''text/plain'' [] False"

theorem write_quorum_exact_witness:
  "3 \<le> card (holders (ex_env rs_xor) (ex_store 2 1)
     (new_meta (ex_env rs_xor) (ex_ctx ''u1'') (ex_store 2 1) [1, 2, 3] ''text/plain'' [] False None)
     [1, 2, 3] (obj_path ''bkt'' ''k'') (st_drives (fst ex_put))) \<and>
   snd ex_cut = Err (Internal ''read body'') \<and>
   get_object (ex_env rs_xor) (st_drives (fst ex_cut)) ''bkt'' ''k''
     = get_object (ex_env rs_xor) (st_drives (fst ex_put)) ''bkt'' ''k''"
proof -
  have hyps: "validate_bucket_name ''bkt'' = Ok ()" "validate_key ''k'' = Ok ()"
    "head_bucket (st_drives (ex_store 2 1)) ''bkt'' = Ok ()" "vmode (st_drives (ex_store 2 1)) ''bkt'' = Off"
    "head_bucket (st_drives (fst ex_put)) ''bkt'' = Ok ()" "vmode (st_drives (fst ex_put)) ''bkt'' = Off"
    "valid_names ''bkt'' ''k''" "should_encrypt (fst ex_put) False = False"
    by code_simp+
  have noenc: "should_encrypt (ex_store 2 1) False = False" by (simp add: should_encrypt_def ex_store_def)
  have plain: "encrypt_source E C False body = Ok body" for E C body by (simp add: encrypt_source_def)
  have k: "cd_data (st_codec (ex_store 2 1)) + 1 = 3" by (simp add: ex_store_def)
  have run: "put_object (ex_env rs_xor) (ex_ctx ''u1'') (ex_store 2 1) ''bkt'' ''k''
    (Body [1, 2, 3] False) ''text/plain'' [] False = (fst ex_put, snd ex_put)" by (simp add: ex_put_def)
  have cut: "put_object (ex_env rs_xor) (ex_ctx ''u4'') (fst ex_put) ''bkt'' ''k'' (Body [7, 8] True)
     ''text/plain'' [] False = (fst ex_cut, snd ex_cut)" by (simp add: ex_cut_def)
  show ?thesis
    using write_quorum_exact [OF xor_store_ok hyps(1-4) run]
      write_quorum_exact [OF ex_put_kept(1) hyps(1,2,5,6) cut] ex_put_ok hyps(7)
    unfolding noenc plain k hyps(8) by simp
qed

section \<open>Isolation\<close>

text \<open>
  C24: a put into an unversioned bucket, of any body and with any drive faults, changes no read of
  another object: \<open>get_object\<close> of every key with another path, in any bucket, returns afterwards what it
  returned before, when the put succeeds; and when it fails, of every key whose path does not lie
  below the put's own (the rollback of a failed put removes the whole directory of its key).
\<close>

theorem put_isolated:
  assumes "store_ok E st" and "validate_bucket_name b = Ok ()" and "vmode (st_drives st) b = Off"
    and "put_object E C st b k body ct um enc = (st', r)"
    and "valid_names b2 k2" and "obj_path b2 k2 \<noteq> obj_path b k"
    and "is_ok r \<or> \<not> prefix (obj_path b k) (obj_path b2 k2)"
  shows "get_object E (st_drives st') b2 k2 = get_object E (st_drives st) b2 k2"
proof (cases "st' = st")
  case False
  then obtain src where wr: "write_sharded E C st b k src ct um (should_encrypt st enc) None = (st', r)"
    and v: "validate_key k = Ok ()"
    using assms(3,4) by (auto simp: put_object_def Let_def split: sum.splits if_splits)
  have names: "valid_names b k" using assms(2) v by (rule valid_names_validated)
  note al = write_any_alike [OF assms(1) names wr assms(6,7)]
  show ?thesis
    using get_object_alike(2) [OF assms(5) al(1) [symmetric]] al(2) by simp
qed simp

text \<open>One put succeeds, another breaks off, and a third misses its quorum.\<close>

definition ex_refused :: "store \<times> object_meta result" where
  "ex_refused = put_object (ex_env rs_xor) (ex_ctx ''u5'')
     ((fst ex_put)\<lparr>st_drives := map (\<lambda>d. d\<lparr>drv_fault := (\<lambda>op p. op = OpMkdir)\<rparr>) (st_drives (fst ex_put))\<rparr>)
     ''bkt'' ''m'' (Body [9] False) [] [] False"

theorem put_isolated_witness:
  "get_object (ex_env rs_xor) (st_drives (fst ex_put)) ''bkt'' ''k/other''
     = get_object (ex_env rs_xor) (st_drives (ex_store 2 1)) ''bkt'' ''k/other'' \<and>
   \<not> is_ok (snd ex_refused) \<and>
   (\<exists>om. get_object (ex_env rs_xor) (st_drives (fst ex_refused)) ''bkt'' ''k'' = Ok (om, Body [1, 2, 3] False))"
proof -
  let ?full = "(fst ex_put)\<lparr>st_drives := map (\<lambda>d. d\<lparr>drv_fault := (\<lambda>op p. op = OpMkdir)\<rparr>) (st_drives (fst ex_put))\<rparr>"
  have hyps: "validate_bucket_name ''bkt'' = Ok ()" "vmode (st_drives (ex_store 2 1)) ''bkt'' = Off"
    "vmode (st_drives ?full) ''bkt'' = Off" "valid_names ''bkt'' ''k/other''" "valid_names ''bkt'' ''k''"
    "obj_path ''bkt'' ''k/other'' \<noteq> obj_path ''bkt'' ''k''" "obj_path ''bkt'' ''k'' \<noteq> obj_path ''bkt'' ''m''"
    "\<not> prefix (obj_path ''bkt'' ''m'') (obj_path ''bkt'' ''k'')" "\<not> is_ok (snd ex_refused)"
    by code_simp+
  have ok: "store_ok (ex_env rs_xor) ?full"
    using ex_put_kept(1) by (auto simp: store_ok_def drive_wf_def)
  have run: "put_object (ex_env rs_xor) (ex_ctx ''u1'') (ex_store 2 1) ''bkt'' ''k''
    (Body [1, 2, 3] False) ''text/plain'' [] False = (fst ex_put, snd ex_put)" by (simp add: ex_put_def)
  have refused: "put_object (ex_env rs_xor) (ex_ctx ''u5'') ?full ''bkt'' ''m'' (Body [9] False) [] [] False
    = (fst ex_refused, snd ex_refused)" by (simp add: ex_refused_def)
  have "case get_object (ex_env rs_xor) (st_drives ?full) ''bkt'' ''k'' of
    Ok (om, b) \<Rightarrow> body_bytes b = [1, 2, 3] \<and> \<not> body_fails b | Err _ \<Rightarrow> False" by code_simp
  then have "\<exists>om. get_object (ex_env rs_xor) (st_drives ?full) ''bkt'' ''k'' = Ok (om, Body [1, 2, 3] False)"
    by (auto split: sum.splits prod.splits) (metis body.collapse)
  then show ?thesis
    using put_isolated [OF xor_store_ok hyps(1,2) run hyps(4,6)] ex_put_ok hyps(9)
      put_isolated [OF ok hyps(1,3) refused hyps(5,7)] hyps(8) by simp
qed

section \<open>Deletion\<close>

text \<open>
  C25: deleting an object of an unversioned bucket, on drives that fail nothing, makes it unreadable
  and leaves every object outside its directory as it was; but it also removes every object whose key
  lies below it: after deleting \<open>a\<close>, \<open>a/b\<close> is gone too.
\<close>

theorem delete_object_scope:
  assumes "store_ok E st" and "validate_bucket_name b = Ok ()" and "valid_names b k"
    and "vmode (st_drives st) b = Off" and "head_bucket (st_drives st) b = Ok ()"
    and "\<forall>d \<in> set (st_drives st). healthy d"
    and "delete_object C st b k = (st', r)" and "valid_names b2 k2"
  shows "r = Ok delete_outcome_default \<and>
    (if prefix (obj_path b k) (obj_path b2 k2)
     then get_object E (st_drives st') b2 k2 = Err NoSuchKey
     else get_object E (st_drives st') b2 k2 = get_object E (st_drives st) b2 k2)"
proof -
  have st': "st' = st\<lparr>st_drives := map (remove_object_dir b (r_object b k)) (st_drives st)\<rparr>"
    and r: "r = Ok delete_outcome_default"
    using assms(4,5,7) by (auto simp: delete_object_def Let_def)
  have wf: "\<forall>d \<in> set (st_drives st). drive_wf d" using assms(1) by (simp add: store_ok_def)
  note facts = remove_object_dir_facts [OF _ assms(3)]
  have "get_object E (st_drives st') b2 k2 = Err NoSuchKey" if pre: "prefix (obj_path b k) (obj_path b2 k2)"
  proof -
    have "decode_xl d (PathBuf False (obj_path b2 k2 @ [XL_META])) = None" if "d \<in> set (st_drives st')" for d
    proof -
      from that st' obtain d0 where d0: "d0 \<in> set (st_drives st)" "d = remove_object_dir b (r_object b k) d0" by auto
      have "strict_prefix (obj_path b k) (obj_path b2 k2 @ [XL_META])"
        using pre by (auto simp: strict_prefix_def)
      then have "look d (obj_path b2 k2 @ [XL_META]) = None"
        using remove_object_dir_gone [OF _ assms(3)] d0 wf assms(6) by (auto simp: healthy_def)
      then show ?thesis using facts(1) d0 wf obj_files(3) [OF assms(8)] by (simp add: decode_xl_eq)
    qed
    then have "read_xl (st_drives st') b2 k2 = Err NoSuchKey"
      by (simp add: read_xl_def read_xl_v_def obj_files(1) [OF assms(8)] first_some_None split: option.splits)
    then show ?thesis by (simp add: get_object_def)
  qed
  moreover have "get_object E (st_drives st') b2 k2 = get_object E (st_drives st) b2 k2"
    if npre: "\<not> prefix (obj_path b k) (obj_path b2 k2)"
  proof -
    have "alike (st_drives st ! i) (st_drives st' ! i) (obj_path b2 k2)" if i: "i < length (st_drives st)" for i
    proof -
      let ?d = "st_drives st ! i"
      have d: "drive_wf ?d" using wf i by simp
      have "\<not> strict_prefix (obj_path b k) (obj_path b2 k2 @ [x])" for x
        using npre by (auto simp: strict_prefix_def prefix_snoc)
      then have "same_file ?d (remove_object_dir b (r_object b k) ?d) (obj_path b2 k2 @ [x])" for x
        by (rule facts(3) [OF d])
      with facts(1,2) [OF d] d i st' show ?thesis by (simp add: alike_def)
    qed
    then show ?thesis
      using get_object_alike(2) [OF assms(8), of "st_drives st" "st_drives st'" E] st' by simp
  qed
  ultimately show ?thesis using r by simp
qed

theorem delete_object_scope_witness:
  "get_object (ex_env rs_xor) (st_drives (fst (delete_object (ex_ctx ''u2'') (fst ex_put) ''bkt'' ''k''))) ''bkt'' ''k''
     = Err NoSuchKey"
proof -
  obtain om where run: "put_object (ex_env rs_xor) (ex_ctx ''u1'') (ex_store 2 1) ''bkt'' ''k''
    (Body [1, 2, 3] False) ''text/plain'' [] False = (fst ex_put, Ok om)" by (rule ex_put_run)
  have v: "validate_bucket_name ''bkt'' = Ok ()" "vmode (st_drives (ex_store 2 1)) ''bkt'' = Off"
    "valid_names ''bkt'' ''k''" "vmode (st_drives (fst ex_put)) ''bkt'' = Off"
    "head_bucket (st_drives (fst ex_put)) ''bkt'' = Ok ()"
    by code_simp+
  note keep = put_keeps_store [OF xor_store_ok v(1,2) run]
  show ?thesis
    using delete_object_scope [OF keep(1) v(1,3,4,5) keep(2) [OF ex_healthy] _ v(3)]
    by (simp add: prod_eq_iff)
qed

end
