(* ===== verification/Heal_Props.thy ===== *)
theory Heal_Props
  imports Heal_Facts Store_Props
begin

text \<open>
  The properties of healing: it restores full redundancy and is then done, and a dry run writes nothing.
\<close>

section \<open>Healing restores redundancy\<close>

text \<open>
  C3: healing an object of which enough good shards are left, on drives that fail nothing, ends with
  every drive serving its own shards and holding the metadata, so that any set of drives as large as
  the parity count may be lost or damaged afterwards and the object still reads back in full; healing
  again then finds nothing to do.
\<close>

theorem heal_restores:
  assumes "healable E c m bs p q ds" and "r_obj_v b k vid = PathBuf False q"
  shows "\<exists>ds' out. heal_object E ds b k vid False = (ds', Ok out) \<and> out \<noteq> Unrecoverable \<and>
    length ds' = length ds \<and>
    (\<forall>i < length ds. restored E c m (split_blocks bs p) q (ds' ! i) i) \<and>
    heal_object E ds' b k vid False = (ds', Ok Healthy) \<and>
    (\<forall>es. length es = length ds \<longrightarrow>
       (\<forall>i < length ds. bitrot_detected E c (split_blocks bs p) (PathBuf False (q @ [PART])) (es ! i) i) \<longrightarrow>
       card {i. i < length ds \<and> es ! i \<noteq> ds' ! i} \<le> cd_parity c \<longrightarrow>
       reconstruct_into E es (PathBuf False q) c bs (length p) (xm_checksums m) = p)"
proof -
  note H = healableD [OF assms(1)]
  let ?blocks = "split_blocks bs p" and ?part = "PathBuf False (q @ [PART])"
  obtain ds' out where run: "heal_object E ds b k vid False = (ds', Ok out)" "out \<noteq> Unrecoverable"
    and len: "length ds' = length ds"
    and res: "\<forall>i < length ds. restored E c m ?blocks q (ds' ! i) i \<and> heal_drive (ds' ! i) q"
    by (rule heal_object_restored [OF assms])
  have h': "healable E c m bs p q ds'"
    by (rule restored_healable [OF assms(1) len res])
  have again: "heal_object E ds' b k vid False = (ds', Ok Healthy)"
    by (rule restored_healthy [OF h' assms(2)]) (use res len in simp)
  have read: "reconstruct_into E es (PathBuf False q) c bs (length p) (xm_checksums m) = p"
    if es: "length es = length ds" "\<forall>i < length ds. bitrot_detected E c ?blocks ?part (es ! i) i"
      "card {i. i < length ds \<and> es ! i \<noteq> ds' ! i} \<le> cd_parity c" for es
  proof -
    have "cd_data c \<le> serving E c ?blocks ?part es"
      by (rule serving_after_loss [OF _ _ es(3) H(2)]) (use es(1) res H(2) in \<open>simp_all add: restored_def\<close>)
    then show ?thesis
      using reconstruct_into_ok [OF H(1) _ H(3), of es p "PathBuf False q"] es H(2) by (simp add: H(7) pjoin_plain)
  qed
  show ?thesis using run len res again read by blast
qed

text \<open>The instance: one of three drives was replaced by an empty one after a put.\<close>

lemma clear_for_prefixes: "clear_for d q \<longleftrightarrow>
    list_all (\<lambda>r. look d r = None \<or> look d r = Some Dir) (prefixes q)
      \<and> look d (q @ [PART_TMP]) \<noteq> Some Dir \<and> look d (q @ [PART]) \<noteq> Some Dir \<and> look d (q @ [XL_META]) \<noteq> Some Dir"
  by (auto simp: clear_for_def list_all_iff)

definition ex_meta :: xl_meta where
  "ex_meta = new_meta (ex_env rs_xor) (ex_ctx ''u1'') (ex_store 2 1) [1, 2, 3] ''text/plain'' [] False None"

lemma ex_lost_healable:
  "healable (ex_env rs_xor) (st_codec (ex_store 2 1)) ex_meta 2 [1, 2, 3] (obj_path ''bkt'' ''k'') ex_lost"
proof -
  let ?q = "obj_path ''bkt'' ''k''" and ?E = "ex_env rs_xor" and ?c = "st_codec (ex_store 2 1)"
  obtain om where run: "put_object ?E (ex_ctx ''u1'') (ex_store 2 1) ''bkt'' ''k''
    (Body [1, 2, 3] False) ''text/plain'' [] False = (fst ex_put, Ok om)" by (rule ex_put_run)
  have v: "validate_bucket_name ''bkt'' = Ok ()" "vmode (st_drives (ex_store 2 1)) ''bkt'' = Off" by code_simp+
  have d1: "drive_wf (ex_drive ''d1'')" "healthy (ex_drive ''d1'')"
    by (simp_all add: ex_drive_wf) (simp add: healthy_def ex_drive_def drive_new_def)
  have sub: "set ex_lost \<subseteq> insert (ex_drive ''d1'') (set (st_drives (fst ex_put)))"
    unfolding ex_lost_def by (rule set_update_subset_insert)
  have wf: "\<forall>d \<in> set ex_lost. drive_wf d \<and> healthy d"
    using put_keeps_store [OF xor_store_ok v run] ex_healthy sub d1 by (auto simp: store_ok_def)
  have sees: "\<forall>d \<in> set ex_lost. clear_for d ?q \<and> look d (?q @ [HEAL_TMP]) \<noteq> Some Dir \<and>
      decode_xl d (PathBuf False (?q @ [XL_META])) \<in> {None, Some ex_meta}"
    unfolding clear_for_prefixes ex_meta_def by code_simp
  have some: "\<exists>d \<in> set ex_lost. decode_xl d (PathBuf False (?q @ [XL_META])) \<noteq> None" by code_simp
  have meta: "xm_data ex_meta = cd_data ?c" "xm_parity ex_meta = cd_parity ?c" "xm_block_size ex_meta = 2"
    "xm_stored_size ex_meta = length [1, 2, 3 :: byte]" "xm_checksums ex_meta = all_sums ?E ?c (split_blocks 2 [1, 2, 3])"
    "length ex_lost = codec_total ?c" "safe ?q" "?q \<noteq> []"
    by code_simp+
  have "\<forall>i \<in> {0, 2}. i < length ex_lost \<and> serves ?E ?c (split_blocks 2 [1, 2, 3]) (PathBuf False (?q @ [PART])) (ex_lost ! i) i"
    by code_simp
  then have "{0, 2} \<subseteq> {i. i < length ex_lost \<and> serves ?E ?c (split_blocks 2 [1, 2, 3]) (PathBuf False (?q @ [PART])) (ex_lost ! i) i}"
    by auto
  then have "card {0, 2 :: nat} \<le> serving ?E ?c (split_blocks 2 [1, 2, 3]) (PathBuf False (?q @ [PART])) ex_lost"
    unfolding serving_def by (intro card_mono) auto
  then have "cd_data ?c \<le> serving ?E ?c (split_blocks 2 [1, 2, 3]) (PathBuf False (?q @ [PART])) ex_lost"
    by (simp add: ex_store_def)
  moreover have "codec_ok (ev_rs ?E) ?c" using xor_store_ok by (simp add: store_ok_def)
  ultimately show ?thesis unfolding healable_def using wf sees some meta ex_detects by simp
qed

theorem heal_restores_witness:
  "\<exists>ds'. heal_object (ex_env rs_xor) ex_lost ''bkt'' ''k'' None False = (ds', Ok (Healed 1)) \<and>
     restored (ex_env rs_xor) (st_codec (ex_store 2 1)) ex_meta (split_blocks 2 [1, 2, 3]) (obj_path ''bkt'' ''k'') (ds' ! 1) 1"
proof -
  have dir: "r_obj_v ''bkt'' ''k'' None = PathBuf False (obj_path ''bkt'' ''k'')" by code_simp
  have out: "snd (heal_object (ex_env rs_xor) ex_lost ''bkt'' ''k'' None False) = Ok (Healed 1)"
    and len: "1 < length ex_lost" by code_simp+
  show ?thesis using heal_restores [OF ex_lost_healable dir] out len by fastforce
qed

section \<open>Dry runs\<close>

lemma heal_object_dry: "fst (heal_object E ds b k vid True) = ds"
  by (auto simp: heal_object_def Let_def split: sum.splits prod.splits if_splits)

lemma heal_versions_dry: "fst (heal_versions E b True vs ds r) = ds"
proof (induction vs arbitrary: r)
  case (Cons v vs)
  then show ?case
    using heal_object_dry [of E ds b "fst v" "snd v"]
    by (cases v; cases "heal_object E ds b (fst v) (snd v) True") (auto split: sum.splits)
qed simp

lemma heal_buckets_dry: "fst (heal_buckets E True bs ds r) = ds"
proof (induction bs arbitrary: r)
  case (Cons b bs)
  then show ?case
    using heal_versions_dry [of E b "collect_object_dirs ds b" ds r]
    by (cases "heal_versions E b True (collect_object_dirs ds b) ds r") (auto split: sum.splits)
qed simp

text \<open>
  A dry run of \<open>heal\<close> changes no drive, whatever the store holds, and it predicts the repair: on
  an object that can be healed it reports the outcome the repairing run reports.
\<close>

theorem heal_dry_run:
  assumes "healable E c m bs p q ds" and "r_obj_v b k vid = PathBuf False q"
  shows "fst (heal E st bucket True) = st \<and>
    snd (heal_object E ds b k vid True) = snd (heal_object E ds b k vid False)"
proof
  show "fst (heal E st bucket True) = st"
  proof -
    have "fst (heal E st bucket True) = st\<lparr>st_drives := st_drives st\<rparr> \<or> fst (heal E st bucket True) = st"
      using heal_buckets_dry [of E _ "st_drives st" "heal_report_default\<lparr>hr_dry_run := True\<rparr>"]
      by (auto simp: heal_def Let_def case_prod_beta split: sum.splits)
    then show ?thesis by auto
  qed
  show "snd (heal_object E ds b k vid True) = snd (heal_object E ds b k vid False)"
    using heal_object_cases [OF assms] by (auto split: if_splits)
qed

theorem heal_dry_run_witness:
  "snd (heal_object (ex_env rs_xor) ex_lost ''bkt'' ''k'' None True) = Ok (Healed 1)"
proof -
  have dir: "r_obj_v ''bkt'' ''k'' None = PathBuf False (obj_path ''bkt'' ''k'')" by code_simp
  have "snd (heal_object (ex_env rs_xor) ex_lost ''bkt'' ''k'' None False) = Ok (Healed 1)" by code_simp
  then show ?thesis using heal_dry_run [OF ex_lost_healable dir, of "ex_store 2 1" None] by simp
qed

end
