(* ===== verification/Listing_Pages.thy ===== *)
theory Listing_Pages
  imports Store_Objects "HOL-Library.Multiset"
begin

text \<open>
  Pagination of \<open>list_objects_v2\<close>: a client that follows the continuation tokens sees every key and
  every common prefix exactly once, in the order of one unlimited listing.  The interface between
  the listing and its clients is the locale \<open>paged_listing\<close>.
\<close>

section \<open>The interface\<close>

text \<open>
  One page gives two lists and perhaps the token of the next page; \<open>rest\<close> is what is left to list
  from a token on, \<open>rank\<close> bounds the number of pages left.
\<close>

locale paged_listing =
  fixes ok :: bool
    and page :: "'t option \<Rightarrow> ('a list \<times> 'b list) \<times> 't option"
    and rest :: "'t option \<Rightarrow> 'a list \<times> 'b list"
    and rank :: "'t option \<Rightarrow> nat"
  assumes page_last: "ok \<Longrightarrow> page t = (out, None) \<Longrightarrow> rest t = out"
    and page_more: "ok \<Longrightarrow> page t = ((xs, ys), Some u) \<Longrightarrow>
      rest t = (xs @ fst (rest (Some u)), ys @ snd (rest (Some u))) \<and> rank (Some u) < rank t"
begin

fun follow :: "nat \<Rightarrow> 't option \<Rightarrow> ('a list \<times> 'b list) option" where
  "follow 0 t = None"
| "follow (Suc n) t =
     (case page t of
        (out, None) \<Rightarrow> Some out
      | ((xs, ys), Some u) \<Rightarrow>
          (case follow n (Some u) of Some (xs', ys') \<Rightarrow> Some (xs @ xs', ys @ ys') | None \<Rightarrow> None))"

lemma follow_complete: "ok \<Longrightarrow> rank t < n \<Longrightarrow> follow n t = Some (rest t)"
proof (induction n arbitrary: t)
  case (Suc n)
  obtain out nxt where pg: "page t = (out, nxt)" by (cases "page t")
  show ?case
  proof (cases nxt)
    case None
    with page_last [OF Suc.prems(1)] pg show ?thesis by simp
  next
    case (Some u)
    obtain xs ys where "out = (xs, ys)" by (cases out)
    with page_more [OF Suc.prems(1)] pg Some have
      more: "rest t = (xs @ fst (rest (Some u)), ys @ snd (rest (Some u)))" "rank (Some u) < rank t"
      and page: "page t = ((xs, ys), Some u)" by auto
    then have "follow n (Some u) = Some (rest (Some u))" using Suc by simp
    with more page show ?thesis by (cases "rest (Some u)") simp
  qed
qed simp

end

section \<open>Prefixes in the order of strings\<close>

lemma starts_with_Cons: "starts_with (x # xs) (c # cs) \<longleftrightarrow> x = c \<and> starts_with xs cs"
  by (auto simp: starts_with_def)

lemma starts_with_between:
  "starts_with z c \<Longrightarrow> starts_with y c \<Longrightarrow> z \<le> x \<Longrightarrow> x \<le> y \<Longrightarrow> starts_with x c"
proof (induction c arbitrary: x y z)
  case (Cons a c)
  from Cons.prems(1,2) obtain z' y' where zy: "z = a # z'" "y = a # y'" "starts_with z' c" "starts_with y' c"
    by (auto simp: starts_with_iff)
  obtain e x' where x: "x = e # x'" using Cons.prems(3) zy(1) by (cases x) simp_all
  from Cons.prems(3,4) have "a < e \<or> a = e" "e < a \<or> e = a" unfolding zy x by auto
  then have "e = a" using order.asym by blast
  with Cons.prems(3,4) have "z' \<le> x'" "x' \<le> y'" unfolding zy x by simp_all
  with Cons.IH [OF zy(3,4)] \<open>e = a\<close> x show ?case by (simp add: starts_with_Cons)
qed simp

lemma starts_with_trans: "starts_with s (p @ q) \<Longrightarrow> starts_with s p"
  by (auto simp: starts_with_iff)

lemma starts_with_drop: "starts_with s (p @ q) \<Longrightarrow> starts_with (drop (length p) s) q"
  by (auto simp: starts_with_iff)

lemma starts_with_shared:
  assumes "starts_with s w" "starts_with t w" "length p \<le> length w" "starts_with t p"
  shows "starts_with s p"
proof -
  have "take (length p) s = take (length p) (take (length w) s)" using assms(3) by (simp add: min_def)
  also have "\<dots> = take (length p) (take (length w) t)" using assms(1,2) by (simp add: starts_with_def)
  also have "\<dots> = take (length p) t" using assms(3) by (simp add: min_def)
  finally show ?thesis using assms(4) by (simp add: starts_with_def)
qed

lemma find_sub_local:
  "find_sub dl s = Some i \<Longrightarrow> starts_with t (take i s @ dl) \<Longrightarrow> dl \<noteq> [] \<Longrightarrow> find_sub dl t = Some i"
proof (induction s arbitrary: i t)
  case (Cons x xs)
  show ?case
  proof (cases "starts_with (x # xs) dl")
    case True
    with Cons.prems have "i = 0" "starts_with t dl" by auto
    with Cons.prems(3) show ?thesis by (cases t) (auto simp: starts_with_def)
  next
    case False
    with Cons.prems(1) obtain j where j: "i = Suc j" "find_sub dl xs = Some j" by auto
    with Cons.prems(2) obtain t' where t: "t = x # t'" "starts_with t' (take j xs @ dl)"
      by (cases t) (auto simp: starts_with_def)
    have "\<not> starts_with (x # t') dl"
    proof
      assume "starts_with (x # t') dl"
      moreover have "starts_with (x # xs) (x # take j xs @ dl)"
      proof -
        have "xs = (take j xs @ dl) @ drop (j + length dl) xs" using find_sub_split [OF j(2)] by simp
        then have "starts_with xs (take j xs @ dl)" unfolding starts_with_iff by blast
        then show ?thesis by (simp add: starts_with_Cons)
      qed
      moreover have "starts_with (x # t') (x # take j xs @ dl)" using t(2) by (simp add: starts_with_Cons)
      ultimately have "starts_with (x # xs) dl"
        using starts_with_shared [of "x # xs" "x # take j xs @ dl" "x # t'" dl] by simp
      with False show False by simp
    qed
    with Cons.IH [OF j(2) t(2) Cons.prems(3)] t j show ?thesis by simp
  qed
qed (auto split: if_splits)

section \<open>Common prefixes are contiguous\<close>

lemma common_prefix_starts:
  "common_prefix pre delim key = Some cp \<Longrightarrow> starts_with key pre \<Longrightarrow> starts_with key cp"
proof -
  assume cp: "common_prefix pre delim key = Some cp" and pre: "starts_with key pre"
  from cp obtain dl i where d: "delim = Some dl" "find_sub dl (drop (length pre) key) = Some i"
    "cp = pre @ take i (drop (length pre) key) @ dl"
    by (auto simp: common_prefix_def Let_def split: option.splits if_splits)
  from find_sub_split [OF d(2)] have "drop (length pre) key =
    (take i (drop (length pre) key) @ dl) @ drop (i + length dl) (drop (length pre) key)" by simp
  moreover have "key = pre @ drop (length pre) key" using pre by (auto simp: starts_with_iff)
  ultimately have "key = cp @ drop (i + length dl) (drop (length pre) key)"
    unfolding d(3) by (metis append_assoc)
  then show "starts_with key cp" unfolding starts_with_iff by blast
qed

lemma common_prefix_local:
  assumes "common_prefix pre delim z = Some cp" "starts_with x cp"
  shows "common_prefix pre delim x = Some cp"
proof -
  from assms(1) obtain dl i where d: "delim = Some dl" "dl \<noteq> []" "find_sub dl (drop (length pre) z) = Some i"
    "cp = pre @ take i (drop (length pre) z) @ dl"
    by (auto simp: common_prefix_def Let_def split: option.splits if_splits)
  let ?w = "take i (drop (length pre) z) @ dl"
  have sw: "starts_with (drop (length pre) x) ?w" using assms(2) starts_with_drop unfolding d(4) by blast
  note fx = find_sub_local [OF d(3) sw d(2)]
  have "i \<le> length (drop (length pre) z)" using find_sub_Some [OF d(3)] by simp
  then have "take i (drop (length pre) x) = take i (drop (length pre) z)"
    using sw by (auto simp: starts_with_iff)
  with fx d show ?thesis by (simp add: common_prefix_def Let_def)
qed

lemma common_prefix_between:
  assumes "common_prefix pre delim z = Some cp" "common_prefix pre delim y = Some cp"
    and "starts_with z pre" "starts_with y pre" "z \<le> x" "x \<le> y"
  shows "common_prefix pre delim x = Some cp"
  using assms common_prefix_starts common_prefix_local starts_with_between by metis

section \<open>The loop without a limit\<close>

fun full_loop ::
  "string \<Rightarrow> string option \<Rightarrow> string option \<Rightarrow> string list \<Rightarrow> string list \<Rightarrow> string list \<times> string list" where
  "full_loop pre delim after [] common = ([], [])"
| "full_loop pre delim after (key # keys) common =
     (if skipped None after key then full_loop pre delim after keys common
      else case common_prefix pre delim key of
        Some cp \<Rightarrow>
          if cp \<in> set common then full_loop pre delim after keys common
          else let (xs, ys) = full_loop pre delim after keys (common @ [cp]) in (xs, cp # ys)
      | None \<Rightarrow> let (xs, ys) = full_loop pre delim after keys common in (key # xs, ys))"

text \<open>A page is the unlimited loop over an initial piece of the keys.\<close>

lemma page_loop_split:
  "\<exists>us vs. keys = us @ vs \<and>
     page_loop pre delim None after mx keys chosen common cnt =
       \<lparr> pg_chosen = chosen @ fst (full_loop pre delim after us common),
         pg_common = common @ snd (full_loop pre delim after us common),
         pg_truncated = (vs \<noteq> []), pg_next = (case vs of [] \<Rightarrow> None | x # _ \<Rightarrow> Some x) \<rparr> \<and>
     (vs \<noteq> [] \<longrightarrow> \<not> skipped None after (hd vs) \<and> mx \<le> cnt + length us \<and>
        (\<forall>cp. common_prefix pre delim (hd vs) = Some cp \<longrightarrow>
           cp \<notin> set (common @ snd (full_loop pre delim after us common))))"
proof (induction keys arbitrary: chosen common cnt)
  case Nil
  show ?case by (intro exI [of _ "[]"]) simp
next
  case (Cons key keys)
  show ?case
  proof (cases "skipped None after key")
    case True
    obtain us vs where "keys = us @ vs" and
      pg: "page_loop pre delim None after mx keys chosen common cnt =
       \<lparr> pg_chosen = chosen @ fst (full_loop pre delim after us common),
         pg_common = common @ snd (full_loop pre delim after us common),
         pg_truncated = (vs \<noteq> []), pg_next = (case vs of [] \<Rightarrow> None | x # _ \<Rightarrow> Some x) \<rparr>"
      "vs \<noteq> [] \<longrightarrow> \<not> skipped None after (hd vs) \<and> mx \<le> cnt + length us \<and>
        (\<forall>cp. common_prefix pre delim (hd vs) = Some cp \<longrightarrow>
           cp \<notin> set (common @ snd (full_loop pre delim after us common)))"
      using Cons.IH [of chosen common cnt] by blast
    with True show ?thesis by (intro exI [of _ "key # us"] exI [of _ vs]) auto
  next
    case False
    show ?thesis
    proof (cases "mx \<le> cnt \<and> (\<forall>cp. common_prefix pre delim key = Some cp \<longrightarrow> cp \<notin> set common)")
      case True
      with False show ?thesis
        by (intro exI [of _ "[]"] exI [of _ "key # keys"]) (auto split: option.splits)
    next
      case room: False
      define chosen' where "chosen' = (if common_prefix pre delim key = None then chosen @ [key] else chosen)"
      define common' where "common' = (case common_prefix pre delim key of
          Some cp \<Rightarrow> if cp \<in> set common then common else common @ [cp] | None \<Rightarrow> common)"
      define cnt' where "cnt' = (case common_prefix pre delim key of
          Some cp \<Rightarrow> if cp \<in> set common then cnt else cnt + 1 | None \<Rightarrow> cnt + 1)"
      have step: "page_loop pre delim None after mx (key # keys) chosen common cnt =
        page_loop pre delim None after mx keys chosen' common' cnt'"
        using False room by (auto simp: chosen'_def common'_def cnt'_def split: option.splits)
      have cle: "cnt' \<le> Suc cnt" by (auto simp: cnt'_def split: option.splits)
      have full: "chosen @ fst (full_loop pre delim after (key # us) common) = chosen' @ fst (full_loop pre delim after us common')"
        "common @ snd (full_loop pre delim after (key # us) common) = common' @ snd (full_loop pre delim after us common')" for us
        using False by (auto simp: chosen'_def common'_def Let_def split: option.splits prod.splits)
      obtain us vs where keys: "keys = us @ vs" and
        pg: "page_loop pre delim None after mx keys chosen' common' cnt' =
       \<lparr> pg_chosen = chosen' @ fst (full_loop pre delim after us common'),
         pg_common = common' @ snd (full_loop pre delim after us common'),
         pg_truncated = (vs \<noteq> []), pg_next = (case vs of [] \<Rightarrow> None | x # _ \<Rightarrow> Some x) \<rparr>"
        and tr: "vs \<noteq> [] \<longrightarrow> \<not> skipped None after (hd vs) \<and> mx \<le> cnt' + length us \<and>
        (\<forall>cp. common_prefix pre delim (hd vs) = Some cp \<longrightarrow>
           cp \<notin> set (common' @ snd (full_loop pre delim after us common')))"
        using Cons.IH [of chosen' common' cnt'] by blast
      show ?thesis
      proof (intro exI conjI)
        show "key # keys = (key # us) @ vs" using keys by simp
        show "page_loop pre delim None after mx (key # keys) chosen common cnt =
          \<lparr> pg_chosen = chosen @ fst (full_loop pre delim after (key # us) common),
            pg_common = common @ snd (full_loop pre delim after (key # us) common),
            pg_truncated = (vs \<noteq> []), pg_next = (case vs of [] \<Rightarrow> None | x # _ \<Rightarrow> Some x) \<rparr>"
          by (simp only: step pg full)
        show "vs \<noteq> [] \<longrightarrow> \<not> skipped None after (hd vs) \<and> mx \<le> cnt + length (key # us) \<and>
          (\<forall>cp. common_prefix pre delim (hd vs) = Some cp \<longrightarrow>
             cp \<notin> set (common @ snd (full_loop pre delim after (key # us) common)))"
          unfolding full using tr cle by auto
      qed
    qed
  qed
qed

lemma page_loop_start:
  "\<exists>us vs. keys = us @ vs \<and>
     page_loop pre delim None after mx keys [] [] 0 =
       \<lparr> pg_chosen = fst (full_loop pre delim after us []),
         pg_common = snd (full_loop pre delim after us []),
         pg_truncated = (vs \<noteq> []), pg_next = (case vs of [] \<Rightarrow> None | x # _ \<Rightarrow> Some x) \<rparr> \<and>
     (vs \<noteq> [] \<longrightarrow> \<not> skipped None after (hd vs) \<and> mx \<le> length us \<and>
        (\<forall>cp. common_prefix pre delim (hd vs) = Some cp \<longrightarrow>
           cp \<notin> set (snd (full_loop pre delim after us []))))"
  using page_loop_split [of keys pre delim after mx "[]" "[]" 0] by (simp only: append_Nil add_0)

lemma full_loop_append:
  "full_loop pre delim after (us @ vs) co =
     (fst (full_loop pre delim after us co) @ fst (full_loop pre delim after vs (co @ snd (full_loop pre delim after us co))),
      snd (full_loop pre delim after us co) @ snd (full_loop pre delim after vs (co @ snd (full_loop pre delim after us co))))"
  by (induction us arbitrary: co) (auto simp: Let_def split: option.splits prod.splits)

lemma full_loop_common:
  "cp \<in> set (snd (full_loop pre delim after us co)) \<Longrightarrow> \<exists>z \<in> set us. common_prefix pre delim z = Some cp"
proof (induction us arbitrary: co)
  case (Cons a us)
  show ?case
  proof (cases "common_prefix pre delim a = Some cp")
    case False
    then have "\<exists>co'. cp \<in> set (snd (full_loop pre delim after us co'))"
      using Cons.prems by (auto simp: Let_def case_prod_beta split: option.splits if_splits)
    with Cons.IH show ?thesis by auto
  qed simp
qed simp

lemma full_loop_irrelevant:
  "(\<forall>y \<in> set vs. \<forall>cp. common_prefix pre delim y = Some cp \<longrightarrow> cp \<notin> set co) \<Longrightarrow>
   full_loop pre delim after vs (co @ c) = full_loop pre delim after vs c"
  by (induction vs arbitrary: c) (auto simp: Let_def split: option.splits prod.splits)

section \<open>Continuation tokens\<close>

lemma page_loop_token_after:
  "\<forall>k \<in> set keys. \<not> k < t \<Longrightarrow>
   page_loop pre delim (Some t) after mx keys ch co n = page_loop pre delim None after mx keys ch co n"
  by (induction keys arbitrary: ch co n) (auto simp: skipped_def split: option.splits)

lemma page_loop_token_before:
  "\<forall>k \<in> set us. k < t \<Longrightarrow>
   page_loop pre delim (Some t) after mx (us @ vs) ch co n = page_loop pre delim (Some t) after mx vs ch co n"
  by (induction us) (auto simp: skipped_def)

definition keys_from :: "string list \<Rightarrow> string option \<Rightarrow> string list" where
  "keys_from keys t = (case t of None \<Rightarrow> keys | Some u \<Rightarrow> dropWhile (\<lambda>k. k < u) keys)"

lemma sorted_dropWhile_ge: "sorted keys \<Longrightarrow> k \<in> set (dropWhile (\<lambda>k. k < u) keys) \<Longrightarrow> \<not> k < (u :: string)"
proof (induction keys)
  case (Cons x xs)
  then show ?case
    by (cases "x < u") (auto simp: not_less intro: order_trans)
qed simp

lemma page_loop_token:
  assumes "sorted keys"
  shows "page_loop pre delim t after mx keys ch co n = page_loop pre delim None after mx (keys_from keys t) ch co n"
proof (cases t)
  case (Some u)
  have "\<forall>k \<in> set (takeWhile (\<lambda>k. k < u) keys). k < u" by (auto dest: set_takeWhileD)
  from page_loop_token_before [OF this]
  have "page_loop pre delim (Some u) after mx keys ch co n =
    page_loop pre delim (Some u) after mx (dropWhile (\<lambda>k. k < u) keys) ch co n"
    by (metis takeWhile_dropWhile_id)
  also have "\<dots> = page_loop pre delim None after mx (dropWhile (\<lambda>k. k < u) keys) ch co n"
    using sorted_dropWhile_ge [OF assms] by (intro page_loop_token_after) blast
  finally show ?thesis by (simp add: keys_from_def Some)
qed (simp add: keys_from_def)

lemma dropWhile_sorted_split:
  "sorted (us @ x # vs) \<Longrightarrow> distinct (us @ x # vs) \<Longrightarrow> dropWhile (\<lambda>k. k < (x :: string)) (us @ x # vs) = x # vs"
proof (induction us)
  case (Cons u us)
  then have "u < x" by (auto simp: order_less_le)
  with Cons show ?case by simp
qed simp

lemma keys_from_next:
  assumes "sorted keys" "distinct keys" "keys_from keys t = us @ x # vs"
  shows "keys_from keys (Some x) = x # vs"
proof -
  obtain ws where ws: "keys = ws @ us @ x # vs"
    using assms(3) by (cases t) (auto simp: keys_from_def intro: exI [of _ "[]"], metis takeWhile_dropWhile_id)
  with assms dropWhile_sorted_split [of "ws @ us" x vs] show ?thesis by (simp add: keys_from_def)
qed

section \<open>The listing meets the interface\<close>

definition listing_page ::
  "string \<Rightarrow> string option \<Rightarrow> string option \<Rightarrow> nat \<Rightarrow> string list \<Rightarrow> string option \<Rightarrow>
   (string list \<times> string list) \<times> string option" where
  "listing_page pre delim after mx keys t =
     (let pg = page_loop pre delim t after mx keys [] [] 0
      in ((pg_chosen pg, pg_common pg), if pg_truncated pg then pg_next pg else None))"

definition listable :: "string \<Rightarrow> nat \<Rightarrow> string list \<Rightarrow> bool" where
  "listable pre mx keys = (sorted keys \<and> distinct keys \<and> (\<forall>k \<in> set keys. starts_with k pre) \<and> 0 < mx)"

lemma listing_page_cases:
  fixes delim after :: "string option"
  assumes "listable pre mx keys"
  defines "rest \<equiv> (\<lambda>t. full_loop pre delim after (keys_from keys t) [])"
  shows "listing_page pre delim after mx keys t = (out, None) \<Longrightarrow> rest t = out"
    and "listing_page pre delim after mx keys t = ((xs, ys), Some u) \<Longrightarrow>
      rest t = (xs @ fst (rest (Some u)), ys @ snd (rest (Some u)))
      \<and> length (keys_from keys (Some u)) < length (keys_from keys t)"
proof -
  from assms(1) have srt: "sorted keys" and dist: "distinct keys" and pre: "\<forall>k \<in> set keys. starts_with k pre"
    and mx: "0 < mx" by (auto simp: listable_def)
  from page_loop_start [of "keys_from keys t" pre delim after mx]
  obtain us vs where us: "keys_from keys t = us @ vs" and
    pg: "page_loop pre delim None after mx (keys_from keys t) [] [] 0 =
       \<lparr> pg_chosen = fst (full_loop pre delim after us []), pg_common = snd (full_loop pre delim after us []),
         pg_truncated = (vs \<noteq> []), pg_next = (case vs of [] \<Rightarrow> None | x # _ \<Rightarrow> Some x) \<rparr>"
    and tr: "vs \<noteq> [] \<longrightarrow> \<not> skipped None after (hd vs) \<and> mx \<le> length us \<and>
        (\<forall>cp. common_prefix pre delim (hd vs) = Some cp \<longrightarrow> cp \<notin> set (snd (full_loop pre delim after us [])))"
    by (elim exE conjE)
  have page: "listing_page pre delim after mx keys t =
    (full_loop pre delim after us [], case vs of [] \<Rightarrow> None | x # _ \<Rightarrow> Some x)"
    by (cases vs) (simp_all add: listing_page_def page_loop_token [OF srt] pg Let_def)
  show "rest t = out" if "listing_page pre delim after mx keys t = (out, None)"
    using that page us by (cases vs) (auto simp: rest_def)
  show "rest t = (xs @ fst (rest (Some u)), ys @ snd (rest (Some u)))
      \<and> length (keys_from keys (Some u)) < length (keys_from keys t)"
    if more: "listing_page pre delim after mx keys t = ((xs, ys), Some u)"
  proof -
    from more page obtain ws where vs: "vs = u # ws" and out: "full_loop pre delim after us [] = (xs, ys)"
      by (cases vs) auto
    have nxt: "keys_from keys (Some u) = vs" using keys_from_next [OF srt dist] us vs by simp
    have sub: "set (keys_from keys t) \<subseteq> set keys"
      by (auto simp: keys_from_def dest: set_dropWhileD split: option.splits)
    have srt': "sorted (us @ vs)" using srt us by (metis keys_from_def option.case_eq_if sorted_dropWhile)
    have "cp \<notin> set ys" if y: "y \<in> set vs" "common_prefix pre delim y = Some cp" for y cp
    proof
      assume cp: "cp \<in> set ys"
      then obtain z where z: "z \<in> set us" "common_prefix pre delim z = Some cp"
        using full_loop_common [of cp pre delim after us "[]"] out by auto
      have "z \<le> u" "u \<le> y" using srt' z(1) y(1) vs by (auto simp: sorted_append)
      moreover have "starts_with z pre" "starts_with y pre" using pre sub us z(1) y(1) by auto
      ultimately have "common_prefix pre delim u = Some cp"
        using common_prefix_between [OF z(2) y(2)] by blast
      with tr vs cp out show False by simp
    qed
    then have "full_loop pre delim after vs ys = full_loop pre delim after vs []"
      using full_loop_irrelevant [of vs pre delim ys after "[]"] by simp
    then have "rest t = (xs @ fst (rest (Some u)), ys @ snd (rest (Some u)))"
      by (simp add: rest_def us full_loop_append out nxt)
    moreover have "length vs < length (us @ vs)" using tr vs mx by auto
    ultimately show ?thesis using us nxt by simp
  qed
qed

interpretation pages: paged_listing "listable pre mx keys" "listing_page pre delim after mx keys"
  "\<lambda>t. full_loop pre delim after (keys_from keys t) []" "\<lambda>t. length (keys_from keys t)"
  for pre delim after mx keys
  by unfold_locales (rule listing_page_cases; assumption)+

section \<open>A client that follows the tokens\<close>

text \<open>The objects and common prefixes of all pages, with a bound on their number.\<close>

fun list_all_pages ::
  "nat \<Rightarrow> drive list \<Rightarrow> string \<Rightarrow> string \<Rightarrow> string option \<Rightarrow> string option \<Rightarrow> nat \<Rightarrow> string option \<Rightarrow>
   (object_meta list \<times> string list) option" where
  "list_all_pages 0 ds bucket pre delim after mx token = None"
| "list_all_pages (Suc n) ds bucket pre delim after mx token =
     (case list_objects_v2 ds bucket pre delim token after mx of
        Err _ \<Rightarrow> None
      | Ok l \<Rightarrow>
          if ls_is_truncated l
          then (case list_all_pages n ds bucket pre delim after mx (ls_next_continuation_token l) of
                  Some (os, cs) \<Rightarrow> Some (ls_objects l @ os, ls_common_prefixes l @ cs)
                | None \<Rightarrow> None)
          else Some (ls_objects l, ls_common_prefixes l))"

lemma page_loop_next:
  "pg_truncated (page_loop pre delim token after mx keys ch co n) \<longleftrightarrow>
   pg_next (page_loop pre delim token after mx keys ch co n) \<noteq> None"
  by (induction keys arbitrary: ch co n) (auto split: option.splits)

lemma list_all_pages_follow:
  assumes "head_bucket ds bucket = Ok ()"
    and "pages.follow pre delim after mx (listed_keys ds bucket pre) n token = Some (xs, ys)"
  shows "\<exists>cs. list_all_pages n ds bucket pre delim after mx token = Some (read_objects ds bucket xs, cs)
    \<and> mset cs = mset ys"
  using assms(2)
proof (induction n arbitrary: token xs ys)
  case (Suc n)
  let ?keys = "listed_keys ds bucket pre"
  let ?pg = "page_loop pre delim token after mx ?keys [] [] 0"
  have l: "list_objects_v2 ds bucket pre delim token after mx =
    Ok \<lparr> ls_objects = read_objects ds bucket (pg_chosen ?pg), ls_common_prefixes = sort (pg_common ?pg),
         ls_is_truncated = pg_truncated ?pg, ls_next_continuation_token = pg_next ?pg \<rparr>"
    using assms(1) by (simp add: list_objects_v2_def Let_def)
  show ?case
  proof (cases "pg_truncated ?pg")
    case False
    then have "listing_page pre delim after mx ?keys token = ((pg_chosen ?pg, pg_common ?pg), None)"
      by (simp add: listing_page_def Let_def)
    with Suc.prems have "xs = pg_chosen ?pg" "ys = pg_common ?pg" by simp_all
    with False show ?thesis by (simp add: l)
  next
    case True
    then obtain u where u: "pg_next ?pg = Some u" using page_loop_next by blast
    with True have "listing_page pre delim after mx ?keys token = ((pg_chosen ?pg, pg_common ?pg), Some u)"
      by (simp add: listing_page_def Let_def)
    with Suc.prems obtain xs' ys' where f: "pages.follow pre delim after mx ?keys n (Some u) = Some (xs', ys')"
      and x: "xs = pg_chosen ?pg @ xs'" "ys = pg_common ?pg @ ys'" by (auto split: option.splits)
    from Suc.IH [OF f] obtain cs where
      "list_all_pages n ds bucket pre delim after mx (Some u) = Some (read_objects ds bucket xs', cs)"
      "mset cs = mset ys'" by blast
    with True u x show ?thesis by (simp add: l read_objects_def)
  qed
qed simp

lemma full_loop_spec:
  "fst (full_loop pre delim after keys co) =
     filter (\<lambda>k. \<not> skipped None after k \<and> common_prefix pre delim k = None) keys"
  "distinct co \<Longrightarrow> distinct (co @ snd (full_loop pre delim after keys co))"
  "set (co @ snd (full_loop pre delim after keys co)) =
     set co \<union> {cp. \<exists>k \<in> set keys. \<not> skipped None after k \<and> common_prefix pre delim k = Some cp}"
proof -
  show "fst (full_loop pre delim after keys co) =
     filter (\<lambda>k. \<not> skipped None after k \<and> common_prefix pre delim k = None) keys"
    by (induction keys arbitrary: co) (auto simp: Let_def case_prod_beta split: option.splits)
  show "distinct co \<Longrightarrow> distinct (co @ snd (full_loop pre delim after keys co))"
  proof (induction keys arbitrary: co)
    case (Cons k keys)
    show ?case
    proof (cases "common_prefix pre delim k")
      case (Some cp)
      with Cons.IH [OF Cons.prems] Cons.IH [of "co @ [cp]"] Cons.prems show ?thesis
        by (auto simp: Let_def case_prod_beta)
    qed (use Cons in \<open>auto simp: Let_def case_prod_beta\<close>)
  qed simp
  show "set (co @ snd (full_loop pre delim after keys co)) =
     set co \<union> {cp. \<exists>k \<in> set keys. \<not> skipped None after k \<and> common_prefix pre delim k = Some cp}"
  proof (induction keys arbitrary: co)
    case (Cons k keys)
    show ?case
      using Cons.IH [of co] Cons.IH [of "co @ [the (common_prefix pre delim k)]"]
      by (cases "common_prefix pre delim k") (auto simp: Let_def case_prod_beta)
  qed simp
qed

lemma sorted_listed_keys: "sorted (listed_keys ds bucket pre)"
  by (simp add: listed_keys_def)

end
