(* ===== verification/Listing_Keys.thy ===== *)
theory Listing_Keys
  imports Listing_Pages Store_Frame
begin

text \<open>
  The keys a listing is built from: on drives whose names are ordinary file names every listed key is
  the slash-joined path of a directory of the bucket, and no key is listed twice.
\<close>

section \<open>Trees of ordinary names\<close>

definition plain_tree :: "drive \<Rightarrow> bool" where
  "plain_tree d = (distinct (map fst (drv_fs d)) \<and> list_all (\<lambda>e. plain_path (fst e)) (drv_fs d))"

lemma plain_tree_path: "plain_tree d \<Longrightarrow> (q, n) \<in> set (drv_fs d) \<Longrightarrow> plain_path q"
  by (auto simp: plain_tree_def list_all_iff)

text \<open>A drive from which entries were removed and nothing else changed.\<close>

definition shrunk :: "drive \<Rightarrow> drive \<Rightarrow> bool" where
  "shrunk d d' \<longleftrightarrow> same_env d d' \<and> (\<exists>P. drv_fs d' = filter P (drv_fs d))"

lemma shrunk_refl [simp]: "shrunk d d"
  by (auto simp: shrunk_def intro: exI [of _ "\<lambda>_. True"])

lemma shrunk_trans: "shrunk a b \<Longrightarrow> shrunk b c \<Longrightarrow> shrunk a c"
  by (auto simp: shrunk_def dest: same_env_trans)

lemma shrunk_remove_tree [simp]: "shrunk d (d\<lparr>drv_fs := remove_tree p (drv_fs d)\<rparr>)"
  by (auto simp: shrunk_def same_env_def remove_tree_def)

lemma shrunk_remove [simp]: "shrunk d (fst (drive_remove_dir_all d rel))" "shrunk d (fst (drive_remove_dir d rel))"
  by (auto simp: drive_remove_dir_all_def drive_remove_dir_def split: option.splits node.splits)

lemma shrunk_prune_empty: "shrunk d (prune_empty d rel stop)"
proof (induction d rel stop rule: prune_empty.induct)
  case (1 d rel stop)
  show ?case
  proof (cases "rel \<noteq> stop \<and> pstarts_with rel stop \<and> snd (drive_remove_dir d rel) \<and> pparent rel \<noteq> None")
    case True
    then obtain p where p: "pparent rel = Some p" by blast
    with True have "prune_empty d rel stop = prune_empty (fst (drive_remove_dir d rel)) p stop"
      by (subst prune_empty.simps) (auto split: prod.splits bool.splits)
    moreover have "shrunk (fst (drive_remove_dir d rel)) (prune_empty (fst (drive_remove_dir d rel)) p stop)"
      using 1 [of "fst (drive_remove_dir d rel)" True p] True p by (simp add: prod_eq_iff)
    ultimately show ?thesis using shrunk_trans shrunk_remove(2) by metis
  next
    case False
    then have "prune_empty d rel stop = d \<or> prune_empty d rel stop = fst (drive_remove_dir d rel)"
      by (subst (1 2) prune_empty.simps) (auto split: prod.splits bool.splits option.splits)
    then show ?thesis by auto
  qed
qed

lemma shrunk_remove_object_dir: "shrunk d (remove_object_dir b rel d)"
  using shrunk_trans [OF shrunk_remove(1) shrunk_prune_empty] by (auto simp: remove_object_dir_def Let_def split: option.splits)

lemma shrunk_plain: "shrunk d d' \<Longrightarrow> plain_tree d \<Longrightarrow> plain_tree d'"
  by (auto simp: shrunk_def plain_tree_def list_all_iff distinct_map_filter)

lemma shrunk_look: "shrunk d d' \<Longrightarrow> plain_tree d \<Longrightarrow> look d' r = Some n \<Longrightarrow> look d r = Some n"
  by (auto simp: shrunk_def plain_tree_def look_def lookup_def same_env_def distinct_map_filter split: if_splits)

section \<open>Walks\<close>

lemma walk_entries:
  assumes "drive_wf d" and "plain_comp b" and "drive_walk d (r_bucket b) = Some es" and "e \<in> set es"
  shows "\<exists>n. (drv_root d @ b # wk_rel e, n) \<in> set (drv_fs d) \<and> wk_is_file e = (n \<noteq> Dir)"
proof -
  have "safe [b]" using assms(2) by (simp add: plain_comp_def)
  then have "locate d (r_bucket b) = Some (drv_root d @ [b])" using assms(1,2) by (simp add: r_bucket_plain)
  with assms(3) have "es = map (\<lambda>(q, n). \<lparr> wk_rel = drop (length (drv_root d @ [b])) q, wk_is_file = (n \<noteq> Dir) \<rparr>)
      (filter (\<lambda>(q, n). strict_prefix (drv_root d @ [b]) q) (drv_fs d))"
    by (simp add: drive_walk_def split: if_splits)
  with assms(4) obtain q n where "(q, n) \<in> set (drv_fs d)" "strict_prefix (drv_root d @ [b]) q"
    "e = \<lparr> wk_rel = drop (length (drv_root d @ [b])) q, wk_is_file = (n \<noteq> Dir) \<rparr>" by (auto simp del: length_append)
  moreover from this obtain r where "q = (drv_root d @ [b]) @ r" by (auto simp only: strict_prefix_def prefix_def)
  ultimately show ?thesis by (intro exI [of _ n]) simp
qed

lemma walk_shrunk:
  assumes "shrunk d d'" and "drive_wf d" "drive_wf d'" and "plain_comp b"
    and "drive_walk d' (r_bucket b) = Some es'"
  shows "\<exists>es. drive_walk d (r_bucket b) = Some es \<and> set es' \<subseteq> set es"
proof -
  have "safe [b]" using assms(4) by (simp add: plain_comp_def)
  then have loc: "locate d (r_bucket b) = Some (drv_root d @ [b])" "locate d' (r_bucket b) = Some (drv_root d' @ [b])"
    using assms(2-4) by (simp_all add: r_bucket_plain)
  obtain P where P: "drv_fs d' = filter P (drv_fs d)" "drv_root d' = drv_root d" "drv_fault d' = drv_fault d"
    using assms(1) by (auto simp: shrunk_def same_env_def)
  from assms(5) loc(2) have "\<not> drv_fault d OpWalk (r_bucket b)"
    "es' = map (\<lambda>(q, n). \<lparr> wk_rel = drop (length (drv_root d @ [b])) q, wk_is_file = (n \<noteq> Dir) \<rparr>)
      (filter (\<lambda>(q, n). strict_prefix (drv_root d @ [b]) q) (filter P (drv_fs d)))"
    by (simp_all add: drive_walk_def P split: if_splits)
  with loc(1) show ?thesis
    by (simp add: drive_walk_def del: length_append) (rule image_mono, auto)
qed

section \<open>The keys\<close>

lemma set_dedup: "set (dedup_entries seen es) = set es - set seen"
  by (induction es arbitrary: seen) auto

lemma distinct_dedup: "distinct (dedup_entries seen es)"
  by (induction es arbitrary: seen) (auto simp: set_dedup)

lemma set_walk_union: "set (walk_union ds b) =
  {e. \<exists>d \<in> set ds. \<exists>es. drive_walk d (r_bucket b) = Some es \<and> e \<in> set es}"
  by (auto simp: walk_union_def set_dedup split: option.splits) force+

text \<open>The file of a drive that makes a key a listed one.\<close>

definition key_dir :: "walk_entry \<Rightarrow> path" where
  "key_dir e = butlast (wk_rel e)"

lemma entry_keys_iff: "k \<in> set (entry_keys es) \<longleftrightarrow>
  (\<exists>e \<in> set es. k = join_with ''/'' (key_dir e) \<and> wk_is_file e \<and> wk_rel e \<noteq> [] \<and> last (wk_rel e) = XL_META
    \<and> ''.v'' \<notin> set (key_dir e))"
  by (auto simp: entry_keys_def key_dir_def)

lemma join_plain_inj: "plain_path p \<Longrightarrow> plain_path q \<Longrightarrow> join_with ''/'' p = join_with ''/'' q \<Longrightarrow> p = q"
  by (metis components_join)

text \<open>Entries whose relative paths are ordinary.\<close>

lemma distinct_entry_keys:
  assumes "distinct es" and "\<forall>e \<in> set es. plain_path (wk_rel e)"
  shows "distinct (entry_keys es)"
proof -
  let ?sel = "\<lambda>e. wk_is_file e \<and> wk_rel e \<noteq> [] \<and> last (wk_rel e) = XL_META \<and> ''.v'' \<notin> set (butlast (wk_rel e))"
  have "inj_on (\<lambda>e. join_with ''/'' (butlast (wk_rel e))) (set (filter ?sel es))"
  proof (rule inj_onI)
    fix e f :: walk_entry
    assume e: "e \<in> set (filter ?sel es)" and f: "f \<in> set (filter ?sel es)"
      and j: "join_with ''/'' (butlast (wk_rel e)) = join_with ''/'' (butlast (wk_rel f))"
    have p: "plain_path (butlast (wk_rel g))" if "g \<in> set (filter ?sel es)" for g
      using assms(2) that by (auto simp: plain_path_def list_all_iff dest: in_set_butlastD)
    from join_plain_inj [OF p [OF e] p [OF f] j] have "wk_rel e = wk_rel f"
      using e f by (auto simp: append_butlast_last_id [symmetric])
        (metis append_butlast_last_id)
    with e f show "e = f" by (auto intro: walk_entry.equality)
  qed
  with assms(1) show ?thesis by (simp add: entry_keys_def distinct_map)
qed

text \<open>The drives of a store whose names are ordinary.\<close>

definition tidy :: "drive list \<Rightarrow> bool" where
  "tidy ds = list_all (\<lambda>d. drive_wf d \<and> plain_tree d) ds"

lemma tidyD: "tidy ds \<Longrightarrow> d \<in> set ds \<Longrightarrow> drive_wf d" "tidy ds \<Longrightarrow> d \<in> set ds \<Longrightarrow> plain_tree d"
  by (auto simp: tidy_def list_all_iff)

text \<open>A check of tidiness that computes.\<close>

definition tidy_check :: "drive \<Rightarrow> bool" where
  "tidy_check d = (''..'' \<notin> set (drv_root d) \<and> lookup (drv_fs d) (drv_root d) = Some Dir \<and> plain_tree d
     \<and> list_all (\<lambda>e. fst e \<noteq> [] \<and> lookup (drv_fs d) (butlast (fst e)) = Some Dir) (drv_fs d))"

lemma tidy_check: "list_all tidy_check ds \<Longrightarrow> tidy ds"
proof -
  have "tidy_check d \<Longrightarrow> drive_wf d \<and> plain_tree d" for d
    unfolding tidy_check_def list_all_iff drive_wf_def wf_fs_def by (metis fst_conv map_of_SomeD)
  then show "list_all tidy_check ds \<Longrightarrow> tidy ds" by (simp add: tidy_def list_all_iff)
qed

lemma tidy_walk_plain:
  assumes "tidy ds" and "plain_comp b" and "e \<in> set (walk_union ds b)"
  shows "plain_path (wk_rel e)"
proof -
  from assms(3) obtain d es where d: "d \<in> set ds" "drive_walk d (r_bucket b) = Some es" "e \<in> set es"
    by (auto simp: set_walk_union)
  from walk_entries [OF tidyD(1) [OF assms(1) d(1)] assms(2) d(2,3)] obtain n where
    "(drv_root d @ b # wk_rel e, n) \<in> set (drv_fs d)" by blast
  from plain_tree_path [OF tidyD(2) [OF assms(1) d(1)] this] show ?thesis by simp
qed

lemma distinct_listed_keys:
  assumes "tidy ds" and "plain_comp b"
  shows "distinct (listed_keys ds b pre)"
proof -
  have "distinct (entry_keys (walk_union ds b))"
    using tidy_walk_plain [OF assms] by (intro distinct_entry_keys) (auto simp: walk_union_def distinct_dedup)
  then show ?thesis by (simp add: listed_keys_def)
qed

lemma listed_keys_prefix: "k \<in> set (listed_keys ds b pre) \<longleftrightarrow> k \<in> set (listed_keys ds b []) \<and> starts_with k pre"
  by (auto simp: listed_keys_def)

lemma listed_key_names:
  assumes "tidy ds" and "plain_comp b" and "k \<in> set (listed_keys ds b pre)"
  shows "valid_names b k" and "join_with ''/'' (components k) = k"
proof -
  from assms(3) obtain e where e: "e \<in> set (walk_union ds b)" "k = join_with ''/'' (key_dir e)" and ne: "k \<noteq> []"
    by (auto simp: listed_keys_def entry_keys_iff)
  have p: "plain_path (key_dir e)"
    using tidy_walk_plain [OF assms(1,2) e(1)] by (auto simp: key_dir_def plain_path_def list_all_iff dest: in_set_butlastD)
  with e(2) have c: "components k = key_dir e" by (simp add: components_join)
  from c e(2) show "join_with ''/'' (components k) = k" by simp
  have "key_dir e \<noteq> []" using ne e(2) by auto
  moreover have "''..'' \<notin> set (key_dir e)" using p by (auto simp: plain_path_def list_all_iff plain_comp_def)
  ultimately show "valid_names b k"
    using assms(2) c p e(2) join_no_slash_start [OF p] by (simp add: valid_names_def plain_key_def)
qed

lemma listed_path_inj:
  assumes "tidy ds" and "plain_comp b" and "k \<in> set (listed_keys ds b pre)" "k' \<in> set (listed_keys ds b pre')"
    and "obj_path b k = obj_path b k'"
  shows "k = k'"
  using listed_key_names(2) [OF assms(1,2)] assms(3-5) by (metis obj_path_def list.inject)

text \<open>Removals only take keys away.\<close>

lemma tidy_shrunk: "tidy ds \<Longrightarrow> list_all2 shrunk ds ds' \<Longrightarrow> \<forall>d \<in> set ds'. drive_wf d \<Longrightarrow> tidy ds'"
  unfolding tidy_def list_all_iff list_all2_conv_all_nth by (metis shrunk_plain in_set_conv_nth)

lemma listed_keys_shrunk:
  assumes "tidy ds" and "tidy ds'" and "list_all2 shrunk ds ds'" and "plain_comp b"
  shows "set (listed_keys ds' b pre) \<subseteq> set (listed_keys ds b pre)"
proof -
  have "set (walk_union ds' b) \<subseteq> set (walk_union ds b)"
  proof
    fix e assume "e \<in> set (walk_union ds' b)"
    then obtain d' es' where "d' \<in> set ds'" "drive_walk d' (r_bucket b) = Some es'" and es': "e \<in> set es'"
      unfolding set_walk_union by blast
    then obtain i where i: "i < length ds'" "drive_walk (ds' ! i) (r_bucket b) = Some es'" by (auto simp: in_set_conv_nth)
    have l: "length ds = length ds'" "shrunk (ds ! i) (ds' ! i)"
      using assms(3) i(1) by (auto simp: list_all2_conv_all_nth)
    have "drive_wf (ds ! i)" "drive_wf (ds' ! i)" using tidyD(1) assms(1,2) i(1) l(1) by auto
    from walk_shrunk [OF l(2) this assms(4) i(2)] obtain es where
      "drive_walk (ds ! i) (r_bucket b) = Some es" "e \<in> set es" using es' by blast
    moreover have "ds ! i \<in> set ds" using i(1) l(1) by simp
    ultimately show "e \<in> set (walk_union ds b)" unfolding set_walk_union by blast
  qed
  then show ?thesis by (auto simp: listed_keys_def entry_keys_iff)
qed

end
