(* ===== verification/Key_Escape.thy ===== *)
theory Key_Escape
  imports Store_Frame
begin

text \<open>
  Keys that climb out of their bucket: where a path with \<open>..\<close> leads, and what a read through it sees.
\<close>

lemma components_up:
  assumes "plain_comp b2"
  shows "components (''../'' @ b2 @ ''/'' @ k2) = ''..'' # b2 # components k2"
proof -
  have "split_on (CHR ''/'') (''../'' @ b2 @ ''/'' @ k2) = ''..'' # b2 # split_on (CHR ''/'') k2"
    using assms by (simp add: plain_comp_def split_on_append)
  then show ?thesis using assms by (simp add: components_def plain_comp_def)
qed

lemma resolve_append:
  "safe p \<Longrightarrow> resolve fs cur (p @ q) = resolve fs (cur @ p) q"
  by (induction p arbitrary: cur) auto

text \<open>The path of \<open>f\<close> in the directory of the climbing key.\<close>

definition climb :: "string \<Rightarrow> path \<Rightarrow> pathbuf" where
  "climb b q = PathBuf False (b # ''..'' # q)"

lemma locate_climb:
  assumes "drive_wf d" and "plain_comp b" and "look d [b] = Some Dir" and "safe q"
  shows "locate d (climb b q) = locate d (PathBuf False q)"
proof -
  have "safe (drv_root d @ [b])" using assms(1,2) by (auto simp: drive_wf_def safe_def plain_comp_def)
  then have "locate d (climb b q) = resolve (drv_fs d) (drv_root d @ [b]) (''..'' # q)"
    using resolve_append [of "drv_root d @ [b]" "drv_fs d" "[]"] by (simp add: locate_def drive_abs_def climb_def)
  also have "\<dots> = Some (drv_root d @ q)" using assms(3,4) by (simp add: look_def resolve_safe)
  finally show ?thesis using assms(1,4) by simp
qed

lemma read_climb:
  assumes "drive_wf d" and "healthy d" and "plain_comp b" and "look d [b] = Some Dir" and "safe q"
  shows "drive_read d (climb b q) = drive_read d (PathBuf False q)"
    and "drive_read_at d (climb b q) off len = drive_read_at d (PathBuf False q) off len"
  using locate_climb [OF assms(1,3-5)] assms(2)
  by (simp_all add: drive_read_def drive_read_at_def reach_def healthy_def)

lemma climb_files:
  assumes "plain_comp b" and "valid_names b2 k2" and "plain_comp f"
  shows "pjoin (r_obj_v b (''../'' @ b2 @ ''/'' @ k2) None) f = climb b (obj_path b2 k2 @ [f])"
proof -
  define key where "key = ''../'' @ b2 @ ''/'' @ k2"
  have "components key = ''..'' # b2 # components k2"
    unfolding key_def using assms(2) by (intro components_up) (simp add: valid_names_def)
  moreover have "\<not> starts_with key ''/''" by (simp add: key_def starts_with_def)
  ultimately have "pjoin (r_obj_v b key None) f = climb b (obj_path b2 k2 @ [f])"
    using assms(1,3) by (simp add: r_obj_v_def r_object_def pjoin_plain pjoin_def [of _ key] path_new_plain obj_path_def climb_def)
  then show ?thesis by (simp add: key_def)
qed

text \<open>A read in \<open>b\<close> of a key that climbs into \<open>b2\<close> is a read in \<open>b2\<close>.\<close>

lemma climbing_read:
  assumes b: "plain_comp b" and names: "valid_names b2 k2"
    and ds: "\<forall>d \<in> set ds. drive_wf d \<and> healthy d \<and> look d [b] = Some Dir"
  shows "read_xl ds b (''../'' @ b2 @ ''/'' @ k2) = read_xl ds b2 k2"
    and "object_body E ds b (''../'' @ b2 @ ''/'' @ k2) None m = object_body E ds b2 k2 None m"
proof -
  let ?key = "''../'' @ b2 @ ''/'' @ k2"
  note c = climb_files [OF b names] and f = obj_files [OF names]
  have meta: "decode_xl d (climb b (obj_path b2 k2 @ [XL_META])) = decode_xl d (PathBuf False (obj_path b2 k2 @ [XL_META]))"
    if "d \<in> set ds" for d
    using read_climb(1) [of d b "obj_path b2 k2 @ [XL_META]"] ds that b f(3) by (simp add: decode_xl_def)
  then have "first_some (\<lambda>d. decode_xl d (climb b (obj_path b2 k2 @ [XL_META]))) ds =
    first_some (\<lambda>d. decode_xl d (PathBuf False (obj_path b2 k2 @ [XL_META]))) ds"
    by (subst (1 2) first_some_map) (metis (no_types, lifting) map_eq_conv)
  then show "read_xl ds b ?key = read_xl ds b2 k2"
    by (simp only: read_xl_def read_xl_v_def Let_def c [OF plain_names(2)] f(1))
  have part: "drive_read_at d (climb b (obj_path b2 k2 @ [PART])) off n = drive_read_at d (PathBuf False (obj_path b2 k2 @ [PART])) off n"
    if "d \<in> set ds" for d off n
    using read_climb(2) [of d b "obj_path b2 k2 @ [PART]"] ds that b f(4) by simp
  have shards: "map (read_shard E sums (climb b (obj_path b2 k2 @ [PART])) blk off n) (enumerate 0 ds) =
    map (read_shard E sums (PathBuf False (obj_path b2 k2 @ [PART])) blk off n) (enumerate 0 ds)" for sums blk off n
    using part by (intro map_cong [OF refl]) (auto simp: read_shard_def dest!: in_set_enumerate_eq [THEN iffD1])
  have "reconstruct_blocks E ds (climb b (obj_path b2 k2 @ [PART])) cd bs stored sums bl off =
    reconstruct_blocks E ds (PathBuf False (obj_path b2 k2 @ [PART])) cd bs stored sums bl off" for cd bs stored sums bl off
    by (induction bl arbitrary: off) (simp_all only: reconstruct_blocks.simps shards)
  then have "streaming_body E ds b ?key None m = streaming_body E ds b2 k2 None m"
    by (simp only: streaming_body_def reconstruct_into_def c [OF plain_names(3)] f(2))
  then show "object_body E ds b ?key None m = object_body E ds b2 k2 None m" by (simp only: object_body_def)
qed

end
