(* ===== verification/Listing_Props.thy ===== *)
theory Listing_Props
  imports Listing_Keys Key_Escape Store_Props
begin

text \<open>The properties of the two listings and of the names they are built from.\<close>

section \<open>Pagination\<close>

text \<open>
  C27: on drives with ordinary file names, following the continuation tokens of \<open>list_objects_v2\<close>
  from the start, with any positive page size, ends after at most one page per key (plus one) and gives together exactly the objects whose
  keys fall under no common prefix, in order and each once, and every common prefix exactly once.
\<close>

theorem listing_pages_complete:
  assumes "0 < mx" and "tidy ds" and "plain_comp bucket" and "head_bucket ds bucket = Ok ()"
  shows "\<exists>cs. list_all_pages (Suc (length (listed_keys ds bucket pre))) ds bucket pre delim after mx None =
      Some (read_objects ds bucket
              (filter (\<lambda>k. \<not> skipped None after k \<and> common_prefix pre delim k = None)
                (listed_keys ds bucket pre)), cs)
    \<and> distinct cs
    \<and> set cs = {cp. \<exists>k \<in> set (listed_keys ds bucket pre).
                  \<not> skipped None after k \<and> common_prefix pre delim k = Some cp}"
proof -
  let ?keys = "listed_keys ds bucket pre"
  have able: "listable pre mx ?keys"
    using assms(1) sorted_listed_keys distinct_listed_keys [OF assms(2,3)] by (auto simp: listable_def listed_keys_def)
  have "pages.follow pre delim after mx ?keys (Suc (length ?keys)) None = Some (full_loop pre delim after ?keys [])"
    using pages.follow_complete [OF able, of None "Suc (length ?keys)" delim after] by (simp add: keys_from_def)
  then obtain cs where cs: "list_all_pages (Suc (length ?keys)) ds bucket pre delim after mx None =
      Some (read_objects ds bucket (fst (full_loop pre delim after ?keys [])), cs)"
    "mset cs = mset (snd (full_loop pre delim after ?keys []))"
    using list_all_pages_follow [OF assms(4), of pre delim after mx "Suc (length ?keys)" None
        "fst (full_loop pre delim after ?keys [])" "snd (full_loop pre delim after ?keys [])"]
    by auto
  from cs(2) have "distinct cs \<longleftrightarrow> distinct (snd (full_loop pre delim after ?keys []))"
    "set cs = set (snd (full_loop pre delim after ?keys []))"
    by (rule mset_eq_imp_distinct_iff, rule mset_eq_setD)
  with cs(1) full_loop_spec [where pre = pre and delim = delim and after = after and keys = ?keys and co = "[]"]
  show ?thesis by simp
qed


definition ex_puts :: "string list \<Rightarrow> store" where
  "ex_puts keys =
     foldl (\<lambda>st k. fst (put_object (ex_env rs_xor) (ex_ctx ''u1'') st ''bkt'' k (Body [7] False) ''text/plain'' [] False))
       (ex_store 2 1) keys"

definition ex_listed :: "drive list" where
  "ex_listed = st_drives (ex_puts [''b'', ''a/2'', ''a/1''])"

theorem listing_pages_complete_witness:
  "\<exists>cs. list_all_pages 4 ex_listed ''bkt'' [] (Some ''/'') None 1 None =
      Some (read_objects ex_listed ''bkt'' [''b''], cs) \<and> set cs = {''a/''}"
proof -
  have hyps: "head_bucket ex_listed ''bkt'' = Ok ()" by code_simp
  have keys: "listed_keys ex_listed ''bkt'' [] = [''a/1'', ''a/2'', ''b'']" by code_simp
  have "list_all tidy_check ex_listed" by code_simp
  then have dist: "tidy ex_listed" by (rule tidy_check)
  have plain: "plain_comp ''bkt''" by code_simp
  have len: "Suc (length (listed_keys ex_listed ''bkt'' [])) = 4" by (simp add: keys)
  have cps: "map (common_prefix [] (Some ''/'')) [''a/1'', ''a/2'', ''b''] = [Some ''a/'', Some ''a/'', None]"
    by code_simp
  show ?thesis
    using listing_pages_complete [of 1 ex_listed "''bkt''" "[]" "Some ''/''" None, OF _ dist plain hyps, unfolded len]
      cps by (auto simp: keys skipped_def)
qed

section \<open>Names and paths\<close>

text \<open>
  C28: for validated names the object's directory lies strictly inside its bucket's directory on every
  drive: the path the operating system resolves is the drive root, the bucket (never the system
  directory) and at least one further ordinary component.
\<close>

theorem validated_paths_confined:
  assumes "validate_bucket_name b = Ok ()" and "validate_key k = Ok ()" and "drive_wf d"
  shows "locate d (r_object b k) = Some (drv_root d @ b # components k) \<and> b \<noteq> SYS_DIR \<and>
    components k \<noteq> [] \<and> (\<forall>c \<in> set (b # components k). plain_comp c)"
proof -
  have names: "valid_names b k" by (rule valid_names_validated [OF assms(1,2)])
  have "locate d (r_object b k) = Some (drv_root d @ obj_path b k)"
    using assms(3) obj_path_safe [OF names] by (simp add: r_object_path [OF names])
  moreover have "\<forall>c \<in> set (components k). plain_comp c"
    using names by (auto simp: valid_names_def plain_key_def intro: components_plain)
  ultimately show ?thesis
    using names valid_bucket_not_sys [OF assms(1)] by (auto simp: valid_names_def obj_path_def)
qed

theorem validated_paths_confined_witness:
  "locate (ex_drive ''d0'') (r_object ''bkt'' ''a/b'') = Some [''d0'', ''bkt'', ''a'', ''b'']"
proof -
  have v: "validate_bucket_name ''bkt'' = Ok ()" "validate_key ''a/b'' = Ok ()" by code_simp+
  have c: "components ''a/b'' = [''a'', ''b'']" by code_simp
  show ?thesis
    using validated_paths_confined [OF v, of "ex_drive ''d0''"] ex_drive_wf [of "''d0''"]
    by (simp add: c ex_drive_def drive_new_def)
qed

text \<open>
  A key and the same key with a trailing slash are both accepted and denote the same object: they
  have one directory on every drive, so each of them reads, overwrites and deletes the other.
\<close>

theorem trailing_slash_alias:
  assumes "validate_key k = Ok ()"
  shows "validate_key (k @ ''/'') = Ok () \<and> r_object b (k @ ''/'') = r_object b k \<and>
    read_xl ds b (k @ ''/'') = read_xl ds b k"
proof -
  from assms have k: "k \<noteq> []" "\<not> starts_with k ''/''" by (auto simp: validate_key_Ok)
  then have sw: "\<not> starts_with (k @ ''/'') ''/''" by (cases k) (auto simp: starts_with_def)
  with assms have "validate_key (k @ ''/'') = Ok ()" by (auto simp: validate_key_Ok split_on_trailing)
  moreover have "r_object b (k @ ''/'') = r_object b k"
    using sw k by (simp add: r_object_def pjoin_def components_trailing)
  ultimately show ?thesis by (simp add: read_xl_def read_xl_v_def r_obj_v_def)
qed

theorem trailing_slash_alias_witness:
  "validate_key ''dir/'' = Ok () \<and> r_object ''bkt'' ''dir/'' = r_object ''bkt'' ''dir''"
proof -
  have "validate_key ''dir'' = Ok ()" by code_simp
  from trailing_slash_alias [OF this, of "''bkt''" "[]"] show ?thesis by simp
qed

text \<open>
  The read operations do not validate the key, and a key that climbs out of its bucket reaches
  another: on drives that fail nothing and hold both buckets, reading \<open>../b2/k2\<close> in \<open>b\<close> reads the
  metadata of \<open>k2\<close> in \<open>b2\<close>.
\<close>

theorem unvalidated_key_escapes:
  assumes "plain_comp b" and "valid_names b2 k2"
    and "\<forall>d \<in> set ds. drive_wf d \<and> healthy d \<and> look d [b] = Some Dir"
  shows "read_xl ds b (''../'' @ b2 @ ''/'' @ k2) = read_xl ds b2 k2 \<and>
    \<not> is_ok (validate_key (''../'' @ b2 @ ''/'' @ k2))"
  using climbing_read(1) [OF assms] by (simp add: validate_key_def starts_with_def)

definition ex_two_buckets :: "drive list" where
  "ex_two_buckets = st_drives (fst (create_bucket (fst ex_put) ''pub''))"

theorem unvalidated_key_escapes_witness:
  "read_xl ex_two_buckets ''pub'' ''../bkt/k'' = read_xl ex_two_buckets ''bkt'' ''k'' \<and>
   is_ok (read_xl ex_two_buckets ''bkt'' ''k'')"
proof -
  obtain om where run: "put_object (ex_env rs_xor) (ex_ctx ''u1'') (ex_store 2 1) ''bkt'' ''k''
    (Body [1, 2, 3] False) ''text/plain'' [] False = (fst ex_put, Ok om)" by (rule ex_put_run)
  have v: "validate_bucket_name ''bkt'' = Ok ()" "vmode (st_drives (ex_store 2 1)) ''bkt'' = Off"
    "plain_comp ''pub''" "valid_names ''bkt'' ''k''" "is_ok (read_xl ex_two_buckets ''bkt'' ''k'')"
    "validate_bucket_name ''pub'' = Ok ()" "\<not> meta_stat_any (st_drives (fst ex_put)) (r_bucket ''pub'')"
    "list_all (\<lambda>d. look d [''pub''] = Some Dir) ex_two_buckets"
    by code_simp+
  have two: "ex_two_buckets = map (\<lambda>d. fst (drive_create_dir_all d (r_bucket ''pub''))) (st_drives (fst ex_put))"
    using v(6,7) by (simp add: ex_two_buckets_def create_bucket_def Let_def)
  note keep = put_keeps_store [OF xor_store_ok v(1,2) run]
  have "drive_wf d \<and> healthy d \<and> look d [''pub''] = Some Dir" if "d \<in> set ex_two_buckets" for d
  proof -
    from that have "d \<in> (\<lambda>d. fst (drive_create_dir_all d (PathBuf False [''pub'']))) ` set (st_drives (fst ex_put))"
      unfolding two r_bucket_plain [OF v(3)] by simp
    then obtain d0 where d0: "d0 \<in> set (st_drives (fst ex_put))"
      "d = fst (drive_create_dir_all d0 (PathBuf False [''pub'']))" by blast
    have "drive_wf d0" "healthy d0" using keep(1) keep(2) [OF ex_healthy] d0(1) by (auto simp: store_ok_def)
    with drive_create_dir_all_eq(3,4) [of d0 "[''pub'']"] d0(2) v(8) that show ?thesis
      by (auto simp: list_all_iff intro: healthy_env)
  qed
  with unvalidated_key_escapes [OF v(3,4), of ex_two_buckets] v(5) show ?thesis by simp
qed

end
