(* ===== verification/Lock.thy ===== *)
theory Lock
  imports KP_Prelude
begin

text \<open>
  \<open>src/cluster/lock.rs\<close> and the lock routes of \<open>src/cluster/server.rs\<close>: the leased lock table of a
  drive node with its fencing tokens, the quorum lock of a gateway over several nodes, and the lock
  set of the store.  Time is in milliseconds; a token is a \<open>u64\<close> counter that a node would have to
  grant 2^64 leases to exhaust, so it is a natural number here.
\<close>

section \<open>The lock table of a node\<close>

record lock_slot =
  lk_owner :: string
  lk_expiry :: nat
  lk_token :: nat

type_synonym lock_table = "(string \<times> lock_slot) list"

definition LOCK_TTL :: nat where "LOCK_TTL = 30000"

text \<open>The collection of long-idle free slots, once the table has grown past 4096 entries.\<close>

definition keep_slot :: "nat \<Rightarrow> lock_slot \<Rightarrow> bool" where
  "keep_slot now s = (lk_owner s \<noteq> [] \<or> now < lk_expiry s + LOCK_TTL * 10)"

definition collect_slots :: "nat \<Rightarrow> lock_table \<Rightarrow> lock_table" where
  "collect_slots now m = (if 4096 < length m then filter (\<lambda>e. keep_slot now (snd e)) m else m)"

definition slot_or_new :: "nat \<Rightarrow> lock_table \<Rightarrow> string \<Rightarrow> lock_slot" where
  "slot_or_new now m r =
     (case map_of m r of Some s \<Rightarrow> s | None \<Rightarrow> \<lparr> lk_owner = [], lk_expiry = now, lk_token = 0 \<rparr>)"

definition held_by_other :: "nat \<Rightarrow> lock_slot \<Rightarrow> string \<Rightarrow> bool" where
  "held_by_other now s owner = (lk_owner s \<noteq> [] \<and> now < lk_expiry s \<and> lk_owner s \<noteq> owner)"

definition lease :: "nat \<Rightarrow> lock_slot \<Rightarrow> string \<Rightarrow> nat \<Rightarrow> lock_slot" where
  "lease now s owner ttl =
     (let reentrant = (lk_owner s = owner \<and> now < lk_expiry s)
      in \<lparr> lk_owner = owner, lk_expiry = now + ttl,
           lk_token = (if reentrant then lk_token s else lk_token s + 1) \<rparr>)"

definition table_acquire ::
  "nat \<Rightarrow> lock_table \<Rightarrow> string \<Rightarrow> string \<Rightarrow> nat \<Rightarrow> lock_table \<times> nat option" where
  "table_acquire now m0 resource owner ttl =
     (let m = collect_slots now m0;
          s = slot_or_new now m resource
      in if held_by_other now s owner then (AList.update resource s m, None)
         else let s' = lease now s owner ttl
              in (AList.update resource s' m, Some (lk_token s')))"

definition table_release :: "lock_table \<Rightarrow> string \<Rightarrow> string \<Rightarrow> lock_table \<times> bool" where
  "table_release m resource owner =
     (case map_of m resource of
        Some s \<Rightarrow>
          (if lk_owner s = owner then (AList.update resource (s\<lparr>lk_owner := []\<rparr>) m, True) else (m, False))
      | None \<Rightarrow> (m, False))"

definition fence_ok :: "lock_table \<Rightarrow> string \<Rightarrow> nat \<Rightarrow> bool" where
  "fence_ok m resource token =
     (case map_of m resource of Some s \<Rightarrow> lk_token s \<le> token | None \<Rightarrow> True)"

section \<open>The lock routes of a drive node\<close>

text \<open>
  \<open>lock_acquire\<close> answers a grant with status 200 and the token in decimal, a refusal with 409;
  \<open>lock_release\<close> answers 200 in any case.
\<close>

definition lock_acquire ::
  "nat \<Rightarrow> lock_table \<Rightarrow> string \<Rightarrow> string \<Rightarrow> nat \<Rightarrow> lock_table \<times> nat \<times> string" where
  "lock_acquire now m resource owner ttl_ms =
     (case table_acquire now m resource owner ttl_ms of
        (m', Some token) \<Rightarrow> (m', 200, show_nat token)
      | (m', None) \<Rightarrow> (m', 409, []))"

definition lock_release :: "lock_table \<Rightarrow> string \<Rightarrow> string \<Rightarrow> lock_table \<times> nat" where
  "lock_release m resource owner = (fst (table_release m resource owner), 200)"

section \<open>The client of one node\<close>

text \<open>
  What the network does to one call: it goes through, the node handles it but the answer is lost, or
  it never arrives.
\<close>

datatype link = Through | AnswerLost | Unreachable

definition try_acquire ::
  "link \<Rightarrow> nat \<Rightarrow> lock_table \<Rightarrow> string \<Rightarrow> string \<Rightarrow> lock_table \<times> nat option" where
  "try_acquire l now m resource owner =
     (case l of
        Unreachable \<Rightarrow> (m, None)
      | AnswerLost \<Rightarrow> (fst (lock_acquire now m resource owner LOCK_TTL), None)
      | Through \<Rightarrow>
          (case lock_acquire now m resource owner LOCK_TTL of
             (m', status, answer) \<Rightarrow>
               (m', if status = 200 then parse_u64 (trim answer) else None)))"

definition client_release :: "link \<Rightarrow> lock_table \<Rightarrow> string \<Rightarrow> string \<Rightarrow> lock_table" where
  "client_release l m resource owner =
     (if l = Unreachable then m else fst (lock_release m resource owner))"

section \<open>The quorum lock\<close>

record lock_node =
  ln_base :: string
  ln_table :: lock_table

definition lock_quorum :: "lock_node list \<Rightarrow> nat" where
  "lock_quorum nodes = length nodes div 2 + 1"

text \<open>
  One round over the nodes, and the release on every node.  Each call has its own link behaviour and
  its own time, since the calls are made one after another.
\<close>

fun acquire_round ::
  "string \<Rightarrow> string \<Rightarrow> (nat \<Rightarrow> link \<times> nat) \<Rightarrow> nat \<Rightarrow> lock_node list \<Rightarrow> (string \<times> nat) list \<Rightarrow>
   lock_node list \<times> (string \<times> nat) list" where
  "acquire_round resource owner calls i [] tokens = ([], tokens)"
| "acquire_round resource owner calls i (n # ns) tokens =
     (case try_acquire (fst (calls i)) (snd (calls i)) (ln_table n) resource owner of
        (m, tok) \<Rightarrow>
          (let tokens' = (case tok of Some t \<Rightarrow> AList.update (ln_base n) t tokens | None \<Rightarrow> tokens);
               (ns', out) = acquire_round resource owner calls (Suc i) ns tokens'
           in (n\<lparr>ln_table := m\<rparr> # ns', out)))"

definition release_round :: "string \<Rightarrow> string \<Rightarrow> (nat \<Rightarrow> link) \<Rightarrow> lock_node list \<Rightarrow> lock_node list" where
  "release_round resource owner calls nodes =
     map (\<lambda>(i, n). n\<lparr>ln_table := client_release (calls i) (ln_table n) resource owner\<rparr>) (enumerate 0 nodes)"

record fenced =
  fd_owner :: string
  fd_tokens :: "(string \<times> nat) list"

text \<open>
  One attempt of \<open>DistLock::acquire\<close>: the links of the acquiring and of the releasing calls, and what
  the other gateways do to the nodes while this one sleeps.
\<close>

record attempt =
  at_acquire :: "nat \<Rightarrow> link \<times> nat"
  at_release :: "nat \<Rightarrow> link"
  at_others :: "lock_node list \<Rightarrow> lock_node list"

fun dist_loop ::
  "string \<Rightarrow> string \<Rightarrow> nat \<Rightarrow> attempt list \<Rightarrow> lock_node list \<Rightarrow> lock_node list \<times> fenced option" where
  "dist_loop resource owner quorum [] nodes = (nodes, None)"
| "dist_loop resource owner quorum (a # as) nodes =
     (case acquire_round resource owner (at_acquire a) 0 nodes [] of
        (nodes1, tokens) \<Rightarrow>
          (if quorum \<le> length tokens then (nodes1, Some \<lparr> fd_owner = owner, fd_tokens = tokens \<rparr>)
           else dist_loop resource owner quorum as
                  (at_others a (release_round resource owner (at_release a) nodes1))))"

definition dist_acquire ::
  "string \<Rightarrow> string \<Rightarrow> (nat \<Rightarrow> attempt) \<Rightarrow> lock_node list \<Rightarrow> lock_node list \<times> fenced option" where
  "dist_acquire resource uuid world nodes =
     dist_loop resource uuid (lock_quorum nodes) (map world [0 ..< 60]) nodes"

definition dist_release :: "string \<Rightarrow> string \<Rightarrow> (nat \<Rightarrow> link) \<Rightarrow> lock_node list \<Rightarrow> lock_node list" where
  "dist_release resource owner calls nodes = release_round resource owner calls nodes"

text \<open>The sleep after each lost attempt: 20 ms, doubled up to 500 ms.\<close>

primrec backoff :: "nat \<Rightarrow> nat" where
  "backoff 0 = 20"
| "backoff (Suc k) = min (backoff k * 2) 500"

section \<open>The lock set of the store\<close>

text \<open>
  \<open>LocalKeyLocks\<close>: the keys whose mutex somebody holds.  \<open>acquire\<close> waits for the holder, so a call
  returns only when the key is free; here it is the value \<open>None\<close> while it waits.
\<close>

definition local_acquire :: "string set \<Rightarrow> string \<Rightarrow> string set option" where
  "local_acquire held key = (if key \<in> held then None else Some (insert key held))"

record fence_ctx =
  fc_resource :: string
  fc_tokens :: "(string \<times> nat) list"

record lock_guard =
  lg_resource :: string
  lg_dist :: "string option"
  lg_tokens :: "(string \<times> nat) list"

definition guard_of :: "string \<Rightarrow> fenced option \<Rightarrow> lock_guard" where
  "guard_of resource f =
     (case f of
        Some x \<Rightarrow> \<lparr> lg_resource = resource, lg_dist = Some (fd_owner x), lg_tokens = fd_tokens x \<rparr>
      | None \<Rightarrow> \<lparr> lg_resource = resource, lg_dist = None, lg_tokens = [] \<rparr>)"

text \<open>The distributed part is configured (\<open>Some\<close> nodes) or not.\<close>

definition lockset_acquire ::
  "string \<Rightarrow> string \<Rightarrow> (nat \<Rightarrow> attempt) \<Rightarrow> string set \<Rightarrow> lock_node list option \<Rightarrow>
   (string set \<times> lock_node list option \<times> lock_guard) option" where
  "lockset_acquire resource uuid world held dist =
     (case local_acquire held resource of
        None \<Rightarrow> None
      | Some held' \<Rightarrow>
          (case dist of
             None \<Rightarrow> Some (held', None, guard_of resource None)
           | Some nodes \<Rightarrow>
               (case dist_acquire resource uuid world nodes of
                  (nodes', f) \<Rightarrow> Some (held', Some nodes', guard_of resource f))))"

text \<open>Dropping the guard frees the local key at once and, if there was a quorum, the leases.\<close>

definition guard_drop ::
  "lock_guard \<Rightarrow> (nat \<Rightarrow> link) \<Rightarrow> string set \<Rightarrow> lock_node list option \<Rightarrow> string set \<times> lock_node list option" where
  "guard_drop g calls held dist =
     (held - {lg_resource g},
      (case (dist, lg_dist g) of
         (Some nodes, Some owner) \<Rightarrow> Some (dist_release (lg_resource g) owner calls nodes)
       | _ \<Rightarrow> dist))"

definition guard_fence :: "lock_guard \<Rightarrow> fence_ctx" where
  "guard_fence g = \<lparr> fc_resource = lg_resource g, fc_tokens = lg_tokens g \<rparr>"

definition fence_for :: "fence_ctx option \<Rightarrow> string \<Rightarrow> (string \<times> nat) option" where
  "fence_for ctx base =
     (case ctx of
        None \<Rightarrow> None
      | Some c \<Rightarrow> map_option (\<lambda>t. (fc_resource c, t)) (map_of (fc_tokens c) base))"

end
