(* ===== verification/Cluster.thy ===== *)
theory Cluster
  imports Lock Drive
begin

text \<open>
  \<open>src/cluster/server.rs\<close> and \<open>src/cluster/remote.rs\<close>: a drive node serves its local drive and its
  lock table over HTTP, and \<open>RemoteDrive\<close> is the client that makes it a shard slot of the store.  A
  request is its headers and a call; an answer is a status and a body.  JSON bodies are kept as the
  value they carry.
\<close>

section \<open>The drive node\<close>

record drive_node =
  dn_drive :: drive
  dn_secret :: string
  dn_locks :: lock_table

record rpc_headers =
  rh_auth :: "string option"
  rh_fence_res :: "string option"
  rh_fence_tok :: "string option"
  rh_range :: "string option"

datatype rpc_body =
    NoBody
  | FileBody doc
  | TextBody string
  | StatBody bool
  | DirBody "dir_entry list"
  | WalkBody "(string \<times> bool) list"

datatype rpc =
    Health
  | GetFile string
  | PutFile string doc
  | DelFile string string
  | MkDir string
  | RenameFile string string
  | StatPath string
  | ReadDir string
  | WalkDir string
  | LockAcquire string string nat
  | LockRelease string string

definition safe_rel :: "string \<Rightarrow> nat + pathbuf" where
  "safe_rel p =
     (let rel = path_new p
      in if pb_abs rel \<or> ''..'' \<in> set (pb_comps rel) then Err 400 else Ok rel)"

definition parse_range_header :: "string \<Rightarrow> (nat \<times> nat) option" where
  "parse_range_header v =
     (case strip_prefix ''bytes='' v of
        None \<Rightarrow> None
      | Some spec \<Rightarrow>
          (case split_once (CHR ''-'') spec of
             None \<Rightarrow> None
           | Some (s, e) \<Rightarrow>
               (case parse_u64 s of
                  None \<Rightarrow> None
                | Some start \<Rightarrow>
                    (case parse_u64 e of
                       None \<Rightarrow> None
                     | Some stop \<Rightarrow> if stop < start then None else Some (start, stop - start + 1)))))"

text \<open>The middleware: the bearer secret.\<close>

definition authorized :: "drive_node \<Rightarrow> rpc_headers \<Rightarrow> bool" where
  "authorized n h =
     (case rh_auth h of
        None \<Rightarrow> False
      | Some v \<Rightarrow> (case strip_prefix ''Bearer '' v of None \<Rightarrow> False | Some t \<Rightarrow> t = dn_secret n))"

text \<open>A stale fence is answered with 412; a request whose fence headers are absent or unreadable is not fenced.\<close>

definition fenced_out :: "drive_node \<Rightarrow> rpc_headers \<Rightarrow> nat option" where
  "fenced_out n h =
     (case rh_fence_res h of
        None \<Rightarrow> None
      | Some res \<Rightarrow>
          (case rh_fence_tok h of
             None \<Rightarrow> None
           | Some s \<Rightarrow>
               (case parse_u64 s of
                  None \<Rightarrow> None
                | Some tok \<Rightarrow> if fence_ok (dn_locks n) res tok then None else Some 412)))"

text \<open>\<open>io_status\<close>: 404 when the path, or the directory it should be in, does not exist.\<close>

definition absent :: "drive \<Rightarrow> drive_op \<Rightarrow> pathbuf \<Rightarrow> bool" where
  "absent d op rel =
     (\<not> drv_fault d op rel \<and>
      (case locate d rel of
         None \<Rightarrow> False
       | Some p \<Rightarrow> lookup (drv_fs d) p = None
           \<and> list_all (\<lambda>q. lookup (drv_fs d) q = None \<or> lookup (drv_fs d) q = Some Dir) (prefixes p)))"

definition io_status :: "bool \<Rightarrow> nat" where
  "io_status not_found = (if not_found then 404 else 500)"

definition get_file :: "drive_node \<Rightarrow> rpc_headers \<Rightarrow> string \<Rightarrow> nat \<times> rpc_body" where
  "get_file n h p =
     (case safe_rel p of
        Err c \<Rightarrow> (c, NoBody)
      | Ok rel \<Rightarrow>
          (case Option.bind (rh_range h) parse_range_header of
             Some (offset, len) \<Rightarrow>
               (case drive_read_at (dn_drive n) rel offset len of
                  Some bs \<Rightarrow> (206, FileBody (Bytes bs))
                | None \<Rightarrow> (if absent (dn_drive n) (OpReadAt offset) rel then 404 else 416, NoBody))
           | None \<Rightarrow>
               (case drive_open (dn_drive n) rel of
                  Some c \<Rightarrow> (200, FileBody c)
                | None \<Rightarrow> (io_status (absent (dn_drive n) OpOpen rel), NoBody))))"

text \<open>A handler of a call that changes the drive: the fence, the path, then the drive operation.\<close>

definition changing ::
  "drive_node \<Rightarrow> rpc_headers \<Rightarrow> string \<Rightarrow> (pathbuf \<Rightarrow> drive \<times> nat) \<Rightarrow> drive_node \<times> nat \<times> rpc_body" where
  "changing n h p act =
     (case fenced_out n h of
        Some c \<Rightarrow> (n, c, NoBody)
      | None \<Rightarrow>
          (case safe_rel p of
             Err c \<Rightarrow> (n, c, NoBody)
           | Ok rel \<Rightarrow> (case act rel of (d, c) \<Rightarrow> (n\<lparr>dn_drive := d\<rparr>, c, NoBody))))"

definition answer :: "drive \<Rightarrow> drive_op \<Rightarrow> pathbuf \<Rightarrow> drive \<times> bool \<Rightarrow> drive \<times> nat" where
  "answer d op rel = (\<lambda>(d', ok). (d', if ok then 200 else io_status (absent d op rel)))"

text \<open>\<open>put_file\<close> creates the file and copies the body into it as it arrives.\<close>

definition put_body :: "drive \<Rightarrow> pathbuf \<Rightarrow> doc \<Rightarrow> drive \<times> nat" where
  "put_body d rel c =
     (case drive_create d rel of
        (d1, False) \<Rightarrow> (d1, io_status (absent d OpCreate rel))
      | (d1, True) \<Rightarrow>
          (case write_at d1 (OpAppend 0) rel c of
             (d2, False) \<Rightarrow> (d2, 500)
           | (d2, True) \<Rightarrow> (d2, if drive_shutdown d2 rel then 200 else 500)))"

definition put_file :: "drive_node \<Rightarrow> rpc_headers \<Rightarrow> string \<Rightarrow> doc \<Rightarrow> drive_node \<times> nat \<times> rpc_body" where
  "put_file n h p c = changing n h p (\<lambda>rel. put_body (dn_drive n) rel c)"

definition remove_kind :: "drive \<Rightarrow> string \<Rightarrow> pathbuf \<Rightarrow> drive \<times> nat" where
  "remove_kind d kind rel =
     (if kind = ''file'' then answer d OpRemoveFile rel (drive_remove_file d rel)
      else if kind = ''dir'' then answer d OpRemoveDir rel (drive_remove_dir d rel)
      else if kind = ''tree'' then answer d OpRemoveDirAll rel (drive_remove_dir_all d rel)
      else (d, 400))"

definition del_file :: "drive_node \<Rightarrow> rpc_headers \<Rightarrow> string \<Rightarrow> string \<Rightarrow> drive_node \<times> nat \<times> rpc_body" where
  "del_file n h p kind = changing n h p (remove_kind (dn_drive n) kind)"

definition serve_mkdir :: "drive_node \<Rightarrow> rpc_headers \<Rightarrow> string \<Rightarrow> drive_node \<times> nat \<times> rpc_body" where
  "serve_mkdir n h p =
     changing n h p (\<lambda>rel. answer (dn_drive n) OpMkdir rel (drive_create_dir_all (dn_drive n) rel))"

definition serve_rename :: "drive_node \<Rightarrow> rpc_headers \<Rightarrow> string \<Rightarrow> string \<Rightarrow> drive_node \<times> nat \<times> rpc_body" where
  "serve_rename n h src dst =
     (case fenced_out n h of
        Some c \<Rightarrow> (n, c, NoBody)
      | None \<Rightarrow>
          (case (safe_rel src, safe_rel dst) of
             (Ok f, Ok t) \<Rightarrow>
               (case drive_rename (dn_drive n) f t of
                  (d, ok) \<Rightarrow>
                    (n\<lparr>dn_drive := d\<rparr>,
                     if ok then 200
                     else io_status (absent (dn_drive n) OpRename f
                            \<or> (case pparent t of Some q \<Rightarrow> absent (dn_drive n) OpRename q | None \<Rightarrow> False)),
                     NoBody))
           | _ \<Rightarrow> (n, 400, NoBody)))"

definition serve_stat :: "drive_node \<Rightarrow> string \<Rightarrow> nat \<times> rpc_body" where
  "serve_stat n p =
     (case safe_rel p of
        Err c \<Rightarrow> (c, NoBody)
      | Ok rel \<Rightarrow>
          (case drive_stat (dn_drive n) rel of
             Some is_dir \<Rightarrow> (200, StatBody is_dir)
           | None \<Rightarrow> (io_status (absent (dn_drive n) OpStat rel), NoBody)))"

definition serve_readdir :: "drive_node \<Rightarrow> string \<Rightarrow> nat \<times> rpc_body" where
  "serve_readdir n p =
     (case safe_rel p of
        Err c \<Rightarrow> (c, NoBody)
      | Ok rel \<Rightarrow>
          (case drive_read_dir (dn_drive n) rel of
             Some es \<Rightarrow> (200, DirBody es)
           | None \<Rightarrow> (io_status (absent (dn_drive n) OpReadDir rel), NoBody)))"

definition rel_str :: "pathbuf \<Rightarrow> string" where
  "rel_str p = (if pb_abs p then ''/'' else []) @ join_with ''/'' (pb_comps p)"

definition serve_walk :: "drive_node \<Rightarrow> string \<Rightarrow> nat \<times> rpc_body" where
  "serve_walk n p =
     (case safe_rel p of
        Err c \<Rightarrow> (c, NoBody)
      | Ok rel \<Rightarrow>
          (case drive_walk (dn_drive n) rel of
             Some es \<Rightarrow> (200, WalkBody (map (\<lambda>e. (rel_str (PathBuf False (wk_rel e)), wk_is_file e)) es))
           | None \<Rightarrow> (io_status (absent (dn_drive n) OpWalk rel), NoBody)))"

text \<open>The router behind the secret; \<open>now\<close> is the node's clock.\<close>

definition drive_router ::
  "nat \<Rightarrow> drive_node \<Rightarrow> rpc_headers \<Rightarrow> rpc \<Rightarrow> drive_node \<times> nat \<times> rpc_body" where
  "drive_router now n h call =
     (if \<not> authorized n h then (n, 401, NoBody)
      else case call of
          Health \<Rightarrow> (n, 200, TextBody ''ok'')
        | GetFile p \<Rightarrow> (n, get_file n h p)
        | PutFile p c \<Rightarrow> put_file n h p c
        | DelFile p kind \<Rightarrow> del_file n h p kind
        | MkDir p \<Rightarrow> serve_mkdir n h p
        | RenameFile src dst \<Rightarrow> serve_rename n h src dst
        | StatPath p \<Rightarrow> (n, serve_stat n p)
        | ReadDir p \<Rightarrow> (n, serve_readdir n p)
        | WalkDir p \<Rightarrow> (n, serve_walk n p)
        | LockAcquire r owner ttl_ms \<Rightarrow>
            (case lock_acquire now (dn_locks n) r owner ttl_ms of
               (m, sc, text) \<Rightarrow> (n\<lparr>dn_locks := m\<rparr>, sc, TextBody text))
        | LockRelease r owner \<Rightarrow>
            (case lock_release (dn_locks n) r owner of
               (m, sc) \<Rightarrow> (n\<lparr>dn_locks := m\<rparr>, sc, NoBody)))"

section \<open>The remote drive\<close>

record remote_drive =
  rm_base :: string
  rm_secret :: string

text \<open>One call over the network; \<open>None\<close> when no answer arrives.\<close>

definition rpc_call ::
  "link \<Rightarrow> nat \<Rightarrow> drive_node \<Rightarrow> rpc_headers \<Rightarrow> rpc \<Rightarrow> drive_node \<times> (nat \<times> rpc_body) option" where
  "rpc_call l now n h call =
     (case l of
        Unreachable \<Rightarrow> (n, None)
      | AnswerLost \<Rightarrow> (fst (drive_router now n h call), None)
      | Through \<Rightarrow> (case drive_router now n h call of (n', r) \<Rightarrow> (n', Some r)))"

definition is_success :: "nat \<Rightarrow> bool" where
  "is_success sc = (200 \<le> sc \<and> sc < 300)"

definition plain_headers :: "remote_drive \<Rightarrow> rpc_headers" where
  "plain_headers rd =
     \<lparr> rh_auth = Some (''Bearer '' @ rm_secret rd), rh_fence_res = None, rh_fence_tok = None, rh_range = None \<rparr>"

definition fenced_headers :: "remote_drive \<Rightarrow> fence_ctx option \<Rightarrow> rpc_headers" where
  "fenced_headers rd ctx =
     (case fence_for ctx (rm_base rd) of
        Some (res, tok) \<Rightarrow> (plain_headers rd)\<lparr>rh_fence_res := Some res, rh_fence_tok := Some (show_nat tok)\<rparr>
      | None \<Rightarrow> plain_headers rd)"

definition remote_online :: "link \<Rightarrow> nat \<Rightarrow> drive_node \<Rightarrow> remote_drive \<Rightarrow> bool" where
  "remote_online l now n rd =
     (case snd (rpc_call l now n (plain_headers rd) Health) of Some (s, _) \<Rightarrow> is_success s | None \<Rightarrow> False)"

text \<open>\<open>read\<close> and \<open>open\<close> fetch the whole file; the first collects it, the second streams it.\<close>

definition remote_read :: "link \<Rightarrow> nat \<Rightarrow> drive_node \<Rightarrow> remote_drive \<Rightarrow> pathbuf \<Rightarrow> doc option" where
  "remote_read l now n rd rel =
     (case snd (rpc_call l now n (plain_headers rd) (GetFile (rel_str rel))) of
        Some (s, FileBody c) \<Rightarrow> (if is_success s then Some c else None)
      | _ \<Rightarrow> None)"

definition remote_open :: "link \<Rightarrow> nat \<Rightarrow> drive_node \<Rightarrow> remote_drive \<Rightarrow> pathbuf \<Rightarrow> doc option" where
  "remote_open l now n rd rel = remote_read l now n rd rel"

definition range_header :: "nat \<Rightarrow> nat \<Rightarrow> string" where
  "range_header offset len = ''bytes='' @ show_nat offset @ ''-'' @ show_nat (offset + len - 1)"

definition remote_read_at ::
  "link \<Rightarrow> nat \<Rightarrow> drive_node \<Rightarrow> remote_drive \<Rightarrow> pathbuf \<Rightarrow> nat \<Rightarrow> nat \<Rightarrow> bytes option" where
  "remote_read_at l now n rd rel offset len =
     (case snd (rpc_call l now n ((plain_headers rd)\<lparr>rh_range := Some (range_header offset len)\<rparr>)
                 (GetFile (rel_str rel))) of
        Some (s, FileBody (Bytes bs)) \<Rightarrow> (if is_success s \<and> length bs = len then Some bs else None)
      | _ \<Rightarrow> None)"

text \<open>A call of which only the success matters.\<close>

definition remote_do ::
  "link \<Rightarrow> nat \<Rightarrow> drive_node \<Rightarrow> remote_drive \<Rightarrow> fence_ctx option \<Rightarrow> rpc \<Rightarrow> drive_node \<times> bool" where
  "remote_do l now n rd ctx call =
     (case rpc_call l now n (fenced_headers rd ctx) call of
        (n', Some (s, _)) \<Rightarrow> (n', is_success s)
      | (n', None) \<Rightarrow> (n', False))"

definition remote_write ::
  "link \<Rightarrow> nat \<Rightarrow> drive_node \<Rightarrow> remote_drive \<Rightarrow> fence_ctx option \<Rightarrow> pathbuf \<Rightarrow> doc \<Rightarrow> drive_node \<times> bool" where
  "remote_write l now n rd ctx rel c = remote_do l now n rd ctx (PutFile (rel_str rel) c)"

text \<open>
  \<open>create\<close> hands out a pipe; the bytes written to it are the body of one \<open>PUT\<close>, whose outcome the
  final \<open>shutdown\<close> reports.
\<close>

definition remote_stream ::
  "link \<Rightarrow> nat \<Rightarrow> drive_node \<Rightarrow> remote_drive \<Rightarrow> fence_ctx option \<Rightarrow> pathbuf \<Rightarrow> bytes list \<Rightarrow> drive_node \<times> bool" where
  "remote_stream l now n rd ctx rel writes =
     remote_do l now n rd ctx (PutFile (rel_str rel) (Bytes (concat writes)))"

definition remote_rename ::
  "link \<Rightarrow> nat \<Rightarrow> drive_node \<Rightarrow> remote_drive \<Rightarrow> fence_ctx option \<Rightarrow> pathbuf \<Rightarrow> pathbuf \<Rightarrow> drive_node \<times> bool" where
  "remote_rename l now n rd ctx src dst = remote_do l now n rd ctx (RenameFile (rel_str src) (rel_str dst))"

definition remote_remove ::
  "link \<Rightarrow> nat \<Rightarrow> drive_node \<Rightarrow> remote_drive \<Rightarrow> fence_ctx option \<Rightarrow> pathbuf \<Rightarrow> string \<Rightarrow> drive_node \<times> bool" where
  "remote_remove l now n rd ctx rel kind = remote_do l now n rd ctx (DelFile (rel_str rel) kind)"

definition remote_create_dir_all ::
  "link \<Rightarrow> nat \<Rightarrow> drive_node \<Rightarrow> remote_drive \<Rightarrow> fence_ctx option \<Rightarrow> pathbuf \<Rightarrow> drive_node \<times> bool" where
  "remote_create_dir_all l now n rd ctx rel = remote_do l now n rd ctx (MkDir (rel_str rel))"

definition remote_stat :: "link \<Rightarrow> nat \<Rightarrow> drive_node \<Rightarrow> remote_drive \<Rightarrow> pathbuf \<Rightarrow> bool option" where
  "remote_stat l now n rd rel =
     (case snd (rpc_call l now n (plain_headers rd) (StatPath (rel_str rel))) of
        Some (s, StatBody b) \<Rightarrow> (if is_success s then Some b else None)
      | _ \<Rightarrow> None)"

definition remote_read_dir ::
  "link \<Rightarrow> nat \<Rightarrow> drive_node \<Rightarrow> remote_drive \<Rightarrow> pathbuf \<Rightarrow> dir_entry list option" where
  "remote_read_dir l now n rd rel =
     (case snd (rpc_call l now n (plain_headers rd) (ReadDir (rel_str rel))) of
        Some (s, DirBody es) \<Rightarrow> (if is_success s then Some es else None)
      | _ \<Rightarrow> None)"

definition remote_walk ::
  "link \<Rightarrow> nat \<Rightarrow> drive_node \<Rightarrow> remote_drive \<Rightarrow> pathbuf \<Rightarrow> walk_entry list option" where
  "remote_walk l now n rd rel =
     (case snd (rpc_call l now n (plain_headers rd) (WalkDir (rel_str rel))) of
        Some (s, WalkBody es) \<Rightarrow>
          (if is_success s
           then Some (map (\<lambda>(p, f). \<lparr> wk_rel = pb_comps (path_new p), wk_is_file = f \<rparr>) es) else None)
      | _ \<Rightarrow> None)"

end
