(* ===== verification/Cluster_Facts.thy ===== *)
theory Cluster_Facts
  imports Cluster Store_Write
begin

text \<open>
  What a call over the network does: the wire encodings of paths, tokens and ranges, the calls as
  operations of the local drive, and the interface both kinds of drive offer.
\<close>

section \<open>Encodings\<close>

lemma path_rel_str: "plain_path q \<Longrightarrow> path_new (rel_str (PathBuf False q)) = PathBuf False q"
  by (simp add: rel_str_def path_new_def components_join join_no_slash_start)

lemma safe_rel_str [simp]: "plain_path q \<Longrightarrow> safe_rel (rel_str (PathBuf False q)) = Ok (PathBuf False q)"
  using plain_path_safe [of q] by (simp add: safe_rel_def path_rel_str safe_def)

lemma parse_range_header_range:
  assumes "0 < len" "offset + len \<le> 2 ^ 64"
  shows "parse_range_header (range_header offset len) = Some (offset, len)"
proof -
  have "strip_prefix ''bytes='' (range_header offset len) = Some (show_nat offset @ CHR ''-'' # show_nat (offset + len - 1))"
    using strip_prefix_append [of "''bytes=''"] by (simp add: range_header_def)
  moreover have "split_once (CHR ''-'') (show_nat offset @ CHR ''-'' # show_nat (offset + len - 1)) =
      Some (show_nat offset, show_nat (offset + len - 1))"
    by (rule split_once_append) (rule show_nat_no_sep, simp)
  moreover have "offset \<le> 2 ^ 64 - 1" "offset + len - 1 \<le> 2 ^ 64 - 1" using assms by linarith+
  ultimately show ?thesis using assms(1) by (simp add: parse_range_header_def)
qed

section \<open>Calls as drive operations\<close>

lemma authorized_own [simp]:
  "dn_secret n = rm_secret rd \<Longrightarrow> authorized n (plain_headers rd)"
  "dn_secret n = rm_secret rd \<Longrightarrow> authorized n (fenced_headers rd ctx)"
  "dn_secret n = rm_secret rd \<Longrightarrow> authorized n ((plain_headers rd)\<lparr>rh_range := x\<rparr>)"
  using strip_prefix_append [of "''Bearer ''"]
  by (simp_all add: authorized_def plain_headers_def fenced_headers_def split: option.splits)

lemma plain_headers_range [simp]: "rh_range (plain_headers rd) = None"
  by (simp add: plain_headers_def)

lemma unauthorized_other:
  assumes "dn_secret n \<noteq> rm_secret rd"
  shows "\<not> authorized n (plain_headers rd)" "\<not> authorized n (fenced_headers rd ctx)"
    "\<not> authorized n ((plain_headers rd)\<lparr>rh_range := x\<rparr>)"
  using assms strip_prefix_append [of "''Bearer ''"]
  by (auto simp: authorized_def plain_headers_def fenced_headers_def split: option.splits)

lemma success_codes [simp]: "is_success 200" "is_success 206" "\<not> is_success 401" "\<not> is_success 404" "\<not> is_success 412"
  "\<not> is_success 416" "\<not> is_success 500" "\<not> is_success 400"
  by (simp_all add: is_success_def)

lemma success_io_status [simp]: "\<not> is_success (io_status b)"
  by (simp add: io_status_def)

text \<open>A reachable node with the right secret whose lock table lets the caller's token pass.\<close>

definition serving_node :: "drive_node \<Rightarrow> remote_drive \<Rightarrow> fence_ctx option \<Rightarrow> bool" where
  "serving_node n rd ctx \<longleftrightarrow> dn_secret n = rm_secret rd \<and> fenced_out n (fenced_headers rd ctx) = None
     \<and> drive_wf (dn_drive n) \<and> healthy (dn_drive n)"

lemma remote_do_changing:
  assumes "serving_node n rd ctx" "plain_path q"
    and "\<And>h. drive_router now n h call = (if authorized n h then changing n h (rel_str (PathBuf False q)) act else (n, 401, NoBody))"
  shows "remote_do Through now n rd ctx call =
    (n\<lparr>dn_drive := fst (act (PathBuf False q))\<rparr>, is_success (snd (act (PathBuf False q))))"
  using assms by (simp add: remote_do_def rpc_call_def changing_def serving_node_def case_prod_beta)

lemma snd_answer [simp]: "is_success (snd (answer d op rel r)) = snd r" "fst (answer d op rel r) = fst r"
  by (simp_all add: answer_def case_prod_beta)

lemma put_body_eq:
  assumes wf: "drive_wf d" and h: "healthy d" and q: "safe q"
  shows "fst (put_body d (PathBuf False q) c) = fst (drive_write d (PathBuf False q) c)"
    and "is_success (snd (put_body d (PathBuf False q) c)) = snd (drive_write d (PathBuf False q) c)"
proof -
  let ?p = "drv_root d @ q"
  have nf: "\<not> drv_fault d op r" for op r using h by (simp add: healthy_def)
  have at: "write_at d op (PathBuf False q) x =
      (if lookup (drv_fs d) ?p \<noteq> Some Dir \<and> lookup (drv_fs d) (butlast ?p) = Some Dir
       then (d\<lparr>drv_fs := put ?p (File x) (drv_fs d)\<rparr>, True) else (d, False))" for op x
    using wf q by (simp add: write_at_def reach_def nf)
  let ?d1 = "d\<lparr>drv_fs := put ?p (File (Bytes [])) (drv_fs d)\<rparr>"
  show "fst (put_body d (PathBuf False q) c) = fst (drive_write d (PathBuf False q) c)"
    and "is_success (snd (put_body d (PathBuf False q) c)) = snd (drive_write d (PathBuf False q) c)"
  proof (atomize (full), cases "lookup (drv_fs d) ?p \<noteq> Some Dir \<and> lookup (drv_fs d) (butlast ?p) = Some Dir")
    case True
    then have ne: "?p \<noteq> []" by auto
    then have bl: "butlast ?p \<noteq> ?p" by (metis append_butlast_last_id not_Cons_self2 self_append_conv)
    have loc: "locate ?d1 (PathBuf False q) = Some ?p"
      using wf q by (simp add: locate_def drive_abs_def resolve_safe drive_wf_def safe_def)
    have "write_at ?d1 (OpAppend 0) (PathBuf False q) c = (d\<lparr>drv_fs := put ?p (File c) (drv_fs d)\<rparr>, True)"
      using True loc lookup_put [OF ne, of "File (Bytes [])" "drv_fs d"] bl
      by (simp add: write_at_def reach_def nf put_def update_last)
    with True show "fst (put_body d (PathBuf False q) c) = fst (drive_write d (PathBuf False q) c)
      \<and> is_success (snd (put_body d (PathBuf False q) c)) = snd (drive_write d (PathBuf False q) c)"
      by (simp add: put_body_def drive_create_def drive_write_def at drive_shutdown_def nf)
  next
    case False
    then show "fst (put_body d (PathBuf False q) c) = fst (drive_write d (PathBuf False q) c)
      \<and> is_success (snd (put_body d (PathBuf False q) c)) = snd (drive_write d (PathBuf False q) c)"
      by (auto simp: put_body_def drive_create_def drive_write_def at)
  qed
qed

lemma remote_write_eq:
  assumes "serving_node n rd ctx" "plain_path q"
  shows "remote_write Through now n rd ctx (PathBuf False q) c =
    (n\<lparr>dn_drive := fst (drive_write (dn_drive n) (PathBuf False q) c)\<rparr>, snd (drive_write (dn_drive n) (PathBuf False q) c))"
  using put_body_eq [of "dn_drive n" q c] plain_path_safe [OF assms(2)] assms(1)
  unfolding remote_write_def
  by (subst remote_do_changing [OF assms, where act = "\<lambda>rel. put_body (dn_drive n) rel c"])
    (simp_all add: drive_router_def put_file_def serving_node_def)

text \<open>Bytes sent through the writer of a local drive: the file is created, each write is appended, and
  \<open>shutdown\<close> ends it.\<close>

fun append_all :: "drive \<Rightarrow> nat \<Rightarrow> pathbuf \<Rightarrow> bytes list \<Rightarrow> drive \<times> bool" where
  "append_all d b rel [] = (d, True)"
| "append_all d b rel (w # ws) =
     (case drive_append d b rel w of
        (d', True) \<Rightarrow> append_all d' (Suc b) rel ws
      | (d', False) \<Rightarrow> (d', False))"

definition drive_stream :: "drive \<Rightarrow> pathbuf \<Rightarrow> bytes list \<Rightarrow> drive \<times> bool" where
  "drive_stream d rel writes =
     (case drive_create d rel of
        (d1, False) \<Rightarrow> (d1, False)
      | (d1, True) \<Rightarrow> (case append_all d1 0 rel writes of (d2, ok) \<Rightarrow> (d2, ok \<and> drive_shutdown d2 rel)))"

lemma append_all_eq:
  assumes "\<And>op r. \<not> drv_fault d op r" "locate (d\<lparr>drv_fs := put p (File (Bytes acc)) (drv_fs d)\<rparr>) rel = Some p"
    and "p \<noteq> []" and "\<And>x. locate (d\<lparr>drv_fs := put p (File (Bytes x)) (drv_fs d)\<rparr>) rel = Some p"
  shows "append_all (d\<lparr>drv_fs := put p (File (Bytes acc)) (drv_fs d)\<rparr>) b rel ws =
    (d\<lparr>drv_fs := put p (File (Bytes (acc @ concat ws))) (drv_fs d)\<rparr>, True)"
  using assms(2)
proof (induction ws arbitrary: acc b)
  case (Cons w ws)
  let ?d = "d\<lparr>drv_fs := put p (File (Bytes acc)) (drv_fs d)\<rparr>"
  have "reach ?d op rel = Some (p, Some (File (Bytes acc)))" for op
    using assms(1) Cons.prems lookup_put [OF assms(3), of "File (Bytes acc)" "drv_fs d" p] by (simp add: reach_def)
  then have "drive_append ?d b rel w = (d\<lparr>drv_fs := put p (File (Bytes (acc @ w))) (drv_fs d)\<rparr>, True)"
    by (simp add: drive_append_def put_def update_last)
  then show ?case using Cons.IH [OF assms(4)] by simp
qed simp

lemma drive_stream_eq:
  assumes wf: "drive_wf d" and h: "healthy d" and q: "safe q"
  shows "drive_stream d (PathBuf False q) ws = drive_write d (PathBuf False q) (Bytes (concat ws))"
proof -
  let ?p = "drv_root d @ q"
  have nf: "\<not> drv_fault d op r" for op r using h by (simp add: healthy_def)
  have at: "write_at d op (PathBuf False q) x =
      (if lookup (drv_fs d) ?p \<noteq> Some Dir \<and> lookup (drv_fs d) (butlast ?p) = Some Dir
       then (d\<lparr>drv_fs := put ?p (File x) (drv_fs d)\<rparr>, True) else (d, False))" for op x
    using wf q by (simp add: write_at_def reach_def nf)
  have loc: "locate (d\<lparr>drv_fs := put ?p (File (Bytes x)) (drv_fs d)\<rparr>) (PathBuf False q) = Some ?p" for x
    using wf q by (simp add: locate_def drive_abs_def resolve_safe drive_wf_def safe_def)
  show ?thesis
  proof (cases "lookup (drv_fs d) ?p \<noteq> Some Dir \<and> lookup (drv_fs d) (butlast ?p) = Some Dir")
    case True
    then have "?p \<noteq> []" by auto
    from True append_all_eq [OF nf loc this loc] show ?thesis
      by (simp add: drive_stream_def drive_create_def drive_write_def at drive_shutdown_def nf)
  next
    case False
    then show ?thesis by (auto simp: drive_stream_def drive_create_def drive_write_def at)
  qed
qed

lemma remote_stream_eq:
  assumes "serving_node n rd ctx" "plain_path q"
  shows "remote_stream Through now n rd ctx (PathBuf False q) ws =
    (n\<lparr>dn_drive := fst (drive_stream (dn_drive n) (PathBuf False q) ws)\<rparr>,
     snd (drive_stream (dn_drive n) (PathBuf False q) ws))"
  using remote_write_eq [OF assms, of now "Bytes (concat ws)"] drive_stream_eq [of "dn_drive n" q ws]
    plain_path_safe [OF assms(2)] assms(1)
  by (simp add: remote_stream_def remote_write_def serving_node_def)

lemma remote_remove_eq:
  assumes "serving_node n rd ctx" "plain_path q"
  shows "remote_remove Through now n rd ctx (PathBuf False q) kind =
    (n\<lparr>dn_drive := fst (remove_kind (dn_drive n) kind (PathBuf False q))\<rparr>,
     is_success (snd (remove_kind (dn_drive n) kind (PathBuf False q))))"
  unfolding remote_remove_def
  by (subst remote_do_changing [OF assms, where act = "remove_kind (dn_drive n) kind"])
    (simp_all add: drive_router_def del_file_def)

lemma remote_mkdir_eq:
  assumes "serving_node n rd ctx" "plain_path q"
  shows "remote_create_dir_all Through now n rd ctx (PathBuf False q) =
    (n\<lparr>dn_drive := fst (drive_create_dir_all (dn_drive n) (PathBuf False q))\<rparr>,
     snd (drive_create_dir_all (dn_drive n) (PathBuf False q)))"
  unfolding remote_create_dir_all_def
  by (subst remote_do_changing [OF assms, where act = "\<lambda>rel. answer (dn_drive n) OpMkdir rel (drive_create_dir_all (dn_drive n) rel)"])
    (simp_all add: drive_router_def serve_mkdir_def)

lemma remote_rename_eq:
  assumes "serving_node n rd ctx" "plain_path p" "plain_path q"
  shows "remote_rename Through now n rd ctx (PathBuf False p) (PathBuf False q) =
    (n\<lparr>dn_drive := fst (drive_rename (dn_drive n) (PathBuf False p) (PathBuf False q))\<rparr>,
     snd (drive_rename (dn_drive n) (PathBuf False p) (PathBuf False q)))"
  using assms by (simp add: remote_rename_def remote_do_def rpc_call_def drive_router_def serve_rename_def
      serving_node_def case_prod_beta)

lemma remote_read_eq:
  assumes "serving_node n rd ctx" "plain_path q"
  shows "remote_read Through now n rd (PathBuf False q) = drive_read (dn_drive n) (PathBuf False q)"
proof -
  have "drive_open (dn_drive n) (PathBuf False q) = drive_read (dn_drive n) (PathBuf False q)"
    using assms by (simp add: drive_open_def drive_read_def reach_def serving_node_def healthy_def)
  with assms show ?thesis
    by (simp add: remote_read_def rpc_call_def drive_router_def get_file_def serving_node_def
        split: option.splits)
qed

lemma remote_read_at_eq:
  assumes "serving_node n rd ctx" "plain_path q" "0 < len" "offset + len \<le> 2 ^ 64"
  shows "remote_read_at Through now n rd (PathBuf False q) offset len = drive_read_at (dn_drive n) (PathBuf False q) offset len"
proof -
  have "length bs = len" if "drive_read_at (dn_drive n) (PathBuf False q) offset len = Some bs" for bs
    using that by (auto simp: drive_read_at_def split: option.splits node.splits doc.splits if_splits)
  with assms parse_range_header_range [OF assms(3,4)] show ?thesis
    by (auto simp: remote_read_at_def rpc_call_def drive_router_def get_file_def serving_node_def
        split: option.splits)
qed

lemma remote_look_eq:
  assumes "serving_node n rd ctx" "plain_path q"
  shows "remote_stat Through now n rd (PathBuf False q) = drive_stat (dn_drive n) (PathBuf False q)"
    and "remote_read_dir Through now n rd (PathBuf False q) = drive_read_dir (dn_drive n) (PathBuf False q)"
  using assms by (simp_all add: remote_stat_def remote_read_dir_def rpc_call_def drive_router_def serve_stat_def
      serve_readdir_def serving_node_def split: option.splits)

text \<open>A walk comes back whole when every name in the tree is an ordinary one.\<close>

lemma remote_walk_eq:
  assumes "serving_node n rd ctx" "plain_path q" "\<forall>e \<in> set (drv_fs (dn_drive n)). plain_path (fst e)"
  shows "remote_walk Through now n rd (PathBuf False q) = drive_walk (dn_drive n) (PathBuf False q)"
proof -
  have "plain_path (wk_rel e)" if "drive_walk (dn_drive n) (PathBuf False q) = Some es" "e \<in> set es" for e es
  proof -
    from that obtain r where "locate (dn_drive n) (PathBuf False q) = Some r"
      by (cases "locate (dn_drive n) (PathBuf False q)") (auto simp: drive_walk_def split: if_splits)
    with that obtain x where x: "x \<in> set (drv_fs (dn_drive n))" and e: "wk_rel e = drop (length r) (fst x)"
      by (auto simp: drive_walk_def split: if_splits)
    define p where "p = fst x"
    define k where "k = length r"
    have "p \<in> fst ` set (drv_fs (dn_drive n))" "wk_rel e = drop k p" using x e by (simp_all add: p_def k_def)
    with assms(3) have "plain_path p" by auto
    then have "plain_path (take k p @ drop k p)" by simp
    with \<open>wk_rel e = drop k p\<close> show ?thesis by (simp only: plain_path_simps)
  qed
  then have "map ((\<lambda>(p, f). \<lparr> wk_rel = pb_comps (path_new p), wk_is_file = f \<rparr>)
      \<circ> (\<lambda>e. (rel_str (PathBuf False (wk_rel e)), wk_is_file e))) es = es"
    if "drive_walk (dn_drive n) (PathBuf False q) = Some es" for es
    using that by (intro map_idI) (simp add: path_rel_str)
  with assms show ?thesis
    by (simp add: remote_walk_def rpc_call_def drive_router_def serve_walk_def serving_node_def split: option.splits)
qed

section \<open>The interface of a shard slot\<close>

text \<open>
  What the store relies on when it writes files to a slot and reads them back, whatever the slot is.
\<close>

locale shard_drive =
  fixes good :: "'s \<Rightarrow> bool"
    and fetch :: "'s \<Rightarrow> path \<Rightarrow> doc option"
    and store_at :: "'s \<Rightarrow> path \<Rightarrow> doc \<Rightarrow> 's \<times> bool"
  assumes good_store: "good s \<Longrightarrow> plain_path q \<Longrightarrow> good (fst (store_at s q c))"
    and fetch_stored: "good s \<Longrightarrow> plain_path q \<Longrightarrow> snd (store_at s q c) \<Longrightarrow> fetch (fst (store_at s q c)) q = Some c"
    and fetch_other: "good s \<Longrightarrow> plain_path q \<Longrightarrow> plain_path r \<Longrightarrow> r \<noteq> q \<Longrightarrow> fetch (fst (store_at s q c)) r = fetch s r"
begin

fun store_files :: "'s \<Rightarrow> (path \<times> doc) list \<Rightarrow> 's \<times> bool" where
  "store_files s [] = (s, True)"
| "store_files s ((q, c) # fs) =
     (case store_at s q c of (s', ok) \<Rightarrow> (if ok then store_files s' fs else (s', False)))"

lemma store_files_other:
  "good s \<Longrightarrow> \<forall>x \<in> set fs. plain_path (fst x) \<Longrightarrow> plain_path r \<Longrightarrow> r \<notin> fst ` set fs \<Longrightarrow>
   fetch (fst (store_files s fs)) r = fetch s r"
proof (induction s fs rule: store_files.induct)
  case (2 s q c fs)
  obtain s' ok where st: "store_at s q c = (s', ok)" by force
  with good_store [of s q c] fetch_other [of s q r c] 2 show ?case by (simp split: if_splits)
qed simp

lemma store_files_fetch:
  "good s \<Longrightarrow> \<forall>x \<in> set fs. plain_path (fst x) \<Longrightarrow> distinct (map fst fs) \<Longrightarrow> snd (store_files s fs) \<Longrightarrow>
   \<forall>x \<in> set fs. fetch (fst (store_files s fs)) (fst x) = Some (snd x)"
proof (induction s fs rule: store_files.induct)
  case (2 s q c fs)
  obtain s' ok where st: "store_at s q c = (s', ok)" by force
  with 2 have ok: ok and rest: "snd (store_files s' fs)" and g: "good s'"
    using good_store [of s q c] by (auto split: if_splits)
  have "fetch (fst (store_files s' fs)) q = fetch s' q"
    using 2(3,4) g by (intro store_files_other) auto
  with 2 st ok rest g fetch_stored [of s q c] show ?case by simp
qed simp

end

text \<open>A local drive that fails nothing.\<close>

interpretation local: shard_drive "\<lambda>d. drive_wf d \<and> healthy d"
  "\<lambda>d q. drive_read d (PathBuf False q)" "\<lambda>d q c. drive_write d (PathBuf False q) c"
proof
  fix d q r c assume d: "drive_wf d \<and> healthy d" and q: "plain_path q"
  show g: "drive_wf (fst (drive_write d (PathBuf False q) c)) \<and> healthy (fst (drive_write d (PathBuf False q) c))"
  proof (cases "q = []")
    case True
    have "drive_write d (PathBuf False []) c = (d, False)"
      using d by (simp add: drive_write_def write_at_def reach_safe)
    with True d show ?thesis by simp
  next
    case False
    with drive_write_eq(3,4) [OF _ plain_path_safe [OF q], of d c] d show ?thesis by (auto intro: healthy_env)
  qed
  have ne: "snd (drive_write d (PathBuf False q) c) \<Longrightarrow> q \<noteq> []"
    using d by (auto simp: drive_write_def write_at_def reach_safe split: if_splits)
  show "snd (drive_write d (PathBuf False q) c) \<Longrightarrow>
      drive_read (fst (drive_write d (PathBuf False q) c)) (PathBuf False q) = Some c"
    using ne drive_write_eq [OF _ plain_path_safe [OF q], of d c] d g plain_path_safe [OF q]
    by (simp add: drive_read_eq healthy_def)
  assume r: "plain_path r" "r \<noteq> q"
  show "drive_read (fst (drive_write d (PathBuf False q) c)) (PathBuf False r) = drive_read d (PathBuf False r)"
  proof (cases "q = []")
    case True
    have "drive_write d (PathBuf False []) c = (d, False)"
      using d by (simp add: drive_write_def write_at_def reach_safe)
    with True show ?thesis by simp
  next
    case False
    with drive_write_eq(1) [OF _ plain_path_safe [OF q], of d c] d g r plain_path_safe [OF r(1)] show ?thesis
      by (simp add: drive_read_eq healthy_def)
  qed
qed

text \<open>A remote drive on a serving node, for any clock and any fence that passes.\<close>

lemma fenced_out_drive [simp]: "fenced_out (n\<lparr>dn_drive := d\<rparr>) h = fenced_out n h"
  by (simp add: fenced_out_def split: option.splits)

lemma serving_node_drive:
  "serving_node n rd ctx \<Longrightarrow> serving_node (n\<lparr>dn_drive := d\<rparr>) rd ctx = (drive_wf d \<and> healthy d)"
  by (simp add: serving_node_def)

interpretation remote: shard_drive "\<lambda>n. serving_node n rd ctx"
  "\<lambda>n q. remote_read Through now n rd (PathBuf False q)"
  "\<lambda>n q c. remote_write Through now n rd ctx (PathBuf False q) c" for rd ctx now
proof
  fix n q r c assume n: "serving_node n rd ctx" and q: "plain_path q"
  then have d: "drive_wf (dn_drive n) \<and> healthy (dn_drive n)" by (simp add: serving_node_def)
  note w = remote_write_eq [OF n q, of now c]
  show s: "serving_node (fst (remote_write Through now n rd ctx (PathBuf False q) c)) rd ctx"
    using local.good_store [OF d q] by (simp add: w serving_node_drive [OF n])
  show "snd (remote_write Through now n rd ctx (PathBuf False q) c) \<Longrightarrow>
    remote_read Through now (fst (remote_write Through now n rd ctx (PathBuf False q) c)) rd (PathBuf False q) = Some c"
    using local.fetch_stored [OF d q] by (simp add: remote_read_eq [OF s q]) (simp add: w)
  assume r: "plain_path r" "r \<noteq> q"
  show "remote_read Through now (fst (remote_write Through now n rd ctx (PathBuf False q) c)) rd (PathBuf False r) =
    remote_read Through now n rd (PathBuf False r)"
    using local.fetch_other [OF d q r] by (simp add: remote_read_eq [OF s r(1)] remote_read_eq [OF n r(1)]) (simp add: w)
qed

section \<open>Refused calls and confinement\<close>

lemma router_unauthorized: "\<not> authorized n h \<Longrightarrow> drive_router now n h call = (n, 401, NoBody)"
  by (simp add: drive_router_def)

text \<open>The calls that change the drive.\<close>

definition writing_call :: "rpc \<Rightarrow> bool" where
  "writing_call call = (case call of PutFile _ _ \<Rightarrow> True | DelFile _ _ \<Rightarrow> True | MkDir _ \<Rightarrow> True | RenameFile _ _ \<Rightarrow> True | _ \<Rightarrow> False)"

lemma router_fenced:
  "writing_call call \<Longrightarrow> authorized n h \<Longrightarrow> fenced_out n h = Some c \<Longrightarrow> drive_router now n h call = (n, c, NoBody)"
  by (auto simp: writing_call_def drive_router_def put_file_def del_file_def serve_mkdir_def serve_rename_def changing_def
      split: rpc.splits)

lemma router_reads: "\<not> writing_call call \<Longrightarrow> dn_drive (fst (drive_router now n h call)) = dn_drive n"
  by (auto simp: writing_call_def drive_router_def split: rpc.splits prod.splits)

text \<open>Nothing outside the drive's root changes.\<close>

definition confined :: "drive \<Rightarrow> drive \<Rightarrow> bool" where
  "confined d d' \<longleftrightarrow> drv_root d' = drv_root d \<and>
     (\<forall>r. \<not> prefix (drv_root d) r \<longrightarrow> lookup (drv_fs d') r = lookup (drv_fs d) r)"

lemma confined_refl [simp]: "confined d d"
  by (simp add: confined_def)

lemma confined_trans: "confined a b \<Longrightarrow> confined b c \<Longrightarrow> confined a c"
  by (auto simp: confined_def)

lemma safe_rel_Ok: "safe_rel p = Ok rel \<Longrightarrow> \<exists>q. rel = PathBuf False q \<and> safe q"
  by (cases rel) (auto simp: safe_rel_def Let_def safe_def split: if_splits)

lemma locate_safe_root: "''..'' \<notin> set (drv_root d) \<Longrightarrow> safe q \<Longrightarrow> locate d (PathBuf False q) = Some (drv_root d @ q)"
  by (simp add: locate_def drive_abs_def resolve_safe safe_def)

lemma confined_write_at:
  "''..'' \<notin> set (drv_root d) \<Longrightarrow> safe q \<Longrightarrow> confined d (fst (write_at d op (PathBuf False q) c))"
proof -
  assume root: "''..'' \<notin> set (drv_root d)" and q: "safe q"
  have "lookup (put (drv_root d @ q) n (drv_fs d)) r = lookup (drv_fs d) r"
    if "lookup (drv_fs d) (drv_root d @ q) \<noteq> Some Dir" and r: "\<not> prefix (drv_root d) r" for n r
  proof -
    have "drv_root d @ q \<noteq> []" using that(1) by auto
    moreover have "r \<noteq> drv_root d @ q" using r by auto
    ultimately show ?thesis using lookup_put [of "drv_root d @ q" n "drv_fs d" r] by simp
  qed
  with root q show ?thesis
    by (auto simp: confined_def write_at_def reach_def locate_safe_root split: option.splits)
qed

lemma confined_remove_tree: "confined d (d\<lparr>drv_fs := remove_tree (drv_root d @ q) (drv_fs d)\<rparr>)"
  by (auto simp: confined_def lookup_remove_tree dest: append_prefixD)

lemma confined_removes:
  assumes "''..'' \<notin> set (drv_root d)" "safe q"
  shows "confined d (fst (drive_remove_file d (PathBuf False q)))"
    "confined d (fst (drive_remove_dir d (PathBuf False q)))"
    "confined d (fst (drive_remove_dir_all d (PathBuf False q)))"
  using assms confined_remove_tree [of d q]
  by (auto simp: drive_remove_file_def drive_remove_dir_def drive_remove_dir_all_def reach_def locate_safe_root
      split: option.splits node.splits)

lemma map_of_moved:
  "(\<And>k. k \<in> fst ` set al \<Longrightarrow> f k \<noteq> k \<Longrightarrow> k \<noteq> r \<and> f k \<noteq> r) \<Longrightarrow> map_of (map (\<lambda>(k, v). (f k, v)) al) r = map_of al r"
  by (induction al) force+

lemma confined_move: "confined d (d\<lparr>drv_fs := move_tree (drv_root d @ p) (drv_root d @ q) (drv_fs d)\<rparr>)"
proof -
  let ?p = "drv_root d @ p" and ?q = "drv_root d @ q"
  have "lookup (move_tree ?p ?q (drv_fs d)) r = lookup (drv_fs d) r" if r: "\<not> prefix (drv_root d) r" for r
  proof -
    have "map_of (map (\<lambda>(k, v). ((if prefix ?p k then ?q @ drop (length ?p) k else k), v)) (remove_tree ?q (drv_fs d))) r
      = map_of (remove_tree ?q (drv_fs d)) r"
      using r by (intro map_of_moved) (auto dest: append_prefixD)
    moreover have "move_tree ?p ?q (drv_fs d) =
      map (\<lambda>(k, v). ((if prefix ?p k then ?q @ drop (length ?p) k else k), v)) (remove_tree ?q (drv_fs d))"
      by (auto simp: move_tree_def)
    moreover have "\<not> prefix ?q r" using r by (auto dest: append_prefixD)
    ultimately show ?thesis by (simp add: lookup_def map_of_remove_tree)
  qed
  then show ?thesis by (simp add: confined_def)
qed

lemma confined_rename:
  assumes "''..'' \<notin> set (drv_root d)" "safe p" "safe q"
  shows "confined d (fst (drive_rename d (PathBuf False p) (PathBuf False q)))"
  using assms confined_move [of d p q]
  by (auto simp: drive_rename_def reach_def locate_safe_root split: option.splits)

lemma confined_mkdir:
  assumes wf: "drive_wf d" and q: "safe q"
  shows "confined d (fst (drive_create_dir_all d (PathBuf False q)))"
proof -
  have root: "''..'' \<notin> set (drv_root d)" and dir: "lookup (drv_fs d) (drv_root d) = Some Dir" and wfs: "wf_fs (drv_fs d)"
    using wf by (simp_all add: drive_wf_def)
  have "lookup fs' r = lookup (drv_fs d) r"
    if mk: "mkdirs (drv_fs d) [] (drv_root d @ q) = Some fs'" and r: "\<not> prefix (drv_root d) r" for fs' r
  proof (cases "prefix r (drv_root d @ q)")
    case True
    with r have "strict_prefix r (drv_root d)" by (auto simp: strict_prefix_def prefix_append)
    then have "lookup (drv_fs d) r = Some Dir" using wf_prefix [OF wfs, of "drv_root d" r] dir by simp
    with mkdirs_lookup [OF mk, of r] show ?thesis by simp
  next
    case False
    with mkdirs_lookup [OF mk, of r] show ?thesis by simp
  qed
  then show ?thesis
    using root q by (auto simp: confined_def drive_create_dir_all_def locate_safe_root split: option.splits)
qed

lemma confined_put_body:
  assumes "''..'' \<notin> set (drv_root d)" "safe q"
  shows "confined d (fst (put_body d (PathBuf False q) c))"
proof -
  have cr: "confined d (fst (drive_create d (PathBuf False q)))"
    using confined_write_at [OF assms] by (simp add: drive_create_def)
  have "confined d d2" if "drive_create d (PathBuf False q) = (d1, ok)" "write_at d1 (OpAppend 0) (PathBuf False q) c = (d2, ok')"
    for d1 ok d2 ok'
  proof -
    have d1: "confined d d1" using cr that(1) by simp
    then have "''..'' \<notin> set (drv_root d1)" using assms(1) by (simp add: confined_def)
    from confined_write_at [OF this assms(2), of "OpAppend 0" c] that(2) have "confined d1 d2" by simp
    with d1 show ?thesis by (rule confined_trans)
  qed
  with cr show ?thesis by (auto simp: put_body_def split: prod.splits bool.splits)
qed

lemma confined_changing:
  assumes "\<And>q. safe q \<Longrightarrow> confined (dn_drive n) (fst (act (PathBuf False q)))"
  shows "confined (dn_drive n) (dn_drive (fst (changing n h p act)))"
  using assms by (auto simp: changing_def case_prod_beta split: option.splits sum.splits dest!: safe_rel_Ok)

lemma router_confined:
  assumes wf: "drive_wf (dn_drive n)"
  shows "confined (dn_drive n) (dn_drive (fst (drive_router now n h call)))"
proof (cases "writing_call call \<and> authorized n h")
  case False
  then show ?thesis using router_reads [of call now n h] router_unauthorized [of n h now call] by auto
next
  case True
  have root: "''..'' \<notin> set (drv_root (dn_drive n))" using wf by (simp add: drive_wf_def)
  note act = confined_put_body [OF root] confined_removes [OF root] confined_mkdir [OF wf] confined_rename [OF root]
  from True consider p c where "call = PutFile p c" | p k where "call = DelFile p k" | p where "call = MkDir p"
    | p q where "call = RenameFile p q"
    by (auto simp: writing_call_def split: rpc.splits)
  then show ?thesis
  proof cases
    case 4
    with True act(6) show ?thesis
      by (auto simp: drive_router_def serve_rename_def case_prod_beta split: option.splits sum.splits dest!: safe_rel_Ok)
  qed (use True act(1-5) in \<open>auto simp: drive_router_def put_file_def del_file_def serve_mkdir_def remove_kind_def
      intro!: confined_changing\<close>)
qed

end
