(* ===== verification/Lock_Facts.thy ===== *)
theory Lock_Facts
  imports Lock
begin

text \<open>
  The lock tables as a state machine: gateways acquire and release leases on the nodes, and time
  passes.  Each state remembers the grants the gateways believe in (\<open>sy_grants\<close>, forgotten on release)
  and every grant ever made (\<open>sy_issued\<close>, newest first); neither is read by a step.
\<close>

section \<open>Laws of one table\<close>

lemma distinct_update: "distinct (map fst m) \<Longrightarrow> distinct (map fst (AList.update k v m))"
  by (rule distinct_update)

lemma distinct_collect: "distinct (map fst m) \<Longrightarrow> distinct (map fst (collect_slots now m))"
  by (simp add: collect_slots_def distinct_map_filter)

lemma map_of_filter_value:
  "distinct (map fst m) \<Longrightarrow> map_of (filter (\<lambda>e. P (snd e)) m) k =
     (case map_of m k of Some v \<Rightarrow> if P v then Some v else None | None \<Rightarrow> None)"
proof (induction m)
  case (Cons e m)
  then show ?case
    by (cases e) (auto split: option.splits dest: map_of_SomeD simp: map_of_eq_None_iff image_iff)
qed simp

lemma lookup_collect:
  "distinct (map fst m) \<Longrightarrow> map_of (collect_slots now m) r =
     (case map_of m r of
        Some s \<Rightarrow> if length m \<le> 4096 \<or> keep_slot now s then Some s else None
      | None \<Rightarrow> None)"
  by (auto simp: collect_slots_def map_of_filter_value split: option.splits)

lemma collect_keeps_held:
  "distinct (map fst m) \<Longrightarrow> map_of m r = Some s \<Longrightarrow> lk_owner s \<noteq> [] \<Longrightarrow> map_of (collect_slots now m) r = Some s"
  by (simp add: lookup_collect keep_slot_def)

lemma acquire_lookup:
  assumes "distinct (map fst m)" and "table_acquire now m r owner ttl = (m', res)"
  shows "distinct (map fst m')"
    and "r' \<noteq> r \<Longrightarrow> map_of m' r' = map_of (collect_slots now m) r'"
    and "res = None \<Longrightarrow> map_of m' r = Some (slot_or_new now (collect_slots now m) r)
           \<and> held_by_other now (slot_or_new now (collect_slots now m) r) owner"
    and "res = Some t \<Longrightarrow> map_of m' r = Some (lease now (slot_or_new now (collect_slots now m) r) owner ttl)
           \<and> t = lk_token (lease now (slot_or_new now (collect_slots now m) r) owner ttl)
           \<and> \<not> held_by_other now (slot_or_new now (collect_slots now m) r) owner"
  using assms distinct_collect [OF assms(1), of now]
  by (auto simp: table_acquire_def Let_def distinct_update split: if_splits)

lemma release_lookup:
  assumes "distinct (map fst m)" and "table_release m r owner = (m', b)"
  shows "distinct (map fst m')"
    and "map_of m' r' = (case map_of m r' of
       Some s \<Rightarrow> Some (if r' = r \<and> lk_owner s = owner then s\<lparr>lk_owner := []\<rparr> else s) | None \<Rightarrow> None)"
proof -
  show "distinct (map fst m')"
    using assms by (auto simp: table_release_def distinct_update split: option.splits if_splits)
  show "map_of m' r' = (case map_of m r' of
       Some s \<Rightarrow> Some (if r' = r \<and> lk_owner s = owner then s\<lparr>lk_owner := []\<rparr> else s) | None \<Rightarrow> None)"
    using assms(2) by (auto simp: table_release_def split: option.splits if_splits)
qed

section \<open>The system\<close>

record grant =
  gr_node :: nat
  gr_resource :: string
  gr_owner :: string
  gr_token :: nat
  gr_expiry :: nat

record lock_sys =
  sy_now :: nat
  sy_tables :: "nat \<Rightarrow> lock_table"
  sy_grants :: "grant set"
  sy_issued :: "grant list"
  sy_collected :: bool

datatype lock_event = Tick nat | Acquire nat string string | Release nat string string

text \<open>Owners are the non-empty ids the gateways draw, and every lease runs for \<open>LOCK_TTL\<close>.\<close>

definition new_grant :: "lock_sys \<Rightarrow> nat \<Rightarrow> string \<Rightarrow> string \<Rightarrow> nat \<Rightarrow> grant" where
  "new_grant s i r owner t = \<lparr> gr_node = i, gr_resource = r, gr_owner = owner, gr_token = t,
     gr_expiry = sy_now s + LOCK_TTL \<rparr>"

definition collects :: "lock_sys \<Rightarrow> nat \<Rightarrow> bool" where
  "collects s i = (collect_slots (sy_now s) (sy_tables s i) \<noteq> sy_tables s i)"

inductive lock_step :: "lock_sys \<Rightarrow> lock_event \<Rightarrow> lock_sys \<Rightarrow> bool" where
  tick: "lock_step s (Tick dt) (s\<lparr>sy_now := sy_now s + dt\<rparr>)"
| granted: "owner \<noteq> [] \<Longrightarrow> table_acquire (sy_now s) (sy_tables s i) r owner LOCK_TTL = (m, Some t) \<Longrightarrow>
    lock_step s (Acquire i r owner)
      (s\<lparr>sy_tables := (sy_tables s)(i := m), sy_grants := insert (new_grant s i r owner t) (sy_grants s),
         sy_issued := new_grant s i r owner t # sy_issued s, sy_collected := sy_collected s \<or> collects s i\<rparr>)"
| refused: "owner \<noteq> [] \<Longrightarrow> table_acquire (sy_now s) (sy_tables s i) r owner LOCK_TTL = (m, None) \<Longrightarrow>
    lock_step s (Acquire i r owner)
      (s\<lparr>sy_tables := (sy_tables s)(i := m), sy_collected := sy_collected s \<or> collects s i\<rparr>)"
| release: "table_release (sy_tables s i) r owner = (m, b) \<Longrightarrow> owner \<noteq> [] \<Longrightarrow>
    lock_step s (Release i r owner)
      (s\<lparr>sy_tables := (sy_tables s)(i := m),
         sy_grants := {g \<in> sy_grants s. \<not> (gr_node g = i \<and> gr_resource g = r \<and> gr_owner g = owner)}\<rparr>)"

inductive_cases lock_stepE: "lock_step s e s'"

inductive_simps lock_step_tick: "lock_step s (Tick dt) s'"
inductive_simps lock_step_acquire: "lock_step s (Acquire i r owner) s'"
inductive_simps lock_step_release: "lock_step s (Release i r owner) s'"

inductive lock_reach :: "lock_sys \<Rightarrow> bool" where
  start: "lock_reach \<lparr> sy_now = now, sy_tables = (\<lambda>_. []), sy_grants = {}, sy_issued = [], sy_collected = False \<rparr>"
| step: "lock_reach s \<Longrightarrow> lock_step s e s' \<Longrightarrow> lock_reach s'"

section \<open>Live grants are the tables' leases\<close>

text \<open>A grant that is neither released nor expired is what the node's table says.\<close>

definition backed :: "lock_sys \<Rightarrow> grant \<Rightarrow> bool" where
  "backed s g = (case map_of (sy_tables s (gr_node g)) (gr_resource g) of
     Some sl \<Rightarrow> lk_owner sl = gr_owner g \<and> gr_expiry g \<le> lk_expiry sl \<and> lk_token sl = gr_token g | None \<Rightarrow> False)"

definition lock_inv :: "lock_sys \<Rightarrow> bool" where
  "lock_inv s \<longleftrightarrow> (\<forall>i. distinct (map fst (sy_tables s i))) \<and>
     (\<forall>g \<in> sy_grants s. gr_owner g \<noteq> [] \<and> gr_expiry g \<le> sy_now s + LOCK_TTL \<and>
        (sy_now s < gr_expiry g \<longrightarrow> backed s g))"

lemma lock_inv_grant:
  assumes inv: "lock_inv s" and o: "owner \<noteq> []"
    and acq: "table_acquire (sy_now s) (sy_tables s i) r owner LOCK_TTL = (m, Some t)"
    and g: "g \<in> sy_grants s" "sy_now s < gr_expiry g"
  shows "backed (s\<lparr>sy_tables := (sy_tables s)(i := m)\<rparr>) g"
proof -
  from inv have dist: "distinct (map fst (sy_tables s i))" and b: "backed s g"
    and gr: "gr_owner g \<noteq> []" "gr_expiry g \<le> sy_now s + LOCK_TTL" using g by (auto simp: lock_inv_def)
  note look = acquire_lookup [OF dist acq]
  from b obtain sl where sl: "map_of (sy_tables s (gr_node g)) (gr_resource g) = Some sl"
    "lk_owner sl = gr_owner g" "gr_expiry g \<le> lk_expiry sl" "lk_token sl = gr_token g" by (auto simp: backed_def split: option.splits)
  show ?thesis
  proof (cases "gr_node g = i")
    case True
    have kept: "map_of (collect_slots (sy_now s) (sy_tables s i)) (gr_resource g) = Some sl"
      using collect_keeps_held [OF dist, of "gr_resource g" sl] sl gr True by simp
    show ?thesis
    proof (cases "gr_resource g = r")
      case same: True
      with look(4) kept have "\<not> held_by_other (sy_now s) sl owner"
        "map_of m r = Some (lease (sy_now s) sl owner LOCK_TTL)" by (simp_all add: slot_or_new_def)
      with same True sl gr g(2) show ?thesis by (simp add: backed_def lease_def Let_def held_by_other_def)
    next
      case False
      with look(2) kept True sl show ?thesis by (simp add: backed_def)
    qed
  next
    case False
    with b show ?thesis by (simp add: backed_def)
  qed
qed

lemma backed_new:
  assumes dist: "distinct (map fst (sy_tables s i))"
    and acq: "table_acquire (sy_now s) (sy_tables s i) r owner LOCK_TTL = (m, Some t)"
  shows "backed (s\<lparr>sy_tables := (sy_tables s)(i := m)\<rparr>) (new_grant s i r owner t)"
  using acquire_lookup(4) [OF dist acq] by (simp add: backed_def new_grant_def lease_def Let_def)

lemma backed_upd: "backed (s\<lparr>sy_tables := T, sy_grants := G, sy_issued := I, sy_collected := c\<rparr>) = backed (s\<lparr>sy_tables := T\<rparr>)"
  "backed (s\<lparr>sy_tables := T, sy_collected := c\<rparr>) = backed (s\<lparr>sy_tables := T\<rparr>)"
  "backed (s\<lparr>sy_tables := T, sy_grants := G\<rparr>) = backed (s\<lparr>sy_tables := T\<rparr>)"
  "backed (s\<lparr>sy_now := n\<rparr>) = backed s"
  by (simp_all add: backed_def fun_eq_iff)

lemma backed_refused:
  assumes dist: "distinct (map fst (sy_tables s i))" and o: "gr_owner g \<noteq> []" and b: "backed s g"
    and acq: "table_acquire (sy_now s) (sy_tables s i) r owner LOCK_TTL = (m, None)"
  shows "backed (s\<lparr>sy_tables := (sy_tables s)(i := m)\<rparr>) g"
proof -
  from b obtain sl where sl: "map_of (sy_tables s (gr_node g)) (gr_resource g) = Some sl" "lk_owner sl = gr_owner g"
    by (auto simp: backed_def split: option.splits)
  have "map_of m (gr_resource g) = Some sl" if "gr_node g = i"
    using acquire_lookup(2,3) [OF dist acq] collect_keeps_held [OF dist, of "gr_resource g" sl] sl o that
    by (cases "gr_resource g = r") (simp_all add: slot_or_new_def)
  with b sl show ?thesis by (auto simp: backed_def)
qed

lemma backed_released:
  assumes dist: "distinct (map fst (sy_tables s i))" and b: "backed s g"
    and rel: "table_release (sy_tables s i) r owner = (m, x)"
    and other: "\<not> (gr_node g = i \<and> gr_resource g = r \<and> gr_owner g = owner)"
  shows "backed (s\<lparr>sy_tables := (sy_tables s)(i := m)\<rparr>) g"
  using b other release_lookup(2) [OF dist rel, of "gr_resource g"]
  by (auto simp: backed_def split: option.splits)

lemma lock_inv_step: "lock_step s e s' \<Longrightarrow> lock_inv s \<Longrightarrow> lock_inv s'"
proof (induction rule: lock_step.induct)
  case (tick s dt)
  then show ?case by (auto simp: lock_inv_def backed_upd)
next
  case (granted owner s i r m t)
  have dist: "distinct (map fst (sy_tables s i))" using granted.prems by (simp add: lock_inv_def)
  have "gr_owner g \<noteq> [] \<and> gr_expiry g \<le> sy_now s + LOCK_TTL \<and>
      (sy_now s < gr_expiry g \<longrightarrow> backed (s\<lparr>sy_tables := (sy_tables s)(i := m)\<rparr>) g)"
    if "g \<in> insert (new_grant s i r owner t) (sy_grants s)" for g
  proof (cases "g = new_grant s i r owner t")
    case True
    with granted.hyps(1) backed_new [OF dist granted.hyps(2)] show ?thesis by (simp add: new_grant_def)
  next
    case False
    with that have "g \<in> sy_grants s" by simp
    with lock_inv_grant [OF granted.prems granted.hyps] granted.prems show ?thesis by (simp add: lock_inv_def)
  qed
  moreover have "distinct (map fst m)" by (rule acquire_lookup(1) [OF dist granted.hyps(2)])
  ultimately show ?case using granted.prems by (simp add: lock_inv_def backed_upd)
next
  case (refused owner s i r m)
  have dist: "distinct (map fst (sy_tables s i))" using refused.prems by (simp add: lock_inv_def)
  show ?case
    using refused.prems acquire_lookup(1) [OF dist refused.hyps(2)] backed_refused [OF dist _ _ refused.hyps(2)]
    by (simp add: lock_inv_def backed_upd)
next
  case (release s i r owner m b)
  have dist: "distinct (map fst (sy_tables s i))" using release.prems by (simp add: lock_inv_def)
  show ?case
    using release.prems release_lookup(1) [OF dist release.hyps(1)] backed_released [OF dist _ release.hyps(1)]
    by (simp add: lock_inv_def backed_upd)
qed

lemma lock_inv_reach: "lock_reach s \<Longrightarrow> lock_inv s"
  by (induction rule: lock_reach.induct) (simp_all add: lock_inv_step, simp add: lock_inv_def)

text \<open>The live grants on a node's resource are one owner's, and carry the node's current token.\<close>

lemma live_grant_owner:
  assumes "lock_inv s" "g \<in> sy_grants s" "h \<in> sy_grants s" "sy_now s < gr_expiry g" "sy_now s < gr_expiry h"
    and "gr_node g = gr_node h" "gr_resource g = gr_resource h"
  shows "gr_owner g = gr_owner h"
proof -
  from assms have "backed s g" "backed s h" by (simp_all add: lock_inv_def)
  with assms(6,7) show ?thesis by (auto simp: backed_def split: option.splits)
qed

lemma live_grant_passes:
  assumes "lock_inv s" "g \<in> sy_grants s" "sy_now s < gr_expiry g"
  shows "fence_ok (sy_tables s (gr_node g)) (gr_resource g) (gr_token g)"
proof -
  from assms have "backed s g" by (simp add: lock_inv_def)
  then show ?thesis by (auto simp: backed_def fence_ok_def split: option.splits)
qed

section \<open>Quorums\<close>

text \<open>Any two quorums meet, so what every member of a quorum agrees on is unique.\<close>

locale quorum_system =
  fixes quorum :: "nat set \<Rightarrow> bool"
  assumes meet: "quorum Q \<Longrightarrow> quorum Q' \<Longrightarrow> Q \<inter> Q' \<noteq> {}"
begin

lemma agree:
  assumes "quorum {i. P i x}" "quorum {i. P i y}" and "\<And>i. P i x \<Longrightarrow> P i y \<Longrightarrow> x = y"
  shows "x = y"
  using meet [OF assms(1,2)] assms(3) by auto

end

text \<open>The quorum of \<open>DistLock::new\<close> over \<open>n\<close> nodes.\<close>

definition majority :: "nat \<Rightarrow> nat set \<Rightarrow> bool" where
  "majority n Q \<longleftrightarrow> Q \<subseteq> {..< n} \<and> n div 2 + 1 \<le> card Q"

lemma majority_meet: "majority n Q \<Longrightarrow> majority n Q' \<Longrightarrow> Q \<inter> Q' \<noteq> {}"
proof
  assume q: "majority n Q" "majority n Q'" and "Q \<inter> Q' = {}"
  then have "card (Q \<union> Q') = card Q + card Q'"
    by (intro card_Un_disjoint) (auto simp: majority_def intro: finite_subset)
  moreover have "card (Q \<union> Q') \<le> n"
    using q card_mono [of "{..< n}" "Q \<union> Q'"] by (auto simp: majority_def)
  moreover have "n < 2 * (n div 2) + 2" by presburger
  ultimately show False using q unfolding majority_def by linarith
qed

interpretation majority: quorum_system "majority n" for n
  by unfold_locales (rule majority_meet)

text \<open>The nodes on which a gateway holds an unreleased, unexpired lease.\<close>

definition leased :: "lock_sys \<Rightarrow> nat \<Rightarrow> string \<Rightarrow> nat \<Rightarrow> string \<Rightarrow> bool" where
  "leased s n r i owner \<longleftrightarrow> i < n \<and>
     (\<exists>g \<in> sy_grants s. gr_node g = i \<and> gr_resource g = r \<and> gr_owner g = owner \<and> sy_now s < gr_expiry g)"

definition holds_lock :: "lock_sys \<Rightarrow> nat \<Rightarrow> string \<Rightarrow> string \<Rightarrow> bool" where
  "holds_lock s n r owner \<longleftrightarrow> majority n {i. leased s n r i owner}"

lemma holds_lock_unique:
  "lock_reach s \<Longrightarrow> holds_lock s n r owner \<Longrightarrow> holds_lock s n r owner' \<Longrightarrow> owner = owner'"
  unfolding holds_lock_def
  by (rule majority.agree [where P = "leased s n r"])
    (auto simp: leased_def dest: live_grant_owner [OF lock_inv_reach])

section \<open>Tokens only grow\<close>

text \<open>As long as no table was collected: a node's token bounds the tokens it issued, and separates owners.\<close>

text \<open>What a slot owes to the grants issued before.\<close>

definition dominates :: "lock_slot \<Rightarrow> grant \<Rightarrow> bool" where
  "dominates sl g \<longleftrightarrow> gr_token g < lk_token sl
     \<or> (gr_token g = lk_token sl \<and> (lk_owner sl = gr_owner g \<or> lk_owner sl = []))"

definition dominated :: "lock_sys \<Rightarrow> grant \<Rightarrow> bool" where
  "dominated s g = (case map_of (sy_tables s (gr_node g)) (gr_resource g) of Some sl \<Rightarrow> dominates sl g | None \<Rightarrow> False)"

definition fence_inv :: "lock_sys \<Rightarrow> bool" where
  "fence_inv s \<longleftrightarrow> (\<forall>i. distinct (map fst (sy_tables s i))) \<and>
     (\<forall>g \<in> set (sy_issued s). gr_owner g \<noteq> [] \<and> dominated s g) \<and>
     sorted_wrt (\<lambda>h g. gr_node g = gr_node h \<longrightarrow> gr_resource g = gr_resource h \<longrightarrow> gr_owner g \<noteq> gr_owner h \<longrightarrow>
        gr_token g < gr_token h) (sy_issued s)"

lemma uncollected:
  assumes "\<not> collects s i"
  shows "collect_slots (sy_now s) (sy_tables s i) = sy_tables s i"
  using assms by (simp add: collects_def)

lemma dominates_lease:
  assumes "dominates sl g" "gr_owner g \<noteq> []" "owner \<noteq> []" "\<not> held_by_other now sl owner"
  shows "dominates (lease now sl owner ttl) g"
    and "gr_owner g \<noteq> owner \<Longrightarrow> gr_token g < lk_token (lease now sl owner ttl)"
  using assms by (auto simp: dominates_def lease_def held_by_other_def Let_def)

lemma dominated_acquire:
  assumes dist: "distinct (map fst (sy_tables s i))" and col: "\<not> collects s i"
    and acq: "table_acquire (sy_now s) (sy_tables s i) r owner LOCK_TTL = (m, res)"
    and g: "dominated s g" "gr_owner g \<noteq> []" and o: "owner \<noteq> []"
  shows "dominated (s\<lparr>sy_tables := (sy_tables s)(i := m)\<rparr>) g"
    and "res = Some t \<Longrightarrow> gr_node g = i \<Longrightarrow> gr_resource g = r \<Longrightarrow> gr_owner g \<noteq> owner \<Longrightarrow> gr_token g < t"
proof -
  from g obtain sl where sl: "map_of (sy_tables s (gr_node g)) (gr_resource g) = Some sl" "dominates sl g"
    by (auto simp: dominated_def split: option.splits)
  note look = acquire_lookup(2-4) [OF dist acq, unfolded uncollected [OF col]]
  have new: "slot_or_new (sy_now s) (sy_tables s i) r = sl" if "gr_node g = i" "gr_resource g = r"
    using sl that by (simp add: slot_or_new_def)
  show "dominated (s\<lparr>sy_tables := (sy_tables s)(i := m)\<rparr>) g"
  proof (cases "gr_node g = i \<and> gr_resource g = r")
    case True
    then show ?thesis
      using look(2,3) new sl(2) dominates_lease(1) [OF sl(2) g(2) o] by (cases res) (simp_all add: dominated_def)
  next
    case False
    then have "map_of (((sy_tables s)(i := m)) (gr_node g)) (gr_resource g) = map_of (sy_tables s (gr_node g)) (gr_resource g)"
      using look(1) [of "gr_resource g"] by auto
    with sl show ?thesis by (simp add: dominated_def)
  qed
  show "gr_token g < t" if "res = Some t" "gr_node g = i" "gr_resource g = r" "gr_owner g \<noteq> owner"
    using look(3) [OF that(1)] new [OF that(2,3)] dominates_lease(2) [OF sl(2) g(2) o] that(4) by simp
qed

lemma dominated_new:
  assumes dist: "distinct (map fst (sy_tables s i))"
    and acq: "table_acquire (sy_now s) (sy_tables s i) r owner LOCK_TTL = (m, Some t)"
  shows "dominated (s\<lparr>sy_tables := (sy_tables s)(i := m)\<rparr>) (new_grant s i r owner t)"
  using acquire_lookup(4) [OF dist acq] by (simp add: dominated_def dominates_def new_grant_def lease_def Let_def)

lemma dominated_release:
  assumes dist: "distinct (map fst (sy_tables s i))" and g: "dominated s g"
    and rel: "table_release (sy_tables s i) r owner = (m, x)"
  shows "dominated (s\<lparr>sy_tables := (sy_tables s)(i := m)\<rparr>) g"
  using g release_lookup(2) [OF dist rel, of "gr_resource g"]
  by (auto simp: dominated_def dominates_def split: option.splits)

lemma dominated_upd:
  "dominated (s\<lparr>sy_tables := T, sy_grants := G, sy_issued := I, sy_collected := c\<rparr>) = dominated (s\<lparr>sy_tables := T\<rparr>)"
  "dominated (s\<lparr>sy_tables := T, sy_collected := c\<rparr>) = dominated (s\<lparr>sy_tables := T\<rparr>)"
  "dominated (s\<lparr>sy_tables := T, sy_grants := G\<rparr>) = dominated (s\<lparr>sy_tables := T\<rparr>)"
  "dominated (s\<lparr>sy_now := n\<rparr>) = dominated s"
  by (simp_all add: dominated_def fun_eq_iff)

lemma fence_inv_step: "lock_step s e s' \<Longrightarrow> \<not> sy_collected s' \<Longrightarrow> fence_inv s \<Longrightarrow> fence_inv s'"
proof (induction rule: lock_step.induct)
  case (tick s dt)
  then show ?case by (simp add: fence_inv_def dominated_upd)
next
  case (granted owner s i r m t)
  have dist: "distinct (map fst (sy_tables s i))" and col: "\<not> collects s i"
    and old: "\<forall>g \<in> set (sy_issued s). gr_owner g \<noteq> [] \<and> dominated s g"
    using granted.prems by (simp_all add: fence_inv_def)
  note dom = dominated_acquire [OF dist col granted.hyps(2) _ _ granted.hyps(1)]
  have "gr_token g < t" if "g \<in> set (sy_issued s)" "gr_node g = i" "gr_resource g = r" "gr_owner g \<noteq> owner" for g
    using dom(2) [of g t] old that by simp
  then have "\<forall>g \<in> set (sy_issued s). gr_node g = gr_node (new_grant s i r owner t) \<longrightarrow>
      gr_resource g = gr_resource (new_grant s i r owner t) \<longrightarrow> gr_owner g \<noteq> gr_owner (new_grant s i r owner t) \<longrightarrow>
      gr_token g < gr_token (new_grant s i r owner t)" by (simp add: new_grant_def)
  moreover have "distinct (map fst m)" by (rule acquire_lookup(1) [OF dist granted.hyps(2)])
  moreover have "gr_owner (new_grant s i r owner t) \<noteq> []" using granted.hyps(1) by (simp add: new_grant_def)
  ultimately show ?case
    using granted.prems old dom(1) dominated_new [OF dist granted.hyps(2)]
    by (simp add: fence_inv_def dominated_upd)
next
  case (refused owner s i r m)
  have dist: "distinct (map fst (sy_tables s i))" and col: "\<not> collects s i"
    using refused.prems by (simp_all add: fence_inv_def)
  show ?case
    using refused.prems acquire_lookup(1) [OF dist refused.hyps(2)]
      dominated_acquire(1) [OF dist col refused.hyps(2) _ _ refused.hyps(1)]
    by (simp add: fence_inv_def dominated_upd)
next
  case (release s i r owner m b)
  have dist: "distinct (map fst (sy_tables s i))" using release.prems by (simp add: fence_inv_def)
  show ?case
    using release.prems release_lookup(1) [OF dist release.hyps(1)] dominated_release [OF dist _ release.hyps(1)]
    by (simp add: fence_inv_def dominated_upd)
qed

lemma collected_mono: "lock_step s e s' \<Longrightarrow> sy_collected s \<Longrightarrow> sy_collected s'"
  by (auto elim: lock_stepE)

lemma fence_inv_reach: "lock_reach s \<Longrightarrow> \<not> sy_collected s \<Longrightarrow> fence_inv s"
proof (induction rule: lock_reach.induct)
  case (start now)
  then show ?case by (simp add: fence_inv_def)
next
  case (step s e s')
  with collected_mono fence_inv_step show ?case by blast
qed

lemma superseded_fenced:
  assumes inv: "fence_inv s" and order: "sy_issued s = xs @ g2 # ys" "g1 \<in> set ys"
    and same: "gr_node g1 = gr_node g2" "gr_resource g1 = gr_resource g2" and other: "gr_owner g1 \<noteq> gr_owner g2"
  shows "gr_token g1 < gr_token g2"
    and "\<not> fence_ok (sy_tables s (gr_node g1)) (gr_resource g1) (gr_token g1)"
proof -
  show lt: "gr_token g1 < gr_token g2"
    using inv order same other by (simp add: fence_inv_def sorted_wrt_append)
  have "dominated s g2" using inv order by (simp add: fence_inv_def)
  then obtain sl where sl: "map_of (sy_tables s (gr_node g1)) (gr_resource g1) = Some sl" and "dominates sl g2"
    using same by (auto simp: dominated_def split: option.splits)
  then have "gr_token g2 \<le> lk_token sl" by (auto simp: dominates_def)
  with lt have "\<not> lk_token sl \<le> gr_token g1" by simp
  then show "\<not> fence_ok (sy_tables s (gr_node g1)) (gr_resource g1) (gr_token g1)"
    unfolding fence_ok_def sl by simp
qed

section \<open>The gateway's rounds are steps of the system\<close>

definition lock_next :: "lock_sys \<Rightarrow> lock_sys \<Rightarrow> bool" where
  "lock_next s s' \<longleftrightarrow> (\<exists>e. lock_step s e s')"

abbreviation lock_steps :: "lock_sys \<Rightarrow> lock_sys \<Rightarrow> bool" where
  "lock_steps \<equiv> lock_next\<^sup>*\<^sup>*"

lemma lock_reach_steps: "lock_steps s s' \<Longrightarrow> lock_reach s \<Longrightarrow> lock_reach s'"
  by (induction rule: rtranclp_induct) (auto simp: lock_next_def intro: lock_reach.step)

lemma tick_to: "sy_now s \<le> t \<Longrightarrow> lock_steps s (s\<lparr>sy_now := t\<rparr>)"
  using lock_step.tick [of s "t - sy_now s"] by (intro r_into_rtranclp) (auto simp: lock_next_def)

text \<open>A lease granted no earlier than \<open>t0\<close>.\<close>

definition granted_since :: "lock_sys \<Rightarrow> nat \<Rightarrow> string \<Rightarrow> string \<Rightarrow> nat \<Rightarrow> bool" where
  "granted_since s i r owner t0 \<longleftrightarrow>
     (\<exists>g \<in> sy_grants s. gr_node g = i \<and> gr_resource g = r \<and> gr_owner g = owner \<and> t0 + LOCK_TTL \<le> gr_expiry g)"

lemma granted_since_mono:
  "granted_since s i r owner t0 \<Longrightarrow> sy_grants s \<subseteq> sy_grants s' \<Longrightarrow> t0' \<le> t0 \<Longrightarrow> granted_since s' i r owner t0'"
  unfolding granted_since_def by (meson add_le_mono1 order_trans subsetD)

lemma step_steps: "lock_step s e s' \<Longrightarrow> lock_steps s s'"
  by (rule r_into_rtranclp) (auto simp: lock_next_def)

lemma acquire_steps:
  assumes o: "owner \<noteq> []" and acq: "table_acquire (sy_now s) (sy_tables s i) r owner LOCK_TTL = (m, res)"
  shows "\<exists>s'. lock_steps s s' \<and> sy_now s' = sy_now s \<and> sy_tables s' = (sy_tables s)(i := m) \<and>
    sy_grants s \<subseteq> sy_grants s' \<and> (res \<noteq> None \<longrightarrow> granted_since s' i r owner (sy_now s))"
proof (cases res)
  case None
  let ?s = "s\<lparr>sy_tables := (sy_tables s)(i := m), sy_collected := sy_collected s \<or> collects s i\<rparr>"
  from None acq have "lock_step s (Acquire i r owner) ?s" by (intro lock_step.refused [OF o]) simp
  then have "lock_steps s ?s" by (rule step_steps)
  with None show ?thesis by (intro exI [of _ ?s]) simp
next
  case (Some t)
  let ?s = "s\<lparr>sy_tables := (sy_tables s)(i := m), sy_grants := insert (new_grant s i r owner t) (sy_grants s),
     sy_issued := new_grant s i r owner t # sy_issued s, sy_collected := sy_collected s \<or> collects s i\<rparr>"
  from Some acq have "lock_step s (Acquire i r owner) ?s" by (intro lock_step.granted [OF o]) simp
  then have "lock_steps s ?s" by (rule step_steps)
  moreover have "granted_since ?s i r owner (sy_now s)" by (simp add: granted_since_def new_grant_def)
  ultimately show ?thesis by (intro exI [of _ ?s]) auto
qed

lemma try_acquire_steps:
  assumes o: "owner \<noteq> []" and now: "sy_now s \<le> now"
    and tr: "try_acquire l now (sy_tables s i) r owner = (m, res)"
  shows "\<exists>s'. lock_steps s s' \<and> sy_now s' = now \<and> sy_tables s' = (sy_tables s)(i := m) \<and>
    sy_grants s \<subseteq> sy_grants s' \<and> (res \<noteq> None \<longrightarrow> granted_since s' i r owner now)"
proof -
  let ?s = "s\<lparr>sy_now := now\<rparr>"
  note t = tick_to [OF now]
  obtain m1 res1 where acq: "table_acquire now (sy_tables s i) r owner LOCK_TTL = (m1, res1)" by force
  from acquire_steps [OF o, of ?s i r m1 res1] acq obtain s' where
    s': "lock_steps ?s s'" "sy_now s' = now" "sy_tables s' = (sy_tables s)(i := m1)" "sy_grants s \<subseteq> sy_grants s'"
      "res1 \<noteq> None \<longrightarrow> granted_since s' i r owner now" by auto
  show ?thesis
  proof (cases l)
    case Unreachable
    with tr have "m = sy_tables s i" "res = None" by (simp_all add: try_acquire_def)
    with t show ?thesis by (intro exI [of _ ?s]) simp
  next
    case Through
    with tr acq have "m = m1" "res \<noteq> None \<longrightarrow> res1 \<noteq> None"
      by (auto simp: try_acquire_def lock_acquire_def split: option.splits if_splits)
    with s' t show ?thesis by (intro exI [of _ s']) (auto intro: rtranclp_trans)
  next
    case AnswerLost
    with tr acq have "m = m1" "res = None"
      by (auto simp: try_acquire_def lock_acquire_def split: option.splits)
    with s' t show ?thesis by (intro exI [of _ s']) (auto intro: rtranclp_trans)
  qed
qed

text \<open>The nodes of a gateway, as the tables of the system from index \<open>k\<close> on.\<close>

definition tables_match :: "lock_sys \<Rightarrow> nat \<Rightarrow> lock_node list \<Rightarrow> bool" where
  "tables_match s k ns \<longleftrightarrow> (\<forall>j < length ns. sy_tables s (k + j) = ln_table (ns ! j))"

lemma tables_match_Cons: "tables_match s k (n # ns) \<longleftrightarrow> sy_tables s k = ln_table n \<and> tables_match s (Suc k) ns"
  by (auto simp: tables_match_def All_less_Suc2)

lemma round_steps:
  assumes o: "owner \<noteq> []"
  shows "tables_match s k ns \<Longrightarrow> \<forall>j < length ns. sy_now s \<le> snd (calls (k + j)) \<Longrightarrow>
    (\<forall>i j. i \<le> j \<longrightarrow> snd (calls i) \<le> snd (calls j)) \<Longrightarrow> sy_now s \<le> last_t \<Longrightarrow>
    (\<forall>j < length ns. snd (calls (k + j)) \<le> last_t) \<Longrightarrow> distinct (map fst tokens) \<Longrightarrow>
    acquire_round r owner calls k ns tokens = (ns', out) \<Longrightarrow>
    \<exists>s'. lock_steps s s' \<and> sy_now s' \<le> last_t \<and> tables_match s' k ns' \<and> length ns' = length ns \<and>
      (\<forall>i. i < k \<or> k + length ns \<le> i \<longrightarrow> sy_tables s' i = sy_tables s i) \<and>
      sy_grants s \<subseteq> sy_grants s' \<and> distinct (map fst out) \<and>
      (\<forall>b \<in> fst ` set out. b \<in> fst ` set tokens \<or>
         (\<exists>j < length ns. ln_base (ns ! j) = b \<and> granted_since s' (k + j) r owner (sy_now s)))"
proof (induction ns arbitrary: s k tokens ns' out)
  case Nil
  then show ?case by (intro exI [of _ s]) auto
next
  case (Cons n ns)
  obtain l now where call: "calls k = (l, now)" by force
  obtain m tok where tr: "try_acquire l now (ln_table n) r owner = (m, tok)" by force
  let ?tokens = "case tok of Some t \<Rightarrow> AList.update (ln_base n) t tokens | None \<Rightarrow> tokens"
  obtain ns1 where rest: "acquire_round r owner calls (Suc k) ns ?tokens = (ns1, out)" "ns' = n\<lparr>ln_table := m\<rparr> # ns1"
    using Cons.prems(7) by (auto simp: call tr Let_def split: prod.splits option.splits)
  have now: "sy_now s \<le> now" "now \<le> last_t" using Cons.prems(2,5) call by fastforce+
  have tab: "sy_tables s k = ln_table n" using Cons.prems(1) by (simp add: tables_match_Cons)
  from try_acquire_steps [OF o now(1), of l k r m tok] tr tab obtain s1 where
    s1: "lock_steps s s1" "sy_now s1 = now" "sy_tables s1 = (sy_tables s)(k := m)" "sy_grants s \<subseteq> sy_grants s1"
      "tok \<noteq> None \<longrightarrow> granted_since s1 k r owner now" by auto
  have later: "now \<le> snd (calls (Suc k + j))" for j
    using Cons.prems(3) call by (metis add_Suc_right add_leD1 le_add1 le_add_same_cancel1 nat_le_linear snd_conv add_Suc)
  have match1: "tables_match s1 (Suc k) ns"
    using Cons.prems(1) s1(3) by (auto simp: tables_match_def All_less_Suc2)
  have ends: "\<forall>j < length ns. snd (calls (Suc k + j)) \<le> last_t" using Cons.prems(5) by (auto simp: All_less_Suc2)
  have dist: "distinct (map fst ?tokens)" using Cons.prems(6) by (auto split: option.splits intro: distinct_update)
  from Cons.IH [OF match1 _ Cons.prems(3) _ ends dist rest(1)] later now(2) s1(2) obtain s2 where
    s2: "lock_steps s1 s2" "sy_now s2 \<le> last_t" "tables_match s2 (Suc k) ns1" "length ns1 = length ns"
      "\<forall>i. i < Suc k \<or> Suc k + length ns \<le> i \<longrightarrow> sy_tables s2 i = sy_tables s1 i" "sy_grants s1 \<subseteq> sy_grants s2"
      "distinct (map fst out)"
      "\<forall>b \<in> fst ` set out. b \<in> fst ` set ?tokens \<or>
         (\<exists>j < length ns. ln_base (ns ! j) = b \<and> granted_since s2 (Suc k + j) r owner now)" by auto
  have "b \<in> fst ` set tokens \<or> (\<exists>j < length (n # ns). ln_base ((n # ns) ! j) = b \<and> granted_since s2 (k + j) r owner (sy_now s))"
    if "b \<in> fst ` set out" for b
    using s2(8) that
  proof (elim ballE disjE exE conjE)
    assume "b \<in> fst ` set ?tokens"
    then have "b \<in> fst ` set tokens \<or> (tok \<noteq> None \<and> b = ln_base n)"
      by (cases tok) (auto simp: dom_update)
    then show ?thesis
      using s1(5) granted_since_mono [OF _ s2(6) now(1)] by (auto intro!: exI [of _ 0])
  next
    fix j assume "j < length ns" "ln_base (ns ! j) = b" "granted_since s2 (Suc k + j) r owner now"
    then show ?thesis
      using granted_since_mono [OF _ order_refl now(1), of s2 "Suc k + j" r owner] by (auto intro!: exI [of _ "Suc j"])
  qed (use that in simp)
  moreover have "tables_match s2 k ns'" using s2(3,5) s1(3) by (simp add: rest(2) tables_match_Cons)
  moreover have "\<forall>i. i < k \<or> k + length (n # ns) \<le> i \<longrightarrow> sy_tables s2 i = sy_tables s i" using s2(5) s1(3) by auto
  ultimately show ?case
    using s1(1,4) s2(1,2,4,6,7) by (intro exI [of _ s2]) (auto simp: rest(2) intro: rtranclp_trans)
qed

end
