(* ===== verification/Lock_Props.thy ===== *)
theory Lock_Props
  imports Lock_Facts
begin

text \<open>
  The properties of the distributed object lock: exclusion, fencing, the gateway's quorum, and the two
  ways in which the protection is given up.
\<close>

section \<open>A concrete run\<close>

definition do_acquire :: "nat \<Rightarrow> string \<Rightarrow> string \<Rightarrow> lock_sys \<Rightarrow> lock_sys" where
  "do_acquire i r owner s =
     (case table_acquire (sy_now s) (sy_tables s i) r owner LOCK_TTL of
        (m, Some t) \<Rightarrow>
          s\<lparr>sy_tables := (sy_tables s)(i := m), sy_grants := insert (new_grant s i r owner t) (sy_grants s),
            sy_issued := new_grant s i r owner t # sy_issued s, sy_collected := sy_collected s \<or> collects s i\<rparr>
      | (m, None) \<Rightarrow>
          s\<lparr>sy_tables := (sy_tables s)(i := m), sy_collected := sy_collected s \<or> collects s i\<rparr>)"

lemma do_acquire_step: "owner \<noteq> [] \<Longrightarrow> lock_step s (Acquire i r owner) (do_acquire i r owner s)"
  by (auto simp: do_acquire_def intro: lock_step.granted lock_step.refused split: prod.splits option.splits)

definition ex_start :: lock_sys where
  "ex_start = \<lparr> sy_now = 0, sy_tables = (\<lambda>_. []), sy_grants = {}, sy_issued = [], sy_collected = False \<rparr>"

text \<open>Gateway \<open>a\<close> takes two of three nodes; its leases expire; gateway \<open>b\<close> takes node 0.\<close>

definition ex_held :: lock_sys where
  "ex_held = do_acquire 1 ''b/k'' ''a'' (do_acquire 0 ''b/k'' ''a'' ex_start)"

definition ex_taken :: lock_sys where
  "ex_taken = do_acquire 0 ''b/k'' ''b'' (ex_held\<lparr>sy_now := sy_now ex_held + 30000\<rparr>)"

lemma ex_held_reach: "lock_reach ex_held"
  unfolding ex_held_def
  by (intro lock_reach.step [OF _ do_acquire_step]) (simp_all add: ex_start_def lock_reach.start)

lemma ex_taken_reach: "lock_reach ex_taken"
  unfolding ex_taken_def
  by (intro lock_reach.step [OF _ do_acquire_step] lock_reach.step [OF ex_held_reach lock_step.tick]) simp

lemmas ex_lock_defs = do_acquire_def ex_held_def ex_taken_def ex_start_def table_acquire_def collect_slots_def
  slot_or_new_def held_by_other_def lease_def new_grant_def collects_def LOCK_TTL_def

section \<open>Exclusion\<close>

text \<open>
  C6: the quorum lock is exclusive.  In every reachable state, whatever the interleaving of grants,
  refusals, releases, expiries and collections, while one gateway has unreleased and unexpired leases
  on a majority of the nodes no other gateway has, and each of its leases still passes its node's fence.
\<close>

theorem quorum_lock_exclusive:
  assumes "lock_reach s" and "holds_lock s n r owner" and "owner' \<noteq> owner"
  shows "\<not> holds_lock s n r owner' \<and>
    (\<forall>g \<in> sy_grants s. sy_now s < gr_expiry g \<longrightarrow> fence_ok (sy_tables s (gr_node g)) (gr_resource g) (gr_token g))"
  using holds_lock_unique [OF assms(1,2), of owner'] assms(3) live_grant_passes [OF lock_inv_reach [OF assms(1)]]
  by blast

lemma ex_held_holds: "holds_lock ex_held 3 ''b/k'' ''a''"
proof -
  have sub: "{0, 1} \<subseteq> {i. leased ex_held 3 ''b/k'' i ''a''}"
    by (simp add: leased_def ex_lock_defs)
  have fin: "{i. leased ex_held 3 ''b/k'' i ''a''} \<subseteq> {..< 3}" by (auto simp: leased_def)
  have "card {0, 1 :: nat} \<le> card {i. leased ex_held 3 ''b/k'' i ''a''}"
    by (rule card_mono [OF finite_subset [OF fin] sub]) simp
  with fin show ?thesis by (simp add: holds_lock_def majority_def)
qed

theorem quorum_lock_exclusive_witness: "\<not> holds_lock ex_held 3 ''b/k'' ''b''"
  using quorum_lock_exclusive [OF ex_held_reach ex_held_holds, of "''b''"] by simp

section \<open>Fencing\<close>

text \<open>
  Fencing tokens stop a superseded holder.  As long as no table was collected, a grant that was
  followed by another owner's grant of the same resource on the same node has a strictly smaller
  token, and the node refuses every write that carries it.
\<close>

theorem stale_holder_fenced:
  assumes "lock_reach s" and "\<not> sy_collected s"
    and "sy_issued s = xs @ g2 # ys" and "g1 \<in> set ys"
    and "gr_node g1 = gr_node g2" and "gr_resource g1 = gr_resource g2" and "gr_owner g1 \<noteq> gr_owner g2"
  shows "gr_token g1 < gr_token g2 \<and> \<not> fence_ok (sy_tables s (gr_node g1)) (gr_resource g1) (gr_token g1)"
  using superseded_fenced [OF fence_inv_reach [OF assms(1,2)] assms(3-7)] by blast

theorem stale_holder_fenced_witness: "\<not> fence_ok (sy_tables ex_taken 0) ''b/k'' 1"
proof -
  let ?g1 = "\<lparr> gr_node = 0, gr_resource = ''b/k'', gr_owner = ''a'', gr_token = 1, gr_expiry = 30000 \<rparr>"
  let ?g2 = "\<lparr> gr_node = 0, gr_resource = ''b/k'', gr_owner = ''b'', gr_token = 2, gr_expiry = 60000 \<rparr>"
  have issued: "sy_issued ex_taken = [] @ ?g2 # tl (sy_issued ex_taken)" and old: "?g1 \<in> set (tl (sy_issued ex_taken))"
    and col: "\<not> sy_collected ex_taken"
    by (simp_all add: ex_lock_defs)
  show ?thesis using stale_holder_fenced [OF ex_taken_reach col issued old] by simp
qed

text \<open>
  Collecting a slot forgets its token.  Once a table has more than 4096 entries, a resource that
  was released and whose last lease ended ten lease times ago restarts at token 1 with the next grant,
  so every token granted before passes the fence again while the new holder holds the lock.
\<close>

theorem collected_slot_unfences:
  assumes "distinct (map fst m)" and "4096 < length m" and "map_of m r = Some sl"
    and "lk_owner sl = []" and "lk_expiry sl + 10 * LOCK_TTL \<le> now" and "owner \<noteq> []" and "1 \<le> old"
  shows "\<exists>m'. table_acquire now m r owner LOCK_TTL = (m', Some 1) \<and> fence_ok m' r old"
proof -
  have "map_of (collect_slots now m) r = None"
    using assms lookup_collect [OF assms(1), of now r] by (simp add: keep_slot_def mult.commute)
  then have "slot_or_new now (collect_slots now m) r = \<lparr> lk_owner = [], lk_expiry = now, lk_token = 0 \<rparr>"
    by (simp add: slot_or_new_def)
  then show ?thesis
    using assms(6,7) by (simp add: table_acquire_def Let_def held_by_other_def lease_def fence_ok_def)
qed

definition ex_full_table :: lock_table where
  "ex_full_table = map (\<lambda>k. (replicate k (CHR ''x''), \<lparr> lk_owner = [], lk_expiry = 0, lk_token = 7 \<rparr>)) [0 ..< 4097]"

theorem collected_slot_unfences_witness:
  "\<exists>m'. table_acquire 300000 ex_full_table ''x'' ''c'' LOCK_TTL = (m', Some 1) \<and> fence_ok m' ''x'' 7"
proof (rule collected_slot_unfences)
  have "inj_on (\<lambda>k. replicate k (CHR ''x'')) {0 ..< 4097}" by (rule inj_onI) (metis length_replicate)
  then show d: "distinct (map fst ex_full_table)" by (simp add: ex_full_table_def distinct_map comp_def)
  show "4096 < length ex_full_table" by (simp add: ex_full_table_def)
  have "([CHR ''x''], \<lparr> lk_owner = [], lk_expiry = 0, lk_token = 7 \<rparr>) \<in> set ex_full_table"
    unfolding ex_full_table_def by (auto intro!: image_eqI [of _ _ 1])
  then show "map_of ex_full_table ''x'' = Some \<lparr> lk_owner = [], lk_expiry = 0, lk_token = 7 \<rparr>"
    by (rule map_of_is_SomeI [OF d])
qed (simp_all add: LOCK_TTL_def)

section \<open>The gateway\<close>

text \<open>
  C13: the gateway's round implements the quorum lock.  When a round over the nodes returns as many
  tokens as the quorum and ends within one lease time of its start, the run it makes of the lock
  system ends in a reachable state in which this gateway holds the lock; lost answers and unreachable
  nodes do not matter.
\<close>

theorem round_takes_lock:
  assumes "lock_reach s" and "tables_match s 0 nodes" and "owner \<noteq> []"
    and "\<forall>i j. i \<le> j \<longrightarrow> snd (calls i) \<le> snd (calls j)" and "sy_now s \<le> snd (calls 0)"
    and "snd (calls (length nodes)) < sy_now s + LOCK_TTL"
    and "acquire_round r owner calls 0 nodes [] = (nodes', tokens)" and "lock_quorum nodes \<le> length tokens"
  shows "\<exists>s'. lock_steps s s' \<and> lock_reach s' \<and> tables_match s' 0 nodes' \<and> holds_lock s' (length nodes) r owner"
proof -
  let ?n = "length nodes" and ?last = "snd (calls (length nodes))"
  have starts: "\<forall>j < ?n. sy_now s \<le> snd (calls (0 + j))" and ends: "\<forall>j < ?n. snd (calls (0 + j)) \<le> ?last"
    and last: "sy_now s \<le> ?last"
    using assms(4,5) by (metis add_0 le0 le_trans) (use assms(4,5) in \<open>auto intro: le_trans\<close>)
  from round_steps [OF assms(3,2) starts assms(4) last ends _ assms(7)] obtain s' where
    s': "lock_steps s s'" "sy_now s' \<le> ?last" "tables_match s' 0 nodes'" "distinct (map fst tokens)"
      "\<forall>b \<in> fst ` set tokens. \<exists>j < ?n. ln_base (nodes ! j) = b \<and> granted_since s' j r owner (sy_now s)"
    by auto
  let ?L = "{i. leased s' ?n r i owner}"
  have fin: "?L \<subseteq> {..< ?n}" by (auto simp: leased_def)
  have "b \<in> (\<lambda>j. ln_base (nodes ! j)) ` ?L" if "b \<in> fst ` set tokens" for b
  proof -
    from s'(5) that obtain j g where "j < ?n" "ln_base (nodes ! j) = b" "g \<in> sy_grants s'" "gr_node g = j"
      "gr_resource g = r" "gr_owner g = owner" "sy_now s + LOCK_TTL \<le> gr_expiry g"
      by (force simp: granted_since_def)
    moreover from this have "sy_now s' < gr_expiry g" using s'(2) assms(6) by simp
    ultimately have "leased s' ?n r j owner" unfolding leased_def by blast
    with \<open>ln_base (nodes ! j) = b\<close> show ?thesis by blast
  qed
  then have "card (fst ` set tokens) \<le> card ((\<lambda>j. ln_base (nodes ! j)) ` ?L)"
    using finite_subset [OF fin] by (intro card_mono) auto
  also have "\<dots> \<le> card ?L" by (rule card_image_le) (rule finite_subset [OF fin], simp)
  finally have "length tokens \<le> card ?L" using distinct_card [OF s'(4)] by simp
  with assms(8) fin have "holds_lock s' ?n r owner" by (simp add: holds_lock_def majority_def lock_quorum_def)
  with s'(1,3) lock_reach_steps [OF s'(1) assms(1)] show ?thesis by blast
qed

definition ex_nodes :: "lock_node list" where
  "ex_nodes = map (\<lambda>b. \<lparr> ln_base = b, ln_table = [] \<rparr>) [''n0'', ''n1'', ''n2'']"

text \<open>Node 1 is down and the other two answer, one second apart.\<close>

definition ex_calls :: "nat \<Rightarrow> link \<times> nat" where
  "ex_calls i = (if i = 1 then Unreachable else Through, 1000 * i)"

theorem round_takes_lock_witness:
  "\<exists>s'. lock_reach s' \<and> holds_lock s' 3 ''b/k'' ''a''"
proof -
  have start: "lock_reach ex_start" by (simp add: ex_start_def lock_reach.start)
  have match: "tables_match ex_start 0 ex_nodes"
    by (simp add: tables_match_def ex_start_def ex_nodes_def All_less_Suc)
  have len: "length ex_nodes = 3" by (simp add: ex_nodes_def)
  have tokens: "snd (acquire_round ''b/k'' ''a'' ex_calls 0 ex_nodes []) = [(''n0'', 1), (''n2'', 1)]"
    by (simp add: ex_nodes_def ex_calls_def try_acquire_def lock_acquire_def ex_lock_defs)
  have mono: "\<forall>i j. i \<le> j \<longrightarrow> snd (ex_calls i) \<le> snd (ex_calls j)" by (simp add: ex_calls_def)
  have times: "sy_now ex_start \<le> snd (ex_calls 0)" "snd (ex_calls (length ex_nodes)) < sy_now ex_start + LOCK_TTL"
    by (simp_all add: ex_start_def ex_calls_def len LOCK_TTL_def)
  have quorum: "lock_quorum ex_nodes \<le> length [(''n0'', 1 :: nat), (''n2'', 1)]" by (simp add: lock_quorum_def len)
  have run: "acquire_round ''b/k'' ''a'' ex_calls 0 ex_nodes [] =
    (fst (acquire_round ''b/k'' ''a'' ex_calls 0 ex_nodes []), [(''n0'', 1), (''n2'', 1)])"
    using tokens by (simp add: prod_eq_iff)
  have owner: "''a'' \<noteq> []" by simp
  show ?thesis
    using round_takes_lock [OF start match owner mono times run quorum] unfolding len by blast
qed

lemma backoff_capped: "backoff (5 + k) = 500"
proof (induction k)
  case 0
  show ?case by (simp add: numeral_eq_Suc)
next
  case (Suc k)
  have "backoff (5 + Suc k) = min (backoff (5 + k) * 2) 500" by (simp only: add_Suc_right backoff.simps)
  with Suc show ?case by simp
qed

lemma backoff_total: "sum_list (map backoff [0 ..< 60]) = 28120"
proof -
  have "[0 ..< 60] = [0 ..< 5] @ map (\<lambda>k. 5 + k) [0 ..< 55]"
    using upt_add_eq_append [of 0 5 55] by (simp add: map_add_upt add.commute)
  then have "map backoff [0 ..< 60] = map backoff [0 ..< 5] @ replicate 55 500"
    by (simp add: comp_def backoff_capped map_replicate_const)
  moreover have "map backoff [0 ..< 5] = [20, 40, 80, 160, 320]" by (simp add: upt_rec numeral_eq_Suc)
  ultimately show ?thesis by (simp add: sum_list_replicate)
qed

text \<open>
  The wait for the lock is bounded and then abandoned.  The sleeps of the sixty attempts add up to
  28.12 seconds, less than one lease; and when no attempt reaches a node, \<open>LockSet::acquire\<close> still
  returns a guard, without tokens, so the writes made under it carry no fence at all.
\<close>

theorem acquire_gives_up:
  assumes "\<forall>k < 60. \<forall>i. fst (at_acquire (world k) i) \<noteq> Through" and "r \<notin> held"
  shows "sum_list (map backoff [0 ..< 60]) = 28120 \<and> 28120 < LOCK_TTL \<and>
    (\<exists>nodes' g. lockset_acquire r uuid world held (Some nodes) = Some (insert r held, Some nodes', g) \<and>
       lg_tokens g = [] \<and> (\<forall>base. fence_for (Some (guard_fence g)) base = None))"
proof (intro conjI)
  show "sum_list (map backoff [0 ..< 60]) = 28120" by (rule backoff_total)
  show "28120 < LOCK_TTL" by (simp add: LOCK_TTL_def)
  have none: "snd (try_acquire l now m r uuid) = None" if "l \<noteq> Through" for l now m
    using that by (cases l) (simp_all add: try_acquire_def)
  have "snd (acquire_round r uuid calls i ns tokens) = tokens" if "\<forall>i. fst (calls i) \<noteq> Through" for calls i ns tokens
    using that
  proof (induction ns arbitrary: i tokens)
    case (Cons n ns)
    obtain m tok where "try_acquire (fst (calls i)) (snd (calls i)) (ln_table n) r uuid = (m, tok)" by force
    with none [of "fst (calls i)" "snd (calls i)" "ln_table n"] Cons show ?case by (simp add: Let_def case_prod_beta)
  qed simp
  then have round: "snd (acquire_round r uuid (at_acquire a) 0 ns []) = []"
    if "\<forall>i. fst (at_acquire a i) \<noteq> Through" for a ns using that by simp
  have "snd (dist_loop r uuid (Suc q) as ns) = None" if "\<forall>a \<in> set as. \<forall>i. fst (at_acquire a i) \<noteq> Through" for q as ns
    using that
  proof (induction as arbitrary: ns)
    case (Cons a as)
    with round [of a ns] show ?case by (simp add: case_prod_beta)
  qed simp
  then have "snd (dist_acquire r uuid world nodes) = None"
    using assms(1) by (simp add: dist_acquire_def lock_quorum_def)
  then show "\<exists>nodes' g. lockset_acquire r uuid world held (Some nodes) = Some (insert r held, Some nodes', g) \<and>
       lg_tokens g = [] \<and> (\<forall>base. fence_for (Some (guard_fence g)) base = None)"
    using assms(2) by (cases "dist_acquire r uuid world nodes")
      (simp add: lockset_acquire_def local_acquire_def guard_of_def guard_fence_def fence_for_def)
qed

text \<open>Every node is down for as long as the gateway tries.\<close>

definition ex_down :: "nat \<Rightarrow> attempt" where
  "ex_down k = \<lparr> at_acquire = (\<lambda>i. (Unreachable, k)), at_release = (\<lambda>i. Unreachable), at_others = (\<lambda>ns. ns) \<rparr>"

theorem acquire_gives_up_witness:
  "\<exists>nodes' g. lockset_acquire ''b/k'' ''a'' ex_down {} (Some ex_nodes) = Some ({''b/k''}, Some nodes', g) \<and> lg_tokens g = []"
proof -
  have down: "\<forall>k < 60. \<forall>i. fst (at_acquire (ex_down k) i) \<noteq> Through" by (simp add: ex_down_def)
  show ?thesis using acquire_gives_up [OF down, of "''b/k''" "{}" "''a''" ex_nodes] by blast
qed

end
