(* ===== verification/Cluster_Props.thy ===== *)
theory Cluster_Props
  imports Cluster_Facts Lock_Props Store_Instances
begin

text \<open>
  The properties of the drive protocol: a remote drive is the local drive it speaks to, a node never
  leaves its drive's directory, and the lock's fences decide whose writes a node takes.
\<close>

section \<open>A concrete node\<close>

definition ex_node :: drive_node where
  "ex_node = \<lparr> dn_drive = ex_drive ''d0'', dn_secret = ''s'', dn_locks = [] \<rparr>"

definition ex_remote :: remote_drive where
  "ex_remote = \<lparr> rm_base = ''n0'', rm_secret = ''s'' \<rparr>"

lemma ex_drive_healthy: "healthy (ex_drive name)"
  by (simp add: healthy_def ex_drive_def drive_new_def)

lemma ex_serving: "serving_node ex_node ex_remote None"
  using ex_drive_healthy [of "''d0''"]
  by (simp add: serving_node_def ex_node_def ex_remote_def fenced_out_def fenced_headers_def fence_for_def plain_headers_def
      ex_drive_wf)

lemma ex_plain: "plain_path [''bkt'', ''k'']"
  by (simp add: plain_comp_def)

section \<open>Refinement\<close>

text \<open>
  C11: a remote drive refines the local one.  Against a node that serves the caller (it has the
  caller's secret, its lock table lets the caller's token pass, and its drive fails nothing) and over a network
  that delivers, these operations of \<open>RemoteDrive\<close> on ordinary paths have the effect and the answer of the
  same operation of the node's local drive, so the path, range and token encodings of the wire lose nothing:
  the health probe, \<open>read\<close>, \<open>open\<close>, \<open>stat\<close>, \<open>read_dir\<close>, \<open>write\<close>, \<open>create_dir_all\<close>, \<open>rename\<close>, the three removals,
  \<open>read_at\<close> of at least one byte, and \<open>walk\<close> when every name on the node is ordinary.  The writer that
  \<open>create\<close> returns differs in its single steps: its creation always succeeds and sends nothing yet.  Once
  it is shut down, the effect and the verdict are those of the local writer for the whole sequence of create,
  writes and shutdown.  (\<open>id\<close> and \<open>local_root\<close> name the drive and are not compared.)
\<close>

theorem remote_refines_local:
  assumes n: "serving_node n rd ctx" and q: "plain_path q" and p: "plain_path p"
  defines "d \<equiv> dn_drive n" and "at r \<equiv> PathBuf False r" and "upd e \<equiv> n\<lparr>dn_drive := e\<rparr>"
  shows "remote_online Through now n rd = drive_online d
    \<and> remote_read Through now n rd (at q) = drive_read d (at q)
    \<and> remote_open Through now n rd (at q) = drive_open d (at q)
    \<and> remote_stat Through now n rd (at q) = drive_stat d (at q)
    \<and> remote_read_dir Through now n rd (at q) = drive_read_dir d (at q)
    \<and> remote_write Through now n rd ctx (at q) c = map_prod upd id (drive_write d (at q) c)
    \<and> remote_stream Through now n rd ctx (at q) writes = map_prod upd id (drive_stream d (at q) writes)
    \<and> remote_create_dir_all Through now n rd ctx (at q) = map_prod upd id (drive_create_dir_all d (at q))
    \<and> remote_rename Through now n rd ctx (at p) (at q) = map_prod upd id (drive_rename d (at p) (at q))
    \<and> remote_remove Through now n rd ctx (at q) ''file'' = map_prod upd id (drive_remove_file d (at q))
    \<and> remote_remove Through now n rd ctx (at q) ''dir'' = map_prod upd id (drive_remove_dir d (at q))
    \<and> remote_remove Through now n rd ctx (at q) ''tree'' = map_prod upd id (drive_remove_dir_all d (at q))
    \<and> (0 < len \<and> offset + len \<le> 2 ^ 64 \<longrightarrow>
        remote_read_at Through now n rd (at q) offset len = drive_read_at d (at q) offset len)
    \<and> ((\<forall>e \<in> set (drv_fs d). plain_path (fst e)) \<longrightarrow> remote_walk Through now n rd (at q) = drive_walk d (at q))"
proof -
  have opened: "drive_open d (at q) = drive_read d (at q)"
    using n by (simp add: drive_open_def drive_read_def reach_def serving_node_def healthy_def d_def)
  have "drive_online d"
    using n by (simp add: drive_online_def reach_safe serving_node_def healthy_def drive_wf_def look_def d_def)
  then have health: "remote_online Through now n rd = drive_online d"
    using n by (simp add: remote_online_def rpc_call_def drive_router_def serving_node_def)
  show ?thesis
    using remote_read_at_eq [OF n q] remote_walk_eq [OF n q] opened health
    by (simp add: d_def at_def upd_def map_prod_def case_prod_beta remote_read_eq [OF n q] remote_look_eq [OF n q]
        remote_write_eq [OF n q] remote_mkdir_eq [OF n q] remote_rename_eq [OF n p q] remote_remove_eq [OF n q]
        remote_stream_eq [OF n q] remote_open_def remove_kind_def)
qed

theorem remote_refines_local_witness:
  "remote_read Through 0 ex_node ex_remote (PathBuf False [''bkt'', ''k'']) = None
    \<and> snd (remote_write Through 0 ex_node ex_remote None (PathBuf False [''bkt'', ''k'']) (Bytes [1, 2]))
    \<and> snd (remote_stream Through 0 ex_node ex_remote None (PathBuf False [''bkt'', ''k'']) [[1], [2, 3]])
    \<and> remote_stat Through 0 ex_node ex_remote (PathBuf False [''bkt'']) = Some True"
proof -
  have l: "drive_read (dn_drive ex_node) (PathBuf False [''bkt'', ''k'']) = None"
    "snd (drive_write (dn_drive ex_node) (PathBuf False [''bkt'', ''k'']) (Bytes [1, 2]))"
    "snd (drive_stream (dn_drive ex_node) (PathBuf False [''bkt'', ''k'']) [[1], [2, 3]])"
    "drive_stat (dn_drive ex_node) (PathBuf False [''bkt'']) = Some True"
    by code_simp+
  have b: "plain_path [''bkt'']" using ex_plain by simp
  show ?thesis
    using remote_refines_local [OF ex_serving ex_plain ex_plain, where now = 0 and c = "Bytes [1, 2]" and writes = "[[1], [2, 3]]"]
      remote_refines_local [OF ex_serving b b, where now = 0] l
    by simp
qed

text \<open>
  Files written to a remote slot are read back.  When every call of a sequence of writes to distinct
  paths succeeds, reading any of the paths afterwards returns what was written there.
\<close>

theorem remote_slot_keeps_files:
  assumes "serving_node n rd ctx" and "\<forall>x \<in> set fs. plain_path (fst x)" and "distinct (map fst fs)"
    and "foldl (\<lambda>(n, ok) (q, c). if ok then remote_write Through now n rd ctx (PathBuf False q) c else (n, False))
      (n, True) fs = (n', True)"
  shows "\<forall>(q, c) \<in> set fs. remote_read Through now n' rd (PathBuf False q) = Some c"
proof -
  let ?w = "\<lambda>n q c. remote_write Through now n rd ctx (PathBuf False q) c"
  have stop: "foldl (\<lambda>(n, ok) (q, c). if ok then ?w n q c else (n, False)) (n, False) fs = (n, False)" for n fs
    by (induction fs) auto
  have "foldl (\<lambda>(n, ok) (q, c). if ok then ?w n q c else (n, False)) (n, True) fs = remote.store_files now rd ctx n fs" for n fs
  proof (induction fs arbitrary: n)
    case (Cons x fs)
    obtain q c where x: "x = (q, c)" by force
    obtain m ok where "?w n q c = (m, ok)" by force
    with Cons [of m] stop [of m fs] x show ?case by (cases ok) simp_all
  qed simp
  with assms(4) have "remote.store_files now rd ctx n fs = (n', True)" by simp
  with remote.store_files_fetch [OF assms(1-3), of now] show ?thesis by auto
qed

definition ex_files :: "(path \<times> doc) list" where
  "ex_files = [([''bkt'', ''k''], Bytes [1, 2]), ([''bkt'', ''j''], Bytes [3])]"

definition ex_filled :: drive_node where
  "ex_filled = fst (foldl (\<lambda>(n, ok) (q, c). if ok then remote_write Through 0 n ex_remote None (PathBuf False q) c else (n, False))
      (ex_node, True) ex_files)"

theorem remote_slot_keeps_files_witness:
  "remote_read Through 0 ex_filled ex_remote (PathBuf False [''bkt'', ''k'']) = Some (Bytes [1, 2])"
proof -
  have plain: "\<forall>x \<in> set ex_files. plain_path (fst x)" and dist: "distinct (map fst ex_files)"
    by (simp_all add: ex_files_def plain_comp_def)
  have "snd (foldl (\<lambda>(n, ok) (q, c). if ok then remote_write Through 0 n ex_remote None (PathBuf False q) c else (n, False))
      (ex_node, True) ex_files)"
    by code_simp
  then have run: "foldl (\<lambda>(n, ok) (q, c). if ok then remote_write Through 0 n ex_remote None (PathBuf False q) c else (n, False))
      (ex_node, True) ex_files = (ex_filled, True)"
    by (simp add: ex_filled_def prod_eq_iff)
  show ?thesis using remote_slot_keeps_files [OF ex_serving plain dist run] by (simp add: ex_files_def)
qed

section \<open>What a node refuses\<close>

text \<open>
  C12: a drive node keeps to its drive.  Whatever the request, the node changes nothing outside its
  drive's root and keeps its secret; a request without the secret is answered 401 and changes nothing
  at all, and neither does a read, a stat or a walk change the drive.
\<close>

theorem node_confined:
  assumes "drive_wf (dn_drive n)" and "drive_router now n h call = (n', sc, body)"
  shows "(\<forall>r. \<not> prefix (drv_root (dn_drive n)) r \<longrightarrow> lookup (drv_fs (dn_drive n')) r = lookup (drv_fs (dn_drive n)) r)
    \<and> (\<not> authorized n h \<longrightarrow> n' = n \<and> sc = 401)
    \<and> (\<not> writing_call call \<longrightarrow> dn_drive n' = dn_drive n)"
  using router_confined [OF assms(1), of now h call] router_unauthorized [of n h now call]
    router_reads [of call now n h] assms(2)
  by (auto simp: confined_def)

definition ex_escape :: "drive_node \<times> nat \<times> rpc_body" where
  "ex_escape = drive_router 0 ex_node (plain_headers ex_remote) (PutFile ''../d1/bkt/k'' (Bytes [9]))"

theorem node_confined_witness:
  "lookup (drv_fs (dn_drive (fst ex_escape))) [''d1'', ''bkt'', ''k''] = None \<and> fst (snd ex_escape) = 400"
proof -
  have wf: "drive_wf (dn_drive ex_node)" by (simp add: ex_node_def ex_drive_wf)
  have run: "drive_router 0 ex_node (plain_headers ex_remote) (PutFile ''../d1/bkt/k'' (Bytes [9]))
      = (fst ex_escape, fst (snd ex_escape), snd (snd ex_escape))"
    by (simp add: ex_escape_def)
  have l: "lookup (drv_fs (dn_drive ex_node)) [''d1'', ''bkt'', ''k''] = None" "fst (snd ex_escape) = 400"
    "\<not> prefix (drv_root (dn_drive ex_node)) [''d1'', ''bkt'', ''k'']"
    by code_simp+
  with node_confined [OF wf run] show ?thesis by simp
qed

section \<open>The lock and the fences together\<close>

text \<open>A gateway's request under its guard for one node, and the node with one of the lock system's tables.\<close>

definition carries :: "fence_ctx option \<Rightarrow> remote_drive \<Rightarrow> grant \<Rightarrow> bool" where
  "carries ctx rd g = (fence_for ctx (rm_base rd) = Some (gr_resource g, gr_token g))"

lemma fenced_out_carried:
  assumes "carries ctx rd g" "gr_token g < 2 ^ 64"
  shows "fenced_out n (fenced_headers rd ctx) =
    (if fence_ok (dn_locks n) (gr_resource g) (gr_token g) then None else Some 412)"
proof -
  have "gr_token g \<le> 2 ^ 64 - 1" using assms(2) by linarith
  with assms(1) show ?thesis by (simp add: fenced_out_def fenced_headers_def carries_def plain_headers_def)
qed

lemma remote_do_fenced:
  assumes "dn_secret n = rm_secret rd" "fenced_out n (fenced_headers rd ctx) = Some c" "writing_call call" "c \<ge> 300"
  shows "remote_do l now n rd ctx call = (n, False)"
  using router_fenced [OF assms(3) authorized_own(2) [OF assms(1)] assms(2), of now] assms(4)
  by (cases l) (simp_all add: remote_do_def rpc_call_def is_success_def)

text \<open>
  C5: as long as no lock table was collected, the lock decides whose writes a node takes.  In such a
  reachable state of the lock system a gateway whose lease is unexpired and unreleased has its writes,
  when the network delivers them, applied by the node that granted it, while a gateway whose grant was
  superseded by another's has every changing call refused, under any network behaviour, with the node
  left as it was.  The collection of idle slots ends this: after it a slot restarts at token 1 and older
  tokens pass again (\<open>collected_slot_unfences\<close>).
\<close>

theorem only_the_holder_writes:
  assumes "lock_reach s" and "\<not> sy_collected s"
    and n: "dn_secret n = rm_secret rd" "drive_wf (dn_drive n)" "healthy (dn_drive n)" "dn_locks n = sy_tables s i"
    and g: "gr_node g = i" "gr_token g < 2 ^ 64" "carries ctx rd g" and q: "plain_path q"
  shows "(g \<in> sy_grants s \<and> sy_now s < gr_expiry g \<longrightarrow>
      remote_write Through now n rd ctx (PathBuf False q) c =
        map_prod (\<lambda>d. n\<lparr>dn_drive := d\<rparr>) id (drive_write (dn_drive n) (PathBuf False q) c))
    \<and> (\<forall>g2 xs ys. sy_issued s = xs @ g2 # ys \<and> g \<in> set ys \<and> gr_node g2 = i \<and> gr_resource g2 = gr_resource g
        \<and> gr_owner g2 \<noteq> gr_owner g \<longrightarrow>
          (\<forall>call l. writing_call call \<longrightarrow> remote_do l now n rd ctx call = (n, False)))"
proof (intro conjI impI allI)
  assume live: "g \<in> sy_grants s \<and> sy_now s < gr_expiry g"
  then have "fence_ok (dn_locks n) (gr_resource g) (gr_token g)"
    using live_grant_passes [OF lock_inv_reach [OF assms(1)], of g] g(1) n(4) by simp
  then have "serving_node n rd ctx" using fenced_out_carried [OF g(3,2), of n] n by (simp add: serving_node_def)
  from remote_write_eq [OF this q] show "remote_write Through now n rd ctx (PathBuf False q) c =
        map_prod (\<lambda>d. n\<lparr>dn_drive := d\<rparr>) id (drive_write (dn_drive n) (PathBuf False q) c)"
    by (simp add: map_prod_def case_prod_beta)
next
  fix g2 xs ys call l
  assume sup: "sy_issued s = xs @ g2 # ys \<and> g \<in> set ys \<and> gr_node g2 = i \<and> gr_resource g2 = gr_resource g
    \<and> gr_owner g2 \<noteq> gr_owner g" and w: "writing_call call"
  then have "\<not> fence_ok (dn_locks n) (gr_resource g) (gr_token g)"
    using superseded_fenced(2) [OF fence_inv_reach [OF assms(1,2)], of xs g2 ys g] g(1) n(4) by fastforce
  then show "remote_do l now n rd ctx call = (n, False)"
    using remote_do_fenced [OF n(1) _ w] fenced_out_carried [OF g(3,2), of n] by simp
qed

definition ex_locked_node :: drive_node where
  "ex_locked_node = ex_node\<lparr>dn_locks := sy_tables ex_taken 0\<rparr>"

definition ex_stale_fence :: "fence_ctx option" where
  "ex_stale_fence = Some \<lparr> fc_resource = ''b/k'', fc_tokens = [(''n0'', 1)] \<rparr>"

theorem only_the_holder_writes_witness:
  "remote_do AnswerLost 40000 ex_locked_node ex_remote ex_stale_fence (DelFile ''bkt'' ''tree'') = (ex_locked_node, False)"
proof -
  let ?g1 = "\<lparr> gr_node = 0, gr_resource = ''b/k'', gr_owner = ''a'', gr_token = 1, gr_expiry = 30000 \<rparr>"
  let ?g2 = "\<lparr> gr_node = 0, gr_resource = ''b/k'', gr_owner = ''b'', gr_token = 2, gr_expiry = 60000 \<rparr>"
  have issued: "sy_issued ex_taken = [] @ ?g2 # tl (sy_issued ex_taken)" and old: "?g1 \<in> set (tl (sy_issued ex_taken))"
    and col: "\<not> sy_collected ex_taken"
    by (simp_all add: ex_lock_defs)
  have node: "dn_secret ex_locked_node = rm_secret ex_remote" "drive_wf (dn_drive ex_locked_node)"
    "healthy (dn_drive ex_locked_node)" "dn_locks ex_locked_node = sy_tables ex_taken 0"
    using ex_drive_healthy by (simp_all add: ex_locked_node_def ex_node_def ex_remote_def ex_drive_wf)
  have carried: "gr_node ?g1 = 0" "gr_token ?g1 < 2 ^ 64" "carries ex_stale_fence ex_remote ?g1"
    by (simp_all add: carries_def ex_stale_fence_def ex_remote_def fence_for_def)
  have call: "writing_call (DelFile ''bkt'' ''tree'')" by (simp add: writing_call_def)
  note stale = only_the_holder_writes [OF ex_taken_reach col node carried ex_plain, THEN conjunct2, rule_format]
  show ?thesis by (rule stale [OF _ call, of "[]" ?g2 "tl (sy_issued ex_taken)"]) (use issued old in simp)
qed

end
