(* ===== verification/Iam.thy ===== *)
theory Iam
  imports S3_Error
begin

text \<open>
  \<open>src/iam.rs\<close>: canned policies, identities with their bucket scope, the user table with its persisted
  document, stateless temporary credentials and the classification of a request.  HMAC-SHA256 and
  base64 are library functions and parameters; the JSON document is kept as the value it carries.
\<close>

section \<open>Library functions\<close>

record iam_lib =
  il_hmac :: "bytes \<Rightarrow> bytes \<Rightarrow> bytes"
  il_b64_encode :: "bytes \<Rightarrow> string"
  il_b64_decode :: "string \<Rightarrow> bytes option"

definition str_bytes :: "string \<Rightarrow> bytes" where
  "str_bytes s = map of_char s"

definition STS_PREFIX :: string where "STS_PREFIX = ''KPSTS''"
definition STS_PAYLOAD_LEN :: nat where "STS_PAYLOAD_LEN = 17"
definition STS_TAG_LEN :: nat where "STS_TAG_LEN = 16"

definition hmac_sha256 :: "iam_lib \<Rightarrow> string \<Rightarrow> bytes \<Rightarrow> bytes" where
  "hmac_sha256 L secret bs = il_hmac L (str_bytes secret) bs"

section \<open>Policies\<close>

datatype action = Read | Write | Admin

datatype policy = PAdmin | PReadWrite | PReadOnly | PWriteOnly

fun policy_to_id :: "policy \<Rightarrow> byte" where
  "policy_to_id PAdmin = 1"
| "policy_to_id PReadWrite = 2"
| "policy_to_id PReadOnly = 3"
| "policy_to_id PWriteOnly = 4"

definition policy_from_id :: "byte \<Rightarrow> policy option" where
  "policy_from_id i =
     (if i = 1 then Some PAdmin
      else if i = 2 then Some PReadWrite
      else if i = 3 then Some PReadOnly
      else if i = 4 then Some PWriteOnly
      else None)"

definition policy_from_name :: "string \<Rightarrow> policy" where
  "policy_from_name name =
     (let n = ascii_lowercase (trim name)
      in if n \<in> set [''admin'', ''consoleadmin'', ''diagnostics''] then PAdmin
         else if n \<in> set [''readwrite'', ''readwriteadmin''] then PReadWrite
         else if n = ''writeonly'' then PWriteOnly
         else PReadOnly)"

fun policy_name :: "policy \<Rightarrow> string" where
  "policy_name PAdmin = ''consoleAdmin''"
| "policy_name PReadWrite = ''readwrite''"
| "policy_name PReadOnly = ''readonly''"
| "policy_name PWriteOnly = ''writeonly''"

fun allows :: "policy \<Rightarrow> action \<Rightarrow> bool" where
  "allows PAdmin _ = True"
| "allows _ Admin = False"
| "allows PReadWrite _ = True"
| "allows PReadOnly Read = True"
| "allows PWriteOnly Write = True"
| "allows _ _ = False"

section \<open>Identities\<close>

record identity =
  id_access_key :: string
  id_secret_key :: string
  id_policy :: string
  id_enabled :: bool
  id_buckets :: "string list option"

definition allows_bucket :: "identity \<Rightarrow> string option \<Rightarrow> bool" where
  "allows_bucket i bucket =
     (case (id_buckets i, bucket) of
        (None, _) \<Rightarrow> True
      | (Some _, None) \<Rightarrow> True
      | (Some allowed, Some b) \<Rightarrow> b \<in> set allowed)"

record stored_user =
  su_secret_key :: string
  su_policy :: string
  su_enabled :: bool
  su_buckets :: "string list option"

definition default_policy :: string where "default_policy = ''readwrite''"
definition default_true :: bool where "default_true = True"

definition parse_bucket_list :: "string \<Rightarrow> string list option" where
  "parse_bucket_list raw =
     (let names = filter (\<lambda>s. s \<noteq> []) (map trim (split_on (CHR ''|'') raw))
      in if names = [] then None else Some names)"

text \<open>The persisted document: a field that is absent is \<open>None\<close>.\<close>

record user_json =
  uj_secret_key :: string
  uj_policy :: "string option"
  uj_enabled :: "bool option"
  uj_buckets :: "string list option"

type_synonym users_doc = "(string \<times> user_json) list"
type_synonym users = "(string \<times> stored_user) list"

definition user_of_json :: "user_json \<Rightarrow> stored_user" where
  "user_of_json j =
     \<lparr> su_secret_key = uj_secret_key j,
       su_policy = (case uj_policy j of Some p \<Rightarrow> p | None \<Rightarrow> default_policy),
       su_enabled = (case uj_enabled j of Some b \<Rightarrow> b | None \<Rightarrow> default_true),
       su_buckets = uj_buckets j \<rparr>"

definition json_of_user :: "stored_user \<Rightarrow> user_json" where
  "json_of_user u =
     \<lparr> uj_secret_key = su_secret_key u, uj_policy = Some (su_policy u), uj_enabled = Some (su_enabled u),
       uj_buckets = su_buckets u \<rparr>"

definition users_of_doc :: "users_doc \<Rightarrow> users" where
  "users_of_doc doc = foldl (\<lambda>m (k, j). AList.update k (user_of_json j) m) [] doc"

section \<open>The store\<close>

record iam_store =
  ia_root_key :: string
  ia_root_secret :: string
  ia_users :: users
  ia_path :: string

text \<open>The document on disk; \<open>None\<close> when it is absent or does not parse.\<close>

type_synonym users_file = "users_doc option"

text \<open>One entry of \<open>KP_USERS\<close>.\<close>

definition seed_entry :: "string \<Rightarrow> users \<Rightarrow> string \<Rightarrow> users" where
  "seed_entry root_key m entry =
     (let parts = split_on (CHR '':'') entry
      in if length parts < 2 \<or> parts ! 0 = [] \<or> parts ! 1 = [] then m
         else if parts ! 0 = root_key then m
         else if map_of m (parts ! 0) \<noteq> None then m
         else AList.update (parts ! 0)
           \<lparr> su_secret_key = parts ! 1,
             su_policy = (if 2 < length parts then parts ! 2 else default_policy),
             su_enabled = True,
             su_buckets = (if 3 < length parts then parse_bucket_list (parts ! 3) else None) \<rparr> m)"

definition load :: "string \<Rightarrow> users_file \<Rightarrow> string \<Rightarrow> string \<Rightarrow> string option \<Rightarrow> iam_store" where
  "load iam_dir file root_key root_secret env_seed =
     (let stored = (case file of Some doc \<Rightarrow> users_of_doc doc | None \<Rightarrow> []);
          users = (case env_seed of
                     Some seed \<Rightarrow>
                       foldl (seed_entry root_key) stored
                         (filter (\<lambda>s. s \<noteq> []) (map trim (split_on (CHR '','') seed)))
                   | None \<Rightarrow> stored)
      in \<lparr> ia_root_key = root_key, ia_root_secret = root_secret, ia_users = users,
           ia_path = iam_dir @ ''/users.json'' \<rparr>)"

section \<open>Temporary credentials\<close>

text \<open>\<open>to_be_bytes\<close> and \<open>from_be_bytes\<close> of an \<open>i64\<close>.\<close>

fun be_bytes :: "nat \<Rightarrow> nat \<Rightarrow> bytes" where
  "be_bytes 0 n = []"
| "be_bytes (Suc k) n = be_bytes k (n div 256) @ [of_nat n]"

definition be64 :: "64 word \<Rightarrow> bytes" where
  "be64 w = be_bytes 8 (unat w)"

definition from_be64 :: "bytes \<Rightarrow> 64 word" where
  "from_be64 bs = of_nat (foldl (\<lambda>acc b. acc * 256 + unat b) 0 bs)"

definition issue_temp ::
  "iam_lib \<Rightarrow> iam_store \<Rightarrow> 64 word \<Rightarrow> bytes \<Rightarrow> policy \<Rightarrow> 64 word \<Rightarrow> string \<times> string \<times> 64 word" where
  "issue_temp L iam now nonce pol ttl_secs =
     (let expiry = now + ttl_secs;
          payload = policy_to_id pol # be64 expiry @ nonce;
          tag = hmac_sha256 L (ia_root_secret iam) payload;
          access_key = STS_PREFIX @ il_b64_encode L (payload @ take STS_TAG_LEN tag);
          secret_key = il_b64_encode L (hmac_sha256 L (ia_root_secret iam) (str_bytes access_key))
      in (access_key, secret_key, expiry))"

definition resolve_sts :: "iam_lib \<Rightarrow> iam_store \<Rightarrow> 64 word \<Rightarrow> string \<Rightarrow> identity option" where
  "resolve_sts L iam now access_key =
     (case strip_prefix STS_PREFIX access_key of
        None \<Rightarrow> None
      | Some b64 \<Rightarrow>
     (case il_b64_decode L b64 of
        None \<Rightarrow> None
      | Some blob \<Rightarrow>
          (if length blob \<noteq> STS_PAYLOAD_LEN + STS_TAG_LEN then None
           else
             let payload = take STS_PAYLOAD_LEN blob;
                 tag = drop STS_PAYLOAD_LEN blob
             in if take STS_TAG_LEN (hmac_sha256 L (ia_root_secret iam) payload) \<noteq> tag then None
                else case policy_from_id (payload ! 0) of
                    None \<Rightarrow> None
                  | Some pol \<Rightarrow>
                      if sint (from_be64 (take 8 (drop 1 payload))) \<le> sint now then None
                      else Some \<lparr> id_access_key = access_key,
                                  id_secret_key = il_b64_encode L (hmac_sha256 L (ia_root_secret iam) (str_bytes access_key)),
                                  id_policy = policy_name pol, id_enabled = True, id_buckets = None \<rparr>)))"

section \<open>Resolving and listing\<close>

definition root_identity :: "iam_store \<Rightarrow> identity" where
  "root_identity iam =
     \<lparr> id_access_key = ia_root_key iam, id_secret_key = ia_root_secret iam, id_policy = policy_name PAdmin,
       id_enabled = True, id_buckets = None \<rparr>"

definition user_identity :: "string \<Rightarrow> stored_user \<Rightarrow> identity" where
  "user_identity access_key u =
     \<lparr> id_access_key = access_key, id_secret_key = su_secret_key u, id_policy = su_policy u,
       id_enabled = su_enabled u, id_buckets = su_buckets u \<rparr>"

definition resolve :: "iam_lib \<Rightarrow> iam_store \<Rightarrow> 64 word \<Rightarrow> string \<Rightarrow> identity option" where
  "resolve L iam now access_key =
     (if access_key = ia_root_key iam then Some (root_identity iam)
      else if starts_with access_key STS_PREFIX then resolve_sts L iam now access_key
      else map_option (user_identity access_key) (map_of (ia_users iam) access_key))"

definition list_identities :: "iam_store \<Rightarrow> identity list" where
  "list_identities iam =
     root_identity iam
       # map (\<lambda>k. user_identity k (the (map_of (ia_users iam) k))) (sort (remdups (map fst (ia_users iam))))"

section \<open>Changing users\<close>

text \<open>
  What the file system does with one \<open>persist\<close>; a write that fails leaves a document the
  environment chooses.
\<close>

datatype persist_io = PersistOk | MkdirFails | WriteFails users_file

definition persist :: "persist_io \<Rightarrow> iam_store \<Rightarrow> users_file \<Rightarrow> users_file \<times> unit result" where
  "persist io iam file =
     (if ia_path iam = [] then (file, Ok ())
      else case io of
          PersistOk \<Rightarrow> (Some (map (\<lambda>(k, u). (k, json_of_user u)) (ia_users iam)), Ok ())
        | MkdirFails \<Rightarrow> (file, Err (Internal ''mkdir iam''))
        | WriteFails left \<Rightarrow> (left, Err (Internal ''write users'')))"

definition save :: "persist_io \<Rightarrow> iam_store \<Rightarrow> users_file \<Rightarrow> iam_store \<times> users_file \<times> unit result" where
  "save io iam file = (case persist io iam file of (file', r) \<Rightarrow> (iam, file', r))"

definition add_user ::
  "persist_io \<Rightarrow> iam_store \<Rightarrow> users_file \<Rightarrow> string \<Rightarrow> string \<Rightarrow> string \<Rightarrow> iam_store \<times> users_file \<times> unit result" where
  "add_user io iam file access_key secret_key pol =
     (if access_key = [] \<or> secret_key = []
      then (iam, file, Err (InvalidArgument ''empty access/secret key''))
      else if access_key = ia_root_key iam
      then (iam, file, Err (InvalidArgument ''cannot redefine root user''))
      else
        let buckets = Option.bind (map_of (ia_users iam) access_key) su_buckets;
            u = \<lparr> su_secret_key = secret_key, su_policy = pol, su_enabled = True, su_buckets = buckets \<rparr>
        in save io (iam\<lparr>ia_users := AList.update access_key u (ia_users iam)\<rparr>) file)"

definition remove_user ::
  "persist_io \<Rightarrow> iam_store \<Rightarrow> users_file \<Rightarrow> string \<Rightarrow> iam_store \<times> users_file \<times> unit result" where
  "remove_user io iam file access_key =
     (if access_key = ia_root_key iam then (iam, file, Err (InvalidArgument ''cannot remove root user''))
      else save io (iam\<lparr>ia_users := filter (\<lambda>e. fst e \<noteq> access_key) (ia_users iam)\<rparr>) file)"

text \<open>\<open>get_mut\<close> on one user.\<close>

definition change_user ::
  "persist_io \<Rightarrow> iam_store \<Rightarrow> users_file \<Rightarrow> string \<Rightarrow> (stored_user \<Rightarrow> stored_user) \<Rightarrow>
   iam_store \<times> users_file \<times> unit result" where
  "change_user io iam file access_key f =
     (case map_of (ia_users iam) access_key of
        Some u \<Rightarrow> save io (iam\<lparr>ia_users := AList.update access_key (f u) (ia_users iam)\<rparr>) file
      | None \<Rightarrow> (iam, file, Err (InvalidArgument ''no such user'')))"

definition set_status ::
  "persist_io \<Rightarrow> iam_store \<Rightarrow> users_file \<Rightarrow> string \<Rightarrow> bool \<Rightarrow> iam_store \<times> users_file \<times> unit result" where
  "set_status io iam file access_key enabled =
     change_user io iam file access_key (\<lambda>u. u\<lparr>su_enabled := enabled\<rparr>)"

definition set_policy ::
  "persist_io \<Rightarrow> iam_store \<Rightarrow> users_file \<Rightarrow> string \<Rightarrow> string \<Rightarrow> iam_store \<times> users_file \<times> unit result" where
  "set_policy io iam file access_key pol =
     (if access_key = ia_root_key iam then (iam, file, Err (InvalidArgument ''cannot change root policy''))
      else change_user io iam file access_key (\<lambda>u. u\<lparr>su_policy := pol\<rparr>))"

definition set_buckets ::
  "persist_io \<Rightarrow> iam_store \<Rightarrow> users_file \<Rightarrow> string \<Rightarrow> string list option \<Rightarrow>
   iam_store \<times> users_file \<times> unit result" where
  "set_buckets io iam file access_key buckets =
     (if access_key = ia_root_key iam then (iam, file, Err (InvalidArgument ''cannot scope root user''))
      else change_user io iam file access_key (\<lambda>u. u\<lparr>su_buckets := buckets\<rparr>))"

section \<open>Classifying a request\<close>

datatype http_method = GET | HEAD | PUT | POST | DELETE | PATCH | OtherMethod string

definition action_for :: "http_method \<Rightarrow> string \<Rightarrow> action" where
  "action_for m path =
     (if starts_with path ''/kerplace/admin'' \<or> starts_with path ''/minio/admin'' then Admin
      else case m of
          GET \<Rightarrow> Read | HEAD \<Rightarrow> Read
        | PUT \<Rightarrow> Write | POST \<Rightarrow> Write | DELETE \<Rightarrow> Write | PATCH \<Rightarrow> Write
        | OtherMethod _ \<Rightarrow> Read)"

definition bucket_for :: "string \<Rightarrow> string option" where
  "bucket_for path =
     (if starts_with path ''/kerplace/'' \<or> starts_with path ''/minio/'' then None
      else let seg = hd (split_on (CHR ''/'') (dropWhile (\<lambda>c. c = CHR ''/'') path))
           in if seg = [] then None else Some seg)"

end
