(* ===== verification/Sigv4.thy ===== *)
theory Sigv4
  imports Iam Codec "HOL-Library.Product_Lexorder"
begin

text \<open>
  \<open>src/auth/sigv4.rs\<close>: verification of AWS Signature V4, in the \<open>Authorization\<close> header and in the query of a
  presigned URL.  SHA-256, HMAC, percent coding and date parsing are library functions and parameters.
\<close>

section \<open>Requests\<close>

type_synonym header_map = "(string \<times> string) list"

record http_request =
  rq_method :: http_method
  rq_path :: string
  rq_query :: "string option"
  rq_headers :: header_map

text \<open>\<open>headers.get(name).and_then(|v| v.to_str().ok())\<close>: names are kept in lower case, and a value with a
  byte that is not visible ASCII does not convert.\<close>

definition visible_ascii :: "char \<Rightarrow> bool" where
  "visible_ascii c = (of_char c = (9 :: nat) \<or> (32 \<le> (of_char c :: nat) \<and> (of_char c :: nat) < 127))"

definition header_str :: "header_map \<Rightarrow> string \<Rightarrow> string option" where
  "header_str hs name =
     (case map_of hs (ascii_lowercase name) of
        Some v \<Rightarrow> if list_all visible_ascii v then Some v else None
      | None \<Rightarrow> None)"

definition has_header :: "header_map \<Rightarrow> string \<Rightarrow> bool" where
  "has_header hs name = (map_of hs (ascii_lowercase name) \<noteq> None)"

fun method_str :: "http_method \<Rightarrow> string" where
  "method_str GET = ''GET''"
| "method_str HEAD = ''HEAD''"
| "method_str PUT = ''PUT''"
| "method_str POST = ''POST''"
| "method_str DELETE = ''DELETE''"
| "method_str PATCH = ''PATCH''"
| "method_str (OtherMethod s) = s"

section \<open>Library functions\<close>

text \<open>\<open>sg_parse_time\<close> reads \<open>YYYYMMDDTHHMMSSZ\<close> as a Unix time.\<close>

record sig_lib =
  sg_iam :: iam_lib
  sg_sha256 :: "bytes \<Rightarrow> bytes"
  sg_pct_decode :: "string \<Rightarrow> string"
  sg_pct_encode :: "string \<Rightarrow> string"
  sg_parse_time :: "string \<Rightarrow> int option"

definition sha256_hex :: "sig_lib \<Rightarrow> string \<Rightarrow> string" where
  "sha256_hex S s = hex_encode (sg_sha256 S (str_bytes s))"

definition sig_hmac :: "sig_lib \<Rightarrow> bytes \<Rightarrow> string \<Rightarrow> bytes" where
  "sig_hmac S key s = il_hmac (sg_iam S) key (str_bytes s)"

definition derive_signing_key :: "sig_lib \<Rightarrow> string \<Rightarrow> string \<Rightarrow> string \<Rightarrow> string \<Rightarrow> bytes" where
  "derive_signing_key S secret date region service =
     (let k_date = sig_hmac S (str_bytes (''AWS4'' @ secret)) date;
          k_region = sig_hmac S k_date region;
          k_service = sig_hmac S k_region service
      in sig_hmac S k_service ''aws4_request'')"

section \<open>The authorization header\<close>

record parsed_auth =
  pa_access_key :: string
  pa_date :: string
  pa_region :: string
  pa_service :: string
  pa_signed_headers :: "string list"
  pa_signature :: string

text \<open>One comma-separated part; a later part of the same kind replaces an earlier one.\<close>

definition auth_part ::
  "string option \<times> string option \<times> string option \<Rightarrow> string \<Rightarrow> string option \<times> string option \<times> string option" where
  "auth_part acc part0 =
     (case acc of (credential, signed_headers, signature) \<Rightarrow>
        let part = trim part0
        in case strip_prefix ''Credential='' part of
             Some v \<Rightarrow> (Some v, signed_headers, signature)
           | None \<Rightarrow>
               (case strip_prefix ''SignedHeaders='' part of
                  Some v \<Rightarrow> (credential, Some v, signature)
                | None \<Rightarrow>
                    (case strip_prefix ''Signature='' part of
                       Some v \<Rightarrow> (credential, signed_headers, Some v)
                     | None \<Rightarrow> acc)))"

definition signed_header_names :: "string \<Rightarrow> string list" where
  "signed_header_names s = sort (map (\<lambda>h. ascii_lowercase (trim h)) (split_on (CHR '';'') s))"

definition parse_authorization :: "string \<Rightarrow> parsed_auth result" where
  "parse_authorization v =
     (case strip_prefix ''AWS4-HMAC-SHA256'' v of
        None \<Rightarrow> Err AuthorizationHeaderMalformed
      | Some rest \<Rightarrow>
          (case foldl auth_part (None, None, None) (split_on (CHR '','') (trim_start rest)) of
             (Some credential, Some signed_headers, Some signature) \<Rightarrow>
               (case split_on (CHR ''/'') credential of
                  [access_key, date, region, service, _] \<Rightarrow>
                    Ok \<lparr> pa_access_key = access_key, pa_date = date, pa_region = region, pa_service = service,
                         pa_signed_headers = signed_header_names signed_headers, pa_signature = signature \<rparr>
                | _ \<Rightarrow> Err AuthorizationHeaderMalformed)
           | _ \<Rightarrow> Err AuthorizationHeaderMalformed))"

section \<open>Canonical form\<close>

definition sigv4_encode_token :: "sig_lib \<Rightarrow> string \<Rightarrow> string" where
  "sigv4_encode_token S tok = sg_pct_encode S (sg_pct_decode S tok)"

definition canonical_query_from_pairs :: "sig_lib \<Rightarrow> (string \<times> string) list \<Rightarrow> string" where
  "canonical_query_from_pairs S pairs =
     join_with ''&'' (map (\<lambda>(k, v). k @ ''='' @ v)
       (sort (map (\<lambda>(k, v). (sigv4_encode_token S k, sigv4_encode_token S v)) pairs)))"

text \<open>\<open>kv.split_once('=').unwrap_or((kv, ""))\<close>.\<close>

definition query_pair :: "string \<Rightarrow> string \<times> string" where
  "query_pair kv = (case split_once (CHR ''='') kv of Some p \<Rightarrow> p | None \<Rightarrow> (kv, []))"

definition build_canonical_query :: "sig_lib \<Rightarrow> string option \<Rightarrow> string" where
  "build_canonical_query S query =
     (case query of
        None \<Rightarrow> []
      | Some q \<Rightarrow> if q = [] then [] else canonical_query_from_pairs S (map query_pair (split_on (CHR ''&'') q)))"

definition newline :: string where "newline = [CHR 0x0A]"

definition canonical_headers :: "header_map \<Rightarrow> string list \<Rightarrow> string" where
  "canonical_headers hs names =
     concat (map (\<lambda>name. name @ '':'' @ trim (case header_str hs name of Some v \<Rightarrow> v | None \<Rightarrow> []) @ newline) names)"

definition canonical_request ::
  "http_request \<Rightarrow> string \<Rightarrow> string list \<Rightarrow> string \<Rightarrow> string" where
  "canonical_request req query names payload =
     join_with newline [method_str (rq_method req), rq_path req, query, canonical_headers (rq_headers req) names,
       join_with '';'' names, payload]"

definition string_to_sign :: "sig_lib \<Rightarrow> string \<Rightarrow> string \<Rightarrow> string \<Rightarrow> string \<Rightarrow> string \<Rightarrow> string" where
  "string_to_sign S amz_date date region service creq =
     join_with newline [''AWS4-HMAC-SHA256'', amz_date, join_with ''/'' [date, region, service, ''aws4_request''],
       sha256_hex S creq]"

definition signature_of ::
  "sig_lib \<Rightarrow> string \<Rightarrow> string \<Rightarrow> string \<Rightarrow> string \<Rightarrow> string \<Rightarrow> string \<Rightarrow> string" where
  "signature_of S secret amz_date date region service creq =
     hex_encode (sig_hmac S (derive_signing_key S secret date region service)
       (string_to_sign S amz_date date region service creq))"

section \<open>Verification\<close>

text \<open>\<open>find_identity\<close> is \<open>IamStore::resolve\<close> at the moment of the call.\<close>

definition verify :: "sig_lib \<Rightarrow> (string \<Rightarrow> identity option) \<Rightarrow> http_request \<Rightarrow> identity result" where
  "verify S find_identity req =
     (case header_str (rq_headers req) ''authorization'' of
        None \<Rightarrow> Err AccessDenied
      | Some auth_value \<Rightarrow>
     (case parse_authorization auth_value of
        Err e \<Rightarrow> Err e
      | Ok parsed \<Rightarrow>
     (case find_identity (pa_access_key parsed) of
        None \<Rightarrow> Err InvalidAccessKeyId
      | Some i \<Rightarrow>
     (if \<not> id_enabled i then Err AccessDenied
      else case header_str (rq_headers req) ''x-amz-date'' of
        None \<Rightarrow> Err AuthorizationHeaderMalformed
      | Some amz_date \<Rightarrow>
          let payload_hash = (case header_str (rq_headers req) ''x-amz-content-sha256'' of
                                Some h \<Rightarrow> h | None \<Rightarrow> ''UNSIGNED-PAYLOAD'');
              creq = canonical_request req (build_canonical_query S (rq_query req)) (pa_signed_headers parsed) payload_hash
          in if signature_of S (id_secret_key i) amz_date (pa_date parsed) (pa_region parsed) (pa_service parsed) creq
                = pa_signature parsed
             then Ok i else Err SignatureDoesNotMatch))))"

text \<open>\<open>str::parse::<i64>\<close>.\<close>

definition parse_i64 :: "string \<Rightarrow> int option" where
  "parse_i64 s =
     (case s of
        [] \<Rightarrow> None
      | c # ds \<Rightarrow>
          (if c = CHR ''-''
           then (if ds = [] then None else map_option (\<lambda>n. - int n) (parse_digits 10 (2 ^ 63) ds 0))
           else map_option int (parse_radix 10 (2 ^ 63 - 1) s)))"

text \<open>
  The addition of a duration to a time panics when the sum leaves the years \<open>-9999\<close> to \<open>9999\<close>; the
  bounds are the first and the last second of that range.
\<close>

definition time_in_range :: "int \<Rightarrow> bool" where
  "time_in_range t = (- 377705116800 \<le> t \<and> t \<le> 253402300799)"

definition presigned_pairs :: "string option \<Rightarrow> (string \<times> string) list" where
  "presigned_pairs query =
     (case query of
        None \<Rightarrow> []
      | Some q \<Rightarrow> map query_pair (filter (\<lambda>s. s \<noteq> []) (split_on (CHR ''&'') q)))"

datatype 'a outcome = Panic | Done 'a

text \<open>\<open>now_ns\<close> is the current time in nanoseconds since the epoch.\<close>

definition verify_presigned ::
  "sig_lib \<Rightarrow> (string \<Rightarrow> identity option) \<Rightarrow> int \<Rightarrow> http_request \<Rightarrow> identity result outcome" where
  "verify_presigned S find_identity now_ns req =
     (let raw_pairs = presigned_pairs (rq_query req);
          param = (\<lambda>k. map_option (sg_pct_decode S) (map_of raw_pairs k))
      in case param ''X-Amz-Credential'' of
        None \<Rightarrow> Done (Err AccessDenied)
      | Some credential \<Rightarrow>
     (case param ''X-Amz-Date'' of
        None \<Rightarrow> Done (Err AuthorizationHeaderMalformed)
      | Some amz_date \<Rightarrow>
     (case Option.bind (param ''X-Amz-Expires'') parse_i64 of
        None \<Rightarrow> Done (Err AuthorizationHeaderMalformed)
      | Some expires \<Rightarrow>
     (case param ''X-Amz-SignedHeaders'' of
        None \<Rightarrow> Done (Err AuthorizationHeaderMalformed)
      | Some signed_headers \<Rightarrow>
     (case param ''X-Amz-Signature'' of
        None \<Rightarrow> Done (Err AccessDenied)
      | Some provided_signature \<Rightarrow>
     (case split_on (CHR ''/'') credential of
        [access_key, date, region, service, _] \<Rightarrow>
     (case find_identity access_key of
        None \<Rightarrow> Done (Err InvalidAccessKeyId)
      | Some i \<Rightarrow>
     (if \<not> id_enabled i then Done (Err AccessDenied)
      else case sg_parse_time S amz_date of
        None \<Rightarrow> Done (Err AuthorizationHeaderMalformed)
      | Some signed_time \<Rightarrow>
          if \<not> time_in_range (signed_time + expires) then Panic
          else if (signed_time + expires) * 10 ^ 9 < now_ns then Done (Err AccessDenied)
          else
            let names = signed_header_names signed_headers;
                query = canonical_query_from_pairs S (filter (\<lambda>p. fst p \<noteq> ''X-Amz-Signature'') raw_pairs);
                creq = canonical_request req query names ''UNSIGNED-PAYLOAD''
            in Done (if signature_of S (id_secret_key i) amz_date date region service creq = provided_signature
                     then Ok i else Err SignatureDoesNotMatch)))
      | _ \<Rightarrow> Done (Err AuthorizationHeaderMalformed)))))))"

end
