(* ===== verification/Auth.thy ===== *)
theory Auth
  imports Sigv4 Crypto
begin

text \<open>
  \<open>src/auth/mod.rs\<close>, \<open>src/auth/chunked.rs\<close>, \<open>src/audit.rs\<close> and \<open>src/access_log.rs\<close>: the middleware every
  request passes, the decoder of \<open>aws-chunked\<close> bodies and the access log.  The handlers behind the
  middleware are a parameter, a function on any state.
\<close>

section \<open>The aws-chunked decoder\<close>

text \<open>UTF-8 validity, which \<open>read_line\<close> into a \<open>String\<close> requires.\<close>

definition continuation :: "byte \<Rightarrow> bool" where
  "continuation b = (0x80 \<le> b \<and> b \<le> 0xBF)"

fun utf8_valid :: "bytes \<Rightarrow> bool" where
  "utf8_valid [] = True"
| "utf8_valid (a # bs) =
     (if a < 0x80 then utf8_valid bs
      else case bs of
        [] \<Rightarrow> False
      | b # cs \<Rightarrow>
          (if 0xC2 \<le> a \<and> a \<le> 0xDF then continuation b \<and> utf8_valid cs
           else case cs of
             [] \<Rightarrow> False
           | c # ds \<Rightarrow>
               (if 0xE0 \<le> a \<and> a \<le> 0xEF
                then continuation b \<and> continuation c \<and> (a = 0xE0 \<longrightarrow> 0xA0 \<le> b) \<and> (a = 0xED \<longrightarrow> b \<le> 0x9F)
                  \<and> utf8_valid ds
                else case ds of
                  [] \<Rightarrow> False
                | d # es \<Rightarrow>
                    0xF0 \<le> a \<and> a \<le> 0xF4 \<and> continuation b \<and> continuation c \<and> continuation d
                    \<and> (a = 0xF0 \<longrightarrow> 0x90 \<le> b) \<and> (a = 0xF4 \<longrightarrow> b \<le> 0x8F) \<and> utf8_valid es)))"

definition bytes_str :: "bytes \<Rightarrow> string" where
  "bytes_str bs = map (\<lambda>b. char_of (unat b)) bs"

definition LF :: byte where "LF = 10"

definition line_of :: "bytes \<Rightarrow> bytes" where
  "line_of bs = takeWhile (\<lambda>b. b \<noteq> LF) bs"

definition after_line :: "bytes \<Rightarrow> bytes" where
  "after_line bs = drop 1 (dropWhile (\<lambda>b. b \<noteq> LF) bs)"

lemma after_line_shorter: "bs \<noteq> [] \<Longrightarrow> length (after_line bs) < length bs"
proof (cases bs)
  case (Cons b cs)
  then show ?thesis using length_dropWhile_le [of "\<lambda>b. b \<noteq> LF" cs] by (simp add: after_line_def) linarith
qed simp

text \<open>The size field: the line without its end, up to the first semicolon, trimmed.\<close>

definition size_field :: "bytes \<Rightarrow> string" where
  "size_field line =
     (let trimmed = rev (dropWhile (\<lambda>c. c = CHR 0x0D \<or> c = CHR 0x0A) (rev (bytes_str line)))
      in trim (hd (split_on (CHR '';'') trimmed)))"

text \<open>
  \<open>pump\<close> returns the bytes it wrote to the pipe; when it stops early the reader of the pipe sees an
  end of stream like any other.  \<open>fails\<close> tells that the source ends with an error.
\<close>

function pump :: "bytes \<Rightarrow> bool \<Rightarrow> bytes" where
  "pump bs fails =
     (if bs = [] then []
      else if fails \<and> LF \<notin> set bs then []
      else if \<not> utf8_valid (line_of bs) then []
      else let size_hex = size_field (line_of bs); rest = after_line bs
        in if size_hex = [] then pump rest fails
           else case parse_radix 16 (2 ^ 64 - 1) size_hex of
               None \<Rightarrow> []
             | Some n \<Rightarrow> if n = 0 then [] else take n rest @ pump (drop 2 (drop n rest)) fails)"
  by pat_completeness auto
termination
  by (relation "measure (length \<circ> fst)") (auto dest: after_line_shorter)

declare pump.simps [simp del]

definition decode_aws_chunked :: "body \<Rightarrow> body" where
  "decode_aws_chunked b = Body (pump (body_bytes b) (body_fails b)) False"

section \<open>The access log\<close>

record audit_context =
  au_access_key :: "string option"
  au_remote_ip :: "string option"

record access_entry =
  ae_ts :: string
  ae_access_key :: "string option"
  ae_remote_ip :: "string option"
  ae_method :: string
  ae_op :: string
  ae_bucket :: "string option"
  ae_key :: "string option"
  ae_version_id :: "string option"
  ae_status :: nat

definition key_for :: "string \<Rightarrow> string option" where
  "key_for path =
     (case split_once (CHR ''/'') (dropWhile (\<lambda>c. c = CHR ''/'') path) of
        Some (_, key) \<Rightarrow> if key = [] then None else Some key
      | None \<Rightarrow> None)"

definition version_id_from_query :: "string option \<Rightarrow> string option" where
  "version_id_from_query query =
     (case query of
        None \<Rightarrow> None
      | Some q \<Rightarrow>
          (case List.map_filter (strip_prefix ''versionId='') (split_on (CHR ''&'') q) of
             v # _ \<Rightarrow> Some v | [] \<Rightarrow> None))"

definition op_for :: "http_method \<Rightarrow> bool \<Rightarrow> bool \<Rightarrow> string \<Rightarrow> string" where
  "op_for m has_bucket has_key path =
     (if starts_with path ''/kerplace/admin'' \<or> starts_with path ''/minio/admin'' then ''AdminRequest''
      else if \<not> has_bucket then
        (case m of GET \<Rightarrow> ''ListBuckets'' | POST \<Rightarrow> ''AssumeRole'' | _ \<Rightarrow> ''Other'')
      else if \<not> has_key then
        (case m of
           GET \<Rightarrow> ''ListObjects'' | HEAD \<Rightarrow> ''HeadBucket'' | PUT \<Rightarrow> ''CreateBucket''
         | DELETE \<Rightarrow> ''DeleteBucket'' | POST \<Rightarrow> ''PostBucket'' | _ \<Rightarrow> ''Other'')
      else
        (case m of
           GET \<Rightarrow> ''GetObject'' | HEAD \<Rightarrow> ''HeadObject'' | PUT \<Rightarrow> ''PutObject''
         | DELETE \<Rightarrow> ''DeleteObject'' | POST \<Rightarrow> ''PostObject'' | _ \<Rightarrow> ''Other''))"

definition entry_for :: "string \<Rightarrow> http_request \<Rightarrow> audit_context \<Rightarrow> nat \<Rightarrow> access_entry" where
  "entry_for ts req ctx sc =
     (let bucket = bucket_for (rq_path req); key = key_for (rq_path req)
      in \<lparr> ae_ts = ts, ae_access_key = au_access_key ctx, ae_remote_ip = au_remote_ip ctx,
           ae_method = method_str (rq_method req),
           ae_op = op_for (rq_method req) (bucket \<noteq> None) (key \<noteq> None) (rq_path req),
           ae_bucket = bucket, ae_key = key, ae_version_id = version_id_from_query (rq_query req),
           ae_status = sc \<rparr>)"

text \<open>Queueing a record; \<open>None\<close> is a gateway without a log.\<close>

type_synonym access_log = "access_entry list option"

definition log_access :: "access_log \<Rightarrow> string \<Rightarrow> http_request \<Rightarrow> audit_context \<Rightarrow> nat \<Rightarrow> access_log" where
  "log_access log ts req ctx sc = map_option (\<lambda>es. es @ [entry_for ts req ctx sc]) log"

section \<open>The middleware\<close>

record gateway =
  gw_auth_enabled :: bool
  gw_lib :: sig_lib
  gw_find :: "string \<Rightarrow> identity option"

text \<open>The circumstances of one request: clock, timestamp text, request id, transport peer.\<close>

record request_env =
  re_now_ns :: int
  re_ts :: string
  re_request_id :: string
  re_peer :: "string option"

definition is_aws_chunked :: "header_map \<Rightarrow> bool" where
  "is_aws_chunked hs =
     (case header_str hs ''x-amz-content-sha256'' of Some v \<Rightarrow> starts_with v ''STREAMING-'' | None \<Rightarrow> False)"

definition remote_ip :: "header_map \<Rightarrow> string option \<Rightarrow> string option" where
  "remote_ip hs peer =
     (case header_str hs ''x-forwarded-for'' of
        Some v \<Rightarrow> (let hop = trim (hd (split_on (CHR '','') v)) in if hop = [] then peer else Some hop)
      | None \<Rightarrow> peer)"

text \<open>The paths that are passed on without a look at the credentials.\<close>

definition exempt :: "http_request \<Rightarrow> bool" where
  "exempt req =
     (starts_with (rq_path req) ''/kerplace/health'' \<or> starts_with (rq_path req) ''/minio/health''
      \<or> rq_path req = ''/'' \<and> rq_method req = POST)"

definition authenticate :: "gateway \<Rightarrow> int \<Rightarrow> http_request \<Rightarrow> identity result outcome" where
  "authenticate g now_ns req =
     (if has_header (rq_headers req) ''authorization'' then Done (verify (gw_lib g) (gw_find g) req)
      else if (case rq_query req of Some q \<Rightarrow> contains_sub q ''X-Amz-Signature'' | None \<Rightarrow> False)
      then verify_presigned (gw_lib g) (gw_find g) now_ns req
      else Done (Err AccessDenied))"

text \<open>The request's fate: refused with an error, in the name of an identity or of nobody, or admitted.\<close>

datatype verdict = Refused s3error "string option" | Admitted "identity option"

definition authorize :: "gateway \<Rightarrow> int \<Rightarrow> http_request \<Rightarrow> verdict outcome" where
  "authorize g now_ns req =
     (if \<not> gw_auth_enabled g then Done (Admitted None)
      else case authenticate g now_ns req of
        Panic \<Rightarrow> Panic
      | Done (Err e) \<Rightarrow> Done (Refused e None)
      | Done (Ok i) \<Rightarrow>
          if \<not> allows (policy_from_name (id_policy i)) (action_for (rq_method req) (rq_path req))
          then Done (Refused AccessDenied (Some (id_access_key i)))
          else if \<not> allows_bucket i (bucket_for (rq_path req))
          then Done (Refused AccessDenied (Some (id_access_key i)))
          else Done (Admitted (Some i)))"

type_synonym 's handlers =
  "http_request \<Rightarrow> body \<Rightarrow> audit_context \<Rightarrow> identity option \<Rightarrow> 's \<Rightarrow> 's \<times> http_response"

definition auth_middleware ::
  "gateway \<Rightarrow> request_env \<Rightarrow> 's handlers \<Rightarrow> http_request \<Rightarrow> body \<Rightarrow> 's \<times> access_log \<Rightarrow>
   ('s \<times> access_log) \<times> http_response outcome" where
  "auth_middleware g env next req bdy = (\<lambda>(s, log).
     if exempt req
     then (case next req bdy \<lparr> au_access_key = None, au_remote_ip = None \<rparr> None s of
             (s', resp) \<Rightarrow> ((s', log), Done resp))
     else
       let ip = remote_ip (rq_headers req) (re_peer env)
       in case authorize g (re_now_ns env) req of
         Panic \<Rightarrow> ((s, log), Panic)
       | Done (Refused e who) \<Rightarrow>
           (let resp = into_response_with_resource (re_request_id env) e (rq_path req)
            in ((s, log_access log (re_ts env) req \<lparr> au_access_key = who, au_remote_ip = ip \<rparr> (rsp_status resp)),
                Done resp))
       | Done (Admitted who) \<Rightarrow>
           (let ctx = \<lparr> au_access_key = map_option id_access_key who, au_remote_ip = ip \<rparr>;
                bdy' = (if is_aws_chunked (rq_headers req) then decode_aws_chunked bdy else bdy)
            in case next req bdy' ctx who s of
                 (s', resp) \<Rightarrow> ((s', log_access log (re_ts env) req ctx (rsp_status resp)), Done resp)))"

end
