(* ===== verification/Iam_Facts.thy ===== *)
theory Iam_Facts
  imports Iam
begin

text \<open>
  Facts about the identity store: the wire form of temporary credentials, the table of users and its
  document, and the interface of an identity provider with its two instances.
\<close>

section \<open>Encodings\<close>

definition iam_laws :: "iam_lib \<Rightarrow> bool" where
  "iam_laws L \<longleftrightarrow> (\<forall>k bs. length (il_hmac L k bs) = 32) \<and> (\<forall>bs. il_b64_decode L (il_b64_encode L bs) = Some bs)"

lemma length_be_bytes [simp]: "length (be_bytes k n) = k"
  by (induction k arbitrary: n) simp_all

lemma foldl_be_bytes: "foldl (\<lambda>acc b. acc * 256 + unat b) 0 (be_bytes k n) = n mod 256 ^ k"
proof (induction k arbitrary: n)
  case (Suc k)
  have "unat (of_nat n :: byte) = n mod 256" by (simp add: unat_of_nat)
  with Suc show ?case by (simp add: mod_mult2_eq)
qed simp

lemma length_be64 [simp]: "length (be64 w) = 8"
  by (simp add: be64_def)

lemma from_be64_be64 [simp]: "from_be64 (be64 w) = w"
proof -
  have "unat w < 256 ^ 8" using unsigned_less [of w, where ?'a = nat] by simp
  then show ?thesis by (simp add: from_be64_def be64_def foldl_be_bytes)
qed

lemma policy_id_roundtrip [simp]: "policy_from_id (policy_to_id p) = Some p"
  by (cases p) (simp_all add: policy_from_id_def)

lemma policy_name_roundtrip [simp]: "policy_from_name (policy_name p) = p"
proof -
  have "policy_from_name ''consoleAdmin'' = PAdmin" "policy_from_name ''readwrite'' = PReadWrite"
    "policy_from_name ''readonly'' = PReadOnly" "policy_from_name ''writeonly'' = PWriteOnly"
    by code_simp+
  then show ?thesis by (cases p) simp_all
qed

section \<open>Temporary credentials\<close>

lemma split_at_len:
  assumes "length p = n"
  shows "take n (p @ q) = p" and "drop n (p @ q) = q"
  using assms by simp_all

lemma resolve_issued:
  assumes L: "iam_laws L" and nonce: "length nonce = 8" and issue: "issue_temp L iam now nonce pol ttl = (ak, sk, expiry)"
  shows "resolve_sts L iam now' ak =
    (if sint expiry \<le> sint now' then None
     else Some \<lparr> id_access_key = ak, id_secret_key = sk, id_policy = policy_name pol, id_enabled = True, id_buckets = None \<rparr>)"
proof -
  let ?payload = "policy_to_id pol # be64 expiry @ nonce"
  let ?tag = "take STS_TAG_LEN (hmac_sha256 L (ia_root_secret iam) ?payload)"
  have ak: "ak = STS_PREFIX @ il_b64_encode L (?payload @ ?tag)"
    and sk: "sk = il_b64_encode L (hmac_sha256 L (ia_root_secret iam) (str_bytes ak))"
    using issue by (auto simp: issue_temp_def Let_def)
  have len: "length ?payload = STS_PAYLOAD_LEN" using nonce by (simp add: STS_PAYLOAD_LEN_def)
  moreover have "length ?tag = STS_TAG_LEN" using L by (simp add: iam_laws_def hmac_sha256_def STS_TAG_LEN_def)
  moreover have "strip_prefix STS_PREFIX ak = Some (il_b64_encode L (?payload @ ?tag))" by (simp only: ak strip_prefix_append)
  moreover have "il_b64_decode L (il_b64_encode L (?payload @ ?tag)) = Some (?payload @ ?tag)"
    using L unfolding iam_laws_def by blast
  moreover have "take STS_PAYLOAD_LEN (?payload @ ?tag) = ?payload" "drop STS_PAYLOAD_LEN (?payload @ ?tag) = ?tag"
    by (rule split_at_len [OF len])+
  moreover have "take 8 (drop 1 ?payload) = be64 expiry" by simp
  ultimately show ?thesis
    unfolding resolve_sts_def sk by (simp add: Let_def)
qed

lemma resolve_sts_sound:
  assumes "resolve_sts L iam now ak = Some i"
  obtains payload pol where "il_b64_decode L (drop (length STS_PREFIX) ak)
      = Some (payload @ take STS_TAG_LEN (hmac_sha256 L (ia_root_secret iam) payload))"
    "length payload = STS_PAYLOAD_LEN" "policy_from_id (payload ! 0) = Some pol" "id_policy i = policy_name pol"
    "sint now < sint (from_be64 (take 8 (drop 1 payload)))"
    "id_access_key i = ak" "id_enabled i" "id_buckets i = None" "starts_with ak STS_PREFIX"
proof -
  from assms obtain b64 blob pol where s: "strip_prefix STS_PREFIX ak = Some b64" "il_b64_decode L b64 = Some blob"
    and len: "length blob = STS_PAYLOAD_LEN + STS_TAG_LEN"
    and tag: "take STS_TAG_LEN (hmac_sha256 L (ia_root_secret iam) (take STS_PAYLOAD_LEN blob)) = drop STS_PAYLOAD_LEN blob"
    and pol: "policy_from_id (take STS_PAYLOAD_LEN blob ! 0) = Some pol"
    and exp: "\<not> sint (from_be64 (take 8 (drop 1 (take STS_PAYLOAD_LEN blob)))) \<le> sint now"
    and i: "i = \<lparr> id_access_key = ak, id_secret_key = il_b64_encode L (hmac_sha256 L (ia_root_secret iam) (str_bytes ak)),
      id_policy = policy_name pol, id_enabled = True, id_buckets = None \<rparr>"
    by (auto simp: resolve_sts_def Let_def split: option.splits if_splits)
  from s(1) have ak: "ak = STS_PREFIX @ b64" by (simp add: strip_prefix_Some)
  show ?thesis
  proof (rule that [of "take STS_PAYLOAD_LEN blob" pol])
    show "il_b64_decode L (drop (length STS_PREFIX) ak) = Some (take STS_PAYLOAD_LEN blob
        @ take STS_TAG_LEN (hmac_sha256 L (ia_root_secret iam) (take STS_PAYLOAD_LEN blob)))"
      using s(2) by (simp add: ak tag)
  qed (use len pol exp i in \<open>simp_all add: ak\<close>)
qed

section \<open>The user table\<close>

lemma map_of_user_list: "map_of (map (\<lambda>(k, u). (k, f u)) al) k = map_option f (map_of al k)"
  by (induction al) auto

lemma user_of_json_of_user [simp]: "user_of_json (json_of_user u) = u"
  by (simp add: user_of_json_def json_of_user_def)

lemma map_of_foldl_update:
  "distinct (map fst al) \<Longrightarrow>
   map_of (foldl (\<lambda>m (k, j). AList.update k (f j) m) m al) k =
     (case map_of al k of Some j \<Rightarrow> Some (f j) | None \<Rightarrow> map_of m k)"
proof (induction al arbitrary: m)
  case (Cons x al)
  then show ?case
    by (cases x) (auto simp: map_of_eq_None_iff [symmetric] dom_map_of_conv_image_fst split: option.splits dest: map_of_SomeD)
qed simp

lemma users_of_saved:
  assumes "distinct (map fst us)"
  shows "map_of (users_of_doc (map (\<lambda>(k, u). (k, json_of_user u)) us)) k = map_of us k"
proof -
  have "map fst (map (\<lambda>(k, u). (k, json_of_user u)) us) = map fst us" by (induction us) auto
  then have d: "distinct (map fst (map (\<lambda>(k, u). (k, json_of_user u)) us))" using assms by (simp only:)
  show ?thesis
    unfolding users_of_doc_def map_of_foldl_update [OF d] by (simp add: map_of_user_list split: option.splits)
qed

lemma resolve_cong:
  assumes "ia_root_key a = ia_root_key b" "ia_root_secret a = ia_root_secret b"
    and "map_of (ia_users a) k = map_of (ia_users b) k \<or> starts_with k STS_PREFIX"
  shows "resolve L a now k = resolve L b now k"
  unfolding resolve_def resolve_sts_def root_identity_def assms(1,2) using assms(3) by auto

text \<open>The operations on the table, and what one of them leaves behind.\<close>

datatype iam_op =
    AddUser string string string
  | RemoveUser string
  | SetStatus string bool
  | SetPolicy string string
  | SetBuckets string "string list option"

fun apply_op :: "persist_io \<Rightarrow> iam_op \<Rightarrow> iam_store \<times> users_file \<Rightarrow> iam_store \<times> users_file \<times> unit result" where
  "apply_op io (AddUser k s p) (iam, file) = add_user io iam file k s p"
| "apply_op io (RemoveUser k) (iam, file) = remove_user io iam file k"
| "apply_op io (SetStatus k b) (iam, file) = set_status io iam file k b"
| "apply_op io (SetPolicy k p) (iam, file) = set_policy io iam file k p"
| "apply_op io (SetBuckets k bs) (iam, file) = set_buckets io iam file k bs"

definition apply_all :: "(persist_io \<times> iam_op) list \<Rightarrow> iam_store \<times> users_file \<Rightarrow> iam_store \<times> users_file" where
  "apply_all ops s = foldl (\<lambda>s (io, x). case apply_op io x s of (iam, file, _) \<Rightarrow> (iam, file)) s ops"

text \<open>The subject of an operation, and whether it may change a scope.\<close>

fun op_key :: "iam_op \<Rightarrow> string" where
  "op_key (AddUser k _ _) = k"
| "op_key (RemoveUser k) = k"
| "op_key (SetStatus k _) = k"
| "op_key (SetPolicy k _) = k"
| "op_key (SetBuckets k _) = k"

fun rescopes :: "iam_op \<Rightarrow> bool" where
  "rescopes (RemoveUser _) = True"
| "rescopes (SetBuckets _ _) = True"
| "rescopes _ = False"

lemmas iam_op_defs = add_user_def remove_user_def set_status_def set_policy_def set_buckets_def change_user_def
  save_def persist_def Let_def

lemma op_keeps_root:
  "apply_op io x (iam, file) = (iam', file', r) \<Longrightarrow>
   ia_root_key iam' = ia_root_key iam \<and> ia_root_secret iam' = ia_root_secret iam \<and> ia_path iam' = ia_path iam"
  by (cases x) (auto simp: iam_op_defs split: if_splits option.splits prod.splits)

lemma distinct_update_keys: "distinct (map fst al) \<Longrightarrow> distinct (map fst (AList.update k v al))"
  by (rule distinct_update)

lemma op_keeps_distinct:
  "apply_op io x (iam, file) = (iam', file', r) \<Longrightarrow> distinct (map fst (ia_users iam)) \<Longrightarrow> distinct (map fst (ia_users iam'))"
  by (cases x) (auto simp: iam_op_defs distinct_update distinct_map_filter split: if_splits option.splits prod.splits)

lemma op_keeps_others:
  "apply_op io x (iam, file) = (iam', file', r) \<Longrightarrow> k \<noteq> op_key x \<Longrightarrow> map_of (ia_users iam') k = map_of (ia_users iam) k"
  by (cases x) (auto simp: iam_op_defs split: if_splits option.splits prod.splits)

lemma op_keeps_scope:
  assumes "apply_op io x (iam, file) = (iam', file', r)" and "\<not> rescopes x \<or> op_key x \<noteq> k"
    and "map_of (ia_users iam) k = Some u"
  shows "\<exists>u'. map_of (ia_users iam') k = Some u' \<and> su_buckets u' = su_buckets u"
proof (cases "op_key x = k")
  case False
  with op_keeps_others [OF assms(1), of k] assms(3) show ?thesis by auto
next
  case True
  with assms show ?thesis
    by (cases x) (auto simp: iam_op_defs split: if_splits option.splits prod.splits)
qed

lemma op_saves:
  assumes "apply_op io x (iam, file) = (iam', file', Ok ())" and "ia_path iam \<noteq> []"
  shows "file' = Some (map (\<lambda>(k, u). (k, json_of_user u)) (ia_users iam'))"
  using assms by (cases x) (auto simp: iam_op_defs split: if_splits option.splits prod.splits persist_io.splits)

section \<open>The identity provider\<close>

text \<open>What request authentication relies on: the identity found for a key is that key's.\<close>

locale identity_provider =
  fixes find_identity :: "string \<Rightarrow> identity option"
  assumes own_key: "find_identity k = Some i \<Longrightarrow> id_access_key i = k"
begin

lemma distinct_keys: "find_identity k = Some i \<Longrightarrow> find_identity l = Some i \<Longrightarrow> k = l"
  using own_key by metis

end

interpretation iam: identity_provider "resolve L store now" for L store now
proof
  fix k i assume "resolve L store now k = Some i"
  then show "id_access_key i = k"
    by (auto simp: resolve_def root_identity_def user_identity_def elim: resolve_sts_sound split: if_splits)
qed

end
