(* ===== verification/Auth_Facts.thy ===== *)
theory Auth_Facts
  imports Auth Iam_Facts "HOL-Library.Multiset"
begin

text \<open>Facts about signature verification, the chunk framing and the middleware's verdict, and what a client signs, written
over the client's own data.\<close>

section \<open>Verification over an identity provider\<close>

definition header_signature_valid :: "sig_lib \<Rightarrow> identity \<Rightarrow> http_request \<Rightarrow> bool" where
  "header_signature_valid S i req \<longleftrightarrow>
     (\<exists>v p d. header_str (rq_headers req) ''authorization'' = Some v \<and> parse_authorization v = Ok p
        \<and> header_str (rq_headers req) ''x-amz-date'' = Some d \<and> pa_access_key p = id_access_key i
        \<and> pa_signature p = signature_of S (id_secret_key i) d (pa_date p) (pa_region p) (pa_service p)
            (canonical_request req (build_canonical_query S (rq_query req)) (pa_signed_headers p)
              (case header_str (rq_headers req) ''x-amz-content-sha256'' of Some h \<Rightarrow> h | None \<Rightarrow> ''UNSIGNED-PAYLOAD'')))"

text \<open>The signature of a presigned request, and the last moment it is good for.\<close>

definition presigned_param :: "sig_lib \<Rightarrow> http_request \<Rightarrow> string \<Rightarrow> string option" where
  "presigned_param S req k = map_option (sg_pct_decode S) (map_of (presigned_pairs (rq_query req)) k)"

definition presigned_until :: "sig_lib \<Rightarrow> http_request \<Rightarrow> int \<Rightarrow> bool" where
  "presigned_until S req t \<longleftrightarrow>
     (\<exists>d s x. presigned_param S req ''X-Amz-Date'' = Some d \<and> sg_parse_time S d = Some s
        \<and> Option.bind (presigned_param S req ''X-Amz-Expires'') parse_i64 = Some x \<and> t = s + x)"

definition presigned_signature_valid :: "sig_lib \<Rightarrow> identity \<Rightarrow> http_request \<Rightarrow> bool" where
  "presigned_signature_valid S i req \<longleftrightarrow>
     (\<exists>c d names sig date region service x. presigned_param S req ''X-Amz-Credential'' = Some c
        \<and> presigned_param S req ''X-Amz-Date'' = Some d
        \<and> presigned_param S req ''X-Amz-SignedHeaders'' = Some names
        \<and> presigned_param S req ''X-Amz-Signature'' = Some sig
        \<and> split_on (CHR ''/'') c = [id_access_key i, date, region, service, x]
        \<and> sig = signature_of S (id_secret_key i) d date region service
            (canonical_request req
              (canonical_query_from_pairs S (filter (\<lambda>p. fst p \<noteq> ''X-Amz-Signature'') (presigned_pairs (rq_query req))))
              (signed_header_names names) ''UNSIGNED-PAYLOAD''))"

context identity_provider
begin

lemma verify_sound:
  "verify S find_identity req = Ok i \<Longrightarrow>
   find_identity (id_access_key i) = Some i \<and> id_enabled i \<and> header_signature_valid S i req"
  using own_key
  by (auto simp: verify_def header_signature_valid_def Let_def split: option.splits sum.splits if_splits)

lemma verify_presigned_sound:
  assumes "verify_presigned S find_identity now req = Done (Ok i)"
  shows "find_identity (id_access_key i) = Some i \<and> id_enabled i \<and> presigned_signature_valid S i req
    \<and> (\<exists>t. presigned_until S req t \<and> now \<le> t * 10 ^ 9)"
proof -
  note cases = option.split_asm list.split_asm if_split_asm sum.split_asm
  from assms show ?thesis
    by (auto simp: verify_presigned_def Let_def presigned_signature_valid_def presigned_until_def presigned_param_def
        dest: own_key split: cases)
qed

lemma authenticate_sound:
  assumes "authenticate g now req = Done (Ok i)" and "gw_find g = find_identity"
  shows "find_identity (id_access_key i) = Some i \<and> id_enabled i
    \<and> (header_signature_valid (gw_lib g) i req
       \<or> presigned_signature_valid (gw_lib g) i req \<and> (\<exists>t. presigned_until (gw_lib g) req t \<and> now \<le> t * 10 ^ 9))"
  using assms verify_sound [of "gw_lib g" req i] verify_presigned_sound [of "gw_lib g" now req i]
  by (auto simp: authenticate_def split: if_splits)

end

text \<open>The check panics only on a presigned URL whose date and expiry are out of range.\<close>

lemma authorize_panics:
  assumes "authorize g now req = Panic"
  shows "\<exists>t. presigned_until (gw_lib g) req t \<and> \<not> time_in_range t"
proof -
  note cases = option.split_asm list.split_asm if_split_asm sum.split_asm
  from assms have "verify_presigned (gw_lib g) (gw_find g) now req = Panic"
    by (auto simp: authorize_def authenticate_def split: outcome.splits sum.splits if_splits)
  then show ?thesis
    by (auto simp: verify_presigned_def Let_def presigned_until_def presigned_param_def split: cases)
qed

text \<open>A request with every parameter in order: only its time and its signature decide.\<close>

lemma verify_presigned_eq:
  assumes "presigned_param S req ''X-Amz-Credential'' = Some c" "split_on (CHR ''/'') c = [ak, d, r, sv, x]"
    "presigned_param S req ''X-Amz-Date'' = Some date" "sg_parse_time S date = Some t"
    "Option.bind (presigned_param S req ''X-Amz-Expires'') parse_i64 = Some e"
    "presigned_param S req ''X-Amz-SignedHeaders'' = Some names" "presigned_param S req ''X-Amz-Signature'' = Some sig"
    "find_identity ak = Some i" "id_enabled i"
  shows "verify_presigned S find_identity now req =
    (if \<not> time_in_range (t + e) then Panic
     else if (t + e) * 10 ^ 9 < now then Done (Err AccessDenied)
     else Done (if signature_of S (id_secret_key i) date d r sv
           (canonical_request req
             (canonical_query_from_pairs S (filter (\<lambda>p. fst p \<noteq> ''X-Amz-Signature'') (presigned_pairs (rq_query req))))
             (signed_header_names names) ''UNSIGNED-PAYLOAD'') = sig
         then Ok i else Err SignatureDoesNotMatch))"
  unfolding verify_presigned_def Let_def presigned_param_def [symmetric] using assms by simp

section \<open>The header a client sends\<close>

definition authorization_value ::
  "string \<Rightarrow> string \<Rightarrow> string \<Rightarrow> string \<Rightarrow> string list \<Rightarrow> string \<Rightarrow> string" where
  "authorization_value ak date region service names sig =
     ''AWS4-HMAC-SHA256 Credential='' @ join_with ''/'' [ak, date, region, service, ''aws4_request'']
       @ '', SignedHeaders='' @ join_with '';'' names @ '', Signature='' @ sig"

definition token :: "string \<Rightarrow> bool" where
  "token s \<longleftrightarrow> s \<noteq> [] \<and> list_all (\<lambda>c. \<not> is_space c \<and> c \<noteq> CHR '','' \<and> c \<noteq> CHR ''/'' \<and> c \<noteq> CHR '';'') s"

lemma token_no_space: "token s \<Longrightarrow> c \<in> set s \<Longrightarrow> \<not> is_space c"
  by (auto simp: token_def list_all_iff)

lemma token_no_sep:
  assumes "token s"
  shows "CHR '','' \<notin> set s" "CHR ''/'' \<notin> set s" "CHR '';'' \<notin> set s"
  using assms by (auto simp: token_def list_all_iff)

lemma trim_no_space: "\<forall>c \<in> set s. \<not> is_space c \<Longrightarrow> trim s = s"
proof -
  assume s: "\<forall>c \<in> set s. \<not> is_space c"
  have "dropWhile is_space xs = xs" if "\<forall>c \<in> set xs. \<not> is_space c" for xs
    using that by (cases xs) auto
  from this [OF s] this [of "rev s"] s show ?thesis by (simp only: trim_def set_rev rev_rev_ident)
qed

lemma trim_space_no_space: "\<forall>c \<in> set s. \<not> is_space c \<Longrightarrow> trim (CHR '' '' # s) = s"
proof -
  assume s: "\<forall>c \<in> set s. \<not> is_space c"
  have "is_space (CHR '' '')" by (simp add: is_space_def)
  then have "trim (CHR '' '' # s) = trim s" by (simp add: trim_def)
  with trim_no_space [OF s] show ?thesis by simp
qed

lemma set_join_with: "set (join_with sep xs) \<subseteq> set sep \<union> \<Union> (set ` set xs)"
  by (induction sep xs rule: join_with.induct) auto

lemma join_tokens_no_space:
  "\<forall>s \<in> set xs. token s \<Longrightarrow> \<not> is_space sep \<Longrightarrow> \<forall>c \<in> set (join_with [sep] xs). \<not> is_space c"
  using set_join_with [of "[sep]" xs] token_no_space by fastforce

lemma join_tokens_no_comma:
  "\<forall>s \<in> set xs. token s \<Longrightarrow> sep \<noteq> CHR '','' \<Longrightarrow> CHR '','' \<notin> set (join_with [sep] xs)"
  using set_join_with [of "[sep]" xs] token_no_sep by fastforce

lemma signed_names_join:
  assumes "names \<noteq> []" "\<forall>s \<in> set names. token s \<and> ascii_lowercase s = s" "sorted names"
  shows "signed_header_names (join_with '';'' names) = names"
proof -
  have "split_on (CHR '';'') (join_with '';'' names) = names"
    using assms(1,2) token_no_sep by (intro split_join_on) auto
  moreover have "map (\<lambda>h. ascii_lowercase (trim h)) names = names"
    using assms(2) token_no_space by (intro map_idI) (metis trim_no_space)
  ultimately show ?thesis using assms(3) by (simp only: signed_header_names_def sorted_sort_id)
qed

definition lit_credential :: string where "lit_credential = ''Credential=''"
definition lit_signed :: string where "lit_signed = ''SignedHeaders=''"
definition lit_signature :: string where "lit_signature = ''Signature=''"

lemma literals:
  "\<forall>c \<in> set lit_credential \<union> set lit_signed \<union> set lit_signature. \<not> is_space c \<and> c \<noteq> CHR '',''"
  "token ''aws4_request''" "\<not> is_space (CHR '';'')" "\<not> is_space (CHR ''/'')" "is_space (CHR '' '')"
  by code_simp+

lemma auth_parts:
  assumes c: "\<forall>x \<in> set c. \<not> is_space x" and h: "\<forall>x \<in> set h. \<not> is_space x" and s: "\<forall>x \<in> set s. \<not> is_space x"
  shows "foldl auth_part (None, None, None)
    [lit_credential @ c, CHR '' '' # lit_signed @ h, CHR '' '' # lit_signature @ s] = (Some c, Some h, Some s)"
proof -
  have t: "trim (lit_credential @ c) = lit_credential @ c" "trim (CHR '' '' # lit_signed @ h) = lit_signed @ h"
    "trim (CHR '' '' # lit_signature @ s) = lit_signature @ s"
    using assms literals(1) by (auto intro!: trim_no_space trim_space_no_space)
  have n: "strip_prefix lit_credential (lit_signed @ h) = None" "strip_prefix lit_credential (lit_signature @ s) = None"
    "strip_prefix lit_signed (lit_signature @ s) = None"
    by (simp_all add: strip_prefix_def starts_with_def lit_credential_def lit_signed_def lit_signature_def)
  have "auth_part (None, None, None) (lit_credential @ c) = (Some c, None, None)"
    unfolding auth_part_def t by (simp add: Let_def flip: lit_credential_def)
  moreover have "auth_part (Some c, None, None) (CHR '' '' # lit_signed @ h) = (Some c, Some h, None)"
    unfolding auth_part_def t by (simp add: Let_def n flip: lit_credential_def lit_signed_def)
  moreover have "auth_part (Some c, Some h, None) (CHR '' '' # lit_signature @ s) = (Some c, Some h, Some s)"
    unfolding auth_part_def t by (simp add: Let_def n flip: lit_credential_def lit_signed_def lit_signature_def)
  ultimately show ?thesis by simp
qed

lemma parse_authorization_value:
  assumes f: "token ak" "token date" "token region" "token service" "token sig"
    and names: "names \<noteq> []" "\<forall>s \<in> set names. token s \<and> ascii_lowercase s = s" "sorted names"
  shows "parse_authorization (authorization_value ak date region service names sig) =
    Ok \<lparr> pa_access_key = ak, pa_date = date, pa_region = region, pa_service = service,
         pa_signed_headers = names, pa_signature = sig \<rparr>"
proof -
  let ?cs = "[ak, date, region, service, ''aws4_request'']"
  define c where "c = join_with ''/'' ?cs"
  define h where "h = join_with '';'' names"
  have cs: "\<forall>s \<in> set ?cs. token s" using f literals(2) by simp
  have c: "\<forall>x \<in> set c. \<not> is_space x" "CHR '','' \<notin> set c"
    unfolding c_def by (rule join_tokens_no_space [OF cs literals(4)], rule join_tokens_no_comma [OF cs]) simp
  have hs: "\<forall>s \<in> set names. token s" using names(2) by blast
  have h: "\<forall>x \<in> set h. \<not> is_space x" "CHR '','' \<notin> set h"
    unfolding h_def by (rule join_tokens_no_space [OF hs literals(3)], rule join_tokens_no_comma [OF hs]) simp
  have s: "\<forall>x \<in> set sig. \<not> is_space x" "CHR '','' \<notin> set sig" using f(5) token_no_space token_no_sep by auto
  have v: "authorization_value ak date region service names sig = ''AWS4-HMAC-SHA256'' @
      (CHR '' '' # (lit_credential @ c) @ CHR '','' # (CHR '' '' # lit_signed @ h) @ CHR '','' # (CHR '' '' # lit_signature @ sig))"
    by (simp add: authorization_value_def c_def h_def lit_credential_def lit_signed_def lit_signature_def)
  have names': "signed_header_names h = names" unfolding h_def by (rule signed_names_join [OF names])
  have start: "trim_start (CHR '' '' # lit_credential @ rest) = lit_credential @ rest" for rest
    using literals(5) by (simp add: trim_start_def lit_credential_def is_space_def)
  have "split_on (CHR '','') ((lit_credential @ c) @ CHR '','' # (CHR '' '' # lit_signed @ h) @ CHR '','' # (CHR '' '' # lit_signature @ sig))
      = [lit_credential @ c, CHR '' '' # lit_signed @ h, CHR '' '' # lit_signature @ sig]"
    using literals(1) c(2) h(2) s(2)
    by (subst split_on_append, force, subst split_on_append, force, subst split_on_single, force, simp)
  moreover have "split_on (CHR ''/'') c = ?cs"
    unfolding c_def using cs token_no_sep by (intro split_join_on) auto
  ultimately show ?thesis
    unfolding parse_authorization_def v strip_prefix_append
    by (simp add: start auth_parts [OF c(1) h(1) s(1), simplified] names')
qed

section \<open>The canonical query\<close>

lemma sort_mset_eq: "mset xs = mset ys \<Longrightarrow> sort xs = sort ys"
  by (metis mset_sort properties_for_sort sorted_sort)

lemma canonical_query_mset:
  "mset ps = mset qs \<Longrightarrow> canonical_query_from_pairs S ps = canonical_query_from_pairs S qs"
  unfolding canonical_query_from_pairs_def
  by (intro arg_cong [of _ _ "\<lambda>x. join_with ''&'' (map (\<lambda>(k, v). k @ ''='' @ v) x)"] sort_mset_eq) simp

section \<open>A client\<close>

text \<open>
  What a client signs, written over the client's own data and apart from the verification: the unencoded
  parameters, the signed headers in order, and the scope of the key.
\<close>

record client_request =
  cl_method :: string
  cl_path :: string
  cl_params :: "(string \<times> string) list"
  cl_headers :: "(string \<times> string) list"
  cl_payload :: string
  cl_time :: string
  cl_date :: string
  cl_region :: string
  cl_service :: string

definition client_canonical :: "sig_lib \<Rightarrow> client_request \<Rightarrow> string" where
  "client_canonical S r =
     cl_method r @ [CHR 0x0A] @ cl_path r @ [CHR 0x0A]
     @ join_with ''&'' (map (\<lambda>(k, v). k @ ''='' @ v)
         (sort (map (\<lambda>(k, v). (sg_pct_encode S k, sg_pct_encode S v)) (cl_params r)))) @ [CHR 0x0A]
     @ concat (map (\<lambda>(name, v). name @ '':'' @ trim v @ [CHR 0x0A]) (cl_headers r)) @ [CHR 0x0A]
     @ join_with '';'' (map fst (cl_headers r)) @ [CHR 0x0A] @ cl_payload r"

definition client_signature :: "sig_lib \<Rightarrow> string \<Rightarrow> client_request \<Rightarrow> string" where
  "client_signature S secret r =
     (let hmac = (\<lambda>key s. il_hmac (sg_iam S) key (str_bytes s));
          key = hmac (hmac (hmac (hmac (str_bytes (''AWS4'' @ secret)) (cl_date r)) (cl_region r)) (cl_service r))
                  ''aws4_request'';
          scope = cl_date r @ ''/'' @ cl_region r @ ''/'' @ cl_service r @ ''/aws4_request'';
          digest = hex_encode (sg_sha256 S (str_bytes (client_canonical S r)))
      in hex_encode (hmac key (''AWS4-HMAC-SHA256'' @ [CHR 0x0A] @ cl_time r @ [CHR 0x0A] @ scope @ [CHR 0x0A] @ digest)))"

text \<open>
  The request on the wire.  The pairs \<open>ws\<close> of its query are the client's parameters, encoded as the client
  likes: what counts is what they decode to.
\<close>

definition wire_query :: "(string \<times> string) list \<Rightarrow> string option" where
  "wire_query ws = (if ws = [] then None else Some (join_with ''&'' (map (\<lambda>(k, v). k @ ''='' @ v) ws)))"

definition wire_pair :: "string \<times> string \<Rightarrow> bool" where
  "wire_pair = (\<lambda>(k, v). CHR ''&'' \<notin> set k \<and> CHR ''='' \<notin> set k \<and> CHR ''&'' \<notin> set v)"

definition client_sends ::
  "sig_lib \<Rightarrow> client_request \<Rightarrow> (string \<times> string) list \<Rightarrow> string \<Rightarrow> string \<Rightarrow> http_request \<Rightarrow> bool" where
  "client_sends S r ws ak sig req \<longleftrightarrow>
     method_str (rq_method req) = cl_method r \<and> rq_path req = cl_path r
     \<and> rq_query req = wire_query ws \<and> list_all wire_pair ws
     \<and> map (\<lambda>(k, v). (sg_pct_decode S k, sg_pct_decode S v)) ws = cl_params r
     \<and> header_str (rq_headers req) ''authorization'' =
         Some (authorization_value ak (cl_date r) (cl_region r) (cl_service r) (map fst (cl_headers r)) sig)
     \<and> header_str (rq_headers req) ''x-amz-date'' = Some (cl_time r)
     \<and> header_str (rq_headers req) ''x-amz-content-sha256'' =
         (if cl_payload r = ''UNSIGNED-PAYLOAD'' then None else Some (cl_payload r))
     \<and> (\<forall>(name, v) \<in> set (cl_headers r). header_str (rq_headers req) name = Some v)"

text \<open>The fields of the header are tokens, and the signed names are in lower case and in order.\<close>

definition client_ok :: "client_request \<Rightarrow> bool" where
  "client_ok r \<longleftrightarrow> token (cl_date r) \<and> token (cl_region r) \<and> token (cl_service r) \<and> cl_headers r \<noteq> []
     \<and> list_all (\<lambda>(name, v). token name \<and> ascii_lowercase name = name) (cl_headers r) \<and> sorted (map fst (cl_headers r))"

lemma wire_query_pairs:
  assumes "list_all wire_pair ws" and "ws \<noteq> []"
  shows "map query_pair (split_on (CHR ''&'') (join_with ''&'' (map (\<lambda>(k, v). k @ ''='' @ v) ws))) = ws"
proof -
  have "split_on (CHR ''&'') (join_with ''&'' (map (\<lambda>(k, v). k @ ''='' @ v) ws)) = map (\<lambda>(k, v). k @ ''='' @ v) ws"
    using assms by (intro split_join_on) (auto simp: wire_pair_def list_all_iff)
  moreover have "query_pair (k @ ''='' @ v) = (k, v)" if "(k, v) \<in> set ws" for k v
    using that assms(1) split_once_append [of "CHR ''=''" k v]
    by (auto simp: query_pair_def wire_pair_def list_all_iff)
  then have "map query_pair (map (\<lambda>(k, v). k @ ''='' @ v) ws) = ws" by (auto intro: map_idI)
  ultimately show ?thesis by simp
qed

lemma wire_canonical_query:
  assumes "client_sends S r ws ak sig req"
  shows "build_canonical_query S (rq_query req) = join_with ''&'' (map (\<lambda>(k, v). k @ ''='' @ v)
         (sort (map (\<lambda>(k, v). (sg_pct_encode S k, sg_pct_encode S v)) (cl_params r))))"
proof (cases "ws = []")
  case True
  then have "rq_query req = None" "cl_params r = []" using assms by (auto simp: client_sends_def wire_query_def)
  then show ?thesis by (simp add: build_canonical_query_def)
next
  case False
  have ws: "list_all wire_pair ws" and ps: "cl_params r = map (\<lambda>(k, v). (sg_pct_decode S k, sg_pct_decode S v)) ws"
    and q: "rq_query req = Some (join_with ''&'' (map (\<lambda>(k, v). k @ ''='' @ v) ws))"
    using assms False by (auto simp: client_sends_def wire_query_def)
  have ne: "join_with ''&'' (map (\<lambda>(k, v). k @ ''='' @ v) ws) \<noteq> []"
    using False by (cases ws; cases "tl ws") auto
  show ?thesis
    unfolding build_canonical_query_def q option.case if_not_P [OF ne] wire_query_pairs [OF ws False] ps
    by (simp add: canonical_query_from_pairs_def sigv4_encode_token_def case_prod_beta' comp_def)
qed

lemma client_canonical_request:
  assumes "client_sends S r ws ak sig req"
  shows "canonical_request req (build_canonical_query S (rq_query req)) (map fst (cl_headers r)) (cl_payload r)
    = client_canonical S r"
proof -
  have hs: "\<forall>(name, v) \<in> set (cl_headers r). header_str (rq_headers req) name = Some v"
    using assms by (simp add: client_sends_def)
  have "canonical_headers (rq_headers req) (map fst (cl_headers r)) =
      concat (map (\<lambda>(name, v). name @ '':'' @ trim v @ [CHR 0x0A]) (cl_headers r))"
    unfolding canonical_headers_def map_map
    by (intro arg_cong [where f = concat] map_cong) (use hs in \<open>auto simp: newline_def\<close>)
  with assms wire_canonical_query [OF assms] show ?thesis
    by (simp add: canonical_request_def client_canonical_def client_sends_def join_with_Cons newline_def)
qed

lemma client_signature_of:
  assumes "client_sends S r ws ak sig req"
  shows "signature_of S secret (cl_time r) (cl_date r) (cl_region r) (cl_service r)
      (canonical_request req (build_canonical_query S (rq_query req)) (map fst (cl_headers r)) (cl_payload r))
    = client_signature S secret r"
  unfolding client_canonical_request [OF assms]
  by (simp add: signature_of_def derive_signing_key_def string_to_sign_def sha256_hex_def sig_hmac_def client_signature_def
      Let_def join_with_Cons newline_def)

end
