(* ===== verification/Chunk_Facts.thy ===== *)
theory Chunk_Facts
  imports Auth
begin

text \<open>What the \<open>aws-chunked\<close> decoder makes of a client's framing, whole or cut short.\<close>

section \<open>The client's framing\<close>

definition CRLF :: bytes where "CRLF = [13, 10]"

definition sig_tag :: string where "sig_tag = '';chunk-signature=''"

definition chunk_line :: "nat \<Rightarrow> string \<Rightarrow> bytes" where
  "chunk_line n sig = str_bytes (show_radix 16 n @ sig_tag @ sig) @ CRLF"

definition chunk_body :: "string \<Rightarrow> bytes list \<Rightarrow> bytes" where
  "chunk_body sig cs = concat (map (\<lambda>c. chunk_line (length c) sig @ c @ CRLF) cs) @ chunk_line 0 sig @ CRLF"

definition plain_text :: "string \<Rightarrow> bool" where
  "plain_text s = list_all (\<lambda>c. (32 :: nat) \<le> of_char c \<and> (of_char c :: nat) < 127) s"

section \<open>Lines\<close>

lemma unat_of_char [simp]: "unat (of_char c :: byte) = of_char c"
proof -
  have "(of_char c :: byte) = of_nat (of_char c)" by (simp only: of_nat_of_char)
  moreover have "(of_char c :: nat) < 256" by (rule nat_of_char_less_256)
  ultimately show ?thesis by (simp only: unat_of_nat) simp
qed

lemma bytes_str_bytes [simp]: "bytes_str (str_bytes s) = s"
  by (induction s) (simp_all add: bytes_str_def str_bytes_def)

lemma str_bytes_append: "str_bytes (s @ t) = str_bytes s @ str_bytes t"
  by (simp add: str_bytes_def)

lemma plain_byte: "(32 :: nat) \<le> of_char c \<Longrightarrow> (of_char c :: byte) \<noteq> LF"
proof
  assume c: "(32 :: nat) \<le> of_char c" "(of_char c :: byte) = LF"
  then have "unat (of_char c :: byte) = unat LF" by simp
  with c(1) show False by (simp only: unat_of_char) (simp add: LF_def)
qed

lemma plain_no_LF: "plain_text s \<Longrightarrow> LF \<notin> set (str_bytes s)"
  using plain_byte by (auto simp: plain_text_def str_bytes_def list_all_iff) metis

lemma ascii_utf8: "list_all (\<lambda>b. b < 0x80) bs \<Longrightarrow> utf8_valid bs"
  by (induction bs) auto

lemma plain_ascii: "plain_text s \<Longrightarrow> list_all (\<lambda>b. b < 0x80) (str_bytes s)"
  by (auto simp: plain_text_def str_bytes_def list_all_iff word_less_nat_alt)

lemma plain_show: "plain_text (show_radix 16 n)"
proof -
  obtain d ds where s: "show_radix 16 n = map digit_char (d # ds)" "\<forall>x \<in> set (d # ds). x < 16"
    using show_radix_digits [of 16 n] by auto
  have "(32 :: nat) \<le> of_char (digit_char x) \<and> (of_char (digit_char x) :: nat) < 127" if "x < 16" for x
    using that by (auto simp: digit_char_def)
  with s show ?thesis by (simp only: plain_text_def list_all_iff set_map) blast
qed

lemma plain_append [simp]: "plain_text (s @ t) \<longleftrightarrow> plain_text s \<and> plain_text t"
  by (simp add: plain_text_def)

lemma plain_sig_tag [simp]: "plain_text sig_tag"
  by code_simp

lemma plain_head: "plain_text sig \<Longrightarrow> plain_text (show_radix 16 n @ sig_tag @ sig)"
  by (simp add: plain_show)

lemma first_line:
  assumes "LF \<notin> set xs"
  shows "line_of (xs @ CRLF @ rest) = xs @ [13]" and "after_line (xs @ CRLF @ rest) = rest"
proof -
  have "\<forall>b \<in> set xs. b \<noteq> LF" using assms by auto
  then show "line_of (xs @ CRLF @ rest) = xs @ [13]" "after_line (xs @ CRLF @ rest) = rest"
    by (simp_all add: line_of_def after_line_def CRLF_def LF_def)
qed

lemma size_field_head:
  assumes "plain_text sig"
  shows "size_field (str_bytes (show_radix 16 n @ sig_tag @ sig) @ [13]) = show_radix 16 n"
proof -
  let ?h = "show_radix 16 n @ sig_tag @ sig"
  have "char_of (13 :: nat) = CHR 0x0D" by code_simp
  then have "bytes_str [13] = [CHR 0x0D]" by (simp add: bytes_str_def)
  moreover have "bytes_str (str_bytes ?h @ [13]) = bytes_str (str_bytes ?h) @ bytes_str [13]" by (simp only: bytes_str_def map_append)
  ultimately have "bytes_str (str_bytes ?h @ [13]) = ?h @ [CHR 0x0D]" by (simp only: bytes_str_bytes)
  moreover have "dropWhile (\<lambda>c. c = CHR 0x0D \<or> c = CHR 0x0A) (rev ?h) = rev ?h"
  proof -
    have ne: "?h \<noteq> []" by (simp add: sig_tag_def)
    then have "last ?h \<in> set ?h" by (rule last_in_set)
    with plain_head [OF assms, of n] have l: "(32 :: nat) \<le> of_char (last ?h)" unfolding plain_text_def list_all_iff by blast
    have "last ?h \<noteq> CHR 0x0D \<and> last ?h \<noteq> CHR 0x0A"
    proof (rule ccontr)
      assume "\<not> ?thesis"
      then have "(of_char (last ?h) :: nat) = 13 \<or> (of_char (last ?h) :: nat) = 10" by auto
      with l show False by linarith
    qed
    moreover have "rev ?h = last ?h # rev (butlast ?h)"
      using append_butlast_last_id [OF ne] by (metis rev.simps(2) rev_append rev_rev_ident append.left_neutral rev.simps(1) append_Cons)
    ultimately show ?thesis by (simp only: dropWhile.simps simp_thms if_False)
  qed
  ultimately have "rev (dropWhile (\<lambda>c. c = CHR 0x0D \<or> c = CHR 0x0A) (rev (bytes_str (str_bytes ?h @ [13])))) = ?h"
    by simp
  moreover have "hd (split_on (CHR '';'') ?h) = show_radix 16 n"
    using split_on_append [OF show_radix_no_sep [of 16 "CHR '';''" n], of "tl sig_tag @ sig"] by (simp add: sig_tag_def)
  ultimately show ?thesis by (simp add: size_field_def Let_def trim_show_radix)
qed

section \<open>One chunk\<close>

lemma pump_Nil [simp]: "pump [] fails = []"
  by (simp add: pump.simps)

lemma pump_no_line: "LF \<notin> set bs \<Longrightarrow> pump bs fails = []"
proof -
  assume "LF \<notin> set bs"
  then have "dropWhile (\<lambda>b. b \<noteq> LF) bs = []" unfolding dropWhile_eq_Nil_conv by auto
  then have "after_line bs = []" by (simp only: after_line_def drop_Nil)
  then show ?thesis by (subst pump.simps) (simp add: Let_def split: option.splits)
qed

lemma pump_chunk_line:
  assumes sig: "plain_text sig" and n: "n < 2 ^ 64"
  shows "pump (chunk_line n sig @ rest) fails = (if n = 0 then [] else take n rest @ pump (drop 2 (drop n rest)) fails)"
proof -
  let ?h = "show_radix 16 n @ sig_tag @ sig"
  define b where "b = str_bytes ?h @ CRLF @ rest"
  have plain: "plain_text ?h" by (rule plain_head [OF sig])
  have bs: "chunk_line n sig @ rest = b" by (simp only: b_def chunk_line_def append_assoc)
  note line = first_line [OF plain_no_LF [OF plain], of rest, folded b_def]
  have ne: "b \<noteq> []" and lf: "LF \<in> set b" by (simp_all add: b_def CRLF_def LF_def)
  have utf: "utf8_valid (line_of b)"
    unfolding line by (rule ascii_utf8) (use plain_ascii [OF plain] in simp)
  have size: "size_field (line_of b) = show_radix 16 n" unfolding line by (rule size_field_head [OF sig])
  have parse: "parse_radix 16 (2 ^ 64 - 1) (show_radix 16 n) = Some n"
    by (rule parse_show_radix) (use n in linarith)+
  have digits: "show_radix 16 n \<noteq> []" using show_radix_digits [of 16 n] by auto
  show ?thesis
    unfolding bs by (simp only: pump.simps [of b fails] ne lf utf size line(2) parse digits Let_def if_False if_True simp_thms option.case)
qed

section \<open>Whole and cut bodies\<close>

lemma pump_chunk_body:
  assumes "plain_text sig" "\<forall>c \<in> set cs. c \<noteq> [] \<and> length c < 2 ^ 64"
  shows "pump (chunk_body sig cs) fails = concat cs"
  using assms(2)
proof (induction cs)
  case Nil
  show ?case using pump_chunk_line [OF assms(1), of 0 CRLF fails] by (simp add: chunk_body_def)
next
  case (Cons c cs)
  have "chunk_body sig (c # cs) = chunk_line (length c) sig @ (c @ CRLF @ chunk_body sig cs)"
    by (simp add: chunk_body_def)
  with Cons pump_chunk_line [OF assms(1), of "length c" "c @ CRLF @ chunk_body sig cs" fails]
  show ?case by (simp add: CRLF_def)
qed

lemma take_line:
  assumes "plain_text sig" "m < length (chunk_line n sig)"
  shows "LF \<notin> set (take m (chunk_line n sig @ rest))"
proof -
  let ?h = "str_bytes (show_radix 16 n @ sig_tag @ sig)"
  have "chunk_line n sig = (?h @ [13]) @ [10]" by (simp add: chunk_line_def CRLF_def)
  moreover from this assms(2) have "m - length ?h = 0 \<or> m - length ?h = 1" by auto
  ultimately have "take m (chunk_line n sig @ rest) = take m (?h @ [13])" by auto
  moreover have "LF \<notin> set (?h @ [13])" using plain_no_LF [OF plain_head [OF assms(1)], of n] by (simp add: LF_def)
  ultimately show ?thesis by (metis in_set_takeD)
qed

lemma pump_cut_body:
  assumes sig: "plain_text sig" and cs: "\<forall>c \<in> set cs. c \<noteq> [] \<and> length c < 2 ^ 64"
  shows "prefix (pump (take m (chunk_body sig cs)) fails) (concat cs)"
  using cs
proof (induction cs arbitrary: m)
  case Nil
  show ?case
  proof (cases "m < length (chunk_line 0 sig)")
    case True
    from take_line [OF sig True, of CRLF] show ?thesis by (simp add: chunk_body_def pump_no_line)
  next
    case False
    then have "take m (chunk_body sig []) = chunk_line 0 sig @ take (m - length (chunk_line 0 sig)) CRLF"
      by (simp add: chunk_body_def)
    then show ?thesis by (simp add: pump_chunk_line [OF sig])
  qed
next
  case (Cons c cs)
  let ?l = "chunk_line (length c) sig" and ?rest = "c @ CRLF @ chunk_body sig cs"
  have body: "chunk_body sig (c # cs) = ?l @ ?rest" by (simp add: chunk_body_def)
  show ?case
  proof (cases "m < length ?l")
    case True
    from take_line [OF sig True, of ?rest] show ?thesis by (simp add: body pump_no_line)
  next
    case False
    define k where "k = m - length ?l"
    have "take m (chunk_body sig (c # cs)) = ?l @ take k ?rest" using False by (simp add: body k_def)
    then have p: "pump (take m (chunk_body sig (c # cs))) fails =
        take (length c) (take k ?rest) @ pump (drop 2 (drop (length c) (take k ?rest))) fails"
      using Cons.prems pump_chunk_line [OF sig, of "length c" "take k ?rest" fails] by simp
    show ?thesis
    proof (cases "k \<le> length c")
      case True
      then show ?thesis by (simp add: p take_is_prefix)
    next
      case False
      then have "drop 2 (drop (length c) (take k ?rest)) = take (k - length c - 2) (chunk_body sig cs)"
        by (simp add: drop_take CRLF_def)
      with False Cons show ?thesis by (simp add: p)
    qed
  qed
qed

text \<open>Cut after a whole number of chunks, the body decodes to exactly those chunks.\<close>

lemma pump_cut_chunks:
  assumes "plain_text sig" "\<forall>c \<in> set cs. c \<noteq> [] \<and> length c < 2 ^ 64"
  shows "pump (concat (map (\<lambda>c. chunk_line (length c) sig @ c @ CRLF) cs)) fails = concat cs"
  using assms(2)
proof (induction cs)
  case (Cons c cs)
  with pump_chunk_line [OF assms(1), of "length c" "c @ CRLF @ concat (map (\<lambda>c. chunk_line (length c) sig @ c @ CRLF) cs)" fails]
  show ?case by (simp add: CRLF_def)
qed simp

end
