(* ===== verification/Iam_Props.thy ===== *)
theory Iam_Props
  imports Iam_Facts
begin

text \<open>The properties of the identity store.\<close>

section \<open>A concrete store\<close>

definition ex_iam_lib :: iam_lib where
  "ex_iam_lib = \<lparr> il_hmac = (\<lambda>k bs. replicate 32 (of_nat (length k + length bs))),
     il_b64_encode = map (\<lambda>b. char_of (unat b)), il_b64_decode = (\<lambda>s. Some (str_bytes s)) \<rparr>"

lemma str_bytes_char_of: "str_bytes (map (\<lambda>b. char_of (unat b)) bs) = bs"
proof -
  have "of_char (char_of (unat b)) = b" for b :: byte
  proof -
    have "(of_char (char_of (unat b)) :: nat) = unat b" using unsigned_less [of b, where ?'a = nat] by simp
    then have "of_nat (of_char (char_of (unat b)) :: nat) = (of_nat (unat b) :: byte)" by (simp only:)
    also have "\<dots> = b" by simp
    finally have "of_nat (of_char (char_of (unat b)) :: nat) = b" .
    then show ?thesis by (simp only: of_nat_of_char)
  qed
  then show ?thesis by (induction bs) (simp_all add: str_bytes_def)
qed

lemma ex_iam_laws: "iam_laws ex_iam_lib"
  by (simp add: iam_laws_def ex_iam_lib_def str_bytes_char_of)

definition ex_iam :: iam_store where
  "ex_iam = \<lparr> ia_root_key = ''root'', ia_root_secret = ''rs'',
     ia_users = [(''alice'', \<lparr> su_secret_key = ''s'', su_policy = ''readwrite'', su_enabled = True, su_buckets = Some [''reports''] \<rparr>)],
     ia_path = ''/d/users.json'' \<rparr>"

section \<open>Temporary credentials\<close>

text \<open>
  C15: a temporary credential is worth its policy until it expires, and cannot be made up.  What
  \<open>issue_temp\<close> returns resolves, with the same secret and the policy asked for, exactly while its expiry
  lies in the future; and whatever resolves under the reserved prefix carries the truncated MAC of its
  own payload under the root secret and names an expiry in the future.
\<close>

theorem temporary_credentials:
  assumes "iam_laws L" and "length nonce = 8" and "issue_temp L iam now nonce pol ttl = (ak, sk, expiry)"
    and "ak \<noteq> ia_root_key iam"
  shows "resolve L iam now' ak =
      (if sint expiry \<le> sint now' then None
       else Some \<lparr> id_access_key = ak, id_secret_key = sk, id_policy = policy_name pol, id_enabled = True, id_buckets = None \<rparr>)
    \<and> (\<forall>k i. starts_with k STS_PREFIX \<and> k \<noteq> ia_root_key iam \<and> resolve L iam now' k = Some i \<longrightarrow>
        (\<exists>payload. il_b64_decode L (drop (length STS_PREFIX) k)
            = Some (payload @ take STS_TAG_LEN (hmac_sha256 L (ia_root_secret iam) payload))
          \<and> length payload = STS_PAYLOAD_LEN \<and> sint now' < sint (from_be64 (take 8 (drop 1 payload)))))"
proof (intro conjI allI impI)
  have "starts_with ak STS_PREFIX" using assms(3) by (auto simp: issue_temp_def Let_def)
  then show "resolve L iam now' ak = (if sint expiry \<le> sint now' then None
       else Some \<lparr> id_access_key = ak, id_secret_key = sk, id_policy = policy_name pol, id_enabled = True, id_buckets = None \<rparr>)"
    using resolve_issued [OF assms(1-3), of now'] assms(4) by (simp add: resolve_def)
next
  fix k i assume "starts_with k STS_PREFIX \<and> k \<noteq> ia_root_key iam \<and> resolve L iam now' k = Some i"
  then have "resolve_sts L iam now' k = Some i" by (auto simp: resolve_def split: if_splits)
  then show "\<exists>payload. il_b64_decode L (drop (length STS_PREFIX) k)
            = Some (payload @ take STS_TAG_LEN (hmac_sha256 L (ia_root_secret iam) payload))
          \<and> length payload = STS_PAYLOAD_LEN \<and> sint now' < sint (from_be64 (take 8 (drop 1 payload)))"
    by (rule resolve_sts_sound) blast
qed

definition ex_sts_key :: string where
  "ex_sts_key = fst (issue_temp ex_iam_lib ex_iam 1000 (replicate 8 7) PReadOnly 900)"

theorem temporary_credentials_witness:
  "resolve ex_iam_lib ex_iam 1899 ex_sts_key \<noteq> None \<and> resolve ex_iam_lib ex_iam 1900 ex_sts_key = None"
proof -
  let ?r = "issue_temp ex_iam_lib ex_iam 1000 (replicate 8 7) PReadOnly 900"
  have run: "?r = (ex_sts_key, fst (snd ?r), snd (snd ?r))" by (simp add: ex_sts_key_def)
  have e: "snd (snd ?r) = 1900" by (simp add: issue_temp_def Let_def)
  have pre: "starts_with ex_sts_key STS_PREFIX" by (simp add: ex_sts_key_def issue_temp_def Let_def)
  have "\<not> starts_with (ia_root_key ex_iam) STS_PREFIX" by code_simp
  with pre have ne: "ex_sts_key \<noteq> ia_root_key ex_iam" by metis
  have len: "length (replicate 8 (7 :: byte)) = 8" by simp
  note t = temporary_credentials [OF ex_iam_laws len run ne, THEN conjunct1]
  have s: "sint (1900 :: 64 word) = 1900" "sint (1899 :: 64 word) = 1899" by simp_all
  show ?thesis unfolding t e s by simp
qed

section \<open>Bucket scopes\<close>

text \<open>
  C16: nothing but \<open>set_buckets\<close> and a removal widens a scope.  After any sequence of operations, with any
  outcome of their writes, of which none rescopes or removes the user, the identity's key still resolves
  and to the same bucket scope; the root identity and temporary credentials do not change at all.
\<close>

theorem scope_survives:
  assumes "apply_all ops (iam, doc) = (iam', doc')"
    and "\<forall>(io, x) \<in> set ops. \<not> rescopes x \<or> op_key x \<noteq> k"
    and "resolve L iam now k = Some i"
  shows "\<exists>i'. resolve L iam' now k = Some i' \<and> id_buckets i' = id_buckets i
    \<and> (k = ia_root_key iam \<or> starts_with k STS_PREFIX \<longrightarrow> i' = i)"
proof -
  have keep: "ia_root_key iam' = ia_root_key iam \<and> ia_root_secret iam' = ia_root_secret iam
    \<and> (\<forall>u. map_of (ia_users iam) k = Some u \<longrightarrow> (\<exists>u'. map_of (ia_users iam') k = Some u' \<and> su_buckets u' = su_buckets u))"
    using assms(1,2)
  proof (induction ops arbitrary: iam doc)
    case (Cons y ops)
    obtain io x where y: "y = (io, x)" by force
    obtain iam1 doc1 r where op: "apply_op io x (iam, doc) = (iam1, doc1, r)" using prod_cases3 by blast
    with Cons.prems(1) y have rest: "apply_all ops (iam1, doc1) = (iam', doc')" by (simp add: apply_all_def)
    have "\<not> rescopes x \<or> op_key x \<noteq> k" "\<forall>(io, x) \<in> set ops. \<not> rescopes x \<or> op_key x \<noteq> k"
      using Cons.prems(2) y by simp_all
    note ih = Cons.IH [OF rest this(2)] and root = op_keeps_root [OF op] and scope = op_keeps_scope [OF op this(1)]
    have "\<exists>u'. map_of (ia_users iam') k = Some u' \<and> su_buckets u' = su_buckets u" if "map_of (ia_users iam) k = Some u" for u
    proof -
      from scope [OF that] obtain u1 where "map_of (ia_users iam1) k = Some u1" "su_buckets u1 = su_buckets u" by blast
      with ih show ?thesis by auto
    qed
    with ih root show ?case by simp
  qed (simp add: apply_all_def)
  show ?thesis
  proof (cases "k = ia_root_key iam \<or> starts_with k STS_PREFIX")
    case True
    then have "resolve L iam' now k = resolve L iam now k"
      using keep by (cases "k = ia_root_key iam") (simp add: resolve_def root_identity_def, intro resolve_cong, auto)
    with assms(3) show ?thesis by simp
  next
    case False
    with assms(3) obtain u where "map_of (ia_users iam) k = Some u" "i = user_identity k u" by (auto simp: resolve_def)
    moreover from this(1) keep obtain u' where "map_of (ia_users iam') k = Some u'" "su_buckets u' = su_buckets u" by blast
    ultimately show ?thesis using False keep by (simp add: resolve_def user_identity_def)
  qed
qed

definition ex_rotation :: "(persist_io \<times> iam_op) list" where
  "ex_rotation = [(PersistOk, AddUser ''alice'' ''s2'' ''readwrite''), (MkdirFails, SetPolicy ''alice'' ''admin''),
     (PersistOk, RemoveUser ''bob'')]"

theorem scope_survives_witness:
  "\<exists>i. resolve ex_iam_lib (fst (apply_all ex_rotation (ex_iam, None))) 0 ''alice'' = Some i \<and> id_buckets i = Some [''reports'']"
proof -
  have run: "apply_all ex_rotation (ex_iam, None) =
    (fst (apply_all ex_rotation (ex_iam, None)), snd (apply_all ex_rotation (ex_iam, None)))" by simp
  have ops: "\<forall>(io, x) \<in> set ex_rotation. \<not> rescopes x \<or> op_key x \<noteq> ''alice''" by (simp add: ex_rotation_def)
  have "resolve ex_iam_lib ex_iam 0 ''alice'' =
    Some \<lparr> id_access_key = ''alice'', id_secret_key = ''s'', id_policy = ''readwrite'', id_enabled = True, id_buckets = Some [''reports''] \<rparr>"
    by code_simp
  from scope_survives [OF run ops this] show ?thesis by auto
qed

section \<open>Persistence\<close>

text \<open>
  What an operation saves is what a restart loads.  When an operation on a store with a path returns
  without an error, loading the document it wrote gives a store that resolves every key alike.
\<close>

theorem restart_resolves_alike:
  assumes "apply_op io x (iam, file) = (iam', file', Ok ())" and "ia_path iam \<noteq> []" and "distinct (map fst (ia_users iam))"
  shows "resolve L (load dir file' (ia_root_key iam) (ia_root_secret iam) None) now k = resolve L iam' now k"
proof -
  have "distinct (map fst (ia_users iam'))" by (rule op_keeps_distinct [OF assms(1,3)])
  then show ?thesis
    using op_keeps_root [OF assms(1)] op_saves [OF assms(1,2)] users_of_saved [of "ia_users iam'" k]
    by (intro resolve_cong) (simp_all add: load_def)
qed

definition ex_added :: "iam_store \<times> users_file \<times> unit result" where
  "ex_added = add_user PersistOk ex_iam None ''bob'' ''bs'' ''writeonly''"

theorem restart_resolves_alike_witness:
  "resolve ex_iam_lib (load ''/d'' (fst (snd ex_added)) ''root'' ''rs'' None) 0 ''bob'' \<noteq> None"
proof -
  have run: "apply_op PersistOk (AddUser ''bob'' ''bs'' ''writeonly'') (ex_iam, None)
    = (fst ex_added, fst (snd ex_added), Ok ())" and found: "resolve ex_iam_lib (fst ex_added) 0 ''bob'' \<noteq> None"
    by code_simp+
  have "ia_path ex_iam \<noteq> []" "distinct (map fst (ia_users ex_iam))" by (simp_all add: ex_iam_def)
  from restart_resolves_alike [OF run this, where dir = "''/d''"] found show ?thesis by (simp add: ex_iam_def)
qed

section \<open>Surprises\<close>

text \<open>
  Detaching a user's policies leaves read access.  \<open>set_policy\<close> with the empty name, the form that is
  documented to leave no permissions, gives the user the read-only policy.
\<close>

theorem detached_policy_reads:
  assumes "set_policy io iam file k '''' = (iam', file', r)" and "map_of (ia_users iam) k \<noteq> None"
    and "k \<noteq> ia_root_key iam" and "\<not> starts_with k STS_PREFIX"
  shows "\<exists>i. resolve L iam' now k = Some i \<and> id_policy i = '''' \<and> allows (policy_from_name (id_policy i)) Read"
proof -
  have "policy_from_name '''' = PReadOnly" by code_simp
  moreover obtain u where "map_of (ia_users iam) k = Some u" using assms(2) by blast
  ultimately show ?thesis
    using assms by (auto simp: set_policy_def change_user_def save_def resolve_def user_identity_def split: prod.splits)
qed

theorem detached_policy_reads_witness:
  "\<exists>i. resolve ex_iam_lib (fst (set_policy PersistOk ex_iam None ''alice'' '''')) 0 ''alice'' = Some i
    \<and> allows (policy_from_name (id_policy i)) Read"
proof -
  let ?r = "set_policy PersistOk ex_iam None ''alice'' ''''"
  have run: "?r = (fst ?r, fst (snd ?r), snd (snd ?r))" by simp
  have "map_of (ia_users ex_iam) ''alice'' \<noteq> None" "''alice'' \<noteq> ia_root_key ex_iam" "\<not> starts_with ''alice'' STS_PREFIX"
    by code_simp+
  from detached_policy_reads [OF run this, of ex_iam_lib 0] show ?thesis by blast
qed

text \<open>
  A user whose access key starts with the reserved prefix can be added but never used: the
  operation succeeds and the table holds the user, while the key resolves as it did before.
\<close>

theorem reserved_prefix_user_unreachable:
  assumes "add_user io iam file k sk pol = (iam', file', Ok ())" and "starts_with k STS_PREFIX"
  shows "map_of (ia_users iam') k \<noteq> None \<and> resolve L iam' now k = resolve L iam now k"
proof
  have op: "apply_op io (AddUser k sk pol) (iam, file) = (iam', file', Ok ())" using assms(1) by simp
  show "resolve L iam' now k = resolve L iam now k"
    using op_keeps_root [OF op] assms(2) by (intro resolve_cong) simp_all
  show "map_of (ia_users iam') k \<noteq> None"
    using assms(1) by (auto simp: add_user_def save_def Let_def split: if_splits prod.splits)
qed

theorem reserved_prefix_user_unreachable_witness:
  "resolve ex_iam_lib (fst (add_user PersistOk ex_iam None ''KPSTS1'' ''x'' ''readwrite'')) 0 ''KPSTS1'' = None"
proof -
  let ?r = "add_user PersistOk ex_iam None ''KPSTS1'' ''x'' ''readwrite''"
  have run: "?r = (fst ?r, fst (snd ?r), Ok ())" and none: "resolve ex_iam_lib ex_iam 0 ''KPSTS1'' = None"
    and pre: "starts_with ''KPSTS1'' STS_PREFIX"
    by code_simp+
  from reserved_prefix_user_unreachable [OF run pre, of ex_iam_lib 0] none show ?thesis by simp
qed

end
