(* ===== verification/Auth_Props.thy ===== *)
theory Auth_Props
  imports Auth_Facts Chunk_Facts Iam_Props
begin

text \<open>
  The properties of request authentication: what runs is authorized and what is refused changes
  nothing, a client's signature is accepted exactly when it is the right one, and the limits in time.
\<close>

section \<open>Admission\<close>

text \<open>
  C14: behind the middleware only authorized requests run.  With authentication on and a path that is
  not exempt there are three outcomes.  The handlers ran once, for an identity that the store resolves at
  that moment, that is enabled, whose policy allows the action and whose scope contains the bucket, and
  that signed the request: in the \<open>Authorization\<close> header (whose date is not compared with the clock), or
  in the query of a presigned URL whose date and expiry have not passed.  Or the state is untouched and
  the answer is an error; in both cases the access log gains exactly one record, with the answer's status.
  Or the check panics, which happens only when the date and expiry of a presigned URL leave the
  representable years: then the state and the log are untouched and there is no answer.
\<close>

theorem only_authorized_requests_run:
  assumes "gw_auth_enabled g" and "\<not> exempt req" and "gw_find g = resolve L iam now"
    and run: "auth_middleware g env next req bdy (s, log) = ((s', log'), r)"
  shows "(s' = s \<and> log' = log \<and> r = Panic \<and> (\<exists>t. presigned_until (gw_lib g) req t \<and> \<not> time_in_range t)) \<or>
      (\<exists>resp. r = Done resp \<and> (\<forall>es. log = Some es \<longrightarrow> (\<exists>x. log' = Some (es @ [x]) \<and> ae_status x = rsp_status resp)) \<and>
        (s' = s \<and> (\<exists>e. resp = into_response_with_resource (re_request_id env) e (rq_path req)) \<or>
         (\<exists>i bdy' ctx. resolve L iam now (id_access_key i) = Some i \<and> id_enabled i
            \<and> (header_signature_valid (gw_lib g) i req \<or> presigned_signature_valid (gw_lib g) i req
                \<and> (\<exists>t. presigned_until (gw_lib g) req t \<and> re_now_ns env \<le> t * 10 ^ 9))
            \<and> allows (policy_from_name (id_policy i)) (action_for (rq_method req) (rq_path req))
            \<and> allows_bucket i (bucket_for (rq_path req))
            \<and> next req bdy' ctx (Some i) s = (s', resp))))"
proof (cases "authorize g (re_now_ns env) req")
  case Panic
  have "\<exists>t. presigned_until (gw_lib g) req t \<and> \<not> time_in_range t"
    using authorize_panics [OF Panic] .
  with Panic run assms(2) show ?thesis by (simp add: auth_middleware_def Let_def)
next
  case (Done v)
  show ?thesis
  proof (cases v)
    case (Refused e who)
    with run assms(2) Done show ?thesis
      by (auto simp: auth_middleware_def Let_def log_access_def entry_for_def)
  next
    case (Admitted who)
    with Done assms(1) obtain i where who: "who = Some i" and auth: "authenticate g (re_now_ns env) req = Done (Ok i)"
      and allowed: "allows (policy_from_name (id_policy i)) (action_for (rq_method req) (rq_path req))"
      and scope: "allows_bucket i (bucket_for (rq_path req))"
      by (auto simp: authorize_def split: outcome.splits sum.splits if_splits)
    note facts = iam.authenticate_sound [OF auth assms(3)] allowed scope
    from run assms(2) Done Admitted who
    have "\<exists>bdy' ctx resp. next req bdy' ctx (Some i) s = (s', resp) \<and> r = Done resp \<and> log' = log_access log (re_ts env) req ctx (rsp_status resp)"
      by (auto simp: auth_middleware_def Let_def split: prod.splits)
    then obtain bdy' ctx resp where ran: "next req bdy' ctx (Some i) s = (s', resp)" "r = Done resp"
      "log' = log_access log (re_ts env) req ctx (rsp_status resp)" by blast
    have "\<exists>x. log' = Some (es @ [x]) \<and> ae_status x = rsp_status resp" if "log = Some es" for es
      using that ran(3) by (simp add: log_access_def entry_for_def Let_def)
    with facts ran(1,2) show ?thesis by blast
  qed
qed

definition ex_sig_lib :: sig_lib where
  "ex_sig_lib = \<lparr> sg_iam = ex_iam_lib\<lparr>il_hmac := (\<lambda>k bs. [])\<rparr>, sg_sha256 = (\<lambda>bs. [of_nat (length bs)]), sg_pct_decode = id, sg_pct_encode = id,
     sg_parse_time = (\<lambda>s. if s = ''T'' then Some 1000 else None) \<rparr>"

definition ex_gateway :: gateway where
  "ex_gateway = \<lparr> gw_auth_enabled = True, gw_lib = ex_sig_lib, gw_find = resolve ex_iam_lib ex_iam 0 \<rparr>"

definition ex_request :: "string \<Rightarrow> http_request" where
  "ex_request path = \<lparr> rq_method = DELETE, rq_path = path, rq_query = None, rq_headers = [] \<rparr>"

definition ex_env :: request_env where
  "ex_env = \<lparr> re_now_ns = 0, re_ts = ''t'', re_request_id = ''r'', re_peer = None \<rparr>"

text \<open>Handlers that count the requests that reach them.\<close>

definition ex_next :: "nat handlers" where
  "ex_next req bdy ctx who s = (s + 1, \<lparr> rsp_status = 204, rsp_headers = [], rsp_body = [] \<rparr>)"

theorem only_authorized_requests_run_witness:
  "fst (fst (auth_middleware ex_gateway ex_env ex_next (ex_request ''/reports/x'') (Body [] False) (0, Some []))) = 0"
proof -
  let ?r = "auth_middleware ex_gateway ex_env ex_next (ex_request ''/reports/x'') (Body [] False) (0, Some [])"
  have run: "?r = ((fst (fst ?r), snd (fst ?r)), snd ?r)" by simp
  have h: "gw_auth_enabled ex_gateway" "\<not> exempt (ex_request ''/reports/x'')" "gw_find ex_gateway = resolve ex_iam_lib ex_iam 0"
    "rq_headers (ex_request ''/reports/x'') = []" "rq_query (ex_request ''/reports/x'') = None"
    by (simp_all add: ex_gateway_def exempt_def ex_request_def starts_with_def)
  have "\<not> header_signature_valid S i (ex_request ''/reports/x'')" "\<not> presigned_signature_valid S i (ex_request ''/reports/x'')" for S i
    by (simp_all add: header_signature_valid_def header_str_def presigned_signature_valid_def presigned_param_def
        presigned_pairs_def h(4,5))
  with only_authorized_requests_run [OF h(1-3) run] show ?thesis by blast
qed

section \<open>Signatures\<close>

text \<open>
  C17: a client that signs as the protocol prescribes is let in, and no other.  Let a client have a method, a
  path, parameters, signed headers and a payload hash, and send them with any encoding of the parameters and
  any signature, under a key that resolves to an enabled identity.  Then verification answers with that identity exactly when the signature is
  \<open>client_signature\<close>: the HMAC chain over date, region and service, applied to the string that lists the
  method, the path, the encoded and sorted parameters, the signed headers and the payload hash, all written
  out over the client's data.  Any other signature is answered \<open>SignatureDoesNotMatch\<close>.
\<close>

theorem signed_request_verdict:
  assumes "client_sends S r ws ak sig req" and "client_ok r" and "token ak" and "token sig"
    and "find_identity ak = Some i" and "id_enabled i"
  shows "verify S find_identity req =
    (if sig = client_signature S (id_secret_key i) r then Ok i else Err SignatureDoesNotMatch)"
proof -
  have names: "map fst (cl_headers r) \<noteq> []" "\<forall>s \<in> set (map fst (cl_headers r)). token s \<and> ascii_lowercase s = s"
    "sorted (map fst (cl_headers r))" and f: "token (cl_date r)" "token (cl_region r)" "token (cl_service r)"
    using assms(2) by (auto simp: client_ok_def list_all_iff)
  have sent: "header_str (rq_headers req) ''authorization'' =
      Some (authorization_value ak (cl_date r) (cl_region r) (cl_service r) (map fst (cl_headers r)) sig)"
    "header_str (rq_headers req) ''x-amz-date'' = Some (cl_time r)"
    "(case header_str (rq_headers req) ''x-amz-content-sha256'' of Some h \<Rightarrow> h | None \<Rightarrow> ''UNSIGNED-PAYLOAD'') = cl_payload r"
    using assms(1) by (auto simp: client_sends_def)
  show ?thesis
    using parse_authorization_value [OF assms(3) f assms(4) names] assms(5,6)
    by (auto simp: verify_def Let_def sent client_signature_of [OF assms(1)])
qed

text \<open>A digest and a MAC that depend on every byte, and a signed GET with a parameter.\<close>

definition ex_sum :: "bytes \<Rightarrow> bytes" where
  "ex_sum bs = [foldl (\<lambda>a b. 5 * a + b) 7 bs]"

definition ex_sum_lib :: sig_lib where
  "ex_sum_lib = ex_sig_lib\<lparr> sg_iam := ex_iam_lib\<lparr>il_hmac := (\<lambda>k bs. ex_sum (k @ bs))\<rparr>, sg_sha256 := ex_sum \<rparr>"

definition ex_client :: "string \<Rightarrow> client_request" where
  "ex_client path = \<lparr> cl_method = ''GET'', cl_path = path, cl_params = [(''b'', ''2''), (''a'', ''1'')],
     cl_headers = [(''host'', ''h'')], cl_payload = ''P'', cl_time = ''T'', cl_date = ''D'', cl_region = ''r'', cl_service = ''s3'' \<rparr>"

definition ex_sent :: "string \<Rightarrow> http_request" where
  "ex_sent path = \<lparr> rq_method = GET, rq_path = path, rq_query = Some ''b=2&a=1'',
     rq_headers = [(''authorization'', authorization_value ''alice'' ''D'' ''r'' ''s3'' [''host'']
         (client_signature ex_sum_lib ''s'' (ex_client ''/reports/x''))),
       (''host'', ''h''), (''x-amz-date'', ''T''), (''x-amz-content-sha256'', ''P'')] \<rparr>"

theorem signed_request_verdict_witness:
  "is_ok (verify ex_sum_lib (resolve ex_iam_lib ex_iam 0) (ex_sent ''/reports/x'')) \<and>
   verify ex_sum_lib (resolve ex_iam_lib ex_iam 0) (ex_sent ''/reports/y'') = Err SignatureDoesNotMatch"
proof -
  let ?sig = "client_signature ex_sum_lib ''s'' (ex_client ''/reports/x'')"
  have sig: "token ?sig" "?sig \<noteq> client_signature ex_sum_lib ''s'' (ex_client ''/reports/y'')"
    by code_simp+
  have sends: "client_sends ex_sum_lib (ex_client p) [(''b'', ''2''), (''a'', ''1'')] ''alice'' ?sig (ex_sent p)" for p
  proof -
    have "list_all visible_ascii (authorization_value ''alice'' ''D'' ''r'' ''s3'' [''host''] ?sig)" by code_simp
    then show ?thesis
      by (simp add: client_sends_def ex_client_def ex_sent_def wire_query_def wire_pair_def header_str_def ascii_lowercase_def
          ascii_lower_char_def is_ascii_upper_def visible_ascii_def join_with_Cons ex_sum_lib_def ex_sig_lib_def)
  qed
  have ok: "client_ok (ex_client p)" "token ''alice''" for p
    by (simp_all add: client_ok_def ex_client_def) code_simp+
  have i: "resolve ex_iam_lib ex_iam 0 ''alice'' =
    Some \<lparr> id_access_key = ''alice'', id_secret_key = ''s'', id_policy = ''readwrite'', id_enabled = True, id_buckets = Some [''reports''] \<rparr>"
    by code_simp
  show ?thesis
    using signed_request_verdict [OF sends ok(1,2) sig(1), where find_identity = "resolve ex_iam_lib ex_iam 0", OF i] sig(2)
    by simp
qed

text \<open>
  The order of the query parameters is irrelevant to the signature.  Two requests that differ only in
  the order of their parameters have the same canonical query.
\<close>

theorem query_order_irrelevant:
  assumes "mset (map query_pair (split_on (CHR ''&'') q)) = mset (map query_pair (split_on (CHR ''&'') q'))"
    and "q \<noteq> []" and "q' \<noteq> []"
  shows "build_canonical_query S (Some q) = build_canonical_query S (Some q')"
  using assms canonical_query_mset [OF assms(1)] by (simp add: build_canonical_query_def)

theorem query_order_irrelevant_witness:
  "build_canonical_query ex_sig_lib (Some ''b=2&a=1'') = build_canonical_query ex_sig_lib (Some ''a=1&b=2'')"
proof (rule query_order_irrelevant)
  have "split_on (CHR ''&'') ''b=2&a=1'' = [''b=2'', ''a=1'']" "split_on (CHR ''&'') ''a=1&b=2'' = [''a=1'', ''b=2'']" by code_simp+
  then show "mset (map query_pair (split_on (CHR ''&'') ''b=2&a=1'')) = mset (map query_pair (split_on (CHR ''&'') ''a=1&b=2''))"
    by simp
qed simp_all

section \<open>Limits in time\<close>

text \<open>
  C31: a presigned URL ends, but has no beginning.  It is accepted only up to its date plus its expiry, and
  one that is accepted at some moment is accepted at every earlier moment, also before its date.
\<close>

theorem presigned_window:
  assumes "verify_presigned S (resolve L iam t) now req = Done (Ok i)"
  shows "(\<exists>e. presigned_until S req e \<and> now \<le> e * 10 ^ 9)
    \<and> (\<forall>earlier \<le> now. verify_presigned S (resolve L iam t) earlier req = Done (Ok i))"
proof (intro conjI allI impI)
  show "\<exists>e. presigned_until S req e \<and> now \<le> e * 10 ^ 9"
    using iam.verify_presigned_sound [OF assms] by blast
  fix earlier assume "earlier \<le> now"
  with assms show "verify_presigned S (resolve L iam t) earlier req = Done (Ok i)"
    by (auto simp: verify_presigned_def Let_def split: option.split_asm list.split_asm if_split_asm)
qed

definition ex_presigned :: "string \<Rightarrow> string \<Rightarrow> http_request" where
  "ex_presigned expires sig = \<lparr> rq_method = GET, rq_path = ''/reports/x'',
     rq_query = Some (''X-Amz-Credential=alice/D/r/s3/aws4_request&X-Amz-Date=T&X-Amz-Expires='' @ expires
       @ ''&X-Amz-SignedHeaders=host&X-Amz-Signature='' @ sig), rq_headers = [] \<rparr>"

lemma ex_presigned_params:
  "presigned_param ex_sig_lib (ex_presigned ''60'' []) ''X-Amz-Credential'' = Some ''alice/D/r/s3/aws4_request''"
  "split_on (CHR ''/'') ''alice/D/r/s3/aws4_request'' = [''alice'', ''D'', ''r'', ''s3'', ''aws4_request'']"
  "presigned_param ex_sig_lib (ex_presigned ''60'' []) ''X-Amz-Date'' = Some ''T''" "sg_parse_time ex_sig_lib ''T'' = Some 1000"
  "Option.bind (presigned_param ex_sig_lib (ex_presigned ''60'' []) ''X-Amz-Expires'') parse_i64 = Some 60"
  "presigned_param ex_sig_lib (ex_presigned ''60'' []) ''X-Amz-SignedHeaders'' = Some ''host''"
  "presigned_param ex_sig_lib (ex_presigned ''60'' []) ''X-Amz-Signature'' = Some []"
  "resolve ex_iam_lib ex_iam 0 ''alice'' = Some \<lparr> id_access_key = ''alice'', id_secret_key = ''s'', id_policy = ''readwrite'',
      id_enabled = True, id_buckets = Some [''reports''] \<rparr>"
proof -
  have e: "presigned_param ex_sig_lib (ex_presigned ''60'' []) ''X-Amz-Expires'' = Some ''60''" by code_simp
  show "Option.bind (presigned_param ex_sig_lib (ex_presigned ''60'' []) ''X-Amz-Expires'') parse_i64 = Some 60"
    by (simp add: e parse_i64_def parse_radix_def digit_value_def is_ascii_digit_def)
qed code_simp+

theorem presigned_window_witness:
  "\<exists>i. verify_presigned ex_sig_lib (resolve ex_iam_lib ex_iam 0) (- 5) (ex_presigned ''60'' []) = Done (Ok i)"
proof -
  have "signature_of ex_sig_lib k d dt r sv c = []" for k d dt r sv c
    by (simp add: signature_of_def sig_hmac_def ex_sig_lib_def hex_encode_def)
  then have "\<exists>i. verify_presigned ex_sig_lib (resolve ex_iam_lib ex_iam 0) 1060000000000 (ex_presigned ''60'' []) = Done (Ok i)"
    using verify_presigned_eq [where find_identity = "resolve ex_iam_lib ex_iam 0" and ak = "''alice''", OF ex_presigned_params]
    by (simp add: time_in_range_def)
  then obtain i where "verify_presigned ex_sig_lib (resolve ex_iam_lib ex_iam 0) 1060000000000 (ex_presigned ''60'' []) = Done (Ok i)" ..
  from presigned_window [OF this] show ?thesis by (intro exI [of _ i]) simp
qed

text \<open>
  An expiry that is too large panics before the signature is looked at.  A request that names an
  enabled key, a readable date and an expiry that carries the date past the year 9999 ends in a panic,
  whatever signature it carries.
\<close>

theorem presigned_expiry_panics:
  assumes "presigned_param S req ''X-Amz-Credential'' = Some c" and "split_on (CHR ''/'') c = [ak, d, r, sv, x]"
    and "presigned_param S req ''X-Amz-Date'' = Some date" and "sg_parse_time S date = Some t"
    and "Option.bind (presigned_param S req ''X-Amz-Expires'') parse_i64 = Some e" and "253402300799 < t + e"
    and "presigned_param S req ''X-Amz-SignedHeaders'' = Some names" and "presigned_param S req ''X-Amz-Signature'' = Some sig"
    and "find_identity ak = Some i" and "id_enabled i"
  shows "verify_presigned S find_identity now req = Panic"
  using verify_presigned_eq [where find_identity = find_identity and ak = ak, OF assms(1-5,7-10)] assms(6) by (simp add: time_in_range_def)

theorem presigned_expiry_panics_witness:
  "verify_presigned ex_sig_lib (resolve ex_iam_lib ex_iam 0) 0 (ex_presigned ''9000000000000000000'' ''forged'') = Panic"
proof -
  let ?q = "ex_presigned ''9000000000000000000'' ''forged''"
  have h: "presigned_param ex_sig_lib ?q ''X-Amz-Credential'' = Some ''alice/D/r/s3/aws4_request''"
    "split_on (CHR ''/'') ''alice/D/r/s3/aws4_request'' = [''alice'', ''D'', ''r'', ''s3'', ''aws4_request'']"
    "presigned_param ex_sig_lib ?q ''X-Amz-Date'' = Some ''T''" "sg_parse_time ex_sig_lib ''T'' = Some 1000"
    "presigned_param ex_sig_lib ?q ''X-Amz-SignedHeaders'' = Some ''host''"
    "presigned_param ex_sig_lib ?q ''X-Amz-Signature'' = Some ''forged''"
    "presigned_param ex_sig_lib ?q ''X-Amz-Expires'' = Some ''9000000000000000000''"
    "resolve ex_iam_lib ex_iam 0 ''alice'' = Some \<lparr> id_access_key = ''alice'', id_secret_key = ''s'', id_policy = ''readwrite'',
      id_enabled = True, id_buckets = Some [''reports''] \<rparr>"
    by code_simp+
  have "parse_i64 ''9000000000000000000'' = Some 9000000000000000000"
    by (simp add: parse_i64_def parse_radix_def digit_value_def is_ascii_digit_def)
  then have e: "Option.bind (presigned_param ex_sig_lib ?q ''X-Amz-Expires'') parse_i64 = Some 9000000000000000000"
    by (simp add: h(7))
  show ?thesis
    by (rule presigned_expiry_panics [where find_identity = "resolve ex_iam_lib ex_iam 0" and ak = "''alice''", OF h(1-4) e _ h(5,6,8)]) simp_all
qed

section \<open>Chunked uploads\<close>

text \<open>
  C30: a framed upload decodes to its payload, and a cut one to less without an error.  The body of any
  list of non-empty chunks decodes to their concatenation; cut anywhere it decodes to a prefix, cut
  between two chunks to exactly the chunks before, and in every case the decoded body ends normally,
  also when the connection failed.
\<close>

theorem chunked_upload_decodes:
  assumes "plain_text sig" and "\<forall>c \<in> set cs. c \<noteq> [] \<and> length c < 2 ^ 64"
  shows "decode_aws_chunked (Body (chunk_body sig cs) fails) = Body (concat cs) False
    \<and> (\<forall>n. \<exists>p. decode_aws_chunked (Body (take n (chunk_body sig cs)) fails) = Body p False \<and> prefix p (concat cs))
    \<and> decode_aws_chunked (Body (concat (map (\<lambda>c. chunk_line (length c) sig @ c @ CRLF) cs)) fails) = Body (concat cs) False"
  using pump_chunk_body [OF assms] pump_cut_body [OF assms] pump_cut_chunks [OF assms]
  by (simp add: decode_aws_chunked_def)

theorem chunked_upload_decodes_witness:
  "decode_aws_chunked (Body (chunk_line 2 ''ab'' @ [1, 2] @ CRLF) True) = Body [1, 2] False"
proof -
  have s: "plain_text ''ab''" by code_simp
  have "\<forall>c \<in> set [[1, 2 :: byte]]. c \<noteq> [] \<and> length c < 2 ^ 64" by simp
  from chunked_upload_decodes [OF s this, of True, THEN conjunct2, THEN conjunct2] show ?thesis by (simp add: numeral_2_eq_2)
qed

end
