(* ===== verification/Handlers.thy ===== *)
theory Handlers
  imports Auth Store_Multipart
begin

text \<open>
  \<open>src/handlers/mod.rs\<close>, \<open>src/handlers/object.rs\<close> and \<open>src/handlers/multipart.rs\<close>: the object-level
  operations of the S3 API on the erasure store.  XML documents are kept as the values they carry; the
  XML parsers, percent coding, header-name parsing and date formats are library functions and parameters.
  A date read by \<open>ht_rfc3339\<close> and the clock \<open>now_ns\<close> are Unix times in nanoseconds.
\<close>

section \<open>Library functions\<close>

record retention =
  rt_mode :: "string option"
  rt_retain_until :: "string option"

record lifecycle_expiration =
  lx_days :: "nat option"
  lx_date :: "string option"

record lifecycle_rule =
  lr_status :: string
  lr_filter_prefix :: "string option option"
  lr_expiration :: "lifecycle_expiration option"

record delete_request =
  dq_objects :: "string list"
  dq_quiet :: bool

text \<open>A field of a \<open>multipart/form-data\<close> body as \<open>multer\<close> delivers it.\<close>

record form_field =
  ff_name :: "string option"
  ff_file_name :: "string option"
  ff_content :: body

text \<open>
  Each parser is applied to a request body, decoded lossily as UTF-8; \<open>ht_header_failure\<close> is the status
  and text of axum's own reply to a header value it cannot send.
\<close>

record http_lib =
  ht_pct_decode :: "string \<Rightarrow> string"
  ht_pct_key :: "string \<Rightarrow> string"
  ht_pct_alnum :: "string \<Rightarrow> string"
  ht_utf8_lossy :: "bytes \<Rightarrow> string"
  ht_header_name :: "string \<Rightarrow> string option"
  ht_header_failure :: "nat \<times> string"
  ht_http_date :: "int \<Rightarrow> string"
  ht_rfc3339 :: "string \<Rightarrow> int option"
  ht_tagging :: "bytes \<Rightarrow> (string \<times> string) list option"
  ht_retention :: "bytes \<Rightarrow> retention option"
  ht_retention_xml :: "retention \<Rightarrow> string"
  ht_legal_hold :: "bytes \<Rightarrow> string option"
  ht_complete :: "bytes \<Rightarrow> completed_part list option"
  ht_delete :: "bytes \<Rightarrow> delete_request option"
  ht_sse :: "bytes \<Rightarrow> string option"
  ht_versioning :: "bytes \<Rightarrow> string option option"
  ht_lifecycle :: "string \<Rightarrow> lifecycle_rule list option"
  ht_form :: "string \<Rightarrow> body \<Rightarrow> form_field list option"
  ht_field_text :: "body \<Rightarrow> string option"

record app_state =
  ap_env :: store_env
  ap_http :: http_lib
  ap_encryption_enabled :: bool

section \<open>Replies\<close>

record list_bucket_result =
  lb_name :: string
  lb_prefix :: string
  lb_key_count :: nat
  lb_max_keys :: nat
  lb_delimiter :: "string option"
  lb_encoding_type :: "string option"
  lb_is_truncated :: bool
  lb_next_continuation_token :: "string option"
  lb_contents :: "object_meta list"
  lb_common_prefixes :: "string list"

record list_versions_result =
  lv_name :: string
  lv_prefix :: string
  lv_key_marker :: string
  lv_version_id_marker :: string
  lv_max_keys :: nat
  lv_delimiter :: "string option"
  lv_is_truncated :: bool
  lv_next_key_marker :: "string option"
  lv_next_version_id_marker :: "string option"
  lv_version :: "(object_version \<times> string option) list"
  lv_delete_marker :: "object_version list"
  lv_common_prefixes :: "string list"

datatype xml_doc =
    TaggingXml "(string \<times> string) list"
  | RetentionXml retention
  | LegalHoldXml string
  | CopyObjectXml int string
  | InitiateXml string string string
  | CompleteXml string string string
  | ListPartsXml string string string "part_info list"
  | ListBucketsXml "string list"
  | ListBucketXml list_bucket_result
  | ListVersionsXml list_versions_result
  | DeleteResultXml "string list" "(string \<times> string \<times> string) list"
  | SseXml string
  | VersioningXml "string option"
  | ObjectLockXml string
  | RawXml string

datatype reply_body = NoContent | Xml xml_doc | Plain string | Stream body | ErrorDoc s3error string

record reply =
  rp_status :: nat
  rp_headers :: header_map
  rp_body :: reply_body

definition status_reply :: "nat \<Rightarrow> reply" where
  "status_reply sc = \<lparr> rp_status = sc, rp_headers = [], rp_body = NoContent \<rparr>"

definition headers_reply :: "nat \<Rightarrow> header_map \<Rightarrow> reply" where
  "headers_reply sc hs = \<lparr> rp_status = sc, rp_headers = hs, rp_body = NoContent \<rparr>"

definition xml_response :: "nat \<Rightarrow> xml_doc \<Rightarrow> reply" where
  "xml_response sc doc =
     \<lparr> rp_status = sc, rp_headers = [(''content-type'', ''application/xml'')], rp_body = Xml doc \<rparr>"

definition error_reply :: "s3error \<Rightarrow> string \<Rightarrow> reply" where
  "error_reply e resource =
     \<lparr> rp_status = status e, rp_headers = [(''content-type'', ''application/xml'')], rp_body = ErrorDoc e resource \<rparr>"

definition resource_of :: "string \<Rightarrow> string \<Rightarrow> string" where
  "resource_of bucket key = ''/'' @ bucket @ ''/'' @ key"

section \<open>Requests\<close>

definition sse_requested :: "header_map \<Rightarrow> bool" where
  "sse_requested hs =
     (case header_str hs ''x-amz-server-side-encryption'' of Some v \<Rightarrow> eq_ignore_ascii_case v ''AES256'' | None \<Rightarrow> False)"

definition parse_query :: "http_lib \<Rightarrow> string option \<Rightarrow> string_map" where
  "parse_query H raw =
     (case raw of
        None \<Rightarrow> []
      | Some q \<Rightarrow>
          foldl (\<lambda>m pair. case query_pair pair of (k, v) \<Rightarrow> AList.update (ht_pct_decode H k) (ht_pct_decode H v) m) []
            (filter (\<lambda>p. p \<noteq> []) (split_on (CHR ''&'') q)))"

definition has_param :: "string_map \<Rightarrow> string \<Rightarrow> bool" where
  "has_param params k = (map_of params k \<noteq> None)"

text \<open>A \<open>BTreeMap\<close> built by insertion: the last value of a name stays, names in order.\<close>

definition btree_insert :: "string \<Rightarrow> string \<Rightarrow> string_map \<Rightarrow> string_map" where
  "btree_insert k v m = insort_key fst (k, v) (filter (\<lambda>e. fst e \<noteq> k) m)"

definition btree_of :: "(string \<times> string) list \<Rightarrow> string_map" where
  "btree_of kvs = foldl (\<lambda>m (k, v). btree_insert k v m) [] kvs"

definition extract_user_metadata :: "header_map \<Rightarrow> string_map" where
  "extract_user_metadata hs =
     btree_of (List.map_filter
       (\<lambda>(name, v). (case strip_prefix ''x-amz-meta-'' name of
            Some sfx \<Rightarrow> (if list_all visible_ascii v then Some (sfx, v) else None)
          | None \<Rightarrow> None)) hs)"

definition content_type_of :: "header_map \<Rightarrow> string" where
  "content_type_of hs =
     (case header_str hs ''content-type'' of Some v \<Rightarrow> v | None \<Rightarrow> ''application/octet-stream'')"

definition encode_key :: "http_lib \<Rightarrow> string \<Rightarrow> string" where
  "encode_key H s = ht_pct_key H s"

definition quote_etag :: "string \<Rightarrow> string" where
  "quote_etag etag = CHR 0x22 # etag @ [CHR 0x22]"

text \<open>\<open>axum::body::to_bytes\<close> with a limit.\<close>

definition to_bytes :: "body \<Rightarrow> nat \<Rightarrow> bytes option" where
  "to_bytes b limit = (if body_fails b \<or> limit < length (body_bytes b) then None else Some (body_bytes b))"

section \<open>Describing an object\<close>

text \<open>\<open>HeaderValue::from_str\<close> and \<open>HeaderMap::insert\<close>: an invalid value is left out.\<close>

definition valid_header_value :: "string \<Rightarrow> bool" where
  "valid_header_value v =
     list_all (\<lambda>c. 32 \<le> (of_char c :: nat) \<and> (of_char c :: nat) \<noteq> 127 \<or> (of_char c :: nat) = 9) v"

definition set_header :: "string \<Rightarrow> string \<Rightarrow> header_map \<Rightarrow> header_map" where
  "set_header name v hs = (if valid_header_value v then AList.update name v hs else hs)"

definition set_opt_header :: "string \<Rightarrow> string option \<Rightarrow> header_map \<Rightarrow> header_map" where
  "set_opt_header name v hs = (case v of Some x \<Rightarrow> set_header name x hs | None \<Rightarrow> hs)"

definition object_headers :: "http_lib \<Rightarrow> object_meta \<Rightarrow> header_map" where
  "object_headers H meta =
     (let h1 = set_header ''content-type'' (om_content_type meta) [];
          h2 = set_header ''etag'' (quote_etag (om_etag meta)) h1;
          h3 = set_header ''last-modified'' (ht_http_date H (om_last_modified meta)) h2;
          h4 = set_header ''accept-ranges'' ''bytes'' h3;
          h5 = (if om_encrypted meta then set_header ''x-amz-server-side-encryption'' ''AES256'' h4 else h4);
          h6 = set_opt_header ''x-amz-version-id'' (om_version_id meta) h5;
          h7 = (case om_audit meta of
                  Some a \<Rightarrow> set_opt_header ''x-kerplace-source-ip'' (au_source_ip a)
                              (set_opt_header ''x-kerplace-author'' (au_author a) h6)
                | None \<Rightarrow> h6)
      in foldl (\<lambda>hs (k, v). case ht_header_name H (''x-amz-meta-'' @ k) of
                  Some name \<Rightarrow> set_header name v hs | None \<Rightarrow> hs) h7 (om_user_metadata meta))"

section \<open>Byte ranges\<close>

definition range_bound :: "string \<Rightarrow> nat option option" where
  "range_bound s = (if s = [] then Some None else map_option Some (parse_u64 s))"

definition parse_range :: "string \<Rightarrow> (nat option \<times> nat option) option" where
  "parse_range v =
     (case strip_prefix ''bytes='' v of
        None \<Rightarrow> None
      | Some spec \<Rightarrow>
          (if CHR '','' \<in> set spec then None
           else case split_once (CHR ''-'') spec of
             None \<Rightarrow> None
           | Some (s, e) \<Rightarrow>
               (case range_bound s of
                  None \<Rightarrow> None
                | Some start \<Rightarrow>
                    (case range_bound e of
                       None \<Rightarrow> None
                     | Some stop \<Rightarrow> if start = None \<and> stop = None then None else Some (start, stop)))))"

text \<open>The absolute first and last byte, against the object's size.\<close>

fun absolute_range :: "nat \<Rightarrow> nat option \<times> nat option \<Rightarrow> nat \<times> nat" where
  "absolute_range sz (Some s, Some e) = (min s sz, min e (sz - 1))"
| "absolute_range sz (Some s, None) = (min s sz, sz - 1)"
| "absolute_range sz (None, Some n) = (sz - min n sz, sz - 1)"
| "absolute_range sz (None, None) = (0, sz - 1)"

definition content_range :: "nat \<Rightarrow> nat \<Rightarrow> nat \<Rightarrow> string" where
  "content_range a z sz = ''bytes '' @ show_nat a @ ''-'' @ show_nat z @ ''/'' @ show_nat sz"

section \<open>Object lock\<close>

definition check_object_lock :: "app_state \<Rightarrow> int \<Rightarrow> store \<Rightarrow> string \<Rightarrow> string \<Rightarrow> unit result" where
  "check_object_lock A now_ns st bucket key =
     (if (case get_object_legal_hold st bucket key of Ok (Some s) \<Rightarrow> eq_ignore_ascii_case s ''ON'' | _ \<Rightarrow> False)
      then Err ObjectLocked
      else case get_object_retention st bucket key of
          Ok (Some raw) \<Rightarrow>
            (case ht_retention (ap_http A) (str_bytes raw) of
               Some r \<Rightarrow>
                 (case Option.bind (rt_retain_until r) (ht_rfc3339 (ap_http A)) of
                    Some dt \<Rightarrow> if now_ns < dt then Err ObjectLocked else Ok ()
                  | None \<Rightarrow> Ok ())
             | None \<Rightarrow> Ok ())
        | _ \<Rightarrow> Ok ())"

definition get_retention_reply :: "app_state \<Rightarrow> store \<Rightarrow> string \<Rightarrow> string \<Rightarrow> reply" where
  "get_retention_reply A st bucket key =
     (let no_retention = \<lparr> rt_mode = None, rt_retain_until = None \<rparr>
      in case get_object_retention st bucket key of
        Err e \<Rightarrow> error_reply e (resource_of bucket key)
      | Ok None \<Rightarrow> xml_response 200 (RetentionXml no_retention)
      | Ok (Some raw) \<Rightarrow>
          xml_response 200 (RetentionXml
            (case ht_retention (ap_http A) (str_bytes raw) of Some r \<Rightarrow> r | None \<Rightarrow> no_retention)))"

definition put_object_retention :: "app_state \<Rightarrow> store \<Rightarrow> string \<Rightarrow> string \<Rightarrow> body \<Rightarrow> store \<times> reply" where
  "put_object_retention A st bucket key b =
     (case to_bytes b (2 ^ 20) of
        None \<Rightarrow> (st, error_reply (InvalidArgument ''bad body'') (resource_of bucket key))
      | Some bs \<Rightarrow>
          (case ht_retention (ap_http A) bs of
             None \<Rightarrow> (st, error_reply (InvalidArgument ''bad Retention XML'') (resource_of bucket key))
           | Some r \<Rightarrow>
               (case set_object_retention st bucket key (ht_retention_xml (ap_http A) r) of
                  (st', Ok _) \<Rightarrow> (st', status_reply 200)
                | (st', Err e) \<Rightarrow> (st', error_reply e (resource_of bucket key)))))"

definition get_legal_hold_reply :: "store \<Rightarrow> string \<Rightarrow> string \<Rightarrow> reply" where
  "get_legal_hold_reply st bucket key =
     (case get_object_legal_hold st bucket key of
        Err e \<Rightarrow> error_reply e (resource_of bucket key)
      | Ok s \<Rightarrow> xml_response 200 (LegalHoldXml (case s of Some x \<Rightarrow> x | None \<Rightarrow> ''OFF'')))"

text \<open>\<open>str::to_uppercase\<close> on ASCII text.\<close>

definition ascii_uppercase :: "string \<Rightarrow> string" where
  "ascii_uppercase s = map (\<lambda>c. if is_ascii_lower c then char_of (of_char c - (32 :: nat)) else c) s"

definition put_object_legal_hold :: "app_state \<Rightarrow> store \<Rightarrow> string \<Rightarrow> string \<Rightarrow> body \<Rightarrow> store \<times> reply" where
  "put_object_legal_hold A st bucket key b =
     (case to_bytes b (2 ^ 20) of
        None \<Rightarrow> (st, error_reply (InvalidArgument ''bad body'') (resource_of bucket key))
      | Some bs \<Rightarrow>
          (case ht_legal_hold (ap_http A) bs of
             None \<Rightarrow> (st, error_reply (InvalidArgument ''bad LegalHold XML'') (resource_of bucket key))
           | Some s0 \<Rightarrow>
               let s = ascii_uppercase s0
               in if s \<noteq> ''ON'' \<and> s \<noteq> ''OFF''
                  then (st, error_reply (InvalidArgument ''LegalHold Status must be ON or OFF'') (resource_of bucket key))
                  else case set_object_legal_hold st bucket key s of
                      (st', Ok _) \<Rightarrow> (st', status_reply 200)
                    | (st', Err e) \<Rightarrow> (st', error_reply e (resource_of bucket key))))"

section \<open>Tags\<close>

definition get_tagging :: "store \<Rightarrow> string \<Rightarrow> string \<Rightarrow> reply" where
  "get_tagging st bucket key =
     (case get_object_tags st bucket key of
        Ok tags \<Rightarrow> xml_response 200 (TaggingXml (case tags of Some ts \<Rightarrow> ts | None \<Rightarrow> []))
      | Err e \<Rightarrow> error_reply e (resource_of bucket key))"

definition put_tagging :: "app_state \<Rightarrow> store \<Rightarrow> string \<Rightarrow> string \<Rightarrow> body \<Rightarrow> store \<times> reply" where
  "put_tagging A st bucket key b =
     (case to_bytes b (2 ^ 20) of
        None \<Rightarrow> (st, error_reply (InvalidArgument ''bad body'') (resource_of bucket key))
      | Some bs \<Rightarrow>
          (case ht_tagging (ap_http A) bs of
             None \<Rightarrow> (st, error_reply (InvalidArgument ''bad Tagging'') (resource_of bucket key))
           | Some ts \<Rightarrow>
               (case set_object_tags st bucket key (btree_of ts) of
                  (st', Ok _) \<Rightarrow> (st', status_reply 200)
                | (st', Err e) \<Rightarrow> (st', error_reply e (resource_of bucket key)))))"

definition delete_tagging :: "store \<Rightarrow> string \<Rightarrow> string \<Rightarrow> store \<times> reply" where
  "delete_tagging st bucket key =
     (case delete_object_tags st bucket key of
        (st', Ok _) \<Rightarrow> (st', status_reply 204)
      | (st', Err e) \<Rightarrow> (st', error_reply e (resource_of bucket key)))"

section \<open>Multipart uploads\<close>

definition wants_encryption :: "app_state \<Rightarrow> store \<Rightarrow> string \<Rightarrow> header_map \<Rightarrow> bool" where
  "wants_encryption A st bucket hs =
     (sse_requested hs \<or> get_bucket_encryption st bucket \<noteq> None \<or> ap_encryption_enabled A)"

definition mp_create :: "app_state \<Rightarrow> call_ctx \<Rightarrow> store \<Rightarrow> string \<Rightarrow> string \<Rightarrow> header_map \<Rightarrow> store \<times> reply" where
  "mp_create A C st bucket key hs =
     (case create_multipart C st bucket key (content_type_of hs) (extract_user_metadata hs)
             (wants_encryption A st bucket hs) of
        (st', Ok upload_id) \<Rightarrow> (st', xml_response 200 (InitiateXml bucket key upload_id))
      | (st', Err e) \<Rightarrow> (st', error_reply e (resource_of bucket key)))"

definition mp_upload_part ::
  "app_state \<Rightarrow> call_ctx \<Rightarrow> store \<Rightarrow> string \<Rightarrow> string \<Rightarrow> string \<Rightarrow> string \<Rightarrow> body \<Rightarrow> store \<times> reply" where
  "mp_upload_part A C st bucket key upload_id part_number b =
     (case parse_u32 part_number of
        None \<Rightarrow> (st, error_reply (InvalidArgument ''invalid partNumber'') (resource_of bucket key))
      | Some n \<Rightarrow>
          (if \<not> (1 \<le> n \<and> n \<le> 10000)
           then (st, error_reply (InvalidArgument ''invalid partNumber'') (resource_of bucket key))
           else case upload_part (ap_env A) C st bucket key upload_id n b of
               (st', Ok etag) \<Rightarrow> (st', headers_reply 200 [(''etag'', quote_etag etag)])
             | (st', Err e) \<Rightarrow> (st', error_reply e (resource_of bucket key))))"

definition mp_complete ::
  "app_state \<Rightarrow> call_ctx \<Rightarrow> store \<Rightarrow> string \<Rightarrow> string \<Rightarrow> string \<Rightarrow> body \<Rightarrow> store \<times> reply" where
  "mp_complete A C st bucket key upload_id b =
     (case to_bytes b (2 ^ 20) of
        None \<Rightarrow> (st, error_reply (InvalidArgument ''could not read body'') (resource_of bucket key))
      | Some bs \<Rightarrow>
          (case ht_complete (ap_http A) bs of
             None \<Rightarrow> (st, error_reply (InvalidArgument ''malformed CompleteMultipartUpload'') (resource_of bucket key))
           | Some parts \<Rightarrow>
               (case complete_multipart (ap_env A) C st bucket key upload_id parts of
                  (st', Ok meta) \<Rightarrow> (st', xml_response 200 (CompleteXml bucket key (quote_etag (om_etag meta))))
                | (st', Err e) \<Rightarrow> (st', error_reply e (resource_of bucket key)))))"

definition mp_abort :: "store \<Rightarrow> string \<Rightarrow> string \<Rightarrow> string \<Rightarrow> store \<times> reply" where
  "mp_abort st bucket key upload_id =
     (case abort_multipart st bucket key upload_id of
        (st', Ok _) \<Rightarrow> (st', status_reply 204)
      | (st', Err e) \<Rightarrow> (st', error_reply e (resource_of bucket key)))"

definition mp_list_parts :: "store \<Rightarrow> string \<Rightarrow> string \<Rightarrow> string \<Rightarrow> reply" where
  "mp_list_parts st bucket key upload_id =
     (case list_parts st bucket key upload_id of
        Ok parts \<Rightarrow>
          xml_response 200 (ListPartsXml bucket key upload_id
            (map (\<lambda>p. p\<lparr>pi_etag := quote_etag (pi_etag p)\<rparr>) parts))
      | Err e \<Rightarrow> error_reply e (resource_of bucket key))"

end
