(* ===== verification/Lifecycle.thy ===== *)
theory Lifecycle
  imports Handlers "HOL-Library.Signed_Division"
begin

text \<open>
  \<open>src/lifecycle.rs\<close>: the background pass that deletes expired objects.  Clocks and dates are Unix times
  in nanoseconds, ages whole days.  The pass lists a bucket page by page and deletes as it goes; the
  log it returns names the keys of the \<open>info!\<close> lines, one for each deletion that succeeded.
\<close>

section \<open>Expiry\<close>

definition day_ns :: int where "day_ns = 86400 * 10 ^ 9"

text \<open>\<open>Duration::whole_days\<close> rounds toward zero; \<open>days as i64\<close> keeps the low 64 bits.\<close>

definition whole_days :: "int \<Rightarrow> int" where
  "whole_days ns = ns sdiv day_ns"

definition as_i64 :: "nat \<Rightarrow> int" where
  "as_i64 n = sint (of_nat n :: 64 word)"

definition should_expire :: "http_lib \<Rightarrow> lifecycle_expiration \<Rightarrow> int \<Rightarrow> int \<Rightarrow> bool" where
  "should_expire H ex last_modified_ns now_ns =
     (case lx_days ex of
        Some days \<Rightarrow> as_i64 days \<le> whole_days (now_ns - last_modified_ns)
      | None \<Rightarrow>
          (case Option.bind (lx_date ex) (ht_rfc3339 H) of
             Some date \<Rightarrow> date \<le> now_ns
           | None \<Rightarrow> False))"

definition object_locked :: "http_lib \<Rightarrow> store \<Rightarrow> string \<Rightarrow> string \<Rightarrow> int \<Rightarrow> bool" where
  "object_locked H st bucket key now_ns =
     ((case get_object_legal_hold st bucket key of Ok (Some s) \<Rightarrow> eq_ignore_ascii_case s ''ON'' | _ \<Rightarrow> False)
      \<or> (case get_object_retention st bucket key of
           Ok (Some raw) \<Rightarrow>
             (case ht_retention H (str_bytes raw) of
                Some r \<Rightarrow>
                  (case Option.bind (rt_retain_until r) (ht_rfc3339 H) of
                     Some until \<Rightarrow> now_ns < until | None \<Rightarrow> False)
              | None \<Rightarrow> False)
         | _ \<Rightarrow> False))"

section \<open>One page\<close>

text \<open>
  The pass runs outside every request: its audit context is empty.  \<open>Cs n\<close> holds the clock and the random
  draws of its \<open>n\<close>-th deletion; the counter is part of the pass's state.
\<close>

definition in_background :: "call_ctx \<Rightarrow> call_ctx" where
  "in_background C = C\<lparr>cx_access_key := None, cx_remote_ip := None\<rparr>"

record pass =
  ps_store :: store
  ps_count :: nat
  ps_log :: "(string \<times> string) list"

definition expire_one ::
  "http_lib \<Rightarrow> (nat \<Rightarrow> call_ctx) \<Rightarrow> string \<Rightarrow> lifecycle_expiration \<Rightarrow> int \<Rightarrow> object_meta \<Rightarrow> pass \<Rightarrow> pass" where
  "expire_one H Cs bucket ex now_ns obj ps =
     (if \<not> should_expire H ex (om_last_modified obj * 10 ^ 9) now_ns then ps
      else if object_locked H (ps_store ps) bucket (om_key obj) now_ns then ps
      else case delete_object (in_background (Cs (ps_count ps))) (ps_store ps) bucket (om_key obj) of
        (st', r) \<Rightarrow>
          \<lparr> ps_store = st', ps_count = ps_count ps + 1,
            ps_log = (if is_ok r then ps_log ps @ [(bucket, om_key obj)] else ps_log ps) \<rparr>)"

definition expire_page ::
  "http_lib \<Rightarrow> (nat \<Rightarrow> call_ctx) \<Rightarrow> string \<Rightarrow> lifecycle_expiration \<Rightarrow> int \<Rightarrow> object_meta list \<Rightarrow> pass \<Rightarrow> pass" where
  "expire_page H Cs bucket ex now_ns objs ps = fold (expire_one H Cs bucket ex now_ns) objs ps"

section \<open>The pages of a rule\<close>

partial_function (option) expire_objects ::
  "http_lib \<Rightarrow> (nat \<Rightarrow> call_ctx) \<Rightarrow> string \<Rightarrow> string \<Rightarrow> lifecycle_expiration \<Rightarrow> int \<Rightarrow> string option \<Rightarrow> pass \<Rightarrow>
   pass option" where
  "expire_objects H Cs bucket pre ex now_ns token ps =
     (case list_objects_v2 (st_drives (ps_store ps)) bucket pre None token None 1000 of
        Err e \<Rightarrow> Some ps
      | Ok l \<Rightarrow>
          let ps' = expire_page H Cs bucket ex now_ns (ls_objects l) ps
          in if ls_is_truncated l
             then expire_objects H Cs bucket pre ex now_ns (ls_next_continuation_token l) ps'
             else Some ps')"

section \<open>Rules, buckets, the pass\<close>

definition rule_prefix :: "lifecycle_rule \<Rightarrow> string" where
  "rule_prefix rule = (case Option.bind (lr_filter_prefix rule) id of Some p \<Rightarrow> p | None \<Rightarrow> [])"

primrec expire_rules ::
  "http_lib \<Rightarrow> (nat \<Rightarrow> call_ctx) \<Rightarrow> string \<Rightarrow> int \<Rightarrow> lifecycle_rule list \<Rightarrow> pass \<Rightarrow> pass option" where
  "expire_rules H Cs bucket now_ns [] ps = Some ps"
| "expire_rules H Cs bucket now_ns (rule # rules) ps =
     (if \<not> eq_ignore_ascii_case (lr_status rule) ''Enabled'' then expire_rules H Cs bucket now_ns rules ps
      else case lr_expiration rule of
        None \<Rightarrow> expire_rules H Cs bucket now_ns rules ps
      | Some ex \<Rightarrow>
          Option.bind (expire_objects H Cs bucket (rule_prefix rule) ex now_ns None ps)
            (expire_rules H Cs bucket now_ns rules))"

text \<open>The clock is read once for each bucket.\<close>

definition expire_bucket :: "http_lib \<Rightarrow> (nat \<Rightarrow> call_ctx) \<Rightarrow> int \<Rightarrow> string \<Rightarrow> pass \<Rightarrow> pass option" where
  "expire_bucket H Cs now_ns bucket ps =
     (case get_bucket_lifecycle (ps_store ps) bucket of
        None \<Rightarrow> Some ps
      | Some raw \<Rightarrow>
          (case ht_lifecycle H raw of
             None \<Rightarrow> Some ps
           | Some rules \<Rightarrow> expire_rules H Cs bucket now_ns rules ps))"

primrec expire_buckets ::
  "http_lib \<Rightarrow> (nat \<Rightarrow> call_ctx) \<Rightarrow> (string \<Rightarrow> int) \<Rightarrow> string list \<Rightarrow> pass \<Rightarrow> pass option" where
  "expire_buckets H Cs clock [] ps = Some ps"
| "expire_buckets H Cs clock (b # bs) ps =
     Option.bind (expire_bucket H Cs (clock b) b ps) (expire_buckets H Cs clock bs)"

definition run_lifecycle_pass ::
  "http_lib \<Rightarrow> (nat \<Rightarrow> call_ctx) \<Rightarrow> (string \<Rightarrow> int) \<Rightarrow> store \<Rightarrow> pass option" where
  "run_lifecycle_pass H Cs clock st =
     (let ps = \<lparr> ps_store = st, ps_count = 0, ps_log = [] \<rparr>
      in case list_buckets (st_drives st) of
        Err e \<Rightarrow> Some ps
      | Ok bs \<Rightarrow> expire_buckets H Cs clock bs ps)"

end
