(* ===== verification/Lifecycle_Facts.thy ===== *)
theory Lifecycle_Facts
  imports Lifecycle Listing_Keys
begin

text \<open>
  What a lifecycle pass does to the drives: it only removes files, never the ones of an object that is
  locked, not due and not below a deleted one, and it runs out of pages.
\<close>

section \<open>Removals that spare files\<close>

definition spared :: "(path \<Rightarrow> bool) \<Rightarrow> drive list \<Rightarrow> drive list \<Rightarrow> bool" where
  "spared P ds ds' \<longleftrightarrow> list_all2 (\<lambda>d d'. shrunk d d' \<and> drive_wf d' \<and> (\<forall>r. P r \<longrightarrow> same_file d d' r)) ds ds'"

lemma spared_refl: "tidy ds \<Longrightarrow> spared P ds ds"
  by (auto simp: spared_def list_all2_same tidy_def list_all_iff same_file_def)

lemma spared_trans: "spared P a b \<Longrightarrow> spared P b c \<Longrightarrow> spared P a c"
  unfolding spared_def by (erule list_all2_trans [rotated], assumption) (auto intro: shrunk_trans same_file_trans)

lemma spared_shrunk: "spared P ds ds' \<Longrightarrow> list_all2 shrunk ds ds'"
  unfolding spared_def by (erule list_all2_mono) simp

lemma spared_tidy: "spared P ds ds' \<Longrightarrow> tidy ds \<Longrightarrow> tidy ds'"
  by (rule tidy_shrunk [OF _ spared_shrunk]) (auto simp: spared_def list_all2_conv_all_nth in_set_conv_nth)

lemma spared_read:
  assumes "tidy ds" and "spared P ds ds'" and "P r" and "safe r"
  shows "map (\<lambda>d. drive_read d (PathBuf False r)) ds' = map (\<lambda>d. drive_read d (PathBuf False r)) ds"
proof (rule nth_equalityI)
  show "length (map (\<lambda>d. drive_read d (PathBuf False r)) ds') = length (map (\<lambda>d. drive_read d (PathBuf False r)) ds)"
    using assms(2) by (simp add: spared_def list_all2_lengthD)
  fix i assume "i < length (map (\<lambda>d. drive_read d (PathBuf False r)) ds')"
  then have i: "i < length ds" "i < length ds'" using assms(2) by (auto simp: spared_def dest: list_all2_lengthD)
  have "shrunk (ds ! i) (ds' ! i) \<and> drive_wf (ds' ! i) \<and> (\<forall>r. P r \<longrightarrow> same_file (ds ! i) (ds' ! i) r)"
    using assms(2) i by (simp add: spared_def list_all2_conv_all_nth)
  moreover have "drive_wf (ds ! i)" using assms(1) i(1) by (simp add: tidyD)
  ultimately show "map (\<lambda>d. drive_read d (PathBuf False r)) ds' ! i = map (\<lambda>d. drive_read d (PathBuf False r)) ds ! i"
    using same_file_read(1) [of "ds ! i" "ds' ! i" r] assms(3,4) i by (simp add: shrunk_def)
qed

lemma read_any_map: "meta_read_any ds rel = first_some id (map (\<lambda>d. drive_read d rel) ds)"
  by (simp add: meta_read_any_def first_some_map [of _ ds])

lemma spared_read_any:
  "tidy ds \<Longrightarrow> spared P ds ds' \<Longrightarrow> P r \<Longrightarrow> safe r \<Longrightarrow>
   read_cfg_as f ds' (PathBuf False r) = read_cfg_as f ds (PathBuf False r)"
  by (simp add: read_cfg_as_def read_any_map spared_read)

lemma spared_get:
  assumes "tidy ds" and "spared P ds ds'" and "valid_names b k" and "\<And>x. P (obj_path b k @ [x])"
  shows "read_xl ds' b k = read_xl ds b k" and "get_object E ds' b k = get_object E ds b k"
proof -
  have len: "length ds = length ds'" using assms(2) by (simp add: spared_def list_all2_lengthD)
  have "alike (ds ! i) (ds' ! i) (obj_path b k)" if "i < length ds" for i
    using assms len that unfolding alike_def spared_def list_all2_conv_all_nth shrunk_def
    by (metis nth_mem tidyD(1))
  with get_object_alike [OF assms(3) len] show "read_xl ds' b k = read_xl ds b k"
    "get_object E ds' b k = get_object E ds b k" by metis+
qed

section \<open>Where configuration is kept\<close>

definition cfg_path :: "string \<Rightarrow> string \<Rightarrow> path" where
  "cfg_path b f = [SYS_DIR, ''buckets'', b, f]"

lemma r_bucket_cfg_path: "plain_comp b \<Longrightarrow> plain_comp f \<Longrightarrow> r_bucket_cfg b f = PathBuf False (cfg_path b f)"
  by (simp add: r_bucket_cfg_def pjoin_plain path_new_plain cfg_path_def)

lemma safe_cfg_path: "plain_comp b \<Longrightarrow> plain_comp f \<Longrightarrow> safe (cfg_path b f)"
  by (simp add: cfg_path_def SYS_DIR_def plain_comp_def)

lemma plain_cfg_files [simp]: "plain_comp ''versioning.json''" "plain_comp ''lifecycle.xml''"
  "plain_comp ''legalhold.json''" "plain_comp ''retention.json''"
  by (simp_all add: plain_comp_def)

lemma r_obj_sidecar_path:
  "valid_names b k \<Longrightarrow> plain_comp f \<Longrightarrow> r_obj_sidecar b k f = PathBuf False (obj_path b k @ [f])"
  by (simp add: r_obj_sidecar_def r_object_path pjoin_plain)

definition best_status :: "string \<Rightarrow> doc option \<Rightarrow> string" where
  "best_status best c =
     (case Option.bind c as_status of
        Some s \<Rightarrow> if status_rank s > status_rank best then s else best | None \<Rightarrow> best)"

lemma versioning_map: "get_bucket_versioning ds b =
  foldl best_status [] (map (\<lambda>d. drive_read d (r_bucket_cfg b ''versioning.json'')) ds)"
  unfolding get_bucket_versioning_def foldl_map
  by (rule foldl_cong) (auto simp: more_protective_def decode_status_def best_status_def split: option.splits)

lemma spared_cfg:
  assumes "tidy (st_drives st)" and "spared P (st_drives st) (st_drives st')" and "plain_comp b"
    and "\<And>x. P (cfg_path b x)"
  shows "vmode (st_drives st') b = vmode (st_drives st) b" and "get_bucket_lifecycle st' b = get_bucket_lifecycle st b"
proof -
  note p = r_bucket_cfg_path [OF assms(3)] safe_cfg_path [OF assms(3)]
  show "vmode (st_drives st') b = vmode (st_drives st) b"
    unfolding vmode_def versioning_map p(1) [OF plain_cfg_files(1)] spared_read [OF assms(1,2,4) p(2) [OF plain_cfg_files(1)]] ..
  show "get_bucket_lifecycle st' b = get_bucket_lifecycle st b"
    by (simp add: get_bucket_lifecycle_def p spared_read_any [OF assms(1,2,4)])
qed

lemma spared_locked:
  assumes "tidy (st_drives st)" and "spared P (st_drives st) (st_drives st')" and "valid_names b k"
    and "\<And>x. P (obj_path b k @ [x])"
  shows "object_locked H st' b k now = object_locked H st b k now"
proof -
  have s: "safe (obj_path b k @ [f])" if "plain_comp f" for f
    using obj_path_safe [OF assms(3)] that by (simp add: plain_comp_def)
  have "get_sidecar g st' b k f = get_sidecar g st b k f" if "plain_comp f" for g :: "doc \<Rightarrow> string option" and f
    using spared_get(1) [OF assms] spared_read_any [OF assms(1,2,4) s [OF that], where f = g]
    unfolding get_sidecar_def head_object_def r_obj_sidecar_path [OF assms(3) that] by (simp split: sum.splits)
  then show ?thesis by (simp add: object_locked_def get_object_legal_hold_def get_object_retention_def)
qed

section \<open>Protected objects\<close>

definition due_for :: "http_lib \<Rightarrow> store \<Rightarrow> string \<Rightarrow> string \<Rightarrow> int \<Rightarrow> lifecycle_expiration \<Rightarrow> bool" where
  "due_for H st b k now ex =
     (case head_object (st_drives st) b k of
        Ok m \<Rightarrow> should_expire H ex (om_last_modified m * 10 ^ 9) now | Err _ \<Rightarrow> False)"

text \<open>The rule selects the object and finds it due.\<close>

definition rule_due :: "http_lib \<Rightarrow> store \<Rightarrow> string \<Rightarrow> string \<Rightarrow> int \<Rightarrow> lifecycle_rule \<Rightarrow> bool" where
  "rule_due H st b k now rule =
     (eq_ignore_ascii_case (lr_status rule) ''Enabled'' \<and> starts_with k (rule_prefix rule)
      \<and> (case lr_expiration rule of Some ex \<Rightarrow> due_for H st b k now ex | None \<Rightarrow> False))"

definition due :: "http_lib \<Rightarrow> store \<Rightarrow> string \<Rightarrow> string \<Rightarrow> int \<Rightarrow> bool" where
  "due H st b k now =
     (case Option.bind (get_bucket_lifecycle st b) (ht_lifecycle H) of
        Some rules \<Rightarrow> list_ex (rule_due H st b k now) rules | None \<Rightarrow> False)"

text \<open>The object lies inside the directory of another readable object.\<close>

definition nested :: "drive list \<Rightarrow> string \<Rightarrow> string \<Rightarrow> bool" where
  "nested ds b k \<longleftrightarrow> (\<exists>k'. valid_names b k' \<and> strict_prefix (obj_path b k') (obj_path b k) \<and> is_ok (read_xl ds b k'))"

text \<open>The files a pass must not touch: configuration, and everything directly in a protected directory.\<close>

definition shield :: "(string \<times> string) set \<Rightarrow> path \<Rightarrow> bool" where
  "shield Q r \<longleftrightarrow> (\<exists>b x. r = cfg_path b x) \<or> (\<exists>(b, k) \<in> Q. \<exists>x. r = obj_path b k @ [x])"

lemma shield_simps [simp]: "shield Q (cfg_path b x)" "(b, k) \<in> Q \<Longrightarrow> shield Q (obj_path b k @ [x])"
  by (auto simp: shield_def)

lemma remove_spares:
  assumes ds: "tidy ds" and names: "valid_names b k" "b \<noteq> SYS_DIR"
    and Q: "\<And>k'. (b, k') \<in> Q \<Longrightarrow> \<not> prefix (obj_path b k) (obj_path b k')"
  shows "spared (shield Q) ds (map (remove_object_dir b (r_object b k)) ds)"
proof -
  have out: "\<not> strict_prefix (obj_path b k) r" if "shield Q r" for r
  proof -
    from that consider b' x where "r = cfg_path b' x" | b' k' x where "(b', k') \<in> Q" "r = obj_path b' k' @ [x]"
      by (auto simp: shield_def)
    then show ?thesis
    proof cases
      case 1
      with names(2) show ?thesis by (simp add: obj_path_def cfg_path_def strict_prefix_def)
    next
      case 2
      show ?thesis
      proof
        assume "strict_prefix (obj_path b k) r"
        with 2(2) have "prefix (obj_path b k) (obj_path b' k')" by (auto simp: strict_prefix_def)
        moreover from this have "b' = b" by (simp add: obj_path_def)
        ultimately show False using Q 2(1) by blast
      qed
    qed
  qed
  have "shrunk d d' \<and> drive_wf d' \<and> (\<forall>r. shield Q r \<longrightarrow> same_file d d' r)"
    if "d \<in> set ds" "d' = remove_object_dir b (r_object b k) d" for d d'
    using remove_object_dir_facts [OF tidyD(1) [OF ds that(1)] names(1)] that(2) out shrunk_remove_object_dir by blast
  then show ?thesis by (simp add: spared_def list_all2_map2 list_all2_same)
qed

text \<open>A deletion in an unversioned bucket.\<close>

lemma delete_unversioned:
  assumes "vmode (st_drives st) b = Off" and "delete_object C st b k = (st', r)"
  shows "st' = st \<and> \<not> is_ok r \<or>
    st' = st\<lparr>st_drives := map (remove_object_dir b (r_object b k)) (st_drives st)\<rparr>"
  using assms by (auto simp: delete_object_def Let_def split: sum.splits)

section \<open>One page\<close>

definition fine :: "store \<Rightarrow> (string \<times> string) set \<Rightarrow> pass \<Rightarrow> bool" where
  "fine st0 Q ps \<longleftrightarrow> spared (shield Q) (st_drives st0) (st_drives (ps_store ps)) \<and> set (ps_log ps) \<inter> Q = {}"

text \<open>The bucket is unversioned and every object of \<open>Q\<close> in it is listed and not nested.\<close>

definition guarded :: "store \<Rightarrow> (string \<times> string) set \<Rightarrow> string \<Rightarrow> bool" where
  "guarded st0 Q b \<longleftrightarrow> tidy (st_drives st0) \<and> plain_comp b \<and> b \<noteq> SYS_DIR \<and> vmode (st_drives st0) b = Off
     \<and> (\<forall>k. (b, k) \<in> Q \<longrightarrow> k \<in> set (listed_keys (st_drives st0) b []) \<and> \<not> nested (st_drives st0) b k)"

lemma guarded_not_below:
  assumes g: "guarded st0 Q b" and "k \<in> set (listed_keys (st_drives st0) b pre)" and "is_ok (read_xl (st_drives st0) b k)"
    and "(b, k) \<notin> Q" and "(b, k') \<in> Q"
  shows "\<not> prefix (obj_path b k) (obj_path b k')"
proof
  assume pre: "prefix (obj_path b k) (obj_path b k')"
  from g have t: "tidy (st_drives st0)" "plain_comp b" and k': "k' \<in> set (listed_keys (st_drives st0) b [])" "\<not> nested (st_drives st0) b k'"
    using assms(5) by (auto simp: guarded_def)
  show False
  proof (cases "obj_path b k = obj_path b k'")
    case True
    with listed_path_inj [OF t assms(2) k'(1)] assms(4,5) show False by simp
  next
    case False
    with pre listed_key_names(1) [OF t assms(2)] assms(3) have "nested (st_drives st0) b k'"
      unfolding nested_def by (intro exI [of _ k]) (simp add: strict_prefix_def)
    with k'(2) show False by simp
  qed
qed

lemma expire_one_fine:
  assumes g: "guarded st0 Q b" and f: "fine st0 Q ps"
    and key: "om_key obj \<in> set (listed_keys (st_drives st0) b pre)" "is_ok (read_xl (st_drives st0) b (om_key obj))"
    and Q: "(b, om_key obj) \<in> Q \<Longrightarrow>
      object_locked H st0 b (om_key obj) now \<or> \<not> should_expire H ex (om_last_modified obj * 10 ^ 9) now"
  shows "fine st0 Q (expire_one H Cs b ex now obj ps)"
proof -
  let ?k = "om_key obj" and ?st = "ps_store ps"
  from g have t: "tidy (st_drives st0)" "plain_comp b" "b \<noteq> SYS_DIR" "vmode (st_drives st0) b = Off" by (auto simp: guarded_def)
  from f have sp: "spared (shield Q) (st_drives st0) (st_drives ?st)" by (simp add: fine_def)
  note names = listed_key_names(1) [OF t(1,2) key(1)]
  show ?thesis
  proof (cases "should_expire H ex (om_last_modified obj * 10 ^ 9) now \<and> \<not> object_locked H ?st b ?k now")
    case False
    with f show ?thesis by (auto simp: expire_one_def)
  next
    case True
    have notQ: "(b, ?k) \<notin> Q"
      using Q True spared_locked [OF t(1) sp names] by auto
    obtain st' r where del: "delete_object (in_background (Cs (ps_count ps))) ?st b ?k = (st', r)" by fastforce
    have "vmode (st_drives ?st) b = Off" using spared_cfg(1) [OF t(1) sp t(2)] t(4) by simp
    from delete_unversioned [OF this del]
    have "spared (shield Q) (st_drives ?st) (st_drives st')"
      using remove_spares [OF spared_tidy [OF sp t(1)] names t(3)] guarded_not_below [OF g key notQ]
        spared_refl [OF spared_tidy [OF sp t(1)]] by auto
    with sp have "spared (shield Q) (st_drives st0) (st_drives st')" by (rule spared_trans)
    with True f del notQ show ?thesis by (auto simp: expire_one_def fine_def)
  qed
qed

lemma expire_page_fine:
  assumes "guarded st0 Q b"
    and "\<forall>obj \<in> set objs. om_key obj \<in> set (listed_keys (st_drives st0) b pre) \<and> is_ok (read_xl (st_drives st0) b (om_key obj))
      \<and> ((b, om_key obj) \<in> Q \<longrightarrow>
          object_locked H st0 b (om_key obj) now \<or> \<not> should_expire H ex (om_last_modified obj * 10 ^ 9) now)"
    and "fine st0 Q ps"
  shows "fine st0 Q (expire_page H Cs b ex now objs ps)"
  using assms(2,3)
proof (induction objs arbitrary: ps)
  case (Cons obj objs)
  then have "fine st0 Q (expire_one H Cs b ex now obj ps)" by (intro expire_one_fine [OF assms(1)]) auto
  with Cons show ?case by (simp add: expire_page_def)
qed (simp add: expire_page_def)

section \<open>The pages of a rule\<close>

lemma page_loop_chosen:
  "set (pg_chosen (page_loop pre delim token after mx keys ch co n)) \<subseteq> set ch \<union> set keys"
  by (induction keys arbitrary: ch co n) (auto split: option.splits; fastforce)+

lemma shrunk_read_xl:
  assumes "tidy ds" and "spared P ds ds'" and "valid_names b k" and "is_ok (read_xl ds' b k)"
  shows "is_ok (read_xl ds b k)"
proof -
  let ?rel = "PathBuf False (obj_path b k @ [XL_META])"
  have "is_ok (read_xl ds b k) \<longleftrightarrow> (\<exists>d \<in> set ds. decode_xl d ?rel \<noteq> None)" for ds
    using first_some_None [of "\<lambda>d. decode_xl d ?rel" ds]
    by (cases "first_some (\<lambda>d. decode_xl d ?rel) ds")
      (simp_all add: read_xl_def read_xl_v_def obj_files [OF assms(3)] Let_def)
  note ok = this
  from assms(4) obtain i where i: "i < length ds'" "decode_xl (ds' ! i) ?rel \<noteq> None"
    unfolding ok by (auto simp: in_set_conv_nth)
  from assms(2) i(1) have l: "i < length ds" "shrunk (ds ! i) (ds' ! i)" "drive_wf (ds' ! i)"
    by (auto simp: spared_def list_all2_conv_all_nth)
  have t: "drive_wf (ds ! i)" "plain_tree (ds ! i)" using tidyD [OF assms(1) nth_mem [OF l(1)]] by simp_all
  have "decode_xl (ds ! i) ?rel \<noteq> None"
    using i(2) shrunk_look [OF l(2) t(2), of "obj_path b k @ [XL_META]"] l(2)
    by (auto simp: decode_xl_def drive_read_eq [OF l(3) obj_files(3) [OF assms(3)]]
        drive_read_eq [OF t(1) obj_files(3) [OF assms(3)]] shrunk_def same_env_def split: option.splits node.splits if_splits)
  with l(1) show ?thesis unfolding ok by auto
qed

lemma keys_from_shrunk:
  assumes "set keys' \<subseteq> set keys" and "sorted keys" "distinct keys" "sorted keys'" "distinct keys'"
  shows "length (keys_from keys' t) \<le> length (keys_from keys t)"
proof -
  have s: "set (keys_from ks t) = {k \<in> set ks. \<forall>u. t = Some u \<longrightarrow> u \<le> k}" if "sorted ks" for ks :: "string list"
  proof (cases t)
    case (Some u)
    have "set (dropWhile (\<lambda>k. k < u) ks) = {k \<in> set ks. u \<le> k}" using that
      by (induction ks) (auto simp: not_less dest: order_trans)
    with Some show ?thesis by (simp add: keys_from_def)
  qed (simp add: keys_from_def)
  have "distinct (keys_from ks t)" if "distinct ks" for ks using that by (simp add: keys_from_def split: option.splits)
  then have "length (keys_from ks t) = card (set (keys_from ks t))" if "distinct ks" for ks
    using that by (simp add: distinct_card)
  with assms s show ?thesis by (auto intro!: card_mono)
qed

lemma listed_object:
  assumes "list_objects_v2 ds b pre None token None mx = Ok l" and "obj \<in> set (ls_objects l)"
  shows "om_key obj \<in> set (listed_keys ds b pre) \<and> head_object ds b (om_key obj) = Ok obj"
proof -
  let ?pg = "page_loop pre None token None mx (listed_keys ds b pre) [] [] 0"
  from assms have "obj \<in> set (read_objects ds b (pg_chosen ?pg))"
    by (auto simp: list_objects_v2_def Let_def split: sum.splits)
  then obtain k where "k \<in> set (pg_chosen ?pg)" "obj \<in> set (case read_xl ds b k of Ok m \<Rightarrow> [meta_to_object k m] | Err _ \<Rightarrow> [])"
    unfolding read_objects_def set_concat set_map by blast
  moreover from this obtain m where "read_xl ds b k = Ok m" "obj = meta_to_object k m" by (cases "read_xl ds b k") auto
  ultimately show ?thesis using page_loop_chosen [of pre None token None mx "listed_keys ds b pre" "[]" "[]" 0]
    by (auto simp: meta_to_object_def head_object_def)
qed

lemma head_Ok: "head_object ds b k = Ok m \<Longrightarrow> is_ok (read_xl ds b k)"
  by (auto simp: head_object_def split: sum.splits)

text \<open>No object of \<open>Q\<close> that the rule selects is both due and unlocked.\<close>

definition harmless :: "http_lib \<Rightarrow> store \<Rightarrow> (string \<times> string) set \<Rightarrow> string \<Rightarrow> string \<Rightarrow> lifecycle_expiration \<Rightarrow> int \<Rightarrow> bool" where
  "harmless H st0 Q b pre ex now \<longleftrightarrow>
     (\<forall>k. (b, k) \<in> Q \<longrightarrow> object_locked H st0 b k now \<or> \<not> starts_with k pre \<or> \<not> due_for H st0 b k now ex)"

lemma page_objects:
  assumes g: "guarded st0 Q b" and f: "fine st0 Q ps" and h: "harmless H st0 Q b pre ex now"
    and l: "list_objects_v2 (st_drives (ps_store ps)) b pre None token None mx = Ok l" and obj: "obj \<in> set (ls_objects l)"
  shows "om_key obj \<in> set (listed_keys (st_drives st0) b pre) \<and> is_ok (read_xl (st_drives st0) b (om_key obj))
      \<and> ((b, om_key obj) \<in> Q \<longrightarrow>
          object_locked H st0 b (om_key obj) now \<or> \<not> should_expire H ex (om_last_modified obj * 10 ^ 9) now)"
proof -
  let ?k = "om_key obj"
  from g have t: "tidy (st_drives st0)" "plain_comp b" by (auto simp: guarded_def)
  from f have sp: "spared (shield Q) (st_drives st0) (st_drives (ps_store ps))" by (simp add: fine_def)
  from listed_object [OF l obj] have k: "?k \<in> set (listed_keys (st_drives (ps_store ps)) b pre)"
    and hd: "head_object (st_drives (ps_store ps)) b ?k = Ok obj" by auto
  from k have k0: "?k \<in> set (listed_keys (st_drives st0) b pre)"
    using listed_keys_shrunk [OF t(1) spared_tidy [OF sp t(1)] spared_shrunk [OF sp] t(2)] by blast
  note names = listed_key_names(1) [OF t k0]
  have "object_locked H st0 b ?k now \<or> \<not> should_expire H ex (om_last_modified obj * 10 ^ 9) now" if q: "(b, ?k) \<in> Q"
  proof -
    have "head_object (st_drives st0) b ?k = Ok obj"
      using hd spared_get(1) [OF t(1) sp names] q by (simp add: head_object_def)
    moreover have "starts_with ?k pre" using k0 listed_keys_prefix by blast
    ultimately show ?thesis using h q by (auto simp: harmless_def due_for_def)
  qed
  with k0 shrunk_read_xl [OF t(1) sp names head_Ok [OF hd]] show ?thesis by blast
qed

lemma page_takes:
  assumes g: "guarded st0 Q b" and f: "fine st0 Q ps"
    and l: "list_objects_v2 (st_drives (ps_store ps)) b pre None token None mx = Ok l"
  shows "set (listed_keys (st_drives (ps_store (expire_page H Cs b ex now (ls_objects l) ps))) b pre)
    \<subseteq> set (listed_keys (st_drives (ps_store ps)) b pre)"
proof -
  from g have t: "tidy (st_drives st0)" "plain_comp b" "b \<noteq> SYS_DIR" "vmode (st_drives st0) b = Off"
    by (auto simp: guarded_def)
  from f have sp: "spared (shield Q) (st_drives st0) (st_drives (ps_store ps))" by (simp add: fine_def)
  note td = spared_tidy [OF sp t(1)]
  have g': "guarded (ps_store ps) {} b"
    using td t spared_cfg(1) [OF t(1) sp t(2)] by (simp add: guarded_def)
  have "fine (ps_store ps) {} (expire_page H Cs b ex now (ls_objects l) ps)"
    by (rule expire_page_fine [OF g', where pre = pre])
      (auto simp: fine_def spared_refl [OF td] dest: listed_object [OF l] intro: head_Ok)
  then have "spared (shield {}) (st_drives (ps_store ps)) (st_drives (ps_store (expire_page H Cs b ex now (ls_objects l) ps)))"
    by (simp add: fine_def)
  from listed_keys_shrunk [OF td spared_tidy [OF this td] spared_shrunk [OF this] t(2)] show ?thesis .
qed

lemma expire_objects_fine:
  assumes g: "guarded st0 Q b" and h: "harmless H st0 Q b pre ex now" and f: "fine st0 Q ps"
  shows "\<exists>ps'. expire_objects H Cs b pre ex now token ps = Some ps' \<and> fine st0 Q ps'"
  using f
proof (induction "length (keys_from (listed_keys (st_drives (ps_store ps)) b pre) token)" arbitrary: token ps
    rule: less_induct)
  case less
  let ?ds = "st_drives (ps_store ps)"
  let ?keys = "listed_keys ?ds b pre"
  from g have t: "tidy (st_drives st0)" "plain_comp b" by (auto simp: guarded_def)
  have td: "tidy (st_drives (ps_store q))" if "fine st0 Q q" for q
    using that spared_tidy t(1) by (auto simp: fine_def)
  show ?case
  proof (cases "list_objects_v2 ?ds b pre None token None 1000")
    case (Inl e)
    with less.prems show ?thesis by (subst expire_objects.simps) simp
  next
    case (Inr l)
    define ps1 where "ps1 = expire_page H Cs b ex now (ls_objects l) ps"
    have f1: "fine st0 Q ps1"
      unfolding ps1_def using page_objects [OF g less.prems h Inr] by (intro expire_page_fine [OF g _ less.prems]) blast
    show ?thesis
    proof (cases "ls_is_truncated l")
      case False
      with Inr f1 show ?thesis by (subst expire_objects.simps) (simp add: ps1_def)
    next
      case True
      let ?pg = "page_loop pre None token None 1000 ?keys [] [] 0"
      from Inr have l: "ls_is_truncated l = pg_truncated ?pg" "ls_next_continuation_token l = pg_next ?pg"
        by (auto simp: list_objects_v2_def Let_def split: sum.splits)
      with True obtain u where u: "pg_next ?pg = Some u" using page_loop_next by blast
      have able: "listable pre 1000 ?keys"
        using sorted_listed_keys distinct_listed_keys [OF td [OF less.prems] t(2)]
        by (auto simp: listable_def listed_keys_def)
      have "listing_page pre None None 1000 ?keys token = ((pg_chosen ?pg, pg_common ?pg), Some u)"
        using True l(1) u by (simp add: listing_page_def Let_def)
      with listing_page_cases(2) [OF able] have
        dec: "length (keys_from ?keys (Some u)) < length (keys_from ?keys token)" by blast
      have sub: "set (listed_keys (st_drives (ps_store ps1)) b pre) \<subseteq> set ?keys"
        unfolding ps1_def by (rule page_takes [OF g less.prems Inr])
      have "length (keys_from (listed_keys (st_drives (ps_store ps1)) b pre) (Some u)) \<le> length (keys_from ?keys (Some u))"
        using distinct_listed_keys [OF td [OF less.prems] t(2)] distinct_listed_keys [OF td [OF f1] t(2)]
        by (intro keys_from_shrunk [OF sub sorted_listed_keys _ sorted_listed_keys]) auto
      with dec obtain ps' where "expire_objects H Cs b pre ex now (Some u) ps1 = Some ps'" "fine st0 Q ps'"
        using less.hyps [OF _ f1, of "Some u"] by auto
      with Inr True l(2) u show ?thesis by (subst expire_objects.simps) (simp add: ps1_def)
    qed
  qed
qed

section \<open>The whole pass\<close>

lemma expire_rules_fine:
  assumes g: "guarded st0 Q b" and f: "fine st0 Q ps"
    and "\<forall>k. (b, k) \<in> Q \<longrightarrow> object_locked H st0 b k now \<or> \<not> list_ex (rule_due H st0 b k now) rules"
  shows "\<exists>ps'. expire_rules H Cs b now rules ps = Some ps' \<and> fine st0 Q ps'"
  using f assms(3)
proof (induction rules arbitrary: ps)
  case (Cons rule rules)
  show ?case
  proof (cases "eq_ignore_ascii_case (lr_status rule) ''Enabled'' \<and> lr_expiration rule \<noteq> None")
    case False
    with Cons show ?thesis by (cases "lr_expiration rule") auto
  next
    case True
    then obtain ex where ex: "lr_expiration rule = Some ex" by blast
    have "harmless H st0 Q b (rule_prefix rule) ex now"
      unfolding harmless_def
    proof (intro allI impI)
      fix k assume q: "(b, k) \<in> Q"
      with Cons.prems(2) have "object_locked H st0 b k now \<or> \<not> list_ex (rule_due H st0 b k now) (rule # rules)" by blast
      with True ex show "object_locked H st0 b k now \<or> \<not> starts_with k (rule_prefix rule) \<or> \<not> due_for H st0 b k now ex"
        by (auto simp: rule_due_def)
    qed
    from expire_objects_fine [OF g this Cons.prems(1)] obtain ps1 where
      "expire_objects H Cs b (rule_prefix rule) ex now None ps = Some ps1" "fine st0 Q ps1" by blast
    with True ex Cons.IH [of ps1] Cons.prems(2) show ?thesis by auto
  qed
qed simp

lemma expire_bucket_fine:
  assumes g: "guarded st0 Q b" and f: "fine st0 Q ps"
    and "\<forall>k. (b, k) \<in> Q \<longrightarrow> object_locked H st0 b k now \<or> \<not> due H st0 b k now"
  shows "\<exists>ps'. expire_bucket H Cs now b ps = Some ps' \<and> fine st0 Q ps'"
proof -
  from g have t: "tidy (st_drives st0)" "plain_comp b" by (auto simp: guarded_def)
  from f have sp: "spared (shield Q) (st_drives st0) (st_drives (ps_store ps))" by (simp add: fine_def)
  have cfg: "get_bucket_lifecycle (ps_store ps) b = get_bucket_lifecycle st0 b"
    using spared_cfg(2) [OF t(1) sp t(2)] by simp
  show ?thesis
  proof (cases "Option.bind (get_bucket_lifecycle st0 b) (ht_lifecycle H)")
    case None
    with f show ?thesis by (auto simp: expire_bucket_def cfg split: option.splits)
  next
    case (Some rules)
    then have "expire_bucket H Cs now b ps = expire_rules H Cs b now rules ps"
      by (auto simp: expire_bucket_def cfg Option.bind_eq_Some_conv)
    moreover have "\<forall>k. (b, k) \<in> Q \<longrightarrow> object_locked H st0 b k now \<or> \<not> list_ex (rule_due H st0 b k now) rules"
      using assms(3) Some by (auto simp: due_def)
    ultimately show ?thesis using expire_rules_fine [OF g f] by metis
  qed
qed

lemma expire_buckets_fine:
  assumes "\<forall>b \<in> set bs. guarded st0 Q b \<and> (\<forall>k. (b, k) \<in> Q \<longrightarrow> object_locked H st0 b k (clock b) \<or> \<not> due H st0 b k (clock b))"
    and "fine st0 Q ps"
  shows "\<exists>ps'. expire_buckets H Cs clock bs ps = Some ps' \<and> fine st0 Q ps'"
  using assms
proof (induction bs arbitrary: ps)
  case (Cons b bs)
  then obtain ps1 where "expire_bucket H Cs (clock b) b ps = Some ps1" "fine st0 Q ps1"
    using expire_bucket_fine [of st0 Q b ps H "clock b" Cs] by auto
  with Cons show ?case by auto
qed simp

lemma listed_bucket_plain:
  assumes "tidy ds" and "list_buckets ds = Ok bs" and "b \<in> set bs"
  shows "plain_comp b \<and> b \<noteq> SYS_DIR"
proof -
  from assms(2) obtain entries where e: "first_some (\<lambda>d. drive_read_dir d (path_new [])) ds = Some entries"
    "bs = sort (map de_name (filter (\<lambda>e. \<not> (de_name e = SYS_DIR \<or> \<not> de_is_dir e)) entries))"
    by (auto simp: list_buckets_def split: option.splits)
  from e(2) assms(3) obtain en where en: "en \<in> set entries" "de_name en = b" "b \<noteq> SYS_DIR" by auto
  from e(1) obtain d where d: "d \<in> set ds" "drive_read_dir d (path_new []) = Some entries"
    by (induction ds) (auto split: option.splits)
  obtain p where "entries = map (\<lambda>(q, n). \<lparr> de_name = last q, de_is_dir = (n = Dir) \<rparr>)
            (filter (\<lambda>(q, n). q \<noteq> [] \<and> butlast q = p) (drv_fs d))"
    using d(2) by (auto simp: drive_read_dir_def split: option.splits prod.splits node.splits)
  with en(1,2) obtain q n where q: "(q, n) \<in> set (drv_fs d)" "q \<noteq> []" "b = last q" by auto
  have "plain_path q" by (rule plain_tree_path [OF tidyD(2) [OF assms(1) d(1)] q(1)])
  with q(2,3) en(3) show ?thesis by (auto simp: plain_path_def list_all_iff)
qed

end
