(* ===== verification/Lifecycle_Progress.thy ===== *)
theory Lifecycle_Progress
  imports Lifecycle_Facts
begin

text \<open>
  On drives that fail nothing a lifecycle pass reaches every object that is due and not locked: each
  page handles its keys, and the next page starts where it stopped.
\<close>

section \<open>Presence\<close>

definition readable :: "drive list \<Rightarrow> string \<Rightarrow> string \<Rightarrow> bool" where
  "readable ds b k = is_ok (read_xl ds b k)"

text \<open>Drives without failures, an unversioned bucket, and a target in it.\<close>

definition ready :: "string \<Rightarrow> string \<Rightarrow> drive list \<Rightarrow> bool" where
  "ready b k ds \<longleftrightarrow> tidy ds \<and> list_all healthy ds \<and> valid_names b k \<and> b \<noteq> SYS_DIR \<and> vmode ds b = Off"

lemma readyD:
  assumes "ready b k ds"
  shows "tidy ds" "\<forall>d \<in> set ds. healthy d" "valid_names b k" "plain_comp b" "b \<noteq> SYS_DIR" "vmode ds b = Off"
  using assms by (auto simp: ready_def list_all_iff valid_names_def)

lemma ready_spared: "ready b k ds \<Longrightarrow> spared (shield Q) ds ds' \<Longrightarrow> ready b k ds'"
proof -
  assume r: "ready b k ds" and s: "spared (shield Q) ds ds'"
  have "vmode ds' b = vmode ds b"
    using spared_cfg(1) [of "\<lparr> st_drives = ds, st_codec = c, st_block_size = n, st_encrypt_all = e \<rparr>" "shield Q"
        "\<lparr> st_drives = ds', st_codec = c, st_block_size = n, st_encrypt_all = e \<rparr>" for c n e, simplified, OF readyD(1) [OF r] s readyD(4) [OF r]] .
  moreover have "list_all healthy ds'"
    using spared_shrunk [OF s] readyD(2) [OF r] unfolding list_all_length list_all2_conv_all_nth shrunk_def
    by (metis healthy_env nth_mem)
  ultimately show ?thesis using r spared_tidy [OF s] by (simp add: ready_def)
qed

lemma readable_file:
  assumes "ready b k ds"
  shows "readable ds b k \<longleftrightarrow> (\<exists>d \<in> set ds. \<exists>c. look d (obj_path b k @ [XL_META]) = Some (File c) \<and> as_xl c \<noteq> None)"
proof -
  let ?rel = "PathBuf False (obj_path b k @ [XL_META])"
  note r = readyD [OF assms]
  have "readable ds b k \<longleftrightarrow> (\<exists>d \<in> set ds. decode_xl d ?rel \<noteq> None)"
    using first_some_None [of "\<lambda>d. decode_xl d ?rel" ds]
    by (cases "first_some (\<lambda>d. decode_xl d ?rel) ds")
      (simp_all add: readable_def read_xl_def read_xl_v_def obj_files [OF r(3)] Let_def)
  moreover have "decode_xl d ?rel \<noteq> None \<longleftrightarrow> (\<exists>c. look d (obj_path b k @ [XL_META]) = Some (File c) \<and> as_xl c \<noteq> None)"
    if "d \<in> set ds" for d
    using tidyD(1) [OF r(1) that] r(2) that
    by (auto simp: decode_xl_def drive_read_eq [OF _ obj_files(3) [OF r(3)]] healthy_def split: option.splits node.splits)
  ultimately show ?thesis by blast
qed

lemma readable_bucket:
  assumes "ready b k ds" and "readable ds b k"
  shows "head_bucket ds b = Ok ()"
proof -
  note r = readyD [OF assms(1)]
  from assms readable_file obtain d c where d: "d \<in> set ds" "look d (obj_path b k @ [XL_META]) = Some (File c)" by blast
  have "strict_prefix [b] (obj_path b k @ [XL_META])" by (auto simp: obj_path_def strict_prefix_def)
  then have "look d [b] = Some Dir" using look_prefix [OF tidyD(1) [OF r(1) d(1)]] d(2) by blast
  moreover have "safe [b]" using r(4) by (simp add: plain_comp_def)
  ultimately have "drive_stat d (r_bucket b) = Some True"
    using tidyD(1) [OF r(1) d(1)] r(2,4) d(1) by (simp add: drive_stat_eq r_bucket_plain healthy_def)
  with d(1) show ?thesis by (auto simp: head_bucket_def list_ex_iff)
qed

text \<open>A deletion spares the target or removes it.\<close>

lemma delete_target:
  assumes rd: "ready b k (st_drives st)" and names: "valid_names b k'"
    and del: "delete_object C st b k' = (st', r)"
  shows "ready b k (st_drives st')"
    and "readable (st_drives st') b k \<Longrightarrow> spared (shield {(b, k)}) (st_drives st) (st_drives st')"
    and "k' = k \<Longrightarrow> \<not> readable (st_drives st') b k"
proof -
  note r = readyD [OF rd]
  let ?ds' = "map (remove_object_dir b (r_object b k')) (st_drives st)"
  from delete_unversioned [OF r(6) del] consider "st' = st" | "st_drives st' = ?ds'" by auto
  note cases = this
  have gen: "spared (shield {}) (st_drives st) ?ds'" by (rule remove_spares [OF r(1) names r(5)]) simp
  from cases show rdy: "ready b k (st_drives st')"
    by cases (use rd ready_spared [OF rd gen] in simp_all)
  have gone: "\<not> readable ?ds' b k" if pre: "prefix (obj_path b k') (obj_path b k)"
  proof -
    have "look (remove_object_dir b (r_object b k') d) (obj_path b k @ [XL_META]) = None" if "d \<in> set (st_drives st)" for d
    proof (rule remove_object_dir_gone [OF tidyD(1) [OF r(1) that] names])
      show "\<not> drv_fault d OpRemoveDirAll (r_object b k')" using r(2) that by (simp add: healthy_def)
      show "strict_prefix (obj_path b k') (obj_path b k @ [XL_META])" using pre by (auto simp: strict_prefix_def)
    qed
    with readable_file [OF ready_spared [OF rd gen]] show ?thesis by auto
  qed
  show "spared (shield {(b, k)}) (st_drives st) (st_drives st')" if "readable (st_drives st') b k"
    using cases
  proof cases
    case 2
    with gone that show ?thesis by (auto intro: remove_spares [OF r(1) names r(5)])
  qed (simp add: spared_refl [OF r(1)])
  show "\<not> readable (st_drives st') b k" if "k' = k"
  proof (cases "readable (st_drives st) b k")
    case True
    with readable_bucket [OF rd] del r(6) have "st_drives st' = ?ds'" by (auto simp: delete_object_def)
    with gone that show ?thesis by simp
  next
    case False
    from cases show ?thesis by cases (use False gone that in simp_all)
  qed
qed

section \<open>The target under a pass\<close>

text \<open>As long as it is there, the target is the object \<open>m\<close> and is not locked.\<close>

definition exposed :: "http_lib \<Rightarrow> string \<Rightarrow> string \<Rightarrow> object_meta \<Rightarrow> int \<Rightarrow> store \<Rightarrow> bool" where
  "exposed H b k m now st \<longleftrightarrow> ready b k (st_drives st)
     \<and> (readable (st_drives st) b k \<longrightarrow> head_object (st_drives st) b k = Ok m \<and> \<not> object_locked H st b k now)"

lemma expire_one_exposed:
  assumes e: "exposed H b k m now (ps_store ps)" and names: "valid_names b (om_key obj)"
  shows "exposed H b k m now (ps_store (expire_one H Cs b ex now obj ps))"
    and "\<not> readable (st_drives (ps_store ps)) b k \<Longrightarrow> \<not> readable (st_drives (ps_store (expire_one H Cs b ex now obj ps))) b k"
    and "om_key obj = k \<Longrightarrow> should_expire H ex (om_last_modified obj * 10 ^ 9) now \<Longrightarrow>
      \<not> readable (st_drives (ps_store (expire_one H Cs b ex now obj ps))) b k \<or>
      object_locked H (ps_store ps) b k now"
proof -
  let ?st = "ps_store ps"
  from e have rd: "ready b k (st_drives ?st)" by (simp add: exposed_def)
  obtain st' r where del: "delete_object (in_background (Cs (ps_count ps))) ?st b (om_key obj) = (st', r)" by fastforce
  note d = delete_target [OF rd names del]
  have st: "ps_store (expire_one H Cs b ex now obj ps) =
      (if should_expire H ex (om_last_modified obj * 10 ^ 9) now \<and> \<not> object_locked H ?st b (om_key obj) now then st' else ?st)"
    using del by (simp add: expire_one_def)
  have keep: "head_object (st_drives st') b k = head_object (st_drives ?st) b k"
    "object_locked H st' b k now = object_locked H ?st b k now" if "readable (st_drives st') b k"
    using spared_get(1) [OF readyD(1) [OF rd] d(2) [OF that] readyD(3) [OF rd]]
      spared_locked [OF readyD(1) [OF rd] d(2) [OF that] readyD(3) [OF rd]] by (simp_all add: head_object_def)
  have was: "readable (st_drives ?st) b k" if "readable (st_drives st') b k"
    using spared_get(1) [OF readyD(1) [OF rd] d(2) [OF that] readyD(3) [OF rd]] that by (simp add: readable_def)
  show "exposed H b k m now (ps_store (expire_one H Cs b ex now obj ps))"
    using e d(1) keep was by (auto simp: st exposed_def)
  show "\<not> readable (st_drives ?st) b k \<Longrightarrow> \<not> readable (st_drives (ps_store (expire_one H Cs b ex now obj ps))) b k"
    using was by (auto simp: st)
  show "om_key obj = k \<Longrightarrow> should_expire H ex (om_last_modified obj * 10 ^ 9) now \<Longrightarrow>
      \<not> readable (st_drives (ps_store (expire_one H Cs b ex now obj ps))) b k \<or> object_locked H ?st b k now"
    using d(3) by (auto simp: st)
qed

lemma expire_page_exposed:
  assumes "exposed H b k m now (ps_store ps)" and "\<forall>obj \<in> set objs. valid_names b (om_key obj)"
  shows "exposed H b k m now (ps_store (expire_page H Cs b ex now objs ps))
    \<and> (\<not> readable (st_drives (ps_store ps)) b k \<or> m \<in> set objs \<and> om_key m = k \<and> should_expire H ex (om_last_modified m * 10 ^ 9) now \<longrightarrow>
       \<not> readable (st_drives (ps_store (expire_page H Cs b ex now objs ps))) b k)"
  using assms
proof (induction objs arbitrary: ps)
  case (Cons obj objs)
  let ?p = "expire_one H Cs b ex now obj ps"
  have n: "valid_names b (om_key obj)" using Cons.prems(2) by simp
  note one = expire_one_exposed [OF Cons.prems(1) n, where Cs = Cs and ex = ex]
  have gone: "\<not> readable (st_drives (ps_store ?p)) b k"
    if "\<not> readable (st_drives (ps_store ps)) b k \<or> obj = m \<and> om_key m = k \<and> should_expire H ex (om_last_modified m * 10 ^ 9) now"
    using that one(2,3) Cons.prems(1) by (auto simp: exposed_def)
  from Cons.IH [OF one(1)] Cons.prems(2) gone show ?case by (auto simp: expire_page_def)
qed (simp add: expire_page_def)

section \<open>The pages of a rule\<close>

text \<open>A readable object with a canonical key is listed.\<close>

lemma readable_listed:
  assumes rd: "ready b k ds" and rb: "readable ds b k" and canon: "join_with ''/'' (components k) = k" "''.v'' \<notin> set (components k)"
  shows "k \<in> set (listed_keys ds b [])"
proof -
  note r = readyD [OF rd]
  from rb readable_file [OF rd] obtain d c where d: "d \<in> set ds" "look d (obj_path b k @ [XL_META]) = Some (File c)" by blast
  note wf = tidyD(1) [OF r(1) d(1)]
  let ?q = "drv_root d @ obj_path b k @ [XL_META]"
  let ?e = "\<lparr> wk_rel = components k @ [XL_META], wk_is_file = True \<rparr>"
  have "safe [b]" using r(4) by (simp add: plain_comp_def)
  then have "locate d (r_bucket b) = Some (drv_root d @ [b])" using wf r(4) by (simp add: r_bucket_plain)
  moreover have "(?q, File c) \<in> set (drv_fs d)"
    using d(2) by (auto simp: look_def lookup_def dest: map_of_SomeD)
  moreover have "strict_prefix (drv_root d @ [b]) ?q" "drop (length (drv_root d @ [b])) ?q = components k @ [XL_META]"
    by (auto simp: obj_path_def strict_prefix_def)
  ultimately have "\<exists>es. drive_walk d (r_bucket b) = Some es \<and> ?e \<in> set es"
    using r(2) d(1) by (force simp: drive_walk_def healthy_def)
  with d(1) have "?e \<in> set (walk_union ds b)" unfolding set_walk_union by blast
  then have "k \<in> set (entry_keys (walk_union ds b))"
    unfolding entry_keys_iff using canon by (intro bexI [of _ ?e]) (simp_all add: key_dir_def)
  moreover have "k \<noteq> []" using r(3) by (auto simp: valid_names_def components_def)
  ultimately show ?thesis by (simp add: listed_keys_def)
qed

text \<open>The keys from a token on are those of the page and those from the next token on.\<close>

lemma page_splits:
  assumes "tidy ds" and "plain_comp b" and "list_objects_v2 ds b pre None token None 1000 = Ok l"
    and "k \<in> set (keys_from (listed_keys ds b pre) token)" and "head_object ds b k = Ok m"
  shows "m \<in> set (ls_objects l) \<or>
    ls_is_truncated l \<and> (\<exists>u. ls_next_continuation_token l = Some u \<and> u \<le> k)"
proof -
  let ?keys = "listed_keys ds b pre"
  let ?pg = "page_loop pre None token None 1000 ?keys [] [] 0"
  have l: "ls_objects l = read_objects ds b (pg_chosen ?pg)" "ls_is_truncated l = pg_truncated ?pg"
    "ls_next_continuation_token l = pg_next ?pg"
    using assms(3) by (auto simp: list_objects_v2_def Let_def split: sum.splits)
  have able: "listable pre 1000 ?keys"
    using sorted_listed_keys distinct_listed_keys [OF assms(1,2)] by (auto simp: listable_def listed_keys_def)
  have all: "fst (full_loop pre None None ks co) = ks" for ks co
    by (simp add: full_loop_spec(1) skipped_def common_prefix_def)
  have in_page: "m \<in> set (ls_objects l)" if "k \<in> set (pg_chosen ?pg)"
  proof -
    obtain x where "read_xl ds b k = Ok x" "m = meta_to_object k x"
      using assms(5) by (cases "read_xl ds b k") (auto simp: head_object_def)
    with that show ?thesis by (auto simp: l(1) read_objects_def intro: bexI [of _ k])
  qed
  show ?thesis
  proof (cases "pg_truncated ?pg")
    case False
    then have "listing_page pre None None 1000 ?keys token = ((pg_chosen ?pg, pg_common ?pg), None)"
      by (simp add: listing_page_def Let_def)
    from listing_page_cases(1) [OF able this] have "keys_from ?keys token = pg_chosen ?pg"
      by (metis all fst_conv)
    with assms(4) in_page show ?thesis by simp
  next
    case True
    then obtain u where u: "pg_next ?pg = Some u" using page_loop_next by blast
    with True have "listing_page pre None None 1000 ?keys token = ((pg_chosen ?pg, pg_common ?pg), Some u)"
      by (simp add: listing_page_def Let_def)
    from listing_page_cases(2) [OF able this] have "keys_from ?keys token = pg_chosen ?pg @ keys_from ?keys (Some u)"
      by (metis all fst_conv)
    with assms(4) consider "k \<in> set (pg_chosen ?pg)" | "k \<in> set (keys_from ?keys (Some u))" by auto
    then show ?thesis
    proof cases
      case 2
      then have "\<not> k < u" by (intro sorted_dropWhile_ge [OF sorted_listed_keys]) (simp add: keys_from_def)
      then have "u \<le> k" by (simp only: not_less)
      with True u show ?thesis by (simp add: l)
    qed (use in_page in simp)
  qed
qed

lemma keys_from_ge: "sorted keys \<Longrightarrow> k \<in> set keys \<Longrightarrow> (\<forall>u. t = Some u \<longrightarrow> u \<le> k) \<Longrightarrow> k \<in> set (keys_from keys t)"
proof (cases t)
  case (Some u)
  assume a: "sorted keys" "k \<in> set keys" "\<forall>v. t = Some v \<longrightarrow> v \<le> k"
  have "k \<in> set (dropWhile (\<lambda>k. k < u) keys)" using a(2) a(3) [rule_format, OF Some]
  proof (induction keys)
    case (Cons x xs)
    then show ?case by (cases "x < u") (auto simp: not_less [symmetric])
  qed simp
  with Some show ?thesis by (simp add: keys_from_def)
qed (simp add: keys_from_def)

text \<open>The target of a rule: canonical, selected by the prefix and due.\<close>

definition target :: "http_lib \<Rightarrow> string \<Rightarrow> object_meta \<Rightarrow> int \<Rightarrow> string \<Rightarrow> lifecycle_expiration \<Rightarrow> bool" where
  "target H k m now pre ex \<longleftrightarrow> om_key m = k \<and> join_with ''/'' (components k) = k \<and> ''.v'' \<notin> set (components k)
     \<and> starts_with k pre \<and> should_expire H ex (om_last_modified m * 10 ^ 9) now"

lemmas expire_objects_run = expire_objects.raw_induct [rotated, consumes 1, case_names step]

lemma expire_objects_exposed:
  assumes "expire_objects H Cs b pre ex now token ps = Some ps'" and "exposed H b k m now (ps_store ps)"
  shows "exposed H b k m now (ps_store ps')
    \<and> (\<not> readable (st_drives (ps_store ps)) b k \<longrightarrow> \<not> readable (st_drives (ps_store ps')) b k)
    \<and> (target H k m now pre ex \<and> (\<forall>u. token = Some u \<longrightarrow> u \<le> k) \<longrightarrow> \<not> readable (st_drives (ps_store ps')) b k)"
  using assms
proof (induction rule: expire_objects_run)
  case (step rec H Cs b pre ex now token ps ps')
  let ?ds = "st_drives (ps_store ps)"
  from step.prems have rd: "ready b k ?ds" by (simp add: exposed_def)
  note r = readyD [OF rd]
  show ?case
  proof (cases "list_objects_v2 ?ds b pre None token None 1000")
    case (Inl e)
    then have "\<not> readable ?ds b k" using readable_bucket [OF rd] by (auto simp: list_objects_v2_def Let_def)
    with step.hyps step.prems Inl show ?thesis by simp
  next
    case (Inr l)
    define ps1 where "ps1 = expire_page H Cs b ex now (ls_objects l) ps"
    have "\<forall>obj \<in> set (ls_objects l). valid_names b (om_key obj)"
      using listed_object [OF Inr] listed_key_names(1) [OF r(1,4)] by blast
    note page = expire_page_exposed [OF step.prems this, where Cs = Cs and ex = ex, folded ps1_def]
    have more: "\<not> readable (st_drives (ps_store ps1)) b k \<or> ls_is_truncated l \<and> (\<forall>u. ls_next_continuation_token l = Some u \<longrightarrow> u \<le> k)"
      if t: "target H k m now pre ex" "\<forall>u. token = Some u \<longrightarrow> u \<le> k"
    proof (cases "readable ?ds b k")
      case True
      with step.prems have hd: "head_object ?ds b k = Ok m" by (simp add: exposed_def)
      have "k \<in> set (listed_keys ?ds b pre)"
        using readable_listed [OF rd True] t(1) unfolding target_def listed_keys_prefix [of k ?ds b pre] by blast
      from page_splits [OF r(1,4) Inr keys_from_ge [OF sorted_listed_keys this t(2)] hd]
      show ?thesis using page t(1) unfolding target_def by (metis option.inject)
    qed (use page in blast)
    show ?thesis
    proof (cases "ls_is_truncated l")
      case False
      with step.hyps Inr have "ps' = ps1" by (simp add: ps1_def)
      with False page more show ?thesis by blast
    next
      case True
      with step.hyps Inr have "rec H Cs b pre ex now (ls_next_continuation_token l) ps1 = Some ps'" by (simp add: ps1_def)
      from step.IH [OF this] page more show ?thesis by blast
    qed
  qed
qed

section \<open>Rules and buckets\<close>

lemma expire_rules_exposed:
  assumes "expire_rules H Cs b now rules ps = Some ps'" and "exposed H b k m now (ps_store ps)"
  shows "exposed H b k m now (ps_store ps')
    \<and> (\<not> readable (st_drives (ps_store ps)) b k \<or>
        (\<exists>rule \<in> set rules. eq_ignore_ascii_case (lr_status rule) ''Enabled''
           \<and> (\<exists>ex. lr_expiration rule = Some ex \<and> target H k m now (rule_prefix rule) ex))
       \<longrightarrow> \<not> readable (st_drives (ps_store ps')) b k)"
  using assms
proof (induction rules arbitrary: ps)
  case (Cons rule rules)
  show ?case
  proof (cases "eq_ignore_ascii_case (lr_status rule) ''Enabled'' \<and> lr_expiration rule \<noteq> None")
    case False
    then have "expire_rules H Cs b now rules ps = Some ps'" using Cons.prems(1) by (auto split: option.splits if_splits)
    from Cons.IH [OF this Cons.prems(2)] False show ?thesis by auto
  next
    case True
    then obtain ex where ex: "lr_expiration rule = Some ex" by blast
    with True Cons.prems(1) obtain ps1 where "expire_objects H Cs b (rule_prefix rule) ex now None ps = Some ps1"
      and rest: "expire_rules H Cs b now rules ps1 = Some ps'" by (auto simp: Option.bind_eq_Some_conv)
    from expire_objects_exposed [OF this(1) Cons.prems(2)] Cons.IH [OF rest] ex show ?thesis by auto
  qed
qed simp

lemma expire_bucket_removes:
  assumes run: "expire_bucket H Cs now b ps = Some ps'" and ex: "exposed H b k m now (ps_store ps)"
    and canon: "om_key m = k" "join_with ''/'' (components k) = k" "''.v'' \<notin> set (components k)"
    and due: "head_object (st_drives (ps_store ps)) b k = Ok m \<Longrightarrow> due H (ps_store ps) b k now"
  shows "\<not> readable (st_drives (ps_store ps')) b k"
proof (cases "readable (st_drives (ps_store ps)) b k")
  case True
  with ex have hd: "head_object (st_drives (ps_store ps)) b k = Ok m" by (simp add: exposed_def)
  from due [OF hd] obtain raw rules rule where cfg: "get_bucket_lifecycle (ps_store ps) b = Some raw" "ht_lifecycle H raw = Some rules"
    and rule: "rule \<in> set rules" "rule_due H (ps_store ps) b k now rule"
    by (auto simp: due_def list_ex_iff split: option.splits bind_splits)
  from rule(2) hd obtain e where "lr_expiration rule = Some e" "eq_ignore_ascii_case (lr_status rule) ''Enabled''"
    "target H k m now (rule_prefix rule) e"
    using canon by (auto simp: rule_due_def due_for_def target_def split: option.splits)
  moreover have "expire_rules H Cs b now rules ps = Some ps'" using run cfg by (simp add: expire_bucket_def)
  ultimately show ?thesis using expire_rules_exposed [OF _ ex] rule(1) by blast
next
  case False
  show ?thesis
  proof (cases "Option.bind (get_bucket_lifecycle (ps_store ps) b) (ht_lifecycle H)")
    case None
    with run have "ps' = ps" by (auto simp: expire_bucket_def split: option.splits)
    with False show ?thesis by simp
  next
    case (Some rules)
    with run have "expire_rules H Cs b now rules ps = Some ps'"
      by (auto simp: expire_bucket_def Option.bind_eq_Some_conv)
    from expire_rules_exposed [OF this ex] False show ?thesis by blast
  qed
qed

lemma expire_buckets_append:
  "expire_buckets H Cs clock (bs @ cs) ps = Option.bind (expire_buckets H Cs clock bs ps) (expire_buckets H Cs clock cs)"
  by (induction bs arbitrary: ps) (simp_all split: bind_splits)

text \<open>Buckets without a protected object.\<close>

lemma guarded_free:
  assumes "tidy (st_drives st)" and "list_buckets (st_drives st) = Ok bs" and "b \<in> set bs"
    and "vmode (st_drives st) b = Off" and "\<forall>(c, k) \<in> Q. c \<noteq> b"
  shows "guarded st Q b"
  using assms listed_bucket_plain [OF assms(1-3)] by (auto simp: guarded_def)

lemma guarded_later:
  assumes "guarded st {} b" and "spared (shield Q) (st_drives st) (st_drives st')"
  shows "guarded st' {} b"
  using assms spared_tidy [OF assms(2)] spared_cfg(1) [OF _ assms(2), of b] by (auto simp: guarded_def)

end
