(* ===== verification/Lifecycle_Props.thy ===== *)
theory Lifecycle_Props
  imports Lifecycle_Progress Store_Instances
begin

text \<open>The properties of a lifecycle pass: what it leaves alone, and what it removes.\<close>

section \<open>A store with a held object and an expired one\<close>

definition ex_meta :: xl_meta where
  "ex_meta = \<lparr> xm_version = 1, xm_data = 1, xm_parity = 1, xm_block_size = 4, xm_stored_size = 0, xm_size = 0,
     xm_etag = ''e'', xm_content_type = ''text/plain'', xm_user_metadata = [], xm_encrypted = False,
     xm_last_modified = 0, xm_owner = None, xm_src_ip = None, xm_checksums = [[]] \<rparr>"

definition ex_aged_drive :: "string \<Rightarrow> drive" where
  "ex_aged_drive name = drive_new [name]
     [([name], Dir), ([name, SYS_DIR], Dir), ([name, SYS_DIR, ''buckets''], Dir),
      ([name, SYS_DIR, ''buckets'', ''bkt''], Dir),
      ([name, SYS_DIR, ''buckets'', ''bkt'', ''lifecycle.xml''], File (TextDoc ''rule'')),
      ([name, ''bkt''], Dir), ([name, ''bkt'', ''held''], Dir),
      ([name, ''bkt'', ''held'', XL_META], File (XlDoc ex_meta)),
      ([name, ''bkt'', ''held'', ''legalhold.json''], File (StatusDoc ''ON'')),
      ([name, ''bkt'', ''old''], Dir), ([name, ''bkt'', ''old'', XL_META], File (XlDoc ex_meta))]"

definition ex_aged :: store where
  "ex_aged = \<lparr> st_drives = map ex_aged_drive [''d0'', ''d1''], st_codec = \<lparr> cd_data = 1, cd_parity = 1 \<rparr>,
     st_block_size = 4, st_encrypt_all = False \<rparr>"

definition ex_http :: http_lib where
  "ex_http = \<lparr> ht_pct_decode = id, ht_pct_key = id, ht_pct_alnum = id, ht_utf8_lossy = bytes_str, ht_header_name = Some,
     ht_header_failure = (500, []), ht_http_date = (\<lambda>t. ''date''), ht_rfc3339 = (\<lambda>s. None), ht_tagging = (\<lambda>b. None),
     ht_retention = (\<lambda>b. None), ht_retention_xml = (\<lambda>r. []), ht_legal_hold = (\<lambda>b. Some (bytes_str b)), ht_complete = (\<lambda>b. None),
     ht_delete = (\<lambda>b. Some \<lparr> dq_objects = [bytes_str b], dq_quiet = False \<rparr>), ht_sse = (\<lambda>b. None), ht_versioning = (\<lambda>b. None),
     ht_lifecycle = (\<lambda>s. Some [\<lparr> lr_status = ''Enabled'', lr_filter_prefix = None,
        lr_expiration = Some \<lparr> lx_days = Some 30, lx_date = None \<rparr> \<rparr>]),
     ht_form = (\<lambda>ct b. None), ht_field_text = (\<lambda>b. None) \<rparr>"

text \<open>A hundred days later.\<close>

definition ex_clock :: "string \<Rightarrow> int" where
  "ex_clock b = 100 * day_ns"

lemma ex_aged_facts:
  "tidy (st_drives ex_aged)" "list_buckets (st_drives ex_aged) = Ok [''bkt'']" "vmode (st_drives ex_aged) ''bkt'' = Off"
  "set (listed_keys (st_drives ex_aged) ''bkt'' []) = {''held'', ''old''}" "plain_comp ''bkt''"
proof -
  have "list_all tidy_check (st_drives ex_aged)" by code_simp
  then show "tidy (st_drives ex_aged)" by (rule tidy_check)
  have "listed_keys (st_drives ex_aged) ''bkt'' [] = [''held'', ''old'']" by code_simp
  then show "set (listed_keys (st_drives ex_aged) ''bkt'' []) = {''held'', ''old''}" by simp
qed code_simp+

lemma top_level_not_nested: "components k = [c] \<Longrightarrow> \<not> nested ds b k"
  by (auto simp: nested_def obj_path_def valid_names_def strict_prefix_def prefix_Cons)

section \<open>What a pass leaves alone\<close>

text \<open>
  C21: a lifecycle pass ends and spares what it must.  On a store whose listed buckets are unversioned,
  whatever the drives fail and whatever the rules say, the pass comes to an end; and every listed
  object that is locked or not due, and does not lie inside another object's directory, reads
  afterwards as before and is not in the log.
\<close>

theorem lifecycle_spares_protected:
  assumes "tidy (st_drives st)" and "\<forall>bs. list_buckets (st_drives st) = Ok bs \<longrightarrow> (\<forall>b \<in> set bs. vmode (st_drives st) b = Off)"
  shows "\<exists>ps. run_lifecycle_pass H Cs clock st = Some ps \<and>
    (\<forall>b k. plain_comp b \<and> k \<in> set (listed_keys (st_drives st) b []) \<and> \<not> nested (st_drives st) b k
        \<and> (object_locked H st b k (clock b) \<or> \<not> due H st b k (clock b)) \<longrightarrow>
      get_object E (st_drives (ps_store ps)) b k = get_object E (st_drives st) b k \<and> (b, k) \<notin> set (ps_log ps))"
proof -
  let ?ps0 = "\<lparr> ps_store = st, ps_count = 0, ps_log = [] \<rparr>"
  define Q where "Q = {(b, k). plain_comp b \<and> k \<in> set (listed_keys (st_drives st) b []) \<and> \<not> nested (st_drives st) b k
    \<and> (object_locked H st b k (clock b) \<or> \<not> due H st b k (clock b))}"
  have f0: "fine st Q ?ps0" using assms(1) by (simp add: fine_def spared_refl)
  have "\<exists>ps. run_lifecycle_pass H Cs clock st = Some ps \<and> fine st Q ps"
  proof (cases "list_buckets (st_drives st)")
    case (Inl e)
    with f0 show ?thesis by (simp add: run_lifecycle_pass_def)
  next
    case (Inr bs)
    have "guarded st Q b \<and> (\<forall>k. (b, k) \<in> Q \<longrightarrow> object_locked H st b k (clock b) \<or> \<not> due H st b k (clock b))" if "b \<in> set bs" for b
      using that assms Inr listed_bucket_plain [OF assms(1) Inr that] by (auto simp: guarded_def Q_def)
    from expire_buckets_fine [of bs st Q H clock ?ps0 Cs] this f0 Inr show ?thesis by (simp add: run_lifecycle_pass_def)
  qed
  then obtain ps where ps: "run_lifecycle_pass H Cs clock st = Some ps" "fine st Q ps" by blast
  have "get_object E (st_drives (ps_store ps)) b k = get_object E (st_drives st) b k \<and> (b, k) \<notin> set (ps_log ps)"
    if "(b, k) \<in> Q" for b k
  proof -
    have "valid_names b k" using that listed_key_names(1) [OF assms(1)] by (auto simp: Q_def)
    with spared_get(2) [OF assms(1), of "shield Q"] ps(2) that show ?thesis by (auto simp: fine_def)
  qed
  with ps(1) show ?thesis unfolding Q_def by blast
qed

theorem lifecycle_spares_protected_witness:
  "\<exists>ps. run_lifecycle_pass ex_http (\<lambda>n. ex_ctx ''u'') ex_clock ex_aged = Some ps
    \<and> get_object (ex_env rs_mirror) (st_drives (ps_store ps)) ''bkt'' ''held'' = get_object (ex_env rs_mirror) (st_drives ex_aged) ''bkt'' ''held''"
proof -
  have held: "object_locked ex_http ex_aged ''bkt'' ''held'' (ex_clock ''bkt'')" "components ''held'' = [''held'']" by code_simp+
  have "\<forall>bs. list_buckets (st_drives ex_aged) = Ok bs \<longrightarrow> (\<forall>b \<in> set bs. vmode (st_drives ex_aged) b = Off)"
    using ex_aged_facts(2,3) by simp
  from lifecycle_spares_protected [OF ex_aged_facts(1) this, of ex_http "\<lambda>n. ex_ctx ''u''" ex_clock "ex_env rs_mirror"]
  show ?thesis using ex_aged_facts(4,5) held(1) top_level_not_nested [OF held(2)] by blast
qed

section \<open>What a pass removes\<close>

text \<open>
  C22: a due object does not outlive a pass.  On drives that fail nothing and unversioned buckets, an
  object that an enabled rule selects and finds due, and that no lock protects, is gone when the pass
  has ended, however many pages the listing has.
\<close>

theorem lifecycle_removes_due:
  assumes tidy: "tidy (st_drives st)" and healthy: "\<forall>d \<in> set (st_drives st). healthy d"
    and bs: "list_buckets (st_drives st) = Ok bs" "\<forall>c \<in> set bs. vmode (st_drives st) c = Off" "b \<in> set bs"
    and k: "k \<in> set (listed_keys (st_drives st) b [])" "due H st b k (clock b)" "\<not> object_locked H st b k (clock b)"
  shows "\<exists>ps. run_lifecycle_pass H Cs clock st = Some ps \<and> get_object E (st_drives (ps_store ps)) b k = Err NoSuchKey"
proof -
  let ?ps0 = "\<lparr> ps_store = st, ps_count = 0, ps_log = [] \<rparr>"
  have b: "plain_comp b" "b \<noteq> SYS_DIR" using listed_bucket_plain [OF tidy bs(1,3)] by auto
  note names = listed_key_names [OF tidy b(1) k(1)]
  from k(2) obtain m where m: "head_object (st_drives st) b k = Ok m"
    by (cases "head_object (st_drives st) b k")
      (auto simp: due_def list_ex_iff rule_due_def due_for_def split: option.splits)
  then have mk: "om_key m = k" by (auto simp: head_object_def meta_to_object_def split: sum.splits)
  have dotv: "''.v'' \<notin> set (components k)"
  proof -
    from k(1) obtain e where e: "e \<in> set (walk_union (st_drives st) b)" "k = join_with ''/'' (key_dir e)" "''.v'' \<notin> set (key_dir e)"
      by (auto simp: listed_keys_def entry_keys_iff)
    have "plain_path (key_dir e)"
      using tidy_walk_plain [OF tidy b(1) e(1)] by (auto simp: key_dir_def plain_path_def list_all_iff dest: in_set_butlastD)
    with e show ?thesis by (simp add: components_join)
  qed
  from split_list_first [OF bs(3)] obtain cs1 cs2 where cs: "bs = cs1 @ b # cs2" "b \<notin> set cs1" by blast
  have free: "guarded st Q c" if "c \<in> set bs" "\<forall>(c', k) \<in> Q. c' \<noteq> c" for c Q
    using guarded_free [OF tidy bs(1) that(1) _ that(2)] bs(2) that(1) by blast
  have "guarded st {(b, k)} c" if "c \<in> set cs1" for c using free [of c "{(b, k)}"] that cs by auto
  with cs(2) expire_buckets_fine [of cs1 st "{(b, k)}" H clock ?ps0 Cs] obtain ps1 where
    ps1: "expire_buckets H Cs clock cs1 ?ps0 = Some ps1" "fine st {(b, k)} ps1"
    by (auto simp: fine_def spared_refl [OF tidy])
  from ps1(2) have sp1: "spared (shield {(b, k)}) (st_drives st) (st_drives (ps_store ps1))" by (simp add: fine_def)
  have rd: "ready b k (st_drives st)" using tidy healthy names b bs(2,3) by (simp add: ready_def list_all_iff)
  have hd1: "head_object (st_drives (ps_store ps1)) b k = Ok m"
    using spared_get(1) [OF tidy sp1 names(1)] m by (simp add: head_object_def)
  have lk1: "object_locked H (ps_store ps1) b k (clock b) = object_locked H st b k (clock b)"
    using spared_locked [OF tidy sp1 names(1)] by simp
  have ex1: "exposed H b k m (clock b) (ps_store ps1)"
    using ready_spared [OF rd sp1] hd1 lk1 k(3) by (simp add: exposed_def)
  have "due_for H (ps_store ps1) b k (clock b) = due_for H st b k (clock b)"
    by (simp add: fun_eq_iff due_for_def m hd1)
  then have "rule_due H (ps_store ps1) b k (clock b) = rule_due H st b k (clock b)"
    unfolding rule_due_def [abs_def] by (simp only:)
  then have due1: "due H (ps_store ps1) b k (clock b)"
    using k(2) spared_cfg(2) [OF tidy sp1 b(1) shield_simps(1)] by (simp only: due_def)
  have later: "guarded (ps_store ps1) {} c" if "c \<in> set bs" for c
    by (rule guarded_later [OF free [OF that] sp1]) simp
  have "fine (ps_store ps1) {} ps1" using later bs(3) by (auto simp: fine_def guarded_def spared_refl)
  with expire_bucket_fine [OF later [OF bs(3)], of ps1 H "clock b" Cs] obtain ps2 where
    ps2: "expire_bucket H Cs (clock b) b ps1 = Some ps2" "fine (ps_store ps1) {} ps2" by auto
  have gone2: "\<not> readable (st_drives (ps_store ps2)) b k"
    using expire_bucket_removes [OF ps2(1) ex1 mk names(2) dotv] due1 by blast
  have "spared (shield {}) (st_drives (ps_store ps1)) (st_drives (ps_store ps2))" using ps2(2) by (simp add: fine_def)
  from guarded_later [OF later this] have "\<forall>c \<in> set cs2. guarded (ps_store ps2) {} c" using cs(1) by simp
  moreover have td2: "tidy (st_drives (ps_store ps2))"
    using spared_tidy [of "shield {}"] ps2(2) later [OF bs(3)] by (simp add: fine_def guarded_def)
  ultimately obtain ps3 where ps3: "expire_buckets H Cs clock cs2 ps2 = Some ps3" "fine (ps_store ps2) {} ps3"
    using expire_buckets_fine [of cs2 "ps_store ps2" "{}" H clock ps2 Cs] by (auto simp: fine_def spared_refl)
  have "\<not> readable (st_drives (ps_store ps3)) b k"
    using shrunk_read_xl [OF td2 _ names(1)] ps3(2) gone2 by (auto simp: fine_def readable_def)
  then have "get_object E (st_drives (ps_store ps3)) b k = Err NoSuchKey"
    by (auto simp: readable_def get_object_def read_xl_def read_xl_v_def Let_def split: option.splits)
  moreover have "run_lifecycle_pass H Cs clock st = Some ps3"
    using ps1(1) ps2(1) ps3(1) by (simp add: run_lifecycle_pass_def bs(1) cs(1) expire_buckets_append)
  ultimately show ?thesis by blast
qed

theorem lifecycle_removes_due_witness:
  "\<exists>ps. run_lifecycle_pass ex_http (\<lambda>n. ex_ctx ''u'') ex_clock ex_aged = Some ps
    \<and> get_object (ex_env rs_mirror) (st_drives (ps_store ps)) ''bkt'' ''old'' = Err NoSuchKey"
proof -
  have old: "\<not> object_locked ex_http ex_aged ''bkt'' ''old'' (ex_clock ''bkt'')" "due ex_http ex_aged ''bkt'' ''old'' (ex_clock ''bkt'')"
    by code_simp+
  have "\<forall>d \<in> set (st_drives ex_aged). healthy d" by (simp add: ex_aged_def healthy_def ex_aged_drive_def drive_new_def)
  with ex_aged_facts old show ?thesis
    by (intro lifecycle_removes_due [OF ex_aged_facts(1) _ ex_aged_facts(2), where b = "''bkt''"]) simp_all
qed

end
