(* ===== verification/Bucket_Handlers.thy ===== *)
theory Bucket_Handlers
  imports Handlers
begin

text \<open>
  \<open>src/handlers/bucket.rs\<close>: buckets, their listings and configuration documents, batch delete and the
  HTML form upload.  A handler maps the store and its arguments to the store and a reply.
\<close>

definition bucket_resource :: "string \<Rightarrow> string" where
  "bucket_resource bucket = ''/'' @ bucket"

text \<open>The reply of a store operation that returns nothing.\<close>

definition unit_reply :: "nat \<Rightarrow> string \<Rightarrow> store \<times> unit result \<Rightarrow> store \<times> reply" where
  "unit_reply sc resource =
     (\<lambda>(st, r). (st, case r of Ok _ \<Rightarrow> status_reply sc | Err e \<Rightarrow> error_reply e resource))"

section \<open>Buckets\<close>

definition list_buckets_handler :: "store \<Rightarrow> identity option \<Rightarrow> reply" where
  "list_buckets_handler st who =
     (case list_buckets (st_drives st) of
        Ok bs \<Rightarrow>
          xml_response 200 (ListBucketsXml
            (filter (\<lambda>b. case who of Some i \<Rightarrow> allows_bucket i (Some b) | None \<Rightarrow> True) bs))
      | Err e \<Rightarrow> error_reply e [])"

definition location_reply :: "http_lib \<Rightarrow> nat \<Rightarrow> string \<Rightarrow> reply" where
  "location_reply H sc location =
     (if valid_header_value location then headers_reply sc [(''location'', location)]
      else \<lparr> rp_status = fst (ht_header_failure H), rp_headers = [], rp_body = Plain (snd (ht_header_failure H)) \<rparr>)"

definition create_bucket_inner :: "app_state \<Rightarrow> store \<Rightarrow> string \<Rightarrow> store \<times> reply" where
  "create_bucket_inner A st bucket =
     (case create_bucket st bucket of
        (st', Ok _) \<Rightarrow> (st', location_reply (ap_http A) 200 (bucket_resource bucket))
      | (st', Err e) \<Rightarrow> (st', error_reply e (bucket_resource bucket)))"

definition delete_bucket_inner :: "store \<Rightarrow> string \<Rightarrow> store \<times> reply" where
  "delete_bucket_inner st bucket = unit_reply 204 (bucket_resource bucket) (delete_bucket st bucket)"

definition delete_bucket_handler :: "app_state \<Rightarrow> store \<Rightarrow> string \<Rightarrow> string option \<Rightarrow> store \<times> reply" where
  "delete_bucket_handler A st bucket query =
     (let params = parse_query (ap_http A) query;
          done_with = unit_reply 204 (bucket_resource bucket)
      in if has_param params ''encryption'' then done_with (delete_bucket_encryption st bucket)
         else if has_param params ''policy'' then done_with (delete_bucket_policy st bucket)
         else if has_param params ''tagging'' then done_with (delete_bucket_tags st bucket)
         else if has_param params ''lifecycle'' then done_with (delete_bucket_lifecycle st bucket)
         else delete_bucket_inner st bucket)"

definition head_bucket_inner :: "store \<Rightarrow> string \<Rightarrow> reply" where
  "head_bucket_inner st bucket =
     (case head_bucket (st_drives st) bucket of
        Ok _ \<Rightarrow> status_reply 200
      | Err e \<Rightarrow> error_reply e (bucket_resource bucket))"

section \<open>Listings\<close>

definition param_or_empty :: "string_map \<Rightarrow> string \<Rightarrow> string" where
  "param_or_empty params k = (case map_of params k of Some v \<Rightarrow> v | None \<Rightarrow> [])"

definition delimiter_param :: "string_map \<Rightarrow> string option" where
  "delimiter_param params =
     (case map_of params ''delimiter'' of Some d \<Rightarrow> if d = [] then None else Some d | None \<Rightarrow> None)"

definition max_keys_param :: "string_map \<Rightarrow> nat" where
  "max_keys_param params =
     min (case Option.bind (map_of params ''max-keys'') parse_u64 of Some n \<Rightarrow> n | None \<Rightarrow> 1000) 1000"

definition list_objects_inner :: "app_state \<Rightarrow> store \<Rightarrow> string \<Rightarrow> string_map \<Rightarrow> reply" where
  "list_objects_inner A st bucket params =
     (let pre = param_or_empty params ''prefix'';
          delim = delimiter_param params;
          encode = (case map_of params ''encoding-type'' of Some e \<Rightarrow> eq_ignore_ascii_case e ''url'' | None \<Rightarrow> False);
          mx = max_keys_param params;
          enc = (\<lambda>s. if encode then encode_key (ap_http A) s else s)
      in case list_objects_v2 (st_drives st) bucket pre delim (map_of params ''continuation-token'')
                (map_of params ''start-after'') mx of
           Ok l \<Rightarrow>
             xml_response 200 (ListBucketXml
               \<lparr> lb_name = bucket, lb_prefix = enc pre,
                 lb_key_count = length (ls_objects l) + length (ls_common_prefixes l),
                 lb_max_keys = mx, lb_delimiter = map_option enc delim,
                 lb_encoding_type = (if encode then Some ''url'' else None),
                 lb_is_truncated = ls_is_truncated l,
                 lb_next_continuation_token = map_option enc (ls_next_continuation_token l),
                 lb_contents =
                   map (\<lambda>m. m\<lparr>om_key := enc (om_key m), om_etag := quote_etag (om_etag m)\<rparr>) (ls_objects l),
                 lb_common_prefixes = map enc (ls_common_prefixes l) \<rparr>)
         | Err e \<Rightarrow> error_reply e (bucket_resource bucket))"

definition version_owner :: "object_version \<Rightarrow> string option" where
  "version_owner v = Option.bind (ov_audit v) au_author"

definition list_object_versions_handler :: "store \<Rightarrow> string \<Rightarrow> string_map \<Rightarrow> reply" where
  "list_object_versions_handler st bucket params =
     (let pre = param_or_empty params ''prefix'';
          delim = delimiter_param params;
          mx = max_keys_param params
      in case list_object_versions (st_drives st) bucket pre delim (map_of params ''key-marker'')
                (map_of params ''version-id-marker'') mx of
           Ok l \<Rightarrow>
             xml_response 200 (ListVersionsXml
               \<lparr> lv_name = bucket, lv_prefix = pre,
                 lv_key_marker = param_or_empty params ''key-marker'',
                 lv_version_id_marker = param_or_empty params ''version-id-marker'',
                 lv_max_keys = mx, lv_delimiter = delim, lv_is_truncated = vl_is_truncated l,
                 lv_next_key_marker = vl_next_key_marker l,
                 lv_next_version_id_marker = vl_next_version_id_marker l,
                 lv_version =
                   map (\<lambda>v. (v\<lparr>ov_etag := quote_etag (ov_etag v)\<rparr>, version_owner v))
                     (filter (\<lambda>v. \<not> ov_is_delete_marker v) (vl_versions l)),
                 lv_delete_marker = filter ov_is_delete_marker (vl_versions l),
                 lv_common_prefixes = vl_common_prefixes l \<rparr>)
         | Err e \<Rightarrow> error_reply e (bucket_resource bucket))"

section \<open>Batch delete\<close>

text \<open>\<open>Cs i\<close> holds the clock and the random draws of the \<open>i\<close>-th delete of the request.\<close>

primrec delete_each ::
  "(nat \<Rightarrow> call_ctx) \<Rightarrow> string \<Rightarrow> bool \<Rightarrow> string list \<Rightarrow> nat \<Rightarrow> store \<Rightarrow>
   store \<times> string list \<times> (string \<times> string \<times> string) list" where
  "delete_each Cs bucket quiet [] i st = (st, [], [])"
| "delete_each Cs bucket quiet (key # keys) i st =
     (case delete_object (Cs i) st bucket key of
        (st', r) \<Rightarrow>
          (case delete_each Cs bucket quiet keys (i + 1) st' of
             (st'', deleted, errors) \<Rightarrow>
               (case r of
                  Ok _ \<Rightarrow> (st'', (if quiet then deleted else key # deleted), errors)
                | Err e \<Rightarrow> (st'', deleted, (key, code e, message e) # errors))))"

definition post_bucket_inner ::
  "app_state \<Rightarrow> (nat \<Rightarrow> call_ctx) \<Rightarrow> store \<Rightarrow> string \<Rightarrow> string_map \<Rightarrow> bytes \<Rightarrow> store \<times> reply" where
  "post_bucket_inner A Cs st bucket params bs =
     (if \<not> has_param params ''delete'' then (st, error_reply NotImplemented (bucket_resource bucket))
      else case ht_delete (ap_http A) bs of
        None \<Rightarrow> (st, error_reply (InvalidArgument ''malformed Delete body'') (bucket_resource bucket))
      | Some request \<Rightarrow>
          (case delete_each Cs bucket (dq_quiet request) (dq_objects request) 0 st of
             (st', deleted, errors) \<Rightarrow> (st', xml_response 200 (DeleteResultXml deleted errors))))"

section \<open>Configuration documents\<close>

definition mb :: nat where "mb = 2 ^ 20"

definition read_body :: "body \<Rightarrow> bytes result" where
  "read_body b =
     (case to_bytes b (8 * mb) of Some bs \<Rightarrow> Ok bs | None \<Rightarrow> Err (InvalidArgument ''body read error''))"

definition get_bucket_encryption_handler :: "store \<Rightarrow> string \<Rightarrow> reply" where
  "get_bucket_encryption_handler st bucket =
     (case get_bucket_encryption st bucket of
        None \<Rightarrow> error_reply NoSuchBucketEncryption (bucket_resource bucket)
      | Some sse_type \<Rightarrow> xml_response 200 (SseXml sse_type))"

definition put_bucket_encryption :: "app_state \<Rightarrow> store \<Rightarrow> string \<Rightarrow> body \<Rightarrow> store \<times> reply" where
  "put_bucket_encryption A st bucket b =
     (case read_body b of
        Err e \<Rightarrow> (st, error_reply e (bucket_resource bucket))
      | Ok bs \<Rightarrow>
          (case ht_sse (ap_http A) bs of
             None \<Rightarrow> (st, error_reply (InvalidArgument ''bad SSE XML'') (bucket_resource bucket))
           | Some sse_type \<Rightarrow> unit_reply 200 (bucket_resource bucket) (set_bucket_encryption st bucket sse_type)))"

definition get_bucket_policy_handler :: "store \<Rightarrow> string \<Rightarrow> reply" where
  "get_bucket_policy_handler st bucket =
     (case get_bucket_policy st bucket of
        None \<Rightarrow> error_reply NoSuchBucketPolicy (bucket_resource bucket)
      | Some policy \<Rightarrow>
          \<lparr> rp_status = 200, rp_headers = [(''content-type'', ''application/json'')], rp_body = Plain policy \<rparr>)"

definition put_bucket_policy :: "app_state \<Rightarrow> store \<Rightarrow> string \<Rightarrow> body \<Rightarrow> store \<times> reply" where
  "put_bucket_policy A st bucket b =
     (case read_body b of
        Err e \<Rightarrow> (st, error_reply e (bucket_resource bucket))
      | Ok bs \<Rightarrow>
          unit_reply 204 (bucket_resource bucket)
            (set_bucket_policy st bucket (ht_utf8_lossy (ap_http A) bs)))"

definition get_bucket_tagging :: "store \<Rightarrow> string \<Rightarrow> reply" where
  "get_bucket_tagging st bucket =
     xml_response 200 (TaggingXml (case get_bucket_tags st bucket of Some ts \<Rightarrow> ts | None \<Rightarrow> []))"

definition put_bucket_tagging :: "app_state \<Rightarrow> store \<Rightarrow> string \<Rightarrow> body \<Rightarrow> store \<times> reply" where
  "put_bucket_tagging A st bucket b =
     (case read_body b of
        Err e \<Rightarrow> (st, error_reply e (bucket_resource bucket))
      | Ok bs \<Rightarrow>
          (case ht_tagging (ap_http A) bs of
             None \<Rightarrow> (st, error_reply (InvalidArgument ''bad Tagging XML'') (bucket_resource bucket))
           | Some ts \<Rightarrow> unit_reply 200 (bucket_resource bucket) (set_bucket_tags st bucket (btree_of ts))))"

definition get_bucket_versioning_handler :: "store \<Rightarrow> string \<Rightarrow> reply" where
  "get_bucket_versioning_handler st bucket =
     (let s = get_bucket_versioning (st_drives st) bucket
      in xml_response 200 (VersioningXml (if s = [] then None else Some s)))"

definition put_bucket_versioning :: "app_state \<Rightarrow> store \<Rightarrow> string \<Rightarrow> body \<Rightarrow> store \<times> reply" where
  "put_bucket_versioning A st bucket b =
     (case read_body b of
        Err e \<Rightarrow> (st, error_reply e (bucket_resource bucket))
      | Ok bs \<Rightarrow>
          (case ht_versioning (ap_http A) bs of
             None \<Rightarrow> (st, error_reply (InvalidArgument ''bad VersioningConfiguration'') (bucket_resource bucket))
           | Some doc \<Rightarrow>
               unit_reply 200 (bucket_resource bucket)
                 (set_bucket_versioning st bucket (case doc of Some s \<Rightarrow> s | None \<Rightarrow> []))))"

definition get_bucket_lifecycle_handler :: "store \<Rightarrow> string \<Rightarrow> reply" where
  "get_bucket_lifecycle_handler st bucket =
     (case get_bucket_lifecycle st bucket of
        None \<Rightarrow> error_reply NoSuchLifecycleConfiguration (bucket_resource bucket)
      | Some raw \<Rightarrow> xml_response 200 (RawXml raw))"

definition put_bucket_lifecycle :: "app_state \<Rightarrow> store \<Rightarrow> string \<Rightarrow> body \<Rightarrow> store \<times> reply" where
  "put_bucket_lifecycle A st bucket b =
     (case read_body b of
        Err e \<Rightarrow> (st, error_reply e (bucket_resource bucket))
      | Ok bs \<Rightarrow>
          let raw = ht_utf8_lossy (ap_http A) bs
          in if ht_lifecycle (ap_http A) raw = None
             then (st, error_reply (InvalidArgument ''bad LifecycleConfiguration XML'') (bucket_resource bucket))
             else unit_reply 200 (bucket_resource bucket) (set_bucket_lifecycle st bucket raw))"

definition get_bucket_object_lock :: "store \<Rightarrow> string \<Rightarrow> reply" where
  "get_bucket_object_lock st bucket =
     (case head_bucket (st_drives st) bucket of
        Err e \<Rightarrow> error_reply e (bucket_resource bucket)
      | Ok _ \<Rightarrow> xml_response 200 (ObjectLockXml ''Disabled''))"

definition put_bucket_object_lock :: "store \<Rightarrow> string \<Rightarrow> reply" where
  "put_bucket_object_lock st bucket =
     (case head_bucket (st_drives st) bucket of
        Err e \<Rightarrow> error_reply e (bucket_resource bucket)
      | Ok _ \<Rightarrow> status_reply 200)"

section \<open>Dispatch on the sub-resource\<close>

definition create_bucket_handler ::
  "app_state \<Rightarrow> store \<Rightarrow> string \<Rightarrow> string option \<Rightarrow> body \<Rightarrow> store \<times> reply" where
  "create_bucket_handler A st bucket query b =
     (let params = parse_query (ap_http A) query
      in if has_param params ''encryption'' then put_bucket_encryption A st bucket b
         else if has_param params ''policy'' then put_bucket_policy A st bucket b
         else if has_param params ''tagging'' then put_bucket_tagging A st bucket b
         else if has_param params ''versioning'' then put_bucket_versioning A st bucket b
         else if has_param params ''lifecycle'' then put_bucket_lifecycle A st bucket b
         else if has_param params ''object-lock'' then (st, put_bucket_object_lock st bucket)
         else create_bucket_inner A st bucket)"

definition list_objects_handler :: "app_state \<Rightarrow> store \<Rightarrow> string \<Rightarrow> string option \<Rightarrow> reply" where
  "list_objects_handler A st bucket query =
     (let params = parse_query (ap_http A) query
      in if has_param params ''versions'' then list_object_versions_handler st bucket params
         else if has_param params ''encryption'' then get_bucket_encryption_handler st bucket
         else if has_param params ''policy'' then get_bucket_policy_handler st bucket
         else if has_param params ''tagging'' then get_bucket_tagging st bucket
         else if has_param params ''versioning'' then get_bucket_versioning_handler st bucket
         else if has_param params ''lifecycle'' then get_bucket_lifecycle_handler st bucket
         else if has_param params ''object-lock'' then get_bucket_object_lock st bucket
         else list_objects_inner A st bucket params)"

section \<open>The HTML form upload\<close>

record form_state =
  fs_key :: "string option"
  fs_content_type :: string
  fs_redirect :: "string option"
  fs_status :: "string option"

definition form_start :: form_state where
  "form_start =
     \<lparr> fs_key = None, fs_content_type = ''application/octet-stream'', fs_redirect = None, fs_status = None \<rparr>"

definition text_field :: "string \<Rightarrow> string \<Rightarrow> form_state \<Rightarrow> form_state" where
  "text_field name value fs =
     (if name = ''key'' then fs\<lparr>fs_key := Some value\<rparr>
      else if name = ''Content-Type'' then fs\<lparr>fs_content_type := value\<rparr>
      else if name = ''success_action_redirect'' then fs\<lparr>fs_redirect := Some value\<rparr>
      else if name = ''success_action_status'' then fs\<lparr>fs_status := Some value\<rparr>
      else fs)"

text \<open>\<open>str::replace\<close> of the placeholder: leftmost occurrences first, without overlaps.\<close>

definition filename_mark :: string where "filename_mark = ''${filename}''"

function expand_filename :: "string \<Rightarrow> string \<Rightarrow> string" where
  "expand_filename r s =
     (case strip_prefix filename_mark s of
        Some rest \<Rightarrow> r @ expand_filename r rest
      | None \<Rightarrow> (case s of [] \<Rightarrow> [] | c # cs \<Rightarrow> c # expand_filename r cs))"
  by pat_completeness auto
termination
  by (relation "measure (length \<circ> snd)") (auto simp: strip_prefix_Some filename_mark_def)

declare expand_filename.simps [simp del]

definition resolved_key :: "string \<Rightarrow> string option \<Rightarrow> string" where
  "resolved_key k file_name =
     expand_filename (case file_name of Some f \<Rightarrow> f | None \<Rightarrow> ''upload'') k"

definition post_response_xml :: "string \<Rightarrow> string \<Rightarrow> string \<Rightarrow> string" where
  "post_response_xml bucket key quoted =
     ''<?xml version='' @ quote_etag ''1.0'' @ '' encoding='' @ quote_etag ''UTF-8'' @ ''?>'' @
     ''<PostResponse><Location>/'' @ bucket @ ''/'' @ key @ ''</Location><Bucket>'' @ bucket @ ''</Bucket>'' @
     ''<Key>'' @ key @ ''</Key><ETag>'' @ quoted @ ''</ETag></PostResponse>''"

definition build_post_response ::
  "http_lib \<Rightarrow> string \<Rightarrow> string \<Rightarrow> string \<Rightarrow> string option \<Rightarrow> string option \<Rightarrow> reply" where
  "build_post_response H bucket key etag redirect sc =
     (let quoted = quote_etag etag
      in case redirect of
        Some url \<Rightarrow>
          location_reply H 303
            (url @ (if CHR ''?'' \<in> set url then ''&'' else ''?'') @ ''bucket='' @ bucket @ ''&key='' @ key
             @ ''&etag='' @ ht_pct_alnum H quoted)
      | None \<Rightarrow>
          (if sc = Some ''201'' then xml_response 201 (RawXml (post_response_xml bucket key quoted))
           else if sc = Some ''200'' then xml_response 200 (RawXml (post_response_xml bucket key quoted))
           else status_reply 204))"

primrec form_fields ::
  "app_state \<Rightarrow> call_ctx \<Rightarrow> string \<Rightarrow> form_field list \<Rightarrow> form_state \<Rightarrow> store \<Rightarrow> store \<times> reply" where
  "form_fields A C bucket [] fs st =
     (st, error_reply (InvalidArgument ''missing 'file' field in multipart form'') (bucket_resource bucket))"
| "form_fields A C bucket (f # rest) fs st =
     (let name = (case ff_name f of Some n \<Rightarrow> n | None \<Rightarrow> [])
      in if name = ''file''
         then (case fs_key fs of
             None \<Rightarrow> (st, error_reply (InvalidArgument ''missing 'key' field'') (bucket_resource bucket))
           | Some k \<Rightarrow>
               let key = resolved_key k (ff_file_name f);
                   encrypt = (get_bucket_encryption st bucket \<noteq> None \<or> ap_encryption_enabled A)
               in case put_object (ap_env A) C st bucket key (ff_content f) (fs_content_type fs) [] encrypt of
                    (st', Err e) \<Rightarrow> (st', error_reply e (resource_of bucket key))
                  | (st', Ok meta) \<Rightarrow>
                      (st', build_post_response (ap_http A) bucket key (om_etag meta) (fs_redirect fs)
                              (fs_status fs)))
         else form_fields A C bucket rest
                (case ht_field_text (ap_http A) (ff_content f) of
                   Some v \<Rightarrow> text_field name v fs | None \<Rightarrow> fs) st)"

definition post_form_object :: "app_state \<Rightarrow> call_ctx \<Rightarrow> store \<Rightarrow> string \<Rightarrow> string \<Rightarrow> body \<Rightarrow> store \<times> reply" where
  "post_form_object A C st bucket content_type b =
     (case ht_form (ap_http A) content_type b of
        None \<Rightarrow> (st, error_reply (InvalidArgument ''missing multipart boundary'') (bucket_resource bucket))
      | Some ffs \<Rightarrow> form_fields A C bucket ffs form_start st)"

definition post_bucket_handler ::
  "app_state \<Rightarrow> (nat \<Rightarrow> call_ctx) \<Rightarrow> store \<Rightarrow> string \<Rightarrow> header_map \<Rightarrow> string option \<Rightarrow> body \<Rightarrow> store \<times> reply" where
  "post_bucket_handler A Cs st bucket hs query b =
     (let params = parse_query (ap_http A) query;
          ct = (case header_str hs ''content-type'' of Some v \<Rightarrow> v | None \<Rightarrow> [])
      in if \<not> has_param params ''delete'' \<and> contains_sub ct ''multipart/form-data''
         then post_form_object A (Cs 0) st bucket ct b
         else post_bucket_inner A Cs st bucket params
                (case to_bytes b (16 * mb) of Some bs \<Rightarrow> bs | None \<Rightarrow> []))"

end
