(* ===== verification/Object_Handlers.thy ===== *)
theory Object_Handlers
  imports Bucket_Handlers
begin

text \<open>
  The five dispatchers of \<open>src/handlers/object.rs\<close> and the routes of \<open>src/router.rs\<close>: an object request
  is a multipart call, a sub-resource, a copy, a version or the object itself; an empty key makes it a
  bucket request.
\<close>

section \<open>Writing\<close>

text \<open>The source named by \<open>x-amz-copy-source\<close>: leading slashes and the query removed, then decoded.\<close>

definition copy_source_of :: "http_lib \<Rightarrow> string \<Rightarrow> (string \<times> string) option" where
  "copy_source_of H source =
     (let trimmed = hd (split_on (CHR ''?'') (dropWhile (\<lambda>c. c = CHR ''/'') source))
      in split_once (CHR ''/'') (ht_pct_decode H trimmed))"

definition copy_object_handler ::
  "app_state \<Rightarrow> call_ctx \<Rightarrow> store \<Rightarrow> string \<Rightarrow> string \<Rightarrow> string \<Rightarrow> header_map \<Rightarrow> store \<times> reply" where
  "copy_object_handler A C st dst_bucket dst_key source hs =
     (case copy_source_of (ap_http A) source of
        None \<Rightarrow>
          (st, error_reply (InvalidArgument ''malformed x-amz-copy-source'') (resource_of dst_bucket dst_key))
      | Some (src_bucket, src_key) \<Rightarrow>
          (case copy_object (ap_env A) C st src_bucket src_key dst_bucket dst_key
                  (wants_encryption A st dst_bucket hs) of
             (st', Ok meta) \<Rightarrow>
               (st', xml_response 200 (CopyObjectXml (om_last_modified meta) (quote_etag (om_etag meta))))
           | (st', Err e) \<Rightarrow> (st', error_reply e (resource_of dst_bucket dst_key))))"

definition put_reply :: "object_meta \<Rightarrow> reply" where
  "put_reply meta =
     headers_reply 200
       (set_opt_header ''x-amz-version-id'' (om_version_id meta)
         (if om_encrypted meta
          then set_header ''x-amz-server-side-encryption'' ''AES256''
                 (set_header ''etag'' (quote_etag (om_etag meta)) [])
          else set_header ''etag'' (quote_etag (om_etag meta)) []))"

definition put_plain ::
  "app_state \<Rightarrow> call_ctx \<Rightarrow> store \<Rightarrow> string \<Rightarrow> string \<Rightarrow> header_map \<Rightarrow> body \<Rightarrow> store \<times> reply" where
  "put_plain A C st bucket key hs b =
     (case put_object (ap_env A) C st bucket key b (content_type_of hs) (extract_user_metadata hs)
             (wants_encryption A st bucket hs) of
        (st', Ok meta) \<Rightarrow> (st', put_reply meta)
      | (st', Err e) \<Rightarrow> (st', error_reply e (resource_of bucket key)))"

definition put_object_dispatch ::
  "app_state \<Rightarrow> call_ctx \<Rightarrow> store \<Rightarrow> string \<Rightarrow> string \<Rightarrow> header_map \<Rightarrow> string option \<Rightarrow> body \<Rightarrow> store \<times> reply" where
  "put_object_dispatch A C st bucket key hs query b =
     (let params = parse_query (ap_http A) query
      in if key = [] then create_bucket_inner A st bucket
         else case (map_of params ''partNumber'', map_of params ''uploadId'') of
           (Some part_number, Some upload_id) \<Rightarrow> mp_upload_part A C st bucket key upload_id part_number b
         | _ \<Rightarrow>
             (if has_param params ''tagging'' then put_tagging A st bucket key b
              else if has_param params ''retention'' then put_object_retention A st bucket key b
              else if has_param params ''legal-hold'' then put_object_legal_hold A st bucket key b
              else case header_str hs ''x-amz-copy-source'' of
                Some source \<Rightarrow> copy_object_handler A C st bucket key source hs
              | None \<Rightarrow> put_plain A C st bucket key hs b))"

section \<open>Reading\<close>

definition stream_reply :: "nat \<Rightarrow> header_map \<Rightarrow> body \<Rightarrow> reply" where
  "stream_reply sc hs b = \<lparr> rp_status = sc, rp_headers = hs, rp_body = Stream b \<rparr>"

definition sized_headers :: "http_lib \<Rightarrow> object_meta \<Rightarrow> nat \<Rightarrow> header_map" where
  "sized_headers H meta n = set_header ''content-length'' (show_nat n) (object_headers H meta)"

definition get_object_version_response ::
  "app_state \<Rightarrow> store \<Rightarrow> string \<Rightarrow> string \<Rightarrow> string \<Rightarrow> store \<times> reply" where
  "get_object_version_response A st bucket key version_id =
     (case get_object_version (ap_env A) st bucket key version_id of
        (st', Ok (meta, b)) \<Rightarrow> (st', stream_reply 200 (sized_headers (ap_http A) meta (om_size meta)) b)
      | (st', Err e) \<Rightarrow> (st', error_reply e (resource_of bucket key)))"

definition get_range_reply ::
  "app_state \<Rightarrow> store \<Rightarrow> string \<Rightarrow> string \<Rightarrow> nat option \<times> nat option \<Rightarrow> reply" where
  "get_range_reply A st bucket key rng =
     (case head_object (st_drives st) bucket key of
        Err e \<Rightarrow> error_reply e (resource_of bucket key)
      | Ok m \<Rightarrow>
          (case absolute_range (om_size m) rng of
             (abs_start, abs_last) \<Rightarrow>
               (case get_object_range (ap_env A) (st_drives st) bucket key abs_start (Some abs_last) of
                  Err e \<Rightarrow> error_reply e (resource_of bucket key)
                | Ok (meta, len, b) \<Rightarrow>
                    stream_reply 206
                      (set_header ''content-range'' (content_range abs_start abs_last (om_size m))
                        (sized_headers (ap_http A) meta len)) b)))"

definition get_plain_reply :: "app_state \<Rightarrow> store \<Rightarrow> string \<Rightarrow> string \<Rightarrow> reply" where
  "get_plain_reply A st bucket key =
     (case get_object (ap_env A) (st_drives st) bucket key of
        Err e \<Rightarrow> error_reply e (resource_of bucket key)
      | Ok (meta, b) \<Rightarrow> stream_reply 200 (sized_headers (ap_http A) meta (om_size meta)) b)"

definition get_object_dispatch ::
  "app_state \<Rightarrow> store \<Rightarrow> string \<Rightarrow> string \<Rightarrow> header_map \<Rightarrow> string option \<Rightarrow> store \<times> reply" where
  "get_object_dispatch A st bucket key hs query =
     (let params = parse_query (ap_http A) query
      in if key = [] then (st, list_objects_inner A st bucket params)
         else case map_of params ''uploadId'' of
           Some upload_id \<Rightarrow> (st, mp_list_parts st bucket key upload_id)
         | None \<Rightarrow>
             (if has_param params ''tagging'' then (st, get_tagging st bucket key)
              else if has_param params ''retention'' then (st, get_retention_reply A st bucket key)
              else if has_param params ''legal-hold'' then (st, get_legal_hold_reply st bucket key)
              else case map_of params ''versionId'' of
                Some vid \<Rightarrow> get_object_version_response A st bucket key vid
              | None \<Rightarrow>
                  (case Option.bind (header_str hs ''range'') parse_range of
                     Some rng \<Rightarrow> (st, get_range_reply A st bucket key rng)
                   | None \<Rightarrow> (st, get_plain_reply A st bucket key))))"

definition head_object_handler ::
  "app_state \<Rightarrow> store \<Rightarrow> string \<Rightarrow> string \<Rightarrow> string option \<Rightarrow> store \<times> reply" where
  "head_object_handler A st bucket key query =
     (if key = [] then (st, head_bucket_inner st bucket)
      else case (case map_of (parse_query (ap_http A) query) ''versionId'' of
                   Some vid \<Rightarrow> head_object_version st bucket key vid
                 | None \<Rightarrow> (st, head_object (st_drives st) bucket key)) of
        (st', Ok meta) \<Rightarrow> (st', headers_reply 200 (sized_headers (ap_http A) meta (om_size meta)))
      | (st', Err e) \<Rightarrow> (st', error_reply e (resource_of bucket key)))"

section \<open>Deleting\<close>

definition delete_response :: "delete_outcome \<Rightarrow> reply" where
  "delete_response outcome =
     headers_reply 204
       (let h = set_opt_header ''x-amz-version-id'' (do_version_id outcome) []
        in if do_delete_marker outcome then AList.update ''x-amz-delete-marker'' ''true'' h else h)"

definition outcome_reply :: "string \<Rightarrow> string \<Rightarrow> store \<times> delete_outcome result \<Rightarrow> store \<times> reply" where
  "outcome_reply bucket key =
     (\<lambda>(st, r). (st, case r of Ok outcome \<Rightarrow> delete_response outcome
                            | Err e \<Rightarrow> error_reply e (resource_of bucket key)))"

definition delete_object_dispatch ::
  "app_state \<Rightarrow> call_ctx \<Rightarrow> int \<Rightarrow> store \<Rightarrow> string \<Rightarrow> string \<Rightarrow> string option \<Rightarrow> store \<times> reply" where
  "delete_object_dispatch A C now_ns st bucket key query =
     (let params = parse_query (ap_http A) query
      in if key = [] then delete_bucket_inner st bucket
         else case map_of params ''uploadId'' of
           Some upload_id \<Rightarrow> mp_abort st bucket key upload_id
         | None \<Rightarrow>
             (if has_param params ''tagging'' then delete_tagging st bucket key
              else case check_object_lock A now_ns st bucket key of
                Err e \<Rightarrow> (st, error_reply e (resource_of bucket key))
              | Ok _ \<Rightarrow>
                  outcome_reply bucket key
                    (case map_of params ''versionId'' of
                       Some vid \<Rightarrow> delete_object_version st bucket key vid
                     | None \<Rightarrow> delete_object C st bucket key)))"

section \<open>Posting\<close>

definition post_object_dispatch ::
  "app_state \<Rightarrow> (nat \<Rightarrow> call_ctx) \<Rightarrow> store \<Rightarrow> string \<Rightarrow> string \<Rightarrow> header_map \<Rightarrow> string option \<Rightarrow> body \<Rightarrow>
   store \<times> reply" where
  "post_object_dispatch A Cs st bucket key hs query b =
     (let params = parse_query (ap_http A) query
      in if key = []
         then post_bucket_inner A Cs st bucket params (case to_bytes b (16 * mb) of Some bs \<Rightarrow> bs | None \<Rightarrow> [])
         else if has_param params ''uploads'' then mp_create A (Cs 0) st bucket key hs
         else case map_of params ''uploadId'' of
           Some upload_id \<Rightarrow> mp_complete A (Cs 0) st bucket key upload_id b
         | None \<Rightarrow>
             (if has_param params ''tagging'' then put_tagging A st bucket key b
              else (st, error_reply NotImplemented (resource_of bucket key))))"

end
