(* ===== verification/Gateway.thy ===== *)
theory Gateway
  imports Object_Handlers
begin

text \<open>
  \<open>src/router.rs\<close> and the request path of the server: routing, the authentication middleware around
  the handlers, and the audit context each handler's store calls run under.  The security-token and
  administration handlers, and the rendering of a reply as bytes, are parameters.
\<close>

section \<open>Routes\<close>

datatype route =
    RootRoute
  | AdminRoute string
  | HealthRoute
  | BucketRoute string
  | ObjectRoute string string
  | BadPath
  | NoRoute

definition admin_routes :: "string list" where
  "admin_routes =
     [''/info'', ''/heal'', ''/ping'', ''/add-user'', ''/list-users'', ''/remove-user'', ''/set-user-status'',
      ''/set-user-buckets'', ''/user-info'', ''/idp/builtin/policy/attach'', ''/idp/builtin/policy/detach'']"

definition health_routes :: "string list" where
  "health_routes = [''/live'', ''/ready'']"

text \<open>\<open>mount_admin\<close>: the administration and health routes, and their \<open>/minio\<close> aliases.\<close>

definition mounted :: "bool \<Rightarrow> string \<Rightarrow> string list \<Rightarrow> string \<Rightarrow> string option" where
  "mounted aliases prefx routes path =
     (case strip_prefix (''/kerplace'' @ prefx) path of
        Some r \<Rightarrow> (if r \<in> set routes then Some r else None)
      | None \<Rightarrow>
          (case (if aliases then strip_prefix (''/minio'' @ prefx) path else None) of
             Some r \<Rightarrow> (if r \<in> set routes then Some r else None)
           | None \<Rightarrow> None))"

text \<open>
  A fixed route wins over the parameters \<open>{bucket}\<close> (one segment, not empty) and \<open>{*key}\<close> (the rest, not
  empty); the \<open>Path\<close> extractor percent-decodes a parameter and refuses it when it is not UTF-8.
\<close>

definition s3_route :: "(string \<Rightarrow> string option) \<Rightarrow> string \<Rightarrow> route" where
  "s3_route decode rest =
     (case split_once (CHR ''/'') rest of
        None \<Rightarrow>
          (if rest = [] then NoRoute
           else case decode rest of Some b \<Rightarrow> BucketRoute b | None \<Rightarrow> BadPath)
      | Some (seg, tl_seg) \<Rightarrow>
          (if seg = [] then NoRoute
           else if tl_seg = [] then (case decode seg of Some b \<Rightarrow> BucketRoute b | None \<Rightarrow> BadPath)
           else case (decode seg, decode tl_seg) of
             (Some b, Some k) \<Rightarrow> ObjectRoute b k
           | _ \<Rightarrow> BadPath))"

definition route_of :: "bool \<Rightarrow> (string \<Rightarrow> string option) \<Rightarrow> string \<Rightarrow> route" where
  "route_of aliases decode path =
     (if path = ''/'' then RootRoute
      else case mounted aliases ''/admin/v3'' admin_routes path of
        Some r \<Rightarrow> AdminRoute r
      | None \<Rightarrow>
          (case mounted aliases ''/health'' health_routes path of
             Some _ \<Rightarrow> HealthRoute
           | None \<Rightarrow>
               (case path of
                  [] \<Rightarrow> NoRoute
                | c # rest \<Rightarrow> if c = CHR ''/'' then s3_route decode rest else NoRoute)))"

section \<open>The handlers behind the routes\<close>

record server =
  sv_app :: app_state
  sv_compat :: bool
  sv_decode :: "string \<Rightarrow> string option"
  sv_render :: "reply \<Rightarrow> http_response"
  sv_admin :: "string \<Rightarrow> store handlers"
  sv_sts :: "store handlers"

text \<open>The store calls of a request record its audit context.\<close>

definition in_audit :: "audit_context \<Rightarrow> call_ctx \<Rightarrow> call_ctx" where
  "in_audit ctx C = C\<lparr>cx_access_key := au_access_key ctx, cx_remote_ip := au_remote_ip ctx\<rparr>"

definition serve_bucket ::
  "app_state \<Rightarrow> (nat \<Rightarrow> call_ctx) \<Rightarrow> string \<Rightarrow> http_request \<Rightarrow> body \<Rightarrow> store \<Rightarrow> store \<times> reply" where
  "serve_bucket A Cs bucket req b st =
     (case rq_method req of
        GET \<Rightarrow> (st, list_objects_handler A st bucket (rq_query req))
      | HEAD \<Rightarrow> (st, head_bucket_inner st bucket)
      | PUT \<Rightarrow> create_bucket_handler A st bucket (rq_query req) b
      | DELETE \<Rightarrow> delete_bucket_handler A st bucket (rq_query req)
      | POST \<Rightarrow> post_bucket_handler A Cs st bucket (rq_headers req) (rq_query req) b
      | _ \<Rightarrow> (st, status_reply 405))"

definition serve_object ::
  "app_state \<Rightarrow> (nat \<Rightarrow> call_ctx) \<Rightarrow> int \<Rightarrow> string \<Rightarrow> string \<Rightarrow> http_request \<Rightarrow> body \<Rightarrow> store \<Rightarrow>
   store \<times> reply" where
  "serve_object A Cs now_ns bucket key req b st =
     (case rq_method req of
        GET \<Rightarrow> get_object_dispatch A st bucket key (rq_headers req) (rq_query req)
      | HEAD \<Rightarrow> head_object_handler A st bucket key (rq_query req)
      | PUT \<Rightarrow> put_object_dispatch A (Cs 0) st bucket key (rq_headers req) (rq_query req) b
      | DELETE \<Rightarrow> delete_object_dispatch A (Cs 0) now_ns st bucket key (rq_query req)
      | POST \<Rightarrow> post_object_dispatch A Cs st bucket key (rq_headers req) (rq_query req) b
      | _ \<Rightarrow> (st, status_reply 405))"

definition rendered :: "server \<Rightarrow> store \<times> reply \<Rightarrow> store \<times> http_response" where
  "rendered sv = (\<lambda>(st, r). (st, sv_render sv r))"

definition handle :: "server \<Rightarrow> (nat \<Rightarrow> call_ctx) \<Rightarrow> int \<Rightarrow> store handlers" where
  "handle sv Cs now_ns req b ctx who st =
     (case route_of (sv_compat sv) (sv_decode sv) (rq_path req) of
        RootRoute \<Rightarrow>
          (case rq_method req of
             GET \<Rightarrow> rendered sv (st, list_buckets_handler st who)
           | HEAD \<Rightarrow> rendered sv (st, list_buckets_handler st who)
           | POST \<Rightarrow> sv_sts sv req b ctx who st
           | _ \<Rightarrow> rendered sv (st, status_reply 405))
      | AdminRoute r \<Rightarrow> sv_admin sv r req b ctx who st
      | HealthRoute \<Rightarrow>
          rendered sv (st, status_reply (if rq_method req = GET \<or> rq_method req = HEAD then 200 else 405))
      | BucketRoute bucket \<Rightarrow>
          rendered sv (serve_bucket (sv_app sv) (in_audit ctx \<circ> Cs) bucket req b st)
      | ObjectRoute bucket key \<Rightarrow>
          rendered sv (serve_object (sv_app sv) (in_audit ctx \<circ> Cs) now_ns bucket key req b st)
      | BadPath \<Rightarrow> rendered sv (st, status_reply 400)
      | NoRoute \<Rightarrow> rendered sv (st, status_reply 404))"

text \<open>The router under its authentication layer.\<close>

definition gateway_request ::
  "gateway \<Rightarrow> server \<Rightarrow> request_env \<Rightarrow> (nat \<Rightarrow> call_ctx) \<Rightarrow> http_request \<Rightarrow> body \<Rightarrow> store \<times> access_log \<Rightarrow>
   (store \<times> access_log) \<times> http_response outcome" where
  "gateway_request g sv env Cs req b = auth_middleware g env (handle sv Cs (re_now_ns env)) req b"

end
