(* ===== verification/Gateway_Facts.thy ===== *)
theory Gateway_Facts
  imports Gateway Lifecycle_Progress Key_Escape Auth_Facts
begin

text \<open>
  From a request line to the store: which route a path takes, which requests carry no sub-resource, and
  how the text of a \<open>Range\<close> header becomes a window of the object.
\<close>

section \<open>Paths\<close>

lemma starts_bucket:
  assumes "CHR ''/'' \<notin> set b" and "CHR ''/'' \<notin> set n"
  shows "starts_with (''/'' @ b @ ''/'' @ r) (''/'' @ n @ ''/'' @ t) \<Longrightarrow> b = n"
proof -
  assume "starts_with (''/'' @ b @ ''/'' @ r) (''/'' @ n @ ''/'' @ t)"
  then obtain u where "''/'' @ b @ ''/'' @ r = (''/'' @ n @ ''/'' @ t) @ u" by (auto simp: starts_with_iff)
  then have "b @ CHR ''/'' # r = n @ CHR ''/'' # (t @ u)" by simp
  then have "split_once (CHR ''/'') (b @ CHR ''/'' # r) = split_once (CHR ''/'') (n @ CHR ''/'' # (t @ u))" by (rule arg_cong)
  then show "b = n" unfolding split_once_append [OF assms(1)] split_once_append [OF assms(2)] by simp
qed

text \<open>A bucket that is not one of the two reserved first segments.\<close>

definition ordinary_bucket :: "string \<Rightarrow> bool" where
  "ordinary_bucket b = (plain_comp b \<and> b \<noteq> ''kerplace'' \<and> b \<noteq> ''minio'')"

lemma ordinary_path:
  assumes "ordinary_bucket b"
  shows "\<not> starts_with (''/'' @ b @ ''/'' @ r) (''/kerplace/'' @ t)" "\<not> starts_with (''/'' @ b @ ''/'' @ r) (''/minio/'' @ t)"
  using starts_bucket [of b "''kerplace''" r t] starts_bucket [of b "''minio''" r t] assms
  by (auto simp: ordinary_bucket_def plain_comp_def)

lemma ordinary_request:
  assumes b: "ordinary_bucket b" and r: "r \<noteq> []" and path: "path = ''/'' @ b @ ''/'' @ r"
    and dec: "decode b = Some b'" "decode r = Some k"
  shows "route_of aliases decode path = ObjectRoute b' k" and "bucket_for path = Some b"
    and "action_for GET path = Read" and "rq_path req = path \<Longrightarrow> \<not> exempt req"
proof -
  note no = ordinary_path [OF b, of r]
  have slash: "CHR ''/'' \<notin> set b" and ne: "b \<noteq> []" using b by (auto simp: ordinary_bucket_def plain_comp_def)
  have m: "mounted aliases g rs path = None" if "g = ''/'' @ t" for g t rs
    using no(1) [of t] no(2) [of t] by (simp add: mounted_def strip_prefix_def path that)
  have "s3_route decode (b @ CHR ''/'' # r) = ObjectRoute b' k"
    using split_once_append [OF slash, of r] dec ne r by (simp add: s3_route_def)
  then show "route_of aliases decode path = ObjectRoute b' k"
    using m [of "''/admin/v3''" "''admin/v3''"] m [of "''/health''" "''health''"] ne by (simp add: route_of_def path)
  have hd: "hd (split_on (CHR ''/'') (b @ CHR ''/'' # r)) = b" using split_on_append [OF slash, of r] by simp
  have "dropWhile (\<lambda>c. c = CHR ''/'') (b @ CHR ''/'' # r) = b @ CHR ''/'' # r" using slash ne by (cases b) auto
  then show "bucket_for path = Some b"
    using no(1) [of "[]"] no(2) [of "[]"] hd ne by (simp add: bucket_for_def path)
  show "action_for GET path = Read"
    using no(1) [of "''admin''"] no(2) [of "''admin''"] by (simp add: action_for_def path)
  show "rq_path req = path \<Longrightarrow> \<not> exempt req"
    using no(1) [of "''health''"] no(2) [of "''health''"] ne by (simp add: exempt_def path)
qed

section \<open>Requests for the object itself\<close>

definition whole_object :: "string_map \<Rightarrow> bool" where
  "whole_object params =
     list_all (\<lambda>k. map_of params k = None) [''uploadId'', ''tagging'', ''retention'', ''legal-hold'', ''versionId'']"

lemma get_whole_object:
  assumes "whole_object (parse_query (ap_http A) query)" and "key \<noteq> []"
  shows "get_object_dispatch A st bucket key hs query =
    (st, case Option.bind (header_str hs ''range'') parse_range of
           Some rng \<Rightarrow> get_range_reply A st bucket key rng | None \<Rightarrow> get_plain_reply A st bucket key)"
  using assms by (simp add: get_object_dispatch_def whole_object_def has_param_def Let_def split: option.splits)

lemma delete_whole_object:
  assumes "whole_object (parse_query (ap_http A) query)" and "key \<noteq> []"
  shows "delete_object_dispatch A C now st bucket key query =
    (case check_object_lock A now st bucket key of
       Err e \<Rightarrow> (st, error_reply e (resource_of bucket key))
     | Ok _ \<Rightarrow> outcome_reply bucket key (delete_object C st bucket key))"
  using assms by (simp add: delete_object_dispatch_def whole_object_def has_param_def Let_def split: sum.splits)

lemma object_headers_key [simp]: "object_headers H (m\<lparr>om_key := k\<rparr>) = object_headers H m"
  by (simp add: object_headers_def Let_def)

text \<open>The handler's lock test and the lifecycle worker's are one.\<close>

lemma check_object_lock_eq:
  "check_object_lock A now st b k = (if object_locked (ap_http A) st b k now then Err ObjectLocked else Ok ())"
  by (simp add: check_object_lock_def object_locked_def split: sum.splits option.splits)

section \<open>Ranges\<close>

lemma show_nat_split:
  "split_once (CHR ''-'') (show_nat n @ CHR ''-'' # s) = Some (show_nat n, s)"
  by (rule split_once_append) (rule show_nat_no_sep, simp)

lemma show_nat_nonempty: "show_nat n \<noteq> []"
  by (subst show_radix.simps) simp

lemma no_comma: "CHR '','' \<notin> set (show_nat n)"
  by (rule show_nat_no_sep) simp

lemma parse_range_text:
  assumes "s < 2 ^ 64" and "e < 2 ^ 64"
  shows "parse_range (''bytes='' @ show_nat s @ ''-'' @ show_nat e) = Some (Some s, Some e)"
    and "parse_range (''bytes='' @ show_nat s @ ''-'') = Some (Some s, None)"
    and "parse_range (''bytes=-'' @ show_nat e) = Some (None, Some e)"
proof -
  have split: "split_once (CHR ''-'') (CHR ''-'' # t) = Some ([], t)" for t
    using split_once_append [of "CHR ''-''" "[]" t] by simp
  have bound: "range_bound (show_nat n) = Some (Some n)" if "n < 2 ^ 64" for n
    using that by (simp add: range_bound_def show_nat_nonempty)
  have strip: "strip_prefix ''bytes='' (''bytes='' @ t) = Some t" for t by (rule strip_prefix_append)
  show "parse_range (''bytes='' @ show_nat s @ ''-'' @ show_nat e) = Some (Some s, Some e)"
    unfolding parse_range_def strip using no_comma by (simp add: show_nat_split bound [OF assms(1)] bound [OF assms(2)])
  show "parse_range (''bytes='' @ show_nat s @ ''-'') = Some (Some s, None)"
    unfolding parse_range_def strip using no_comma by (simp add: show_nat_split bound [OF assms(1)]) (simp add: range_bound_def)
  have dash: "''bytes=-'' @ show_nat e = ''bytes='' @ CHR ''-'' # show_nat e" by simp
  show "parse_range (''bytes=-'' @ show_nat e) = Some (None, Some e)"
    unfolding dash parse_range_def strip using no_comma by (simp add: split bound [OF assms(2)] range_bound_def [of "[]"])
qed

text \<open>The reply to a range: the bytes from \<open>a\<close> to \<open>z\<close>, both included.\<close>

definition slice_reply :: "http_lib \<Rightarrow> object_meta \<Rightarrow> bytes \<Rightarrow> nat \<Rightarrow> nat \<Rightarrow> reply" where
  "slice_reply H meta p a z =
     stream_reply 206 (set_header ''content-range'' (content_range a z (om_size meta)) (sized_headers H meta (Suc z - a)))
       (Body (take (Suc z - a) (drop a p)) False)"

lemma range_reply:
  assumes get: "get_object (ap_env A) (st_drives st) b k = Ok (meta, Body p False)" and len: "length p = om_size meta"
    and rng: "absolute_range (om_size meta) r = (a, z)" and az: "a \<le> Suc z" "z < om_size meta"
  shows "get_range_reply A st b k r = slice_reply (ap_http A) meta p a z"
proof -
  have hd: "head_object (st_drives st) b k = Ok meta"
    using get by (auto simp: get_object_def head_object_def split: sum.splits)
  have win: "range_window (om_size meta) a (Some z) = (a, Suc z - a)"
    using az by (auto simp: range_window_def Let_def)
  have "get_object_range (ap_env A) (st_drives st) b k a (Some z) =
      Ok (meta, Suc z - a, Body (take (Suc z - a) (drop a p)) False)"
    using az len by (simp add: get_object_range_def get win skip_bytes_def read_exact_def)
  then show ?thesis by (simp add: get_range_reply_def hd rng slice_reply_def)
qed

end
