(* ===== verification/Gateway_Props.thy ===== *)
theory Gateway_Props
  imports Gateway_Facts Auth_Props Store_Instances
begin

text \<open>The properties of the request path from the router to the store.\<close>

section \<open>A store with three buckets\<close>

definition ex_small :: xl_meta where
  "ex_small = \<lparr> xm_version = 1, xm_data = 1, xm_parity = 1, xm_block_size = 4, xm_stored_size = 3, xm_size = 3,
     xm_etag = ''e'', xm_content_type = ''text/plain'', xm_user_metadata = [], xm_encrypted = False,
     xm_last_modified = 0, xm_owner = None, xm_src_ip = None,
     xm_checksums = [[checksum id [7, 8, 9]], [checksum id [7, 8, 9]]] \<rparr>"

definition ex_object :: "path \<Rightarrow> fs" where
  "ex_object p = [(p, Dir), (p @ [XL_META], File (XlDoc ex_small)), (p @ [PART], File (Bytes [7, 8, 9]))]"

definition ex_shared_drive :: "string \<Rightarrow> drive" where
  "ex_shared_drive name = drive_new [name]
     ([([name], Dir), ([name, ''reports''], Dir), ([name, ''secret''], Dir), ([name, ''minio''], Dir)]
      @ ex_object [name, ''secret'', ''x''] @ ex_object [name, ''minio'', ''healthz''] @ ex_object [name, ''reports'', ''held'']
      @ [([name, ''reports'', ''held'', ''legalhold.json''], File (StatusDoc ''ON''))])"

definition ex_shared :: store where
  "ex_shared = \<lparr> st_drives = map ex_shared_drive [''d0'', ''d1''], st_codec = \<lparr> cd_data = 1, cd_parity = 1 \<rparr>,
     st_block_size = 4, st_encrypt_all = False \<rparr>"

definition ex_lib :: http_lib where
  "ex_lib = \<lparr> ht_pct_decode = id, ht_pct_key = id, ht_pct_alnum = id, ht_utf8_lossy = bytes_str, ht_header_name = Some,
     ht_header_failure = (500, []), ht_http_date = (\<lambda>t. ''date''), ht_rfc3339 = (\<lambda>s. None), ht_tagging = (\<lambda>b. None),
     ht_retention = (\<lambda>b. None), ht_retention_xml = (\<lambda>r. []), ht_legal_hold = (\<lambda>b. Some (bytes_str b)), ht_complete = (\<lambda>b. None),
     ht_delete = (\<lambda>b. Some \<lparr> dq_objects = [bytes_str b], dq_quiet = False \<rparr>), ht_sse = (\<lambda>b. None), ht_versioning = (\<lambda>b. None),
     ht_lifecycle = (\<lambda>s. None), ht_form = (\<lambda>ct b. None), ht_field_text = (\<lambda>b. None) \<rparr>"

definition ex_app :: app_state where
  "ex_app = \<lparr> ap_env = ex_env rs_mirror, ap_http = ex_lib, ap_encryption_enabled = False \<rparr>"

definition ex_render :: "reply \<Rightarrow> http_response" where
  "ex_render r = \<lparr> rsp_status = rp_status r, rsp_headers = rp_headers r,
     rsp_body = (case rp_body r of Stream b \<Rightarrow> bytes_str (body_bytes b) | _ \<Rightarrow> []) \<rparr>"

definition ex_server :: server where
  "ex_server = \<lparr> sv_app = ex_app, sv_compat = True, sv_decode = Some, sv_render = ex_render,
     sv_admin = (\<lambda>r req b ctx who st. (st, ex_render (status_reply 200))),
     sv_sts = (\<lambda>req b ctx who st. (st, ex_render (status_reply 200))) \<rparr>"

lemma ex_shared_tidy: "tidy (st_drives ex_shared)"
proof -
  have "list_all tidy_check (st_drives ex_shared)" by code_simp
  then show ?thesis by (rule tidy_check)
qed

lemma ex_shared_healthy: "d \<in> set (st_drives ex_shared) \<Longrightarrow> healthy d"
  by (auto simp: ex_shared_def healthy_def ex_shared_drive_def drive_new_def)

section \<open>Scopes\<close>

text \<open>
  C19: a credential scoped to one bucket reads any bucket.  A \<open>GET\<close> whose path names the allowed bucket and
  then climbs, \<open>/b/../b2/k2\<close>, passes the scope check, which looks at the first segment only, and on
  drives that fail nothing is answered with the object \<open>k2\<close> of the other bucket, also when the scope
  does not contain it.
\<close>

theorem scoped_credential_escapes:
  assumes "authenticate g (re_now_ns env) req = Done (Ok i)" and "allows (policy_from_name (id_policy i)) Read"
    and "allows_bucket i (Some b)" and "\<not> allows_bucket i (Some b2)"
    and "rq_method req = GET" and "rq_path req = ''/'' @ b @ ''/../'' @ b2 @ ''/'' @ k2"
    and "whole_object (parse_query (ap_http (sv_app sv)) (rq_query req))" and "header_str (rq_headers req) ''range'' = None"
    and "sv_decode sv b = Some b" and "sv_decode sv (''../'' @ b2 @ ''/'' @ k2) = Some (''../'' @ b2 @ ''/'' @ k2)"
    and "ordinary_bucket b" and "valid_names b2 k2"
    and "\<forall>d \<in> set (st_drives st). drive_wf d \<and> healthy d \<and> look d [b] = Some Dir"
    and "get_object (ap_env (sv_app sv)) (st_drives st) b2 k2 = Ok (meta, bdy)"
  shows "snd (gateway_request g sv env Cs req payload (st, log)) =
    Done (sv_render sv (stream_reply 200 (sized_headers (ap_http (sv_app sv)) meta (om_size meta)) bdy))"
proof -
  let ?key = "''../'' @ b2 @ ''/'' @ k2"
  have path: "rq_path req = ''/'' @ b @ ''/'' @ ?key" using assms(6) by simp
  have plain: "plain_comp b" using assms(11) by (simp add: ordinary_bucket_def)
  have ne: "?key \<noteq> []" by simp
  note route = ordinary_request [OF assms(11) ne path assms(9,10)]
  have adm: "\<exists>who. authorize g (re_now_ns env) req = Done (Admitted who)"
    using assms(1-3,5) route(2,3) by (simp add: authorize_def)
  obtain m where m: "read_xl (st_drives st) b2 k2 = Ok m" "object_body (ap_env (sv_app sv)) (st_drives st) b2 k2 None m = Ok bdy"
    "meta = meta_to_object k2 m"
    using assms(14) by (auto simp: get_object_def split: sum.splits)
  note climb = climbing_read [OF plain assms(12,13)]
  have get: "get_object (ap_env (sv_app sv)) (st_drives st) b ?key = Ok (meta\<lparr>om_key := ?key\<rparr>, bdy)"
    unfolding get_object_def climb(1) m(1) using m(2,3) climb(2) [of "ap_env (sv_app sv)" m] by (simp add: meta_to_object_def)
  then have "get_plain_reply (sv_app sv) st b ?key =
      stream_reply 200 (sized_headers (ap_http (sv_app sv)) meta (om_size meta)) bdy"
    unfolding get_plain_reply_def get by (simp add: sized_headers_def)
  then have "serve_object (sv_app sv) cs now b ?key req pl st =
      (st, stream_reply 200 (sized_headers (ap_http (sv_app sv)) meta (om_size meta)) bdy)" for cs now pl
    unfolding serve_object_def assms(5) http_method.case get_whole_object [OF assms(7) ne] assms(8) by simp
  then have "handle sv Cs (re_now_ns env) req pl ctx who st =
      (st, sv_render sv (stream_reply 200 (sized_headers (ap_http (sv_app sv)) meta (om_size meta)) bdy))" for pl ctx who
    unfolding handle_def route(1) by (simp add: rendered_def)
  then show ?thesis using adm route(4) [of req] path
    by (auto simp: gateway_request_def auth_middleware_def Let_def)
qed

definition ex_escape :: http_request where
  "ex_escape = (ex_presigned ''60'' [])\<lparr>rq_path := ''/reports/../secret/x''\<rparr>"

definition ex_alice :: identity where
  "ex_alice = \<lparr> id_access_key = ''alice'', id_secret_key = ''s'', id_policy = ''readwrite'', id_enabled = True,
     id_buckets = Some [''reports''] \<rparr>"

lemma ex_escape_authentic: "authenticate ex_gateway (re_now_ns Auth_Props.ex_env) ex_escape = Done (Ok ex_alice)"
proof -
  have h: "presigned_param ex_sig_lib ex_escape ''X-Amz-Credential'' = Some ''alice/D/r/s3/aws4_request''"
    "split_on (CHR ''/'') ''alice/D/r/s3/aws4_request'' = [''alice'', ''D'', ''r'', ''s3'', ''aws4_request'']"
    "presigned_param ex_sig_lib ex_escape ''X-Amz-Date'' = Some ''T''" "sg_parse_time ex_sig_lib ''T'' = Some 1000"
    "presigned_param ex_sig_lib ex_escape ''X-Amz-Expires'' = Some ''60''"
    "presigned_param ex_sig_lib ex_escape ''X-Amz-SignedHeaders'' = Some ''host''"
    "presigned_param ex_sig_lib ex_escape ''X-Amz-Signature'' = Some []"
    "Iam.resolve ex_iam_lib ex_iam 0 ''alice'' = Some ex_alice" "id_enabled ex_alice"
    "has_header (rq_headers ex_escape) ''authorization'' = False"
    "(case rq_query ex_escape of Some q \<Rightarrow> contains_sub q ''X-Amz-Signature'' | None \<Rightarrow> False)"
    by code_simp+
  have e: "Option.bind (presigned_param ex_sig_lib ex_escape ''X-Amz-Expires'') parse_i64 = Some 60"
    by (simp add: h(5) parse_i64_def parse_radix_def digit_value_def is_ascii_digit_def)
  have "signature_of ex_sig_lib k d dt r sv c = []" for k d dt r sv c
    by (simp add: signature_of_def sig_hmac_def ex_sig_lib_def hex_encode_def)
  then have "verify_presigned ex_sig_lib (Iam.resolve ex_iam_lib ex_iam 0) 0 ex_escape = Done (Ok ex_alice)"
    using verify_presigned_eq [where find_identity = "Iam.resolve ex_iam_lib ex_iam 0" and ak = "''alice''", OF h(1-4) e h(6-9)]
    by (simp add: time_in_range_def)
  with h(10,11) show ?thesis by (simp add: authenticate_def ex_gateway_def Auth_Props.ex_env_def)
qed

theorem scoped_credential_escapes_witness:
  "\<exists>resp. snd (gateway_request ex_gateway ex_server Auth_Props.ex_env (\<lambda>n. ex_ctx ''u'') ex_escape (Body [] False) (ex_shared, None)) = Done resp
    \<and> rsp_status resp = 200 \<and> rsp_body resp = bytes_str [7, 8, 9]"
proof -
  have h: "allows (policy_from_name (id_policy ex_alice)) Read" "allows_bucket ex_alice (Some ''reports'')"
    "\<not> allows_bucket ex_alice (Some ''secret'')" "rq_method ex_escape = GET"
    "rq_path ex_escape = ''/'' @ ''reports'' @ ''/../'' @ ''secret'' @ ''/'' @ ''x''"
    "whole_object (parse_query (ap_http (sv_app ex_server)) (rq_query ex_escape))" "header_str (rq_headers ex_escape) ''range'' = None"
    "sv_decode ex_server ''reports'' = Some ''reports''"
    "sv_decode ex_server (''../'' @ ''secret'' @ ''/'' @ ''x'') = Some (''../'' @ ''secret'' @ ''/'' @ ''x'')"
    "ordinary_bucket ''reports''" "valid_names ''secret'' ''x''" "list_all (\<lambda>d. look d [''reports''] = Some Dir) (st_drives ex_shared)"
    "get_object (ap_env (sv_app ex_server)) (st_drives ex_shared) ''secret'' ''x'' = Ok (meta_to_object ''x'' ex_small, Body [7, 8, 9] False)"
    by code_simp+
  have "\<forall>d \<in> set (st_drives ex_shared). drive_wf d \<and> healthy d \<and> look d [''reports''] = Some Dir"
    using tidyD(1) [OF ex_shared_tidy] ex_shared_healthy h(12) by (auto simp: list_all_iff)
  from scoped_credential_escapes [OF ex_escape_authentic h(1-11) this h(13)] show ?thesis
    by (simp add: ex_server_def ex_render_def stream_reply_def)
qed

section \<open>Paths without authentication\<close>

text \<open>
  The exemption of the health routes is wider than the routes.  Whatever the settings, a request
  whose path starts with \<open>/minio/health\<close> and is not one of the two mounted routes is handled as an
  object request in the bucket \<open>minio\<close>, for any method and without any credential, and the access log
  does not see it.
\<close>

theorem health_prefix_unauthenticated:
  assumes "rq_path req = ''/minio/health'' @ rest" and "rest \<noteq> ''/live''" and "rest \<noteq> ''/ready''"
    and "sv_decode sv ''minio'' = Some ''minio''" and "sv_decode sv (''health'' @ rest) = Some key"
    and "serve_object (sv_app sv) (in_audit \<lparr> au_access_key = None, au_remote_ip = None \<rparr> \<circ> Cs) (re_now_ns env)
      ''minio'' key req payload st = (st', r)"
  shows "gateway_request g sv env Cs req payload (st, log) = ((st', log), Done (sv_render sv r))"
proof -
  have "split_once (CHR ''/'') (''minio'' @ CHR ''/'' # (''health'' @ rest)) = Some (''minio'', ''health'' @ rest)"
    by (rule split_once_append) simp
  then have "s3_route (sv_decode sv) (''minio/health'' @ rest) = ObjectRoute ''minio'' key"
    using assms(4,5) by (simp add: s3_route_def)
  moreover have "mounted al ''/admin/v3'' admin_routes (''/minio/health'' @ rest) = None"
    "mounted al ''/health'' health_routes (''/minio/health'' @ rest) = None" for al
    using assms(2,3) by (simp_all add: mounted_def strip_prefix_def starts_with_def health_routes_def)
  ultimately have "route_of (sv_compat sv) (sv_decode sv) (rq_path req) = ObjectRoute ''minio'' key"
    by (simp add: route_of_def assms(1))
  moreover have "exempt req" by (simp add: exempt_def assms(1) starts_with_def)
  ultimately show ?thesis
    using assms(6) by (simp add: gateway_request_def auth_middleware_def handle_def rendered_def)
qed

theorem health_prefix_unauthenticated_witness:
  "\<exists>st'. gateway_request ex_gateway ex_server Auth_Props.ex_env (\<lambda>n. ex_ctx ''u'') (ex_request ''/minio/healthz'') (Body [] False) (ex_shared, Some []) =
     ((st', Some []), Done (ex_render (headers_reply 204 []))) \<and> read_xl (st_drives st') ''minio'' ''healthz'' = Err NoSuchKey"
proof -
  let ?s = "serve_object (sv_app ex_server) (in_audit \<lparr> au_access_key = None, au_remote_ip = None \<rparr> \<circ> (\<lambda>n. ex_ctx ''u''))
    (re_now_ns Auth_Props.ex_env) ''minio'' ''healthz'' (ex_request ''/minio/healthz'') (Body [] False) ex_shared"
  have h: "rq_path (ex_request ''/minio/healthz'') = ''/minio/health'' @ ''z''" "''z'' \<noteq> ''/live''" "''z'' \<noteq> ''/ready''"
    "sv_decode ex_server ''minio'' = Some ''minio''" "sv_decode ex_server (''health'' @ ''z'') = Some ''healthz''"
    "snd ?s = headers_reply 204 []" "read_xl (st_drives (fst ?s)) ''minio'' ''healthz'' = Err NoSuchKey"
    by code_simp+
  have rdr: "sv_render ex_server = ex_render" by (simp add: ex_server_def)
  have s: "?s = (fst ?s, snd ?s)" by simp
  from health_prefix_unauthenticated [OF h(1-5) s, of ex_gateway "Some []"] h(6,7) rdr show ?thesis by auto
qed

section \<open>Ranges\<close>

text \<open>
  C23: a range request gets its slice.  For a readable object of at least one byte, \<open>bytes=s-e\<close>, \<open>bytes=s-\<close>
  and \<open>bytes=-n\<close> are answered 206 with exactly the bytes from \<open>s\<close> to \<open>e\<close> cut at the end, from \<open>s\<close> on, or
  the last \<open>n\<close>, with the length and the range in the headers; a range that starts behind the end is
  answered 206 too, with no bytes.
\<close>

theorem range_request_exact:
  assumes whole: "whole_object (parse_query (ap_http A) query)" "key \<noteq> []"
    and get: "get_object (ap_env A) (st_drives st) bucket key = Ok (meta, Body p False)" and len: "length p = om_size meta"
    and "p \<noteq> []" and "s < 2 ^ 64" and "e < 2 ^ 64"
  shows "(header_str hs ''range'' = Some (''bytes='' @ show_nat s @ ''-'' @ show_nat e) \<and> s \<le> e \<longrightarrow>
        get_object_dispatch A st bucket key hs query =
          (st, slice_reply (ap_http A) meta p (min s (length p)) (min e (length p - 1))))
    \<and> (header_str hs ''range'' = Some (''bytes='' @ show_nat s @ ''-'') \<longrightarrow>
        get_object_dispatch A st bucket key hs query = (st, slice_reply (ap_http A) meta p (min s (length p)) (length p - 1)))
    \<and> (header_str hs ''range'' = Some (''bytes=-'' @ show_nat e) \<longrightarrow>
        get_object_dispatch A st bucket key hs query = (st, slice_reply (ap_http A) meta p (length p - e) (length p - 1)))"
proof -
  obtain n where pos: "length p = Suc n" using assms(5) by (cases p) simp_all
  note forms = parse_range_text [OF assms(6,7)]
  have run: "get_object_dispatch A st bucket key hs query = (st, slice_reply (ap_http A) meta p a z)"
    if "header_str hs ''range'' = Some v" "parse_range v = Some r" "absolute_range (length p) r = (a, z)" "a \<le> Suc z" "z < length p"
    for v r a z
    using range_reply [OF get len] that len by (simp add: get_whole_object [OF whole])
  show ?thesis
  proof (intro conjI impI, goal_cases)
    case 1
    with pos show ?case by (intro run [OF conjunct1 [OF 1] forms(1)]) (auto simp: min_def)
  next
    case 2
    with pos show ?case by (intro run [OF 2 forms(2)]) (auto simp: min_def)
  next
    case 3
    with pos show ?case by (intro run [OF 3 forms(3)]) (auto simp: min_def)
  qed
qed

theorem range_request_exact_witness:
  "rp_body (snd (get_object_dispatch ex_app ex_shared ''secret'' ''x'' [(''range'', ''bytes=1-1'')] None)) = Stream (Body [8] False)"
proof -
  have h: "whole_object (parse_query (ap_http ex_app) None)"
    "get_object (ap_env ex_app) (st_drives ex_shared) ''secret'' ''x'' = Ok (meta_to_object ''x'' ex_small, Body [7, 8, 9] False)"
    "length [7 :: byte, 8, 9] = om_size (meta_to_object ''x'' ex_small)"
    "header_str [(''range'', ''bytes=1-1'')] ''range'' = Some (''bytes='' @ show_nat 1 @ ''-'' @ show_nat 1)"
    by code_simp+
  have "(''x'' :: string) \<noteq> []" "[7 :: byte, 8, 9] \<noteq> []" "(1 :: nat) < 2 ^ 64" by simp_all
  from range_request_exact [OF h(1) this(1) h(2,3) this(2,3,3), THEN conjunct1] h(4)
  show ?thesis by (simp add: slice_reply_def stream_reply_def)
qed

section \<open>Object lock\<close>

text \<open>
  C20: object lock guards one of the ways to delete.  A \<open>DELETE\<close> of an object under a legal hold or a
  retention that has not ended is refused and changes nothing; the batch request \<open>POST ?delete\<close> naming
  the same object removes it, on drives that fail nothing and in an unversioned bucket, and reports
  the deletion.
\<close>

theorem lock_guards_single_deletes:
  assumes "object_locked (ap_http A) st b k now" and "readable (st_drives st) b k" and "ready b k (st_drives st)" and "k \<noteq> []"
    and "whole_object (parse_query (ap_http A) query)"
    and "has_param params ''delete''" and "ht_delete (ap_http A) payload = Some \<lparr> dq_objects = [k], dq_quiet = False \<rparr>"
  shows "delete_object_dispatch A C now st b k query = (st, error_reply ObjectLocked (resource_of b k))
    \<and> snd (post_bucket_inner A Cs st b params payload) = xml_response 200 (DeleteResultXml [k] [])
    \<and> \<not> readable (st_drives (fst (post_bucket_inner A Cs st b params payload))) b k"
proof -
  obtain st' r where del: "delete_object (Cs 0) st b k = (st', r)" by fastforce
  note r = readyD [OF assms(3)]
  have ok: "is_ok r" using del readable_bucket [OF assms(3,2)] r(6) by (auto simp: delete_object_def)
  have post: "post_bucket_inner A Cs st b params payload = (st', xml_response 200 (DeleteResultXml [k] []))"
    using ok del assms(6,7) by (cases r) (simp_all add: post_bucket_inner_def)
  show ?thesis
    using assms(1) delete_target(3) [OF assms(3) r(3) del refl] post
    by (simp add: delete_whole_object [OF assms(5,4)] check_object_lock_eq)
qed

theorem lock_guards_single_deletes_witness:
  "snd (delete_object_dispatch ex_app (ex_ctx ''u'') 0 ex_shared ''reports'' ''held'' None) = error_reply ObjectLocked ''/reports/held'' \<and>
   \<not> readable (st_drives (fst (post_bucket_inner ex_app (\<lambda>n. ex_ctx ''u'') ex_shared ''reports'' [(''delete'', [])] (str_bytes ''held'')))) ''reports'' ''held''"
proof -
  have h: "object_locked (ap_http ex_app) ex_shared ''reports'' ''held'' 0" "readable (st_drives ex_shared) ''reports'' ''held''"
    "valid_names ''reports'' ''held''" "''reports'' \<noteq> SYS_DIR" "vmode (st_drives ex_shared) ''reports'' = Off"
    "(''held'' :: string) \<noteq> []" "whole_object (parse_query (ap_http ex_app) None)" "has_param [(''delete'', [])] ''delete''"
    "ht_delete (ap_http ex_app) (str_bytes ''held'') = Some \<lparr> dq_objects = [''held''], dq_quiet = False \<rparr>"
    "resource_of ''reports'' ''held'' = ''/reports/held''"
    by code_simp+
  have "ready ''reports'' ''held'' (st_drives ex_shared)"
    using ex_shared_tidy ex_shared_healthy h(3-5) by (simp add: ready_def list_all_iff)
  from lock_guards_single_deletes [OF h(1,2) this h(6-9)] show ?thesis by (simp add: h(10))
qed

end
