(* ===== verification/Fs_Store.thy ===== *)
theory Fs_Store
  imports Store_Multipart
begin

text \<open>
  \<open>src/storage/fs.rs\<close> (lines 48 to 749): the plain filesystem backend over one directory.  Its state is the
  root directory, a \<open>drive\<close>, whose operations are the calls of \<open>tokio::fs\<close> that the drive model describes;
  paths are relative to the root.  A payload is a file of the bucket's directory, everything else lies
  below the system directory.  What a call finds outside the store (clock, UUIDs in the order they are
  drawn, random bytes, modification times) is the record \<open>fs_ctx\<close>; \<open>fv_json\<close> gives the bytes of a document
  for the calls that read a document's file as a payload.
\<close>

section \<open>State and environment\<close>

definition DIR_MARKER :: string where "DIR_MARKER = ''.kerplace.dirobject''"

record fs_env =
  fv_md5 :: "bytes \<Rightarrow> bytes"
  fv_crypto :: crypto_lib
  fv_provider :: key_provider
  fv_json :: "doc \<Rightarrow> bytes"

record fs_ctx =
  fc_now :: int
  fc_uuid :: "nat \<Rightarrow> string"
  fc_entropy :: entropy
  fc_opaque_etag :: string
  fc_mtime :: "pathbuf \<Rightarrow> int option"

record fs_store =
  fs_drive :: drive
  fs_encrypt_all :: bool

section \<open>Paths\<close>

definition fs_tmp_dir :: pathbuf where "fs_tmp_dir = pjoin (path_new SYS_DIR) ''tmp''"
definition fs_meta_root :: pathbuf where "fs_meta_root = pjoin (path_new SYS_DIR) ''meta''"
definition fs_multipart_root :: pathbuf where "fs_multipart_root = pjoin (path_new SYS_DIR) ''multipart''"
definition fs_versions_root :: pathbuf where "fs_versions_root = pjoin (path_new SYS_DIR) ''versions''"

definition fs_bucket_cfg_dir :: "string \<Rightarrow> pathbuf" where
  "fs_bucket_cfg_dir bucket = pjoin (pjoin (path_new SYS_DIR) ''buckets'') bucket"

definition fs_bucket_path :: "string \<Rightarrow> pathbuf" where
  "fs_bucket_path bucket = path_new bucket"

definition fs_object_path :: "string \<Rightarrow> string \<Rightarrow> pathbuf" where
  "fs_object_path bucket key =
     (case strip_suffix ''/'' key of
        Some dir \<Rightarrow> pjoin (pjoin (fs_bucket_path bucket) dir) DIR_MARKER
      | None \<Rightarrow> pjoin (fs_bucket_path bucket) key)"

definition fs_meta_path :: "string \<Rightarrow> string \<Rightarrow> pathbuf" where
  "fs_meta_path bucket key =
     (case strip_suffix ''/'' key of
        Some dir \<Rightarrow> pjoin (pjoin (pjoin fs_meta_root bucket) dir) (DIR_MARKER @ ''.json'')
      | None \<Rightarrow> pjoin (pjoin fs_meta_root bucket) (key @ ''.json''))"

definition fs_upload_dir :: "string \<Rightarrow> string \<Rightarrow> pathbuf" where
  "fs_upload_dir bucket upload_id = pjoin (pjoin fs_multipart_root bucket) upload_id"

definition fs_bucket_cfg_file :: "string \<Rightarrow> string \<Rightarrow> pathbuf" where
  "fs_bucket_cfg_file bucket file = pjoin (fs_bucket_cfg_dir bucket) file"

definition fs_object_sidecar :: "string \<Rightarrow> string \<Rightarrow> string \<Rightarrow> pathbuf" where
  "fs_object_sidecar bucket key sfx = pjoin (pjoin fs_meta_root bucket) (key @ ''.'' @ sfx)"

definition fs_version_dir :: "string \<Rightarrow> string \<Rightarrow> pathbuf" where
  "fs_version_dir bucket key = pjoin (pjoin fs_versions_root bucket) key"

definition fs_version_data_path :: "string \<Rightarrow> string \<Rightarrow> string \<Rightarrow> pathbuf" where
  "fs_version_data_path bucket key vid = pjoin (fs_version_dir bucket key) (vid @ ''.data'')"

definition fs_version_meta_path :: "string \<Rightarrow> string \<Rightarrow> string \<Rightarrow> pathbuf" where
  "fs_version_meta_path bucket key vid = pjoin (fs_version_dir bucket key) (vid @ ''.json'')"

definition fs_history_path :: "string \<Rightarrow> string \<Rightarrow> pathbuf" where
  "fs_history_path bucket key = pjoin (fs_version_dir bucket key) ''kp.history.json''"

section \<open>File helpers\<close>

text \<open>The bytes of a file, and \<open>File::open\<close>: a directory opens too, and fails on the first read.\<close>

definition raw_bytes :: "fs_env \<Rightarrow> doc \<Rightarrow> bytes" where
  "raw_bytes E c = (case c of Bytes b \<Rightarrow> b | _ \<Rightarrow> fv_json E c)"

definition fs_open :: "fs_env \<Rightarrow> drive \<Rightarrow> pathbuf \<Rightarrow> body option" where
  "fs_open E d p =
     (case reach d OpOpen p of
        Some (_, Some (File c)) \<Rightarrow> Some (Body (raw_bytes E c) False)
      | Some (_, Some Dir) \<Rightarrow> Some (Body [] True)
      | _ \<Rightarrow> None)"

definition fs_len :: "fs_env \<Rightarrow> drive \<Rightarrow> pathbuf \<Rightarrow> nat" where
  "fs_len E d p =
     (case reach d OpStat p of Some (_, Some (File c)) \<Rightarrow> length (raw_bytes E c) | _ \<Rightarrow> 0)"

definition mkdir_parent :: "drive \<Rightarrow> pathbuf \<Rightarrow> drive \<times> bool" where
  "mkdir_parent d p =
     (case pparent p of Some q \<Rightarrow> drive_create_dir_all d q | None \<Rightarrow> (d, True))"

text \<open>A document written after its parent directories.\<close>

definition save_file :: "drive \<Rightarrow> pathbuf \<Rightarrow> doc \<Rightarrow> string \<Rightarrow> drive \<times> unit result" where
  "save_file d p c what =
     (case mkdir_parent d p of
        (d1, False) \<Rightarrow> (d1, Err (Internal (''mkdir '' @ what)))
      | (d1, True) \<Rightarrow>
          (case drive_write d1 p c of
             (d2, False) \<Rightarrow> (d2, Err (Internal (''write '' @ what)))
           | (d2, True) \<Rightarrow> (d2, Ok ())))"

definition read_bucket_cfg :: "drive \<Rightarrow> string \<Rightarrow> string \<Rightarrow> doc option" where
  "read_bucket_cfg d bucket file = drive_read d (fs_bucket_cfg_file bucket file)"

definition write_bucket_cfg :: "drive \<Rightarrow> string \<Rightarrow> string \<Rightarrow> doc \<Rightarrow> drive \<times> unit result" where
  "write_bucket_cfg d bucket file c = save_file d (fs_bucket_cfg_file bucket file) c ''bucket cfg''"

definition delete_bucket_cfg :: "drive \<Rightarrow> string \<Rightarrow> string \<Rightarrow> drive" where
  "delete_bucket_cfg d bucket file = fst (drive_remove_file d (fs_bucket_cfg_file bucket file))"

definition read_obj_sidecar :: "drive \<Rightarrow> string \<Rightarrow> string \<Rightarrow> string \<Rightarrow> doc option" where
  "read_obj_sidecar d bucket key sfx = drive_read d (fs_object_sidecar bucket key sfx)"

definition write_obj_sidecar :: "drive \<Rightarrow> string \<Rightarrow> string \<Rightarrow> string \<Rightarrow> doc \<Rightarrow> drive \<times> unit result" where
  "write_obj_sidecar d bucket key sfx c = save_file d (fs_object_sidecar bucket key sfx) c ''sidecar''"

definition delete_obj_sidecar :: "drive \<Rightarrow> string \<Rightarrow> string \<Rightarrow> string \<Rightarrow> drive" where
  "delete_obj_sidecar d bucket key sfx = fst (drive_remove_file d (fs_object_sidecar bucket key sfx))"

text \<open>
  A body streamed to a fresh temporary file: its path, its ETag and its length.  An error leaves the file
  with what was written.
\<close>

definition stream_to_temp ::
  "fs_env \<Rightarrow> fs_ctx \<Rightarrow> nat \<Rightarrow> drive \<Rightarrow> body \<Rightarrow> bool \<Rightarrow> drive \<times> (pathbuf \<times> string \<times> nat) result" where
  "stream_to_temp E C n d b need_md5 =
     (let tmp = pjoin fs_tmp_dir (fc_uuid C n)
      in case drive_create d tmp of
           (d1, False) \<Rightarrow> (d1, Err (Internal ''create temp''))
         | (d1, True) \<Rightarrow>
             (case (if body_bytes b = [] then (d1, True) else drive_append d1 0 tmp (body_bytes b)) of
                (d2, False) \<Rightarrow> (d2, Err (Internal ''write temp''))
              | (d2, True) \<Rightarrow>
                  if body_fails b then (d2, Err (Internal ''read body''))
                  else if \<not> drive_shutdown d2 tmp then (d2, Err (Internal ''flush temp''))
                  else (d2, Ok (tmp,
                                if need_md5 then hex_encode (fv_md5 E (body_bytes b)) else fc_opaque_etag C,
                                length (body_bytes b)))))"

definition move_into_place :: "drive \<Rightarrow> pathbuf \<Rightarrow> pathbuf \<Rightarrow> drive \<times> unit result" where
  "move_into_place d tmp dest =
     (case mkdir_parent d dest of
        (d1, False) \<Rightarrow> (d1, Err (Internal ''mkdir''))
      | (d1, True) \<Rightarrow>
          (case drive_rename d1 tmp dest of
             (d2, False) \<Rightarrow> (d2, Err (Internal ''rename''))
           | (d2, True) \<Rightarrow> (d2, Ok ())))"

text \<open>
  \<open>prune_empty_dirs\<close> compares full paths: an absolute path inside the root is the relative one it denotes.
\<close>

definition in_root :: "drive \<Rightarrow> pathbuf \<Rightarrow> pathbuf" where
  "in_root d p =
     (if pb_abs p \<and> prefix (drv_root d) (pb_comps p)
      then PathBuf False (drop (length (drv_root d)) (pb_comps p)) else p)"

definition prune_empty_dirs :: "drive \<Rightarrow> pathbuf \<Rightarrow> pathbuf \<Rightarrow> drive" where
  "prune_empty_dirs d dir stop = prune_empty d (in_root d dir) (in_root d stop)"

definition prune_parent :: "drive \<Rightarrow> pathbuf \<Rightarrow> pathbuf \<Rightarrow> drive" where
  "prune_parent d p stop = (case pparent p of Some q \<Rightarrow> prune_empty_dirs d q stop | None \<Rightarrow> d)"

section \<open>Object metadata\<close>

definition write_meta :: "drive \<Rightarrow> string \<Rightarrow> string \<Rightarrow> stored_meta \<Rightarrow> drive \<times> unit result" where
  "write_meta d bucket key m = save_file d (fs_meta_path bucket key) (StoredDoc m) ''meta''"

text \<open>The metadata of a payload whose sidecar is missing or unreadable.\<close>

definition meta_from_stat :: "nat \<Rightarrow> int \<Rightarrow> string option \<Rightarrow> stored_meta" where
  "meta_from_stat n t vid =
     \<lparr> sm_etag = [], sm_size = n, sm_content_type = ''application/octet-stream'', sm_user_metadata = [],
       sm_last_modified = t, sm_encrypted = False, sm_version_id = vid \<rparr>"

definition read_stored :: "fs_env \<Rightarrow> fs_ctx \<Rightarrow> drive \<Rightarrow> string \<Rightarrow> string \<Rightarrow> stored_meta result" where
  "read_stored E C d bucket key =
     (let obj_path = fs_object_path bucket key
      in if drive_stat d obj_path \<noteq> Some False then Err NoSuchKey
         else case Option.bind (drive_read d (fs_meta_path bucket key)) as_stored of
           Some stored \<Rightarrow> Ok stored
         | None \<Rightarrow>
             Ok (meta_from_stat (fs_len E d obj_path)
                   (case fc_mtime C obj_path of Some t \<Rightarrow> t | None \<Rightarrow> fc_now C) None))"

definition stored_to_meta :: "string \<Rightarrow> stored_meta \<Rightarrow> object_meta" where
  "stored_to_meta key s =
     \<lparr> om_key = key, om_size = sm_size s, om_etag = sm_etag s, om_last_modified = unix_time (sm_last_modified s),
       om_content_type = sm_content_type s, om_user_metadata = sm_user_metadata s,
       om_encrypted = sm_encrypted s, om_version_id = sm_version_id s, om_audit = None \<rparr>"

definition load_meta :: "fs_env \<Rightarrow> fs_ctx \<Rightarrow> drive \<Rightarrow> string \<Rightarrow> string \<Rightarrow> object_meta result" where
  "load_meta E C d bucket key =
     (case read_stored E C d bucket key of Err e \<Rightarrow> Err e | Ok s \<Rightarrow> Ok (stored_to_meta key s))"

definition fs_should_encrypt :: "fs_store \<Rightarrow> bool \<Rightarrow> bool" where
  "fs_should_encrypt st encrypt = (encrypt \<or> fs_encrypt_all st)"

section \<open>Versions\<close>

definition versioning_mode :: "drive \<Rightarrow> string \<Rightarrow> version_mode" where
  "versioning_mode d bucket =
     (case Option.bind (read_bucket_cfg d bucket ''versioning.json'') as_status of
        Some s \<Rightarrow> if s = ''Enabled'' then Enabled else if s = ''Suspended'' then Suspended else Off
      | None \<Rightarrow> Off)"

definition fs_read_history :: "drive \<Rightarrow> string \<Rightarrow> string \<Rightarrow> version_entry list" where
  "fs_read_history d bucket key =
     (case Option.bind (drive_read d (fs_history_path bucket key)) as_versions of Some vs \<Rightarrow> vs | None \<Rightarrow> [])"

definition fs_write_history :: "drive \<Rightarrow> string \<Rightarrow> string \<Rightarrow> version_entry list \<Rightarrow> drive \<times> unit result" where
  "fs_write_history d bucket key hist = save_file d (fs_history_path bucket key) (VersionsDoc hist) ''history''"

definition fs_has_history :: "drive \<Rightarrow> string \<Rightarrow> string \<Rightarrow> bool" where
  "fs_has_history d bucket key = (drive_stat d (fs_history_path bucket key) \<noteq> None)"

definition legacy_version :: "stored_meta \<Rightarrow> version_entry" where
  "legacy_version s =
     \<lparr> fe_version_id = ''null'', fe_delete_marker = False, fe_last_modified = sm_last_modified s,
       fe_etag = sm_etag s, fe_size = sm_size s \<rparr>"

definition fs_seed_legacy_history ::
  "fs_env \<Rightarrow> fs_ctx \<Rightarrow> drive \<Rightarrow> string \<Rightarrow> string \<Rightarrow> drive \<times> unit result" where
  "fs_seed_legacy_history E C d bucket key =
     (if fs_has_history d bucket key then (d, Ok ())
      else case read_stored E C d bucket key of
        Err _ \<Rightarrow> (d, Ok ())
      | Ok s \<Rightarrow> fs_write_history d bucket key [legacy_version s])"

definition demote_canonical :: "drive \<Rightarrow> string \<Rightarrow> string \<Rightarrow> string \<Rightarrow> drive \<times> unit result" where
  "demote_canonical d bucket key vid =
     (case mkdir_parent d (fs_version_data_path bucket key vid) of
        (d1, False) \<Rightarrow> (d1, Err (Internal ''mkdir archive''))
      | (d1, True) \<Rightarrow>
          (case drive_rename d1 (fs_object_path bucket key) (fs_version_data_path bucket key vid) of
             (d2, False) \<Rightarrow> (d2, Err (Internal ''archive payload''))
           | (d2, True) \<Rightarrow>
               (fst (drive_rename d2 (fs_meta_path bucket key) (fs_version_meta_path bucket key vid)), Ok ())))"

definition promote_canonical :: "drive \<Rightarrow> string \<Rightarrow> string \<Rightarrow> string \<Rightarrow> drive \<times> unit result" where
  "promote_canonical d bucket key vid =
     (case mkdir_parent d (fs_object_path bucket key) of
        (d1, False) \<Rightarrow> (d1, Err (Internal ''mkdir bucket''))
      | (d1, True) \<Rightarrow>
          (case drive_rename d1 (fs_version_data_path bucket key vid) (fs_object_path bucket key) of
             (d2, False) \<Rightarrow> (d2, Err (Internal ''promote payload''))
           | (d2, True) \<Rightarrow>
               (fst (drive_rename d2 (fs_version_meta_path bucket key vid) (fs_meta_path bucket key)), Ok ())))"

definition discard_canonical :: "drive \<Rightarrow> string \<Rightarrow> string \<Rightarrow> drive" where
  "discard_canonical d bucket key =
     fst (drive_remove_file (fst (drive_remove_file d (fs_object_path bucket key))) (fs_meta_path bucket key))"

definition fs_remove_archive :: "drive \<Rightarrow> string \<Rightarrow> string \<Rightarrow> string \<Rightarrow> drive" where
  "fs_remove_archive d bucket key vid =
     fst (drive_remove_file (fst (drive_remove_file d (fs_version_data_path bucket key vid)))
           (fs_version_meta_path bucket key vid))"

definition head_occupied :: "version_entry list \<Rightarrow> bool" where
  "head_occupied hist = (case hist of v # _ \<Rightarrow> \<not> fe_delete_marker v | [] \<Rightarrow> False)"

text \<open>Suspended buckets: the \<open>null\<close> version gives way; whether the current slot is still occupied.\<close>

definition fs_purge_null ::
  "drive \<Rightarrow> string \<Rightarrow> string \<Rightarrow> version_entry list \<Rightarrow> bool \<Rightarrow> drive \<times> version_entry list \<times> bool" where
  "fs_purge_null d bucket key hist occupied =
     (case position (\<lambda>v. fe_version_id v = ''null'') hist of
        None \<Rightarrow> (d, hist, occupied)
      | Some idx \<Rightarrow>
          let is_marker = fe_delete_marker (hist ! idx)
          in if idx = 0 \<and> occupied then (discard_canonical d bucket key, remove_at idx hist, False)
             else if \<not> is_marker then (fs_remove_archive d bucket key ''null'', remove_at idx hist, occupied)
             else (d, remove_at idx hist, occupied))"

text \<open>
  \<open>begin_versioned_write\<close>, and the same steps in the marker branch of \<open>delete_object\<close>: seed, purge, demote.
  \<open>uuid\<close> is the UUID drawn for the new version; \<open>VMode::Off\<close> panics, and both callers exclude it.
\<close>

definition fs_begin_write ::
  "fs_env \<Rightarrow> fs_ctx \<Rightarrow> string \<Rightarrow> drive \<Rightarrow> string \<Rightarrow> string \<Rightarrow> version_mode \<Rightarrow>
   drive \<times> (string \<times> version_entry list) result" where
  "fs_begin_write E C uuid d bucket key mode =
     (case fs_seed_legacy_history E C d bucket key of
        (d1, Err e) \<Rightarrow> (d1, Err e)
      | (d1, Ok _) \<Rightarrow>
          let hist = fs_read_history d1 bucket key;
              new_vid = (if mode = Suspended then ''null'' else uuid)
          in case (if mode = Suspended then fs_purge_null d1 bucket key hist (head_occupied hist)
                   else (d1, hist, head_occupied hist)) of
               (d2, hist2, occupied) \<Rightarrow>
                 (if occupied
                  then (case demote_canonical d2 bucket key (fe_version_id (hist2 ! 0)) of
                          (d3, Err e) \<Rightarrow> (d3, Err e)
                        | (d3, Ok _) \<Rightarrow> (d3, Ok (new_vid, hist2)))
                  else (d2, Ok (new_vid, hist2))))"

definition fs_finish_write ::
  "drive \<Rightarrow> string \<Rightarrow> string \<Rightarrow> version_entry list \<Rightarrow> string \<Rightarrow> string \<Rightarrow> nat \<Rightarrow> int \<Rightarrow> drive \<times> unit result" where
  "fs_finish_write d bucket key hist vid etag sz last_modified =
     fs_write_history d bucket key
       (\<lparr> fe_version_id = vid, fe_delete_marker = False, fe_last_modified = last_modified, fe_etag = etag,
          fe_size = sz \<rparr> # hist)"

definition read_version_stored ::
  "fs_env \<Rightarrow> fs_ctx \<Rightarrow> drive \<Rightarrow> string \<Rightarrow> string \<Rightarrow> string \<Rightarrow> stored_meta result" where
  "read_version_stored E C d bucket key vid =
     (case Option.bind (drive_read d (fs_version_meta_path bucket key vid)) as_stored of
        Some stored \<Rightarrow> Ok stored
      | None \<Rightarrow>
          (let p = fs_version_data_path bucket key vid
           in if drive_stat d p = None then Err NoSuchVersion
              else Ok (meta_from_stat (fs_len E d p) (fc_now C) (Some vid))))"

section \<open>Opening a store\<close>

definition fs_new :: "drive \<Rightarrow> bool \<Rightarrow> fs_store result" where
  "fs_new d encrypt_all =
     (case drive_create_dir_all d fs_tmp_dir of
        (d1, False) \<Rightarrow> Err (Internal ''init'')
      | (d1, True) \<Rightarrow>
     (case drive_create_dir_all d1 fs_meta_root of
        (d2, False) \<Rightarrow> Err (Internal ''init'')
      | (d2, True) \<Rightarrow>
     (case drive_create_dir_all d2 fs_multipart_root of
        (d3, False) \<Rightarrow> Err (Internal ''init'')
      | (d3, True) \<Rightarrow> Ok \<lparr> fs_drive = d3, fs_encrypt_all = encrypt_all \<rparr>)))"

end
