(* ===== verification/Fs_Objects.thy ===== *)
theory Fs_Objects
  imports Fs_Store
begin

text \<open>
  \<open>impl ObjectStore for FsStore\<close> (\<open>src/storage/fs.rs\<close>, lines 750 to 2000): buckets, objects, versions, the
  two listings, multipart uploads, configuration and sidecars.  An operation takes the store and returns
  it updated; a read returns no store.  The per-key lock makes each writing operation one step.
\<close>

section \<open>Buckets\<close>

definition with_drive :: "fs_store \<Rightarrow> drive \<times> 'a \<Rightarrow> fs_store \<times> 'a" where
  "with_drive st r = (st\<lparr>fs_drive := fst r\<rparr>, snd r)"

definition fs_head_bucket :: "drive \<Rightarrow> string \<Rightarrow> unit result" where
  "fs_head_bucket d bucket =
     (if drive_stat d (fs_bucket_path bucket) = Some True then Ok () else Err NoSuchBucket)"

definition fs_create_bucket :: "fs_store \<Rightarrow> string \<Rightarrow> fs_store \<times> unit result" where
  "fs_create_bucket st bucket =
     (case validate_bucket_name bucket of
        Err e \<Rightarrow> (st, Err e)
      | Ok _ \<Rightarrow>
          (if drive_stat (fs_drive st) (fs_bucket_path bucket) \<noteq> None then (st, Err BucketAlreadyOwnedByYou)
           else with_drive st
             (case drive_create_dir_all (fs_drive st) (fs_bucket_path bucket) of
                (d, k) \<Rightarrow> (d, if k then Ok () else Err (Internal ''create bucket'')))))"

definition fs_delete_bucket :: "fs_store \<Rightarrow> string \<Rightarrow> fs_store \<times> unit result" where
  "fs_delete_bucket st bucket =
     (let d = fs_drive st; path = fs_bucket_path bucket
      in if drive_stat d path = None then (st, Err NoSuchBucket)
         else case drive_walk d path of
           None \<Rightarrow> (st, Err (Internal ''walk''))
         | Some es \<Rightarrow>
             (if list_ex wk_is_file es then (st, Err BucketNotEmpty)
              else case drive_remove_dir_all d path of
                (d1, False) \<Rightarrow> (st\<lparr>fs_drive := d1\<rparr>, Err (Internal ''remove bucket''))
              | (d1, True) \<Rightarrow>
                  (st\<lparr>fs_drive :=
                     foldl (\<lambda>d p. fst (drive_remove_dir_all d p)) d1
                       [pjoin fs_meta_root bucket, pjoin fs_multipart_root bucket, fs_bucket_cfg_dir bucket,
                        pjoin fs_versions_root bucket]\<rparr>, Ok ())))"

text \<open>The names of the buckets; the creation dates come from the file system.\<close>

definition fs_list_buckets :: "drive \<Rightarrow> string list result" where
  "fs_list_buckets d =
     (case drive_read_dir d (path_new []) of
        None \<Rightarrow> Err (Internal ''read root'')
      | Some es \<Rightarrow> Ok (sort (map de_name (filter (\<lambda>e. de_name e \<noteq> SYS_DIR \<and> de_is_dir e) es))))"

section \<open>Writing objects\<close>

text \<open>
  The end of \<open>put_object\<close>, \<open>copy_object\<close> and \<open>complete_multipart\<close>: a payload in a temporary file becomes the
  current version.  \<open>cleanup\<close> is the staging directory a completed upload removes.
\<close>

definition commit_object ::
  "fs_env \<Rightarrow> fs_ctx \<Rightarrow> string \<Rightarrow> drive \<Rightarrow> string \<Rightarrow> string \<Rightarrow> pathbuf \<Rightarrow> string \<Rightarrow> nat \<Rightarrow> string \<Rightarrow> string_map \<Rightarrow>
   bool \<Rightarrow> pathbuf option \<Rightarrow> drive \<times> object_meta result" where
  "commit_object E C uuid d bucket key tmp etag sz content_type user_metadata encrypted cleanup =
     (let mode = versioning_mode d bucket
      in case (if mode = Off then (d, Ok None)
               else case fs_begin_write E C uuid d bucket key mode of
                   (d1, Err e) \<Rightarrow> (d1, Err e) | (d1, Ok p) \<Rightarrow> (d1, Ok (Some p))) of
           (d1, Err e) \<Rightarrow> (d1, Err e)
         | (d1, Ok pending) \<Rightarrow>
      (case move_into_place d1 tmp (fs_object_path bucket key) of
           (d2, Err e) \<Rightarrow> (d2, Err e)
         | (d2, Ok _) \<Rightarrow>
             let stored = \<lparr> sm_etag = etag, sm_size = sz, sm_content_type = content_type,
                   sm_user_metadata = user_metadata, sm_last_modified = fc_now C, sm_encrypted = encrypted,
                   sm_version_id = map_option fst pending \<rparr>
             in case write_meta d2 bucket key stored of
                  (d3, Err e) \<Rightarrow> (d3, Err e)
                | (d3, Ok _) \<Rightarrow>
                    let d4 = (case cleanup of Some p \<Rightarrow> fst (drive_remove_dir_all d3 p) | None \<Rightarrow> d3)
                    in case pending of
                         None \<Rightarrow> (d4, Ok (stored_to_meta key stored))
                       | Some (vid, hist) \<Rightarrow>
                           (case fs_finish_write d4 bucket key hist vid etag sz (fc_now C) of
                              (d5, Err e) \<Rightarrow> (d5, Err e)
                            | (d5, Ok _) \<Rightarrow> (d5, Ok (stored_to_meta key stored)))))"

definition fs_encrypt_source :: "fs_env \<Rightarrow> fs_ctx \<Rightarrow> bool \<Rightarrow> body \<Rightarrow> body result" where
  "fs_encrypt_source E C encrypted b =
     (if encrypted
      then (case encrypting_reader (fv_crypto E) (fc_entropy C) (fv_provider E) b of
              Err _ \<Rightarrow> Err (Internal ''encrypt object'') | Ok r \<Rightarrow> Ok r)
      else Ok b)"

definition fs_decrypt_source :: "fs_env \<Rightarrow> bool \<Rightarrow> body \<Rightarrow> string \<Rightarrow> body result" where
  "fs_decrypt_source E encrypted b what =
     (if encrypted
      then (case decrypting_reader_checked (fv_crypto E) (fv_provider E) b of
              Err _ \<Rightarrow> Err (Internal what) | Ok r \<Rightarrow> Ok r)
      else Ok b)"

text \<open>From a plain body to the committed object: what \<open>put_object\<close> and \<open>copy_object\<close> share.\<close>

definition store_body ::
  "fs_env \<Rightarrow> fs_ctx \<Rightarrow> fs_store \<Rightarrow> string \<Rightarrow> string \<Rightarrow> body \<Rightarrow> string \<Rightarrow> string_map \<Rightarrow> bool \<Rightarrow>
   fs_store \<times> object_meta result" where
  "store_body E C st bucket key b content_type user_metadata encrypt =
     (let encrypted = fs_should_encrypt st encrypt
      in case fs_encrypt_source E C encrypted b of
           Err e \<Rightarrow> (st, Err e)
         | Ok src \<Rightarrow>
             (case stream_to_temp E C 0 (fs_drive st) src (\<not> encrypted) of
                (d1, Err e) \<Rightarrow> (st\<lparr>fs_drive := d1\<rparr>, Err e)
              | (d1, Ok (tmp, etag, stored_size)) \<Rightarrow>
                  let sz = (if encrypted then plaintext_len stored_size (ctx_header_len (fv_provider E))
                            else stored_size)
                  in with_drive st
                       (commit_object E C (fc_uuid C 1) d1 bucket key tmp etag sz content_type user_metadata
                         encrypted None)))"

definition fs_put_object ::
  "fs_env \<Rightarrow> fs_ctx \<Rightarrow> fs_store \<Rightarrow> string \<Rightarrow> string \<Rightarrow> body \<Rightarrow> string \<Rightarrow> string_map \<Rightarrow> bool \<Rightarrow>
   fs_store \<times> object_meta result" where
  "fs_put_object E C st bucket key b content_type user_metadata encrypt =
     (case fs_head_bucket (fs_drive st) bucket of
        Err e \<Rightarrow> (st, Err e)
      | Ok _ \<Rightarrow>
     (case validate_key key of
        Err e \<Rightarrow> (st, Err e)
      | Ok _ \<Rightarrow> store_body E C st bucket key b content_type user_metadata encrypt))"

definition fs_copy_object ::
  "fs_env \<Rightarrow> fs_ctx \<Rightarrow> fs_store \<Rightarrow> string \<Rightarrow> string \<Rightarrow> string \<Rightarrow> string \<Rightarrow> bool \<Rightarrow> fs_store \<times> object_meta result" where
  "fs_copy_object E C st src_bucket src_key dst_bucket dst_key encrypt =
     (case read_stored E C (fs_drive st) src_bucket src_key of
        Err e \<Rightarrow> (st, Err e)
      | Ok src \<Rightarrow>
     (case fs_head_bucket (fs_drive st) dst_bucket of
        Err e \<Rightarrow> (st, Err e)
      | Ok _ \<Rightarrow>
     (case validate_key dst_key of
        Err e \<Rightarrow> (st, Err e)
      | Ok _ \<Rightarrow>
     (case fs_open E (fs_drive st) (fs_object_path src_bucket src_key) of
        None \<Rightarrow> (st, Err NoSuchKey)
      | Some file \<Rightarrow>
     (case fs_decrypt_source E (sm_encrypted src) file ''decrypt source'' of
        Err e \<Rightarrow> (st, Err e)
      | Ok plain \<Rightarrow>
          store_body E C st dst_bucket dst_key plain (sm_content_type src) (sm_user_metadata src) encrypt)))))"

section \<open>Reading objects\<close>

definition fs_body :: "fs_env \<Rightarrow> drive \<Rightarrow> pathbuf \<Rightarrow> bool \<Rightarrow> s3error \<Rightarrow> body result" where
  "fs_body E d path encrypted missing =
     (case fs_open E d path of
        None \<Rightarrow> Err missing
      | Some file \<Rightarrow> fs_decrypt_source E encrypted file ''decrypt object'')"

definition fs_get_object ::
  "fs_env \<Rightarrow> fs_ctx \<Rightarrow> drive \<Rightarrow> string \<Rightarrow> string \<Rightarrow> (object_meta \<times> body) result" where
  "fs_get_object E C d bucket key =
     (case read_stored E C d bucket key of
        Err e \<Rightarrow> Err e
      | Ok stored \<Rightarrow>
          (case fs_body E d (fs_object_path bucket key) (sm_encrypted stored) NoSuchKey of
             Err e \<Rightarrow> Err e
           | Ok b \<Rightarrow> Ok (stored_to_meta key stored, b)))"

text \<open>The plaintext of the chunks a range covers; a chunk beyond the end of the file ends the loop.\<close>

fun range_chunks ::
  "crypto_lib \<Rightarrow> object_cipher \<Rightarrow> bytes \<Rightarrow> nat \<Rightarrow> nat list \<Rightarrow> bytes result" where
  "range_chunks A oc raw header_len [] = Ok []"
| "range_chunks A oc raw header_len (ci # cis) =
     (let off = header_len + ci * CHUNK_BLOCK
      in if length raw \<le> off then Ok []
         else case decrypt_chunk A oc (word_of_nat ci) (take CHUNK_BLOCK (drop off raw)) of
           Err _ \<Rightarrow> Err (Internal ''decrypt'')
         | Ok pt \<Rightarrow>
             (case range_chunks A oc raw header_len cis of Err e \<Rightarrow> Err e | Ok rest \<Rightarrow> Ok (pt @ rest)))"

definition encrypted_range :: "fs_env \<Rightarrow> bytes \<Rightarrow> nat \<Rightarrow> nat \<Rightarrow> nat \<Rightarrow> bytes result" where
  "encrypted_range E raw start stop len =
     (if length raw < 8 then Err (Internal ''read header'')
      else
        let header_len = 8 + from_be16 (raw ! 6) (raw ! 7) + 8
        in if length raw < header_len then Err (Internal ''read header'')
           else case object_cipher_open (fv_provider E) (take header_len raw) of
             Err _ \<Rightarrow> Err (Internal ''open'')
           | Ok (oc, _) \<Rightarrow>
               let first_chunk = start div CHUNK_SIZE
               in case range_chunks (fv_crypto E) oc raw header_len [first_chunk ..< Suc (stop div CHUNK_SIZE)] of
                    Err e \<Rightarrow> Err e
                  | Ok plain \<Rightarrow>
                      let local_start = start - first_chunk * CHUNK_SIZE;
                          local_end = min (local_start + len) (length plain)
                      in Ok (take (local_end - local_start) (drop local_start plain)))"

definition fs_get_object_range ::
  "fs_env \<Rightarrow> fs_ctx \<Rightarrow> drive \<Rightarrow> string \<Rightarrow> string \<Rightarrow> nat \<Rightarrow> nat option \<Rightarrow> (object_meta \<times> nat \<times> body) result" where
  "fs_get_object_range E C d bucket key start0 stop0 =
     (case read_stored E C d bucket key of
        Err e \<Rightarrow> Err e
      | Ok stored \<Rightarrow>
          let sz = sm_size stored;
              start = min start0 sz;
              stop = (case stop0 of Some e \<Rightarrow> min e (sz - 1) | None \<Rightarrow> sz - 1);
              len = (if sz = 0 \<or> stop < start then 0 else stop - start + 1)
          in case fs_open E d (fs_object_path bucket key) of
               None \<Rightarrow> Err NoSuchKey
             | Some file \<Rightarrow>
                 (if \<not> sm_encrypted stored
                  then Ok (stored_to_meta key stored, len,
                           Body (take len (drop start (body_bytes file))) (body_fails file))
                  else case encrypted_range E (body_bytes file) start stop len of
                    Err e \<Rightarrow> Err e
                  | Ok piece \<Rightarrow> Ok (stored_to_meta key stored, len, Body piece False)))"

definition fs_head_object :: "fs_env \<Rightarrow> fs_ctx \<Rightarrow> drive \<Rightarrow> string \<Rightarrow> string \<Rightarrow> object_meta result" where
  "fs_head_object E C d bucket key = load_meta E C d bucket key"

section \<open>Deleting objects\<close>

definition fs_marker :: "fs_ctx \<Rightarrow> string \<Rightarrow> version_entry" where
  "fs_marker C vid =
     \<lparr> fe_version_id = vid, fe_delete_marker = True, fe_last_modified = fc_now C, fe_etag = [], fe_size = 0 \<rparr>"

definition fs_remove_object :: "drive \<Rightarrow> string \<Rightarrow> string \<Rightarrow> drive" where
  "fs_remove_object d bucket key =
     (let obj_path = fs_object_path bucket key;
          meta_path = fs_meta_path bucket key;
          d1 = fst (drive_remove_file d obj_path);
          d2 = fst (drive_remove_file d1 meta_path);
          d3 = foldl (\<lambda>d sfx. delete_obj_sidecar d bucket key sfx) d2
                 [''tags.json'', ''retention.json'', ''legalhold.json''];
          d4 = prune_parent d3 obj_path (fs_bucket_path bucket)
      in prune_parent d4 meta_path (pjoin fs_meta_root bucket))"

definition fs_delete_object ::
  "fs_env \<Rightarrow> fs_ctx \<Rightarrow> fs_store \<Rightarrow> string \<Rightarrow> string \<Rightarrow> fs_store \<times> delete_outcome result" where
  "fs_delete_object E C st bucket key =
     (case fs_head_bucket (fs_drive st) bucket of
        Err e \<Rightarrow> (st, Err e)
      | Ok _ \<Rightarrow>
          let mode = versioning_mode (fs_drive st) bucket
          in if mode \<noteq> Off
             then (case fs_begin_write E C (fc_uuid C 0) (fs_drive st) bucket key mode of
                     (d1, Err e) \<Rightarrow> (st\<lparr>fs_drive := d1\<rparr>, Err e)
                   | (d1, Ok (vid, hist)) \<Rightarrow>
                       (case fs_write_history d1 bucket key (fs_marker C vid # hist) of
                          (d2, Err e) \<Rightarrow> (st\<lparr>fs_drive := d2\<rparr>, Err e)
                        | (d2, Ok _) \<Rightarrow>
                            (st\<lparr>fs_drive := d2\<rparr>, Ok \<lparr> do_version_id = Some vid, do_delete_marker = True \<rparr>)))
             else (st\<lparr>fs_drive := fs_remove_object (fs_drive st) bucket key\<rparr>, Ok delete_outcome_default))"

section \<open>One version\<close>

definition version_index :: "version_entry list \<Rightarrow> string \<Rightarrow> nat result" where
  "version_index hist vid =
     (case position (\<lambda>v. fe_version_id v = vid) hist of Some idx \<Rightarrow> Ok idx | None \<Rightarrow> Err NoSuchVersion)"

text \<open>The prelude of the two reads of a version: where its payload lies, and its metadata.\<close>

definition locate_version ::
  "fs_env \<Rightarrow> fs_ctx \<Rightarrow> fs_store \<Rightarrow> string \<Rightarrow> string \<Rightarrow> string \<Rightarrow> fs_store \<times> (pathbuf \<times> stored_meta) result" where
  "locate_version E C st bucket key vid =
     (case fs_head_bucket (fs_drive st) bucket of
        Err e \<Rightarrow> (st, Err e)
      | Ok _ \<Rightarrow>
     (case fs_seed_legacy_history E C (fs_drive st) bucket key of
        (d1, Err e) \<Rightarrow> (st\<lparr>fs_drive := d1\<rparr>, Err e)
      | (d1, Ok _) \<Rightarrow>
          (st\<lparr>fs_drive := d1\<rparr>,
           let hist = fs_read_history d1 bucket key
           in case version_index hist vid of
                Err e \<Rightarrow> Err e
              | Ok idx \<Rightarrow>
                  (if fe_delete_marker (hist ! idx) then Err MethodNotAllowed
                   else if idx = 0
                   then (case read_stored E C d1 bucket key of
                           Err e \<Rightarrow> Err e | Ok s \<Rightarrow> Ok (fs_object_path bucket key, s))
                   else (case read_version_stored E C d1 bucket key vid of
                           Err e \<Rightarrow> Err e | Ok s \<Rightarrow> Ok (fs_version_data_path bucket key vid, s))))))"

definition fs_get_object_version ::
  "fs_env \<Rightarrow> fs_ctx \<Rightarrow> fs_store \<Rightarrow> string \<Rightarrow> string \<Rightarrow> string \<Rightarrow> fs_store \<times> (object_meta \<times> body) result" where
  "fs_get_object_version E C st bucket key vid =
     (case locate_version E C st bucket key vid of
        (st', Err e) \<Rightarrow> (st', Err e)
      | (st', Ok (path, stored)) \<Rightarrow>
          (st', case fs_body E (fs_drive st') path (sm_encrypted stored) NoSuchVersion of
                  Err e \<Rightarrow> Err e
                | Ok b \<Rightarrow> Ok ((stored_to_meta key stored)\<lparr>om_version_id := Some vid\<rparr>, b)))"

definition fs_head_object_version ::
  "fs_env \<Rightarrow> fs_ctx \<Rightarrow> fs_store \<Rightarrow> string \<Rightarrow> string \<Rightarrow> string \<Rightarrow> fs_store \<times> object_meta result" where
  "fs_head_object_version E C st bucket key vid =
     (case locate_version E C st bucket key vid of
        (st', Err e) \<Rightarrow> (st', Err e)
      | (st', Ok (path, stored)) \<Rightarrow> (st', Ok ((stored_to_meta key stored)\<lparr>om_version_id := Some vid\<rparr>)))"

text \<open>The payload of a deleted version goes, and the next real version takes the current slot.\<close>

definition drop_version :: "drive \<Rightarrow> string \<Rightarrow> string \<Rightarrow> version_entry list \<Rightarrow> nat \<Rightarrow> drive \<times> unit result" where
  "drop_version d bucket key hist idx =
     (let entry = hist ! idx;
          d1 = (if fe_delete_marker entry then d
                else if idx = 0 then discard_canonical d bucket key
                else fs_remove_archive d bucket key (fe_version_id entry));
          rest = remove_at idx hist
      in if idx = 0 \<and> head_occupied rest then promote_canonical d1 bucket key (fe_version_id (hd rest))
         else (d1, Ok ()))"

definition fs_delete_object_version ::
  "fs_env \<Rightarrow> fs_ctx \<Rightarrow> fs_store \<Rightarrow> string \<Rightarrow> string \<Rightarrow> string \<Rightarrow> fs_store \<times> delete_outcome result" where
  "fs_delete_object_version E C st bucket key vid =
     (case fs_head_bucket (fs_drive st) bucket of
        Err e \<Rightarrow> (st, Err e)
      | Ok _ \<Rightarrow>
     (case fs_seed_legacy_history E C (fs_drive st) bucket key of
        (d1, Err e) \<Rightarrow> (st\<lparr>fs_drive := d1\<rparr>, Err e)
      | (d1, Ok _) \<Rightarrow>
          let hist = fs_read_history d1 bucket key
          in case version_index hist vid of
               Err e \<Rightarrow> (st\<lparr>fs_drive := d1\<rparr>, Err e)
             | Ok idx \<Rightarrow>
                 (case drop_version d1 bucket key hist idx of
                    (d2, Err e) \<Rightarrow> (st\<lparr>fs_drive := d2\<rparr>, Err e)
                  | (d2, Ok _) \<Rightarrow>
                      let rest = remove_at idx hist;
                          outcome = \<lparr> do_version_id = Some vid, do_delete_marker = fe_delete_marker (hist ! idx) \<rparr>
                      in if rest = []
                         then (st\<lparr>fs_drive :=
                                prune_empty_dirs (fst (drive_remove_file d2 (fs_history_path bucket key)))
                                  (fs_version_dir bucket key) fs_versions_root\<rparr>, Ok outcome)
                         else (case fs_write_history d2 bucket key rest of
                                 (d3, Err e) \<Rightarrow> (st\<lparr>fs_drive := d3\<rparr>, Err e)
                               | (d3, Ok _) \<Rightarrow> (st\<lparr>fs_drive := d3\<rparr>, Ok outcome)))))"

end
