(* ===== verification/Fs_Listing.thy ===== *)
theory Fs_Listing
  imports Fs_Objects
begin

text \<open>
  The listings of \<open>src/storage/fs.rs\<close> (lines 1292 to 1547).  A walk of a directory is the drive's; the loop
  that fills a page of keys is the one of the erasure store, \<open>page_loop\<close>.
\<close>

section \<open>Keys\<close>

text \<open>The key of a payload file: a marker file stands for its directory, and has no key at the bucket's root.\<close>

definition file_key :: "path \<Rightarrow> string option" where
  "file_key rel =
     (let s = join_with ''/'' rel
      in if s = DIR_MARKER then None
         else case strip_suffix (''/'' @ DIR_MARKER) s of Some dir \<Rightarrow> Some (dir @ ''/'') | None \<Rightarrow> Some s)"

definition payload_keys :: "walk_entry list \<Rightarrow> string list" where
  "payload_keys es = List.map_filter (\<lambda>e. if wk_is_file e then file_key (wk_rel e) else None) es"

fun load_all :: "(string \<Rightarrow> 'a result) \<Rightarrow> string list \<Rightarrow> 'a list result" where
  "load_all f [] = Ok []"
| "load_all f (k # ks) =
     (case f k of
        Err e \<Rightarrow> Err e
      | Ok x \<Rightarrow> (case load_all f ks of Err e \<Rightarrow> Err e | Ok xs \<Rightarrow> Ok (x # xs)))"

definition fs_list_objects_v2 ::
  "fs_env \<Rightarrow> fs_ctx \<Rightarrow> drive \<Rightarrow> string \<Rightarrow> string \<Rightarrow> string option \<Rightarrow> string option \<Rightarrow> string option \<Rightarrow> nat \<Rightarrow>
   listing result" where
  "fs_list_objects_v2 E C d bucket pre delim token after mx =
     (case fs_head_bucket d bucket of
        Err e \<Rightarrow> Err e
      | Ok _ \<Rightarrow>
     (case drive_walk d (fs_bucket_path bucket) of
        None \<Rightarrow> Err (Internal ''walk'')
      | Some es \<Rightarrow>
          let keys = sort (filter (\<lambda>k. starts_with k pre) (payload_keys es));
              pg = page_loop pre delim token after mx keys [] [] 0
          in case load_all (load_meta E C d bucket) (pg_chosen pg) of
               Err e \<Rightarrow> Err e
             | Ok objects \<Rightarrow>
                 Ok \<lparr> ls_objects = objects, ls_common_prefixes = sort (pg_common pg),
                      ls_is_truncated = pg_truncated pg, ls_next_continuation_token = pg_next pg \<rparr>))"

section \<open>Versions\<close>

definition history_keys :: "walk_entry list \<Rightarrow> string list" where
  "history_keys es =
     map (\<lambda>e. join_with ''/'' (butlast (wk_rel e)))
       (filter (\<lambda>e. wk_is_file e \<and> wk_rel e \<noteq> [] \<and> last (wk_rel e) = ''kp.history.json'') es)"

definition version_rows :: "string \<Rightarrow> version_entry list \<Rightarrow> object_version list" where
  "version_rows key hist =
     map (\<lambda>(i, v). \<lparr> ov_key = key, ov_version_id = fe_version_id v, ov_is_latest = (i = 0),
            ov_last_modified = unix_time (fe_last_modified v), ov_etag = fe_etag v, ov_size = fe_size v,
            ov_is_delete_marker = fe_delete_marker v, ov_audit = None \<rparr>)
       (enumerate 0 hist)"

definition fs_key_versions ::
  "fs_env \<Rightarrow> fs_ctx \<Rightarrow> drive \<Rightarrow> string \<Rightarrow> string list \<Rightarrow> string \<Rightarrow> object_version list result" where
  "fs_key_versions E C d bucket versioned key =
     (if key \<in> set versioned then Ok (version_rows key (fs_read_history d bucket key))
      else case load_meta E C d bucket key of
        Err e \<Rightarrow> Err e
      | Ok m \<Rightarrow>
          Ok [\<lparr> ov_key = key, ov_version_id = ''null'', ov_is_latest = True, ov_last_modified = om_last_modified m,
                ov_etag = om_etag m, ov_size = om_size m, ov_is_delete_marker = False, ov_audit = None \<rparr>])"

text \<open>
  The rows of one key: skipped up to the version marker while \<open>resume\<close>, and cut when the page is full, with
  the row that did not fit.
\<close>

fun take_rows ::
  "string option \<Rightarrow> bool \<Rightarrow> nat \<Rightarrow> object_version list \<Rightarrow> object_version list \<Rightarrow>
   object_version list \<times> object_version option" where
  "take_rows vid_marker resume room [] out = (out, None)"
| "take_rows vid_marker resume room (ev # evs) out =
     (if resume
      then take_rows vid_marker (Some (ov_version_id ev) \<noteq> vid_marker) room evs out
      else if room \<le> length out then (out, Some ev)
      else take_rows vid_marker False room evs (out @ [ev]))"

text \<open>
  A page of versions; \<open>started\<close> says whether the key marker has been passed.
\<close>

definition full_page ::
  "object_version list \<Rightarrow> string list \<Rightarrow> string option \<Rightarrow> string option \<Rightarrow> version_listing" where
  "full_page out common next_key next_vid =
     \<lparr> vl_versions = out, vl_common_prefixes = sort common, vl_is_truncated = (next_key \<noteq> None),
       vl_next_key_marker = next_key, vl_next_version_id_marker = next_vid \<rparr>"

definition key_started :: "string option \<Rightarrow> bool \<Rightarrow> string \<Rightarrow> bool" where
  "key_started key_marker started key =
     (started \<or> (case key_marker of Some m \<Rightarrow> m | None \<Rightarrow> []) < key)"

fun fs_versions_loop ::
  "string \<Rightarrow> string option \<Rightarrow> string option \<Rightarrow> string option \<Rightarrow> nat \<Rightarrow> (string \<Rightarrow> object_version list result) \<Rightarrow>
   string list \<Rightarrow> bool \<Rightarrow> object_version list \<Rightarrow> string list \<Rightarrow> version_listing result" where
  "fs_versions_loop pre delim key_marker vid_marker mx rows [] started out common =
     Ok (full_page out common None None)"
| "fs_versions_loop pre delim key_marker vid_marker mx rows (key # keys) started out common =
     (if \<not> started \<and> Some key = key_marker \<and> vid_marker = None
      then fs_versions_loop pre delim key_marker vid_marker mx rows keys True out common
      else if \<not> key_started key_marker started key
      then fs_versions_loop pre delim key_marker vid_marker mx rows keys started out common
      else case common_prefix pre delim key of
        Some cp \<Rightarrow>
          (if cp \<in> set common then fs_versions_loop pre delim key_marker vid_marker mx rows keys True out common
           else if mx \<le> length out + length common then Ok (full_page out common (Some key) None)
           else fs_versions_loop pre delim key_marker vid_marker mx rows keys True out (common @ [cp]))
      | None \<Rightarrow>
          (case rows key of
             Err e \<Rightarrow> Err e
           | Ok evs \<Rightarrow>
               (case take_rows vid_marker (vid_marker \<noteq> None \<and> Some key = key_marker)
                       (mx - length common) evs out of
                  (out', Some ev) \<Rightarrow> Ok (full_page out' common (Some (ov_key ev)) (Some (ov_version_id ev)))
                | (out', None) \<Rightarrow>
                    fs_versions_loop pre delim key_marker vid_marker mx rows keys True out' common)))"

definition fs_list_object_versions ::
  "fs_env \<Rightarrow> fs_ctx \<Rightarrow> drive \<Rightarrow> string \<Rightarrow> string \<Rightarrow> string option \<Rightarrow> string option \<Rightarrow> string option \<Rightarrow> nat \<Rightarrow>
   version_listing result" where
  "fs_list_object_versions E C d bucket pre delim key_marker vid_marker mx =
     (case fs_head_bucket d bucket of
        Err e \<Rightarrow> Err e
      | Ok _ \<Rightarrow>
     (case (drive_walk d (pjoin fs_versions_root bucket), drive_walk d (fs_bucket_path bucket)) of
        (Some ves, Some bes) \<Rightarrow>
          let versioned = history_keys ves;
              all_keys = sort (remdups (filter (\<lambda>k. starts_with k pre)
                           (versioned @ filter (\<lambda>k. k \<notin> set versioned) (payload_keys bes))))
          in fs_versions_loop pre delim key_marker vid_marker mx (fs_key_versions E C d bucket versioned)
               all_keys (key_marker = None) [] []
      | _ \<Rightarrow> Err (Internal ''walk versions'')))"

end
