(* ===== verification/Fs_Multipart.thy ===== *)
theory Fs_Multipart
  imports Fs_Listing
begin

text \<open>
  Multipart uploads, bucket configuration and object sidecars of \<open>src/storage/fs.rs\<close> (lines 1548 to 2005).
  Parts are staged in plain text below the upload's directory and concatenated on completion.
\<close>

section \<open>Uploads\<close>

definition fs_create_multipart ::
  "fs_ctx \<Rightarrow> fs_store \<Rightarrow> string \<Rightarrow> string \<Rightarrow> string \<Rightarrow> string_map \<Rightarrow> bool \<Rightarrow> fs_store \<times> string result" where
  "fs_create_multipart C st bucket key content_type user_metadata encrypt =
     (case fs_head_bucket (fs_drive st) bucket of
        Err e \<Rightarrow> (st, Err e)
      | Ok _ \<Rightarrow>
     (case validate_key key of
        Err e \<Rightarrow> (st, Err e)
      | Ok _ \<Rightarrow>
          let upload_id = fc_uuid C 0;
              dir = fs_upload_dir bucket upload_id;
              manifest = \<lparr> fm_key = key, fm_content_type = content_type, fm_user_metadata = user_metadata,
                fm_created = fc_now C, fm_encrypt = fs_should_encrypt st encrypt \<rparr>
          in with_drive st
               (case drive_create_dir_all (fs_drive st) dir of
                  (d1, False) \<Rightarrow> (d1, Err (Internal ''mkdir upload''))
                | (d1, True) \<Rightarrow>
                    (case drive_write d1 (pjoin dir ''manifest.json'') (FsManifestDoc manifest) of
                       (d2, False) \<Rightarrow> (d2, Err (Internal ''write manifest''))
                     | (d2, True) \<Rightarrow> (d2, Ok upload_id)))))"

definition fs_upload_part ::
  "fs_env \<Rightarrow> fs_ctx \<Rightarrow> fs_store \<Rightarrow> string \<Rightarrow> string \<Rightarrow> string \<Rightarrow> nat \<Rightarrow> body \<Rightarrow> fs_store \<times> string result" where
  "fs_upload_part E C st bucket key upload_id part_number b =
     (let dir = fs_upload_dir bucket upload_id
      in if drive_stat (fs_drive st) (pjoin dir ''manifest.json'') = None then (st, Err NoSuchUpload)
         else with_drive st
           (case stream_to_temp E C 0 (fs_drive st) b True of
              (d1, Err e) \<Rightarrow> (d1, Err e)
            | (d1, Ok (tmp, etag, sz)) \<Rightarrow>
           (case move_into_place d1 tmp (pjoin dir (part_file part_number)) of
              (d2, Err e) \<Rightarrow> (d2, Err e)
            | (d2, Ok _) \<Rightarrow>
           (case drive_write d2 (pjoin dir (part_meta_file part_number))
                   (PartDoc \<lparr> pm_etag = etag, pm_size = sz, pm_created = fc_now C \<rparr>) of
              (d3, False) \<Rightarrow> (d3, Err (Internal ''write part meta''))
            | (d3, True) \<Rightarrow> (d3, Ok etag)))))"

text \<open>
  The part loop of \<open>complete_multipart\<close>: each listed part is checked and appended to the temporary file
  \<open>out\<close>; \<open>i\<close> counts the appends.  The concatenated MD5s and the sum of the recorded sizes.
\<close>

fun join_parts ::
  "fs_env \<Rightarrow> pathbuf \<Rightarrow> pathbuf \<Rightarrow> nat \<Rightarrow> completed_part list \<Rightarrow> drive \<Rightarrow> bytes \<Rightarrow> nat \<Rightarrow>
   drive \<times> (bytes \<times> nat) result" where
  "join_parts E dir out i [] d md5s sum_size = (d, Ok (md5s, sum_size))"
| "join_parts E dir out i (part # parts) d md5s sum_size =
     (case drive_read d (pjoin dir (part_meta_file (cp_part_number part))) of
        None \<Rightarrow> (d, Err InvalidPart)
      | Some c \<Rightarrow>
     (case as_part_meta c of
        None \<Rightarrow> (d, Err (Internal ''decode part meta''))
      | Some pm \<Rightarrow>
          if trim_matches (CHR 0x22) (cp_etag part) \<noteq> pm_etag pm then (d, Err InvalidPart)
          else
     (case hex_decode (pm_etag pm) of
        None \<Rightarrow> (d, Err (Internal ''bad part etag''))
      | Some md5 \<Rightarrow>
     (case fs_open E d (pjoin dir (part_file (cp_part_number part))) of
        None \<Rightarrow> (d, Err InvalidPart)
      | Some pf \<Rightarrow>
     (case (if body_bytes pf = [] then (d, True) else drive_append d i out (body_bytes pf)) of
        (d', False) \<Rightarrow> (d', Err (Internal ''assemble part''))
      | (d', True) \<Rightarrow>
          if body_fails pf then (d', Err (Internal ''assemble part''))
          else join_parts E dir out (Suc i) parts d' (md5s @ md5) (sum_size + pm_size pm))))))"

text \<open>
  The assembled payload: as it is, or sealed into a second temporary file, whereupon the first is removed.
\<close>

definition final_payload ::
  "fs_env \<Rightarrow> fs_ctx \<Rightarrow> bool \<Rightarrow> pathbuf \<Rightarrow> drive \<Rightarrow> drive \<times> pathbuf result" where
  "final_payload E C encrypt tmp d =
     (if \<not> encrypt then (d, Ok tmp)
      else case fs_open E d tmp of
        None \<Rightarrow> (d, Err (Internal ''reopen assembly''))
      | Some plain \<Rightarrow>
          (case fs_encrypt_source E C True plain of
             Err e \<Rightarrow> (d, Err e)
           | Ok sealed \<Rightarrow>
               (case stream_to_temp E C 1 d sealed False of
                  (d1, Err e) \<Rightarrow> (d1, Err e)
                | (d1, Ok (enc_tmp, _)) \<Rightarrow> (fst (drive_remove_file d1 tmp), Ok enc_tmp))))"

definition fs_complete_multipart ::
  "fs_env \<Rightarrow> fs_ctx \<Rightarrow> fs_store \<Rightarrow> string \<Rightarrow> string \<Rightarrow> string \<Rightarrow> completed_part list \<Rightarrow>
   fs_store \<times> object_meta result" where
  "fs_complete_multipart E C st bucket key upload_id parts =
     (let dir = fs_upload_dir bucket upload_id;
          d0 = fs_drive st;
          tmp = pjoin fs_tmp_dir (fc_uuid C 0)
      in case drive_read d0 (pjoin dir ''manifest.json'') of
           None \<Rightarrow> (st, Err NoSuchUpload)
         | Some c \<Rightarrow>
      (case as_fs_manifest c of
           None \<Rightarrow> (st, Err (Internal ''decode manifest''))
         | Some manifest \<Rightarrow> with_drive st
             (case drive_create d0 tmp of
                (d1, False) \<Rightarrow> (d1, Err (Internal ''create assembly''))
              | (d1, True) \<Rightarrow>
      (case join_parts E dir tmp 0 parts d1 [] 0 of
                (d2, Err e) \<Rightarrow> (d2, Err e)
              | (d2, Ok (md5s, sum_size)) \<Rightarrow>
                  if \<not> drive_shutdown d2 tmp then (d2, Err (Internal ''flush assembly''))
                  else
      (case final_payload E C (fm_encrypt manifest) tmp d2 of
                (d3, Err e) \<Rightarrow> (d3, Err e)
              | (d3, Ok final_tmp) \<Rightarrow>
                  commit_object E C (fc_uuid C 2) d3 bucket key final_tmp
                    (hex_encode (fv_md5 E md5s) @ ''-'' @ show_nat (length parts)) sum_size
                    (fm_content_type manifest) (fm_user_metadata manifest) (fm_encrypt manifest) (Some dir))))))"

definition fs_abort_multipart :: "fs_store \<Rightarrow> string \<Rightarrow> string \<Rightarrow> string \<Rightarrow> fs_store \<times> unit result" where
  "fs_abort_multipart st bucket key upload_id =
     (let dir = fs_upload_dir bucket upload_id
      in if drive_stat (fs_drive st) dir = None then (st, Err NoSuchUpload)
         else with_drive st
           (case drive_remove_dir_all (fs_drive st) dir of
              (d, k) \<Rightarrow> (d, if k then Ok () else Err (Internal ''abort''))))"

text \<open>A staged part's file is read even when it does not decode; an unreadable one fails the listing.\<close>

definition listed_parts :: "drive \<Rightarrow> pathbuf \<Rightarrow> string list \<Rightarrow> part_info list result" where
  "listed_parts d dir names =
     (case load_all (\<lambda>name. case part_number_of name of
              None \<Rightarrow> Ok []
            | Some n \<Rightarrow>
                (case drive_read d (pjoin dir name) of
                   None \<Rightarrow> Err (Internal ''read part'')
                 | Some c \<Rightarrow>
                     Ok (case as_part_meta c of
                           None \<Rightarrow> []
                         | Some pm \<Rightarrow> [\<lparr> pi_part_number = n, pi_etag = pm_etag pm, pi_size = pm_size pm,
                             pi_last_modified = unix_time (pm_created pm) \<rparr>]))) names of
        Err e \<Rightarrow> Err e
      | Ok ps \<Rightarrow> Ok (concat ps))"

definition fs_list_parts :: "drive \<Rightarrow> string \<Rightarrow> string \<Rightarrow> string \<Rightarrow> part_info list result" where
  "fs_list_parts d bucket key upload_id =
     (let dir = fs_upload_dir bucket upload_id
      in case drive_read_dir d dir of
           None \<Rightarrow> Err NoSuchUpload
         | Some es \<Rightarrow>
             (case listed_parts d dir (map de_name es) of
                Err e \<Rightarrow> Err e | Ok ps \<Rightarrow> Ok (sort_key pi_part_number ps)))"

section \<open>Bucket configuration\<close>

definition fs_get_cfg :: "(doc \<Rightarrow> 'a option) \<Rightarrow> drive \<Rightarrow> string \<Rightarrow> string \<Rightarrow> 'a option result" where
  "fs_get_cfg f d bucket file =
     (case fs_head_bucket d bucket of
        Err e \<Rightarrow> Err e | Ok _ \<Rightarrow> Ok (Option.bind (read_bucket_cfg d bucket file) f))"

definition fs_set_cfg :: "fs_store \<Rightarrow> string \<Rightarrow> string \<Rightarrow> doc \<Rightarrow> fs_store \<times> unit result" where
  "fs_set_cfg st bucket file c =
     (case fs_head_bucket (fs_drive st) bucket of
        Err e \<Rightarrow> (st, Err e) | Ok _ \<Rightarrow> with_drive st (write_bucket_cfg (fs_drive st) bucket file c))"

definition fs_del_cfg :: "fs_store \<Rightarrow> string \<Rightarrow> string \<Rightarrow> fs_store \<times> unit result" where
  "fs_del_cfg st bucket file =
     (case fs_head_bucket (fs_drive st) bucket of
        Err e \<Rightarrow> (st, Err e)
      | Ok _ \<Rightarrow> (st\<lparr>fs_drive := delete_bucket_cfg (fs_drive st) bucket file\<rparr>, Ok ()))"

definition fs_get_bucket_encryption :: "drive \<Rightarrow> string \<Rightarrow> string option result" where
  "fs_get_bucket_encryption d bucket = fs_get_cfg as_type d bucket ''sse.json''"
definition fs_set_bucket_encryption :: "fs_store \<Rightarrow> string \<Rightarrow> string \<Rightarrow> fs_store \<times> unit result" where
  "fs_set_bucket_encryption st bucket sse_type = fs_set_cfg st bucket ''sse.json'' (TypeDoc sse_type)"
definition fs_delete_bucket_encryption :: "fs_store \<Rightarrow> string \<Rightarrow> fs_store \<times> unit result" where
  "fs_delete_bucket_encryption st bucket = fs_del_cfg st bucket ''sse.json''"

definition fs_get_bucket_policy :: "drive \<Rightarrow> string \<Rightarrow> string option result" where
  "fs_get_bucket_policy d bucket = fs_get_cfg as_text d bucket ''policy.json''"
definition fs_set_bucket_policy :: "fs_store \<Rightarrow> string \<Rightarrow> string \<Rightarrow> fs_store \<times> unit result" where
  "fs_set_bucket_policy st bucket policy = fs_set_cfg st bucket ''policy.json'' (TextDoc policy)"
definition fs_delete_bucket_policy :: "fs_store \<Rightarrow> string \<Rightarrow> fs_store \<times> unit result" where
  "fs_delete_bucket_policy st bucket = fs_del_cfg st bucket ''policy.json''"

definition fs_get_bucket_tags :: "drive \<Rightarrow> string \<Rightarrow> string_map option result" where
  "fs_get_bucket_tags d bucket = fs_get_cfg as_tags d bucket ''tags.json''"
definition fs_set_bucket_tags :: "fs_store \<Rightarrow> string \<Rightarrow> string_map \<Rightarrow> fs_store \<times> unit result" where
  "fs_set_bucket_tags st bucket tags = fs_set_cfg st bucket ''tags.json'' (TagsDoc tags)"
definition fs_delete_bucket_tags :: "fs_store \<Rightarrow> string \<Rightarrow> fs_store \<times> unit result" where
  "fs_delete_bucket_tags st bucket = fs_del_cfg st bucket ''tags.json''"

definition fs_get_bucket_versioning :: "drive \<Rightarrow> string \<Rightarrow> string result" where
  "fs_get_bucket_versioning d bucket =
     (case fs_get_cfg as_status d bucket ''versioning.json'' of
        Err e \<Rightarrow> Err e | Ok s \<Rightarrow> Ok (case s of Some x \<Rightarrow> x | None \<Rightarrow> []))"
definition fs_set_bucket_versioning :: "fs_store \<Rightarrow> string \<Rightarrow> string \<Rightarrow> fs_store \<times> unit result" where
  "fs_set_bucket_versioning st bucket s = fs_set_cfg st bucket ''versioning.json'' (StatusDoc s)"

definition fs_get_bucket_lifecycle :: "drive \<Rightarrow> string \<Rightarrow> string option result" where
  "fs_get_bucket_lifecycle d bucket = fs_get_cfg as_text d bucket ''lifecycle.json''"
definition fs_set_bucket_lifecycle :: "fs_store \<Rightarrow> string \<Rightarrow> string \<Rightarrow> fs_store \<times> unit result" where
  "fs_set_bucket_lifecycle st bucket xml = fs_set_cfg st bucket ''lifecycle.json'' (TextDoc xml)"
definition fs_delete_bucket_lifecycle :: "fs_store \<Rightarrow> string \<Rightarrow> fs_store \<times> unit result" where
  "fs_delete_bucket_lifecycle st bucket = fs_del_cfg st bucket ''lifecycle.json''"

section \<open>Object sidecars\<close>

definition fs_get_side ::
  "(doc \<Rightarrow> 'a option) \<Rightarrow> fs_env \<Rightarrow> fs_ctx \<Rightarrow> drive \<Rightarrow> string \<Rightarrow> string \<Rightarrow> string \<Rightarrow> 'a option result" where
  "fs_get_side f E C d bucket key sfx =
     (case fs_head_object E C d bucket key of
        Err e \<Rightarrow> Err e | Ok _ \<Rightarrow> Ok (Option.bind (read_obj_sidecar d bucket key sfx) f))"

definition fs_set_side ::
  "fs_env \<Rightarrow> fs_ctx \<Rightarrow> fs_store \<Rightarrow> string \<Rightarrow> string \<Rightarrow> string \<Rightarrow> doc \<Rightarrow> fs_store \<times> unit result" where
  "fs_set_side E C st bucket key sfx c =
     (case fs_head_object E C (fs_drive st) bucket key of
        Err e \<Rightarrow> (st, Err e) | Ok _ \<Rightarrow> with_drive st (write_obj_sidecar (fs_drive st) bucket key sfx c))"

definition fs_get_object_tags ::
  "fs_env \<Rightarrow> fs_ctx \<Rightarrow> drive \<Rightarrow> string \<Rightarrow> string \<Rightarrow> string_map option result" where
  "fs_get_object_tags E C d bucket key = fs_get_side as_tags E C d bucket key ''tags.json''"
definition fs_set_object_tags ::
  "fs_env \<Rightarrow> fs_ctx \<Rightarrow> fs_store \<Rightarrow> string \<Rightarrow> string \<Rightarrow> string_map \<Rightarrow> fs_store \<times> unit result" where
  "fs_set_object_tags E C st bucket key tags = fs_set_side E C st bucket key ''tags.json'' (TagsDoc tags)"
definition fs_delete_object_tags ::
  "fs_env \<Rightarrow> fs_ctx \<Rightarrow> fs_store \<Rightarrow> string \<Rightarrow> string \<Rightarrow> fs_store \<times> unit result" where
  "fs_delete_object_tags E C st bucket key =
     (case fs_head_object E C (fs_drive st) bucket key of
        Err e \<Rightarrow> (st, Err e)
      | Ok _ \<Rightarrow> (st\<lparr>fs_drive := delete_obj_sidecar (fs_drive st) bucket key ''tags.json''\<rparr>, Ok ()))"

definition fs_get_object_retention ::
  "fs_env \<Rightarrow> fs_ctx \<Rightarrow> drive \<Rightarrow> string \<Rightarrow> string \<Rightarrow> string option result" where
  "fs_get_object_retention E C d bucket key = fs_get_side as_text E C d bucket key ''retention.json''"
definition fs_set_object_retention ::
  "fs_env \<Rightarrow> fs_ctx \<Rightarrow> fs_store \<Rightarrow> string \<Rightarrow> string \<Rightarrow> string \<Rightarrow> fs_store \<times> unit result" where
  "fs_set_object_retention E C st bucket key raw = fs_set_side E C st bucket key ''retention.json'' (TextDoc raw)"

definition fs_get_object_legal_hold ::
  "fs_env \<Rightarrow> fs_ctx \<Rightarrow> drive \<Rightarrow> string \<Rightarrow> string \<Rightarrow> string option result" where
  "fs_get_object_legal_hold E C d bucket key = fs_get_side as_status E C d bucket key ''legalhold.json''"
definition fs_set_object_legal_hold ::
  "fs_env \<Rightarrow> fs_ctx \<Rightarrow> fs_store \<Rightarrow> string \<Rightarrow> string \<Rightarrow> string \<Rightarrow> fs_store \<times> unit result" where
  "fs_set_object_legal_hold E C st bucket key s = fs_set_side E C st bucket key ''legalhold.json'' (StatusDoc s)"

section \<open>The backend\<close>

definition fs_backend_info :: "drive \<Rightarrow> backend_info" where
  "fs_backend_info d =
     \<lparr> bi_backend_type = ''FS'', bi_data_shards = 0, bi_parity_shards = 0,
       bi_drives = [\<lparr> ds_path = drive_id d, ds_state = (if drive_online d then ''ok'' else ''offline'') \<rparr>] \<rparr>"

end
