(* ===== verification/Fs_Files.thy ===== *)
theory Fs_Files
  imports Store_Frame Fs_Multipart
begin

text \<open>
  The filesystem backend seen as a map from paths to file contents.  On a drive that fails nothing, and as
  long as no file or directory stands in the way of the paths in use (an arena), every step of the
  backend is a pointwise update of that map, and stays in the arena.
\<close>

definition file_at :: "drive \<Rightarrow> path \<Rightarrow> doc option" where
  "file_at d q = (case look d q of Some (File c) \<Rightarrow> Some c | _ \<Rightarrow> None)"

lemma file_at_Some: "file_at d q = Some c \<longleftrightarrow> look d q = Some (File c)"
  by (auto simp: file_at_def split: option.splits node.splits)

lemma file_at_None: "file_at d q = None \<longleftrightarrow> look d q = None \<or> look d q = Some Dir"
  by (auto simp: file_at_def split: option.splits node.splits)

text \<open>The paths in use \<open>Q\<close> never block one another, nothing blocks them, and the directories \<open>D\<close> exist.\<close>

definition unblocked :: "drive \<Rightarrow> path \<Rightarrow> bool" where
  "unblocked d q = (look d q \<noteq> Some Dir \<and> (\<forall>r. strict_prefix r q \<longrightarrow> look d r = None \<or> look d r = Some Dir))"

definition apart :: "path set \<Rightarrow> bool" where
  "apart Q = (\<forall>p \<in> Q. safe p \<and> p \<noteq> [] \<and> (\<forall>q \<in> Q. \<not> strict_prefix p q))"

definition arena :: "path set \<Rightarrow> path set \<Rightarrow> drive \<Rightarrow> bool" where
  "arena Q D d = (drive_wf d \<and> healthy d \<and> apart Q \<and> (\<forall>q \<in> Q. unblocked d q) \<and> (\<forall>p \<in> D. look d p = Some Dir))"

lemma arenaD:
  assumes "arena Q D d"
  shows "drive_wf d" "healthy d" "q \<in> Q \<Longrightarrow> safe q" "q \<in> Q \<Longrightarrow> q \<noteq> []" "q \<in> Q \<Longrightarrow> unblocked d q"
    "p \<in> D \<Longrightarrow> look d p = Some Dir" "p \<in> Q \<Longrightarrow> q \<in> Q \<Longrightarrow> \<not> strict_prefix p q"
  using assms by (auto simp: arena_def apart_def)

lemma same_env_healthy: "same_env d d' \<Longrightarrow> healthy d \<Longrightarrow> healthy d'"
  by (simp add: same_env_def healthy_def)

text \<open>An update that only touches files of \<open>Q\<close> and adds directories above them stays in the arena.\<close>

lemma arena_step:
  assumes "arena Q D d" and "drive_wf d'" and "same_env d d'"
    and "\<And>r. look d' r = look d r \<or> r \<in> Q \<and> look d' r \<noteq> Some Dir
        \<or> (look d r = None \<and> look d' r = Some Dir \<and> (\<exists>q \<in> Q. strict_prefix r q))"
  shows "arena Q D d'"
proof -
  have a: "apart Q" using assms(1) by (simp add: arena_def)
  have ub: "unblocked d' q" if "q \<in> Q" for q
  proof -
    have u: "unblocked d q" using arenaD(5) [OF assms(1) that] .
    have "look d' q \<noteq> Some Dir" using assms(4) [of q] u a that by (auto simp: unblocked_def apart_def)
    moreover have "look d' r = None \<or> look d' r = Some Dir" if "strict_prefix r q" for r
      using assms(4) [of r] u that \<open>q \<in> Q\<close> a by (auto simp: unblocked_def apart_def)
    ultimately show ?thesis by (simp add: unblocked_def)
  qed
  have "look d' p = Some Dir" if "p \<in> D" for p
    using assms(4) [of p] arenaD(5,6) [OF assms(1)] that by (force simp: unblocked_def)
  with ub assms(1-3) same_env_healthy [OF assms(3)] show ?thesis by (auto simp: arena_def)
qed

text \<open>The drive \<open>d'\<close> holds exactly the files \<open>F\<close>, is still in the arena and has every directory of \<open>d\<close>.\<close>

definition becomes :: "path set \<Rightarrow> path set \<Rightarrow> drive \<Rightarrow> drive \<Rightarrow> (path \<Rightarrow> doc option) \<Rightarrow> bool" where
  "becomes Q D d d' F = (arena Q D d' \<and> file_at d' = F \<and> (\<forall>r. look d r = Some Dir \<longrightarrow> look d' r = Some Dir))"

lemma becomesD:
  assumes "becomes Q D d d' F"
  shows "arena Q D d'" "file_at d' = F" "look d r = Some Dir \<Longrightarrow> look d' r = Some Dir"
  using assms by (auto simp: becomes_def)

lemma becomes_trans: "becomes Q D d d1 F \<Longrightarrow> becomes Q D d1 d2 G \<Longrightarrow> becomes Q D d d2 G"
  by (simp add: becomes_def)

lemma becomes_refl: "arena Q D d \<Longrightarrow> becomes Q D d d (file_at d)"
  by (simp add: becomes_def)

section \<open>The single operations\<close>

lemma arena_mkdir:
  assumes a: "arena Q D d" and q: "q \<in> Q" and p: "strict_prefix p q"
  obtains d' where "drive_create_dir_all d (PathBuf False p) = (d', True)" "becomes Q D d d' (file_at d)"
    "look d' p = Some Dir"
proof -
  let ?r = "drive_create_dir_all d (PathBuf False p)"
  have wf: "drive_wf d" using a by (simp add: arena_def)
  have sp: "safe p" using arenaD(3) [OF a q] p by (auto simp: safe_def strict_prefix_def prefix_def)
  note eq = drive_create_dir_all_eq [OF wf sp]
  have free: "look d r = None \<or> look d r = Some Dir" if "prefix r p" for r
    using arenaD(5) [OF a q] that p by (auto simp: unblocked_def dest: prefix_order.le_less_trans)
  then have able: "mkdir_able d p" using arenaD(2) [OF a] by (auto simp: mkdir_able_def healthy_def)
  then have lk: "look (fst ?r) = (\<lambda>r. if prefix r p then Some Dir else look d r)" using eq(1) by simp
  have "arena Q D (fst ?r)"
  proof (rule arena_step [OF a eq(3,4)])
    fix r
    show "look (fst ?r) r = look d r \<or> r \<in> Q \<and> look (fst ?r) r \<noteq> Some Dir
      \<or> (look d r = None \<and> look (fst ?r) r = Some Dir \<and> (\<exists>q \<in> Q. strict_prefix r q))"
      using free [of r] lk q prefix_order.le_less_trans [OF _ p, of r] by auto
  qed
  moreover have "file_at (fst ?r) r = file_at d r" for r
    using free [of r] by (auto simp: file_at_def lk)
  ultimately show ?thesis
    using that [of "fst ?r"] eq(2) able lk by (simp add: prod_eq_iff fun_eq_iff becomes_def)
qed

lemma arena_write_at:
  assumes a: "arena Q D d" and q: "q \<in> Q" and par: "look d (butlast q) = Some Dir"
  obtains d' where "write_at d op (PathBuf False q) c = (d', True)" "becomes Q D d d' ((file_at d)(q := Some c))"
proof -
  let ?r = "write_at d op (PathBuf False q) c"
  note wf = arenaD(1) [OF a]
  note eq = write_at_eq [OF wf arenaD(3) [OF a q] arenaD(4) [OF a q], where op = op and c = c]
  have nd: "look d q \<noteq> Some Dir" using arenaD(5) [OF a q] by (simp add: unblocked_def)
  then have able: "writable d op q"
    using par arenaD(2) [OF a] arenaD(4) [OF a q] by (simp add: writable_def healthy_def)
  then have lk: "look (fst ?r) = (look d)(q := Some (File c))" using eq(1) by simp
  have "arena Q D (fst ?r)" by (rule arena_step [OF a eq(3,4)]) (use lk q in auto)
  moreover have "file_at (fst ?r) = (file_at d)(q := Some c)"
    by (auto simp: fun_eq_iff file_at_def lk)
  moreover have "look (fst ?r) r = Some Dir" if "look d r = Some Dir" for r using that nd lk by auto
  ultimately show ?thesis using that [of "fst ?r"] eq(2) able by (simp add: prod_eq_iff becomes_def)
qed

lemmas arena_write = arena_write_at [where op = OpWrite, folded drive_write_def]
lemmas arena_create = arena_write_at [where op = OpCreate and c = "Bytes []", folded drive_create_def]

lemma arena_append:
  assumes a: "arena Q D d" and q: "q \<in> Q" and old: "file_at d q = Some (Bytes b)"
  obtains d' where "drive_append d i (PathBuf False q) xs = (d', True)"
    "becomes Q D d d' ((file_at d)(q := Some (Bytes (b @ xs))))"
proof -
  let ?r = "drive_append d i (PathBuf False q) xs"
  note eq = drive_append_eq [OF arenaD(1) [OF a] arenaD(3) [OF a q], of i xs]
  have src: "look d q = Some (File (Bytes b))" using old by (simp add: file_at_Some)
  then have able: "appendable d i q" "file_bytes d q = b"
    using arenaD(2) [OF a] by (auto simp: appendable_def file_bytes_def healthy_def)
  then have lk: "look (fst ?r) = (look d)(q := Some (File (Bytes (b @ xs))))" using eq(1) by simp
  have "arena Q D (fst ?r)" by (rule arena_step [OF a eq(3,4)]) (use lk q in auto)
  moreover have "file_at (fst ?r) = (file_at d)(q := Some (Bytes (b @ xs)))"
    by (auto simp: fun_eq_iff file_at_def lk)
  moreover have "look (fst ?r) r = Some Dir" if "look d r = Some Dir" for r using that src lk by auto
  ultimately show ?thesis using that [of "fst ?r"] eq(2) able(1) by (simp add: prod_eq_iff becomes_def)
qed

lemma arena_rename:
  assumes a: "arena Q D d" and p: "p \<in> Q" and q: "q \<in> Q" "p \<noteq> q" and c: "file_at d p = Some c"
    and par: "look d (butlast q) = Some Dir"
  obtains d' where "drive_rename d (PathBuf False p) (PathBuf False q) = (d', True)"
    "becomes Q D d d' ((file_at d)(q := Some c, p := None))"
proof -
  let ?r = "drive_rename d (PathBuf False p) (PathBuf False q)"
  have src: "look d p = Some (File c)" using c by (simp add: file_at_Some)
  note eq = drive_rename_eq [OF arenaD(1) [OF a] arenaD(3) [OF a p] arenaD(3) [OF a q(1)] q(2) arenaD(4) [OF a q(1)]]
  have nd: "look d q \<noteq> Some Dir" using arenaD(5) [OF a q(1)] by (simp add: unblocked_def)
  have able: "renamable d p q"
    using src par nd arenaD(2) [OF a] by (simp add: renamable_def healthy_def)
  then have lk: "look (fst ?r) = (look d)(q := Some (File c), p := None)" using eq(1) src by simp
  have "arena Q D (fst ?r)"
    by (rule arena_step [OF a]) (use eq(3,4) src lk p q in auto)
  moreover have "file_at (fst ?r) = (file_at d)(q := Some c, p := None)"
    by (auto simp: fun_eq_iff file_at_def lk)
  moreover have "look (fst ?r) r = Some Dir" if "look d r = Some Dir" for r using that src nd lk by auto
  ultimately show ?thesis using that [of "fst ?r"] eq(2) able src by (simp add: prod_eq_iff becomes_def)
qed

lemma arena_rename_missing:
  assumes a: "arena Q D d" and p: "p \<in> Q" and q: "q \<in> Q" "p \<noteq> q" and c: "file_at d p = None"
  shows "drive_rename d (PathBuf False p) (PathBuf False q) = (d, False)"
proof -
  have "look d p \<noteq> Some Dir" using arenaD(5) [OF a p] by (simp add: unblocked_def)
  with c have "look d p = None" by (auto simp: file_at_None)
  with arenaD(1,2) [OF a] arenaD(3) [OF a p] show ?thesis
    by (simp add: drive_rename_def reach_safe)
qed

lemma arena_remove_file:
  assumes a: "arena Q D d" and q: "q \<in> Q"
  obtains d' k where "drive_remove_file d (PathBuf False q) = (d', k)"
    "becomes Q D d d' ((file_at d)(q := None))"
proof -
  let ?r = "drive_remove_file d (PathBuf False q)"
  note eq = drive_remove_file_eq [OF arenaD(1) [OF a] arenaD(3) [OF a q] arenaD(4) [OF a q]]
  have nd: "look d q \<noteq> Some Dir" using arenaD(5) [OF a q] by (simp add: unblocked_def)
  have "removable_file d q \<longleftrightarrow> look d q \<noteq> None"
    using nd arenaD(2) [OF a] by (auto simp: removable_file_def healthy_def split: option.splits node.splits)
  then have lk: "look (fst ?r) = (look d)(q := None)" using eq(1) by auto
  have "arena Q D (fst ?r)" by (rule arena_step [OF a]) (use eq(3,4) lk q in auto)
  moreover have "file_at (fst ?r) = (file_at d)(q := None)" by (auto simp: fun_eq_iff file_at_def lk)
  moreover have "look (fst ?r) r = Some Dir" if "look d r = Some Dir" for r using that nd lk by auto
  ultimately show ?thesis using that [of "fst ?r" "snd ?r"] by (simp add: prod_eq_iff becomes_def)
qed

section \<open>Pruning\<close>

lemma prune_empty_outside:
  assumes "drive_wf d" "safe (pb_comps rel)" "\<not> pb_abs rel" "\<not> pb_abs stop" "\<not> strict_prefix (pb_comps stop) r"
  shows "look (prune_empty d rel stop) r = look d r"
  using assms
proof (induction d rel stop rule: prune_empty.induct)
  case (1 d rel stop)
  obtain q where rel: "rel = PathBuf False q" using 1(4) by (cases rel) auto
  obtain s where stop: "stop = PathBuf False s" using 1(5) by (cases stop) auto
  show ?case
  proof (cases "rel \<noteq> stop \<and> pstarts_with rel stop")
    case True
    then have sq: "strict_prefix s q" using rel stop by (auto simp: pstarts_with_def)
    then have "q \<noteq> []" by auto
    have "safe q" using 1(3) rel by simp
    note rd = drive_remove_dir_eq [OF 1(2) \<open>safe q\<close> \<open>q \<noteq> []\<close>]
    have step: "look (fst (drive_remove_dir d rel)) r = look d r"
      using rd(1) sq 1(6) rel stop by auto
    show ?thesis
    proof (cases "snd (drive_remove_dir d rel)")
      case False
      then have "prune_empty d rel stop = fst (drive_remove_dir d rel)"
        using True by (subst prune_empty.simps) (auto split: prod.splits bool.splits)
      then show ?thesis using step by simp
    next
      case rm: True
      have par: "pparent rel = Some (PathBuf False (butlast q))" using \<open>q \<noteq> []\<close> rel by (simp add: pparent_def)
      let ?d = "fst (drive_remove_dir d rel)"
      have pr: "prune_empty d rel stop = prune_empty ?d (PathBuf False (butlast q)) stop"
        using True rm par by (subst prune_empty.simps) (auto split: prod.splits bool.splits)
      have "safe (butlast q)" using \<open>safe q\<close> by (auto simp: safe_def dest: in_set_butlastD)
      then have "look (prune_empty ?d (PathBuf False (butlast q)) stop) r = look ?d r"
        using 1(1) [OF True, of ?d True "PathBuf False (butlast q)"] rm par rd(2) rel 1(5,6)
        by (simp add: prod_eq_iff)
      then show ?thesis using step pr by simp
    qed
  next
    case False
    then have "prune_empty d rel stop = d" by (subst prune_empty.simps) auto
    then show ?thesis by simp
  qed
qed

lemma arena_prune:
  assumes a: "arena Q D d" and p: "safe p" and s: "s \<noteq> []" and keep: "\<And>r. r \<in> D \<Longrightarrow> \<not> strict_prefix s r"
  shows "arena Q D (prune_empty_dirs d (PathBuf False p) (PathBuf False s))"
    "file_at (prune_empty_dirs d (PathBuf False p) (PathBuf False s)) = file_at d"
proof -
  let ?d = "prune_empty_dirs d (PathBuf False p) (PathBuf False s)"
  have d: "?d = prune_empty d (PathBuf False p) (PathBuf False s)" by (simp add: prune_empty_dirs_def in_root_def)
  note f = prune_empty_facts [of d "PathBuf False p" "PathBuf False s", OF arenaD(1) [OF a]]
  have wf: "drive_wf ?d" and env: "same_env d ?d" and sf: "\<And>r. same_file d ?d r"
    and none: "\<And>r. look d r = None \<Longrightarrow> look ?d r = None"
    using f p s by (auto simp: d)
  show fa: "file_at ?d = file_at d"
  proof
    fix r
    show "file_at ?d r = file_at d r"
      using sf [of r] by (cases "file_at d r"; cases "file_at ?d r") (auto simp: same_file_def file_at_Some [symmetric])
  qed
  have lk: "look ?d r = None \<or> look ?d r = look d r" for r
  proof (cases "look ?d r")
    case (Some n)
    show ?thesis
    proof (cases n)
      case Dir
      then show ?thesis using none [of r] Some fun_cong [OF fa, of r]
        by (cases "look d r") (auto simp: file_at_def split: node.splits)
    next
      case (File c)
      then have "look d r = Some (File c)" using sf [of r] Some unfolding same_file_def by blast
      then show ?thesis using Some File by simp
    qed
  qed simp
  have ub: "unblocked ?d q" if "q \<in> Q" for q
  proof -
    have u: "unblocked d q" using arenaD(5) [OF a that] .
    have "look ?d q \<noteq> Some Dir" using lk [of q] u by (auto simp: unblocked_def)
    moreover have "look ?d r = None \<or> look ?d r = Some Dir" if "strict_prefix r q" for r
      using lk [of r] u that by (auto simp: unblocked_def)
    ultimately show ?thesis by (simp add: unblocked_def)
  qed
  have "look ?d r = Some Dir" if "r \<in> D" for r
    using prune_empty_outside [OF arenaD(1) [OF a], of "PathBuf False p" "PathBuf False s" r] p keep [OF that]
      arenaD(6) [OF a that] by (simp add: d)
  with ub wf same_env_healthy [OF env arenaD(2) [OF a]] a show "arena Q D ?d" by (simp add: arena_def)
qed

section \<open>The helpers of the backend\<close>

lemma arena_parent_dir: "arena Q D d \<Longrightarrow> q \<in> Q \<Longrightarrow> strict_prefix (butlast q) q"
  by (metis append_butlast_last_id arenaD(4) strict_prefixI')

lemma arena_mkdir_parent:
  assumes a: "arena Q D d" and q: "q \<in> Q"
  obtains d' where "mkdir_parent d (PathBuf False q) = (d', True)" "becomes Q D d d' (file_at d)"
    "look d' (butlast q) = Some Dir"
proof -
  have par: "pparent (PathBuf False q) = Some (PathBuf False (butlast q))"
    using arenaD(4) [OF a q] by (simp add: pparent_def)
  show ?thesis using arena_mkdir [OF a q arena_parent_dir [OF a q]] that by (auto simp: mkdir_parent_def par)
qed

lemma arena_save:
  assumes a: "arena Q D d" and q: "q \<in> Q"
  obtains d' where "save_file d (PathBuf False q) c what = (d', Ok ())"
    "becomes Q D d d' ((file_at d)(q := Some c))"
proof -
  obtain d1 where 1: "mkdir_parent d (PathBuf False q) = (d1, True)" "becomes Q D d d1 (file_at d)"
    "look d1 (butlast q) = Some Dir" using arena_mkdir_parent [OF a q] .
  obtain d2 where 2: "drive_write d1 (PathBuf False q) c = (d2, True)" "becomes Q D d1 d2 ((file_at d1)(q := Some c))"
    using arena_write [OF becomesD(1) [OF 1(2)] q 1(3)] .
  from 1(1) 2(1) becomes_trans [OF 1(2) 2(2)] becomesD(2) [OF 1(2)] show ?thesis
    using that [of d2] by (simp add: save_file_def)
qed

lemma arena_move:
  assumes a: "arena Q D d" and p: "p \<in> Q" and q: "q \<in> Q" "p \<noteq> q" and c: "file_at d p = Some c"
  obtains d' where "move_into_place d (PathBuf False p) (PathBuf False q) = (d', Ok ())"
    "becomes Q D d d' ((file_at d)(q := Some c, p := None))"
proof -
  obtain d1 where 1: "mkdir_parent d (PathBuf False q) = (d1, True)" "becomes Q D d d1 (file_at d)"
    "look d1 (butlast q) = Some Dir" using arena_mkdir_parent [OF a q(1)] .
  have c1: "file_at d1 p = Some c" using c becomesD(2) [OF 1(2)] by simp
  obtain d2 where 2: "drive_rename d1 (PathBuf False p) (PathBuf False q) = (d2, True)"
    "becomes Q D d1 d2 ((file_at d1)(q := Some c, p := None))"
    using arena_rename [OF becomesD(1) [OF 1(2)] p q c1 1(3)] .
  from 1(1) 2(1) becomes_trans [OF 1(2) 2(2)] becomesD(2) [OF 1(2)] show ?thesis
    using that [of d2] by (simp add: move_into_place_def)
qed

lemma arena_stream:
  assumes a: "arena Q D d" and t: "pjoin fs_tmp_dir (fc_uuid C n) = PathBuf False t" "t \<in> Q"
    and par: "look d (butlast t) = Some Dir"
  obtains d' where "stream_to_temp E C n d (Body p False) md5 =
      (d', Ok (PathBuf False t, if md5 then hex_encode (fv_md5 E p) else fc_opaque_etag C, length p))"
    "becomes Q D d d' ((file_at d)(t := Some (Bytes p)))"
proof -
  obtain d1 where 1: "drive_create d (PathBuf False t) = (d1, True)"
    "becomes Q D d d1 ((file_at d)(t := Some (Bytes [])))"
    using arena_create [OF a t(2) par] .
  have old: "file_at d1 t = Some (Bytes [])" using becomesD(2) [OF 1(2)] by simp
  obtain d2 where 2: "drive_append d1 0 (PathBuf False t) p = (d2, True)"
    "becomes Q D d1 d2 ((file_at d1)(t := Some (Bytes ([] @ p))))"
    using arena_append [OF becomesD(1) [OF 1(2)] t(2) old] .
  let ?d = "if p = [] then d1 else d2"
  have dn: "(if p = [] then (d1, True) else drive_append d1 0 (PathBuf False t) p) = (?d, True)" using 2(1) by simp
  have b: "becomes Q D d ?d ((file_at d)(t := Some (Bytes p)))"
    using 1(2) becomes_trans [OF 1(2) 2(2)] becomesD(2) [OF 1(2)] by simp
  have sh: "drive_shutdown ?d (PathBuf False t)"
    using arenaD(2) [OF becomesD(1) [OF b]] by (simp add: drive_shutdown_def healthy_def)
  have "stream_to_temp E C n d (Body p False) md5 =
      (?d, Ok (PathBuf False t, if md5 then hex_encode (fv_md5 E p) else fc_opaque_etag C, length p))"
    using dn sh by (simp only: stream_to_temp_def Let_def t(1) 1(1) prod.case bool.case body.sel if_False not_not
        not_False_eq_True if_True simp_thms)
  then show ?thesis using that [of ?d] b by blast
qed

section \<open>Reading in an arena\<close>

lemma arena_read: "arena Q D d \<Longrightarrow> q \<in> Q \<Longrightarrow> drive_read d (PathBuf False q) = file_at d q"
  by (simp add: drive_read_eq arenaD(1,3) file_at_def healthy_def [of d] arenaD(2)
      [unfolded healthy_def] split: option.splits)

lemma arena_stat:
  "arena Q D d \<Longrightarrow> q \<in> Q \<Longrightarrow>
     drive_stat d (PathBuf False q) = (case file_at d q of Some _ \<Rightarrow> Some False | None \<Rightarrow> None)"
  using arenaD(2) [of Q D d] arenaD(5) [of Q D d q]
  by (auto simp: drive_stat_eq arenaD(1,3) file_at_def healthy_def unblocked_def split: option.splits node.splits)

lemma arena_dir_stat: "arena Q D d \<Longrightarrow> p \<in> D \<Longrightarrow> safe p \<Longrightarrow> drive_stat d (PathBuf False p) = Some True"
  using arenaD(2) [of Q D d] by (auto simp: drive_stat_eq arenaD(1,6) healthy_def)

lemma arena_open:
  "arena Q D d \<Longrightarrow> q \<in> Q \<Longrightarrow>
     fs_open E d (PathBuf False q) = map_option (\<lambda>c. Body (raw_bytes E c) False) (file_at d q)"
  using arenaD(2) [of Q D d] arenaD(5) [of Q D d q]
  by (auto simp: fs_open_def reach_safe arenaD(1,3) file_at_def healthy_def unblocked_def split: option.splits node.splits)

end
