(* ===== verification/Fs_Slots.thy ===== *)
theory Fs_Slots
  imports Fs_Files
begin

text \<open>
  The files that belong to one key of the filesystem backend: its payload and metadata in the current slot,
  its history, and a payload and metadata per archived version.  They are pairwise distinct and never
  stand in each other's way.
\<close>

section \<open>Where they lie\<close>

lemma strip_suffix_Some: "strip_suffix q s = Some t \<longleftrightarrow> s = t @ q"
  unfolding strip_suffix_def
proof
  assume "map_option rev (strip_prefix (rev q) (rev s)) = Some t"
  then obtain u where "rev s = rev q @ u" "t = rev u" by (auto simp: strip_prefix_Some)
  then show "s = t @ q" by (metis rev_append rev_rev_ident)
next
  assume "s = t @ q"
  then have "strip_prefix (rev q) (rev s) = Some (rev t)" by (simp add: strip_prefix_Some)
  then show "map_option rev (strip_prefix (rev q) (rev s)) = Some t" by simp
qed

lemma split_on_extend:
  assumes "c \<notin> set t"
  shows "split_on c (s @ t) = butlast (split_on c s) @ [last (split_on c s) @ t]"
proof (induction s)
  case Nil
  then show ?case using assms by (simp add: split_on_single)
next
  case (Cons x s)
  show ?case
  proof (cases "x = c")
    case False
    obtain a as where s: "split_on c s = a # as" by (metis split_on_not_Nil list.exhaust)
    with Cons False show ?thesis by (cases as) auto
  qed (use Cons in simp)
qed

lemma plain_key_suffix:
  assumes k: "plain_key k" and sfx: "CHR ''/'' \<notin> set sfx" "length sfx > 2"
  shows "plain_key (k @ sfx)" "components (k @ sfx) \<noteq> []"
proof -
  let ?l = "last (split_on (CHR ''/'') k) @ sfx"
  have s: "split_on (CHR ''/'') (k @ sfx) = butlast (split_on (CHR ''/'') k) @ [?l]"
    by (rule split_on_extend [OF sfx(1)])
  have l: "?l \<noteq> ''..''" "?l \<noteq> ''.''" "?l \<noteq> []"
    using sfx(2) by (auto dest!: arg_cong [where f = length])
  have "\<not> starts_with (k @ sfx) ''/''"
  proof (cases k)
    case Nil
    then show ?thesis using sfx by (cases sfx) (auto simp: starts_with_def)
  qed (use k in \<open>auto simp: plain_key_def starts_with_def\<close>)
  moreover have "''..'' \<notin> set (components (k @ sfx))"
    using k l s by (auto simp: plain_key_def components_def dest: in_set_butlastD)
  ultimately show "plain_key (k @ sfx)" by (simp add: plain_key_def)
  show "components (k @ sfx) \<noteq> []" using s l by (simp add: components_def)
qed

definition fs_key :: "string \<Rightarrow> string \<Rightarrow> bool" where
  "fs_key b k = (plain_comp b \<and> b \<noteq> SYS_DIR \<and> validate_key k = Ok ())"

lemma fs_key_plain:
  assumes "fs_key b k"
  shows "plain_comp b" "b \<noteq> SYS_DIR" "plain_key k" "safe (components k)" "components k \<noteq> []"
  using assms valid_key_plain [of k] valid_key_components [of k] by (auto simp: fs_key_def plain_key_def safe_def)

lemma pjoin_key: "plain_key s \<Longrightarrow> pjoin (PathBuf False q) s = PathBuf False (q @ components s)"
  by (simp add: pjoin_def plain_key_def)

lemma fs_plain_names [simp]:
  "plain_comp ''tmp''" "plain_comp ''meta''" "plain_comp ''versions''" "plain_comp DIR_MARKER"
  "plain_comp (DIR_MARKER @ ''.json'')" "DIR_MARKER \<noteq> []" "DIR_MARKER \<noteq> ''..''"
  by (simp_all add: plain_comp_def DIR_MARKER_def)

lemma plain_comp_sfx: "plain_comp v \<Longrightarrow> CHR ''/'' \<notin> set sfx \<Longrightarrow> plain_comp (v @ sfx) \<or> v @ sfx \<in> {''.'', ''..''}"
  by (auto simp: plain_comp_def)

lemma fs_roots:
  "fs_tmp_dir = PathBuf False [SYS_DIR, ''tmp'']" "fs_meta_root = PathBuf False [SYS_DIR, ''meta'']"
  "fs_versions_root = PathBuf False [SYS_DIR, ''versions'']"
  by (simp_all add: fs_tmp_dir_def fs_meta_root_def fs_versions_root_def path_new_plain pjoin_plain)

definition obj_comps :: "string \<Rightarrow> string \<Rightarrow> path" where
  "obj_comps b k = pb_comps (fs_object_path b k)"

definition meta_comps :: "string \<Rightarrow> string \<Rightarrow> path" where
  "meta_comps b k = pb_comps (fs_meta_path b k)"

definition ver_comps :: "string \<Rightarrow> string \<Rightarrow> path" where
  "ver_comps b k = [SYS_DIR, ''versions'', b] @ components k"

lemma trailing_key:
  assumes "fs_key b k" "strip_suffix ''/'' k = Some dir"
  shows "plain_key dir" "components dir = components k"
proof -
  have k: "k = dir @ ''/''" using assms(2) by (simp add: strip_suffix_Some)
  then show c: "components dir = components k" by (simp add: components_trailing)
  have "\<not> starts_with dir ''/''"
    using fs_key_plain(3) [OF assms(1)] k by (cases dir) (auto simp: plain_key_def starts_with_def)
  with c fs_key_plain(3) [OF assms(1)] show "plain_key dir" by (simp add: plain_key_def)
qed

lemma fs_object_path_eq:
  assumes "fs_key b k"
  shows "fs_object_path b k = PathBuf False (obj_comps b k)" "\<exists>q. q \<noteq> [] \<and> safe q \<and> obj_comps b k = b # q"
proof -
  note p = fs_key_plain [OF assms]
  have "\<exists>q. q \<noteq> [] \<and> safe q \<and> fs_object_path b k = PathBuf False (b # q)"
  proof (cases "strip_suffix ''/'' k")
    case None
    then show ?thesis using p by (simp add: fs_object_path_def fs_bucket_path_def path_new_plain pjoin_key)
  next
    case (Some dir)
    then show ?thesis using p trailing_key [OF assms Some]
      by (simp add: fs_object_path_def fs_bucket_path_def path_new_plain pjoin_key pjoin_plain)
  qed
  then show "fs_object_path b k = PathBuf False (obj_comps b k)" "\<exists>q. q \<noteq> [] \<and> safe q \<and> obj_comps b k = b # q"
    by (auto simp: obj_comps_def)
qed

lemma fs_meta_path_eq:
  assumes "fs_key b k"
  shows "fs_meta_path b k = PathBuf False (meta_comps b k)"
    "\<exists>q. q \<noteq> [] \<and> safe q \<and> meta_comps b k = [SYS_DIR, ''meta'', b] @ q"
proof -
  note p = fs_key_plain [OF assms]
  have "\<exists>q. q \<noteq> [] \<and> safe q \<and> fs_meta_path b k = PathBuf False ([SYS_DIR, ''meta'', b] @ q)"
  proof (cases "strip_suffix ''/'' k")
    case None
    then show ?thesis using p plain_key_suffix [OF p(3), of "''.json''"]
      by (auto simp: fs_meta_path_def fs_roots pjoin_plain pjoin_key plain_key_def safe_def)
  next
    case (Some dir)
    then show ?thesis using p trailing_key [OF assms Some]
      by (simp add: fs_meta_path_def fs_roots pjoin_plain pjoin_key)
  qed
  then show "fs_meta_path b k = PathBuf False (meta_comps b k)"
    "\<exists>q. q \<noteq> [] \<and> safe q \<and> meta_comps b k = [SYS_DIR, ''meta'', b] @ q"
    by (auto simp: meta_comps_def)
qed

text \<open>Version ids the archive can hold: file names that do not collide with the history's.\<close>

definition vnames :: "string set" where
  "vnames = {v. plain_comp v \<and> v \<noteq> ''kp.history''}"

lemma fs_version_paths:
  assumes "fs_key b k"
  shows "fs_version_dir b k = PathBuf False (ver_comps b k)"
    "fs_history_path b k = PathBuf False (ver_comps b k @ [''kp.history.json''])"
    "v \<in> vnames \<Longrightarrow> fs_version_data_path b k v = PathBuf False (ver_comps b k @ [v @ ''.data''])"
    "v \<in> vnames \<Longrightarrow> fs_version_meta_path b k v = PathBuf False (ver_comps b k @ [v @ ''.json''])"
proof -
  note p = fs_key_plain [OF assms]
  show d: "fs_version_dir b k = PathBuf False (ver_comps b k)"
    using p by (simp add: fs_version_dir_def fs_roots pjoin_plain pjoin_key ver_comps_def)
  show "fs_history_path b k = PathBuf False (ver_comps b k @ [''kp.history.json''])"
    by (simp add: fs_history_path_def d pjoin_plain)
  show "v \<in> vnames \<Longrightarrow> fs_version_data_path b k v = PathBuf False (ver_comps b k @ [v @ ''.data''])"
    by (simp add: fs_version_data_path_def d pjoin_plain vnames_def plain_comp_def)
  show "v \<in> vnames \<Longrightarrow> fs_version_meta_path b k v = PathBuf False (ver_comps b k @ [v @ ''.json''])"
    by (simp add: fs_version_meta_path_def d pjoin_plain vnames_def plain_comp_def)
qed

section \<open>The paths of a key\<close>

definition hist_comps :: "string \<Rightarrow> string \<Rightarrow> path" where
  "hist_comps b k = ver_comps b k @ [''kp.history.json'']"

definition data_comps :: "string \<Rightarrow> string \<Rightarrow> string \<Rightarrow> path" where
  "data_comps b k v = ver_comps b k @ [v @ ''.data'']"

definition vmeta_comps :: "string \<Rightarrow> string \<Rightarrow> string \<Rightarrow> path" where
  "vmeta_comps b k v = ver_comps b k @ [v @ ''.json'']"

definition temp_comps :: "string \<Rightarrow> path" where
  "temp_comps u = [SYS_DIR, ''tmp'', u]"

definition key_paths :: "string \<Rightarrow> string \<Rightarrow> path set" where
  "key_paths b k = {obj_comps b k, meta_comps b k, hist_comps b k} \<union> data_comps b k ` vnames
     \<union> vmeta_comps b k ` vnames \<union> temp_comps ` {u. plain_comp u}"

text \<open>The directories the backend takes for granted.\<close>

definition key_dirs :: "string \<Rightarrow> path set" where
  "key_dirs b = {[b], [SYS_DIR, ''tmp'']}"

lemma key_paths_in [simp]:
  "obj_comps b k \<in> key_paths b k" "meta_comps b k \<in> key_paths b k" "hist_comps b k \<in> key_paths b k"
  "v \<in> vnames \<Longrightarrow> data_comps b k v \<in> key_paths b k" "v \<in> vnames \<Longrightarrow> vmeta_comps b k v \<in> key_paths b k"
  "plain_comp u \<Longrightarrow> temp_comps u \<in> key_paths b k"
  by (auto simp: key_paths_def)

lemma fs_paths:
  assumes "fs_key b k"
  shows "fs_object_path b k = PathBuf False (obj_comps b k)" "fs_meta_path b k = PathBuf False (meta_comps b k)"
    "fs_history_path b k = PathBuf False (hist_comps b k)"
    "v \<in> vnames \<Longrightarrow> fs_version_data_path b k v = PathBuf False (data_comps b k v)"
    "v \<in> vnames \<Longrightarrow> fs_version_meta_path b k v = PathBuf False (vmeta_comps b k v)"
    "plain_comp u \<Longrightarrow> pjoin fs_tmp_dir u = PathBuf False (temp_comps u)"
    "fs_bucket_path b = PathBuf False [b]"
  using assms by (simp_all add: fs_object_path_eq(1) fs_meta_path_eq(1) fs_version_paths hist_comps_def
      data_comps_def vmeta_comps_def temp_comps_def fs_roots pjoin_plain fs_bucket_path_def path_new_plain fs_key_plain)

lemma vname_files: "v \<in> vnames \<Longrightarrow> v @ ''.json'' \<noteq> ''kp.history.json''"
proof
  assume "v \<in> vnames" "v @ ''.json'' = ''kp.history.json''"
  then have "v @ ''.json'' = ''kp.history'' @ ''.json''" by simp
  then have "v = ''kp.history''" by (simp only: append_same_eq)
  with \<open>v \<in> vnames\<close> show False by (simp add: vnames_def)
qed

lemma slots_distinct:
  assumes "fs_key b k"
  shows "obj_comps b k \<noteq> meta_comps b k" "obj_comps b k \<noteq> hist_comps b k" "obj_comps b k \<noteq> data_comps b k v"
    "obj_comps b k \<noteq> vmeta_comps b k v" "obj_comps b k \<noteq> temp_comps u" "meta_comps b k \<noteq> hist_comps b k"
    "meta_comps b k \<noteq> data_comps b k v" "meta_comps b k \<noteq> vmeta_comps b k v" "meta_comps b k \<noteq> temp_comps u"
    "hist_comps b k \<noteq> data_comps b k v" "v \<in> vnames \<Longrightarrow> hist_comps b k \<noteq> vmeta_comps b k v" "hist_comps b k \<noteq> temp_comps u"
    "data_comps b k v \<noteq> vmeta_comps b k w" "data_comps b k v \<noteq> temp_comps u" "vmeta_comps b k v \<noteq> temp_comps u"
    "data_comps b k v = data_comps b k w \<longleftrightarrow> v = w" "vmeta_comps b k v = vmeta_comps b k w \<longleftrightarrow> v = w"
    "temp_comps u = temp_comps u' \<longleftrightarrow> u = u'"
proof -
  note p = fs_key_plain [OF assms]
  obtain q where o: "obj_comps b k = b # q" "q \<noteq> []" using fs_object_path_eq(2) [OF assms] by blast
  obtain q' where m: "meta_comps b k = [SYS_DIR, ''meta'', b] @ q'" using fs_meta_path_eq(2) [OF assms] by blast
  note defs = hist_comps_def data_comps_def vmeta_comps_def temp_comps_def ver_comps_def
  show "obj_comps b k \<noteq> meta_comps b k" "obj_comps b k \<noteq> hist_comps b k" "obj_comps b k \<noteq> data_comps b k v"
    "obj_comps b k \<noteq> vmeta_comps b k v" "obj_comps b k \<noteq> temp_comps u"
    using o p(2) by (simp_all add: m defs)
  show "meta_comps b k \<noteq> hist_comps b k" "meta_comps b k \<noteq> data_comps b k v" "meta_comps b k \<noteq> vmeta_comps b k v"
    "meta_comps b k \<noteq> temp_comps u" "hist_comps b k \<noteq> temp_comps u" "data_comps b k v \<noteq> temp_comps u"
    "vmeta_comps b k v \<noteq> temp_comps u"
    by (simp_all add: m defs)
  have "rev ''kp.history.json'' \<noteq> rev (v @ ''.data'')" "rev (v @ ''.data'') \<noteq> rev (w @ ''.json'')" by simp_all
  then have "''kp.history.json'' \<noteq> v @ ''.data''" "v @ ''.data'' \<noteq> w @ ''.json''" by metis+
  then show "hist_comps b k \<noteq> data_comps b k v" "data_comps b k v \<noteq> vmeta_comps b k w" by (simp_all add: defs)
  show "v \<in> vnames \<Longrightarrow> hist_comps b k \<noteq> vmeta_comps b k v" using vname_files [of v] by (simp add: defs)
  show "data_comps b k v = data_comps b k w \<longleftrightarrow> v = w" "vmeta_comps b k v = vmeta_comps b k w \<longleftrightarrow> v = w"
    "temp_comps u = temp_comps u' \<longleftrightarrow> u = u'" by (simp_all add: defs)
qed

lemma key_paths_apart:
  assumes "fs_key b k"
  shows "apart (key_paths b k)"
proof -
  note p = fs_key_plain [OF assms]
  obtain q where o: "obj_comps b k = b # q" "q \<noteq> []" "safe q" using fs_object_path_eq(2) [OF assms] by blast
  obtain q' where m: "meta_comps b k = [SYS_DIR, ''meta'', b] @ q'" "q' \<noteq> []" "safe q'"
    using fs_meta_path_eq(2) [OF assms] by blast
  have s: "safe (key_path)" "key_path \<noteq> []" if "key_path \<in> key_paths b k" for key_path
    using that o m p plain_path_safe [of "[b]"]
    by (auto simp: key_paths_def hist_comps_def data_comps_def vmeta_comps_def temp_comps_def ver_comps_def
        vnames_def plain_comp_def SYS_DIR_def)
  have kinds: "x = b # q \<or> x = [SYS_DIR, ''meta'', b] @ q' \<or> (\<exists>f. x = ver_comps b k @ [f]) \<or> (\<exists>u. x = temp_comps u)"
    if "x \<in> key_paths b k" for x
    using that o m by (auto simp: key_paths_def hist_comps_def data_comps_def vmeta_comps_def)
  have "\<not> strict_prefix x y" if xy: "x \<in> key_paths b k" "y \<in> key_paths b k" for x y
    using kinds [OF xy(1)] kinds [OF xy(2)] p(2)
    by (auto simp: ver_comps_def temp_comps_def strict_prefix_def prefix_def)
  with s show ?thesis by (auto simp: apart_def)
qed

end
