(* ===== verification/Fs_Versions.thy ===== *)
theory Fs_Versions
  imports Fs_Slots
begin

text \<open>
  The versions of a key in the filesystem backend as a list, newest first, of version ids with what they
  hold: nothing for a delete marker, else a payload and its metadata.  The current version's files lie in
  the current slot, all others in the archive; the backend's steps keep it so, and act on the list as
  their names say.
\<close>

section \<open>The abstract versions\<close>

type_synonym slot_files = "doc option \<times> doc option"
type_synonym version_row = "string \<times> slot_files option"
type_synonym files = "path \<Rightarrow> doc option"

definition current_slot :: "files \<Rightarrow> string \<Rightarrow> string \<Rightarrow> slot_files" where
  "current_slot F b k = (F (obj_comps b k), F (meta_comps b k))"

definition archive_slot :: "files \<Rightarrow> string \<Rightarrow> string \<Rightarrow> string \<Rightarrow> slot_files" where
  "archive_slot F b k v =
     (if plain_comp v \<and> v \<noteq> ''kp.history'' then (F (data_comps b k v), F (vmeta_comps b k v)) else (None, None))"

definition entry_row :: "slot_files \<Rightarrow> version_entry \<Rightarrow> version_row" where
  "entry_row s e = (fe_version_id e, if fe_delete_marker e then None else Some s)"

definition archived_rows :: "(string \<Rightarrow> slot_files) \<Rightarrow> version_entry list \<Rightarrow> version_row list" where
  "archived_rows A vs = map (\<lambda>e. entry_row (A (fe_version_id e)) e) vs"

definition rows_of :: "slot_files \<Rightarrow> (string \<Rightarrow> slot_files) \<Rightarrow> version_entry list \<Rightarrow> version_row list" where
  "rows_of s A vs = (case vs of [] \<Rightarrow> [] | e # es \<Rightarrow> entry_row s e # archived_rows A es)"

definition history_in :: "files \<Rightarrow> string \<Rightarrow> string \<Rightarrow> version_entry list" where
  "history_in F b k = (case Option.bind (F (hist_comps b k)) as_versions of Some vs \<Rightarrow> vs | None \<Rightarrow> [])"

text \<open>A key without a history that has a payload is its own \<open>null\<close> version.\<close>

definition versions_in :: "files \<Rightarrow> string \<Rightarrow> string \<Rightarrow> version_row list" where
  "versions_in F b k =
     (if F (hist_comps b k) = None \<and> F (obj_comps b k) \<noteq> None then [(''null'', Some (current_slot F b k))]
      else rows_of (current_slot F b k) (archive_slot F b k) (history_in F b k))"

section \<open>What the files of a key look like\<close>

definition archive_ok :: "(string \<Rightarrow> slot_files) \<Rightarrow> version_entry list \<Rightarrow> bool" where
  "archive_ok A vs = (distinct (map fe_version_id vs) \<and> fe_version_id ` set vs \<subseteq> vnames
     \<and> (\<forall>e \<in> set vs. \<not> fe_delete_marker e \<longrightarrow> fst (A (fe_version_id e)) \<noteq> None)
     \<and> (\<forall>v. A v \<noteq> (None, None) \<longrightarrow> (\<exists>e \<in> set vs. fe_version_id e = v \<and> \<not> fe_delete_marker e)))"

text \<open>The current slot is free, and every version is in the archive.\<close>

definition slot_free :: "slot_files \<Rightarrow> (string \<Rightarrow> slot_files) \<Rightarrow> version_entry list \<Rightarrow> bool" where
  "slot_free s A vs = (s = (None, None) \<and> archive_ok A vs)"

text \<open>The newest version is in the current slot unless it is a delete marker.\<close>

definition slots_ok :: "slot_files \<Rightarrow> (string \<Rightarrow> slot_files) \<Rightarrow> version_entry list \<Rightarrow> bool" where
  "slots_ok s A vs = (archive_ok A (tl vs) \<and> (head_occupied vs \<longleftrightarrow> fst s \<noteq> None) \<and> (fst s = None \<longrightarrow> snd s = None)
     \<and> (vs \<noteq> [] \<longrightarrow> fe_version_id (hd vs) \<in> vnames \<and> fe_version_id (hd vs) \<notin> fe_version_id ` set (tl vs)))"

definition versions_ok :: "files \<Rightarrow> string \<Rightarrow> string \<Rightarrow> bool" where
  "versions_ok F b k =
     (case F (hist_comps b k) of
        None \<Rightarrow> (F (obj_comps b k) = None \<longrightarrow> F (meta_comps b k) = None) \<and> (\<forall>v. archive_slot F b k v = (None, None))
      | Some c \<Rightarrow> as_versions c \<noteq> None \<and> slots_ok (current_slot F b k) (archive_slot F b k) (history_in F b k))"

lemma archived_rows_simps [simp]:
  "archived_rows A [] = []" "archived_rows A (e # es) = entry_row (A (fe_version_id e)) e # archived_rows A es"
  by (simp_all add: archived_rows_def)

lemma rows_of_simps [simp]: "rows_of s A [] = []" "rows_of s A (e # es) = entry_row s e # archived_rows A es"
  by (simp_all add: rows_of_def)

lemma head_occupied_simps [simp]: "\<not> head_occupied []" "head_occupied (e # es) \<longleftrightarrow> \<not> fe_delete_marker e"
  by (simp_all add: head_occupied_def)

lemma entry_row_vid [simp]: "fst (entry_row s e) = fe_version_id e"
  by (simp add: entry_row_def)

lemma rows_vids: "map fst (archived_rows A vs) = map fe_version_id vs" "map fst (rows_of s A vs) = map fe_version_id vs"
  by (cases vs; simp add: archived_rows_def comp_def)+

section \<open>The slots under updates of the files\<close>

lemma vnames_iff: "v \<in> vnames \<longleftrightarrow> plain_comp v \<and> v \<noteq> ''kp.history''"
  by (simp add: vnames_def)

lemmas slots_sep = slots_distinct slots_distinct(1-15) [THEN not_sym]

lemma slot_updates:
  assumes k: "fs_key b k"
  shows "archive_slot (F(obj_comps b k := x)) b k = archive_slot F b k"
    "archive_slot (F(meta_comps b k := x)) b k = archive_slot F b k"
    "archive_slot (F(hist_comps b k := x)) b k = archive_slot F b k"
    "archive_slot (F(temp_comps u := x)) b k = archive_slot F b k"
    "v \<in> vnames \<Longrightarrow> archive_slot (F(data_comps b k v := x)) b k = (archive_slot F b k)(v := (x, snd (archive_slot F b k v)))"
    "v \<in> vnames \<Longrightarrow> archive_slot (F(vmeta_comps b k v := x)) b k = (archive_slot F b k)(v := (fst (archive_slot F b k v), x))"
    "current_slot (F(obj_comps b k := x)) b k = (x, snd (current_slot F b k))"
    "current_slot (F(meta_comps b k := x)) b k = (fst (current_slot F b k), x)"
    "current_slot (F(hist_comps b k := x)) b k = current_slot F b k"
    "current_slot (F(temp_comps u := x)) b k = current_slot F b k"
    "current_slot (F(data_comps b k v := x)) b k = current_slot F b k"
    "current_slot (F(vmeta_comps b k v := x)) b k = current_slot F b k"
  using slots_sep [OF k]
  by (auto simp: archive_slot_def current_slot_def fun_eq_iff vnames_iff)

lemma slots_at:
  "F (obj_comps b k) = fst (current_slot F b k)" "F (meta_comps b k) = snd (current_slot F b k)"
  "v \<in> vnames \<Longrightarrow> F (data_comps b k v) = fst (archive_slot F b k v)"
  "v \<in> vnames \<Longrightarrow> F (vmeta_comps b k v) = snd (archive_slot F b k v)"
  by (simp_all add: current_slot_def archive_slot_def vnames_iff)

section \<open>The archive\<close>

lemma archive_ok_outside: "archive_ok A vs \<Longrightarrow> v \<notin> fe_version_id ` set vs \<Longrightarrow> A v = (None, None)"
  by (auto simp: archive_ok_def)

lemma archived_rows_other: "v \<notin> fe_version_id ` set vs \<Longrightarrow> archived_rows (A(v := x)) vs = archived_rows A vs"
  by (induction vs) auto

lemma archive_ok_add:
  assumes "archive_ok A vs" and "fe_version_id e \<in> vnames" "fe_version_id e \<notin> fe_version_id ` set vs"
    and "\<not> fe_delete_marker e" "fst x \<noteq> None"
  shows "archive_ok (A(fe_version_id e := x)) (e # vs)"
  using assms by (auto simp: archive_ok_def)

lemma archive_ok_marker:
  assumes "archive_ok A vs" and "fe_version_id e \<in> vnames" "fe_version_id e \<notin> fe_version_id ` set vs" "fe_delete_marker e"
  shows "archive_ok A (e # vs)"
  using assms by (auto simp: archive_ok_def)

lemma archive_ok_remove:
  assumes "archive_ok A vs"
  shows "archive_ok (A(v := (None, None))) (filter (\<lambda>e. fe_version_id e \<noteq> v) vs)"
    "archived_rows (A(v := (None, None))) (filter (\<lambda>e. fe_version_id e \<noteq> v) vs) = filter (\<lambda>r. fst r \<noteq> v) (archived_rows A vs)"
proof -
  show "archive_ok (A(v := (None, None))) (filter (\<lambda>e. fe_version_id e \<noteq> v) vs)"
    using assms by (auto simp: archive_ok_def distinct_map_filter)
  show "archived_rows (A(v := (None, None))) (filter (\<lambda>e. fe_version_id e \<noteq> v) vs) = filter (\<lambda>r. fst r \<noteq> v) (archived_rows A vs)"
    by (induction vs) auto
qed

lemma filter_absent: "v \<notin> f ` set vs \<Longrightarrow> filter (\<lambda>e. f e \<noteq> v) vs = vs"
  by (metis (mono_tags, lifting) filter_True imageI)

lemma archive_ok_tl:
  assumes "archive_ok A (e # vs)"
  shows "archive_ok (A(fe_version_id e := (None, None))) vs"
proof -
  have "fe_version_id e \<notin> fe_version_id ` set vs" using assms by (simp add: archive_ok_def)
  then show ?thesis
    using archive_ok_remove(1) [OF assms, of "fe_version_id e"] by (simp add: filter_absent)
qed

lemma remove_at_distinct:
  assumes "distinct (map f xs)" and "position (\<lambda>x. f x = v) xs = Some i"
  shows "remove_at i xs = filter (\<lambda>x. f x \<noteq> v) xs"
  using assms
proof (induction xs arbitrary: i)
  case (Cons x xs)
  show ?case
  proof (cases "f x = v")
    case True
    have "f x \<notin> f ` set xs" using Cons.prems(1) by simp
    then have "\<forall>y \<in> set xs. f y \<noteq> v" using True by (metis imageI)
    then have "filter (\<lambda>x. f x \<noteq> v) xs = xs" by simp
    with True Cons.prems show ?thesis by (simp add: remove_at_def)
  next
    case False
    with Cons.prems obtain j where "i = Suc j" "position (\<lambda>x. f x = v) xs = Some j" by auto
    with False Cons show ?thesis by (simp add: remove_at_def)
  qed
qed simp

section \<open>Taking and leaving the current slot\<close>

text \<open>With the slot free, a new version or a marker becomes the head.\<close>

lemma slots_ok_push:
  assumes "slot_free s A vs" and "fe_version_id e \<in> vnames" "fe_version_id e \<notin> fe_version_id ` set vs"
  shows "fe_delete_marker e \<Longrightarrow> slots_ok s A (e # vs) \<and> rows_of s A (e # vs) = (fe_version_id e, None) # archived_rows A vs"
    and "\<not> fe_delete_marker e \<Longrightarrow> fst s' \<noteq> None \<Longrightarrow>
      slots_ok s' A (e # vs) \<and> rows_of s' A (e # vs) = (fe_version_id e, Some s') # archived_rows A vs"
  using assms by (auto simp: slot_free_def slots_ok_def entry_row_def)

text \<open>Moving the head out of the slot.\<close>

lemma slots_ok_demote:
  assumes "slots_ok s A (e # vs)" and "\<not> fe_delete_marker e"
  shows "slot_free (None, None) (A(fe_version_id e := s)) (e # vs)"
    and "archived_rows (A(fe_version_id e := s)) (e # vs) = rows_of s A (e # vs)"
  using assms archive_ok_add [of A vs e s] archived_rows_other [of "fe_version_id e" vs A s]
  by (auto simp: slots_ok_def slot_free_def)

lemma slots_ok_free:
  assumes "slots_ok s A vs" and "\<not> head_occupied vs"
  shows "slot_free s A vs" and "archived_rows A vs = rows_of s A vs"
  using assms archive_ok_marker [of A "tl vs" "hd vs"]
  by (cases vs; cases s; auto simp: slots_ok_def slot_free_def entry_row_def archive_ok_def)+

text \<open>Removing a version: below the head, or the head itself.\<close>

lemma slots_ok_remove_tl:
  assumes "slots_ok s A (e # vs)" and "fe_version_id e \<noteq> v"
  shows "slots_ok s (A(v := (None, None))) (e # filter (\<lambda>e. fe_version_id e \<noteq> v) vs)"
    and "rows_of s (A(v := (None, None))) (e # filter (\<lambda>e. fe_version_id e \<noteq> v) vs) = filter (\<lambda>r. fst r \<noteq> v) (rows_of s A (e # vs))"
  using assms archive_ok_remove [of A vs v] by (auto simp: slots_ok_def)

lemma slots_ok_discard:
  assumes "slots_ok s A (e # vs)"
  shows "slot_free (None, None) A vs" and "archived_rows A vs = filter (\<lambda>r. fst r \<noteq> fe_version_id e) (rows_of s A (e # vs))"
proof -
  show "slot_free (None, None) A vs" using assms by (simp add: slots_ok_def slot_free_def)
  have "fe_version_id e \<notin> fe_version_id ` set vs" using assms by (simp add: slots_ok_def)
  also have "fe_version_id ` set vs = fst ` set (archived_rows A vs)" by (simp add: archived_rows_def image_image)
  finally show "archived_rows A vs = filter (\<lambda>r. fst r \<noteq> fe_version_id e) (rows_of s A (e # vs))"
    by (simp add: filter_absent)
qed

lemma slot_free_promote:
  assumes "slot_free s A (e # vs)" and "\<not> fe_delete_marker e"
  shows "slots_ok (A (fe_version_id e)) (A(fe_version_id e := (None, None))) (e # vs)"
    and "rows_of (A (fe_version_id e)) (A(fe_version_id e := (None, None))) (e # vs) = archived_rows A (e # vs)"
proof -
  have a: "archive_ok A (e # vs)" using assms by (simp add: slot_free_def)
  then have h: "fe_version_id e \<in> vnames" "fe_version_id e \<notin> fe_version_id ` set vs" "fst (A (fe_version_id e)) \<noteq> None"
    using assms(2) by (auto simp: archive_ok_def)
  then show "slots_ok (A (fe_version_id e)) (A(fe_version_id e := (None, None))) (e # vs)"
    using archive_ok_tl [OF a] assms(2) by (auto simp: slots_ok_def)
  show "rows_of (A (fe_version_id e)) (A(fe_version_id e := (None, None))) (e # vs) = archived_rows A (e # vs)"
    using archived_rows_other [OF h(2), of A] by simp
qed

lemma slot_free_keep:
  assumes "slot_free s A vs" and "\<not> head_occupied vs"
  shows "slots_ok s A vs" and "rows_of s A vs = archived_rows A vs"
  using assms by (cases vs; auto simp: slot_free_def slots_ok_def archive_ok_def entry_row_def)+

end
