(* ===== verification/Fs_Refine.thy ===== *)
theory Fs_Refine
  imports Fs_Versions
begin

text \<open>
  The filesystem backend's steps as steps on the list of versions.  Each of them starts in an arena of the
  key's paths, updates the key's files and no others, and leaves the versions as stated.
\<close>

section \<open>The files of a key\<close>

definition slot_paths :: "string \<Rightarrow> string \<Rightarrow> path set" where
  "slot_paths b k = {obj_comps b k, meta_comps b k, hist_comps b k} \<union> data_comps b k ` vnames \<union> vmeta_comps b k ` vnames"

abbreviation in_arena :: "string \<Rightarrow> string \<Rightarrow> drive \<Rightarrow> bool" where
  "in_arena b k \<equiv> arena (key_paths b k) (key_dirs b)"

text \<open>From \<open>d\<close> to \<open>d'\<close> within the arena, with files \<open>F\<close> that differ from those of \<open>d\<close> in the key's slots only.\<close>

definition moves :: "string \<Rightarrow> string \<Rightarrow> drive \<Rightarrow> drive \<Rightarrow> files \<Rightarrow> bool" where
  "moves b k d d' F = (becomes (key_paths b k) (key_dirs b) d d' F \<and> (\<forall>q. q \<notin> slot_paths b k \<longrightarrow> F q = file_at d q))"

lemma movesD:
  assumes "moves b k d d' F"
  shows "in_arena b k d'" "file_at d' = F" "q \<notin> slot_paths b k \<Longrightarrow> F q = file_at d q"
    "look d r = Some Dir \<Longrightarrow> look d' r = Some Dir"
  using assms by (auto simp: moves_def becomes_def)

lemma moves_refl: "in_arena b k d \<Longrightarrow> moves b k d d (file_at d)"
  by (simp add: moves_def becomes_refl)

lemma moves_trans: "moves b k d d1 F \<Longrightarrow> moves b k d1 d2 G \<Longrightarrow> moves b k d d2 G"
  by (auto simp: moves_def becomes_def)

lemma movesI:
  "becomes (key_paths b k) (key_dirs b) d d' F \<Longrightarrow> (\<And>q. q \<notin> slot_paths b k \<Longrightarrow> F q = file_at d q) \<Longrightarrow> moves b k d d' F"
  by (simp add: moves_def)

lemma slot_paths_in [simp]:
  "obj_comps b k \<in> slot_paths b k" "meta_comps b k \<in> slot_paths b k" "hist_comps b k \<in> slot_paths b k"
  "v \<in> vnames \<Longrightarrow> data_comps b k v \<in> slot_paths b k" "v \<in> vnames \<Longrightarrow> vmeta_comps b k v \<in> slot_paths b k"
  by (auto simp: slot_paths_def)

lemma temp_not_slot: "fs_key b k \<Longrightarrow> temp_comps u \<notin> slot_paths b k"
  using slots_distinct(5,9,12,14,15) [of b k, THEN not_sym] by (auto simp: slot_paths_def)

section \<open>Single steps\<close>

lemma moves_save:
  assumes "in_arena b k d" "q \<in> key_paths b k" "q \<in> slot_paths b k"
  obtains d' where "save_file d (PathBuf False q) c what = (d', Ok ())" "moves b k d d' ((file_at d)(q := Some c))"
proof -
  obtain d' where "save_file d (PathBuf False q) c what = (d', Ok ())"
    "becomes (key_paths b k) (key_dirs b) d d' ((file_at d)(q := Some c))" using arena_save [OF assms(1,2)] .
  moreover from this(2) have "moves b k d d' ((file_at d)(q := Some c))" by (rule movesI) (use assms(3) in auto)
  ultimately show ?thesis using that by blast
qed

lemma moves_remove:
  assumes "in_arena b k d" "q \<in> key_paths b k" "q \<in> slot_paths b k"
  shows "moves b k d (fst (drive_remove_file d (PathBuf False q))) ((file_at d)(q := None))"
proof -
  obtain d' j where "drive_remove_file d (PathBuf False q) = (d', j)"
    "becomes (key_paths b k) (key_dirs b) d d' ((file_at d)(q := None))" using arena_remove_file [OF assms(1,2)] .
  then show ?thesis using assms(3) by (auto intro!: movesI)
qed

lemma moves_remove2:
  assumes a: "in_arena b k d" and "p \<in> key_paths b k" "p \<in> slot_paths b k" "q \<in> key_paths b k" "q \<in> slot_paths b k"
  shows "moves b k d (fst (drive_remove_file (fst (drive_remove_file d (PathBuf False p))) (PathBuf False q)))
    ((file_at d)(p := None, q := None))"
  using moves_trans [OF moves_remove [OF a assms(2,3)] moves_remove [OF movesD(1) [OF moves_remove [OF a assms(2,3)]] assms(4,5)]]
    movesD(2) [OF moves_remove [OF a assms(2,3)]] by simp

text \<open>A rename that may find nothing to rename.\<close>

lemma moves_rename:
  assumes a: "in_arena b k d" and p: "p \<in> key_paths b k" "p \<in> slot_paths b k"
    and q: "q \<in> key_paths b k" "q \<in> slot_paths b k" "p \<noteq> q" and par: "look d (butlast q) = Some Dir"
    and fresh: "file_at d p = None \<Longrightarrow> file_at d q = None"
  shows "moves b k d (fst (drive_rename d (PathBuf False p) (PathBuf False q)))
    ((file_at d)(q := file_at d p, p := None))"
proof (cases "file_at d p")
  case None
  have "(file_at d)(q := None, p := None) = file_at d" using None fresh by auto
  then show ?thesis using None arena_rename_missing [OF a p(1) q(1,3) None] moves_refl [OF a] by simp
next
  case (Some c)
  obtain d' where "drive_rename d (PathBuf False p) (PathBuf False q) = (d', True)"
    "becomes (key_paths b k) (key_dirs b) d d' ((file_at d)(q := Some c, p := None))"
    using arena_rename [OF a p(1) q(1,3) Some par] .
  then show ?thesis using Some p q by (auto intro!: movesI)
qed

lemma moves_mkdir:
  assumes a: "in_arena b k d" and q: "q \<in> key_paths b k"
  obtains d' where "mkdir_parent d (PathBuf False q) = (d', True)" "moves b k d d' (file_at d)"
    "look d' (butlast q) = Some Dir"
proof -
  obtain d' where "mkdir_parent d (PathBuf False q) = (d', True)"
    "becomes (key_paths b k) (key_dirs b) d d' (file_at d)" "look d' (butlast q) = Some Dir"
    using arena_mkdir_parent [OF a q] .
  then show ?thesis using that [of d'] by (auto intro!: movesI)
qed

text \<open>A payload and its metadata from one place to another: the two halves of a demotion or a promotion.\<close>

lemma moves_pair:
  assumes a: "in_arena b k d" and paths: "p \<in> key_paths b k" "p' \<in> key_paths b k" "q \<in> key_paths b k" "q' \<in> key_paths b k"
      "p \<in> slot_paths b k" "p' \<in> slot_paths b k" "q \<in> slot_paths b k" "q' \<in> slot_paths b k"
    and ne: "distinct [p, p', q, q']"
    and c: "file_at d p = Some c" and fresh: "file_at d p' = None \<Longrightarrow> file_at d q' = None"
    and par: "look d (butlast q) = Some Dir" "file_at d p' \<noteq> None \<Longrightarrow> look d (butlast q') = Some Dir"
  obtains d1 where "drive_rename d (PathBuf False p) (PathBuf False q) = (d1, True)"
    "moves b k d (fst (drive_rename d1 (PathBuf False p') (PathBuf False q')))
      ((file_at d)(q := Some c, p := None, q' := file_at d p', p' := None))"
proof -
  have ne1: "p \<noteq> q" "p' \<noteq> q'" using ne by auto
  obtain d1 where 1: "drive_rename d (PathBuf False p) (PathBuf False q) = (d1, True)"
    "becomes (key_paths b k) (key_dirs b) d d1 ((file_at d)(q := Some c, p := None))"
    using arena_rename [OF a paths(1,3) ne1(1) c par(1)] .
  have m1: "moves b k d d1 ((file_at d)(q := Some c, p := None))" using 1(2) paths by (auto intro!: movesI)
  have f: "file_at d1 p' = file_at d p'" "file_at d1 q' = file_at d q'" using movesD(2) [OF m1] ne by auto
  have "moves b k d1 (fst (drive_rename d1 (PathBuf False p') (PathBuf False q'))) ((file_at d1)(q' := file_at d1 p', p' := None))"
  proof (cases "file_at d1 p'")
    case None
    then have "(file_at d1)(q' := None, p' := None) = file_at d1" using f fresh by auto
    then show ?thesis
      using None arena_rename_missing [OF movesD(1) [OF m1] paths(2,4) ne1(2) None] moves_refl [OF movesD(1) [OF m1]] by simp
  next
    case (Some x)
    then have "look d1 (butlast q') = Some Dir" using f par(2) movesD(4) [OF m1] by simp
    then show ?thesis using moves_rename [OF movesD(1) [OF m1] paths(2,6,4,8) ne1(2)] Some by simp
  qed
  then have "moves b k d (fst (drive_rename d1 (PathBuf False p') (PathBuf False q')))
      ((file_at d)(q := Some c, p := None, q' := file_at d p', p' := None))"
    using moves_trans [OF m1] movesD(2) [OF m1] f by simp
  with 1(1) show ?thesis by (rule that)
qed

section \<open>Slots and archive\<close>

text \<open>What the proofs read off the files: the three parts of a key's state.\<close>

definition slots_are :: "string \<Rightarrow> string \<Rightarrow> drive \<Rightarrow> slot_files \<Rightarrow> (string \<Rightarrow> slot_files) \<Rightarrow> doc option \<Rightarrow> bool" where
  "slots_are b k d s A h = (current_slot (file_at d) b k = s \<and> archive_slot (file_at d) b k = A \<and> file_at d (hist_comps b k) = h)"

lemma slots_areD:
  assumes "slots_are b k d s A h"
  shows "file_at d (obj_comps b k) = fst s" "file_at d (meta_comps b k) = snd s" "file_at d (hist_comps b k) = h"
    "v \<in> vnames \<Longrightarrow> file_at d (data_comps b k v) = fst (A v)" "v \<in> vnames \<Longrightarrow> file_at d (vmeta_comps b k v) = snd (A v)"
    "current_slot (file_at d) b k = s" "archive_slot (file_at d) b k = A"
  using assms by (auto simp: slots_are_def current_slot_def archive_slot_def vnames_iff)

text \<open>An archived metadata file has a directory to come back to.\<close>

definition meta_home :: "string \<Rightarrow> string \<Rightarrow> drive \<Rightarrow> bool" where
  "meta_home b k d = ((\<exists>v \<in> vnames. file_at d (vmeta_comps b k v) \<noteq> None) \<longrightarrow> look d (butlast (meta_comps b k)) = Some Dir)"

definition reaches :: "string \<Rightarrow> string \<Rightarrow> drive \<Rightarrow> drive \<Rightarrow> slot_files \<Rightarrow> (string \<Rightarrow> slot_files) \<Rightarrow> doc option \<Rightarrow> bool" where
  "reaches b k d d' s A h = (moves b k d d' (file_at d') \<and> slots_are b k d' s A h \<and> (meta_home b k d \<longrightarrow> meta_home b k d'))"

lemma reachesI:
  assumes "moves b k d d' F" and "current_slot F b k = s" "archive_slot F b k = A" "F (hist_comps b k) = h"
    and "meta_home b k d \<Longrightarrow> meta_home b k d'"
  shows "reaches b k d d' s A h"
  using assms movesD(2) [OF assms(1)] by (simp add: reaches_def slots_are_def)

lemma reachesD:
  assumes "reaches b k d d' s A h"
  shows "in_arena b k d'" "slots_are b k d' s A h" "meta_home b k d \<Longrightarrow> meta_home b k d'"
    "q \<notin> slot_paths b k \<Longrightarrow> file_at d' q = file_at d q" "look d r = Some Dir \<Longrightarrow> look d' r = Some Dir"
    "moves b k d d' (file_at d')"
  using assms movesD [of b k d d' "file_at d'"] by (auto simp: reaches_def)

lemma reaches_refl: "in_arena b k d \<Longrightarrow> slots_are b k d s A h \<Longrightarrow> reaches b k d d s A h"
  by (simp add: reaches_def moves_refl)

lemma reaches_trans: "reaches b k d d1 s A h \<Longrightarrow> reaches b k d1 d2 s' A' h' \<Longrightarrow> reaches b k d d2 s' A' h'"
  by (auto simp: reaches_def intro: moves_trans)

lemma meta_home_kept:
  assumes "moves b k d d' F" and "\<And>v. v \<in> vnames \<Longrightarrow> F (vmeta_comps b k v) \<noteq> None \<Longrightarrow> file_at d (vmeta_comps b k v) \<noteq> None"
  shows "meta_home b k d \<Longrightarrow> meta_home b k d'"
  using assms(2) movesD(2,4) [OF assms(1)] by (auto simp: meta_home_def)

lemma slots_hist [simp]:
  assumes "fs_key b k" "v \<in> vnames"
  shows "hist_comps b k \<noteq> data_comps b k v" "hist_comps b k \<noteq> vmeta_comps b k v"
  using slots_distinct(10,11) [OF assms(1)] assms(2) by auto

lemma slots_hist_cur [simp]:
  assumes "fs_key b k"
  shows "hist_comps b k \<noteq> obj_comps b k" "hist_comps b k \<noteq> meta_comps b k"
  using slots_distinct(2,6) [OF assms] by auto

lemma pair_distinct:
  assumes "fs_key b k"
  shows "distinct [obj_comps b k, meta_comps b k, data_comps b k v, vmeta_comps b k v]"
    "distinct [data_comps b k v, vmeta_comps b k v, obj_comps b k, meta_comps b k]"
  using slots_distinct [OF assms] by (auto simp: eq_commute)

lemma discard_reaches:
  assumes a: "in_arena b k d" and k: "fs_key b k" and s: "slots_are b k d s A h"
  shows "reaches b k d (discard_canonical d b k) (None, None) A h"
proof -
  have m: "moves b k d (discard_canonical d b k) ((file_at d)(obj_comps b k := None, meta_comps b k := None))"
    using moves_remove2 [OF a, of "obj_comps b k" "meta_comps b k"] by (simp add: discard_canonical_def fs_paths [OF k])
  show ?thesis
    by (rule reachesI [OF m], use slots_areD [OF s] slots_sep [OF k] in \<open>simp_all add: slot_updates [OF k]\<close>)
      (erule meta_home_kept [OF m, rotated], use slots_sep [OF k] in \<open>auto split: if_splits\<close>)
qed

lemma remove_archive_reaches:
  assumes a: "in_arena b k d" and k: "fs_key b k" and s: "slots_are b k d s A h" and v: "v \<in> vnames"
  shows "reaches b k d (fs_remove_archive d b k v) s (A(v := (None, None))) h"
proof -
  have m: "moves b k d (fs_remove_archive d b k v) ((file_at d)(data_comps b k v := None, vmeta_comps b k v := None))"
    using moves_remove2 [OF a, of "data_comps b k v" "vmeta_comps b k v"] v
    by (simp add: fs_remove_archive_def fs_paths [OF k])
  show ?thesis
    by (rule reachesI [OF m], use slots_areD [OF s] v k in \<open>simp_all add: slot_updates [OF k] fun_eq_iff\<close>)
      (erule meta_home_kept [OF m, rotated], use slots_sep [OF k] in \<open>auto split: if_splits\<close>)
qed

lemma demote_reaches:
  assumes a: "in_arena b k d" and k: "fs_key b k" and s: "slots_are b k d s A h" and v: "v \<in> vnames"
    and c: "fst s = Some c" and fresh: "A v = (None, None)"
  obtains d' where "demote_canonical d b k v = (d', Ok ())" "reaches b k d d' (None, None) (A(v := s)) h"
proof -
  obtain d1 where 1: "mkdir_parent d (PathBuf False (data_comps b k v)) = (d1, True)" "moves b k d d1 (file_at d)"
    "look d1 (butlast (data_comps b k v)) = Some Dir" using moves_mkdir [OF a, of "data_comps b k v"] v by auto
  have f: "file_at d1 = file_at d" using movesD(2) [OF 1(2)] .
  note sl = slots_areD [OF s]
  have par: "butlast (vmeta_comps b k v) = butlast (data_comps b k v)" by (simp add: vmeta_comps_def data_comps_def)
  obtain d2 where 2: "drive_rename d1 (PathBuf False (obj_comps b k)) (PathBuf False (data_comps b k v)) = (d2, True)"
    "moves b k d1 (fst (drive_rename d2 (PathBuf False (meta_comps b k)) (PathBuf False (vmeta_comps b k v))))
      ((file_at d1)(data_comps b k v := Some c, obj_comps b k := None, vmeta_comps b k v := file_at d1 (meta_comps b k), meta_comps b k := None))"
    using moves_pair [OF movesD(1) [OF 1(2)], of "obj_comps b k" "meta_comps b k" "data_comps b k v" "vmeta_comps b k v" c]
      pair_distinct(1) [OF k] v c fresh 1(3) sl f par by auto
  let ?d = "fst (drive_rename d2 (PathBuf False (meta_comps b k)) (PathBuf False (vmeta_comps b k v)))"
  have m: "moves b k d ?d ((file_at d)(data_comps b k v := Some c, obj_comps b k := None, vmeta_comps b k v := snd s, meta_comps b k := None))"
    using moves_trans [OF 1(2) 2(2)] f sl(2) by simp
  have home: "meta_home b k ?d" if "meta_home b k d"
  proof (cases "snd s")
    case None
    show ?thesis
      by (rule meta_home_kept [OF m _ that]) (use None slots_sep [OF k] v in \<open>auto split: if_splits\<close>)
  next
    case (Some x)
    have "look d (meta_comps b k) = Some (File x)" using sl(2) Some by (simp add: file_at_Some)
    then have "look d (butlast (meta_comps b k)) = Some Dir"
      using look_parent [OF arenaD(1) [OF a]] arenaD(4) [OF a, of "meta_comps b k"] by simp
    then show ?thesis using movesD(4) [OF m] by (simp add: meta_home_def)
  qed
  have "reaches b k d ?d (None, None) (A(v := s)) h"
    by (rule reachesI [OF m]) (use sl v k c home in \<open>auto simp: slot_updates [OF k] fun_eq_iff prod_eq_iff\<close>)
  moreover have "demote_canonical d b k v = (?d, Ok ())"
    using 1(1) 2(1) v by (simp add: demote_canonical_def fs_paths [OF k])
  ultimately show ?thesis by (rule that [rotated])
qed

lemma promote_reaches:
  assumes a: "in_arena b k d" and k: "fs_key b k" and s: "slots_are b k d (None, None) A h" and v: "v \<in> vnames"
    and c: "fst (A v) = Some c" and home: "meta_home b k d"
  obtains d' where "promote_canonical d b k v = (d', Ok ())" "reaches b k d d' (A v) (A(v := (None, None))) h"
proof -
  obtain d1 where 1: "mkdir_parent d (PathBuf False (obj_comps b k)) = (d1, True)" "moves b k d d1 (file_at d)"
    "look d1 (butlast (obj_comps b k)) = Some Dir" using moves_mkdir [OF a, of "obj_comps b k"] by auto
  have f: "file_at d1 = file_at d" using movesD(2) [OF 1(2)] .
  note sl = slots_areD [OF s]
  have par: "look d1 (butlast (meta_comps b k)) = Some Dir" if "snd (A v) \<noteq> None"
    using home that sl(5) [OF v] v movesD(4) [OF 1(2)] by (auto simp: meta_home_def)
  obtain d2 where 2: "drive_rename d1 (PathBuf False (data_comps b k v)) (PathBuf False (obj_comps b k)) = (d2, True)"
    "moves b k d1 (fst (drive_rename d2 (PathBuf False (vmeta_comps b k v)) (PathBuf False (meta_comps b k))))
      ((file_at d1)(obj_comps b k := Some c, data_comps b k v := None, meta_comps b k := file_at d1 (vmeta_comps b k v), vmeta_comps b k v := None))"
    using moves_pair [OF movesD(1) [OF 1(2)], of "data_comps b k v" "vmeta_comps b k v" "obj_comps b k" "meta_comps b k" c]
      pair_distinct(2) [OF k] v c 1(3) sl f par by auto
  let ?d = "fst (drive_rename d2 (PathBuf False (vmeta_comps b k v)) (PathBuf False (meta_comps b k)))"
  have m: "moves b k d ?d ((file_at d)(obj_comps b k := Some c, data_comps b k v := None, meta_comps b k := snd (A v), vmeta_comps b k v := None))"
    using moves_trans [OF 1(2) 2(2)] f sl(5) [OF v] by simp
  have "meta_home b k ?d" if "meta_home b k d"
    by (rule meta_home_kept [OF m _ that]) (use slots_sep [OF k] in \<open>auto split: if_splits\<close>)
  then have "reaches b k d ?d (A v) (A(v := (None, None))) h"
    by (intro reachesI [OF m]) (use sl v k c in \<open>auto simp: slot_updates [OF k] fun_eq_iff prod_eq_iff\<close>)
  moreover have "promote_canonical d b k v = (?d, Ok ())"
    using 1(1) 2(1) v by (simp add: promote_canonical_def fs_paths [OF k])
  ultimately show ?thesis by (rule that [rotated])
qed

lemma save_history_reaches:
  assumes a: "in_arena b k d" and k: "fs_key b k" and s: "slots_are b k d s A h"
  obtains d' where "fs_write_history d b k vs = (d', Ok ())" "reaches b k d d' s A (Some (VersionsDoc vs))"
proof -
  obtain d' where 1: "save_file d (PathBuf False (hist_comps b k)) (VersionsDoc vs) ''history'' = (d', Ok ())"
    "moves b k d d' ((file_at d)(hist_comps b k := Some (VersionsDoc vs)))"
    using moves_save [OF a, of "hist_comps b k"] by auto
  have "meta_home b k d'" if "meta_home b k d"
    by (rule meta_home_kept [OF 1(2) _ that]) (use slots_sep [OF k] in \<open>auto split: if_splits\<close>)
  then have "reaches b k d d' s A (Some (VersionsDoc vs))"
    by (intro reachesI [OF 1(2)]) (use slots_areD [OF s] in \<open>auto simp: slot_updates [OF k]\<close>)
  with 1(1) show ?thesis using that by (simp add: fs_write_history_def fs_paths [OF k])
qed

section \<open>Before a write: seed, purge, demote\<close>

text \<open>A key in order: no path of its files is blocked, and its files hold its versions.\<close>

definition fs_ready :: "string \<Rightarrow> string \<Rightarrow> drive \<Rightarrow> bool" where
  "fs_ready b k d = (fs_key b k \<and> in_arena b k d \<and> versions_ok (file_at d) b k \<and> meta_home b k d)"

definition fs_versions :: "string \<Rightarrow> string \<Rightarrow> drive \<Rightarrow> version_row list" where
  "fs_versions b k d = versions_in (file_at d) b k"

lemma fs_readyD:
  assumes "fs_ready b k d"
  shows "fs_key b k" "in_arena b k d" "versions_ok (file_at d) b k" "meta_home b k d"
  using assms by (auto simp: fs_ready_def)

definition hist_of :: "doc option \<Rightarrow> version_entry list" where
  "hist_of h = (case Option.bind h as_versions of Some vs \<Rightarrow> vs | None \<Rightarrow> [])"

lemma hist_of_simps [simp]: "hist_of None = []" "hist_of (Some (VersionsDoc vs)) = vs"
  by (simp_all add: hist_of_def)

lemma read_history_at:
  assumes "in_arena b k d" "fs_key b k" "slots_are b k d s A h"
  shows "fs_read_history d b k = hist_of h"
  using assms slots_areD(3) [OF assms(3)] by (simp add: fs_read_history_def fs_paths arena_read hist_of_def)

lemma read_stored_at:
  assumes "in_arena b k d" "fs_key b k" "slots_are b k d s A h"
  shows "fst s = None \<Longrightarrow> read_stored E C d b k = Err NoSuchKey"
    and "fst s \<noteq> None \<Longrightarrow> \<exists>m. read_stored E C d b k = Ok m"
    and "fst s \<noteq> None \<Longrightarrow> snd s = Some (StoredDoc m) \<Longrightarrow> read_stored E C d b k = Ok m"
  using assms(1,2) slots_areD(1,2) [OF assms(3)]
  by (auto simp: read_stored_def fs_paths arena_read arena_stat Let_def split: option.splits)

lemma versions_at:
  assumes "slots_are b k d s A h"
  shows "fs_versions b k d = (if h = None \<and> fst s \<noteq> None then [(''null'', Some s)] else rows_of s A (hist_of h))"
    "versions_ok (file_at d) b k = (case h of
        None \<Rightarrow> (fst s = None \<longrightarrow> snd s = None) \<and> (\<forall>v. A v = (None, None))
      | Some c \<Rightarrow> as_versions c \<noteq> None \<and> slots_ok s A (hist_of h))"
  using slots_areD [OF assms]
  by (simp_all add: fs_versions_def versions_in_def versions_ok_def history_in_def hist_of_def split: option.split)

lemma seed_reaches:
  assumes r: "fs_ready b k d"
  obtains d' s A h where "fs_seed_legacy_history E C d b k = (d', Ok ())" "reaches b k d d' s A h"
    "slots_ok s A (hist_of h)" "fs_versions b k d = rows_of s A (hist_of h)"
    "fs_ready b k d'" "fs_versions b k d' = fs_versions b k d"
proof -
  note k = fs_readyD(1) [OF r] and a = fs_readyD(2) [OF r]
  obtain s A h where sl: "slots_are b k d s A h" by (simp add: slots_are_def)
  note v = versions_at [OF sl] and rs = read_stored_at [OF a k sl, where E = E and C = C]
  have hh: "fs_has_history d b k \<longleftrightarrow> h \<noteq> None"
    using slots_areD(3) [OF sl] a by (cases h) (simp_all add: fs_has_history_def fs_paths [OF k] arena_stat)
  have ok: "versions_ok (file_at d) b k" using fs_readyD(3) [OF r] .
  show ?thesis
  proof (cases h)
    case (Some c)
    then have "fs_seed_legacy_history E C d b k = (d, Ok ())" using hh by (simp add: fs_seed_legacy_history_def)
    then show ?thesis using that [of d s A h] reaches_refl [OF a sl] v ok Some r by simp
  next
    case None
    show ?thesis
    proof (cases "fst s")
      case n: None
      then have "fs_seed_legacy_history E C d b k = (d, Ok ())"
        using hh rs(1) None by (simp add: fs_seed_legacy_history_def)
      moreover have "s = (None, None)" "slots_ok s A []"
        using v(2) ok None n by (auto simp: slots_ok_def archive_ok_def prod_eq_iff)
      ultimately show ?thesis using that [of d s A h] reaches_refl [OF a sl] v(1) None r by simp
    next
      case (Some c)
      then obtain m where m: "read_stored E C d b k = Ok m" using rs(2) by auto
      obtain d' where d': "fs_write_history d b k [legacy_version m] = (d', Ok ())"
        "reaches b k d d' s A (Some (VersionsDoc [legacy_version m]))" by (rule save_history_reaches [OF a k sl])
      have "fs_seed_legacy_history E C d b k = (d', Ok ())"
        using hh m None d'(1) by (simp add: fs_seed_legacy_history_def)
      moreover have "slots_ok s A [legacy_version m]"
        using v(2) ok None Some by (auto simp: slots_ok_def archive_ok_def legacy_version_def vnames_iff plain_comp_def)
      moreover have "fs_versions b k d = rows_of s A [legacy_version m]"
        using v(1) None Some by (simp add: entry_row_def legacy_version_def)
      ultimately show ?thesis
        using that [of d' s A "Some (VersionsDoc [legacy_version m])"] d' versions_at [OF reachesD(2) [OF d'(2)]]
          reachesD(1,3) [OF d'(2)] k fs_readyD(4) [OF r] by (simp add: fs_ready_def)
    qed
  qed
qed

text \<open>Whether the slot is taken, after the purge: the two shapes a write can meet.\<close>

definition slot_state :: "bool \<Rightarrow> slot_files \<Rightarrow> (string \<Rightarrow> slot_files) \<Rightarrow> version_entry list \<Rightarrow> version_row list \<Rightarrow> bool" where
  "slot_state occ s A vs rows =
     (if occ then slots_ok s A vs \<and> head_occupied vs \<and> rows = rows_of s A vs
      else slot_free s A vs \<and> rows = archived_rows A vs)"

lemma slot_state_ok: "slots_ok s A vs \<Longrightarrow> slot_state (head_occupied vs) s A vs (rows_of s A vs)"
  using slots_ok_free [of s A vs] by (simp add: slot_state_def)

lemma filter_rows_absent: "v \<notin> fe_version_id ` set vs \<Longrightarrow> filter (\<lambda>r. fst r \<noteq> v) (rows_of s A vs) = rows_of s A vs"
proof -
  assume "v \<notin> fe_version_id ` set vs"
  moreover have "fst ` set (rows_of s A vs) = fe_version_id ` set vs" using rows_vids(2) [of s A vs] by (metis list.set_map)
  ultimately show ?thesis using filter_absent [of v fst "rows_of s A vs"] by simp
qed

lemma slots_ok_distinct: "slots_ok s A vs \<Longrightarrow> distinct (map fe_version_id vs)"
  by (cases vs) (auto simp: slots_ok_def archive_ok_def)

lemma slots_ok_vnames: "slots_ok s A vs \<Longrightarrow> fe_version_id ` set vs \<subseteq> vnames"
  by (cases vs) (auto simp: slots_ok_def archive_ok_def)

text \<open>A delete marker below the head has nothing in the archive.\<close>

lemma marker_archive:
  assumes "archive_ok A vs" "e \<in> set vs" "fe_delete_marker e"
  shows "A (fe_version_id e) = (None, None)"
proof (rule ccontr)
  assume "A (fe_version_id e) \<noteq> (None, None)"
  then obtain e' where "e' \<in> set vs" "fe_version_id e' = fe_version_id e" "\<not> fe_delete_marker e'"
    using assms(1) by (auto simp: archive_ok_def)
  moreover have "distinct (map fe_version_id vs)" using assms(1) by (simp add: archive_ok_def)
  ultimately show False using assms(2,3) by (metis distinct_map inj_onD)
qed

text \<open>The version at an index, its removal from the list, and its files: the parts of a purge or a delete.\<close>

lemma remove_below:
  assumes ok: "slots_ok s A vs" and i: "position (\<lambda>e. fe_version_id e = v) vs = Some (Suc j)"
  shows "slots_ok s (A(v := (None, None))) (remove_at (Suc j) vs)"
    "rows_of s (A(v := (None, None))) (remove_at (Suc j) vs) = filter (\<lambda>r. fst r \<noteq> v) (rows_of s A vs)"
    "head_occupied (remove_at (Suc j) vs) = head_occupied vs" "v \<in> vnames"
    "fe_delete_marker (vs ! Suc j) \<Longrightarrow> A(v := (None, None)) = A"
proof -
  obtain e es where vs: "vs = e # es" "fe_version_id e \<noteq> v" using i by (cases vs) (auto split: if_splits)
  have rm: "remove_at (Suc j) (e # es) = e # filter (\<lambda>e. fe_version_id e \<noteq> v) es"
    using remove_at_distinct [OF slots_ok_distinct [OF ok] i] vs by simp
  note rt = slots_ok_remove_tl [OF ok [unfolded vs(1)] vs(2)]
  show "slots_ok s (A(v := (None, None))) (remove_at (Suc j) vs)"
    "rows_of s (A(v := (None, None))) (remove_at (Suc j) vs) = filter (\<lambda>r. fst r \<noteq> v) (rows_of s A vs)"
    "head_occupied (remove_at (Suc j) vs) = head_occupied vs"
    using rt vs(2) by (simp_all add: rm vs(1))
  have e: "es ! j \<in> set es" "fe_version_id (es ! j) = v" using position_Some [OF i] vs by auto
  then show "v \<in> vnames" using slots_ok_vnames [OF ok] vs by auto
  show "fe_delete_marker (vs ! Suc j) \<Longrightarrow> A(v := (None, None)) = A"
    using marker_archive [of A es "es ! j"] ok e vs by (auto simp: slots_ok_def fun_eq_iff)
qed

lemma remove_head:
  assumes ok: "slots_ok s A vs" and i: "position (\<lambda>e. fe_version_id e = v) vs = Some 0"
  shows "slot_free (None, None) A (remove_at 0 vs)" "archived_rows A (remove_at 0 vs) = filter (\<lambda>r. fst r \<noteq> v) (rows_of s A vs)"
    "\<not> head_occupied vs \<Longrightarrow> s = (None, None)" "fe_delete_marker (vs ! 0) \<longleftrightarrow> \<not> head_occupied vs"
proof -
  obtain e es where vs: "vs = e # es" "fe_version_id e = v" using i by (cases vs) (auto split: if_splits)
  then show "slot_free (None, None) A (remove_at 0 vs)" "archived_rows A (remove_at 0 vs) = filter (\<lambda>r. fst r \<noteq> v) (rows_of s A vs)"
    using slots_ok_discard [OF ok [unfolded vs(1)]] by (simp_all add: remove_at_def)
  show "\<not> head_occupied vs \<Longrightarrow> s = (None, None)" using ok by (auto simp: slots_ok_def prod_eq_iff)
  show "fe_delete_marker (vs ! 0) \<longleftrightarrow> \<not> head_occupied vs" using vs by simp
qed

lemma purge_reaches:
  assumes a: "in_arena b k d" and k: "fs_key b k" and s: "slots_are b k d s A h" and ok: "slots_ok s A vs"
  obtains d' vs' occ s' A' where "fs_purge_null d b k vs (head_occupied vs) = (d', vs', occ)" "reaches b k d d' s' A' h"
    "slot_state occ s' A' vs' (filter (\<lambda>r. fst r \<noteq> ''null'') (rows_of s A vs))"
proof (cases "position (\<lambda>e. fe_version_id e = ''null'') vs")
  case None
  then have "''null'' \<notin> fe_version_id ` set vs" by (auto simp: position_None)
  then have "filter (\<lambda>r. fst r \<noteq> ''null'') (rows_of s A vs) = rows_of s A vs" by (rule filter_rows_absent)
  then show ?thesis
    using that [of d vs "head_occupied vs" s A] None reaches_refl [OF a s] slot_state_ok [OF ok] by (simp add: fs_purge_null_def)
next
  case (Some i)
  show ?thesis
  proof (cases i)
    case 0
    note rh = remove_head [OF ok Some [unfolded 0]]
    let ?d = "if head_occupied vs then discard_canonical d b k else d"
    have "reaches b k d ?d (None, None) A h"
      using discard_reaches [OF a k s] reaches_refl [OF a s] rh(3) by auto
    moreover have "fs_purge_null d b k vs (head_occupied vs) = (?d, remove_at 0 vs, False)"
      using Some 0 rh(4) by (simp add: fs_purge_null_def Let_def)
    ultimately show ?thesis using that [of ?d "remove_at 0 vs" False "(None, None)" A] rh(1,2) by (simp add: slot_state_def)
  next
    case (Suc j)
    note rb = remove_below [OF ok Some [unfolded Suc]]
    let ?d = "if fe_delete_marker (vs ! i) then d else fs_remove_archive d b k ''null''"
    have "reaches b k d ?d s (A(''null'' := (None, None))) h"
      using remove_archive_reaches [OF a k s rb(4)] reaches_refl [OF a s] rb(5) Suc by auto
    moreover have "fs_purge_null d b k vs (head_occupied vs) = (?d, remove_at i vs, head_occupied vs)"
      using Some Suc by (simp add: fs_purge_null_def Let_def)
    ultimately show ?thesis
      using that [of ?d "remove_at i vs" "head_occupied vs" s "A(''null'' := (None, None))"] slot_state_ok [OF rb(1)] rb(2,3) Suc
      by simp
  qed
qed

end
