(* ===== verification/Fs_Steps.thy ===== *)
theory Fs_Steps
  imports Fs_Refine
begin

text \<open>
  The writing operations of the filesystem backend on the list of versions: a put, a marker and the removal
  of one version, each from its first step to its answer.
\<close>

section \<open>Operations on the list of versions\<close>

definition new_vid :: "version_mode \<Rightarrow> string \<Rightarrow> string" where
  "new_vid mode uuid = (if mode = Suspended then ''null'' else uuid)"

definition kept_rows :: "version_mode \<Rightarrow> version_row list \<Rightarrow> version_row list" where
  "kept_rows mode rows = (if mode = Suspended then filter (\<lambda>r. fst r \<noteq> ''null'') rows else rows)"

definition push_row :: "version_mode \<Rightarrow> string \<Rightarrow> slot_files option \<Rightarrow> version_row list \<Rightarrow> version_row list" where
  "push_row mode uuid x rows = (new_vid mode uuid, x) # kept_rows mode rows"

definition drop_row :: "string \<Rightarrow> version_row list \<Rightarrow> version_row list" where
  "drop_row v rows = filter (\<lambda>r. fst r \<noteq> v) rows"

text \<open>A UUID is a file name no version has yet.\<close>

definition fresh_vid :: "version_mode \<Rightarrow> string \<Rightarrow> version_row list \<Rightarrow> bool" where
  "fresh_vid mode uuid rows = (mode = Suspended \<or> uuid \<in> vnames \<and> uuid \<notin> fst ` set rows)"

lemma fresh_vidD:
  assumes "fresh_vid mode uuid rows" "kept_rows mode rows = archived_rows A vs"
  shows "new_vid mode uuid \<in> vnames" "new_vid mode uuid \<notin> fe_version_id ` set vs"
proof -
  show "new_vid mode uuid \<in> vnames"
    using assms(1) by (auto simp: fresh_vid_def new_vid_def vnames_iff plain_comp_def)
  have "new_vid mode uuid \<notin> fst ` set (kept_rows mode rows)"
    using assms(1) by (auto simp: fresh_vid_def new_vid_def kept_rows_def)
  also have "fst ` set (kept_rows mode rows) = fe_version_id ` set vs"
    using assms(2) rows_vids(1) [of A vs] by (metis list.set_map)
  finally show "new_vid mode uuid \<notin> fe_version_id ` set vs" .
qed

section \<open>The versioning mode\<close>

definition mode_comps :: "string \<Rightarrow> path" where
  "mode_comps b = [SYS_DIR, ''buckets'', b, ''versioning.json'']"

lemma mode_at:
  assumes "in_arena b k d" "fs_key b k"
  shows "versioning_mode d b = (case Option.bind (file_at d (mode_comps b)) as_status of
        Some s \<Rightarrow> if s = ''Enabled'' then Enabled else if s = ''Suspended'' then Suspended else Off | None \<Rightarrow> Off)"
proof -
  note p = fs_key_plain [OF assms(2)]
  have "plain_comp ''versioning.json''" by (simp add: plain_comp_def)
  then have "fs_bucket_cfg_file b ''versioning.json'' = PathBuf False (mode_comps b)"
    using p by (simp add: fs_bucket_cfg_file_def fs_bucket_cfg_dir_def path_new_plain pjoin_plain mode_comps_def)
  moreover have "safe (mode_comps b)" using p(1) by (auto simp: safe_def mode_comps_def plain_comp_def SYS_DIR_def)
  ultimately show ?thesis
    using arenaD(1,2) [OF assms(1)]
    by (simp add: versioning_mode_def read_bucket_cfg_def drive_read_eq healthy_def file_at_def)
qed

lemma mode_not_slot: "fs_key b k \<Longrightarrow> mode_comps b \<notin> slot_paths b k"
proof -
  assume k: "fs_key b k"
  obtain q where o: "obj_comps b k = b # q" using fs_object_path_eq(2) [OF k] by blast
  obtain q' where m: "meta_comps b k = [SYS_DIR, ''meta'', b] @ q'" using fs_meta_path_eq(2) [OF k] by blast
  show ?thesis
    using o m fs_key_plain(2) [OF k]
    by (auto simp: slot_paths_def mode_comps_def hist_comps_def data_comps_def vmeta_comps_def ver_comps_def)
qed

lemma mode_kept:
  assumes "in_arena b k d" "in_arena b k d'" "fs_key b k" "file_at d' (mode_comps b) = file_at d (mode_comps b)"
  shows "versioning_mode d' b = versioning_mode d b"
  using assms by (simp add: mode_at)

lemma bucket_at: "in_arena b k d \<Longrightarrow> fs_key b k \<Longrightarrow> fs_head_bucket d b = Ok ()"
  using fs_key_plain(1) [of b k] arena_dir_stat [of "key_paths b k" "key_dirs b" d "[b]"]
  by (auto simp: fs_head_bucket_def fs_paths key_dirs_def safe_def plain_comp_def)

section \<open>Begin\<close>

lemma demote_state:
  assumes a: "in_arena b k d" and k: "fs_key b k" and s: "slots_are b k d s A h" and st: "slot_state occ s A vs rows"
  obtains d' A' where "(if occ then demote_canonical d b k (fe_version_id (vs ! 0)) else (d, Ok ())) = (d', Ok ())"
    "reaches b k d d' (None, None) A' h" "slot_free (None, None) A' vs" "rows = archived_rows A' vs"
proof (cases occ)
  case False
  then have "slot_free s A vs" "rows = archived_rows A vs" using st by (auto simp: slot_state_def)
  moreover from this(1) have "s = (None, None)" by (simp add: slot_free_def)
  ultimately show ?thesis using that [of d A] False reaches_refl [OF a s] by simp
next
  case True
  then have ok: "slots_ok s A vs" "head_occupied vs" "rows = rows_of s A vs" using st by (auto simp: slot_state_def)
  then obtain e es where vs: "vs = e # es" "\<not> fe_delete_marker e" by (cases vs) auto
  have h: "fe_version_id e \<in> vnames" "fe_version_id e \<notin> fe_version_id ` set es" "archive_ok A es" "fst s \<noteq> None"
    using ok vs by (auto simp: slots_ok_def)
  obtain c where c: "fst s = Some c" using h(4) by auto
  obtain d' where "demote_canonical d b k (fe_version_id e) = (d', Ok ())"
    "reaches b k d d' (None, None) (A(fe_version_id e := s)) h"
    using demote_reaches [OF a k s h(1) c archive_ok_outside [OF h(3,2)]] .
  then show ?thesis
    using that [of d' "A(fe_version_id e := s)"] True ok slots_ok_demote [of s A e es] vs by simp
qed

lemma begin_reaches:
  assumes r: "fs_ready b k d" and mode: "mode \<noteq> Off"
  obtains d' A h vs where "fs_begin_write E C uuid d b k mode = (d', Ok (new_vid mode uuid, vs))"
    "reaches b k d d' (None, None) A h" "slot_free (None, None) A vs" "kept_rows mode (fs_versions b k d) = archived_rows A vs"
proof -
  note k = fs_readyD(1) [OF r]
  obtain d1 s A h where 1: "fs_seed_legacy_history E C d b k = (d1, Ok ())" "reaches b k d d1 s A h"
    "slots_ok s A (hist_of h)" "fs_versions b k d = rows_of s A (hist_of h)" using seed_reaches [OF r] .
  note a1 = reachesD(1) [OF 1(2)] and s1 = reachesD(2) [OF 1(2)]
  have hist: "fs_read_history d1 b k = hist_of h" using read_history_at [OF a1 k s1] .
  obtain d2 vs occ s' A' where 2:
    "(if mode = Suspended then fs_purge_null d1 b k (hist_of h) (head_occupied (hist_of h))
      else (d1, hist_of h, head_occupied (hist_of h))) = (d2, vs, occ)"
    "reaches b k d1 d2 s' A' h" "slot_state occ s' A' vs (kept_rows mode (fs_versions b k d))"
  proof (cases "mode = Suspended")
    case True
    then show ?thesis
      using purge_reaches [OF a1 k s1 1(3)] that by (metis (no_types, lifting) 1(4) kept_rows_def)
  next
    case False
    then show ?thesis
      using that [of d1 "hist_of h" "head_occupied (hist_of h)" s A] reaches_refl [OF a1 s1] slot_state_ok [OF 1(3)] 1(4)
      by (simp add: kept_rows_def)
  qed
  obtain d3 A'' where 3: "(if occ then demote_canonical d2 b k (fe_version_id (vs ! 0)) else (d2, Ok ())) = (d3, Ok ())"
    "reaches b k d2 d3 (None, None) A'' h" "slot_free (None, None) A'' vs"
    "kept_rows mode (fs_versions b k d) = archived_rows A'' vs"
    using demote_state [OF reachesD(1) [OF 2(2)] k reachesD(2) [OF 2(2)] 2(3)] .
  have "fs_begin_write E C uuid d b k mode = (d3, Ok (new_vid mode uuid, vs))"
    using 1(1) 2(1) 3(1) hist by (simp add: fs_begin_write_def new_vid_def Let_def split: if_splits)
  then show ?thesis
    using that reaches_trans [OF 1(2) reaches_trans [OF 2(2) 3(2)]] 3(3,4) by blast
qed

lemma ready_by:
  assumes "fs_key b k" "in_arena b k d'" "meta_home b k d'" "slots_are b k d' s A (Some (VersionsDoc vs))" "slots_ok s A vs"
  shows "fs_ready b k d'" "fs_versions b k d' = rows_of s A vs"
  using assms versions_at [OF assms(4)] by (simp_all add: fs_ready_def)

section \<open>A delete marker\<close>

lemma delete_marker_step:
  assumes r: "fs_ready b k (fs_drive st)" and mode: "versioning_mode (fs_drive st) b = mode" "mode \<noteq> Off"
    and fresh: "fresh_vid mode (fc_uuid C 0) (fs_versions b k (fs_drive st))"
  obtains st' where "fs_delete_object E C st b k =
      (st', Ok \<lparr> do_version_id = Some (new_vid mode (fc_uuid C 0)), do_delete_marker = True \<rparr>)"
    "fs_ready b k (fs_drive st')"
    "fs_versions b k (fs_drive st') = push_row mode (fc_uuid C 0) None (fs_versions b k (fs_drive st))"
    "fs_encrypt_all st' = fs_encrypt_all st"
    "\<And>q. q \<notin> slot_paths b k \<Longrightarrow> file_at (fs_drive st') q = file_at (fs_drive st) q"
proof -
  let ?d = "fs_drive st" and ?v = "new_vid mode (fc_uuid C 0)"
  note k = fs_readyD(1) [OF r] and a = fs_readyD(2) [OF r]
  obtain d1 A h vs where 1: "fs_begin_write E C (fc_uuid C 0) ?d b k mode = (d1, Ok (?v, vs))"
    "reaches b k ?d d1 (None, None) A h" "slot_free (None, None) A vs" "kept_rows mode (fs_versions b k ?d) = archived_rows A vs"
    using begin_reaches [OF r mode(2)] .
  obtain d2 where 2: "fs_write_history d1 b k (fs_marker C ?v # vs) = (d2, Ok ())"
    "reaches b k d1 d2 (None, None) A (Some (VersionsDoc (fs_marker C ?v # vs)))"
    using save_history_reaches [OF reachesD(1) [OF 1(2)] k reachesD(2) [OF 1(2)]] .
  note r2 = reaches_trans [OF 1(2) 2(2)]
  have ok: "slots_ok (None, None) A (fs_marker C ?v # vs)"
    "rows_of (None, None) A (fs_marker C ?v # vs) = (?v, None) # archived_rows A vs"
    using slots_ok_push(1) [OF 1(3), of "fs_marker C ?v"] fresh_vidD [OF fresh 1(4)] by (auto simp: fs_marker_def)
  have rd: "fs_ready b k d2" "fs_versions b k d2 = rows_of (None, None) A (fs_marker C ?v # vs)"
    using ready_by [OF k reachesD(1) [OF r2] reachesD(3) [OF r2 fs_readyD(4) [OF r]] reachesD(2) [OF r2] ok(1)] .
  have "fs_delete_object E C st b k = (st\<lparr>fs_drive := d2\<rparr>, Ok \<lparr> do_version_id = Some ?v, do_delete_marker = True \<rparr>)"
    using bucket_at [OF a k] mode 1(1) 2(1) by (simp add: fs_delete_object_def)
  then show ?thesis
    using that [of "st\<lparr>fs_drive := d2\<rparr>"] rd ok(2) 1(4) reachesD(4) [OF r2] by (simp add: push_row_def)
qed

section \<open>A put\<close>

lemma arena_becomes_home:
  assumes "becomes (key_paths b k) (key_dirs b) d d' F" "\<And>v. v \<in> vnames \<Longrightarrow> F (vmeta_comps b k v) = file_at d (vmeta_comps b k v)"
  shows "meta_home b k d \<Longrightarrow> meta_home b k d'"
  using assms(2) becomesD(2,3) [OF assms(1)] by (auto simp: meta_home_def)

text \<open>A temporary file and its metadata into the current slot.\<close>

lemma place_payload:
  assumes a: "in_arena b k d" and k: "fs_key b k" and s: "slots_are b k d s A h" and u: "plain_comp u"
    and c: "file_at d (temp_comps u) = Some c"
  obtains d1 d2 where "move_into_place d (PathBuf False (temp_comps u)) (fs_object_path b k) = (d1, Ok ())"
    "write_meta d1 b k m = (d2, Ok ())" "in_arena b k d2" "slots_are b k d2 (Some c, Some (StoredDoc m)) A h"
    "meta_home b k d \<Longrightarrow> meta_home b k d2"
    "\<And>q. q \<notin> slot_paths b k \<Longrightarrow> q \<noteq> temp_comps u \<Longrightarrow> file_at d2 q = file_at d q"
proof -
  note sep = slots_sep [OF k]
  have ne: "temp_comps u \<noteq> obj_comps b k" using sep by simp
  obtain d1 where 1: "move_into_place d (PathBuf False (temp_comps u)) (PathBuf False (obj_comps b k)) = (d1, Ok ())"
    "becomes (key_paths b k) (key_dirs b) d d1 ((file_at d)(obj_comps b k := Some c, temp_comps u := None))"
    by (rule arena_move [OF a _ _ ne c]) (use u in simp_all)
  note f1 = becomesD(2) [OF 1(2)]
  obtain d2 where 2: "save_file d1 (PathBuf False (meta_comps b k)) (StoredDoc m) ''meta'' = (d2, Ok ())"
    "moves b k d1 d2 ((file_at d1)(meta_comps b k := Some (StoredDoc m)))"
    using moves_save [OF becomesD(1) [OF 1(2)], of "meta_comps b k"] by auto
  have f2: "file_at d2 = (file_at d)(obj_comps b k := Some c, temp_comps u := None, meta_comps b k := Some (StoredDoc m))"
    using movesD(2) [OF 2(2)] f1 by simp
  have "slots_are b k d2 (Some c, Some (StoredDoc m)) A h"
    using slots_areD [OF s] sep by (simp add: slots_are_def f2 slot_updates [OF k])
  moreover have "meta_home b k d2" if "meta_home b k d"
    by (rule meta_home_kept [OF 2(2) _ arena_becomes_home [OF 1(2) _ that]]) (use sep in auto)
  moreover have "file_at d2 q = file_at d q" if "q \<notin> slot_paths b k" "q \<noteq> temp_comps u" for q
    using that by (auto simp: f2)
  ultimately show ?thesis
    using that 1(1) 2(1) movesD(1) [OF 2(2)] by (simp add: fs_paths [OF k] write_meta_def)
qed

definition put_meta :: "string \<Rightarrow> nat \<Rightarrow> string \<Rightarrow> string_map \<Rightarrow> int \<Rightarrow> bool \<Rightarrow> string option \<Rightarrow> stored_meta" where
  "put_meta etag sz content_type user_metadata now encrypted vid =
     \<lparr> sm_etag = etag, sm_size = sz, sm_content_type = content_type, sm_user_metadata = user_metadata,
       sm_last_modified = now, sm_encrypted = encrypted, sm_version_id = vid \<rparr>"

lemma commit_step:
  assumes r: "fs_ready b k d" and mode: "versioning_mode d b = mode" "mode \<noteq> Off"
    and fresh: "fresh_vid mode uuid (fs_versions b k d)" and u: "plain_comp u" and c: "file_at d (temp_comps u) = Some c"
    and m: "m = put_meta etag sz ct um (fc_now C) enc (Some (new_vid mode uuid))"
  obtains d' where
    "commit_object E C uuid d b k (PathBuf False (temp_comps u)) etag sz ct um enc None = (d', Ok (stored_to_meta k m))"
    "fs_ready b k d'" "fs_versions b k d' = push_row mode uuid (Some (Some c, Some (StoredDoc m))) (fs_versions b k d)"
    "\<And>q. q \<notin> slot_paths b k \<Longrightarrow> q \<noteq> temp_comps u \<Longrightarrow> file_at d' q = file_at d q"
    "file_at d' (obj_comps b k) = Some c" "file_at d' (meta_comps b k) = Some (StoredDoc m)"
proof -
  let ?v = "new_vid mode uuid" and ?s = "(Some c, Some (StoredDoc m))"
  let ?e = "\<lparr> fe_version_id = ?v, fe_delete_marker = False, fe_last_modified = fc_now C, fe_etag = etag, fe_size = sz \<rparr>"
  note k = fs_readyD(1) [OF r]
  obtain d1 A h vs where 1: "fs_begin_write E C uuid d b k mode = (d1, Ok (?v, vs))"
    "reaches b k d d1 (None, None) A h" "slot_free (None, None) A vs" "kept_rows mode (fs_versions b k d) = archived_rows A vs"
    using begin_reaches [OF r mode(2)] .
  have c1: "file_at d1 (temp_comps u) = Some c" using reachesD(4) [OF 1(2) temp_not_slot [OF k]] c by simp
  obtain d2 d3 where 2: "move_into_place d1 (PathBuf False (temp_comps u)) (fs_object_path b k) = (d2, Ok ())"
    "write_meta d2 b k m = (d3, Ok ())" "in_arena b k d3" "slots_are b k d3 ?s A h"
    "meta_home b k d1 \<Longrightarrow> meta_home b k d3"
    "\<And>q. q \<notin> slot_paths b k \<Longrightarrow> q \<noteq> temp_comps u \<Longrightarrow> file_at d3 q = file_at d1 q"
    using place_payload [OF reachesD(1) [OF 1(2)] k reachesD(2) [OF 1(2)] u c1] by blast
  obtain d4 where 3: "fs_write_history d3 b k (?e # vs) = (d4, Ok ())"
    "reaches b k d3 d4 ?s A (Some (VersionsDoc (?e # vs)))"
    using save_history_reaches [OF 2(3) k 2(4)] .
  have ok: "slots_ok ?s A (?e # vs)" "rows_of ?s A (?e # vs) = (?v, Some ?s) # archived_rows A vs"
    using slots_ok_push(2) [OF 1(3), of ?e ?s] fresh_vidD [OF fresh 1(4)] by auto
  have home: "meta_home b k d4"
    using reachesD(3) [OF 3(2) 2(5) [OF reachesD(3) [OF 1(2) fs_readyD(4) [OF r]]]] .
  have rd: "fs_ready b k d4" "fs_versions b k d4 = rows_of ?s A (?e # vs)"
    using ready_by [OF k reachesD(1) [OF 3(2)] home reachesD(2) [OF 3(2)] ok(1)] .
  have "commit_object E C uuid d b k (PathBuf False (temp_comps u)) etag sz ct um enc None = (d4, Ok (stored_to_meta k m))"
    using mode 1(1) 2(1,2) 3(1) by (simp add: commit_object_def m put_meta_def fs_finish_write_def)
  then show ?thesis
    using that [of d4] rd ok(2) 1(4) reachesD(4) [OF 3(2)] 2(6) reachesD(4) [OF 1(2)] slots_areD(1,2) [OF reachesD(2) [OF 3(2)]]
    by (simp add: push_row_def)
qed

text \<open>Before versioning was ever configured a put replaces the key.\<close>

lemma commit_off:
  assumes r: "fs_ready b k d" and mode: "versioning_mode d b = Off" and plain: "file_at d (hist_comps b k) = None"
    and u: "plain_comp u" and c: "file_at d (temp_comps u) = Some c"
    and m: "m = put_meta etag sz ct um (fc_now C) enc None"
  obtains d' where
    "commit_object E C uuid d b k (PathBuf False (temp_comps u)) etag sz ct um enc None = (d', Ok (stored_to_meta k m))"
    "fs_ready b k d'" "fs_versions b k d' = [(''null'', Some (Some c, Some (StoredDoc m)))]"
    "\<And>q. q \<notin> slot_paths b k \<Longrightarrow> q \<noteq> temp_comps u \<Longrightarrow> file_at d' q = file_at d q"
    "file_at d' (obj_comps b k) = Some c" "file_at d' (meta_comps b k) = Some (StoredDoc m)"
proof -
  note k = fs_readyD(1) [OF r] and a = fs_readyD(2) [OF r]
  obtain s A where s: "slots_are b k d s A None" using plain by (simp add: slots_are_def)
  obtain d1 d2 where 1: "move_into_place d (PathBuf False (temp_comps u)) (fs_object_path b k) = (d1, Ok ())"
    "write_meta d1 b k m = (d2, Ok ())" "in_arena b k d2" "slots_are b k d2 (Some c, Some (StoredDoc m)) A None"
    "meta_home b k d \<Longrightarrow> meta_home b k d2"
    "\<And>q. q \<notin> slot_paths b k \<Longrightarrow> q \<noteq> temp_comps u \<Longrightarrow> file_at d2 q = file_at d q"
    using place_payload [OF a k s u c] by blast
  have "\<forall>v. A v = (None, None)" using versions_at(2) [OF s] fs_readyD(3) [OF r] by simp
  then have "fs_ready b k d2" "fs_versions b k d2 = [(''null'', Some (Some c, Some (StoredDoc m)))]"
    using versions_at [OF 1(4)] k 1(3,5) fs_readyD(4) [OF r] by (simp_all add: fs_ready_def)
  moreover have "commit_object E C uuid d b k (PathBuf False (temp_comps u)) etag sz ct um enc None = (d2, Ok (stored_to_meta k m))"
    using mode 1(1,2) by (simp add: commit_object_def m put_meta_def)
  ultimately show ?thesis using that 1(6) slots_areD(1,2) [OF 1(4)] by simp
qed

lemma temp_ready:
  assumes r: "fs_ready b k d" and b: "becomes (key_paths b k) (key_dirs b) d d' ((file_at d)(temp_comps u := x))"
  shows "fs_ready b k d'" "fs_versions b k d' = fs_versions b k d" "versioning_mode d' b = versioning_mode d b"
    "file_at d' (hist_comps b k) = file_at d (hist_comps b k)"
proof -
  note k = fs_readyD(1) [OF r] and f = becomesD(2) [OF b]
  note sep = slots_sep [OF k]
  obtain s A h where s: "slots_are b k d s A h" by (simp add: slots_are_def)
  then have s': "slots_are b k d' s A h" using sep by (auto simp: slots_are_def f slot_updates [OF k])
  have "meta_home b k d'" by (rule arena_becomes_home [OF b _ fs_readyD(4) [OF r]]) (use sep in auto)
  then show "fs_ready b k d'" "fs_versions b k d' = fs_versions b k d"
    using versions_at [OF s] versions_at [OF s'] fs_readyD [OF r] becomesD(1) [OF b] by (simp_all add: fs_ready_def)
  show "versioning_mode d' b = versioning_mode d b"
    by (rule mode_kept [OF fs_readyD(2) [OF r] becomesD(1) [OF b] k]) (simp add: f mode_comps_def temp_comps_def)
  show "file_at d' (hist_comps b k) = file_at d (hist_comps b k)" using sep by (auto simp: f)
qed

definition put_etag :: "fs_env \<Rightarrow> fs_ctx \<Rightarrow> bool \<Rightarrow> bytes \<Rightarrow> string" where
  "put_etag E C enc p = (if enc then fc_opaque_etag C else hex_encode (fv_md5 E p))"

definition put_size :: "fs_env \<Rightarrow> bool \<Rightarrow> bytes \<Rightarrow> nat" where
  "put_size E enc p = (if enc then plaintext_len (length p) (ctx_header_len (fv_provider E)) else length p)"

text \<open>The temporary file of a put, and what is left to do.\<close>

lemma put_stream:
  assumes r: "fs_ready b k (fs_drive st)" and u: "plain_comp (fc_uuid C 0)"
    and src: "fs_encrypt_source E C (fs_should_encrypt st encrypt) bd = Ok (Body p False)"
  obtains d1 where "becomes (key_paths b k) (key_dirs b) (fs_drive st) d1 ((file_at (fs_drive st))(temp_comps (fc_uuid C 0) := Some (Bytes p)))"
    "fs_put_object E C st b k bd ct um encrypt = with_drive st
      (commit_object E C (fc_uuid C 1) d1 b k (PathBuf False (temp_comps (fc_uuid C 0)))
        (put_etag E C (fs_should_encrypt st encrypt) p) (put_size E (fs_should_encrypt st encrypt) p) ct um
        (fs_should_encrypt st encrypt) None)"
proof -
  let ?enc = "fs_should_encrypt st encrypt" and ?t = "temp_comps (fc_uuid C 0)"
  note k = fs_readyD(1) [OF r] and a = fs_readyD(2) [OF r]
  have t: "pjoin fs_tmp_dir (fc_uuid C 0) = PathBuf False ?t" "?t \<in> key_paths b k" using fs_paths(6) [OF k u] u by simp_all
  have par: "look (fs_drive st) (butlast ?t) = Some Dir" using arenaD(6) [OF a] by (simp add: key_dirs_def temp_comps_def)
  obtain d1 where 1: "stream_to_temp E C 0 (fs_drive st) (Body p False) (\<not> ?enc) =
      (d1, Ok (PathBuf False ?t, if \<not> ?enc then hex_encode (fv_md5 E p) else fc_opaque_etag C, length p))"
    "becomes (key_paths b k) (key_dirs b) (fs_drive st) d1 ((file_at (fs_drive st))(?t := Some (Bytes p)))"
    using arena_stream [OF a t par] .
  have "validate_key k = Ok ()" using k by (simp add: fs_key_def)
  then have "fs_put_object E C st b k bd ct um encrypt = with_drive st
      (commit_object E C (fc_uuid C 1) d1 b k (PathBuf False ?t) (put_etag E C ?enc p) (put_size E ?enc p) ct um ?enc None)"
    using bucket_at [OF a k] src 1(1) by (simp add: fs_put_object_def store_body_def put_etag_def put_size_def Let_def)
  with 1(2) show ?thesis by (rule that)
qed

lemma put_step:
  assumes r: "fs_ready b k (fs_drive st)" and u: "plain_comp (fc_uuid C 0)"
    and mode: "versioning_mode (fs_drive st) b = mode" "mode \<noteq> Off"
    and fresh: "fresh_vid mode (fc_uuid C 1) (fs_versions b k (fs_drive st))"
    and src: "fs_encrypt_source E C (fs_should_encrypt st encrypt) bd = Ok (Body p False)"
    and m: "m = put_meta (put_etag E C (fs_should_encrypt st encrypt) p) (put_size E (fs_should_encrypt st encrypt) p) ct um
      (fc_now C) (fs_should_encrypt st encrypt) (Some (new_vid mode (fc_uuid C 1)))"
  obtains st' where "fs_put_object E C st b k bd ct um encrypt = (st', Ok (stored_to_meta k m))"
    "fs_ready b k (fs_drive st')"
    "fs_versions b k (fs_drive st') = push_row mode (fc_uuid C 1) (Some (Some (Bytes p), Some (StoredDoc m))) (fs_versions b k (fs_drive st))"
    "fs_encrypt_all st' = fs_encrypt_all st"
    "\<And>q. q \<notin> slot_paths b k \<Longrightarrow> q \<noteq> temp_comps (fc_uuid C 0) \<Longrightarrow> file_at (fs_drive st') q = file_at (fs_drive st) q"
    "file_at (fs_drive st') (obj_comps b k) = Some (Bytes p)" "file_at (fs_drive st') (meta_comps b k) = Some (StoredDoc m)"
proof -
  let ?t = "temp_comps (fc_uuid C 0)"
  obtain d1 where 1: "becomes (key_paths b k) (key_dirs b) (fs_drive st) d1 ((file_at (fs_drive st))(?t := Some (Bytes p)))"
    "fs_put_object E C st b k bd ct um encrypt = with_drive st
      (commit_object E C (fc_uuid C 1) d1 b k (PathBuf False ?t) (put_etag E C (fs_should_encrypt st encrypt) p)
        (put_size E (fs_should_encrypt st encrypt) p) ct um (fs_should_encrypt st encrypt) None)"
    using put_stream [OF r u src] .
  note t = temp_ready [OF r 1(1)]
  have c: "file_at d1 ?t = Some (Bytes p)" using becomesD(2) [OF 1(1)] by simp
  have md: "versioning_mode d1 b = mode" and fr: "fresh_vid mode (fc_uuid C 1) (fs_versions b k d1)"
    using t(2,3) mode fresh by simp_all
  obtain d2 where 2: "commit_object E C (fc_uuid C 1) d1 b k (PathBuf False ?t) (put_etag E C (fs_should_encrypt st encrypt) p)
        (put_size E (fs_should_encrypt st encrypt) p) ct um (fs_should_encrypt st encrypt) None = (d2, Ok (stored_to_meta k m))"
    "fs_ready b k d2" "fs_versions b k d2 = push_row mode (fc_uuid C 1) (Some (Some (Bytes p), Some (StoredDoc m))) (fs_versions b k d1)"
    "\<And>q. q \<notin> slot_paths b k \<Longrightarrow> q \<noteq> ?t \<Longrightarrow> file_at d2 q = file_at d1 q"
    "file_at d2 (obj_comps b k) = Some (Bytes p)" "file_at d2 (meta_comps b k) = Some (StoredDoc m)"
    using commit_step [OF t(1) md mode(2) fr u c m, of E] by blast
  show ?thesis
    by (rule that [of "st\<lparr>fs_drive := d2\<rparr>"]) (use 1(2) 2 t(2) becomesD(2) [OF 1(1)] in \<open>simp_all add: with_drive_def\<close>)
qed

lemma put_step_off:
  assumes r: "fs_ready b k (fs_drive st)" and u: "plain_comp (fc_uuid C 0)"
    and mode: "versioning_mode (fs_drive st) b = Off" and plain: "file_at (fs_drive st) (hist_comps b k) = None"
    and src: "fs_encrypt_source E C (fs_should_encrypt st encrypt) bd = Ok (Body p False)"
    and m: "m = put_meta (put_etag E C (fs_should_encrypt st encrypt) p) (put_size E (fs_should_encrypt st encrypt) p) ct um
      (fc_now C) (fs_should_encrypt st encrypt) None"
  obtains st' where "fs_put_object E C st b k bd ct um encrypt = (st', Ok (stored_to_meta k m))"
    "fs_ready b k (fs_drive st')"
    "fs_versions b k (fs_drive st') = [(''null'', Some (Some (Bytes p), Some (StoredDoc m)))]"
    "file_at (fs_drive st') (obj_comps b k) = Some (Bytes p)" "file_at (fs_drive st') (meta_comps b k) = Some (StoredDoc m)"
proof -
  let ?t = "temp_comps (fc_uuid C 0)"
  obtain d1 where 1: "becomes (key_paths b k) (key_dirs b) (fs_drive st) d1 ((file_at (fs_drive st))(?t := Some (Bytes p)))"
    "fs_put_object E C st b k bd ct um encrypt = with_drive st
      (commit_object E C (fc_uuid C 1) d1 b k (PathBuf False ?t) (put_etag E C (fs_should_encrypt st encrypt) p)
        (put_size E (fs_should_encrypt st encrypt) p) ct um (fs_should_encrypt st encrypt) None)"
    using put_stream [OF r u src] .
  note t = temp_ready [OF r 1(1)]
  have c: "file_at d1 ?t = Some (Bytes p)" using becomesD(2) [OF 1(1)] by simp
  have md: "versioning_mode d1 b = Off" and pl: "file_at d1 (hist_comps b k) = None" using t(3,4) mode plain by simp_all
  obtain d2 where 2: "commit_object E C (fc_uuid C 1) d1 b k (PathBuf False ?t) (put_etag E C (fs_should_encrypt st encrypt) p)
        (put_size E (fs_should_encrypt st encrypt) p) ct um (fs_should_encrypt st encrypt) None = (d2, Ok (stored_to_meta k m))"
    "fs_ready b k d2" "fs_versions b k d2 = [(''null'', Some (Some (Bytes p), Some (StoredDoc m)))]"
    "file_at d2 (obj_comps b k) = Some (Bytes p)" "file_at d2 (meta_comps b k) = Some (StoredDoc m)"
    using commit_off [OF t(1) md pl u c m, of E] by blast
  show ?thesis
    by (rule that [of "st\<lparr>fs_drive := d2\<rparr>"]) (use 1(2) 2 in \<open>simp_all add: with_drive_def\<close>)
qed

section \<open>Removing one version\<close>

lemma drop_reaches:
  assumes a: "in_arena b k d" and k: "fs_key b k" and s: "slots_are b k d s A h" and ok: "slots_ok s A vs"
    and i: "position (\<lambda>e. fe_version_id e = v) vs = Some i" and home: "meta_home b k d"
  obtains d' s' A' where "drop_version d b k vs i = (d', Ok ())" "reaches b k d d' s' A' h"
    "slots_ok s' A' (remove_at i vs)" "rows_of s' A' (remove_at i vs) = drop_row v (rows_of s A vs)"
proof (cases i)
  case (Suc j)
  note rb = remove_below [OF ok i [unfolded Suc]]
  have "fe_version_id (vs ! i) = v" using position_Some [OF i] by simp
  then show ?thesis
    using that [of "if fe_delete_marker (vs ! i) then d else fs_remove_archive d b k v" s "A(v := (None, None))"]
      remove_archive_reaches [OF a k s rb(4)] reaches_refl [OF a s] rb(1,2,5) Suc
    by (simp add: drop_version_def drop_row_def Let_def)
next
  case 0
  note rh = remove_head [OF ok i [unfolded 0]]
  let ?d = "if head_occupied vs then discard_canonical d b k else d" and ?vs = "remove_at 0 vs"
  have r1: "reaches b k d ?d (None, None) A h"
    using discard_reaches [OF a k s] reaches_refl [OF a s] rh(3) by auto
  have dv: "drop_version d b k vs i =
      (if head_occupied ?vs then promote_canonical ?d b k (fe_version_id (hd ?vs)) else (?d, Ok ()))"
    using 0 rh(4) by (simp add: drop_version_def Let_def)
  show ?thesis
  proof (cases "head_occupied ?vs")
    case False
    then show ?thesis
      using that [of ?d "(None, None)" A] r1 dv slot_free_keep [OF rh(1) False] rh(2) 0 by (simp add: drop_row_def)
  next
    case True
    then obtain e es where e: "?vs = e # es" "\<not> fe_delete_marker e" by (cases ?vs) auto
    note sp = slot_free_promote [OF rh(1) [unfolded e(1)] e(2)]
    have v: "fe_version_id e \<in> vnames" "fst (A (fe_version_id e)) \<noteq> None"
      using rh(1) e by (auto simp: slot_free_def archive_ok_def)
    then obtain c where c: "fst (A (fe_version_id e)) = Some c" by auto
    obtain d' where p: "promote_canonical ?d b k (fe_version_id e) = (d', Ok ())"
      "reaches b k ?d d' (A (fe_version_id e)) (A(fe_version_id e := (None, None))) h"
      using promote_reaches [OF reachesD(1) [OF r1] k reachesD(2) [OF r1] v(1) c reachesD(3) [OF r1 home]] .
    show ?thesis
      by (rule that [OF _ reaches_trans [OF r1 p(2)]]) (use True dv p(1) e sp rh(2) 0 in \<open>simp_all add: drop_row_def\<close>)
  qed
qed

lemma archived_lookup:
  "position (\<lambda>e. fe_version_id e = v) vs = Some i \<Longrightarrow>
     map_of (archived_rows A vs) v = Some (if fe_delete_marker (vs ! i) then None else Some (A v))"
  by (induction vs arbitrary: i) (auto simp: entry_row_def split: if_splits)

lemma rows_lookup:
  assumes "position (\<lambda>e. fe_version_id e = v) vs = Some i"
  shows "map_of (rows_of s A vs) v = Some (if fe_delete_marker (vs ! i) then None else Some (if i = 0 then s else A v))"
  using assms by (cases vs) (auto simp: entry_row_def archived_lookup split: if_splits)

lemma rows_lookup_None:
  assumes "position (\<lambda>e. fe_version_id e = v) vs = None"
  shows "map_of (rows_of s A vs) v = None"
proof -
  have "v \<notin> fe_version_id ` set vs" using assms by (auto simp: position_None)
  also have "fe_version_id ` set vs = fst ` set (rows_of s A vs)" using rows_vids(2) [of s A vs] by (metis list.set_map)
  finally show ?thesis by (simp add: map_of_eq_None_iff)
qed

text \<open>Once the last version is gone, so are the history and the directories it leaves empty.\<close>

lemma forget_key:
  assumes a: "in_arena b k d" and k: "fs_key b k" and s: "slots_are b k d s A h" and ok: "slots_ok s A []"
  defines "d' \<equiv> prune_empty_dirs (fst (drive_remove_file d (fs_history_path b k))) (fs_version_dir b k) fs_versions_root"
  shows "fs_ready b k d'" "fs_versions b k d' = []" "\<And>q. q \<notin> slot_paths b k \<Longrightarrow> file_at d' q = file_at d q"
proof -
  let ?d = "fst (drive_remove_file d (PathBuf False (hist_comps b k)))"
  have m: "moves b k d ?d ((file_at d)(hist_comps b k := None))" using moves_remove [OF a, of "hist_comps b k"] by simp
  have safe: "safe (ver_comps b k)"
    using fs_key_plain(1,4) [OF k] by (auto simp: ver_comps_def safe_def plain_comp_def SYS_DIR_def)
  have keep: "\<not> strict_prefix [SYS_DIR, ''versions''] r" if "r \<in> key_dirs b" for r
    using that by (auto simp: key_dirs_def strict_prefix_def prefix_def)
  have d': "d' = prune_empty_dirs ?d (PathBuf False (ver_comps b k)) (PathBuf False [SYS_DIR, ''versions''])"
    by (simp add: d'_def fs_paths [OF k] fs_version_paths(1) [OF k] fs_roots)
  have pr: "in_arena b k d'" "file_at d' = (file_at d)(hist_comps b k := None)"
    using arena_prune [OF movesD(1) [OF m] safe _ keep] movesD(2) [OF m] by (simp_all add: d')
  have "slots_are b k d' s A None" using slots_areD [OF s] by (simp add: slots_are_def pr(2) slot_updates [OF k])
  moreover have e: "s = (None, None)" "\<forall>v. A v = (None, None)" using ok by (auto simp: slots_ok_def archive_ok_def prod_eq_iff)
  ultimately have s': "slots_are b k d' (None, None) A None" by simp
  have "meta_home b k d'" using slots_areD(5) [OF s'] e(2) by (simp add: meta_home_def)
  then show "fs_ready b k d'" "fs_versions b k d' = []"
    using versions_at [OF s'] pr(1) k e(2) by (simp_all add: fs_ready_def)
  show "\<And>q. q \<notin> slot_paths b k \<Longrightarrow> file_at d' q = file_at d q" by (auto simp: pr(2))
qed

lemma delete_version_step:
  assumes r: "fs_ready b k (fs_drive st)" and row: "map_of (fs_versions b k (fs_drive st)) v = Some x"
  obtains st' where "fs_delete_object_version E C st b k v =
      (st', Ok \<lparr> do_version_id = Some v, do_delete_marker = (x = None) \<rparr>)"
    "fs_ready b k (fs_drive st')" "fs_versions b k (fs_drive st') = drop_row v (fs_versions b k (fs_drive st))"
    "fs_encrypt_all st' = fs_encrypt_all st"
    "\<And>q. q \<notin> slot_paths b k \<Longrightarrow> file_at (fs_drive st') q = file_at (fs_drive st) q"
proof -
  let ?d = "fs_drive st"
  note k = fs_readyD(1) [OF r] and a = fs_readyD(2) [OF r]
  obtain d1 s A h where 1: "fs_seed_legacy_history E C ?d b k = (d1, Ok ())" "reaches b k ?d d1 s A h"
    "slots_ok s A (hist_of h)" "fs_versions b k ?d = rows_of s A (hist_of h)" using seed_reaches [OF r] .
  let ?vs = "hist_of h"
  note a1 = reachesD(1) [OF 1(2)] and s1 = reachesD(2) [OF 1(2)] and h1 = reachesD(3) [OF 1(2) fs_readyD(4) [OF r]]
  have hist: "fs_read_history d1 b k = ?vs" using read_history_at [OF a1 k s1] .
  obtain i where i: "position (\<lambda>e. fe_version_id e = v) ?vs = Some i"
    using row rows_lookup_None [of v ?vs s A] 1(4) by (cases "position (\<lambda>e. fe_version_id e = v) ?vs") auto
  have x: "x = None \<longleftrightarrow> fe_delete_marker (?vs ! i)" using rows_lookup [OF i, of s A] row 1(4) by (auto split: if_splits)
  obtain d2 s' A' where 2: "drop_version d1 b k ?vs i = (d2, Ok ())" "reaches b k d1 d2 s' A' h"
    "slots_ok s' A' (remove_at i ?vs)" "rows_of s' A' (remove_at i ?vs) = drop_row v (rows_of s A ?vs)"
    using drop_reaches [OF a1 k s1 1(3) i h1] .
  note a2 = reachesD(1) [OF 2(2)] and s2 = reachesD(2) [OF 2(2)] and other = reachesD(4) [OF reaches_trans [OF 1(2) 2(2)]]
  have idx: "version_index ?vs v = Ok i" using i by (simp add: version_index_def)
  note unf = fs_delete_object_version_def bucket_at [OF a k] 1(1) hist idx 2(1) x Let_def
  show ?thesis
  proof (cases "remove_at i ?vs = []")
    case True
    let ?d3 = "prune_empty_dirs (fst (drive_remove_file d2 (fs_history_path b k))) (fs_version_dir b k) fs_versions_root"
    note fk = forget_key [OF a2 k s2 2(3) [unfolded True]]
    show ?thesis
      by (rule that [of "st\<lparr>fs_drive := ?d3\<rparr>"]) (use True fk 2(4) 1(4) other in \<open>simp_all add: unf\<close>)
  next
    case False
    obtain d3 where 3: "fs_write_history d2 b k (remove_at i ?vs) = (d3, Ok ())"
      "reaches b k d2 d3 s' A' (Some (VersionsDoc (remove_at i ?vs)))" using save_history_reaches [OF a2 k s2] .
    have rd: "fs_ready b k d3" "fs_versions b k d3 = rows_of s' A' (remove_at i ?vs)"
      using ready_by [OF k reachesD(1) [OF 3(2)] reachesD(3) [OF 3(2) reachesD(3) [OF 2(2) h1]] reachesD(2) [OF 3(2)] 2(3)] .
    show ?thesis
      by (rule that [of "st\<lparr>fs_drive := d3\<rparr>"]) (use False 3(1) rd 2(4) 1(4) other reachesD(4) [OF 3(2)] in \<open>simp_all add: unf\<close>)
  qed
qed

section \<open>Reading one version\<close>

text \<open>What a reader of a version is told, from its row.\<close>

definition row_answer :: "fs_env \<Rightarrow> string \<Rightarrow> string \<Rightarrow> slot_files option option \<Rightarrow> (object_meta \<times> body) result" where
  "row_answer E k v row = (case row of
       None \<Rightarrow> Err NoSuchVersion
     | Some None \<Rightarrow> Err MethodNotAllowed
     | Some (Some (Some c, Some (StoredDoc m))) \<Rightarrow>
         (case fs_decrypt_source E (sm_encrypted m) (Body (raw_bytes E c) False) ''decrypt object'' of
            Err e \<Rightarrow> Err e | Ok bd \<Rightarrow> Ok ((stored_to_meta k m)\<lparr>om_version_id := Some v\<rparr>, bd))
     | _ \<Rightarrow> Err (Internal ''metadata lost''))"

text \<open>A payload whose metadata is with it.\<close>

definition row_whole :: "slot_files option option \<Rightarrow> bool" where
  "row_whole row = (case row of Some (Some (c, m)) \<Rightarrow> c \<noteq> None \<and> Option.bind m as_stored \<noteq> None | _ \<Rightarrow> True)"

lemma as_stored_Some: "as_stored c = Some m \<longleftrightarrow> c = StoredDoc m"
  by (cases c) auto

lemma bind_stored_Some: "Option.bind x as_stored = Some m \<longleftrightarrow> x = Some (StoredDoc m)"
  by (cases x) (auto simp: as_stored_Some)

lemma get_version_step:
  assumes r: "fs_ready b k (fs_drive st)" and whole: "row_whole (map_of (fs_versions b k (fs_drive st)) v)"
  obtains st' where "fs_get_object_version E C st b k v = (st', row_answer E k v (map_of (fs_versions b k (fs_drive st)) v))"
    "fs_ready b k (fs_drive st')" "fs_versions b k (fs_drive st') = fs_versions b k (fs_drive st)"
    "\<And>q. q \<notin> slot_paths b k \<Longrightarrow> file_at (fs_drive st') q = file_at (fs_drive st) q"
proof -
  let ?d = "fs_drive st"
  note k = fs_readyD(1) [OF r] and a = fs_readyD(2) [OF r]
  obtain d1 s A h where 1: "fs_seed_legacy_history E C ?d b k = (d1, Ok ())" "reaches b k ?d d1 s A h"
    "slots_ok s A (hist_of h)" "fs_versions b k ?d = rows_of s A (hist_of h)" "fs_ready b k d1"
    "fs_versions b k d1 = fs_versions b k ?d" using seed_reaches [OF r] .
  let ?vs = "hist_of h" and ?row = "map_of (fs_versions b k ?d) v" and ?st = "st\<lparr>fs_drive := d1\<rparr>"
  note a1 = reachesD(1) [OF 1(2)] and s1 = reachesD(2) [OF 1(2)]
  have hist: "fs_read_history d1 b k = ?vs" using read_history_at [OF a1 k s1] .
  note unf = fs_get_object_version_def locate_version_def version_index_def bucket_at [OF a k] 1(1) hist row_answer_def Let_def
  have "fs_get_object_version E C st b k v = (?st, row_answer E k v ?row)"
  proof (cases "position (\<lambda>e. fe_version_id e = v) ?vs")
    case None
    then show ?thesis using rows_lookup_None [OF None, of s A] 1(4) by (simp add: unf)
  next
    case (Some i)
    note lk = rows_lookup [OF Some, of s A, folded 1(4)]
    show ?thesis
    proof (cases "fe_delete_marker (?vs ! i)")
      case True
      then show ?thesis using Some lk by (simp add: unf)
    next
      case False
      let ?x = "if i = 0 then s else A v"
      have v: "v \<in> vnames" using slots_ok_vnames [OF 1(3)] position_Some [OF Some] by auto
      obtain c m where x: "?x = (Some c, Some (StoredDoc m))"
        using whole lk False by (cases ?x) (auto simp: row_whole_def bind_stored_Some)
      have rs: "(if i = 0 then read_stored E C d1 b k else read_version_stored E C d1 b k v) = Ok m"
        using x read_stored_at(3) [OF a1 k s1] a1 v slots_areD(5) [OF s1 v]
        by (auto simp: read_version_stored_def fs_paths [OF k] arena_read split: if_splits)
      have "fs_open E d1 (if i = 0 then fs_object_path b k else fs_version_data_path b k v) = Some (Body (raw_bytes E c) False)"
        using x a1 v slots_areD(1,4) [OF s1] by (auto simp: fs_paths [OF k] arena_open split: if_splits)
      then show ?thesis using Some lk False x rs by (cases "i = 0") (simp_all add: unf fs_body_def)
    qed
  qed
  then show ?thesis using that [of ?st] 1(5,6) reachesD(4) [OF 1(2)] by simp
qed

end
