(* ===== verification/Fs_History.thy ===== *)
theory Fs_History
  imports Fs_Steps
begin

text \<open>
  Runs of operations on a store whose keys have versions: an interface with one law, that a step acts on the
  list of versions as specified, its consequence for runs, and the filesystem backend as an instance.
\<close>

section \<open>Runs\<close>

fun run_ops :: "('s \<Rightarrow> 'op \<Rightarrow> 's \<times> 'a) \<Rightarrow> 's \<Rightarrow> 'op list \<Rightarrow> 's \<times> 'a list" where
  "run_ops step s [] = (s, [])"
| "run_ops step s (x # xs) = (case step s x of (s1, a) \<Rightarrow> case run_ops step s1 xs of (s2, as) \<Rightarrow> (s2, a # as))"

text \<open>Each operation is permitted where the specification has brought the state.\<close>

fun permitted :: "('r \<Rightarrow> 'op \<Rightarrow> bool) \<Rightarrow> ('r \<Rightarrow> 'op \<Rightarrow> 'r \<times> 'a) \<Rightarrow> 'r \<Rightarrow> 'op list \<Rightarrow> bool" where
  "permitted ok spec r [] \<longleftrightarrow> True"
| "permitted ok spec r (x # xs) \<longleftrightarrow> ok r x \<and> permitted ok spec (fst (spec r x)) xs"

locale refined_store =
  fixes ready :: "'s \<Rightarrow> bool" and rows :: "'s \<Rightarrow> 'r"
    and exec :: "'s \<Rightarrow> 'op \<Rightarrow> 's \<times> 'a" and spec :: "'r \<Rightarrow> 'op \<Rightarrow> 'r \<times> 'a" and ok :: "'r \<Rightarrow> 'op \<Rightarrow> bool"
  assumes step: "ready s \<Longrightarrow> ok (rows s) x \<Longrightarrow>
    ready (fst (exec s x)) \<and> spec (rows s) x = (rows (fst (exec s x)), snd (exec s x))"
begin

lemma run:
  assumes "ready s" "permitted ok spec (rows s) xs"
  shows "ready (fst (run_ops exec s xs))"
    "run_ops spec (rows s) xs = (rows (fst (run_ops exec s xs)), snd (run_ops exec s xs))"
  using assms
proof (induction xs arbitrary: s)
  case (Cons x xs)
  {
    case 1
    with Cons.IH(1) [of "fst (exec s x)"] step [of s x] show ?case by (simp add: case_prod_beta)
  next
    case 2
    with Cons.IH(2) [of "fst (exec s x)"] step [of s x] show ?case by (simp add: case_prod_beta)
  }
qed simp_all

end

section \<open>The operations on one key\<close>

datatype version_op =
    PutOp fs_ctx body string string_map bool
  | MarkOp fs_ctx
  | DropOp fs_ctx string

datatype version_answer = Stored "object_meta result" | Deleted "delete_outcome result"

fun fs_exec :: "fs_env \<Rightarrow> string \<Rightarrow> string \<Rightarrow> fs_store \<Rightarrow> version_op \<Rightarrow> fs_store \<times> version_answer" where
  "fs_exec E b k st (PutOp C bd ct um enc) = (case fs_put_object E C st b k bd ct um enc of (st', r) \<Rightarrow> (st', Stored r))"
| "fs_exec E b k st (MarkOp C) = (case fs_delete_object E C st b k of (st', r) \<Rightarrow> (st', Deleted r))"
| "fs_exec E b k st (DropOp C v) = (case fs_delete_object_version E C st b k v of (st', r) \<Rightarrow> (st', Deleted r))"

text \<open>The metadata a put records, for the payload \<open>p\<close> it stores.\<close>

definition stored_for :: "fs_env \<Rightarrow> fs_ctx \<Rightarrow> bytes \<Rightarrow> string \<Rightarrow> string_map \<Rightarrow> bool \<Rightarrow> string option \<Rightarrow> stored_meta" where
  "stored_for E C p ct um enc vid = put_meta (put_etag E C enc p) (put_size E enc p) ct um (fc_now C) enc vid"

definition fs_payload :: "fs_env \<Rightarrow> fs_ctx \<Rightarrow> bool \<Rightarrow> body \<Rightarrow> bytes" where
  "fs_payload E C enc bd = (case fs_encrypt_source E C enc bd of Ok src \<Rightarrow> body_bytes src | Err _ \<Rightarrow> [])"

text \<open>What the operations do to the list of versions, in a bucket of mode \<open>mode\<close> and a store that encrypts all or not.\<close>

fun log_op :: "fs_env \<Rightarrow> string \<Rightarrow> version_mode \<Rightarrow> bool \<Rightarrow> version_row list \<Rightarrow> version_op \<Rightarrow> version_row list \<times> version_answer" where
  "log_op E k mode every rows (PutOp C bd ct um enc) =
     (let p = fs_payload E C (enc \<or> every) bd;
          m = stored_for E C p ct um (enc \<or> every) (Some (new_vid mode (fc_uuid C 1)))
      in (push_row mode (fc_uuid C 1) (Some (Some (Bytes p), Some (StoredDoc m))) rows, Stored (Ok (stored_to_meta k m))))"
| "log_op E k mode every rows (MarkOp C) =
     (push_row mode (fc_uuid C 0) None rows,
      Deleted (Ok \<lparr> do_version_id = Some (new_vid mode (fc_uuid C 0)), do_delete_marker = True \<rparr>))"
| "log_op E k mode every rows (DropOp C v) =
     (drop_row v rows,
      Deleted (case map_of rows v of
          None \<Rightarrow> Err NoSuchVersion
        | Some x \<Rightarrow> Ok \<lparr> do_version_id = Some v, do_delete_marker = (x = None) \<rparr>))"

text \<open>UUIDs are new file names, and a body is read to its end and encrypted without an error.\<close>

fun op_ok :: "fs_env \<Rightarrow> version_mode \<Rightarrow> bool \<Rightarrow> version_row list \<Rightarrow> version_op \<Rightarrow> bool" where
  "op_ok E mode every rows (PutOp C bd ct um enc) \<longleftrightarrow>
     plain_comp (fc_uuid C 0) \<and> fresh_vid mode (fc_uuid C 1) rows \<and>
     (case fs_encrypt_source E C (enc \<or> every) bd of Ok src \<Rightarrow> \<not> body_fails src | Err _ \<Rightarrow> False)"
| "op_ok E mode every rows (MarkOp C) \<longleftrightarrow> fresh_vid mode (fc_uuid C 0) rows"
| "op_ok E mode every rows (DropOp C v) \<longleftrightarrow> True"

lemma delete_version_missing:
  assumes r: "fs_ready b k (fs_drive st)" and row: "map_of (fs_versions b k (fs_drive st)) v = None"
  obtains st' where "fs_delete_object_version E C st b k v = (st', Err NoSuchVersion)"
    "fs_ready b k (fs_drive st')" "fs_versions b k (fs_drive st') = fs_versions b k (fs_drive st)"
    "fs_encrypt_all st' = fs_encrypt_all st"
    "\<And>q. q \<notin> slot_paths b k \<Longrightarrow> file_at (fs_drive st') q = file_at (fs_drive st) q"
proof -
  note k = fs_readyD(1) [OF r] and a = fs_readyD(2) [OF r]
  obtain d1 s A h where 1: "fs_seed_legacy_history E C (fs_drive st) b k = (d1, Ok ())" "reaches b k (fs_drive st) d1 s A h"
    "slots_ok s A (hist_of h)" "fs_versions b k (fs_drive st) = rows_of s A (hist_of h)" "fs_ready b k d1"
    "fs_versions b k d1 = fs_versions b k (fs_drive st)" using seed_reaches [OF r] .
  have hist: "fs_read_history d1 b k = hist_of h"
    using read_history_at [OF reachesD(1) [OF 1(2)] k reachesD(2) [OF 1(2)]] .
  have "position (\<lambda>e. fe_version_id e = v) (hist_of h) = None"
    using rows_lookup [of v "hist_of h" _ s A] row 1(4) by (cases "position (\<lambda>e. fe_version_id e = v) (hist_of h)") auto
  then have "fs_delete_object_version E C st b k v = (st\<lparr>fs_drive := d1\<rparr>, Err NoSuchVersion)"
    using bucket_at [OF a k] 1(1) hist by (simp add: fs_delete_object_version_def version_index_def)
  then show ?thesis using that [of "st\<lparr>fs_drive := d1\<rparr>"] 1(5,6) reachesD(4) [OF 1(2)] by simp
qed

lemma drop_row_absent: "map_of rows v = None \<Longrightarrow> drop_row v rows = rows"
  by (metis drop_row_def filter_absent map_of_eq_None_iff)

section \<open>The filesystem backend as an instance\<close>

definition log_ready :: "string \<Rightarrow> string \<Rightarrow> version_mode \<Rightarrow> bool \<Rightarrow> fs_store \<Rightarrow> bool" where
  "log_ready b k mode every st = (mode \<noteq> Off \<and> fs_ready b k (fs_drive st) \<and> versioning_mode (fs_drive st) b = mode
     \<and> fs_encrypt_all st = every)"

lemma mode_stays:
  assumes "fs_ready b k d" "fs_ready b k d'" "\<And>q. q \<notin> slot_paths b k \<Longrightarrow> q \<noteq> temp_comps u \<Longrightarrow> file_at d' q = file_at d q"
  shows "versioning_mode d' b = versioning_mode d b"
  using assms(3) [OF mode_not_slot [OF fs_readyD(1) [OF assms(1)]]]
    mode_kept [OF fs_readyD(2) [OF assms(1)] fs_readyD(2) [OF assms(2)] fs_readyD(1) [OF assms(1)]]
  by (simp add: mode_comps_def temp_comps_def)

lemma fs_exec_step:
  assumes r: "log_ready b k mode every st" and ok: "op_ok E mode every (fs_versions b k (fs_drive st)) x"
  shows "log_ready b k mode every (fst (fs_exec E b k st x)) \<and>
    log_op E k mode every (fs_versions b k (fs_drive st)) x =
      (fs_versions b k (fs_drive (fst (fs_exec E b k st x))), snd (fs_exec E b k st x))"
proof -
  have mode: "mode \<noteq> Off" "versioning_mode (fs_drive st) b = mode" "fs_encrypt_all st = every" and rd: "fs_ready b k (fs_drive st)"
    using r by (auto simp: log_ready_def)
  show ?thesis
  proof (cases x)
    case (PutOp C bd ct um enc)
    have enc: "fs_should_encrypt st enc = (enc \<or> every)" using mode(3) by (simp add: fs_should_encrypt_def)
    let ?p = "fs_payload E C (enc \<or> every) bd"
    let ?m = "stored_for E C ?p ct um (enc \<or> every) (Some (new_vid mode (fc_uuid C 1)))"
    have src: "fs_encrypt_source E C (fs_should_encrypt st enc) bd = Ok (Body ?p False)"
      using ok PutOp enc by (auto simp: fs_payload_def body.expand split: sum.splits)
    have u: "plain_comp (fc_uuid C 0)" and fr: "fresh_vid mode (fc_uuid C 1) (fs_versions b k (fs_drive st))"
      using ok PutOp by simp_all
    have m: "?m = put_meta (put_etag E C (fs_should_encrypt st enc) ?p) (put_size E (fs_should_encrypt st enc) ?p) ct um
        (fc_now C) (fs_should_encrypt st enc) (Some (new_vid mode (fc_uuid C 1)))" by (simp add: stored_for_def enc)
    obtain st' where "fs_put_object E C st b k bd ct um enc = (st', Ok (stored_to_meta k ?m))" "fs_ready b k (fs_drive st')"
      "fs_versions b k (fs_drive st') = push_row mode (fc_uuid C 1) (Some (Some (Bytes ?p), Some (StoredDoc ?m))) (fs_versions b k (fs_drive st))"
      "fs_encrypt_all st' = fs_encrypt_all st"
      "\<And>q. q \<notin> slot_paths b k \<Longrightarrow> q \<noteq> temp_comps (fc_uuid C 0) \<Longrightarrow> file_at (fs_drive st') q = file_at (fs_drive st) q"
      using put_step [OF rd u mode(2,1) fr src m] by blast
    then show ?thesis
      using PutOp mode mode_stays [OF rd, of "fs_drive st'" "fc_uuid C 0"] by (simp add: log_ready_def Let_def)
  next
    case (MarkOp C)
    obtain st' where "fs_delete_object E C st b k =
        (st', Ok \<lparr> do_version_id = Some (new_vid mode (fc_uuid C 0)), do_delete_marker = True \<rparr>)"
      "fs_ready b k (fs_drive st')"
      "fs_versions b k (fs_drive st') = push_row mode (fc_uuid C 0) None (fs_versions b k (fs_drive st))"
      "fs_encrypt_all st' = fs_encrypt_all st"
      "\<And>q. q \<notin> slot_paths b k \<Longrightarrow> file_at (fs_drive st') q = file_at (fs_drive st) q"
      using delete_marker_step [OF rd mode(2,1)] ok MarkOp by auto
    then show ?thesis
      using MarkOp mode mode_stays [OF rd, of "fs_drive st'" "fc_uuid C 0"] by (simp add: log_ready_def)
  next
    case (DropOp C v)
    show ?thesis
    proof (cases "map_of (fs_versions b k (fs_drive st)) v")
      case None
      obtain st' where "fs_delete_object_version E C st b k v = (st', Err NoSuchVersion)" "fs_ready b k (fs_drive st')"
        "fs_versions b k (fs_drive st') = fs_versions b k (fs_drive st)" "fs_encrypt_all st' = fs_encrypt_all st"
        "\<And>q. q \<notin> slot_paths b k \<Longrightarrow> file_at (fs_drive st') q = file_at (fs_drive st) q"
        using delete_version_missing [OF rd None, where E = E and C = C] by blast
      then show ?thesis
        using DropOp mode None mode_stays [OF rd, of "fs_drive st'" "[]"] by (simp add: log_ready_def drop_row_absent)
    next
      case (Some y)
      obtain st' where "fs_delete_object_version E C st b k v =
          (st', Ok \<lparr> do_version_id = Some v, do_delete_marker = (y = None) \<rparr>)" "fs_ready b k (fs_drive st')"
        "fs_versions b k (fs_drive st') = drop_row v (fs_versions b k (fs_drive st))" "fs_encrypt_all st' = fs_encrypt_all st"
        "\<And>q. q \<notin> slot_paths b k \<Longrightarrow> file_at (fs_drive st') q = file_at (fs_drive st) q"
        using delete_version_step [OF rd Some, where E = E and C = C] by blast
      then show ?thesis
        using DropOp mode Some mode_stays [OF rd, of "fs_drive st'" "[]"] by (simp add: log_ready_def)
    qed
  qed
qed

interpretation fs_log: refined_store "log_ready b k mode every" "\<lambda>st. fs_versions b k (fs_drive st)" "fs_exec E b k"
  "log_op E k mode every" "op_ok E mode every" for E b k mode every
  by unfold_locales (rule fs_exec_step)

end
