(* ===== verification/Fs_Props.thy ===== *)
theory Fs_Props
  imports Fs_History
begin

text \<open>
  Properties of the filesystem backend's objects and versions, with the store on which their witnesses run:
  one bucket with versioning enabled.
\<close>

section \<open>A concrete store\<close>

definition ex_fs_env :: fs_env where
  "ex_fs_env = \<lparr> fv_md5 = (\<lambda>_. []), fv_crypto = plain_lib, fv_provider = file_provider plain_lib plain_keys, fv_json = (\<lambda>_. []) \<rparr>"

definition ex_fs_ctx :: "string \<Rightarrow> string \<Rightarrow> fs_ctx" where
  "ex_fs_ctx u v = \<lparr> fc_now = 0, fc_uuid = (\<lambda>n. if n = 0 then u else v), fc_entropy = plain_entropy,
     fc_opaque_etag = ''o'', fc_mtime = (\<lambda>_. None) \<rparr>"

definition ex_fs_drive :: drive where
  "ex_fs_drive = drive_new [''r'']
     [([''r''], Dir), ([''r'', SYS_DIR], Dir), ([''r'', SYS_DIR, ''tmp''], Dir), ([''r'', SYS_DIR, ''buckets''], Dir),
      ([''r'', SYS_DIR, ''buckets'', ''bkt''], Dir),
      ([''r'', SYS_DIR, ''buckets'', ''bkt'', ''versioning.json''], File (StatusDoc ''Enabled'')), ([''r'', ''bkt''], Dir),
      ([''r'', ''bkt'', ''n''], File (Bytes [9]))]"

definition ex_fs :: fs_store where
  "ex_fs = \<lparr> fs_drive = ex_fs_drive, fs_encrypt_all = False \<rparr>"

lemma arena_of_look:
  assumes "drive_wf d" "healthy d" "apart Q"
    and "\<And>r. look d r = None \<or> (look d r = Some Dir \<and> r \<notin> Q) \<or> (\<forall>q \<in> Q. \<not> prefix r q)"
    and "\<And>p. p \<in> D \<Longrightarrow> look d p = Some Dir"
  shows "arena Q D d"
proof -
  have "unblocked d q" if "q \<in> Q" for q
    using assms(4) [of q] assms(4) that by (fastforce simp: unblocked_def strict_prefix_def)
  with assms show ?thesis by (simp add: arena_def)
qed

lemma ex_fs_look:
  "look ex_fs_drive q = (if q \<in> {[], [SYS_DIR], [SYS_DIR, ''tmp''], [SYS_DIR, ''buckets''], [SYS_DIR, ''buckets'', ''bkt''], [''bkt'']}
     then Some Dir else if q = mode_comps ''bkt'' then Some (File (StatusDoc ''Enabled''))
     else if q = [''bkt'', ''n''] then Some (File (Bytes [9])) else None)"
  by (simp add: look_def lookup_def ex_fs_drive_def drive_new_def mode_comps_def)

lemma ex_fs_wf: "drive_wf ex_fs_drive"
  by (auto simp: drive_wf_def ex_fs_drive_def drive_new_def wf_fs_def lookup_def SYS_DIR_def split: if_splits)

lemma ex_fs_ready:
  assumes k: "fs_key ''bkt'' k" and n: "\<not> prefix [''bkt'', ''n''] (obj_comps ''bkt'' k)"
  shows "fs_ready ''bkt'' k ex_fs_drive" "fs_versions ''bkt'' k ex_fs_drive = []" "versioning_mode ex_fs_drive ''bkt'' = Enabled"
    "file_at ex_fs_drive (hist_comps ''bkt'' k) = None"
proof -
  obtain q where o: "obj_comps ''bkt'' k = ''bkt'' # q" "q \<noteq> []" using fs_object_path_eq(2) [OF k] by blast
  obtain q' where m: "meta_comps ''bkt'' k = [SYS_DIR, ''meta'', ''bkt''] @ q'" using fs_meta_path_eq(2) [OF k] by blast
  note defs = key_paths_def hist_comps_def data_comps_def vmeta_comps_def temp_comps_def ver_comps_def
  have dirs: "r \<notin> key_paths ''bkt'' k" if "look ex_fs_drive r = Some Dir" for r
    using that o m fs_key_plain(5) [OF k] by (auto simp: ex_fs_look defs SYS_DIR_def split: if_splits)
  have mode: "\<not> prefix (mode_comps ''bkt'') q \<and> \<not> prefix [''bkt'', ''n''] q" if "q \<in> key_paths ''bkt'' k" for q
    using that o m n by (auto simp: mode_comps_def defs SYS_DIR_def)
  have a: "in_arena ''bkt'' k ex_fs_drive"
  proof (rule arena_of_look [OF ex_fs_wf _ key_paths_apart [OF k]])
    show "healthy ex_fs_drive" by (simp add: healthy_def ex_fs_drive_def drive_new_def)
    show "look ex_fs_drive r = None \<or> (look ex_fs_drive r = Some Dir \<and> r \<notin> key_paths ''bkt'' k)
      \<or> (\<forall>q \<in> key_paths ''bkt'' k. \<not> prefix r q)" for r
      using dirs [of r] mode ex_fs_look [of r] by (auto split: if_splits)
    show "look ex_fs_drive p = Some Dir" if "p \<in> key_dirs ''bkt''" for p
      using that by (auto simp: key_dirs_def ex_fs_look)
  qed
  have none: "file_at ex_fs_drive q = None" if "q \<in> key_paths ''bkt'' k" for q
    using mode [OF that] by (auto simp: file_at_def ex_fs_look)
  then have n: "file_at ex_fs_drive (obj_comps ''bkt'' k) = None" "file_at ex_fs_drive (meta_comps ''bkt'' k) = None"
    "file_at ex_fs_drive (hist_comps ''bkt'' k) = None" "\<And>v. archive_slot (file_at ex_fs_drive) ''bkt'' k v = (None, None)"
    by (simp_all add: archive_slot_def vnames_iff)
  have "meta_home ''bkt'' k ex_fs_drive" using none by (simp add: meta_home_def)
  with a n k show "fs_ready ''bkt'' k ex_fs_drive" "fs_versions ''bkt'' k ex_fs_drive = []"
    by (simp_all add: fs_ready_def fs_versions_def versions_ok_def versions_in_def history_in_def)
  show "versioning_mode ex_fs_drive ''bkt'' = Enabled" by (simp add: mode_at [OF a k] file_at_def ex_fs_look mode_comps_def)
  show "file_at ex_fs_drive (hist_comps ''bkt'' k) = None" by (rule n(3))
qed

lemma ex_fs_key: "fs_key ''bkt'' ''k''" "\<not> prefix [''bkt'', ''n''] (obj_comps ''bkt'' ''k'')"
  by code_simp+

section \<open>Versions\<close>

text \<open>
  C7: the filesystem backend refines a list of versions.  Whatever puts, deletes and deletes of single
  versions follow one another on a key of a versioned bucket, answers and versions are those of the list:
  a put or a delete marker goes to its front (in place of the \<open>null\<close> version while versioning is suspended), and
  a deleted version leaves it, wherever it stood.  The key stays in order.
\<close>

theorem fs_versions_refine:
  assumes "fs_ready b k (fs_drive st)" and "versioning_mode (fs_drive st) b = mode" and "mode \<noteq> Off"
    and "permitted (op_ok E mode (fs_encrypt_all st)) (log_op E k mode (fs_encrypt_all st)) (fs_versions b k (fs_drive st)) ops"
  shows "fs_ready b k (fs_drive (fst (run_ops (fs_exec E b k) st ops))) \<and>
    run_ops (log_op E k mode (fs_encrypt_all st)) (fs_versions b k (fs_drive st)) ops =
      (fs_versions b k (fs_drive (fst (run_ops (fs_exec E b k) st ops))), snd (run_ops (fs_exec E b k) st ops))"
proof -
  have "log_ready b k mode (fs_encrypt_all st) st" using assms(1-3) by (simp add: log_ready_def)
  from fs_log.run [OF this assms(4)] show ?thesis by (simp add: log_ready_def)
qed

definition ex_fs_ops :: "version_op list" where
  "ex_fs_ops = [PutOp (ex_fs_ctx ''t1'' ''v1'') (Body [1] False) [] [] False, PutOp (ex_fs_ctx ''t2'' ''v2'') (Body [2] False) [] [] False,
     MarkOp (ex_fs_ctx ''v3'' ''x''), DropOp (ex_fs_ctx ''x'' ''x'') ''v2'']"

lemma ex_fs_permitted:
  "permitted (op_ok ex_fs_env Enabled False) (log_op ex_fs_env ''k'' Enabled False) [] ex_fs_ops"
  "map fst (fst (run_ops (log_op ex_fs_env ''k'' Enabled False) [] ex_fs_ops)) = [''v3'', ''v1'']"
  by (simp_all add: ex_fs_ops_def ex_fs_ctx_def fresh_vid_def push_row_def kept_rows_def new_vid_def drop_row_def
      fs_encrypt_source_def vnames_iff plain_comp_def Let_def)

theorem fs_versions_refine_witness:
  "map fst (fs_versions ''bkt'' ''k'' (fs_drive (fst (run_ops (fs_exec ex_fs_env ''bkt'' ''k'') ex_fs ex_fs_ops)))) = [''v3'', ''v1'']"
proof -
  note ex = ex_fs_ready [OF ex_fs_key] and st = ex_fs_def
  have "run_ops (log_op ex_fs_env ''k'' Enabled False) [] ex_fs_ops =
      (fs_versions ''bkt'' ''k'' (fs_drive (fst (run_ops (fs_exec ex_fs_env ''bkt'' ''k'') ex_fs ex_fs_ops))),
       snd (run_ops (fs_exec ex_fs_env ''bkt'' ''k'') ex_fs ex_fs_ops))"
    using fs_versions_refine [of "''bkt''" "''k''" ex_fs Enabled ex_fs_env ex_fs_ops] ex ex_fs_permitted(1) by (simp add: st)
  then show ?thesis using ex_fs_permitted(2) by simp
qed

text \<open>The provider and the randomness of a call are fit for encryption.\<close>

definition fs_can_encrypt :: "fs_env \<Rightarrow> fs_ctx \<Rightarrow> bool" where
  "fs_can_encrypt E C \<longleftrightarrow> key_custody True (fv_provider E) \<and> entropy_ok (fc_entropy C) \<and> aead_laws (fv_crypto E)"

lemma fs_decrypts_payload:
  assumes "fs_encrypt_source E C enc (Body p False) = Ok src" and "enc \<Longrightarrow> fs_can_encrypt E C"
  shows "src = Body (fs_payload E C enc (Body p False)) False"
    "fs_decrypt_source E enc (Body (fs_payload E C enc (Body p False)) False) w = Ok (Body p False)"
    "put_size E enc (fs_payload E C enc (Body p False)) = length p"
proof -
  have "\<not> body_fails src"
    using assms(1) by (auto simp: fs_encrypt_source_def encrypting_reader_def split: if_splits sum.splits)
  then show src: "src = Body (fs_payload E C enc (Body p False)) False"
    using assms(1) by (cases src) (simp add: fs_payload_def)
  show "fs_decrypt_source E enc (Body (fs_payload E C enc (Body p False)) False) w = Ok (Body p False)"
    "put_size E enc (fs_payload E C enc (Body p False)) = length p"
  proof (atomize (full), cases enc)
    case True
    then have "encrypting_reader (fv_crypto E) (fc_entropy C) (fv_provider E) (Body p False) = Ok src"
      using assms(1) by (auto simp: fs_encrypt_source_def split: sum.splits)
    then show "fs_decrypt_source E enc (Body (fs_payload E C enc (Body p False)) False) w = Ok (Body p False) \<and>
      put_size E enc (fs_payload E C enc (Body p False)) = length p"
      using key_custody.stream_roundtrip [of True "fv_provider E" "fc_entropy C" "fv_crypto E" p src] assms(2) True src
      by (simp add: fs_can_encrypt_def fs_decrypt_source_def put_size_def)
  next
    case False
    then show "fs_decrypt_source E enc (Body (fs_payload E C enc (Body p False)) False) w = Ok (Body p False) \<and>
      put_size E enc (fs_payload E C enc (Body p False)) = length p"
      by (simp add: fs_payload_def fs_encrypt_source_def fs_decrypt_source_def put_size_def)
  qed
qed

lemma ex_fs_encrypts:
  "fs_can_encrypt ex_fs_env (ex_fs_ctx u v)" "\<exists>src. fs_encrypt_source ex_fs_env (ex_fs_ctx u v) True (Body p False) = Ok src"
  using plain_ok file_keys.key_custody_axioms [of plain_lib plain_keys]
    file_encrypts [of plain_lib plain_entropy plain_keys "Body p False"]
  by (auto simp: fs_can_encrypt_def fs_encrypt_source_def ex_fs_env_def ex_fs_ctx_def)

lemma map_of_drop_row: "v \<noteq> w \<Longrightarrow> map_of (drop_row w rows) v = map_of rows v"
  by (induction rows) (auto simp: drop_row_def)

lemma log_keeps:
  assumes "permitted (op_ok E Enabled every) (log_op E k Enabled every) rows ops" and "\<And>C. DropOp C v \<notin> set ops"
    and "map_of rows v = Some x"
  shows "map_of (fst (run_ops (log_op E k Enabled every) rows ops)) v = Some x"
  using assms
proof (induction ops arbitrary: rows)
  case (Cons a ops)
  have v: "u \<notin> fst ` set rows \<Longrightarrow> u \<noteq> v" for u using Cons.prems(3) by (metis map_of_eq_None_iff option.distinct(1))
  have "map_of (fst (log_op E k Enabled every rows a)) v = Some x"
  proof (cases a)
    case (DropOp C w)
    then have "w \<noteq> v" using Cons.prems(2) [of C] by auto
    then show ?thesis using DropOp Cons.prems(3) map_of_drop_row [of v w rows] by simp
  qed (use Cons.prems v in \<open>auto simp: push_row_def kept_rows_def new_vid_def fresh_vid_def Let_def\<close>)
  then show ?case using Cons by (simp add: case_prod_beta)
qed simp

lemma raw_Bytes [simp]: "raw_bytes E (Bytes p) = p"
  by (simp add: raw_bytes_def)

text \<open>
  C8: in a bucket with versioning enabled a version stays readable byte for byte, plain or encrypted, through
  every later write, delete and deletion of other versions of the key.
\<close>

theorem fs_version_persists:
  assumes "fs_ready b k (fs_drive st)" and "versioning_mode (fs_drive st) b = Enabled"
    and "fs_encrypt_source E C (enc \<or> fs_encrypt_all st) (Body p False) = Ok src"
    and "enc \<or> fs_encrypt_all st \<Longrightarrow> fs_can_encrypt E C"
    and "permitted (op_ok E Enabled (fs_encrypt_all st)) (log_op E k Enabled (fs_encrypt_all st)) (fs_versions b k (fs_drive st))
      (PutOp C (Body p False) ct um enc # ops)"
    and "\<And>C'. DropOp C' (fc_uuid C 1) \<notin> set ops"
  shows "\<exists>m. snd (fs_get_object_version E C' (fst (run_ops (fs_exec E b k) st (PutOp C (Body p False) ct um enc # ops))) b k (fc_uuid C 1))
      = Ok (m, Body p False) \<and> om_size m = length p \<and> om_content_type m = ct \<and> om_user_metadata m = um"
proof -
  let ?e = "enc \<or> fs_encrypt_all st" and ?v = "fc_uuid C 1" and ?ops = "PutOp C (Body p False) ct um enc # ops"
  let ?st = "fst (run_ops (fs_exec E b k) st ?ops)" and ?log = "log_op E k Enabled (fs_encrypt_all st)"
  let ?p = "fs_payload E C ?e (Body p False)"
  let ?m = "stored_for E C ?p ct um ?e (Some ?v)"
  have "log_ready b k Enabled (fs_encrypt_all st) st" using assms(1,2) by (simp add: log_ready_def)
  note run = fs_log.run [OF this assms(5)]
  have row: "map_of (fst (run_ops ?log (fs_versions b k (fs_drive st)) ?ops)) ?v = Some (Some (Some (Bytes ?p), Some (StoredDoc ?m)))"
    using log_keeps [OF _ assms(6), of E "fs_encrypt_all st" k "fst (?log (fs_versions b k (fs_drive st)) (hd ?ops))"] assms(5)
    by (simp add: case_prod_beta push_row_def new_vid_def Let_def)
  then have lk: "map_of (fs_versions b k (fs_drive ?st)) ?v = Some (Some (Some (Bytes ?p), Some (StoredDoc ?m)))"
    using run(2) by simp
  have "fs_ready b k (fs_drive ?st)" using run(1) by (simp add: log_ready_def)
  from get_version_step [OF this, of ?v E C'] lk
  have "snd (fs_get_object_version E C' ?st b k ?v) = row_answer E k ?v (Some (Some (Some (Bytes ?p), Some (StoredDoc ?m))))"
    by (fastforce simp: row_whole_def)
  then show ?thesis
    using fs_decrypts_payload(2,3) [OF assms(3,4)]
    by (simp add: row_answer_def stored_for_def put_meta_def stored_to_meta_def)
qed

theorem fs_version_persists_witness:
  "\<exists>m. snd (fs_get_object_version ex_fs_env (ex_fs_ctx [] []) (fst (run_ops (fs_exec ex_fs_env ''bkt'' ''k'') ex_fs ex_fs_ops)) ''bkt'' ''k'' ''v1'')
    = Ok (m, Body [1] False)"
proof -
  note ex = ex_fs_ready [OF ex_fs_key] and st = ex_fs_def
  have ops: "ex_fs_ops = PutOp (ex_fs_ctx ''t1'' ''v1'') (Body [1] False) [] [] False # tl ex_fs_ops"
    "\<And>C. DropOp C ''v1'' \<notin> set (tl ex_fs_ops)" "fc_uuid (ex_fs_ctx ''t1'' ''v1'') 1 = ''v1''"
    by (simp_all add: ex_fs_ops_def ex_fs_ctx_def)
  have src: "fs_encrypt_source ex_fs_env (ex_fs_ctx ''t1'' ''v1'') (False \<or> fs_encrypt_all ex_fs) (Body [1] False) = Ok (Body [1] False)"
    by (simp add: fs_encrypt_source_def st)
  show ?thesis
    using fs_version_persists [OF _ _ src, of "''bkt''" "''k''" "[]" "[]" "tl ex_fs_ops" "ex_fs_ctx [] []"]
      ex ex_fs_permitted(1) ops by (auto simp: st)
qed

text \<open>
  C9: an object put into the filesystem backend is read back byte for byte, with the metadata the put
  returned and the length of the plaintext, whatever the bucket's versioning mode, plain or encrypted.
\<close>

theorem fs_put_then_get:
  assumes "fs_ready b k (fs_drive st)" and "plain_comp (fc_uuid C 0)" and "versioning_mode (fs_drive st) b = mode"
    and "if mode = Off then file_at (fs_drive st) (hist_comps b k) = None else fresh_vid mode (fc_uuid C 1) (fs_versions b k (fs_drive st))"
    and "fs_encrypt_source E C (fs_should_encrypt st enc) (Body p False) = Ok src"
    and "fs_should_encrypt st enc \<Longrightarrow> fs_can_encrypt E C"
  shows "\<exists>st' om. fs_put_object E C st b k (Body p False) ct um enc = (st', Ok om) \<and>
    fs_get_object E C' (fs_drive st') b k = Ok (om, Body p False) \<and> om_size om = length p \<and> fs_ready b k (fs_drive st')"
proof -
  let ?e = "fs_should_encrypt st enc"
  let ?p = "fs_payload E C ?e (Body p False)"
  let ?m = "put_meta (put_etag E C ?e ?p) (put_size E ?e ?p) ct um (fc_now C) ?e"
  note dec = fs_decrypts_payload [OF assms(5,6)]
  have src: "fs_encrypt_source E C ?e (Body p False) = Ok (Body ?p False)" using assms(5) dec(1) by simp
  obtain st' vid where put: "fs_put_object E C st b k (Body p False) ct um enc = (st', Ok (stored_to_meta k (?m vid)))"
    "fs_ready b k (fs_drive st')" "file_at (fs_drive st') (obj_comps b k) = Some (Bytes ?p)"
    "file_at (fs_drive st') (meta_comps b k) = Some (StoredDoc (?m vid))"
  proof (cases "mode = Off")
    case True
    then have off: "versioning_mode (fs_drive st) b = Off" "file_at (fs_drive st) (hist_comps b k) = None" using assms(3,4) by auto
    show ?thesis using put_step_off [OF assms(1,2) off src refl] that by blast
  next
    case False
    then have fr: "fresh_vid mode (fc_uuid C 1) (fs_versions b k (fs_drive st))" using assms(4) by simp
    show ?thesis using put_step [OF assms(1,2,3) False fr src refl] that by blast
  qed
  note a = fs_readyD(2) [OF put(2)] and k = fs_readyD(1) [OF put(2)]
  have "fs_get_object E C' (fs_drive st') b k = Ok (stored_to_meta k (?m vid), Body p False)"
    using put(3,4) dec(2) a
    by (simp add: fs_get_object_def fs_body_def read_stored_def fs_paths [OF k] arena_read arena_stat arena_open Let_def put_meta_def)
  then show ?thesis using put(1,2) dec(3) by (simp add: stored_to_meta_def put_meta_def)
qed

theorem fs_put_then_get_witness:
  "\<exists>om. fs_get_object ex_fs_env (ex_fs_ctx [] [])
     (fs_drive (fst (fs_put_object ex_fs_env (ex_fs_ctx ''t'' ''v'') ex_fs ''bkt'' ''k'' (Body [1, 2] False) ''text/plain'' [] True))) ''bkt'' ''k''
     = Ok (om, Body [1, 2] False)"
proof -
  note ex = ex_fs_ready [OF ex_fs_key]
  let ?C = "ex_fs_ctx ''t'' ''v''"
  have h: "fs_ready ''bkt'' ''k'' (fs_drive ex_fs)" "plain_comp (fc_uuid ?C 0)" "versioning_mode (fs_drive ex_fs) ''bkt'' = Enabled"
    "if Enabled = Off then file_at (fs_drive ex_fs) (hist_comps ''bkt'' ''k'') = None
     else fresh_vid Enabled (fc_uuid ?C 1) (fs_versions ''bkt'' ''k'' (fs_drive ex_fs))"
    using ex by (simp_all add: ex_fs_def ex_fs_ctx_def plain_comp_def fresh_vid_def vnames_iff)
  obtain src where "fs_encrypt_source ex_fs_env ?C (fs_should_encrypt ex_fs True) (Body [1, 2] False) = Ok src"
    using ex_fs_encrypts(2) [of "''t''" "''v''" "[1, 2]"] by (auto simp: fs_should_encrypt_def)
  from fs_put_then_get [OF h this ex_fs_encrypts(1), where ct = "''text/plain''" and um = "[]" and C' = "ex_fs_ctx [] []"]
  show ?thesis by (metis fst_conv)
qed

section \<open>The layout of a key's history\<close>

text \<open>
  C10: the documented invariant of a version history holds after any run: ids are distinct; when the newest
  version is a real one the current payload is there, otherwise it is not; and the archive holds a payload for
  exactly the real versions below the newest, each under its own id.
\<close>

theorem fs_history_invariant:
  assumes "fs_ready b k (fs_drive st)" and "versioning_mode (fs_drive st) b = mode" and "mode \<noteq> Off"
    and "permitted (op_ok E mode (fs_encrypt_all st)) (log_op E k mode (fs_encrypt_all st)) (fs_versions b k (fs_drive st)) ops"
    and "d' = fs_drive (fst (run_ops (fs_exec E b k) st ops))" and "fs_has_history d' b k" and "vs = fs_read_history d' b k"
  shows "distinct (map fe_version_id vs) \<and>
    (drive_stat d' (fs_object_path b k) = Some False \<longleftrightarrow> head_occupied vs) \<and>
    (\<forall>v \<in> vnames. drive_stat d' (fs_version_data_path b k v) = Some False \<longleftrightarrow>
      (\<exists>e \<in> set (tl vs). fe_version_id e = v \<and> \<not> fe_delete_marker e))"
proof -
  have "log_ready b k mode (fs_encrypt_all st) st" using assms(1-3) by (simp add: log_ready_def)
  from fs_log.run(1) [OF this assms(4)] have r: "fs_ready b k d'" by (simp add: log_ready_def assms(5))
  note k = fs_readyD(1) [OF r] and a = fs_readyD(2) [OF r]
  obtain s A h where sl: "slots_are b k d' s A h" by (simp add: slots_are_def)
  have h: "h \<noteq> None"
    using assms(6) slots_areD(3) [OF sl] a by (cases h) (simp_all add: fs_has_history_def fs_paths [OF k] arena_stat)
  have vs: "vs = hist_of h" using assms(7) read_history_at [OF a k sl] by simp
  have ok: "slots_ok s A vs" using versions_at(2) [OF sl] fs_readyD(3) [OF r] h by (auto simp: vs)
  have "drive_stat d' (fs_object_path b k) = Some False \<longleftrightarrow> fst s \<noteq> None"
    using a slots_areD(1) [OF sl] by (simp add: fs_paths [OF k] arena_stat split: option.split)
  moreover have "drive_stat d' (fs_version_data_path b k v) = Some False \<longleftrightarrow>
      (\<exists>e \<in> set (tl vs). fe_version_id e = v \<and> \<not> fe_delete_marker e)" if v: "v \<in> vnames" for v
  proof -
    have "drive_stat d' (fs_version_data_path b k v) = Some False \<longleftrightarrow> fst (A v) \<noteq> None"
      using a v slots_areD(4) [OF sl v] by (simp add: fs_paths [OF k] arena_stat split: option.split)
    also have "\<dots> \<longleftrightarrow> (\<exists>e \<in> set (tl vs). fe_version_id e = v \<and> \<not> fe_delete_marker e)"
    proof -
      have ao: "archive_ok A (tl vs)" using ok by (simp add: slots_ok_def)
      show ?thesis
      proof
        assume "fst (A v) \<noteq> None"
        then have "A v \<noteq> (None, None)" by auto
        then show "\<exists>e \<in> set (tl vs). fe_version_id e = v \<and> \<not> fe_delete_marker e" using ao by (simp add: archive_ok_def)
      next
        assume "\<exists>e \<in> set (tl vs). fe_version_id e = v \<and> \<not> fe_delete_marker e"
        then show "fst (A v) \<noteq> None" using ao by (auto simp: archive_ok_def)
      qed
    qed
    finally show ?thesis .
  qed
  ultimately show ?thesis using ok slots_ok_distinct [OF ok] by (simp add: slots_ok_def)
qed

lemma marker_on_top:
  assumes r: "fs_ready b k d" and v: "fs_versions b k d = (v, None) # rows"
  shows "fs_has_history d b k" "\<not> head_occupied (fs_read_history d b k)"
proof -
  note k = fs_readyD(1) [OF r] and a = fs_readyD(2) [OF r]
  obtain s A h where sl: "slots_are b k d s A h" by (simp add: slots_are_def)
  have rows: "h \<noteq> None" "rows_of s A (hist_of h) = (v, None) # rows"
    using v versions_at(1) [OF sl] by (cases h; auto split: if_splits)+
  then show "fs_has_history d b k"
    using slots_areD(3) [OF sl] a by (auto simp: fs_has_history_def fs_paths [OF k] arena_stat)
  show "\<not> head_occupied (fs_read_history d b k)"
    using rows(2) read_history_at [OF a k sl] by (cases "hist_of h") (auto simp: entry_row_def split: if_splits)
qed

theorem fs_history_invariant_witness:
  "drive_stat (fs_drive (fst (run_ops (fs_exec ex_fs_env ''bkt'' ''k'') ex_fs [MarkOp (ex_fs_ctx ''v1'' [])])))
     (fs_object_path ''bkt'' ''k'') \<noteq> Some False"
proof -
  note ex = ex_fs_ready [OF ex_fs_key] and st = ex_fs_def
  let ?ops = "[MarkOp (ex_fs_ctx ''v1'' [])]"
  let ?d = "fs_drive (fst (run_ops (fs_exec ex_fs_env ''bkt'' ''k'') ex_fs ?ops))"
  have p: "permitted (op_ok ex_fs_env Enabled False) (log_op ex_fs_env ''k'' Enabled False) [] ?ops"
    by (simp add: ex_fs_ctx_def fresh_vid_def vnames_iff plain_comp_def)
  have "log_ready ''bkt'' ''k'' Enabled False ex_fs" using ex by (simp add: log_ready_def st)
  note run = fs_log.run [OF this, of ex_fs_env ?ops] 
  have "fs_versions ''bkt'' ''k'' ?d = [(''v1'', None)]" "fs_ready ''bkt'' ''k'' ?d"
    using run ex(2) p by (simp_all add: st log_ready_def push_row_def new_vid_def kept_rows_def ex_fs_ctx_def)
  note c = marker_on_top [OF this(2,1)]
  show ?thesis
    using fs_history_invariant [of "''bkt''" "''k''" ex_fs Enabled ex_fs_env ?ops, OF _ _ _ _ refl c(1) refl] ex p c(2) by (simp add: st)
qed

end
