(* ===== verification/Hazard_Props.thy ===== *)
theory Hazard_Props
  imports Gateway_Props Fs_Props
begin

text \<open>
  Requests that reach further than they name: upload ids that are paths, sidecars that are other objects'
  metadata, and pages of versions that end in the middle of a key.
\<close>

section \<open>Upload ids\<close>

lemma components_slash_first: "components (''/'' @ s) = components s"
  by (simp add: components_def)

lemma pjoin_absolute: "plain_path q \<Longrightarrow> pjoin p (''/'' @ join_with ''/'' q) = PathBuf True q"
  by (simp add: pjoin_def path_new_def starts_with_def components_slash_first [simplified] components_join)

lemma plain_path_all_safe: "plain_path q \<Longrightarrow> safe q"
  by (auto simp: plain_path_def safe_def list_all_iff plain_comp_def)

lemma absolute_reach:
  assumes "healthy d" "plain_path q"
  shows "reach d op (PathBuf True q) = Some (q, lookup (drv_fs d) q)"
  using assms plain_path_all_safe [OF assms(2)]
  by (simp add: reach_def healthy_def locate_def drive_abs_def resolve_safe)

lemma remove_absolute:
  assumes "healthy d" "plain_path q" "q \<noteq> []" "lookup (drv_fs d) q = Some Dir"
  shows "drive_stat d (PathBuf True q) = Some True"
    "drive_remove_dir_all d (PathBuf True q) = (d\<lparr>drv_fs := remove_tree q (drv_fs d)\<rparr>, True)"
    "lookup (remove_tree q (drv_fs d)) = (\<lambda>r. if prefix q r then None else lookup (drv_fs d) r)"
  using assms by (auto simp: drive_stat_def drive_remove_dir_all_def absolute_reach lookup_remove_tree fun_eq_iff)

lemma slash_upload_drive: "upload_drive ds (''/'' @ s) = 0"
proof -
  have "digit_value (CHR ''/'') = None" by code_simp
  then show ?thesis by (cases s) (simp_all add: upload_drive_def parse_radix_def)
qed

text \<open>
  C18: the upload id of an abort is used as a path.  A \<open>DELETE\<close> of any key with \<open>uploadId\<close> set to an absolute
  path removes that directory with all it holds, anywhere in the file system, whatever object and bucket
  the request names; the filesystem backend does the same.
\<close>

theorem abort_upload_escapes:
  assumes "map_of (parse_query (ap_http A) query) ''uploadId'' = Some (''/'' @ join_with ''/'' q)" and "k \<noteq> []"
    and "plain_path q" and "q \<noteq> []"
    and "st_drives st = d # ds" and "healthy d" and "lookup (drv_fs d) q = Some Dir"
    and "healthy (fs_drive sf)" and "lookup (drv_fs (fs_drive sf)) q = Some Dir"
  shows "delete_object_dispatch A C now st b k query =
      (st\<lparr>st_drives := d\<lparr>drv_fs := remove_tree q (drv_fs d)\<rparr> # ds\<rparr>, status_reply 204) \<and>
    fs_abort_multipart sf b k (''/'' @ join_with ''/'' q) =
      (sf\<lparr>fs_drive := (fs_drive sf)\<lparr>drv_fs := remove_tree q (drv_fs (fs_drive sf))\<rparr>\<rparr>, Ok ()) \<and>
    (\<forall>r. lookup (remove_tree q (drv_fs d)) r = (if prefix q r then None else lookup (drv_fs d) r))"
proof -
  let ?id = "''/'' @ join_with ''/'' q"
  have dirs: "r_upload ?id = PathBuf True q" "fs_upload_dir b ?id = PathBuf True q"
    by (simp_all only: r_upload_def fs_upload_dir_def pjoin_absolute [OF assms(3)])
  note rm = remove_absolute [OF assms(6,3,4,7)] remove_absolute [OF assms(8,3,4,9)]
  have "upload_drive (d # ds) ?id = 0" by (rule slash_upload_drive)
  then have "abort_multipart st b k ?id = (st\<lparr>st_drives := d\<lparr>drv_fs := remove_tree q (drv_fs d)\<rparr> # ds\<rparr>, Ok ())"
    using rm(1,2) assms(5) by (simp only: abort_multipart_def dirs on_drive_def Let_def) simp
  then have "delete_object_dispatch A C now st b k query =
      (st\<lparr>st_drives := d\<lparr>drv_fs := remove_tree q (drv_fs d)\<rparr> # ds\<rparr>, status_reply 204)"
    using assms(1,2) by (simp add: delete_object_dispatch_def mp_abort_def)
  moreover have "fs_abort_multipart sf b k ?id =
      (sf\<lparr>fs_drive := (fs_drive sf)\<lparr>drv_fs := remove_tree q (drv_fs (fs_drive sf))\<rparr>\<rparr>, Ok ())"
    using rm(4,5) by (simp only: fs_abort_multipart_def dirs Let_def) (simp add: with_drive_def)
  ultimately show ?thesis using rm(3) by simp
qed

theorem abort_upload_escapes_witness:
  "delete_object_dispatch ex_app (ex_ctx ''u'') 0 ex_shared ''reports'' ''k'' (Some ''uploadId=/d0/secret'') =
     (ex_shared\<lparr>st_drives := (ex_shared_drive ''d0'')\<lparr>drv_fs := remove_tree [''d0'', ''secret''] (drv_fs (ex_shared_drive ''d0''))\<rparr>
        # [ex_shared_drive ''d1'']\<rparr>, status_reply 204) \<and>
   look (ex_shared_drive ''d0'') [''secret'', ''x'', XL_META] \<noteq> None"
proof -
  have h: "map_of (parse_query (ap_http ex_app) (Some ''uploadId=/d0/secret'')) ''uploadId'' = Some (''/'' @ join_with ''/'' [''d0'', ''secret''])"
    "plain_path [''d0'', ''secret'']" "lookup (drv_fs (ex_shared_drive ''d0'')) [''d0'', ''secret''] = Some Dir"
    "look (ex_shared_drive ''d0'') [''secret'', ''x'', XL_META] \<noteq> None"
    by code_simp+
  have d: "st_drives ex_shared = ex_shared_drive ''d0'' # [ex_shared_drive ''d1'']" by (simp add: ex_shared_def)
  have ok: "healthy (ex_shared_drive ''d0'')" using ex_shared_healthy d by simp
  let ?sf = "\<lparr> fs_drive = ex_shared_drive ''d0'', fs_encrypt_all = False \<rparr>"
  show ?thesis
    using abort_upload_escapes [OF h(1) _ h(2) _ d ok h(3), of "''k''" ?sf] ok h(3,4) by simp
qed

section \<open>Sidecars\<close>

text \<open>
  The tags of an object are the metadata of another.  Tagging \<open>k\<close> in the filesystem backend succeeds and
  overwrites the metadata of the object \<open>k.tags\<close>: that object then reads as its raw stored bytes, an encrypted
  one as its container, with no ETag, content type or user metadata of its own.
\<close>

theorem fs_tags_overwrite_metadata:
  assumes "fs_ready b (k @ ''.tags'') (fs_drive st)" and "file_at (fs_drive st) (obj_comps b (k @ ''.tags'')) = Some c"
    and "is_ok (fs_head_object E C (fs_drive st) b k)"
  shows "\<exists>st' m. fs_set_object_tags E C st b k tags = (st', Ok ()) \<and>
    fs_get_object E C (fs_drive st') b (k @ ''.tags'') = Ok (m, Body (raw_bytes E c) False) \<and>
    om_etag m = [] \<and> om_content_type m = ''application/octet-stream'' \<and> om_user_metadata m = [] \<and> \<not> om_encrypted m"
proof -
  let ?k = "k @ ''.tags''"
  note k = fs_readyD(1) [OF assms(1)] and a = fs_readyD(2) [OF assms(1)]
  have "strip_suffix ''/'' ?k = None" by (auto simp: strip_suffix_Some not_Some_eq [symmetric])
  then have "fs_object_sidecar b k ''tags.json'' = fs_meta_path b ?k" by (simp add: fs_object_sidecar_def fs_meta_path_def)
  then have p: "fs_object_sidecar b k ''tags.json'' = PathBuf False (meta_comps b ?k)" by (simp add: fs_paths [OF k])
  obtain d' where d': "save_file (fs_drive st) (PathBuf False (meta_comps b ?k)) (TagsDoc tags) ''sidecar'' = (d', Ok ())"
    "moves b ?k (fs_drive st) d' ((file_at (fs_drive st))(meta_comps b ?k := Some (TagsDoc tags)))"
    using moves_save [OF a, of "meta_comps b ?k"] by auto
  have "fs_set_object_tags E C st b k tags = (st\<lparr>fs_drive := d'\<rparr>, Ok ())"
    using assms(3) d'(1) by (auto simp: fs_set_object_tags_def fs_set_side_def write_obj_sidecar_def p with_drive_def split: sum.splits)
  moreover have "file_at d' (obj_comps b ?k) = Some c" "file_at d' (meta_comps b ?k) = Some (TagsDoc tags)"
    using assms(2) movesD(2) [OF d'(2)] slots_sep [OF k] by auto
  then have "\<exists>m. fs_get_object E C d' b ?k = Ok (m, Body (raw_bytes E c) False) \<and>
    om_etag m = [] \<and> om_content_type m = ''application/octet-stream'' \<and> om_user_metadata m = [] \<and> \<not> om_encrypted m"
    using movesD(1) [OF d'(2)]
    by (simp add: fs_get_object_def fs_body_def read_stored_def fs_paths [OF k] arena_read arena_stat arena_open Let_def
        meta_from_stat_def fs_decrypt_source_def stored_to_meta_def)
  ultimately show ?thesis by auto
qed

text \<open>An encrypted object \<open>n.tags\<close>, stored beside \<open>n\<close>.\<close>

definition ex_fs_tagged :: "fs_store \<times> object_meta result" where
  "ex_fs_tagged = fs_put_object ex_fs_env (ex_fs_ctx ''t'' ''v'') ex_fs ''bkt'' (''n'' @ ''.tags'') (Body [1, 2] False) ''text/plain'' [] True"

lemma put_facts:
  fixes ct um
  assumes "fs_ready b k (fs_drive st)" "plain_comp (fc_uuid C 0)" "versioning_mode (fs_drive st) b = mode" "mode \<noteq> Off"
    and "fresh_vid mode (fc_uuid C 1) (fs_versions b k (fs_drive st))"
    and "fs_encrypt_source E C (fs_should_encrypt st enc) bd = Ok (Body p False)"
  defines "d' \<equiv> fs_drive (fst (fs_put_object E C st b k bd ct um enc))"
  shows "fs_ready b k d'" "file_at d' (obj_comps b k) = Some (Bytes p)"
    "q \<notin> slot_paths b k \<Longrightarrow> q \<noteq> temp_comps (fc_uuid C 0) \<Longrightarrow> file_at d' q = file_at (fs_drive st) q"
proof -
  obtain st' om where "fs_put_object E C st b k bd ct um enc = (st', Ok om)" "fs_ready b k (fs_drive st')"
    "\<And>q. q \<notin> slot_paths b k \<Longrightarrow> q \<noteq> temp_comps (fc_uuid C 0) \<Longrightarrow> file_at (fs_drive st') q = file_at (fs_drive st) q"
    "file_at (fs_drive st') (obj_comps b k) = Some (Bytes p)"
    using put_step [OF assms(1-6) refl] by blast
  then show "fs_ready b k d'" "file_at d' (obj_comps b k) = Some (Bytes p)"
    "q \<notin> slot_paths b k \<Longrightarrow> q \<noteq> temp_comps (fc_uuid C 0) \<Longrightarrow> file_at d' q = file_at (fs_drive st) q"
    by (simp_all add: d'_def)
qed

lemma ex_fs_tagged_facts:
  "fs_ready ''bkt'' (''n'' @ ''.tags'') (fs_drive (fst ex_fs_tagged))"
  "file_at (fs_drive (fst ex_fs_tagged)) (obj_comps ''bkt'' (''n'' @ ''.tags'')) =
     Some (Bytes (fs_payload ex_fs_env (ex_fs_ctx ''t'' ''v'') True (Body [1, 2] False)))"
  "is_ok (fs_head_object ex_fs_env (ex_fs_ctx [] []) (fs_drive (fst ex_fs_tagged)) ''bkt'' ''n'')"
proof -
  let ?C = "ex_fs_ctx ''t'' ''v''" and ?k = "''n'' @ ''.tags''"
  let ?p = "fs_payload ex_fs_env ?C True (Body [1, 2] False)"
  have key: "fs_key ''bkt'' ?k" "\<not> prefix [''bkt'', ''n''] (obj_comps ''bkt'' ?k)" by code_simp+
  note ex = ex_fs_ready [OF key]
  have h: "fs_ready ''bkt'' ?k (fs_drive ex_fs)" "plain_comp (fc_uuid ?C 0)" "versioning_mode (fs_drive ex_fs) ''bkt'' = Enabled"
    "fresh_vid Enabled (fc_uuid ?C 1) (fs_versions ''bkt'' ?k (fs_drive ex_fs))"
    using ex by (simp_all add: ex_fs_def ex_fs_ctx_def plain_comp_def fresh_vid_def vnames_iff)
  have src: "fs_encrypt_source ex_fs_env ?C (fs_should_encrypt ex_fs True) (Body [1, 2] False) = Ok (Body ?p False)"
  proof -
    obtain src where s: "fs_encrypt_source ex_fs_env ?C True (Body [1, 2] False) = Ok src"
      using ex_fs_encrypts(2) [of "''t''" "''v''" "[1, 2]"] by auto
    show ?thesis using s fs_decrypts_payload(1) [OF s ex_fs_encrypts(1)] by (simp add: fs_should_encrypt_def)
  qed
  note put = put_facts [OF h(1-3) version_mode.distinct(2) h(4) src, where ct = "''text/plain''" and um = "[]", folded ex_fs_tagged_def]
  show "fs_ready ''bkt'' ?k (fs_drive (fst ex_fs_tagged))" by (rule put(1))
  show "file_at (fs_drive (fst ex_fs_tagged)) (obj_comps ''bkt'' ?k) = Some (Bytes ?p)" by (rule put(2))
  have "[''bkt'', ''n''] \<notin> key_paths ''bkt'' ?k"
  proof -
    have "obj_comps ''bkt'' ?k = [''bkt'', ?k]" "meta_comps ''bkt'' ?k = [SYS_DIR, ''meta'', ''bkt'', ?k @ ''.json'']"
      "ver_comps ''bkt'' ?k = [SYS_DIR, ''versions'', ''bkt'', ?k]" by code_simp+
    then show ?thesis by (auto simp: key_paths_def hist_comps_def data_comps_def vmeta_comps_def temp_comps_def)
  qed
  then have "file_at (fs_drive (fst ex_fs_tagged)) [''bkt'', ''n''] = Some (Bytes [9])"
    using put(3) [of "[''bkt'', ''n'']"] by (simp add: slot_paths_def key_paths_def temp_comps_def ex_fs_def file_at_def ex_fs_look mode_comps_def SYS_DIR_def)
  then have "drive_stat (fs_drive (fst ex_fs_tagged)) (PathBuf False [''bkt'', ''n'']) = Some False"
    using arenaD(1,2) [OF fs_readyD(2) [OF put(1)]] by (simp add: drive_stat_eq file_at_Some safe_def healthy_def)
  moreover have "fs_object_path ''bkt'' ''n'' = PathBuf False [''bkt'', ''n'']" by code_simp
  ultimately show "is_ok (fs_head_object ex_fs_env (ex_fs_ctx [] []) (fs_drive (fst ex_fs_tagged)) ''bkt'' ''n'')"
    by (simp add: fs_head_object_def load_meta_def read_stored_def Let_def split: option.split)
qed

theorem fs_tags_overwrite_metadata_witness:
  "\<exists>c m. fs_get_object ex_fs_env (ex_fs_ctx [] [])
      (fs_drive (fst (fs_set_object_tags ex_fs_env (ex_fs_ctx [] []) (fst ex_fs_tagged) ''bkt'' ''n'' [(''a'', ''b'')]))) ''bkt'' ''n.tags''
    = Ok (m, Body c False) \<and> c \<noteq> [1, 2] \<and> \<not> om_encrypted m"
proof -
  let ?c = "fs_payload ex_fs_env (ex_fs_ctx ''t'' ''v'') True (Body [1, 2] False)"
  have "put_size ex_fs_env True ?c = 2"
    using ex_fs_encrypts(2) [of "''t''" "''v''" "[1, 2]"] fs_decrypts_payload(3) [OF _ ex_fs_encrypts(1), of "''t''" "''v''" True "[1, 2]"]
    by auto
  moreover have "put_size ex_fs_env True [1, 2] = 0"
    by (simp add: put_size_def plaintext_len_def ctx_header_len_def)
  ultimately have "?c \<noteq> [1, 2]" by auto
  with fs_tags_overwrite_metadata [OF ex_fs_tagged_facts, of "[(''a'', ''b'')]"] show ?thesis by fastforce
qed

section \<open>Pages of versions\<close>

lemma take_rows_all: "take_rows vm False room evs out =
  (out @ take (room - length out) evs, if length evs \<le> room - length out then None else Some (evs ! (room - length out)))"
proof (induction evs arbitrary: out)
  case (Cons ev evs)
  show ?case
  proof (cases "room \<le> length out")
    case False
    then have "room - length out = Suc (room - length (out @ [ev]))" by simp
    then show ?thesis using Cons False by simp
  qed simp
qed simp

lemma take_rows_keys:
  "take_rows vm resume room evs out = (out', e) \<Longrightarrow> set out' \<subseteq> set out \<union> set evs"
  by (induction vm resume room evs out rule: take_rows.induct) (fastforce split: if_splits)+

text \<open>A first page that ends before a version holds the versions of its key up to that one.\<close>

lemma first_page_cut:
  assumes "fs_versions_loop pre delim None None mx rows keys True out common = Ok l" and "vl_next_version_id_marker l = Some v"
    and "distinct keys" and "\<forall>r \<in> set out. ov_key r \<notin> set keys" and "\<And>k evs r. rows k = Ok evs \<Longrightarrow> r \<in> set evs \<Longrightarrow> ov_key r = k"
  shows "\<exists>k evs i. vl_next_key_marker l = Some k \<and> rows k = Ok evs \<and> i < length evs \<and> ov_version_id (evs ! i) = v \<and>
    filter (\<lambda>r. ov_key r = k) (vl_versions l) = take i evs"
  using assms(1,3,4)
proof (induction keys arbitrary: out common)
  case Nil
  then show ?case using assms(2) by (auto simp: full_page_def)
next
  case (Cons key keys)
  have out: "\<forall>r \<in> set out. ov_key r \<notin> set keys" using Cons.prems(3) by simp
  show ?case
  proof (cases "common_prefix pre delim key")
    case (Some cp)
    then show ?thesis
      using Cons.prems(1,2) Cons.IH [OF _ _ out] assms(2) by (auto simp: key_started_def full_page_def split: if_splits)
  next
    case None
    obtain evs where evs: "rows key = Ok evs" using Cons.prems(1) None by (auto simp: key_started_def split: sum.splits)
    let ?n = "mx - length common - length out"
    have keys: "\<forall>r \<in> set evs. ov_key r = key" using assms(5) [OF evs] by blast
    show ?thesis
    proof (cases "length evs \<le> ?n")
      case True
      then have "fs_versions_loop pre delim None None mx rows keys True (out @ evs) common = Ok l"
        using Cons.prems(1) None evs by (simp add: key_started_def take_rows_all)
      moreover have "\<forall>r \<in> set (out @ evs). ov_key r \<notin> set keys" using out keys Cons.prems(2) by auto
      ultimately show ?thesis using Cons.IH Cons.prems(2) by simp
    next
      case False
      then have i: "evs ! ?n \<in> set evs" by simp
      have "l = full_page (out @ take ?n evs) common (Some (ov_key (evs ! ?n))) (Some (ov_version_id (evs ! ?n)))"
        using Cons.prems(1) None evs False by (simp add: key_started_def take_rows_all)
      moreover have "filter (\<lambda>r. ov_key r = key) out = []" using Cons.prems(3) by (auto simp: filter_empty_conv)
      moreover have "filter (\<lambda>r. ov_key r = key) (take ?n evs) = take ?n evs"
        using keys by (auto simp: filter_id_conv dest: in_set_takeD)
      ultimately show ?thesis using evs False keys i assms(2) by (intro exI [of _ key] exI [of _ evs] exI [of _ ?n]) (simp add: full_page_def)
    qed
  qed
qed

text \<open>The page after a version marker skips the marker's key altogether.\<close>

lemma next_page_skips:
  assumes "fs_versions_loop pre delim (Some k) (Some v) mx rows keys started out common = Ok l"
    and "started \<Longrightarrow> k \<notin> set keys" and "sorted keys" "distinct keys" and "\<forall>r \<in> set out. ov_key r \<noteq> k"
    and "\<And>k evs r. rows k = Ok evs \<Longrightarrow> r \<in> set evs \<Longrightarrow> ov_key r = k"
  shows "\<forall>r \<in> set (vl_versions l). ov_key r \<noteq> k"
  using assms(1-5)
proof (induction keys arbitrary: started out common)
  case Nil
  then show ?case by (auto simp: full_page_def)
next
  case (Cons key keys)
  note IH = Cons.IH [OF _ _ _ _ Cons.prems(5)] and srt = Cons.prems(3,4)
  show ?case
  proof (cases "key_started (Some k) started key")
    case False
    then have "fs_versions_loop pre delim (Some k) (Some v) mx rows keys started out common = Ok l" using Cons.prems(1) by simp
    moreover have "\<not> started" using False by (simp add: key_started_def)
    ultimately show ?thesis using IH [of started common] srt by simp
  next
    case True
    have ne: "key \<noteq> k" "k \<notin> set keys"
      using True Cons.prems(2) srt by (auto simp: key_started_def)
    show ?thesis
    proof (cases "common_prefix pre delim key")
      case (Some cp)
      then show ?thesis
        using Cons.prems(1,5) True ne srt IH [of True common] IH [of True "common @ [cp]"] by (auto simp: full_page_def split: if_splits)
    next
      case None
      obtain evs where evs: "rows key = Ok evs" using Cons.prems(1) None True by (auto split: sum.splits)
      obtain out' e where t: "take_rows (Some v) False (mx - length common) evs out = (out', e)" by fastforce
      have out': "\<forall>r \<in> set out'. ov_key r \<noteq> k" using take_rows_keys [OF t] Cons.prems(5) assms(6) [OF evs] ne by blast
      show ?thesis
        using Cons.prems(1) None True evs t ne srt out' Cons.IH [of True out' common]
        by (cases e) (auto simp: full_page_def)
    qed
  qed
qed

lemma key_versions_key: "fs_key_versions E C d b vs k = Ok evs \<Longrightarrow> r \<in> set evs \<Longrightarrow> ov_key r = k"
  by (auto simp: fs_key_versions_def version_rows_def split: if_splits sum.splits)

text \<open>
  Paging over the versions of a key loses versions.  When a page of the filesystem backend ends before a
  version \<open>v\<close> of a key, it holds that key's versions up to \<open>v\<close>, and the page that the returned markers ask for
  holds none of the key, so \<open>v\<close> and all older versions are never listed.
\<close>

theorem fs_version_pages_lose:
  assumes "fs_list_object_versions E C d b pre delim None None mx = Ok l" and "vl_next_version_id_marker l = Some v"
  shows "\<exists>k vs evs i. vl_next_key_marker l = Some k \<and> fs_key_versions E C d b vs k = Ok evs \<and>
    i < length evs \<and> ov_version_id (evs ! i) = v \<and> filter (\<lambda>r. ov_key r = k) (vl_versions l) = take i evs \<and>
    (\<forall>mx' l'. fs_list_object_versions E C d b pre delim (Some k) (Some v) mx' = Ok l' \<longrightarrow>
      filter (\<lambda>r. ov_key r = k) (vl_versions l') = [])"
proof -
  obtain ves bes where w: "fs_head_bucket d b = Ok ()" "drive_walk d (pjoin fs_versions_root b) = Some ves"
    "drive_walk d (fs_bucket_path b) = Some bes"
    using assms(1) by (auto simp: fs_list_object_versions_def split: sum.splits option.splits)
  define vs where "vs = history_keys ves"
  define keys where "keys = sort (remdups (filter (\<lambda>k. starts_with k pre) (vs @ filter (\<lambda>k. k \<notin> set vs) (payload_keys bes))))"
  have page: "fs_list_object_versions E C d b pre delim km vm n =
      fs_versions_loop pre delim km vm n (fs_key_versions E C d b vs) keys (km = None) [] []" for km vm n
    using w by (simp add: fs_list_object_versions_def vs_def keys_def Let_def)
  have keys: "sorted keys" "distinct keys" by (simp_all add: keys_def)
  obtain k evs i where f: "vl_next_key_marker l = Some k" "fs_key_versions E C d b vs k = Ok evs" "i < length evs"
    "ov_version_id (evs ! i) = v" "filter (\<lambda>r. ov_key r = k) (vl_versions l) = take i evs"
    using first_page_cut [OF _ assms(2) keys(2), of pre delim mx "fs_key_versions E C d b vs" "[]" "[]"] assms(1)
      key_versions_key [of E C d b vs] by (auto simp: page)
  have "filter (\<lambda>r. ov_key r = k) (vl_versions l') = []"
    if "fs_list_object_versions E C d b pre delim (Some k) (Some v) mx' = Ok l'" for mx' l'
    using next_page_skips [OF _ _ keys, of pre delim k v mx' "fs_key_versions E C d b vs" False "[]" "[]" l'] that
      key_versions_key [of E C d b vs] by (auto simp: page filter_empty_conv)
  with f show ?thesis by blast
qed

definition ex_paged :: drive where
  "ex_paged = drive_new [''r'']
     [([''r''], Dir), ([''r'', ''bkt''], Dir), ([''r'', SYS_DIR], Dir), ([''r'', SYS_DIR, ''versions''], Dir),
      ([''r'', SYS_DIR, ''versions'', ''bkt''], Dir), ([''r'', SYS_DIR, ''versions'', ''bkt'', ''k''], Dir),
      ([''r'', SYS_DIR, ''versions'', ''bkt'', ''k'', ''kp.history.json''],
       File (VersionsDoc [fs_marker (ex_fs_ctx [] []) ''v2'', fs_marker (ex_fs_ctx [] []) ''v1'']))]"

theorem fs_version_pages_lose_witness:
  "\<exists>l l'. fs_list_object_versions ex_fs_env (ex_fs_ctx [] []) ex_paged ''bkt'' [] None None None 1 = Ok l \<and>
    map ov_version_id (vl_versions l) = [''v2''] \<and> vl_next_version_id_marker l = Some ''v1'' \<and> vl_next_key_marker l = Some ''k'' \<and>
    fs_list_object_versions ex_fs_env (ex_fs_ctx [] []) ex_paged ''bkt'' [] None (Some ''k'') (Some ''v1'') 1 = Ok l' \<and>
    filter (\<lambda>r. ov_key r = ''k'') (vl_versions l') = []"
proof -
  let ?list = "fs_list_object_versions ex_fs_env (ex_fs_ctx [] []) ex_paged ''bkt'' [] None"
  have p: "(case ?list None None 1 of Ok l \<Rightarrow> map ov_version_id (vl_versions l) = [''v2''] \<and>
      vl_next_version_id_marker l = Some ''v1'' \<and> vl_next_key_marker l = Some ''k'' | Err _ \<Rightarrow> False)"
    "is_ok (?list (Some ''k'') (Some ''v1'') 1)" by code_simp+
  then obtain l l' where l: "?list None None 1 = Ok l" "map ov_version_id (vl_versions l) = [''v2'']"
    "vl_next_version_id_marker l = Some ''v1''" "vl_next_key_marker l = Some ''k''" "?list (Some ''k'') (Some ''v1'') 1 = Ok l'"
    by (auto simp: is_ok_def split: sum.splits)
  from fs_version_pages_lose [OF l(1,3)] l(4,5) have e: "filter (\<lambda>r. ov_key r = ''k'') (vl_versions l') = []" by auto
  show ?thesis by (intro exI [of _ l] exI [of _ l'] conjI; fact l e)
qed

end
