(* ===== verification/Config.thy ===== *)
theory Config
  imports KP_Prelude
begin

text \<open>
  \<open>src/config.rs\<close>: configuration variables with their prefixes, the configuration record and the posture
  \<open>sealed\<close>.  The process environment is a function from names to values; paths are kept as strings.
\<close>

section \<open>Variables\<close>

type_synonym environment = "string \<Rightarrow> string option"

definition ENV_PREFIXES :: "string list" where "ENV_PREFIXES = [''KP_'', ''MYNIO_'', ''MINIO_'']"

definition resolve_var :: "string \<Rightarrow> environment \<Rightarrow> string option" where
  "resolve_var name get = first_some (\<lambda>p. get (p @ name)) ENV_PREFIXES"

definition env_var :: "environment \<Rightarrow> string \<Rightarrow> string option" where
  "env_var env name = resolve_var name env"

definition env_or :: "environment \<Rightarrow> string \<Rightarrow> string \<Rightarrow> string" where
  "env_or env name alt = (case env_var env name of Some v \<Rightarrow> v | None \<Rightarrow> alt)"

text \<open>\<open>filter(|s| !s.trim().is_empty())\<close>.\<close>

definition env_given :: "environment \<Rightarrow> string \<Rightarrow> string option" where
  "env_given env name = (case env_var env name of Some v \<Rightarrow> if trim v = [] then None else Some v | None \<Rightarrow> None)"

definition truthy :: "string \<Rightarrow> bool" where
  "truthy v = (ascii_lowercase v \<in> {''true'', ''1'', ''on''})"

definition falsy :: "string \<Rightarrow> bool" where
  "falsy v = (ascii_lowercase v \<in> {''false'', ''0'', ''off''})"

section \<open>Profiles\<close>

datatype profile = Open | Sealed

fun profile_str :: "profile \<Rightarrow> string" where
  "profile_str Open = ''open''"
| "profile_str Sealed = ''sealed''"

definition parse_profile :: "string \<Rightarrow> string + profile" where
  "parse_profile s =
     (let t = ascii_lowercase (trim s)
      in if t = [] \<or> t = ''open'' then Inr Open
         else if t = ''sealed'' then Inr Sealed
         else Inl (''unknown KP_PROFILE `'' @ t @ ''` (use `open` or `sealed`)''))"

section \<open>The configuration\<close>

record config =
  cf_address :: string
  cf_data_dir :: string
  cf_root_user :: string
  cf_root_password :: string
  cf_region :: string
  cf_auth_enabled :: bool
  cf_console_address :: string
  cf_console_enabled :: bool
  cf_encryption_enabled :: bool
  cf_tls_enabled :: bool
  cf_tls_cert :: "string option"
  cf_tls_key :: "string option"
  cf_minio_compat :: bool
  cf_profile :: profile
  cf_access_log :: "string option"

definition config_from_env :: "environment \<Rightarrow> config" where
  "config_from_env env =
     \<lparr> cf_address = env_or env ''ADDRESS'' ''0.0.0.0:9000'',
       cf_data_dir = env_or env ''DATA_DIR'' ''./data'',
       cf_root_user = env_or env ''ROOT_USER'' ''minioadmin'',
       cf_root_password = env_or env ''ROOT_PASSWORD'' ''minioadmin'',
       cf_region = env_or env ''REGION'' ''us-east-1'',
       cf_auth_enabled = (case env_var env ''AUTH'' of Some v \<Rightarrow> \<not> falsy v | None \<Rightarrow> True),
       cf_console_address = env_or env ''CONSOLE_ADDRESS'' ''0.0.0.0:9001'',
       cf_console_enabled = (case env_var env ''CONSOLE'' of Some v \<Rightarrow> \<not> falsy v | None \<Rightarrow> True),
       cf_encryption_enabled = (case env_var env ''ENCRYPT'' of Some v \<Rightarrow> \<not> falsy v | None \<Rightarrow> True),
       cf_tls_enabled = ((case env_var env ''TLS'' of Some v \<Rightarrow> truthy v | None \<Rightarrow> False)
         \<or> (env_var env ''TLS_CERT'' \<noteq> None \<and> env_var env ''TLS_KEY'' \<noteq> None)),
       cf_tls_cert = env_var env ''TLS_CERT'',
       cf_tls_key = env_var env ''TLS_KEY'',
       cf_minio_compat = (case env_var env ''MINIO_COMPAT'' of Some v \<Rightarrow> \<not> falsy v | None \<Rightarrow> True),
       cf_profile = (case parse_profile (env_or env ''PROFILE'' []) of Inr p \<Rightarrow> p | Inl _ \<Rightarrow> Open),
       cf_access_log = env_var env ''ACCESS_LOG'' \<rparr>"

text \<open>What a sealed deployment still lacks.\<close>

definition sealed_violations :: "environment \<Rightarrow> config \<Rightarrow> string list" where
  "sealed_violations env c =
     (if \<not> cf_auth_enabled c then [''authentication must be enabled (do not set KP_AUTH=false)''] else [])
     @ (if \<not> cf_tls_enabled c
        then [''TLS must be enabled (set KP_TLS=true, optionally KP_TLS_CERT/KP_TLS_KEY)''] else [])
     @ (if \<not> cf_encryption_enabled c then [''at-rest encryption must be enabled (set KP_ENCRYPT=true)''] else [])
     @ (if env_var env ''BACKEND'' = Some ''fs''
        then [''the transparent `fs` backend is not allowed; use the erasure backend''] else [])
     @ (if env_given env ''OIDC_ISSUER'' = None
        then [''external identity must be configured (set KP_OIDC_ISSUER)''] else [])
     @ (if env_or env ''KEY_PROVIDER'' ''file'' = ''file''
        then [''off-host key custody is required: set KP_KEY_PROVIDER=passphrase or kms (not `file`)''] else [])"

lemma sealed_violations_Nil:
  "sealed_violations env c = [] \<longleftrightarrow>
     cf_auth_enabled c \<and> cf_tls_enabled c \<and> cf_encryption_enabled c \<and> env_var env ''BACKEND'' \<noteq> Some ''fs''
     \<and> env_given env ''OIDC_ISSUER'' \<noteq> None \<and> env_or env ''KEY_PROVIDER'' ''file'' \<noteq> ''file''"
  by (simp add: sealed_violations_def)

end
