(* ===== verification/Kms.thy ===== *)
theory Kms
  imports Custody Store_Multipart Auth Config
begin

text \<open>
  The key providers of \<open>src/crypto/provider.rs\<close> that \<open>Crypto\<close> does not hold: the KMS provider with its
  cache of unwrapped keys, the key files of the file provider (\<open>src/crypto/mod.rs\<close>), the choice of a
  provider and its self-report.  Vault, base64 and the certificate parser are arguments; a call of Vault is a
  function from the client, the URL, the token and the body it is sent to its answer; the JSON of the answer is
  read down to the two fields the code looks up.
\<close>

section \<open>What the libraries answer\<close>

text \<open>
  Base64, the display of an HTTP status, the parser of PEM certificates and the builder of an HTTP client
  (\<open>Some e\<close> is the error), the message of the hexadecimal decoder and the check of an encapsulation key.
\<close>

record key_lib =
  kl_base64 :: "string \<Rightarrow> bytes option"
  kl_status :: "nat \<Rightarrow> string"
  kl_pem :: "bytes \<Rightarrow> string option"
  kl_build :: "bytes option \<Rightarrow> bool \<Rightarrow> string option"
  kl_hex_error :: "string \<Rightarrow> string"
  kl_ek_ok :: "bytes \<Rightarrow> bool"

section \<open>Key files\<close>

text \<open>
  The directory of a provider's key files: its files, and the error the operating system answers to a read, to
  the creation of the directory and to a write.
\<close>

record key_dir =
  kd_files :: "(string \<times> bytes) list"
  kd_read_error :: "string \<Rightarrow> string option"
  kd_mkdir_error :: "string option"
  kd_write_error :: "string \<Rightarrow> string option"

definition kd_read :: "key_dir \<Rightarrow> string \<Rightarrow> string + bytes" where
  "kd_read K name =
     (case kd_read_error K name of
        Some e \<Rightarrow> Err e
      | None \<Rightarrow> (case map_of (kd_files K) name of Some c \<Rightarrow> Ok c | None \<Rightarrow> Err ''No such file or directory (os error 2)''))"

definition kd_write :: "key_dir \<Rightarrow> string \<Rightarrow> bytes \<Rightarrow> key_dir \<times> (string + unit)" where
  "kd_write K name c =
     (case kd_write_error K name of
        Some e \<Rightarrow> (K, Err e)
      | None \<Rightarrow> (K\<lparr>kd_files := AList.update name c (kd_files K)\<rparr>, Ok ()))"

definition kd_create :: "key_dir \<Rightarrow> string \<Rightarrow> bytes \<Rightarrow> key_dir \<times> (string + unit)" where
  "kd_create K name c = (case kd_mkdir_error K of Some e \<Rightarrow> (K, Err e) | None \<Rightarrow> kd_write K name c)"

text \<open>\<open>MasterKey::load_or_generate\<close>: a file that cannot be read as text counts as absent.\<close>

definition master_load_or_generate :: "key_lib \<Rightarrow> key_dir \<Rightarrow> string \<Rightarrow> bytes \<Rightarrow> key_dir \<times> (string + bytes)" where
  "master_load_or_generate L K name random =
     (case (case kd_read K name of Ok c \<Rightarrow> if utf8_valid c then Some (bytes_str c) else None | Err _ \<Rightarrow> None) of
        Some contents \<Rightarrow>
          (K, case hex_decode (trim contents) of
                None \<Rightarrow> Err (kl_hex_error L (trim contents))
              | Some raw \<Rightarrow> if length raw \<noteq> 32 then Err ''master key must be 32 bytes'' else Ok raw)
      | None \<Rightarrow>
          (case kd_create K name (str_bytes (hex_encode random)) of
             (K', Err e) \<Rightarrow> (K', Err e)
           | (K', Ok _) \<Rightarrow> (K', Ok random)))"

definition MLKEM_SEED_LEN :: nat where "MLKEM_SEED_LEN = 64"
definition MLKEM_EK_LEN :: nat where "MLKEM_EK_LEN = 1568"

text \<open>\<open>PqKeypair::load_or_generate\<close>: a file that cannot be read, or of another length, counts as absent.\<close>

definition pq_load_or_generate ::
  "key_lib \<Rightarrow> key_dir \<Rightarrow> string \<Rightarrow> pq_keypair \<Rightarrow> key_dir \<times> (string + pq_keypair)" where
  "pq_load_or_generate L K name fresh =
     (case (case kd_read K name of
              Ok c \<Rightarrow> if length c = MLKEM_SEED_LEN + MLKEM_EK_LEN then Some c else None | Err _ \<Rightarrow> None) of
        Some c \<Rightarrow>
          (let ek = drop MLKEM_SEED_LEN c
           in (K, if kl_ek_ok L ek then Ok \<lparr> pq_seed = take MLKEM_SEED_LEN c, pq_ek = ek \<rparr> else Err ''invalid EK''))
      | None \<Rightarrow>
          (case kd_create K name (pq_seed fresh @ pq_ek fresh) of
             (K', Err e) \<Rightarrow> (K', Err e)
           | (K', Ok _) \<Rightarrow> (K', Ok fresh)))"

definition file_load ::
  "key_lib \<Rightarrow> key_dir \<Rightarrow> bytes \<Rightarrow> pq_keypair \<Rightarrow> key_dir \<times> (key_error + file_key_provider)" where
  "file_load L K random fresh =
     (case master_load_or_generate L K ''master.key'' random of
        (K1, Err e) \<Rightarrow> (K1, Err (KUnavailable (''master.key: '' @ e)))
      | (K1, Ok master) \<Rightarrow>
          (case pq_load_or_generate L K1 ''pq.bin'' fresh of
             (K2, Err e) \<Rightarrow> (K2, Err (KUnavailable (''pq.bin: '' @ e)))
           | (K2, Ok pq) \<Rightarrow> (K2, Ok \<lparr> fk_master = master, fk_pq = Some pq \<rparr>)))"

definition PASSPHRASE_SALT_FILE :: string where "PASSPHRASE_SALT_FILE = ''passphrase.salt''"
definition PASSPHRASE_CHECK_FILE :: string where "PASSPHRASE_CHECK_FILE = ''passphrase.check''"

text \<open>\<open>PassphraseKeyProvider::open_or_init\<close> on the files themselves, with every way the writes can fail.\<close>

definition pass_init ::
  "crypto_lib \<Rightarrow> key_dir \<Rightarrow> bytes \<Rightarrow> bytes \<Rightarrow> bytes \<Rightarrow> key_dir \<times> (key_error + bytes)" where
  "pass_init A K passphrase new_salt nonce =
     (case pass_derive A passphrase new_salt of
        Err e \<Rightarrow> (K, Err e)
      | Ok kek \<Rightarrow>
     (case kd_mkdir_error K of
        Some e \<Rightarrow> (K, Err (KUnavailable (''sys dir: '' @ e)))
      | None \<Rightarrow>
     (case kd_write K PASSPHRASE_SALT_FILE new_salt of
        (K1, Err e) \<Rightarrow> (K1, Err (KUnavailable (PASSPHRASE_SALT_FILE @ '': '' @ e)))
      | (K1, Ok _) \<Rightarrow>
     (case kd_write K1 PASSPHRASE_CHECK_FILE (wrap_dek A nonce kek SENTINEL) of
        (K2, Err e) \<Rightarrow> (K2, Err (KUnavailable (PASSPHRASE_CHECK_FILE @ '': '' @ e)))
      | (K2, Ok _) \<Rightarrow> (K2, Ok kek)))))"

definition pass_open_files ::
  "crypto_lib \<Rightarrow> key_dir \<Rightarrow> bytes \<Rightarrow> bytes \<Rightarrow> bytes \<Rightarrow> key_dir \<times> (key_error + bytes)" where
  "pass_open_files A K passphrase new_salt nonce =
     (if passphrase = [] then
        (K, Err (KUnavailable ''the `passphrase` provider needs a non-empty KP_KEY_PASSPHRASE''))
      else case kd_read K PASSPHRASE_SALT_FILE of
        Ok salt \<Rightarrow>
          (K, case pass_derive A passphrase salt of
                Err e \<Rightarrow> Err e
              | Ok kek \<Rightarrow>
                  (case kd_read K PASSPHRASE_CHECK_FILE of
                     Err e \<Rightarrow> Err (KUnavailable (PASSPHRASE_CHECK_FILE @ '': '' @ e))
                   | Ok blob \<Rightarrow>
                       if unwrap_dek A kek blob = Ok SENTINEL then Ok kek
                       else Err (KUnavailable ''incorrect KP_KEY_PASSPHRASE for this data directory'')))
      | Err _ \<Rightarrow> pass_init A K passphrase new_salt nonce)"

section \<open>The self-report\<close>

definition em_dash :: string where "em_dash = [CHR 0xE2, CHR 0x80, CHR 0x94]"

record key_posture =
  po_kind :: string
  po_unattended_boot :: bool
  po_key_on_host :: bool
  po_protects :: string
  po_does_not_protect :: string

definition file_posture :: key_posture where
  "file_posture = \<lparr> po_kind = ''file'', po_unattended_boot = True, po_key_on_host = True,
     po_protects = ''media theft: a discarded/stolen disk or a backup that excludes the key dir'',
     po_does_not_protect = ''host compromise, or theft of the whole data directory (keys included)'' \<rparr>"

definition pass_posture :: key_posture where
  "pass_posture = \<lparr> po_kind = ''passphrase'', po_unattended_boot = False, po_key_on_host = False,
     po_protects = ''media theft AND a full data-directory backup '' @ em_dash @ '' the key is derived from a passphrase that is never written to disk'',
     po_does_not_protect = ''host compromise while the server runs (the derived key is in memory), or disclosure of the passphrase itself'' \<rparr>"

definition kms_posture :: key_posture where
  "kms_posture = \<lparr> po_kind = ''kms'', po_unattended_boot = True, po_key_on_host = False,
     po_protects = ''media theft, a full data-directory backup, AND data at rest once the KMS revokes the key/token '' @ em_dash @ '' the unwrap key never touches this host'',
     po_does_not_protect = ''a live host compromise that can call the KMS with our token while the server runs, or compromise of the KMS itself'' \<rparr>"

definition custody_warning :: "key_posture \<Rightarrow> bool \<Rightarrow> string option" where
  "custody_warning p encryption_enabled =
     (if encryption_enabled \<and> po_key_on_host p
      then Some (''key provider `'' @ po_kind p @ ''`: the at-rest key lives on this host (under .kerplace.sys/). ''
        @ ''At-rest encryption protects a stolen disk or a backup that EXCLUDES that directory '' @ em_dash @ '' it does NOT protect ''
        @ po_does_not_protect p @ ''. Keep key material backed up separately, or move to an external-custody provider when available.'')
      else None)"

section \<open>The cache of unwrapped keys\<close>

definition KMS_WRAPPED_LEN_HINT :: nat where "KMS_WRAPPED_LEN_HINT = 96"
definition KMS_CACHE_TTL_DEFAULT :: nat where "KMS_CACHE_TTL_DEFAULT = 300"
definition KMS_CACHE_CAP :: nat where "KMS_CACHE_CAP = 4096"

record cached_dek =
  cd_bytes :: bytes
  cd_expiry :: nat

type_synonym dek_cache = "(bytes \<times> cached_dek) list"

definition dek_cache_get :: "nat \<Rightarrow> dek_cache \<Rightarrow> bytes \<Rightarrow> bytes option" where
  "dek_cache_get now m token =
     (case map_of m token of
        Some c \<Rightarrow> if now < cd_expiry c then Some (cd_bytes c) else None
      | None \<Rightarrow> None)"

text \<open>At the capacity the expired entries go; if that is not enough, one entry of the map's choosing, \<open>victim\<close>.\<close>

definition dek_cache_put :: "nat \<Rightarrow> nat \<Rightarrow> dek_cache \<Rightarrow> bytes \<Rightarrow> bytes \<Rightarrow> nat \<Rightarrow> dek_cache" where
  "dek_cache_put now victim m token b ttl =
     (let m1 = (if KMS_CACHE_CAP \<le> length m then filter (\<lambda>(_, c). now < cd_expiry c) m else m);
          m2 = (if KMS_CACHE_CAP \<le> length m1
                then AList.delete (fst (m1 ! (victim mod length m1))) m1 else m1)
      in AList.update token \<lparr> cd_bytes = b, cd_expiry = now + ttl \<rparr> m2)"

section \<open>The KMS provider\<close>

datatype vault_body = DatakeyBody nat | DecryptBody string

text \<open>
  Vault's answer: a status with an unreadable body or with its \<open>data.ciphertext\<close> and \<open>data.plaintext\<close> where they
  are strings.
\<close>

datatype vault_reply =
    VUnreachable string
  | VAnswer nat "string + string option \<times> string option"

text \<open>The client: the certificate it trusts besides the public roots, and whether it verifies at all.\<close>

record kms_client =
  kc_ca :: "bytes option"
  kc_skip_verify :: bool

definition plain_client :: kms_client where "plain_client = \<lparr> kc_ca = None, kc_skip_verify = False \<rparr>"

text \<open>A call of Vault: the client, the URL, the token it presents and the body.\<close>

type_synonym vault = "kms_client \<Rightarrow> string \<Rightarrow> string \<Rightarrow> vault_body \<Rightarrow> vault_reply"

definition build_kms_client :: "key_lib \<Rightarrow> bytes option \<Rightarrow> bool \<Rightarrow> key_error + kms_client" where
  "build_kms_client L ca_pem skip_verify =
     (if ca_pem = None \<and> \<not> skip_verify then Ok plain_client
      else case Option.bind ca_pem (kl_pem L) of
        Some e \<Rightarrow> Err (KUnavailable (''KP_KMS_CA is not a valid PEM certificate: '' @ e))
      | None \<Rightarrow>
          (case kl_build L ca_pem skip_verify of
             Some e \<Rightarrow> Err (KUnavailable (''could not build the KMS HTTP client: '' @ e))
           | None \<Rightarrow> Ok \<lparr> kc_ca = ca_pem, kc_skip_verify = skip_verify \<rparr>))"

text \<open>Seconds since the start of the process; \<open>km_cache_ttl\<close> in seconds.\<close>

record kms_provider =
  km_client :: kms_client
  km_endpoint :: string
  km_key :: string
  km_token :: string
  km_wrapped_len :: nat
  km_cache :: dek_cache
  km_cache_ttl :: nat

definition kms_new :: "string \<Rightarrow> string \<Rightarrow> string \<Rightarrow> kms_provider" where
  "kms_new endpoint key token =
     \<lparr> km_client = plain_client, km_endpoint = rev (dropWhile (\<lambda>c. c = CHR ''/'') (rev endpoint)), km_key = key,
       km_token = token, km_wrapped_len = 0, km_cache = [], km_cache_ttl = KMS_CACHE_TTL_DEFAULT \<rparr>"

definition kms_cache_get :: "kms_provider \<Rightarrow> nat \<Rightarrow> bytes \<Rightarrow> bytes option" where
  "kms_cache_get P now token = (if km_cache_ttl P = 0 then None else dek_cache_get now (km_cache P) token)"

definition kms_cache_put :: "kms_provider \<Rightarrow> nat \<Rightarrow> nat \<Rightarrow> bytes \<Rightarrow> bytes \<Rightarrow> kms_provider" where
  "kms_cache_put P now victim token dek =
     (if km_cache_ttl P = 0 then P
      else P\<lparr>km_cache := dek_cache_put now victim (km_cache P) token dek (km_cache_ttl P)\<rparr>)"

definition is_success :: "nat \<Rightarrow> bool" where "is_success c = (200 \<le> c \<and> c < 300)"
definition is_server_error :: "nat \<Rightarrow> bool" where "is_server_error c = (500 \<le> c \<and> c < 600)"

text \<open>A request to Vault: the ciphertext and plaintext of its answer.\<close>

definition kms_post ::
  "vault \<Rightarrow> kms_provider \<Rightarrow> string \<Rightarrow> vault_body \<Rightarrow> (nat \<Rightarrow> key_error) \<Rightarrow> key_error + string option \<times> string option" where
  "kms_post V P path b on_status =
     (case V (km_client P) (km_endpoint P @ ''/v1/'' @ path) (km_token P) b of
        VUnreachable e \<Rightarrow> Err (KUnavailable (''KMS request to '' @ path @ '' failed: '' @ e))
      | VAnswer c d \<Rightarrow>
          if \<not> is_success c then Err (on_status c)
          else case d of
            Err e \<Rightarrow> Err (KUnavailable (''KMS returned an unreadable body: '' @ e))
          | Ok v \<Rightarrow> Ok v)"

definition dek_from_plaintext :: "key_lib \<Rightarrow> string option \<Rightarrow> key_error \<Rightarrow> key_error + bytes" where
  "dek_from_plaintext L pt e =
     (case Option.bind pt (kl_base64 L) of
        None \<Rightarrow> Err e
      | Some b \<Rightarrow> if length b \<noteq> 32 then Err e else Ok b)"

definition kms_new_wrapped_dek ::
  "key_lib \<Rightarrow> vault \<Rightarrow> kms_provider \<Rightarrow> kms_provider \<times> (key_error + bytes \<times> wrapped_dek)" where
  "kms_new_wrapped_dek L V P =
     (case kms_post V P (''transit/datakey/plaintext/'' @ km_key P) (DatakeyBody 256)
             (\<lambda>c. KUnavailable (''KMS datakey returned HTTP '' @ kl_status L c)) of
        Err e \<Rightarrow> (P, Err e)
      | Ok (ct, pt) \<Rightarrow>
     (case ct of
        None \<Rightarrow> (P, Err (KUnavailable ''KMS datakey: no ciphertext''))
      | Some ct \<Rightarrow>
     (case dek_from_plaintext L pt (KUnavailable ''KMS datakey: bad plaintext'') of
        Err e \<Rightarrow> (P, Err e)
      | Ok dek \<Rightarrow>
          (P\<lparr>km_wrapped_len := length ct\<rparr>, Ok (dek, \<lparr> wd_alg = ALG_KMS, wd_bytes = str_bytes ct \<rparr>)))))"

definition kms_unwrap_dek ::
  "key_lib \<Rightarrow> vault \<Rightarrow> nat \<Rightarrow> nat \<Rightarrow> kms_provider \<Rightarrow> wrapped_dek \<Rightarrow> kms_provider \<times> (key_error + bytes)" where
  "kms_unwrap_dek L V now victim P w =
     (if wd_alg w \<noteq> ALG_KMS then (P, Err KFormat)
      else case kms_cache_get P now (wd_bytes w) of
        Some b \<Rightarrow> (P, Ok b)
      | None \<Rightarrow>
     (if \<not> utf8_valid (wd_bytes w) then (P, Err KFormat)
      else case kms_post V P (''transit/decrypt/'' @ km_key P) (DecryptBody (bytes_str (wd_bytes w)))
                  (\<lambda>c. if is_server_error c then KUnavailable (''KMS decrypt returned HTTP '' @ kl_status L c) else KUnwrap) of
        Err e \<Rightarrow> (P, Err e)
      | Ok (_, pt) \<Rightarrow>
     (case dek_from_plaintext L pt KUnwrap of
        Err e \<Rightarrow> (P, Err e)
      | Ok dek \<Rightarrow> (kms_cache_put P now victim (wd_bytes w) dek, Ok dek))))"

definition kms_wrapped_dek_len :: "kms_provider \<Rightarrow> nat" where
  "kms_wrapped_dek_len P = (if km_wrapped_len P = 0 then KMS_WRAPPED_LEN_HINT else km_wrapped_len P)"

text \<open>The start-up check mints a key and unwraps it again; the two calls of Vault may answer differently.\<close>

definition kms_check ::
  "key_lib \<Rightarrow> vault \<Rightarrow> vault \<Rightarrow> nat \<Rightarrow> nat \<Rightarrow> kms_provider \<Rightarrow> kms_provider \<times> (key_error + unit)" where
  "kms_check L V V' now victim P =
     (case kms_new_wrapped_dek L V P of
        (P1, Err e) \<Rightarrow> (P1, Err e)
      | (P1, Ok (dek, w)) \<Rightarrow>
          (case kms_unwrap_dek L V' now victim P1 w of
             (P2, Err e) \<Rightarrow> (P2, Err e)
           | (P2, Ok back) \<Rightarrow>
               (P2, if back \<noteq> dek then Err (KUnavailable ''KMS round-trip mismatch (datakey/decrypt disagree)'') else Ok ())))"

section \<open>Choosing a provider\<close>

text \<open>\<open>read_file\<close> is the content of a file of the configuration, or the error of reading it.\<close>

definition kms_from_env :: "key_lib \<Rightarrow> (string \<Rightarrow> string + bytes) \<Rightarrow> environment \<Rightarrow> key_error + kms_provider" where
  "kms_from_env L read_file env =
     (case env_given env ''KMS_ENDPOINT'' of
        None \<Rightarrow> Err (KUnavailable ''set KP_KMS_ENDPOINT (e.g. http://host:8200)'')
      | Some endpoint \<Rightarrow>
     (case env_given env ''KMS_KEY'' of
        None \<Rightarrow> Err (KUnavailable ''set KP_KMS_KEY (the Vault Transit key name)'')
      | Some key \<Rightarrow>
     (case env_given env ''KMS_TOKEN'' of
        None \<Rightarrow> Err (KUnavailable ''set KP_KMS_TOKEN (the Vault token)'')
      | Some token \<Rightarrow>
          (let P0 = kms_new endpoint key token;
               P = (case Option.bind (env_var env ''KMS_CACHE_TTL'') (\<lambda>v. parse_u64 (trim v)) of
                      Some ttl \<Rightarrow> P0\<lparr>km_cache_ttl := ttl\<rparr> | None \<Rightarrow> P0);
               skip_verify = (case env_var env ''KMS_TLS_SKIP_VERIFY'' of
                                Some v \<Rightarrow> ascii_lowercase (trim v) \<in> {''1'', ''true'', ''yes'', ''on''} | None \<Rightarrow> False)
           in case (case env_given env ''KMS_CA'' of
                      None \<Rightarrow> Ok None
                    | Some path \<Rightarrow>
                        (case read_file path of
                           Err e \<Rightarrow> Err (KUnavailable (''cannot read KP_KMS_CA file `'' @ path @ ''`: '' @ e))
                         | Ok c \<Rightarrow> Ok (Some c))) of
                Err e \<Rightarrow> Err e
              | Ok ca_pem \<Rightarrow>
                  if ca_pem \<noteq> None \<or> skip_verify
                  then (case build_kms_client L ca_pem skip_verify of
                          Err e \<Rightarrow> Err e | Ok c \<Rightarrow> Ok (P\<lparr>km_client := c\<rparr>))
                  else Ok P))))"

datatype provider_kind = KindFile | KindPassphrase | KindKms

definition parse_provider_kind :: "string \<Rightarrow> key_error + provider_kind" where
  "parse_provider_kind s =
     (if s = ''file'' then Ok KindFile
      else if s = ''passphrase'' then Ok KindPassphrase
      else if s = ''kms'' then Ok KindKms
      else Err (KUnknown s))"

datatype provider = FileProvider file_key_provider | PassProvider bytes | KmsProvider kms_provider

fun provider_posture :: "provider \<Rightarrow> key_posture" where
  "provider_posture (FileProvider _) = file_posture"
| "provider_posture (PassProvider _) = pass_posture"
| "provider_posture (KmsProvider _) = kms_posture"

text \<open>The random bytes a first start draws.\<close>

record key_entropy =
  ke_master :: bytes
  ke_pq :: pq_keypair
  ke_salt :: bytes
  ke_nonce :: bytes

definition provider_from_env ::
  "key_lib \<Rightarrow> crypto_lib \<Rightarrow> (string \<Rightarrow> string + bytes) \<Rightarrow> key_entropy \<Rightarrow> environment \<Rightarrow> key_dir
   \<Rightarrow> key_dir \<times> (key_error + provider)" where
  "provider_from_env L A read_file en env K =
     (case parse_provider_kind (env_or env ''KEY_PROVIDER'' ''file'') of
        Err e \<Rightarrow> (K, Err e)
      | Ok KindFile \<Rightarrow>
          (case file_load L K (ke_master en) (ke_pq en) of
             (K', Err e) \<Rightarrow> (K', Err e) | (K', Ok p) \<Rightarrow> (K', Ok (FileProvider p)))
      | Ok KindPassphrase \<Rightarrow>
          (case pass_open_files A K (str_bytes (env_or env ''KEY_PASSPHRASE'' [])) (ke_salt en) (ke_nonce en) of
             (K', Err e) \<Rightarrow> (K', Err e) | (K', Ok kek) \<Rightarrow> (K', Ok (PassProvider kek)))
      | Ok KindKms \<Rightarrow>
          (case kms_from_env L read_file env of Err e \<Rightarrow> (K, Err e) | Ok p \<Rightarrow> (K, Ok (KmsProvider p))))"

end
