(* ===== verification/Kms_Props.thy ===== *)
theory Kms_Props
  imports Kms
begin

text \<open>
  The KMS provider meets the custody contract when Vault decrypts the tokens it mints; its cache stays bounded and
  holds only what Vault answered within the cache's lifetime, so that a revocation takes effect.
\<close>

section \<open>The cache\<close>

lemma length_alist_update:
  "length (AList.update k v m) = (if k \<in> fst ` set m then length m else Suc (length m))"
  by (induction m) auto

lemma length_alist_delete: "k \<in> fst ` set m \<Longrightarrow> length (AList.delete k m) < length m"
  by (auto simp: AList.delete_eq intro!: length_filter_less)

lemma dek_cache_put_map:
  "map_of (dek_cache_put now victim m token b ttl) k = Some c \<Longrightarrow> distinct (map fst m) \<Longrightarrow>
   (k = token \<and> c = \<lparr> cd_bytes = b, cd_expiry = now + ttl \<rparr>) \<or> map_of m k = Some c"
  by (auto simp: dek_cache_put_def Let_def update_conv' delete_conv' map_of_filter_in split: if_splits
      dest: map_of_SomeD)

lemma dek_cache_put_distinct:
  "distinct (map fst m) \<Longrightarrow> distinct (map fst (dek_cache_put now victim m token b ttl))"
  by (simp add: dek_cache_put_def Let_def distinct_update distinct_delete distinct_map_filter)

lemma dek_cache_put_bounded:
  assumes "length m \<le> KMS_CACHE_CAP"
  shows "length (dek_cache_put now victim m token b ttl) \<le> KMS_CACHE_CAP"
proof -
  define m1 where "m1 = (if KMS_CACHE_CAP \<le> length m then filter (\<lambda>(_, c). now < cd_expiry c) m else m)"
  define m2 where "m2 = (if KMS_CACHE_CAP \<le> length m1 then AList.delete (fst (m1 ! (victim mod length m1))) m1 else m1)"
  have m1: "length m1 \<le> KMS_CACHE_CAP"
    using assms le_trans [OF length_filter_le assms] by (simp add: m1_def)
  have "m1 ! (victim mod length m1) \<in> set m1" if "KMS_CACHE_CAP \<le> length m1"
    using that by (intro nth_mem mod_less_divisor) (auto simp: KMS_CACHE_CAP_def)
  with m1 have "length m2 < KMS_CACHE_CAP"
    by (auto simp: m2_def intro: less_le_trans [OF length_alist_delete])
  then show ?thesis
    by (simp add: dek_cache_put_def Let_def m1_def [symmetric] m2_def [symmetric] length_alist_update)
qed

section \<open>Histories\<close>

text \<open>Vault opens a token when it answers its decryption with 32 bytes.\<close>

definition vault_opens :: "key_lib \<Rightarrow> vault \<Rightarrow> kms_provider \<Rightarrow> bytes \<Rightarrow> bytes \<Rightarrow> bool" where
  "vault_opens L V P token b =
     (case kms_post V P (''transit/decrypt/'' @ km_key P) (DecryptBody (bytes_str token)) (\<lambda>_. KUnwrap) of
        Err _ \<Rightarrow> False
      | Ok (_, pt) \<Rightarrow> dek_from_plaintext L pt KUnwrap = Ok b)"

text \<open>
  The life of a provider: it mints and unwraps keys at times that never go back; \<open>VV t\<close> are the ways Vault may
  answer at time \<open>t\<close>.
\<close>

inductive kms_run :: "key_lib \<Rightarrow> (nat \<Rightarrow> vault \<Rightarrow> bool) \<Rightarrow> kms_provider \<Rightarrow> nat \<Rightarrow> kms_provider \<Rightarrow> bool"
  for L VV P0 where
  kms_start: "kms_run L VV P0 0 P0"
| kms_mint: "kms_run L VV P0 now P \<Longrightarrow> now \<le> t \<Longrightarrow> VV t V \<Longrightarrow> kms_run L VV P0 t (fst (kms_new_wrapped_dek L V P))"
| kms_unwrap: "kms_run L VV P0 now P \<Longrightarrow> now \<le> t \<Longrightarrow> VV t V \<Longrightarrow>
    kms_run L VV P0 t (fst (kms_unwrap_dek L V t victim P w))"

definition same_kms :: "kms_provider \<Rightarrow> kms_provider \<Rightarrow> bool" where
  "same_kms P P' \<longleftrightarrow> km_client P' = km_client P \<and> km_endpoint P' = km_endpoint P \<and> km_key P' = km_key P
     \<and> km_token P' = km_token P \<and> km_cache_ttl P' = km_cache_ttl P"

definition cache_sound :: "key_lib \<Rightarrow> (nat \<Rightarrow> vault \<Rightarrow> bool) \<Rightarrow> nat \<Rightarrow> kms_provider \<Rightarrow> bool" where
  "cache_sound L VV now P \<longleftrightarrow>
     distinct (map fst (km_cache P)) \<and> length (km_cache P) \<le> KMS_CACHE_CAP \<and>
     (\<forall>token c. map_of (km_cache P) token = Some c \<longrightarrow>
        (\<exists>t V. t \<le> now \<and> VV t V \<and> cd_expiry c = t + km_cache_ttl P \<and> vault_opens L V P token (cd_bytes c)))"

lemma vault_opens_same: "same_kms P P' \<Longrightarrow> vault_opens L V P' = vault_opens L V P"
  by (intro ext) (simp add: vault_opens_def kms_post_def same_kms_def)

lemma kms_post_ok:
  "kms_post V P p b f = Ok r \<Longrightarrow> kms_post V P p b g = Ok r"
  by (auto simp: kms_post_def split: vault_reply.splits if_splits sum.splits)

text \<open>What a call of \<open>unwrap_dek\<close> does: a cached answer, or a fresh one that may enter the cache.\<close>

lemma kms_unwrap_cases:
  assumes "kms_unwrap_dek L V now victim P w = (P', r)"
  shows "P' = P \<and> (\<forall>b. r = Ok b \<longrightarrow> kms_cache_get P now (wd_bytes w) = Some b) \<or>
    (\<exists>b. r = Ok b \<and> P' = kms_cache_put P now victim (wd_bytes w) b \<and> vault_opens L V P (wd_bytes w) b)"
proof (cases "wd_alg w \<noteq> ALG_KMS \<or> kms_cache_get P now (wd_bytes w) \<noteq> None \<or> \<not> utf8_valid (wd_bytes w)")
  case True
  then show ?thesis using assms by (auto simp: kms_unwrap_dek_def split: if_splits option.splits)
next
  case False
  let ?post = "kms_post V P (''transit/decrypt/'' @ km_key P) (DecryptBody (bytes_str (wd_bytes w)))"
  define on_status where "on_status = (\<lambda>c. if is_server_error c
    then KUnavailable (''KMS decrypt returned HTTP '' @ kl_status L c) else KUnwrap)"
  from False have step: "kms_unwrap_dek L V now victim P w =
     (case ?post on_status of
        Err e \<Rightarrow> (P, Err e)
      | Ok (_, pt) \<Rightarrow>
          (case dek_from_plaintext L pt KUnwrap of
             Err e \<Rightarrow> (P, Err e)
           | Ok dek \<Rightarrow> (kms_cache_put P now victim (wd_bytes w) dek, Ok dek)))"
    by (simp add: kms_unwrap_dek_def on_status_def)
  show ?thesis
  proof (cases "?post on_status")
    case (Inl e)
    with step assms show ?thesis by simp
  next
    case (Inr v)
    from kms_post_ok [OF Inr, of "\<lambda>_. KUnwrap"] Inr step assms show ?thesis
      by (cases v; cases "dek_from_plaintext L (snd v) KUnwrap") (simp_all add: vault_opens_def)
  qed
qed

lemma kms_mint_cases:
  "kms_new_wrapped_dek L V P = (P', r) \<Longrightarrow> same_kms P P' \<and> km_cache P' = km_cache P"
  by (auto simp: kms_new_wrapped_dek_def same_kms_def split: sum.splits option.splits prod.splits)

lemma same_kms_refl [simp]: "same_kms P P"
  by (simp add: same_kms_def)

lemma same_kms_put [simp]: "same_kms P (kms_cache_put P now victim token b)"
  by (simp add: same_kms_def kms_cache_put_def)

lemma kms_unwrap_same: "kms_unwrap_dek L V now victim P w = (P', r) \<Longrightarrow> same_kms P P'"
  using kms_unwrap_cases [of L V now victim P w P' r] by auto

lemma cache_sound_later: "cache_sound L VV now P \<Longrightarrow> now \<le> t \<Longrightarrow> cache_sound L VV t P"
  unfolding cache_sound_def by (metis order_trans)

lemma cache_sound_same:
  "cache_sound L VV now P \<Longrightarrow> same_kms P P' \<Longrightarrow> km_cache P' = km_cache P \<Longrightarrow> cache_sound L VV now P'"
  using vault_opens_same [of P P' L] by (simp add: cache_sound_def same_kms_def)

lemma cache_sound_put:
  assumes "cache_sound L VV now P" "VV now V" "vault_opens L V P token b"
  shows "cache_sound L VV now (kms_cache_put P now victim token b)"
proof (cases "km_cache_ttl P = 0")
  case True then show ?thesis using assms by (simp add: kms_cache_put_def)
next
  case False
  let ?P = "kms_cache_put P now victim token b"
  have fields: "km_cache ?P = dek_cache_put now victim (km_cache P) token b (km_cache_ttl P)"
    "km_cache_ttl ?P = km_cache_ttl P" "vault_opens L V' ?P = vault_opens L V' P" for V'
    using False vault_opens_same [OF same_kms_put, of L V' P now victim token b] by (simp_all add: kms_cache_put_def)
  show ?thesis
    unfolding cache_sound_def fields
  proof (intro conjI allI impI)
    show "distinct (map fst (dek_cache_put now victim (km_cache P) token b (km_cache_ttl P)))"
      "length (dek_cache_put now victim (km_cache P) token b (km_cache_ttl P)) \<le> KMS_CACHE_CAP"
      using assms(1) dek_cache_put_distinct dek_cache_put_bounded by (auto simp: cache_sound_def)
  next
    fix k c assume "map_of (dek_cache_put now victim (km_cache P) token b (km_cache_ttl P)) k = Some c"
    with assms(1) consider "k = token" "c = \<lparr> cd_bytes = b, cd_expiry = now + km_cache_ttl P \<rparr>"
      | "map_of (km_cache P) k = Some c"
      using dek_cache_put_map unfolding cache_sound_def by blast
    then show "\<exists>t V. t \<le> now \<and> VV t V \<and> cd_expiry c = t + km_cache_ttl P \<and> vault_opens L V P k (cd_bytes c)"
      using assms unfolding cache_sound_def by cases auto
  qed
qed

lemma cache_sound_step:
  assumes "cache_sound L VV now P" "VV now V" "kms_unwrap_dek L V now victim P w = (P', r)"
  shows "cache_sound L VV now P'"
  using kms_unwrap_cases [OF assms(3)] cache_sound_put [OF assms(1,2)] assms(1) by auto

lemma same_kms_trans: "same_kms P Q \<Longrightarrow> same_kms Q R \<Longrightarrow> same_kms P R"
  by (simp add: same_kms_def)

lemma kms_run_sound:
  assumes "kms_run L VV P0 now P" "km_cache P0 = []"
  shows "cache_sound L VV now P \<and> same_kms P0 P"
  using assms
proof (induction rule: kms_run.induct)
  case kms_start
  then show ?case by (simp add: cache_sound_def)
next
  case (kms_mint now P t V)
  then show ?case
    using kms_mint_cases [of L V P "fst (kms_new_wrapped_dek L V P)" "snd (kms_new_wrapped_dek L V P)"]
      cache_sound_same cache_sound_later same_kms_trans by (metis prod.collapse)
next
  case (kms_unwrap now P t V victim w)
  then show ?case
    using cache_sound_step [OF cache_sound_later] kms_unwrap_same same_kms_trans by (metis prod.collapse)
qed

section \<open>Properties\<close>

text \<open>C33: after any life of a KMS provider, the cache holds at most 4096 keys, and a key \<open>unwrap_dek\<close> returns at
time \<open>now\<close> is one Vault itself answered for that token, now or less than the cache's lifetime ago; so once Vault
has refused a token for that long, the provider no longer opens it.\<close>

theorem kms_revocation_takes_effect:
  assumes run: "kms_run L VV P0 before P" and fresh: "km_cache P0 = []"
    and now: "before \<le> now" "VV now V" and unwrap: "kms_unwrap_dek L V now victim P w = (P', Ok b)"
  shows "length (km_cache P') \<le> KMS_CACHE_CAP \<and>
    (\<exists>t V'. VV t V' \<and> t \<le> now \<and> (t = now \<or> now < t + km_cache_ttl P0) \<and> vault_opens L V' P0 (wd_bytes w) b)"
proof (intro conjI)
  from kms_run_sound [OF run fresh] have s: "cache_sound L VV now P" "same_kms P0 P"
    using cache_sound_later now(1) by blast+
  show "length (km_cache P') \<le> KMS_CACHE_CAP"
    using cache_sound_step [OF s(1) now(2) unwrap] by (simp add: cache_sound_def)
  note same = vault_opens_same [OF s(2), of L]
  from kms_unwrap_cases [OF unwrap] consider "kms_cache_get P now (wd_bytes w) = Some b" | "vault_opens L V P (wd_bytes w) b"
    by auto
  then show "\<exists>t V'. VV t V' \<and> t \<le> now \<and> (t = now \<or> now < t + km_cache_ttl P0) \<and> vault_opens L V' P0 (wd_bytes w) b"
  proof cases
    case 1
    then obtain c where c: "map_of (km_cache P) (wd_bytes w) = Some c" "now < cd_expiry c" "cd_bytes c = b"
      by (auto simp: kms_cache_get_def dek_cache_get_def split: if_splits option.splits)
    with s(1) obtain t V' where "t \<le> now" "VV t V'" "cd_expiry c = t + km_cache_ttl P" "vault_opens L V' P (wd_bytes w) b"
      unfolding cache_sound_def by blast
    with c s(2) same show ?thesis by (auto simp: same_kms_def)
  qed (use now same in auto)
qed

definition wit_key_lib :: key_lib where
  "wit_key_lib = \<lparr> kl_base64 = (\<lambda>_. Some (replicate 32 7)), kl_status = (\<lambda>_. []), kl_pem = (\<lambda>_. None),
     kl_build = (\<lambda>_ _. None), kl_hex_error = (\<lambda>_. []), kl_ek_ok = (\<lambda>_. True) \<rparr>"

definition wit_vault :: vault where
  "wit_vault = (\<lambda>c url token b. VAnswer 200 (Ok (Some ''vault:v1:x'', Some ''p'')))"

definition wit_token :: wrapped_dek where
  "wit_token = \<lparr> wd_alg = ALG_KMS, wd_bytes = str_bytes ''vault:v1:x'' \<rparr>"

lemma wit_unwrap:
  "kms_unwrap_dek wit_key_lib wit_vault 7 0 (kms_new ''http://v'' ''k'' ''t'') wit_token =
     (kms_cache_put (kms_new ''http://v'' ''k'' ''t'') 7 0 (wd_bytes wit_token) (replicate 32 7), Ok (replicate 32 7))"
  by (simp add: kms_unwrap_dek_def wit_token_def kms_cache_get_def dek_cache_get_def kms_new_def str_bytes_def
      kms_post_def wit_vault_def is_success_def dek_from_plaintext_def wit_key_lib_def)

theorem kms_revocation_takes_effect_witness:
  "\<exists>t V'. V' = wit_vault \<and> t \<le> 7 \<and> (t = 7 \<or> 7 < t + km_cache_ttl (kms_new ''http://v'' ''k'' ''t''))
     \<and> vault_opens wit_key_lib V' (kms_new ''http://v'' ''k'' ''t'') (wd_bytes wit_token) (replicate 32 7)"
  using kms_revocation_takes_effect [OF kms_start _ _ _ wit_unwrap, where VV = "\<lambda>_ V. V = wit_vault"]
  by (simp add: kms_new_def)

section \<open>The custody contract\<close>

text \<open>
  One provider over the calls of a container: \<open>Vm\<close> answers the minting call that draws \<open>en\<close>, \<open>Vd\<close> the decryption.
\<close>

definition kms_as_provider :: "key_lib \<Rightarrow> (entropy \<Rightarrow> vault) \<Rightarrow> vault \<Rightarrow> nat \<Rightarrow> kms_provider \<Rightarrow> key_provider" where
  "kms_as_provider L Vm Vd now P =
     \<lparr> kp_new_wrapped_dek = (\<lambda>en. snd (kms_new_wrapped_dek L (Vm en) P)),
       kp_unwrap_dek = (\<lambda>w. snd (kms_unwrap_dek L Vd now 0 P w)),
       kp_wrapped_dek_len = kms_wrapped_dek_len P \<rparr>"

text \<open>
  Vault opens what it mints, its tokens are text of the length the provider has recorded, and no cached key of a
  token differs from the one it was minted with.
\<close>

definition kms_ok :: "key_lib \<Rightarrow> (entropy \<Rightarrow> vault) \<Rightarrow> vault \<Rightarrow> nat \<Rightarrow> kms_provider \<Rightarrow> bool" where
  "kms_ok L Vm Vd now P \<longleftrightarrow> kms_wrapped_dek_len P < 65536 \<and>
     (\<forall>en dek w. snd (kms_new_wrapped_dek L (Vm en) P) = Ok (dek, w) \<longrightarrow>
        length (wd_bytes w) = kms_wrapped_dek_len P \<and> utf8_valid (wd_bytes w) \<and> vault_opens L Vd P (wd_bytes w) dek
        \<and> kms_cache_get P now (wd_bytes w) \<in> {None, Some dek})"

lemma kms_unwrap_opens:
  assumes "wd_alg w = ALG_KMS" "utf8_valid (wd_bytes w)" "vault_opens L V P (wd_bytes w) b"
    "kms_cache_get P now (wd_bytes w) \<in> {None, Some b}"
  shows "snd (kms_unwrap_dek L V now victim P w) = Ok b"
proof (cases "kms_cache_get P now (wd_bytes w)")
  case None
  from assms(3) obtain ct pt where
    p: "kms_post V P (''transit/decrypt/'' @ km_key P) (DecryptBody (bytes_str (wd_bytes w))) (\<lambda>_. KUnwrap) = Ok (ct, pt)"
    and d: "dek_from_plaintext L pt KUnwrap = Ok b"
    by (auto simp: vault_opens_def split: sum.splits)
  show ?thesis
    using assms(1,2) None d kms_post_ok [OF p] by (simp add: kms_unwrap_dek_def)
qed (use assms in \<open>simp add: kms_unwrap_dek_def\<close>)

lemma kms_minted:
  "snd (kms_new_wrapped_dek L V P) = Ok (dek, w) \<Longrightarrow> wd_alg w = ALG_KMS \<and> length dek = 32"
  by (auto simp: kms_new_wrapped_dek_def dek_from_plaintext_def split: sum.splits option.splits prod.splits if_splits)

interpretation kms_keys: key_custody "kms_ok L Vm Vd now P" "kms_as_provider L Vm Vd now P" for L Vm Vd now P
  using kms_unwrap_opens kms_minted by unfold_locales (auto simp: kms_ok_def kms_as_provider_def; blast)+

section \<open>Key files\<close>

text \<open>A key file of another length, or one that cannot be read, is replaced by a fresh key without an error.\<close>

lemma damaged_pq_replaced:
  assumes "kd_read K name = Ok c" "length c \<noteq> 1632" "kd_mkdir_error K = None" "kd_write_error K name = None"
  shows "pq_load_or_generate L K name fresh =
    (K\<lparr>kd_files := AList.update name (pq_seed fresh @ pq_ek fresh) (kd_files K)\<rparr>, Ok fresh)"
  using assms by (simp add: pq_load_or_generate_def MLKEM_SEED_LEN_def MLKEM_EK_LEN_def kd_create_def kd_write_def)

lemma unreadable_master_replaced:
  assumes "kd_read K name = Err e" "kd_mkdir_error K = None" "kd_write_error K name = None"
  shows "master_load_or_generate L K name random =
    (K\<lparr>kd_files := AList.update name (str_bytes (hex_encode random)) (kd_files K)\<rparr>, Ok random)"
  using assms by (simp add: master_load_or_generate_def kd_create_def kd_write_def)

text \<open>Where every file operation succeeds, the passphrase store on files is the abstract one of \<open>Crypto\<close>.\<close>

definition pass_files :: "key_dir \<Rightarrow> pass_store" where
  "pass_files K = \<lparr> ps_salt = map_of (kd_files K) PASSPHRASE_SALT_FILE, ps_check = map_of (kd_files K) PASSPHRASE_CHECK_FILE \<rparr>"

lemma pass_open_files_refines:
  assumes "kd_read_error K = (\<lambda>_. None)" "kd_write_error K = (\<lambda>_. None)" "kd_mkdir_error K = None"
  shows "pass_files (fst (pass_open_files A K p salt nonce)) = fst (pass_open_or_init A (pass_files K) p salt nonce)"
    and "snd (pass_open_files A K p salt nonce) = Ok kek \<longleftrightarrow> snd (pass_open_or_init A (pass_files K) p salt nonce) = Ok kek"
  using assms
  by (auto simp: pass_open_files_def pass_open_or_init_def pass_init_def kd_read_def kd_write_def pass_files_def
      PASSPHRASE_SALT_FILE_def PASSPHRASE_CHECK_FILE_def update_conv' pass_derive_def split: option.splits sum.splits)

end
