(* ===== verification/Json.thy ===== *)
theory Json
  imports Iam
begin

text \<open>
  The JSON values the administration, OIDC and console code reads and writes (\<open>serde_json::Value\<close>), with the
  accessors it uses.  The parser and the printer of \<open>serde_json\<close> are parameters of the code that calls them; the
  order in which the printer writes the fields of an object is its own.
\<close>

datatype json =
    JNull
  | JBool bool
  | JNum int
  | JStr string
  | JArr "json list"
  | JObj "(string \<times> json) list"

text \<open>\<open>Value::get\<close> with a field name, \<open>as_str\<close>, \<open>as_array\<close>.\<close>

fun jget :: "json \<Rightarrow> string \<Rightarrow> json option" where
  "jget (JObj fs) k = map_of fs k"
| "jget _ _ = None"

fun as_str :: "json \<Rightarrow> string option" where
  "as_str (JStr s) = Some s"
| "as_str _ = None"

fun as_array :: "json \<Rightarrow> json list option" where
  "as_array (JArr xs) = Some xs"
| "as_array _ = None"

definition jget_str :: "json \<Rightarrow> string \<Rightarrow> string option" where
  "jget_str v k = Option.bind (jget v k) as_str"

definition str_items :: "json \<Rightarrow> string list" where
  "str_items v = (case as_array v of Some xs \<Rightarrow> List.map_filter as_str xs | None \<Rightarrow> [])"

text \<open>Values built by \<open>json!\<close> from Rust values.\<close>

fun jopt :: "('a \<Rightarrow> json) \<Rightarrow> 'a option \<Rightarrow> json" where
  "jopt f None = JNull"
| "jopt f (Some x) = f x"

abbreviation jnat :: "nat \<Rightarrow> json" where "jnat n \<equiv> JNum (int n)"

definition jstrs :: "string list \<Rightarrow> json" where "jstrs xs = JArr (map JStr xs)"

lemma str_items_jstrs [simp]: "str_items (jstrs xs) = xs"
  by (induction xs) (auto simp: str_items_def jstrs_def List.map_filter_def)

end
