(* ===== verification/Oidc.thy ===== *)
theory Oidc
  imports Json Config Sigv4 Handlers Iam_Facts
begin

text \<open>
  External identity: \<open>src/auth/oidc.rs\<close> (configuration, discovery, the code exchange, the validation of an ID
  token and the mapping of groups to a policy) and \<open>src/handlers/sts.rs\<close> (temporary credentials for an ID token).
  HTTP requests, the JWT library and the rendering of a date are arguments.
\<close>

section \<open>Errors, configuration, state\<close>

datatype oidc_error = ODiscovery string | ONetwork string | OInvalidToken string

fun oidc_display :: "oidc_error \<Rightarrow> string" where
  "oidc_display (ODiscovery s) = ''OIDC discovery failed: '' @ s"
| "oidc_display (ONetwork s) = ''OIDC request failed: '' @ s"
| "oidc_display (OInvalidToken s) = ''invalid OIDC token: '' @ s"

record oidc_config =
  oc_issuer :: string
  oc_client_id :: string
  oc_client_secret :: string
  oc_redirect_url :: string
  oc_groups_claim :: string
  oc_admin_group :: string
  oc_readwrite_group :: string

definition trim_end_slashes :: "string \<Rightarrow> string" where
  "trim_end_slashes s = rev (dropWhile (\<lambda>c. c = CHR ''/'') (rev s))"

definition trim_start_slashes :: "string \<Rightarrow> string" where
  "trim_start_slashes s = dropWhile (\<lambda>c. c = CHR ''/'') s"

definition oidc_from_env :: "environment \<Rightarrow> oidc_config option" where
  "oidc_from_env env =
     (case env_given env ''OIDC_ISSUER'' of
        None \<Rightarrow> None
      | Some issuer \<Rightarrow>
          (let look = (\<lambda>k alt. case env_given env k of Some v \<Rightarrow> v | None \<Rightarrow> alt)
           in Some \<lparr> oc_issuer = trim_end_slashes issuer, oc_client_id = look ''OIDC_CLIENT_ID'' [],
                     oc_client_secret = look ''OIDC_CLIENT_SECRET'' [],
                     oc_redirect_url = look ''OIDC_REDIRECT_URL'' [],
                     oc_groups_claim = look ''OIDC_GROUPS_CLAIM'' ''groups'',
                     oc_admin_group = look ''OIDC_ADMIN_GROUP'' ''kerplace-admins'',
                     oc_readwrite_group = look ''OIDC_READWRITE_GROUP'' ''kerplace-writers'' \<rparr>))"

record oidc_claims =
  ic_subject :: string
  ic_username :: string
  ic_groups :: "string list"

record rsa_jwk =
  jw_kid :: string
  jw_n :: string
  jw_e :: string

text \<open>
  The libraries: a \<open>GET\<close> and a form \<open>POST\<close> answering JSON; the header of a JWT (its \<open>kid\<close>); the error of building
  a key from its components; \<open>decode\<close> with an RS256 validation of issuer and audience; percent-encoding of all
  but alphanumerics; the RFC 3339 text of a Unix time.
\<close>

datatype fetched = FetchFailed string | BadBody string | Fetched json

record oidc_lib =
  ol_get :: "string \<Rightarrow> fetched"
  ol_post :: "string \<Rightarrow> (string \<times> string) list \<Rightarrow> fetched"
  ol_header :: "string \<Rightarrow> string + string option"
  ol_key_error :: "string \<Rightarrow> string \<Rightarrow> string option"
  ol_decode :: "string \<Rightarrow> string \<Rightarrow> string \<Rightarrow> string \<Rightarrow> string \<Rightarrow> string + json"
  ol_encode :: "string \<Rightarrow> string"
  ol_rfc3339 :: "int \<Rightarrow> string option"

record oidc =
  oi_config :: oidc_config
  oi_authorize_endpoint :: string
  oi_token_endpoint :: string
  oi_jwks :: "rsa_jwk list"

section \<open>Discovery\<close>

definition str_field :: "json \<Rightarrow> string \<Rightarrow> oidc_error + string" where
  "str_field v key =
     (case jget_str v key of
        Some s \<Rightarrow> Ok s | None \<Rightarrow> Err (ODiscovery (''discovery doc missing `'' @ key @ ''`'')))"

definition jwk_of :: "json \<Rightarrow> rsa_jwk option" where
  "jwk_of k =
     (case (jget_str k ''n'', jget_str k ''e'') of
        (Some n, Some e) \<Rightarrow>
          Some \<lparr> jw_kid = (case jget_str k ''kid'' of Some i \<Rightarrow> i | None \<Rightarrow> []), jw_n = n, jw_e = e \<rparr>
      | _ \<Rightarrow> None)"

definition parse_jwks :: "json \<Rightarrow> rsa_jwk list" where
  "parse_jwks d =
     (case Option.bind (jget d ''keys'') as_array of
        Some keys \<Rightarrow> List.map_filter jwk_of (filter (\<lambda>k. jget_str k ''kty'' = Some ''RSA'') keys)
      | None \<Rightarrow> [])"

definition fetch_json :: "oidc_lib \<Rightarrow> string \<Rightarrow> string \<Rightarrow> oidc_error + json" where
  "fetch_json L what url =
     (case ol_get L url of
        FetchFailed e \<Rightarrow> Err (ONetwork e)
      | BadBody e \<Rightarrow> Err (ODiscovery (what @ '': '' @ e))
      | Fetched v \<Rightarrow> Ok v)"

definition discover :: "oidc_lib \<Rightarrow> oidc_config \<Rightarrow> oidc_error + oidc" where
  "discover L c =
     (case fetch_json L ''discovery doc'' (oc_issuer c @ ''/.well-known/openid-configuration'') of
        Err e \<Rightarrow> Err e
      | Ok disco \<Rightarrow>
     (case str_field disco ''authorization_endpoint'' of
        Err e \<Rightarrow> Err e
      | Ok authorize_endpoint \<Rightarrow>
     (case str_field disco ''token_endpoint'' of
        Err e \<Rightarrow> Err e
      | Ok token_endpoint \<Rightarrow>
     (case str_field disco ''jwks_uri'' of
        Err e \<Rightarrow> Err e
      | Ok jwks_uri \<Rightarrow>
     (case fetch_json L ''jwks'' jwks_uri of
        Err e \<Rightarrow> Err e
      | Ok jwks_doc \<Rightarrow>
          (let jwks = parse_jwks jwks_doc
           in if jwks = [] then Err (ODiscovery ''JWKS contained no usable RSA keys'')
              else Ok \<lparr> oi_config = c, oi_authorize_endpoint = authorize_endpoint,
                        oi_token_endpoint = token_endpoint, oi_jwks = jwks \<rparr>))))))"

section \<open>Login\<close>

definition authorize_url :: "oidc_lib \<Rightarrow> oidc \<Rightarrow> string \<Rightarrow> string \<Rightarrow> string" where
  "authorize_url L p state nonce =
     oi_authorize_endpoint p @ ''?response_type=code&client_id='' @ ol_encode L (oc_client_id (oi_config p))
       @ ''&redirect_uri='' @ ol_encode L (oc_redirect_url (oi_config p))
       @ ''&scope=openid%20email%20profile&state='' @ ol_encode L state @ ''&nonce='' @ ol_encode L nonce"

definition exchange_code :: "oidc_lib \<Rightarrow> oidc \<Rightarrow> string \<Rightarrow> oidc_error + string" where
  "exchange_code L p authz =
     (case ol_post L (oi_token_endpoint p)
             [(''grant_type'', ''authorization_code''), (''code'', authz),
              (''redirect_uri'', oc_redirect_url (oi_config p)), (''client_id'', oc_client_id (oi_config p)),
              (''client_secret'', oc_client_secret (oi_config p))] of
        FetchFailed e \<Rightarrow> Err (ONetwork e)
      | BadBody e \<Rightarrow> Err (OInvalidToken (''token response: '' @ e))
      | Fetched v \<Rightarrow>
          (case jget_str v ''id_token'' of
             Some t \<Rightarrow> Ok t | None \<Rightarrow> Err (OInvalidToken ''token response had no id_token'')))"

section \<open>Validation\<close>

definition pick_key :: "oidc \<Rightarrow> string \<Rightarrow> rsa_jwk option" where
  "pick_key p kid =
     (case find (\<lambda>k. jw_kid k = kid) (oi_jwks p) of
        Some k \<Rightarrow> Some k
      | None \<Rightarrow> (case oi_jwks p of [k] \<Rightarrow> Some k | _ \<Rightarrow> None))"

text \<open>The claims read from a decoded token; \<open>preferred_username\<close> that is not a string hides \<open>email\<close>.\<close>

definition claims_of :: "oidc_config \<Rightarrow> json \<Rightarrow> oidc_claims" where
  "claims_of c v =
     (let subject = (case jget_str v ''sub'' of Some s \<Rightarrow> s | None \<Rightarrow> []);
          named = (case jget v ''preferred_username'' of Some x \<Rightarrow> Some x | None \<Rightarrow> jget v ''email'')
      in \<lparr> ic_subject = subject,
           ic_username = (case Option.bind named as_str of Some s \<Rightarrow> s | None \<Rightarrow> subject),
           ic_groups = (case jget v (oc_groups_claim c) of Some g \<Rightarrow> str_items g | None \<Rightarrow> []) \<rparr>)"

definition validate :: "oidc_lib \<Rightarrow> oidc \<Rightarrow> string \<Rightarrow> string option \<Rightarrow> oidc_error + oidc_claims" where
  "validate L p id_token expected_nonce =
     (case ol_header L id_token of
        Err e \<Rightarrow> Err (OInvalidToken e)
      | Ok h \<Rightarrow>
          (let kid = (case h of Some k \<Rightarrow> k | None \<Rightarrow> [])
           in case pick_key p kid of
                None \<Rightarrow> Err (OInvalidToken (''no JWKS key for kid `'' @ kid @ ''`''))
              | Some jwk \<Rightarrow>
          (case ol_key_error L (jw_n jwk) (jw_e jwk) of
             Some e \<Rightarrow> Err (OInvalidToken (''bad JWKS key: '' @ e))
           | None \<Rightarrow>
          (case ol_decode L (jw_n jwk) (jw_e jwk) (oc_issuer (oi_config p)) (oc_client_id (oi_config p)) id_token of
             Err e \<Rightarrow> Err (OInvalidToken e)
           | Ok v \<Rightarrow>
               (case expected_nonce of
                  Some expected \<Rightarrow>
                    if jget_str v ''nonce'' \<noteq> Some expected then Err (OInvalidToken ''nonce mismatch'')
                    else Ok (claims_of (oi_config p) v)
                | None \<Rightarrow> Ok (claims_of (oi_config p) v))))))"

definition in_group :: "oidc_claims \<Rightarrow> string \<Rightarrow> bool" where
  "in_group cl name = list_ex (\<lambda>g. g = name \<or> trim_start_slashes g = name) (ic_groups cl)"

definition policy_for :: "oidc \<Rightarrow> oidc_claims \<Rightarrow> policy" where
  "policy_for p cl =
     (if in_group cl (oc_admin_group (oi_config p)) then PAdmin
      else if in_group cl (oc_readwrite_group (oi_config p)) then PReadWrite
      else PReadOnly)"

section \<open>The security token service\<close>

definition xml_escape :: "string \<Rightarrow> string" where
  "xml_escape s = replace_char (CHR ''>'') ''&gt;'' (replace_char (CHR ''<'') ''&lt;'' (replace_char (CHR ''&'') ''&amp;'' s))"

definition xml_reply :: "nat \<Rightarrow> string \<Rightarrow> reply" where
  "xml_reply sc s =
     \<lparr> rp_status = sc, rp_headers = [(''content-type'', ''application/xml'')], rp_body = Plain s \<rparr>"

definition line_break :: string where "line_break = [CHR 0x0A]"
definition quoted :: "string \<Rightarrow> string" where "quoted s = CHR 0x22 # s @ [CHR 0x22]"

definition xml_lines :: "string list \<Rightarrow> string" where
  "xml_lines ls = concat (map (\<lambda>l. l @ line_break) (butlast ls)) @ (if ls = [] then [] else last ls)"

definition xml_head :: string where
  "xml_head = ''<?xml version='' @ quoted ''1.0'' @ '' encoding='' @ quoted ''UTF-8'' @ ''?>''"

definition sts_xmlns :: string where
  "sts_xmlns = '' xmlns='' @ quoted ''https://sts.amazonaws.com/doc/2011-06-15/'' @ ''>''"

definition sts_error :: "nat \<Rightarrow> string \<Rightarrow> string \<Rightarrow> reply" where
  "sts_error sc c msg =
     xml_reply sc (xml_lines
       [xml_head, ''<ErrorResponse'' @ sts_xmlns,
        ''  <Error><Type>Sender</Type><Code>'' @ c @ ''</Code><Message>'' @ xml_escape msg @ ''</Message></Error>'',
        ''  <RequestId>kerplace</RequestId>'', ''</ErrorResponse>''])"

text \<open>What a successful call grants: the subject, the mapped policy and the temporary credential.\<close>

record sts_grant =
  sg_subject :: string
  sg_policy :: policy
  sg_access_key :: string
  sg_secret_key :: string
  sg_expiry :: "64 word"

definition clamp :: "int \<Rightarrow> int \<Rightarrow> int \<Rightarrow> int" where
  "clamp lo hi x = (if x < lo then lo else if hi < x then hi else x)"

definition sts_duration :: "string_map \<Rightarrow> int" where
  "sts_duration params =
     clamp 900 43200 (case Option.bind (map_of params ''DurationSeconds'') parse_i64 of Some d \<Rightarrow> d | None \<Rightarrow> 3600)"

definition sts_decide ::
  "oidc_lib \<Rightarrow> iam_lib \<Rightarrow> iam_store \<Rightarrow> 64 word \<Rightarrow> bytes \<Rightarrow> oidc option \<Rightarrow> string_map \<Rightarrow> reply + sts_grant" where
  "sts_decide L I iam now nonce provider params =
     (case provider of
        None \<Rightarrow> Err (sts_error 501 ''STSNotEnabled'' ''OIDC is not configured (set KP_OIDC_ISSUER)'')
      | Some p \<Rightarrow>
     (case map_of params ''WebIdentityToken'' of
        None \<Rightarrow> Err (sts_error 400 ''InvalidParameterValue'' ''WebIdentityToken is required'')
      | Some token \<Rightarrow>
     (case validate L p token None of
        Err e \<Rightarrow> Err (sts_error 403 ''AccessDenied'' (''token rejected: '' @ oidc_display e))
      | Ok cl \<Rightarrow>
          (case issue_temp I iam now nonce (policy_for p cl) (word_of_int (sts_duration params)) of
             (ak, sk, expiry) \<Rightarrow>
               Ok \<lparr> sg_subject = ic_subject cl, sg_policy = policy_for p cl, sg_access_key = ak,
                    sg_secret_key = sk, sg_expiry = expiry \<rparr>))))"

definition sts_xml :: "oidc_lib \<Rightarrow> sts_grant \<Rightarrow> string" where
  "sts_xml L g =
     xml_lines
       [xml_head, ''<AssumeRoleWithWebIdentityResponse'' @ sts_xmlns,
        ''  <AssumeRoleWithWebIdentityResult>'',
        ''    <SubjectFromWebIdentityToken>'' @ xml_escape (sg_subject g) @ ''</SubjectFromWebIdentityToken>'',
        ''    <Credentials>'',
        ''      <AccessKeyId>'' @ sg_access_key g @ ''</AccessKeyId>'',
        ''      <SecretAccessKey>'' @ sg_secret_key g @ ''</SecretAccessKey>'',
        ''      <SessionToken>KPSTSTOKEN.'' @ sg_access_key g @ ''</SessionToken>'',
        ''      <Expiration>'' @ (case ol_rfc3339 L (sint (sg_expiry g)) of Some t \<Rightarrow> t | None \<Rightarrow> []) @ ''</Expiration>'',
        ''    </Credentials>'',
        ''  </AssumeRoleWithWebIdentityResult>'',
        ''  <ResponseMetadata><RequestId>kerplace</RequestId></ResponseMetadata>'',
        ''</AssumeRoleWithWebIdentityResponse>'']"

definition assume_role_with_web_identity ::
  "oidc_lib \<Rightarrow> iam_lib \<Rightarrow> iam_store \<Rightarrow> 64 word \<Rightarrow> bytes \<Rightarrow> oidc option \<Rightarrow> string_map \<Rightarrow> reply" where
  "assume_role_with_web_identity L I iam now nonce provider params =
     (case sts_decide L I iam now nonce provider params of
        Err r \<Rightarrow> r | Ok g \<Rightarrow> xml_reply 200 (sts_xml L g))"

definition sts_dispatch ::
  "oidc_lib \<Rightarrow> iam_lib \<Rightarrow> iam_store \<Rightarrow> 64 word \<Rightarrow> bytes \<Rightarrow> oidc option \<Rightarrow> string_map \<Rightarrow> reply" where
  "sts_dispatch L I iam now nonce provider params =
     (case map_of params ''Action'' of
        Some a \<Rightarrow>
          (if a = ''AssumeRoleWithWebIdentity'' then assume_role_with_web_identity L I iam now nonce provider params
           else sts_error 400 ''InvalidAction'' (''unsupported STS action `'' @ a @ ''`''))
      | None \<Rightarrow> sts_error 400 ''MissingAction'' ''missing Action parameter'')"

section \<open>Facts\<close>

lemma clamp_bounds: "lo \<le> hi \<Longrightarrow> lo \<le> clamp lo hi x \<and> clamp lo hi x \<le> hi"
  by (simp add: clamp_def)

lemma sts_grant_shape:
  assumes "sts_decide L I iam now nonce provider params = Ok g"
  obtains p token cl where "provider = Some p" "map_of params ''WebIdentityToken'' = Some token"
    "validate L p token None = Ok cl" "sg_policy g = policy_for p cl" "sg_subject g = ic_subject cl"
    "issue_temp I iam now nonce (policy_for p cl) (word_of_int (sts_duration params))
       = (sg_access_key g, sg_secret_key g, sg_expiry g)"
  using assms by (auto simp: sts_decide_def split: option.splits sum.splits prod.splits)

text \<open>A validated token carries a signature of a published key, for the configured issuer and audience.\<close>

lemma validate_shape:
  assumes "validate L p id_token nonce = Ok cl"
  obtains jwk v where "jwk \<in> set (oi_jwks p)"
    "ol_decode L (jw_n jwk) (jw_e jwk) (oc_issuer (oi_config p)) (oc_client_id (oi_config p)) id_token = Ok v"
    "cl = claims_of (oi_config p) v" "\<forall>n. nonce = Some n \<longrightarrow> jget_str v ''nonce'' = Some n"
proof -
  have key: "jwk \<in> set (oi_jwks p)" if "pick_key p kid = Some jwk" for kid jwk
    using that by (auto simp: pick_key_def find_Some_iff split: option.splits list.splits)
  from assms key that show thesis
    by (auto simp: validate_def Let_def split: sum.splits option.splits if_splits)
qed

end
