(* ===== verification/Identity_Props.thy ===== *)
theory Identity_Props
  imports Oidc Iam_Props
begin

text \<open>
  What the security token service grants: a temporary credential for a validated token, worth the policy the token's
  groups map to, for a bounded time.
\<close>

lemma issued_expiry:
  assumes "issue_temp I iam now nonce pol (word_of_int d) = (ak, sk, expiry)"
    and "0 \<le> sint now" "sint now < 2 ^ 62" "0 \<le> d" "d < 2 ^ 62"
  shows "sint expiry = sint now + d"
proof -
  have e: "expiry = now + word_of_int d" using assms(1) by (auto simp: issue_temp_def Let_def)
  have d: "sint (word_of_int d :: 64 word) = d"
    using assms(4,5) by (simp add: sint_sbintrunc' signed_take_bit_int_eq_self)
  show ?thesis unfolding e
    using assms(2-5) d by (simp add: sint_word_ariths(1) signed_take_bit_int_eq_self)
qed

text \<open>C34: AssumeRoleWithWebIdentity grants what the token is worth and no more.  A call that succeeds presented a token
that a published key of the configured provider decodes for its issuer and client id.  The policy granted is that of the
token's groups: administrative for a member of the administrators' group, else read-write for a member of the
read-write group, else read-only, where a group counts with and without its leading slashes.  The credential it returns
resolves with that policy and no bucket restriction, from now on for the requested time, clamped to between 900 and
43200 seconds, and not a second longer.\<close>

theorem web_identity_grant:
  assumes "sts_decide L I iam now nonce provider params = Ok g"
    and "iam_laws I" "length nonce = 8" "sg_access_key g \<noteq> ia_root_key iam" and "0 \<le> sint now" "sint now < 2 ^ 62"
  shows "\<exists>p token jwk v. provider = Some p \<and> map_of params ''WebIdentityToken'' = Some token \<and> jwk \<in> set (oi_jwks p)
    \<and> ol_decode L (jw_n jwk) (jw_e jwk) (oc_issuer (oi_config p)) (oc_client_id (oi_config p)) token = Ok v
    \<and> (let member = (\<lambda>name. \<exists>x \<in> set (ic_groups (claims_of (oi_config p) v)). x = name \<or> trim_start_slashes x = name)
        in sg_policy g =
          (if member (oc_admin_group (oi_config p)) then PAdmin
           else if member (oc_readwrite_group (oi_config p)) then PReadWrite
           else PReadOnly))
    \<and> (\<forall>now'. Iam.resolve I iam now' (sg_access_key g) =
        (if sint now + sts_duration params \<le> sint now' then None
         else Some \<lparr> id_access_key = sg_access_key g, id_secret_key = sg_secret_key g, id_policy = policy_name (sg_policy g),
                     id_enabled = True, id_buckets = None \<rparr>))
    \<and> 900 \<le> sts_duration params \<and> sts_duration params \<le> 43200"
proof -
  from sts_grant_shape [OF assms(1)] obtain p token cl where p: "provider = Some p" "map_of params ''WebIdentityToken'' = Some token"
    "validate L p token None = Ok cl" "sg_policy g = policy_for p cl"
    and issue: "issue_temp I iam now nonce (policy_for p cl) (word_of_int (sts_duration params))
       = (sg_access_key g, sg_secret_key g, sg_expiry g)" by blast
  from validate_shape [OF p(3)] obtain jwk v where v: "jwk \<in> set (oi_jwks p)"
    "ol_decode L (jw_n jwk) (jw_e jwk) (oc_issuer (oi_config p)) (oc_client_id (oi_config p)) token = Ok v"
    "cl = claims_of (oi_config p) v" by blast
  have d: "900 \<le> sts_duration params" "sts_duration params \<le> 43200"
    using clamp_bounds [of 900 43200] by (simp_all add: sts_duration_def)
  have "sint (sg_expiry g) = sint now + sts_duration params"
    using issued_expiry [OF issue assms(5,6)] d by simp
  moreover have "starts_with (sg_access_key g) STS_PREFIX"
    using issue unfolding issue_temp_def Let_def by (metis prod.inject starts_with_append)
  ultimately have "Iam.resolve I iam now' (sg_access_key g) =
        (if sint now + sts_duration params \<le> sint now' then None
         else Some \<lparr> id_access_key = sg_access_key g, id_secret_key = sg_secret_key g, id_policy = policy_name (sg_policy g),
                     id_enabled = True, id_buckets = None \<rparr>)" for now'
    using resolve_issued [OF assms(2,3) issue, of now'] assms(4) p(4) by (simp add: Iam.resolve_def)
  moreover have "let member = (\<lambda>name. \<exists>x \<in> set (ic_groups (claims_of (oi_config p) v)). x = name \<or> trim_start_slashes x = name)
        in sg_policy g =
          (if member (oc_admin_group (oi_config p)) then PAdmin
           else if member (oc_readwrite_group (oi_config p)) then PReadWrite
           else PReadOnly)"
    unfolding Let_def p(4) policy_for_def in_group_def list_ex_iff v(3) ..
  ultimately show ?thesis using p(1,2) v d by blast
qed

definition ex_oidc_lib :: oidc_lib where
  "ex_oidc_lib = \<lparr> ol_get = (\<lambda>u. FetchFailed []), ol_post = (\<lambda>u f. FetchFailed []), ol_header = (\<lambda>t. Ok None),
     ol_key_error = (\<lambda>n e. None),
     ol_decode = (\<lambda>n e i a t. if t = ''good'' then Ok (JObj [(''sub'', JStr ''ann''), (''groups'', JArr [JStr ''/kerplace-writers''])]) else Err []),
     ol_encode = id, ol_rfc3339 = (\<lambda>t. None) \<rparr>"

definition ex_oidc :: oidc where
  "ex_oidc = \<lparr> oi_config = \<lparr> oc_issuer = ''http://i'', oc_client_id = ''c'', oc_client_secret = [], oc_redirect_url = [],
       oc_groups_claim = ''groups'', oc_admin_group = ''kerplace-admins'', oc_readwrite_group = ''kerplace-writers'' \<rparr>,
     oi_authorize_endpoint = [], oi_token_endpoint = [], oi_jwks = [\<lparr> jw_kid = [], jw_n = ''AQ'', jw_e = ''AQ'' \<rparr>] \<rparr>"

theorem web_identity_grant_witness:
  "\<exists>g. sts_decide ex_oidc_lib ex_iam_lib ex_iam 1000 (replicate 8 7) (Some ex_oidc) [(''WebIdentityToken'', ''good'')] = Ok g
    \<and> sg_policy g = PReadWrite \<and> Iam.resolve ex_iam_lib ex_iam 4599 (sg_access_key g) \<noteq> None
    \<and> Iam.resolve ex_iam_lib ex_iam 4600 (sg_access_key g) = None"
proof -
  let ?ps = "[(''WebIdentityToken'', ''good'')]"
  have v: "validate ex_oidc_lib ex_oidc ''good'' None
      = Ok \<lparr> ic_subject = ''ann'', ic_username = ''ann'', ic_groups = [''/kerplace-writers''] \<rparr>" by code_simp
  have pol: "policy_for ex_oidc \<lparr> ic_subject = ''ann'', ic_username = ''ann'', ic_groups = [''/kerplace-writers''] \<rparr> = PReadWrite"
    by code_simp
  have dur: "sts_duration ?ps = 3600" by (simp add: sts_duration_def clamp_def)
  obtain g where g: "sts_decide ex_oidc_lib ex_iam_lib ex_iam 1000 (replicate 8 7) (Some ex_oidc) ?ps = Ok g"
    and g': "sg_policy g = PReadWrite" "starts_with (sg_access_key g) STS_PREFIX"
    by (auto simp: sts_decide_def v pol issue_temp_def Let_def split: prod.splits)
  have "\<not> starts_with (ia_root_key ex_iam) STS_PREFIX" by code_simp
  with g'(2) have ne: "sg_access_key g \<noteq> ia_root_key ex_iam" by metis
  have len: "length (replicate 8 (7 :: byte)) = 8" by simp
  have now: "0 \<le> sint (1000 :: 64 word)" "sint (1000 :: 64 word) < 2 ^ 62" by simp_all
  from web_identity_grant [OF g ex_iam_laws len ne now]
  have r: "Iam.resolve ex_iam_lib ex_iam now' (sg_access_key g) = None \<longleftrightarrow> 4600 \<le> sint now'" for now'
    by (auto simp: dur split: if_splits)
  have "Iam.resolve ex_iam_lib ex_iam 4599 (sg_access_key g) \<noteq> None" unfolding r by simp
  moreover have "Iam.resolve ex_iam_lib ex_iam 4600 (sg_access_key g) = None" unfolding r by simp
  ultimately show ?thesis using g g'(1) by blast
qed

end
