(* ===== verification/Console_Auth.thy ===== *)
theory Console_Auth
  imports Oidc
begin

text \<open>
  The console's sessions and its single sign-on: \<open>src/console/auth.rs\<close> and \<open>src/console/oidc.rs\<close>.  HMAC-SHA256 is the
  library function of \<open>Iam\<close>; the nonce of a login and the clock are arguments.
\<close>

section \<open>Replies\<close>

datatype console_reply =
    CJson nat json
  | CText nat string
  | CRedirect string
  | CStream header_map body
  | CHtml string
  | CRejected

text \<open>Printing an \<open>i64\<close>.\<close>

definition show_i64 :: "int \<Rightarrow> string" where
  "show_i64 i = (if i < 0 then CHR ''-'' # show_nat (nat (- i)) else show_nat (nat i))"

section \<open>Session tokens\<close>

definition TOKEN_TTL_SECONDS :: int where "TOKEN_TTL_SECONDS = 12 * 3600"

definition sign :: "iam_lib \<Rightarrow> string \<Rightarrow> int \<Rightarrow> string" where
  "sign L secret expiry = hex_encode (hmac_sha256 L secret (str_bytes (show_i64 expiry)))"

definition issue_token :: "iam_lib \<Rightarrow> string \<Rightarrow> int \<Rightarrow> string" where
  "issue_token L secret now =
     (let expiry = now + TOKEN_TTL_SECONDS in show_i64 expiry @ ''.'' @ sign L secret expiry)"

definition verify_token :: "iam_lib \<Rightarrow> string \<Rightarrow> string \<Rightarrow> int \<Rightarrow> bool" where
  "verify_token L secret token now =
     (case split_once (CHR ''.'') token of
        None \<Rightarrow> False
      | Some (expiry_str, signature) \<Rightarrow>
          (case parse_i64 expiry_str of
             None \<Rightarrow> False
           | Some expiry \<Rightarrow> if expiry \<le> now then False else sign L secret expiry = signature))"

section \<open>Single sign-on\<close>

definition sign_state :: "iam_lib \<Rightarrow> string \<Rightarrow> string \<Rightarrow> string" where
  "sign_state L secret nonce = nonce @ ''.'' @ hex_encode (hmac_sha256 L secret (str_bytes nonce))"

definition verify_state :: "iam_lib \<Rightarrow> string \<Rightarrow> string \<Rightarrow> string option" where
  "verify_state L secret state =
     (case split_once (CHR ''.'') state of
        None \<Rightarrow> None
      | Some (nonce, _) \<Rightarrow> if sign_state L secret nonce = state then Some nonce else None)"

definition sso_enabled :: "oidc option \<Rightarrow> console_reply" where
  "sso_enabled provider = CJson 200 (JObj [(''enabled'', JBool (provider \<noteq> None))])"

text \<open>\<open>buf\<close> is the sixteen random bytes of the nonce.\<close>

definition sso_login :: "oidc_lib \<Rightarrow> iam_lib \<Rightarrow> string \<Rightarrow> bytes \<Rightarrow> oidc option \<Rightarrow> console_reply" where
  "sso_login OL I secret buf provider =
     (case provider of
        None \<Rightarrow> CText 404 ''OIDC is not enabled''
      | Some p \<Rightarrow>
          (let nonce = hex_encode buf in CRedirect (authorize_url OL p (sign_state I secret nonce) nonce)))"

definition sso_callback :: "oidc_lib \<Rightarrow> iam_lib \<Rightarrow> string \<Rightarrow> int \<Rightarrow> oidc option \<Rightarrow> string_map \<Rightarrow> console_reply" where
  "sso_callback OL I secret now provider q =
     (case provider of
        None \<Rightarrow> CText 404 ''OIDC is not enabled''
      | Some p \<Rightarrow>
     (case map_of q ''error'' of
        Some e \<Rightarrow> CText 401 (''IdP returned error: '' @ e)
      | None \<Rightarrow>
     (case (map_of q ''code'', map_of q ''state'') of
        (Some authz, Some state) \<Rightarrow>
     (case verify_state I secret state of
        None \<Rightarrow> CText 400 ''invalid OAuth state''
      | Some nonce \<Rightarrow>
     (case exchange_code OL p authz of
        Err e \<Rightarrow> CText 502 (''OIDC token exchange failed: '' @ oidc_display e)
      | Ok id_token \<Rightarrow>
     (case validate OL p id_token (Some nonce) of
        Err e \<Rightarrow> CText 401 (''OIDC token rejected: '' @ oidc_display e)
      | Ok cl \<Rightarrow>
          if policy_for p cl \<noteq> PAdmin
          then CText 403 (''user `'' @ ic_username cl @ ''` is not in the console admin group'')
          else CRedirect (''/#token='' @ issue_token I secret now))))
      | _ \<Rightarrow> CText 400 ''missing code/state'')))"

section \<open>Facts\<close>

lemma two_le_ten: "2 \<le> (10 :: nat)"
  by simp

lemma show_i64_no_dot: "CHR ''.'' \<notin> set (show_i64 i)"
proof -
  have "CHR ''.'' \<notin> set (show_nat n)" for n
  proof -
    obtain d ds where s: "show_nat n = map digit_char (d # ds)" "\<forall>x \<in> set (d # ds). x < 10"
      using show_radix_digits [OF two_le_ten, of n] by blast
    have "digit_char x \<noteq> CHR ''.''" if "x < 10" for x
      using that by (auto simp: digit_char_def dest: arg_cong [of _ _ "of_char :: char \<Rightarrow> nat"])
    with s show ?thesis by (metis (no_types, lifting) image_iff list.set_map)
  qed
  then show ?thesis by (simp add: show_i64_def)
qed

lemma parse_show_i64:
  assumes "0 \<le> i" "i < 2 ^ 63"
  shows "parse_i64 (show_i64 i) = Some i"
proof -
  obtain d ds where s: "show_nat (nat i) = map digit_char (d # ds)" "\<forall>x \<in> set (d # ds). x < 10"
    using show_radix_digits [OF two_le_ten, of "nat i"] by blast
  then have "digit_char d \<noteq> CHR ''-''" by (intro digit_char_neq) auto
  moreover have "parse_radix 10 (2 ^ 63 - 1) (show_nat (nat i)) = Some (nat i)"
    using assms by (intro parse_show) (simp add: nat_le_iff)
  ultimately show ?thesis
    using s assms by (simp add: show_i64_def parse_i64_def)
qed

lemma token_split:
  "split_once (CHR ''.'') (show_i64 e @ ''.'' @ m) = Some (show_i64 e, m)"
  using split_once_append [OF show_i64_no_dot, of e m] by simp

text \<open>A token issued at \<open>t\<close> opens a session until twelve hours later, under the same secret.\<close>

lemma verify_issued:
  assumes "0 \<le> t" "t < 2 ^ 62"
  shows "verify_token L secret (issue_token L secret t) now \<longleftrightarrow> now < t + 43200"
  using assms parse_show_i64 [of "t + TOKEN_TTL_SECONDS"]
  by (auto simp: verify_token_def issue_token_def Let_def token_split [simplified] TOKEN_TTL_SECONDS_def)

lemma split_once_parts:
  assumes "split_once c s = Some (a, b)"
  shows "s = a @ c # b" and "c \<notin> set a"
proof -
  from assms have "c \<in> set s" by (simp add: split_once_def split: if_splits)
  then obtain xs ys where xs: "s = xs @ c # ys" "c \<notin> set xs" by (meson split_list_first)
  then have "split_once c s = Some (xs, ys)" by (simp add: split_once_append)
  with assms have "a = xs" "b = ys" by simp_all
  with xs show "s = a @ c # b" "c \<notin> set a" by simp_all
qed

text \<open>A token that is accepted carries the signature of its own expiry, which is to come.\<close>

lemma verify_token_shape:
  "verify_token L secret token now \<longleftrightarrow>
     (\<exists>txt expiry. token = txt @ ''.'' @ sign L secret expiry \<and> CHR ''.'' \<notin> set txt \<and> parse_i64 txt = Some expiry \<and> now < expiry)"
  (is "_ = ?r")
proof
  assume v: "verify_token L secret token now"
  then obtain a b e where p: "split_once (CHR ''.'') token = Some (a, b)" "parse_i64 a = Some e" "now < e" "sign L secret e = b"
    by (auto simp: verify_token_def split: option.splits if_splits)
  note s = split_once_parts [OF p(1)]
  from s(1) have "token = a @ ''.'' @ b" by simp
  moreover note s(2)
  ultimately show ?r using p by blast
next
  assume ?r
  then show "verify_token L secret token now"
    using split_once_append by (fastforce simp: verify_token_def)
qed

text \<open>The two kinds of token share key and form: a session token is also accepted as a login state.\<close>

lemma session_token_is_state:
  "verify_state L secret (issue_token L secret t) = Some (show_i64 (t + TOKEN_TTL_SECONDS))"
  by (simp add: verify_state_def issue_token_def Let_def token_split [simplified] sign_state_def sign_def)

text \<open>What a successful callback has checked.\<close>

lemma sso_callback_session:
  assumes "sso_callback OL I secret now provider q = CRedirect url"
  obtains p authz state nonce id_token cl where "provider = Some p" "map_of q ''code'' = Some authz"
    "map_of q ''state'' = Some state" "verify_state I secret state = Some nonce" "exchange_code OL p authz = Ok id_token"
    "validate OL p id_token (Some nonce) = Ok cl" "policy_for p cl = PAdmin" "url = ''/#token='' @ issue_token I secret now"
  using assms by (auto simp: sso_callback_def split: option.splits sum.splits if_splits)

end
