(* ===== verification/Madmin.thy ===== *)
theory Madmin
  imports Json
begin

text \<open>
  \<open>src/madmin.rs\<close>: the encryption of administration payloads that MinIO's client uses.  A payload is
  \<open>salt(32) || id(1) || nonce(8)\<close> followed by packages of 16 KiB, each sealed under a 12-byte nonce that ends in
  the package's number and authenticated with a flag and a reference tag.  The key derivations and the two ciphers
  are parameters.
\<close>

section \<open>Parameters and constants\<close>

text \<open>
  Argon2id with madmin's parameters may fail; PBKDF2 does not.  The flag of a cipher is true for
  ChaCha20-Poly1305 and false for AES-256-GCM; its arguments are the key, the nonce, the message and the
  associated data.
\<close>

record madmin_lib =
  ml_argon2 :: "bytes \<Rightarrow> bytes \<Rightarrow> bytes option"
  ml_pbkdf2 :: "bytes \<Rightarrow> bytes \<Rightarrow> nat \<Rightarrow> bytes"
  ml_seal :: "bool \<Rightarrow> bytes \<Rightarrow> bytes \<Rightarrow> bytes \<Rightarrow> bytes \<Rightarrow> bytes"
  ml_open :: "bool \<Rightarrow> bytes \<Rightarrow> bytes \<Rightarrow> bytes \<Rightarrow> bytes \<Rightarrow> bytes option"

definition ID_ARGON2_AESGCM :: byte where "ID_ARGON2_AESGCM = 0"
definition ID_ARGON2_CHACHA :: byte where "ID_ARGON2_CHACHA = 1"
definition ID_PBKDF2_AESGCM :: byte where "ID_PBKDF2_AESGCM = 2"
definition MADMIN_SALT_LEN :: nat where "MADMIN_SALT_LEN = 32"
definition NONCE_PREFIX_LEN :: nat where "NONCE_PREFIX_LEN = 8"
definition BUF_SIZE :: nat where "BUF_SIZE = 16384"
definition MADMIN_TAG_LEN :: nat where "MADMIN_TAG_LEN = 16"
definition PBKDF2_ROUNDS :: nat where "PBKDF2_ROUNDS = 8192"

datatype madmin_error = MFormat | MUnsupportedCipher byte | MDecrypt

fun madmin_display :: "madmin_error \<Rightarrow> string" where
  "madmin_display MFormat = ''malformed madmin payload''"
| "madmin_display (MUnsupportedCipher i) = ''unsupported madmin cipher id 0x'' @ show_radix 16 (unat i)"
| "madmin_display MDecrypt = ''madmin payload decryption failed''"

section \<open>Keys, nonces and packages\<close>

definition derive_key :: "madmin_lib \<Rightarrow> byte \<Rightarrow> string \<Rightarrow> bytes \<Rightarrow> madmin_error + bytes" where
  "derive_key M i password salt =
     (if i = ID_ARGON2_AESGCM \<or> i = ID_ARGON2_CHACHA then
        (case ml_argon2 M (str_bytes password) salt of Some k \<Rightarrow> Ok k | None \<Rightarrow> Err MFormat)
      else if i = ID_PBKDF2_AESGCM then Ok (ml_pbkdf2 M (str_bytes password) salt PBKDF2_ROUNDS)
      else Err (MUnsupportedCipher i))"

definition le32 :: "32 word \<Rightarrow> bytes" where
  "le32 w = map (\<lambda>i. ucast (drop_bit (8 * i) w)) [0, 1, 2, 3]"

definition package_nonce :: "bytes \<Rightarrow> 32 word \<Rightarrow> bytes" where
  "package_nonce prefx sq = prefx @ le32 sq"

definition seal_package :: "madmin_lib \<Rightarrow> byte \<Rightarrow> bytes \<Rightarrow> bytes \<Rightarrow> bytes \<Rightarrow> bytes \<Rightarrow> bytes" where
  "seal_package M i key nonce pt aad = ml_seal M (i = ID_ARGON2_CHACHA) key nonce pt aad"

definition open_package :: "madmin_lib \<Rightarrow> byte \<Rightarrow> bytes \<Rightarrow> bytes \<Rightarrow> bytes \<Rightarrow> bytes \<Rightarrow> madmin_error + bytes" where
  "open_package M i key nonce ct aad =
     (case ml_open M (i = ID_ARGON2_CHACHA) key nonce ct aad of Some pt \<Rightarrow> Ok pt | None \<Rightarrow> Err MDecrypt)"

definition reference_tag :: "madmin_lib \<Rightarrow> byte \<Rightarrow> bytes \<Rightarrow> bytes \<Rightarrow> bytes" where
  "reference_tag M i key prefx = seal_package M i key (package_nonce prefx 0) [] []"

definition package_aad :: "byte \<Rightarrow> bytes \<Rightarrow> bytes" where
  "package_aad flag ref_tag = flag # ref_tag"

section \<open>Encryption\<close>

text \<open>The loop over the 16 KiB chunks of a payload that is not empty.\<close>

function seal_chunks :: "madmin_lib \<Rightarrow> byte \<Rightarrow> bytes \<Rightarrow> bytes \<Rightarrow> bytes \<Rightarrow> bytes \<Rightarrow> 32 word \<Rightarrow> bytes" where
  "seal_chunks M i key prefx ref_tag rest sq =
     (if rest = [] then []
      else
        let is_final = (drop BUF_SIZE rest = []);
            aad = package_aad (if is_final then 0x80 else 0) ref_tag
        in seal_package M i key (package_nonce prefx sq) (take BUF_SIZE rest) aad
           @ seal_chunks M i key prefx ref_tag (drop BUF_SIZE rest) (sq + 1))"
  by pat_completeness auto
termination by (relation "measure (\<lambda>(M, i, key, prefx, ref_tag, rest, sq). length rest)") (auto simp: BUF_SIZE_def)

declare seal_chunks.simps [simp del]

text \<open>\<open>None\<close> is the panic of \<open>expect\<close> when the derivation of the key fails.\<close>

definition encrypt_data :: "madmin_lib \<Rightarrow> bytes \<Rightarrow> bytes \<Rightarrow> string \<Rightarrow> bytes \<Rightarrow> bytes option" where
  "encrypt_data M salt prefx password payload =
     (case derive_key M ID_ARGON2_AESGCM password salt of
        Err _ \<Rightarrow> None
      | Ok key \<Rightarrow>
          (let i = ID_ARGON2_AESGCM;
               ref_tag = reference_tag M i key prefx
           in Some (salt @ i # prefx
                @ (if payload = [] then seal_package M i key (package_nonce prefx 1) [] (package_aad 0x80 ref_tag)
                   else seal_chunks M i key prefx ref_tag payload 1))))"

section \<open>Decryption\<close>

function open_packages ::
  "madmin_lib \<Rightarrow> byte \<Rightarrow> bytes \<Rightarrow> bytes \<Rightarrow> bytes \<Rightarrow> bytes \<Rightarrow> 32 word \<Rightarrow> bytes \<Rightarrow> madmin_error + bytes" where
  "open_packages M i key prefx ref_tag rest sq out =
     (let max_pkg = BUF_SIZE + MADMIN_TAG_LEN;
          is_final = (length rest \<le> max_pkg);
          n = (if is_final then length rest else max_pkg)
      in if n < MADMIN_TAG_LEN then Err MFormat
         else case open_package M i key (package_nonce prefx sq) (take n rest)
                     (package_aad (if is_final then 0x80 else 0) ref_tag) of
           Err e \<Rightarrow> Err e
         | Ok pt \<Rightarrow>
             if is_final then Ok (out @ pt)
             else open_packages M i key prefx ref_tag (drop n rest) (sq + 1) (out @ pt))"
  by pat_completeness auto
termination
  by (relation "measure (\<lambda>(M, i, key, prefx, ref_tag, rest, sq, out). length rest)")
    (auto simp: BUF_SIZE_def MADMIN_TAG_LEN_def)

declare open_packages.simps [simp del]

definition decrypt_data :: "madmin_lib \<Rightarrow> string \<Rightarrow> bytes \<Rightarrow> madmin_error + bytes" where
  "decrypt_data M password blob =
     (let header = MADMIN_SALT_LEN + 1 + NONCE_PREFIX_LEN
      in if length blob < header then Err MFormat
         else
           let salt = take MADMIN_SALT_LEN blob;
               i = blob ! MADMIN_SALT_LEN;
               prefx = drop (MADMIN_SALT_LEN + 1) (take header blob)
           in case derive_key M i password salt of
                Err e \<Rightarrow> Err e
              | Ok key \<Rightarrow> open_packages M i key prefx (reference_tag M i key prefx) (drop header blob) 1 [])"

section \<open>The round trip\<close>

text \<open>The ciphers' documented behaviour: opening a sealed message returns it, and a tag of 16 bytes is added.\<close>

definition madmin_laws :: "madmin_lib \<Rightarrow> bool" where
  "madmin_laws M \<longleftrightarrow>
     (\<forall>c k n m a. ml_open M c k n (ml_seal M c k n m a) a = Some m \<and> length (ml_seal M c k n m a) = length m + 16)"

lemma open_seal_package:
  "madmin_laws M \<Longrightarrow> open_package M i k n (seal_package M i k n m a) a = Ok m"
  "madmin_laws M \<Longrightarrow> length (seal_package M i k n m a) = length m + 16"
  by (simp_all add: open_package_def seal_package_def madmin_laws_def)

lemma sealed_chunks_open:
  assumes laws: "madmin_laws M"
  shows "rest \<noteq> [] \<Longrightarrow>
    open_packages M i key prefx ref_tag (seal_chunks M i key prefx ref_tag rest sq) sq out = Ok (out @ rest)"
proof (induction rest arbitrary: sq out rule: length_induct)
  case (1 rest)
  let ?aad = "\<lambda>f. package_aad f ref_tag"
  let ?s = "\<lambda>f. seal_package M i key (package_nonce prefx sq) (take BUF_SIZE rest) (?aad f)"
  show ?case
  proof (cases "drop BUF_SIZE rest = []")
    case True
    then have "take BUF_SIZE rest = rest" "length rest \<le> BUF_SIZE" by simp_all
    moreover from this True 1(2) have "seal_chunks M i key prefx ref_tag rest sq = ?s 0x80"
      by (simp add: seal_chunks.simps [of _ _ _ _ _ rest] seal_chunks.simps [of _ _ _ _ _ "[]"])
    ultimately show ?thesis
      using open_seal_package [OF laws]
      by (simp, subst open_packages.simps) (simp add: MADMIN_TAG_LEN_def Let_def)
  next
    case False
    let ?tl = "seal_chunks M i key prefx ref_tag (drop BUF_SIZE rest) (sq + 1)"
    have split: "seal_chunks M i key prefx ref_tag rest sq = ?s 0 @ ?tl"
      using False 1(2) by (simp add: seal_chunks.simps [of _ _ _ _ _ rest])
    have len: "length (?s 0) = BUF_SIZE + 16"
      using False open_seal_package [OF laws] by simp
    have "?tl \<noteq> []"
      using False open_seal_package(2) [OF laws]
      by (subst seal_chunks.simps) (auto simp: Let_def simp flip: length_0_conv)
    then have longer: "\<not> length (?s 0 @ ?tl) \<le> BUF_SIZE + MADMIN_TAG_LEN"
      using len by (simp add: MADMIN_TAG_LEN_def)
    have tl_rest: "length (drop BUF_SIZE rest) < length rest"
      using 1(2) by (simp add: BUF_SIZE_def)
    have "open_packages M i key prefx ref_tag (?s 0 @ ?tl) sq out =
      open_packages M i key prefx ref_tag ?tl (sq + 1) (out @ take BUF_SIZE rest)"
      using longer len open_seal_package [OF laws]
      by (subst open_packages.simps) (simp add: Let_def MADMIN_TAG_LEN_def)
    with split 1(1) tl_rest False show ?thesis by simp
  qed
qed

text \<open>What \<open>encrypt_data\<close> produces, \<open>decrypt_data\<close> opens again with the same secret, at every payload length.\<close>

theorem madmin_roundtrip:
  assumes "madmin_laws M" "length salt = 32" "length prefx = 8" "encrypt_data M salt prefx password payload = Some blob"
  shows "decrypt_data M password blob = Ok payload"
proof -
  from assms(4) obtain key where key: "derive_key M ID_ARGON2_AESGCM password salt = Ok key"
    and blob: "blob = salt @ ID_ARGON2_AESGCM # prefx @
      (if payload = [] then seal_package M ID_ARGON2_AESGCM key (package_nonce prefx 1) []
          (package_aad 0x80 (reference_tag M ID_ARGON2_AESGCM key prefx))
       else seal_chunks M ID_ARGON2_AESGCM key prefx (reference_tag M ID_ARGON2_AESGCM key prefx) payload 1)"
    by (auto simp: encrypt_data_def Let_def split: sum.splits)
  have parts: "take 32 blob = salt" "blob ! 32 = ID_ARGON2_AESGCM" "drop 33 (take 41 blob) = prefx"
    "drop 41 blob = (if payload = [] then seal_package M ID_ARGON2_AESGCM key (package_nonce prefx 1) []
          (package_aad 0x80 (reference_tag M ID_ARGON2_AESGCM key prefx))
       else seal_chunks M ID_ARGON2_AESGCM key prefx (reference_tag M ID_ARGON2_AESGCM key prefx) payload 1)"
    "\<not> length blob < 41"
    unfolding blob using assms(2,3) by (simp_all add: nth_append)
  have "open_packages M i key prefx r (seal_package M i key (package_nonce prefx 1) [] (package_aad 0x80 r)) 1 [] = Ok []" for i r
    using open_seal_package [OF assms(1)] by (subst open_packages.simps) (simp add: MADMIN_TAG_LEN_def Let_def)
  then have "open_packages M ID_ARGON2_AESGCM key prefx (reference_tag M ID_ARGON2_AESGCM key prefx) (drop 41 blob) 1 [] = Ok payload"
    using sealed_chunks_open [OF assms(1), where out = "[]"] by (simp add: parts(4))
  with parts(1-3,5) key show ?thesis
    by (simp add: decrypt_data_def MADMIN_SALT_LEN_def NONCE_PREFIX_LEN_def)
qed

definition ex_madmin :: madmin_lib where
  "ex_madmin = \<lparr> ml_argon2 = (\<lambda>pw salt. Some (take 32 (salt @ pw))), ml_pbkdf2 = (\<lambda>pw salt n. salt),
     ml_seal = (\<lambda>c k n m a. m @ replicate 16 0), ml_open = (\<lambda>c k n ct a. Some (take (length ct - 16) ct)) \<rparr>"

theorem madmin_roundtrip_witness:
  "\<exists>blob. encrypt_data ex_madmin (replicate 32 1) (replicate 8 2) ''secret'' (replicate 20000 7) = Some blob
     \<and> decrypt_data ex_madmin ''secret'' blob = Ok (replicate 20000 7)"
proof -
  have laws: "madmin_laws ex_madmin" by (simp add: madmin_laws_def ex_madmin_def)
  obtain blob where b: "encrypt_data ex_madmin (replicate 32 1) (replicate 8 2) ''secret'' (replicate 20000 7) = Some blob"
    by (auto simp: encrypt_data_def derive_key_def ex_madmin_def Let_def)
  with madmin_roundtrip [OF laws _ _ b] show ?thesis by simp
qed

end
