(* ===== verification/Admin.thy ===== *)
theory Admin
  imports Madmin Kms Store_Heal Gateway
begin

text \<open>
  \<open>src/handlers/admin.rs\<close>: the administration handlers over the user table, its document and the store.
  The parser and printer of JSON, the ciphers of \<open>Madmin\<close>, the server's uptime, version and deployment id, the random
  bytes of an encrypted answer and the outcome of writing the users document are arguments.
\<close>

section \<open>State and environment\<close>

record admin_env =
  ae_madmin :: madmin_lib
  ae_iam :: iam_lib
  ae_store :: store_env
  ae_parse :: "bytes \<Rightarrow> string + json"
  ae_render :: "json \<Rightarrow> bytes"
  ae_config :: config
  ae_posture :: key_posture
  ae_version :: string
  ae_deployment_id :: string

text \<open>One request's circumstances: the clock, the uptime, the random bytes of an answer and what its writes do.\<close>

record admin_call =
  ac_now :: "64 word"
  ac_uptime :: nat
  ac_salt :: bytes
  ac_prefix :: bytes
  ac_io :: "nat \<Rightarrow> persist_io"

record server_state =
  ss_iam :: iam_store
  ss_users_file :: users_file
  ss_store :: store

datatype admin_reply = AdminError s3error | AdminStatus nat | AdminJson json | AdminBytes bytes

definition set_iam :: "server_state \<Rightarrow> iam_store \<times> users_file \<times> 'a \<Rightarrow> server_state \<times> 'a" where
  "set_iam s = (\<lambda>(iam, file, r). (s\<lparr>ss_iam := iam, ss_users_file := file\<rparr>, r))"

definition requester_secret :: "identity option \<Rightarrow> admin_env \<Rightarrow> string" where
  "requester_secret who A = (case who of Some i \<Rightarrow> id_secret_key i | None \<Rightarrow> cf_root_password (ae_config A))"

definition account_status :: "bool \<Rightarrow> string" where
  "account_status enabled = (if enabled then ''enabled'' else ''disabled'')"

text \<open>\<open>KeyPosture::to_json\<close>.\<close>

definition posture_json :: "key_posture \<Rightarrow> json" where
  "posture_json p =
     JObj [(''kind'', JStr (po_kind p)), (''unattendedBoot'', JBool (po_unattended_boot p)),
           (''keyOnHost'', JBool (po_key_on_host p)), (''protects'', JStr (po_protects p)),
           (''doesNotProtect'', JStr (po_does_not_protect p))]"

section \<open>Server information and healing\<close>

definition bucket_count :: "store \<Rightarrow> nat" where
  "bucket_count st = (case list_buckets (st_drives st) of Ok bs \<Rightarrow> length bs | Err _ \<Rightarrow> 0)"

definition backend_json :: "backend_info \<Rightarrow> json" where
  "backend_json b =
     (if bi_backend_type b = ''Erasure''
      then JObj [(''backendType'', JStr ''Erasure''), (''standardSCParity'', jnat (bi_parity_shards b)),
                 (''standardSCData'', jnat (bi_data_shards b)), (''totalSets'', JArr [jnat 1]),
                 (''drivesPerSet'', JArr [jnat (length (bi_drives b))])]
      else JObj [(''backendType'', JStr ''FS'')])"

definition admin_info :: "admin_env \<Rightarrow> admin_call \<Rightarrow> store \<Rightarrow> json" where
  "admin_info A c st =
     (let b = get_backend_info st; endpoint = cf_address (ae_config A);
          drives = map (\<lambda>d. JObj [(''endpoint'', JStr (ds_path d)), (''drivePath'', JStr (ds_path d)),
                                  (''state'', JStr (ds_state d)), (''uuid'', JStr (ae_deployment_id A))]) (bi_drives b)
      in JObj [(''mode'', JStr ''online''), (''deploymentID'', JStr (ae_deployment_id A)),
               (''region'', JStr (cf_region (ae_config A))),
               (''buckets'', JObj [(''count'', jnat (bucket_count st))]),
               (''objects'', JObj [(''count'', jnat 0)]), (''usage'', JObj [(''size'', jnat 0)]),
               (''backend'', backend_json b), (''keyProvider'', JStr (po_kind (ae_posture A))),
               (''keyPosture'', posture_json (ae_posture A)),
               (''profile'', JStr (profile_str (cf_profile (ae_config A)))),
               (''servers'', JArr [JObj
                  [(''state'', JStr ''online''), (''endpoint'', JStr endpoint), (''scheme'', JStr ''http''),
                   (''uptime'', jnat (ac_uptime c)), (''version'', JStr (ae_version A)),
                   (''commitID'', JStr ''kerplace''), (''network'', JObj [(endpoint, JStr ''online'')]),
                   (''drives'', JArr drives)]])])"

definition heal_json :: "heal_report \<Rightarrow> json" where
  "heal_json r =
     JObj [(''dryRun'', JBool (hr_dry_run r)), (''objectsScanned'', jnat (hr_objects_scanned r)),
           (''objectsHealed'', jnat (hr_objects_healed r)), (''shardsRewritten'', jnat (hr_shards_rewritten r)),
           (''objectsUnrecoverable'', jnat (hr_objects_unrecoverable r))]"

definition dry_run_param :: "string_map \<Rightarrow> bool" where
  "dry_run_param query = (map_of query ''dryRun'' = Some ''true'')"

definition admin_heal :: "admin_env \<Rightarrow> server_state \<Rightarrow> string_map \<Rightarrow> server_state \<times> admin_reply" where
  "admin_heal A s query =
     (let bucket = (case map_of query ''bucket'' of Some b \<Rightarrow> if b = [] then None else Some b | None \<Rightarrow> None)
      in case heal (ae_store A) (ss_store s) bucket (dry_run_param query) of
           (st, Ok r) \<Rightarrow> (s\<lparr>ss_store := st\<rparr>, AdminJson (heal_json r))
         | (st, Err e) \<Rightarrow> (s\<lparr>ss_store := st\<rparr>, AdminError e))"

section \<open>Users\<close>

text \<open>A handler that answers a status or an error.\<close>

definition status_or_error :: "server_state \<times> unit result \<Rightarrow> server_state \<times> admin_reply" where
  "status_or_error = (\<lambda>(s, r). (s, case r of Ok _ \<Rightarrow> AdminStatus 200 | Err e \<Rightarrow> AdminError e))"

definition missing_access_key :: admin_reply where
  "missing_access_key = AdminError (InvalidArgument ''missing accessKey'')"

text \<open>The document of an encrypted body; \<open>what\<close> names it in the error.\<close>

definition read_doc :: "admin_env \<Rightarrow> string \<Rightarrow> string \<Rightarrow> bytes \<Rightarrow> json result" where
  "read_doc A secret what payload =
     (case decrypt_data (ae_madmin A) secret payload of
        Err e \<Rightarrow> Err (InvalidArgument (''decrypt: '' @ madmin_display e))
      | Ok plain \<Rightarrow>
          (case ae_parse A plain of
             Err e \<Rightarrow> Err (InvalidArgument (''bad '' @ what @ '': '' @ e)) | Ok v \<Rightarrow> Ok v))"

definition admin_add_user ::
  "admin_env \<Rightarrow> admin_call \<Rightarrow> server_state \<Rightarrow> identity option \<Rightarrow> string_map \<Rightarrow> bytes \<Rightarrow> server_state \<times> admin_reply" where
  "admin_add_user A c s who query payload =
     (case map_of query ''accessKey'' of
        None \<Rightarrow> (s, missing_access_key)
      | Some access_key \<Rightarrow>
     (case read_doc A (requester_secret who A) ''UserInfo'' payload of
        Err e \<Rightarrow> (s, AdminError e)
      | Ok d \<Rightarrow>
          (let secret_key = (case jget_str d ''secretKey'' of Some k \<Rightarrow> k | None \<Rightarrow> []);
               pol = (case jget_str d ''policyName'' of
                        Some p \<Rightarrow> if p = [] then ''readwrite'' else p | None \<Rightarrow> ''readwrite'')
           in case set_iam s (add_user (ac_io c 0) (ss_iam s) (ss_users_file s) access_key secret_key pol) of
                (s1, Err e) \<Rightarrow> (s1, AdminError e)
              | (s1, Ok _) \<Rightarrow>
                  if jget_str d ''status'' = Some ''disabled''
                  then (fst (set_iam s1 (set_status (ac_io c 1) (ss_iam s1) (ss_users_file s1) access_key False)),
                        AdminStatus 200)
                  else (s1, AdminStatus 200))))"

definition admin_remove_user :: "admin_call \<Rightarrow> server_state \<Rightarrow> string_map \<Rightarrow> server_state \<times> admin_reply" where
  "admin_remove_user c s query =
     (case map_of query ''accessKey'' of
        None \<Rightarrow> (s, missing_access_key)
      | Some access_key \<Rightarrow>
          status_or_error (set_iam s (remove_user (ac_io c 0) (ss_iam s) (ss_users_file s) access_key)))"

definition admin_set_user_status :: "admin_call \<Rightarrow> server_state \<Rightarrow> string_map \<Rightarrow> server_state \<times> admin_reply" where
  "admin_set_user_status c s query =
     (case map_of query ''accessKey'' of
        None \<Rightarrow> (s, missing_access_key)
      | Some access_key \<Rightarrow>
          (let enabled = (case map_of query ''status'' of Some v \<Rightarrow> v = ''enabled'' | None \<Rightarrow> True)
           in status_or_error (set_iam s (set_status (ac_io c 0) (ss_iam s) (ss_users_file s) access_key enabled))))"

definition admin_set_user_buckets :: "admin_call \<Rightarrow> server_state \<Rightarrow> string_map \<Rightarrow> server_state \<times> admin_reply" where
  "admin_set_user_buckets c s query =
     (case map_of query ''accessKey'' of
        None \<Rightarrow> (s, missing_access_key)
      | Some access_key \<Rightarrow>
     (case map_of query ''buckets'' of
        None \<Rightarrow> (s, AdminError (InvalidArgument ''missing buckets (pass an empty value to clear the scope)''))
      | Some raw \<Rightarrow>
          status_or_error
            (set_iam s (set_buckets (ac_io c 0) (ss_iam s) (ss_users_file s) access_key (parse_bucket_list raw)))))"

definition admin_user_info :: "admin_env \<Rightarrow> admin_call \<Rightarrow> server_state \<Rightarrow> string_map \<Rightarrow> admin_reply" where
  "admin_user_info A c s query =
     (case map_of query ''accessKey'' of
        None \<Rightarrow> missing_access_key
      | Some access_key \<Rightarrow>
          (case Iam.resolve (ae_iam A) (ss_iam s) (ac_now c) access_key of
             Some u \<Rightarrow>
               if access_key \<noteq> cf_root_user (ae_config A)
               then AdminJson (JObj
                      [(''status'', JStr (account_status (id_enabled u))),
                       (''policyName'', JStr (policy_name (policy_from_name (id_policy u)))),
                       (''buckets'', jopt jstrs (id_buckets u))])
               else AdminError NoSuchKey
           | None \<Rightarrow> AdminError NoSuchKey))"

text \<open>An answer sealed with the requester's secret key; \<open>Panic\<close> when the key derivation fails.\<close>

definition sealed_reply :: "admin_env \<Rightarrow> admin_call \<Rightarrow> string \<Rightarrow> json \<Rightarrow> admin_reply outcome" where
  "sealed_reply A c secret v =
     (case encrypt_data (ae_madmin A) (ac_salt c) (ac_prefix c) secret (ae_render A v) of
        None \<Rightarrow> Panic | Some blob \<Rightarrow> Done (AdminBytes blob))"

definition listed_users :: "admin_env \<Rightarrow> iam_store \<Rightarrow> (string \<times> json) list" where
  "listed_users A iam =
     map (\<lambda>u. (id_access_key u, JObj [(''status'', JStr (account_status (id_enabled u))),
                                      (''policyName'', JStr (policy_name (policy_from_name (id_policy u))))]))
       (filter (\<lambda>u. id_access_key u \<noteq> cf_root_user (ae_config A)) (list_identities iam))"

definition admin_list_users :: "admin_env \<Rightarrow> admin_call \<Rightarrow> server_state \<Rightarrow> identity option \<Rightarrow> admin_reply outcome" where
  "admin_list_users A c s who = sealed_reply A c (requester_secret who A) (JObj (listed_users A (ss_iam s)))"

section \<open>Policies\<close>

definition policy_assoc ::
  "admin_env \<Rightarrow> admin_call \<Rightarrow> server_state \<Rightarrow> identity option \<Rightarrow> bytes \<Rightarrow> bool \<Rightarrow> server_state \<times> admin_reply outcome" where
  "policy_assoc A c s who payload attach =
     (let secret = requester_secret who A
      in case read_doc A secret ''PolicyAssociationReq'' payload of
           Err e \<Rightarrow> (s, Done (AdminError e))
         | Ok d \<Rightarrow>
             (let user = (case jget_str d ''user'' of Some u \<Rightarrow> u | None \<Rightarrow> []);
                  policies = (case jget d ''policies'' of Some v \<Rightarrow> str_items v | None \<Rightarrow> [])
              in if user = []
                 then (s, Done (AdminError (InvalidArgument ''group policy association is not supported'')))
                 else
                   let new_policy = (if attach then (case policies of p # _ \<Rightarrow> p | [] \<Rightarrow> []) else [])
                   in case set_iam s (set_policy (ac_io c 0) (ss_iam s) (ss_users_file s) user new_policy) of
                        (s1, Err e) \<Rightarrow> (s1, Done (AdminError e))
                      | (s1, Ok _) \<Rightarrow>
                          (s1, sealed_reply A c secret
                             (JObj (if attach
                                    then [(''PoliciesAttached'', jstrs policies), (''PoliciesDetached'', JArr [])]
                                    else [(''PoliciesAttached'', JArr []), (''PoliciesDetached'', jstrs policies)])))))"

definition attach_policy where "attach_policy A c s who payload = policy_assoc A c s who payload True"
definition detach_policy where "detach_policy A c s who payload = policy_assoc A c s who payload False"

section \<open>The routes\<close>

text \<open>
  \<open>mount_admin\<close>'s handlers by route and method; \<open>405\<close> for another method (axum serves \<open>HEAD\<close> with the \<open>GET\<close>
  handler).
\<close>

definition serve_admin ::
  "admin_env \<Rightarrow> admin_call \<Rightarrow> string \<Rightarrow> http_method \<Rightarrow> string_map \<Rightarrow> bytes \<Rightarrow> identity option \<Rightarrow> server_state \<Rightarrow>
   server_state \<times> admin_reply outcome" where
  "serve_admin A c r m query payload who s =
     (let fetch = (m = GET \<or> m = HEAD); pure = (\<lambda>(s, a). (s, Done a)); refused = (s, Done (AdminStatus 405))
      in if r = ''/info'' then (if fetch then (s, Done (AdminJson (admin_info A c (ss_store s)))) else refused)
         else if r = ''/heal'' then (if m = POST then pure (admin_heal A s query) else refused)
         else if r = ''/ping'' then (if fetch then (s, Done (AdminStatus 200)) else refused)
         else if r = ''/add-user'' then (if m = PUT then pure (admin_add_user A c s who query payload) else refused)
         else if r = ''/list-users'' then (if fetch then (s, admin_list_users A c s who) else refused)
         else if r = ''/remove-user'' then (if m = DELETE then pure (admin_remove_user c s query) else refused)
         else if r = ''/set-user-status'' then (if m = PUT then pure (admin_set_user_status c s query) else refused)
         else if r = ''/set-user-buckets'' then (if m = PUT then pure (admin_set_user_buckets c s query) else refused)
         else if r = ''/user-info'' then (if fetch then (s, Done (admin_user_info A c s query)) else refused)
         else if r = ''/idp/builtin/policy/attach''
           then (if m = POST then attach_policy A c s who payload else refused)
         else if r = ''/idp/builtin/policy/detach''
           then (if m = POST then detach_policy A c s who payload else refused)
         else (s, Done (AdminStatus 404)))"

end
