(* ===== verification/Console.thy ===== *)
theory Console
  imports Console_Auth Admin Lifecycle
begin

text \<open>
  The web console's JSON API and its router: \<open>src/console/api.rs\<close> and \<open>src/console/mod.rs\<close>.  Requests reach
  the store and the user table directly, outside the S3 handlers.  A request's body arrives as the value its extractor
  decoded, or as nothing when the extractor refused it; dates, versions and the page are arguments.
\<close>

section \<open>State and environment\<close>

record console_env =
  ce_app :: app_state
  ce_iam :: iam_lib
  ce_oidc_lib :: oidc_lib
  ce_oidc :: "oidc option"
  ce_config :: config
  ce_posture :: key_posture
  ce_version :: string
  ce_iso8601 :: "int \<Rightarrow> string"
  ce_created :: "string \<Rightarrow> string"
  ce_index :: string

text \<open>One request's circumstances: the clock, its store calls, what its writes do, the random bytes of a login.\<close>

record console_call =
  cc_now :: int
  cc_calls :: "nat \<Rightarrow> call_ctx"
  cc_io :: "nat \<Rightarrow> persist_io"
  cc_random :: bytes

definition api_err :: "s3error \<Rightarrow> console_reply" where
  "api_err e = CJson (status e) (JObj [(''error'', JStr (code e)), (''message'', JStr (message e))])"

definition ok_json :: console_reply where
  "ok_json = CJson 200 (JObj [(''ok'', JBool True)])"

definition console_denied :: "string \<Rightarrow> string \<Rightarrow> console_reply" where
  "console_denied e m = CJson 401 (JObj [(''error'', JStr e), (''message'', JStr m)])"

text \<open>A store operation's answer.\<close>

definition on_store :: "server_state \<Rightarrow> store \<times> 'a result \<Rightarrow> ('a \<Rightarrow> console_reply) \<Rightarrow> server_state \<times> console_reply" where
  "on_store s = (\<lambda>(st, r) f. (s\<lparr>ss_store := st\<rparr>, case r of Ok x \<Rightarrow> f x | Err e \<Rightarrow> api_err e))"

definition on_users :: "server_state \<times> unit result \<Rightarrow> server_state \<times> console_reply" where
  "on_users = (\<lambda>(s, r). (s, case r of Ok _ \<Rightarrow> ok_json | Err e \<Rightarrow> api_err e))"

section \<open>Sessions\<close>

definition console_login :: "console_env \<Rightarrow> int \<Rightarrow> string \<Rightarrow> string \<Rightarrow> console_reply" where
  "console_login E now access_key secret_key =
     (if access_key = cf_root_user (ce_config E) \<and> secret_key = cf_root_password (ce_config E)
      then CJson 200 (JObj [(''token'', JStr (issue_token (ce_iam E) (cf_root_password (ce_config E)) now))])
      else console_denied ''AccessDenied'' ''Invalid credentials'')"

text \<open>The test of \<open>require_auth\<close>.\<close>

definition session_ok :: "console_env \<Rightarrow> int \<Rightarrow> header_map \<Rightarrow> bool" where
  "session_ok E now hs =
     (case Option.bind (header_str hs ''authorization'') (strip_prefix ''Bearer '') of
        Some t \<Rightarrow> verify_token (ce_iam E) (cf_root_password (ce_config E)) t now
      | None \<Rightarrow> False)"

section \<open>The dashboard\<close>

definition console_info :: "console_env \<Rightarrow> server_state \<Rightarrow> console_reply" where
  "console_info E s =
     (let c = ce_config E
      in CJson 200 (JObj
           [(''version'', JStr (ce_version E)), (''region'', JStr (cf_region c)), (''apiAddress'', JStr (cf_address c)),
            (''profile'', JStr (profile_str (cf_profile c))), (''buckets'', jnat (bucket_count (ss_store s))),
            (''users'', jnat (length (list_identities (ss_iam s)))),
            (''capabilities'', JObj
               [(''auth'', JBool (cf_auth_enabled c)), (''tls'', JBool (cf_tls_enabled c)),
                (''encryptionDefault'', JBool (cf_encryption_enabled c)), (''postQuantum'', JBool True),
                (''versioning'', JBool True), (''objectLock'', JBool True), (''lifecycle'', JBool True),
                (''oidcEnabled'', JBool (ce_oidc E \<noteq> None))])]))"

definition console_storage :: "console_env \<Rightarrow> server_state \<Rightarrow> console_reply" where
  "console_storage E s =
     (let b = get_backend_info (ss_store s)
      in CJson 200 (JObj
           [(''backendType'', JStr (bi_backend_type b)), (''dataShards'', jnat (bi_data_shards b)),
            (''parityShards'', jnat (bi_parity_shards b)),
            (''drives'', JArr (map (\<lambda>d. JObj [(''path'', JStr (ds_path d)), (''state'', JStr (ds_state d))]) (bi_drives b))),
            (''keyProvider'', JStr (po_kind (ce_posture E))), (''keyPosture'', posture_json (ce_posture E))]))"

definition console_heal :: "console_env \<Rightarrow> server_state \<Rightarrow> string_map \<Rightarrow> server_state \<times> console_reply" where
  "console_heal E s query =
     on_store s (heal (ap_env (ce_app E)) (ss_store s) None (dry_run_param query)) (\<lambda>r. CJson 200 (heal_json r))"

section \<open>Buckets\<close>

definition console_list_buckets :: "console_env \<Rightarrow> server_state \<Rightarrow> console_reply" where
  "console_list_buckets E s =
     (case list_buckets (st_drives (ss_store s)) of
        Ok bs \<Rightarrow> CJson 200 (JArr (map (\<lambda>b. JObj [(''name'', JStr b), (''creationDate'', JStr (ce_created E b))]) bs))
      | Err e \<Rightarrow> api_err e)"

definition console_create_bucket :: "server_state \<Rightarrow> string \<Rightarrow> server_state \<times> console_reply" where
  "console_create_bucket s name = on_store s (create_bucket (ss_store s) name) (\<lambda>_. ok_json)"

text \<open>
  One page of a forced deletion: every listed object is deleted and the outcomes are ignored; \<open>n\<close> counts the calls.
\<close>

definition delete_page :: "(nat \<Rightarrow> call_ctx) \<Rightarrow> string \<Rightarrow> object_meta list \<Rightarrow> nat \<times> store \<Rightarrow> nat \<times> store" where
  "delete_page Cs bucket objs =
     fold (\<lambda>obj (n, st). (Suc n, fst (delete_object (in_background (Cs n)) st bucket (om_key obj)))) objs"

text \<open>The loop runs until a page lists nothing; a bucket whose objects cannot be deleted keeps it running.\<close>

partial_function (option) drain_bucket :: "(nat \<Rightarrow> call_ctx) \<Rightarrow> string \<Rightarrow> nat \<times> store \<Rightarrow> (store \<times> unit result) option" where
  "drain_bucket Cs bucket p =
     (case list_objects_v2 (st_drives (snd p)) bucket [] None None None 1000 of
        Err e \<Rightarrow> Some (snd p, Err e)
      | Ok l \<Rightarrow>
          if ls_objects l = [] then Some (snd p, Ok ())
          else drain_bucket Cs bucket (delete_page Cs bucket (ls_objects l) p))"

definition force_param :: "string_map \<Rightarrow> bool" where
  "force_param query = (case map_of query ''force'' of Some v \<Rightarrow> v = ''true'' \<or> v = ''1'' | None \<Rightarrow> False)"

definition console_delete_bucket ::
  "console_call \<Rightarrow> server_state \<Rightarrow> string \<Rightarrow> string_map \<Rightarrow> (server_state \<times> console_reply) option" where
  "console_delete_bucket c s bucket query =
     (case (if force_param query then drain_bucket (cc_calls c) bucket (0, ss_store s)
            else Some (ss_store s, Ok ())) of
        None \<Rightarrow> None
      | Some (st, Err e) \<Rightarrow> Some (s\<lparr>ss_store := st\<rparr>, api_err e)
      | Some (st, Ok _) \<Rightarrow> Some (on_store s (delete_bucket st bucket) (\<lambda>_. ok_json)))"

section \<open>Objects\<close>

definition console_list_objects :: "console_env \<Rightarrow> server_state \<Rightarrow> string \<Rightarrow> string_map \<Rightarrow> console_reply" where
  "console_list_objects E s bucket query =
     (let pre = (case map_of query ''prefix'' of Some p \<Rightarrow> p | None \<Rightarrow> [])
      in case list_objects_v2 (st_drives (ss_store s)) bucket pre (Some ''/'') None None 1000 of
           Err e \<Rightarrow> api_err e
         | Ok l \<Rightarrow>
             CJson 200 (JObj
               [(''prefix'', JStr pre), (''prefixes'', jstrs (ls_common_prefixes l)),
                (''objects'', JArr (map (\<lambda>m. JObj
                   [(''key'', JStr (om_key m)), (''size'', jnat (om_size m)),
                    (''lastModified'', JStr (ce_iso8601 E (om_last_modified m))), (''etag'', JStr (om_etag m))])
                   (ls_objects l))),
                (''isTruncated'', JBool (ls_is_truncated l))]))"

definition console_upload ::
  "console_env \<Rightarrow> console_call \<Rightarrow> server_state \<Rightarrow> string \<Rightarrow> string \<Rightarrow> header_map \<Rightarrow> body \<Rightarrow> server_state \<times> console_reply" where
  "console_upload E c s bucket key hs b =
     (let ct = (case header_str hs ''content-type'' of Some v \<Rightarrow> v | None \<Rightarrow> ''application/octet-stream'');
          encrypt = (get_bucket_encryption (ss_store s) bucket \<noteq> None \<or> cf_encryption_enabled (ce_config E))
      in on_store s
           (put_object (ap_env (ce_app E)) (in_background (cc_calls c 0)) (ss_store s) bucket key b ct [] encrypt)
           (\<lambda>m. CJson 200 (JObj [(''ok'', JBool True), (''etag'', JStr (om_etag m)), (''size'', jnat (om_size m))])))"

text \<open>The last segment of the key, without quotes.\<close>

definition download_name :: "string \<Rightarrow> string" where
  "download_name key = filter (\<lambda>ch. ch \<noteq> CHR 0x22) (last (split_on (CHR ''/'') key))"

definition download_headers :: "object_meta \<Rightarrow> string \<Rightarrow> header_map" where
  "download_headers m key =
     set_header ''content-disposition'' (''attachment; filename='' @ quoted (download_name key))
       (set_header ''content-length'' (show_nat (om_size m)) (set_header ''content-type'' (om_content_type m) []))"

definition console_download ::
  "console_env \<Rightarrow> server_state \<Rightarrow> string \<Rightarrow> string \<Rightarrow> string_map \<Rightarrow> server_state \<times> console_reply" where
  "console_download E s bucket key query =
     on_store s
       (case map_of query ''versionId'' of
          Some vid \<Rightarrow> get_object_version (ap_env (ce_app E)) (ss_store s) bucket key vid
        | None \<Rightarrow> (ss_store s, get_object (ap_env (ce_app E)) (st_drives (ss_store s)) bucket key))
       (\<lambda>(m, b). CStream (download_headers m key) b)"

definition console_delete_object ::
  "console_call \<Rightarrow> server_state \<Rightarrow> string \<Rightarrow> string \<Rightarrow> string_map \<Rightarrow> server_state \<times> console_reply" where
  "console_delete_object c s bucket key query =
     on_store s
       (case map_of query ''versionId'' of
          Some vid \<Rightarrow> delete_object_version (ss_store s) bucket key vid
        | None \<Rightarrow> delete_object (in_background (cc_calls c 0)) (ss_store s) bucket key)
       (\<lambda>_. ok_json)"

section \<open>Bucket settings\<close>

definition console_bucket_settings :: "server_state \<Rightarrow> string \<Rightarrow> console_reply" where
  "console_bucket_settings s bucket =
     CJson 200 (JObj [(''versioning'', JStr (get_bucket_versioning (st_drives (ss_store s)) bucket)),
                      (''encryption'', jopt JStr (get_bucket_encryption (ss_store s) bucket))])"

definition console_set_versioning :: "server_state \<Rightarrow> string \<Rightarrow> string \<Rightarrow> server_state \<times> console_reply" where
  "console_set_versioning s bucket v = on_store s (set_bucket_versioning (ss_store s) bucket v) (\<lambda>_. ok_json)"

definition console_set_encryption :: "server_state \<Rightarrow> string \<Rightarrow> bool \<Rightarrow> server_state \<times> console_reply" where
  "console_set_encryption s bucket enabled =
     on_store s (if enabled then set_bucket_encryption (ss_store s) bucket ''AES256''
                 else delete_bucket_encryption (ss_store s) bucket) (\<lambda>_. ok_json)"

definition version_json :: "console_env \<Rightarrow> object_version \<Rightarrow> json" where
  "version_json E v =
     JObj [(''key'', JStr (ov_key v)), (''versionId'', JStr (ov_version_id v)), (''isLatest'', JBool (ov_is_latest v)),
           (''isDeleteMarker'', JBool (ov_is_delete_marker v)), (''size'', jnat (ov_size v)), (''etag'', JStr (ov_etag v)),
           (''lastModified'', JStr (ce_iso8601 E (ov_last_modified v))),
           (''author'', jopt JStr (Option.bind (ov_audit v) au_author)),
           (''sourceIp'', jopt JStr (Option.bind (ov_audit v) au_source_ip))]"

definition console_list_versions :: "console_env \<Rightarrow> server_state \<Rightarrow> string \<Rightarrow> string_map \<Rightarrow> console_reply" where
  "console_list_versions E s bucket query =
     (let pre = (case map_of query ''prefix'' of Some p \<Rightarrow> p | None \<Rightarrow> [])
      in case list_object_versions (st_drives (ss_store s)) bucket pre None None None 1000 of
           Err e \<Rightarrow> api_err e
         | Ok l \<Rightarrow> CJson 200 (JObj [(''versions'', JArr (map (version_json E) (vl_versions l)))]))"

section \<open>Users\<close>

definition console_list_users :: "console_env \<Rightarrow> server_state \<Rightarrow> console_reply" where
  "console_list_users E s =
     CJson 200 (JObj [(''users'', JArr (map (\<lambda>i. JObj
       [(''accessKey'', JStr (id_access_key i)), (''policy'', JStr (id_policy i)), (''enabled'', JBool (id_enabled i)),
        (''isRoot'', JBool (id_access_key i = cf_root_user (ce_config E)))]) (list_identities (ss_iam s))))])"

definition console_add_user ::
  "console_call \<Rightarrow> server_state \<Rightarrow> string \<Rightarrow> string \<Rightarrow> string option \<Rightarrow> server_state \<times> console_reply" where
  "console_add_user c s access_key secret_key pol =
     on_users (set_iam s (add_user (cc_io c 0) (ss_iam s) (ss_users_file s) access_key secret_key
       (case pol of Some p \<Rightarrow> p | None \<Rightarrow> ''readwrite'')))"

definition console_delete_user :: "console_call \<Rightarrow> server_state \<Rightarrow> string \<Rightarrow> server_state \<times> console_reply" where
  "console_delete_user c s access_key =
     on_users (set_iam s (remove_user (cc_io c 0) (ss_iam s) (ss_users_file s) access_key))"

definition console_set_user_status :: "console_call \<Rightarrow> server_state \<Rightarrow> string \<Rightarrow> bool \<Rightarrow> server_state \<times> console_reply" where
  "console_set_user_status c s access_key enabled =
     on_users (set_iam s (set_status (cc_io c 0) (ss_iam s) (ss_users_file s) access_key enabled))"

section \<open>The router\<close>

text \<open>The requests the routes distinguish, each with what its extractors decoded.\<close>

datatype console_request =
    Index
  | Login string string
  | SsoEnabled
  | SsoLogin
  | SsoCallback string_map
  | Info
  | Storage
  | HealAll string_map
  | ListBuckets
  | CreateBucket string
  | DeleteBucket string string_map
  | BucketSettings string
  | SetVersioning string string
  | SetEncryption string bool
  | ListVersions string string_map
  | ListObjects string string_map
  | Upload string string body
  | Download string string string_map
  | DeleteObject string string string_map
  | ListUsers
  | AddUser string string "string option"
  | DeleteUser string
  | SetUserStatus string bool

text \<open>The routes added after the authentication layer.\<close>

fun public_route :: "console_request \<Rightarrow> bool" where
  "public_route Index = True"
| "public_route (Login _ _) = True"
| "public_route SsoEnabled = True"
| "public_route SsoLogin = True"
| "public_route (SsoCallback _) = True"
| "public_route _ = False"

fun console_handler ::
  "console_env \<Rightarrow> console_call \<Rightarrow> header_map \<Rightarrow> server_state \<Rightarrow> console_request \<Rightarrow> (server_state \<times> console_reply) option" where
  "console_handler E c hs s Index = Some (s, CHtml (ce_index E))"
| "console_handler E c hs s (Login ak sk) = Some (s, console_login E (cc_now c) ak sk)"
| "console_handler E c hs s SsoEnabled = Some (s, sso_enabled (ce_oidc E))"
| "console_handler E c hs s SsoLogin =
     Some (s, sso_login (ce_oidc_lib E) (ce_iam E) (cf_root_password (ce_config E)) (cc_random c) (ce_oidc E))"
| "console_handler E c hs s (SsoCallback q) =
     Some (s, sso_callback (ce_oidc_lib E) (ce_iam E) (cf_root_password (ce_config E)) (cc_now c) (ce_oidc E) q)"
| "console_handler E c hs s Info = Some (s, console_info E s)"
| "console_handler E c hs s Storage = Some (s, console_storage E s)"
| "console_handler E c hs s (HealAll q) = Some (console_heal E s q)"
| "console_handler E c hs s ListBuckets = Some (s, console_list_buckets E s)"
| "console_handler E c hs s (CreateBucket b) = Some (console_create_bucket s b)"
| "console_handler E c hs s (DeleteBucket b q) = console_delete_bucket c s b q"
| "console_handler E c hs s (BucketSettings b) = Some (s, console_bucket_settings s b)"
| "console_handler E c hs s (SetVersioning b v) = Some (console_set_versioning s b v)"
| "console_handler E c hs s (SetEncryption b e) = Some (console_set_encryption s b e)"
| "console_handler E c hs s (ListVersions b q) = Some (s, console_list_versions E s b q)"
| "console_handler E c hs s (ListObjects b q) = Some (s, console_list_objects E s b q)"
| "console_handler E c hs s (Upload b k p) = Some (console_upload E c s b k hs p)"
| "console_handler E c hs s (Download b k q) = Some (console_download E s b k q)"
| "console_handler E c hs s (DeleteObject b k q) = Some (console_delete_object c s b k q)"
| "console_handler E c hs s ListUsers = Some (s, console_list_users E s)"
| "console_handler E c hs s (AddUser ak sk p) = Some (console_add_user c s ak sk p)"
| "console_handler E c hs s (DeleteUser ak) = Some (console_delete_user c s ak)"
| "console_handler E c hs s (SetUserStatus ak e) = Some (console_set_user_status c s ak e)"

text \<open>
  A request to the console: the authentication layer, then the extractors (\<open>None\<close> is a body or a query they
  refused), then the handler.  \<open>None\<close> is a request that is never answered.
\<close>

definition console_serve ::
  "console_env \<Rightarrow> console_call \<Rightarrow> header_map \<Rightarrow> bool \<Rightarrow> console_request \<Rightarrow> server_state \<Rightarrow> (server_state \<times> console_reply) option" where
  "console_serve E c hs decoded r s =
     (if \<not> public_route r \<and> \<not> session_ok E (cc_now c) hs
      then Some (s, console_denied ''Unauthorized'' ''Login required'')
      else if \<not> decoded then Some (s, CRejected)
      else console_handler E c hs s r)"

end
