(* ===== verification/Console_Props.thy ===== *)
theory Console_Props
  imports Console Lifecycle_Progress Gateway_Props Iam_Props
begin

text \<open>
  Forced deletion through the console ends and empties a bucket on working drives, whatever locks its objects are
  under, and never ends on drives that refuse to remove; the console's sessions are the only way to its state.
\<close>

section \<open>A page of a forced deletion\<close>

lemma delete_page_simps [simp]:
  "delete_page Cs b [] p = p"
  "delete_page Cs b (obj # objs) (n, st) =
     delete_page Cs b objs (Suc n, fst (delete_object (in_background (Cs n)) st b (om_key obj)))"
  by (simp_all add: delete_page_def)

lemma readable_back:
  assumes rd: "ready b k ds" and sp: "spared P ds ds'" and "readable ds' b k"
  shows "readable ds b k"
  using shrunk_read_xl [OF readyD(1) [OF rd] sp readyD(3) [OF rd]] assms(3) by (simp add: readable_def)

lemma delete_step:
  assumes rd: "ready b k (st_drives st)" and names: "valid_names b k'"
  shows "ready b k (st_drives (fst (delete_object C st b k')))"
    and "readable (st_drives (fst (delete_object C st b k'))) b k \<Longrightarrow> readable (st_drives st) b k \<and> k' \<noteq> k"
proof -
  obtain st' r where del: "delete_object C st b k' = (st', r)" by fastforce
  note d = delete_target [OF rd names del]
  show "ready b k (st_drives (fst (delete_object C st b k')))" using d(1) del by simp
  assume "readable (st_drives (fst (delete_object C st b k'))) b k"
  then have "readable (st_drives st') b k" by (simp add: del)
  with d(2,3) readable_back [OF rd] show "readable (st_drives st) b k \<and> k' \<noteq> k" by blast
qed

lemma delete_page_target:
  assumes "ready b k (st_drives st)" and "\<forall>obj \<in> set objs. valid_names b (om_key obj)"
  shows "ready b k (st_drives (snd (delete_page Cs b objs (n, st))))"
    and "readable (st_drives (snd (delete_page Cs b objs (n, st)))) b k \<Longrightarrow>
      readable (st_drives st) b k \<and> k \<notin> om_key ` set objs"
proof -
  have "ready b k (st_drives (snd (delete_page Cs b objs (n, st)))) \<and>
    (readable (st_drives (snd (delete_page Cs b objs (n, st)))) b k \<longrightarrow> readable (st_drives st) b k \<and> k \<notin> om_key ` set objs)"
    using assms
  proof (induction objs arbitrary: n st)
    case (Cons obj objs)
    let ?st = "fst (delete_object (in_background (Cs n)) st b (om_key obj))"
    have names: "valid_names b (om_key obj)" using Cons.prems(2) by simp
    note step = delete_step [OF Cons.prems(1) names, of "in_background (Cs n)"]
    from Cons.IH [OF step(1), of "Suc n"] Cons.prems(2) step(2) show ?case by auto
  qed simp
  then show "ready b k (st_drives (snd (delete_page Cs b objs (n, st))))"
    and "readable (st_drives (snd (delete_page Cs b objs (n, st)))) b k \<Longrightarrow>
      readable (st_drives st) b k \<and> k \<notin> om_key ` set objs" by blast+
qed

section \<open>The loop\<close>

text \<open>A bucket in order: drives without failures, and no versioning.\<close>

definition bucket_ready :: "string \<Rightarrow> drive list \<Rightarrow> bool" where
  "bucket_ready b ds \<longleftrightarrow> tidy ds \<and> list_all healthy ds \<and> plain_comp b \<and> b \<noteq> SYS_DIR \<and> vmode ds b = Off"

lemma ready_bucket: "ready b k ds \<longleftrightarrow> bucket_ready b ds \<and> valid_names b k"
  by (auto simp: ready_def bucket_ready_def valid_names_def)

definition left_keys :: "drive list \<Rightarrow> string \<Rightarrow> string set" where
  "left_keys ds b = {k \<in> set (listed_keys ds b []). readable ds b k}"

lemma listed_readable:
  assumes "bucket_ready b ds" "list_objects_v2 ds b [] None None None mx = Ok l" "obj \<in> set (ls_objects l)"
  shows "om_key obj \<in> left_keys ds b" and "valid_names b (om_key obj)"
proof -
  note k = listed_object [OF assms(2,3)]
  from k show "om_key obj \<in> left_keys ds b" using head_Ok by (auto simp: left_keys_def readable_def)
  from assms(1) k listed_key_names show "valid_names b (om_key obj)" unfolding bucket_ready_def by blast
qed

lemma delete_page_ready:
  assumes "bucket_ready b (st_drives st)" and "\<forall>obj \<in> set objs. valid_names b (om_key obj)" and "objs \<noteq> []"
  shows "bucket_ready b (st_drives (snd (delete_page Cs b objs (n, st))))"
proof -
  from assms(2,3) have "valid_names b (om_key (hd objs))" by simp
  with assms(1) have "ready b (om_key (hd objs)) (st_drives st)" by (simp add: ready_bucket)
  from delete_page_target(1) [OF this assms(2)] show ?thesis by (simp add: ready_bucket)
qed

lemma delete_page_spared:
  assumes "bucket_ready b (st_drives st)" and "\<forall>obj \<in> set objs. valid_names b (om_key obj)"
  shows "spared (shield {}) (st_drives st) (st_drives (snd (delete_page Cs b objs (n, st))))"
  using assms
proof (induction objs arbitrary: n st)
  case Nil
  then show ?case by (simp add: bucket_ready_def spared_refl)
next
  case (Cons obj objs)
  let ?st = "fst (delete_object (in_background (Cs n)) st b (om_key obj))"
  from Cons.prems have names: "valid_names b (om_key obj)" and t: "tidy (st_drives st)" "b \<noteq> SYS_DIR" "vmode (st_drives st) b = Off"
    by (auto simp: bucket_ready_def)
  have "?st = st \<or> ?st = st\<lparr>st_drives := map (remove_object_dir b (r_object b (om_key obj))) (st_drives st)\<rparr>"
    using delete_unversioned [OF t(3), of "in_background (Cs n)" "om_key obj" ?st] by (metis prod.collapse)
  moreover have "spared (shield {}) (st_drives st) (map (remove_object_dir b (r_object b (om_key obj))) (st_drives st))"
    by (rule remove_spares [OF t(1) names t(2)]) simp
  ultimately have sp: "spared (shield {}) (st_drives st) (st_drives ?st)" using spared_refl [OF t(1)] by (metis store.select_convs(1) store.update_convs(1) store.surjective)
  have "bucket_ready b (st_drives ?st)"
    using delete_step(1) [of b "om_key obj"] Cons.prems(1) names by (simp add: ready_bucket)
  from Cons.IH [OF this, of "Suc n"] Cons.prems(2) sp show ?case by (auto intro: spared_trans)
qed

lemma left_keys_decrease:
  assumes br: "bucket_ready b (st_drives st)" and l: "list_objects_v2 (st_drives st) b [] None None None 1000 = Ok l"
    and ne: "ls_objects l \<noteq> []"
  shows "left_keys (st_drives (snd (delete_page Cs b (ls_objects l) (n, st)))) b \<subset> left_keys (st_drives st) b"
proof -
  let ?st = "snd (delete_page Cs b (ls_objects l) (n, st))"
  have names: "\<forall>obj \<in> set (ls_objects l). valid_names b (om_key obj)" using listed_readable(2) [OF br l] by blast
  note sp = delete_page_spared [OF br names, where Cs = Cs and n = n]
  have t: "tidy (st_drives st)" "plain_comp b" using br by (auto simp: bucket_ready_def)
  have sub: "set (listed_keys (st_drives ?st) b []) \<subseteq> set (listed_keys (st_drives st) b [])"
    by (rule listed_keys_shrunk [OF t(1) spared_tidy [OF sp t(1)] spared_shrunk [OF sp] t(2)])
  have kept: "readable (st_drives st) b k \<and> k \<notin> om_key ` set (ls_objects l)"
    if "k \<in> left_keys (st_drives ?st) b" for k
  proof -
    from that sub have "k \<in> set (listed_keys (st_drives st) b [])" "readable (st_drives ?st) b k" by (auto simp: left_keys_def)
    moreover from this listed_key_names(1) [OF t] have "ready b k (st_drives st)" using br by (simp add: ready_bucket)
    ultimately show ?thesis using delete_page_target(2) [OF _ names] by blast
  qed
  have fst_obj: "hd (ls_objects l) \<in> set (ls_objects l)" using ne by simp
  have "om_key (hd (ls_objects l)) \<in> left_keys (st_drives st) b" by (rule listed_readable(1) [OF br l fst_obj])
  moreover have "om_key (hd (ls_objects l)) \<notin> left_keys (st_drives ?st) b" using kept fst_obj by blast
  moreover have "left_keys (st_drives ?st) b \<subseteq> left_keys (st_drives st) b" using kept sub by (auto simp: left_keys_def)
  ultimately show ?thesis by blast
qed

text \<open>The loop ends, and an object that cannot be read when it starts, or that its first page lists, is gone.\<close>

lemma drain_ends:
  assumes "bucket_ready b (st_drives st)"
  shows "\<exists>st' r. drain_bucket Cs b (n, st) = Some (st', r) \<and> bucket_ready b (st_drives st')
    \<and> (\<forall>k. valid_names b k \<and> \<not> readable (st_drives st) b k \<longrightarrow> \<not> readable (st_drives st') b k)"
  using assms
proof (induction "card (left_keys (st_drives st) b)" arbitrary: n st rule: less_induct)
  case less
  show ?case
  proof (cases "list_objects_v2 (st_drives st) b [] None None None 1000")
    case (Inl e)
    with less.prems show ?thesis by (subst drain_bucket.simps) auto
  next
    case (Inr l)
    show ?thesis
    proof (cases "ls_objects l = []")
      case True
      with Inr less.prems show ?thesis by (subst drain_bucket.simps) auto
    next
      case False
      obtain n1 st1 where p: "delete_page Cs b (ls_objects l) (n, st) = (n1, st1)" by fastforce
      have names: "\<forall>obj \<in> set (ls_objects l). valid_names b (om_key obj)" using listed_readable(2) [OF less.prems Inr] by blast
      have br: "bucket_ready b (st_drives st1)" using delete_page_ready [OF less.prems names False, where Cs = Cs and n = n] by (simp add: p)
      have fin: "finite (left_keys (st_drives st) b)" by (simp add: left_keys_def)
      have "card (left_keys (st_drives st1) b) < card (left_keys (st_drives st) b)"
        using psubset_card_mono [OF fin left_keys_decrease [OF less.prems Inr False, where Cs = Cs and n = n]] by (simp add: p)
      from less.hyps [OF this br, of n1] obtain st' r where run: "drain_bucket Cs b (n1, st1) = Some (st', r)"
        "bucket_ready b (st_drives st')" "\<forall>k. valid_names b k \<and> \<not> readable (st_drives st1) b k \<longrightarrow> \<not> readable (st_drives st') b k"
        by blast
      have "\<not> readable (st_drives st1) b k" if "valid_names b k" "\<not> readable (st_drives st) b k" for k
        using delete_page_target(2) [OF _ names, where k = k and Cs = Cs and n = n] less.prems that by (auto simp: p ready_bucket)
      with run have "bucket_ready b (st_drives st') \<and>
        (\<forall>k. valid_names b k \<and> \<not> readable (st_drives st) b k \<longrightarrow> \<not> readable (st_drives st') b k)" by blast
      moreover from Inr False p run(1) have "drain_bucket Cs b (n, st) = Some (st', r)" by (subst drain_bucket.simps) simp
      ultimately show ?thesis by blast
    qed
  qed
qed

section \<open>What the first page lists\<close>

lemma page_loop_short:
  "n + length keys \<le> mx \<Longrightarrow> pg_chosen (page_loop pre None None None mx keys ch co n) = ch @ keys"
  by (induction keys arbitrary: ch n) (auto simp: skipped_def common_prefix_def)

lemma first_page_lists:
  assumes rd: "ready b k ds" and rb: "readable ds b k"
    and listed: "k \<in> set (listed_keys ds b [])" and few: "length (listed_keys ds b []) \<le> 1000"
  obtains l where "list_objects_v2 ds b [] None None None 1000 = Ok l" "k \<in> om_key ` set (ls_objects l)"
proof -
  let ?pg = "page_loop [] None None None 1000 (listed_keys ds b []) [] [] 0"
  from readable_bucket [OF rd rb] have l: "list_objects_v2 ds b [] None None None 1000 = Ok
      \<lparr> ls_objects = read_objects ds b (pg_chosen ?pg), ls_common_prefixes = sort (pg_common ?pg),
        ls_is_truncated = pg_truncated ?pg, ls_next_continuation_token = pg_next ?pg \<rparr>"
    by (simp add: list_objects_v2_def Let_def)
  from rb obtain m where m: "read_xl ds b k = Ok m" unfolding readable_def by (cases "read_xl ds b k") auto
  have "k \<in> set (pg_chosen ?pg)" using page_loop_short [of 0 "listed_keys ds b []" 1000] few listed by simp
  with m have "meta_to_object k m \<in> set (read_objects ds b (pg_chosen ?pg))" by (force simp: read_objects_def)
  moreover have "om_key (meta_to_object k m) = k" by (simp add: meta_to_object_def)
  ultimately have "k \<in> om_key ` set (read_objects ds b (pg_chosen ?pg))" by force
  with l show thesis by (intro that [OF l]) simp
qed

lemma drain_target:
  assumes rd: "ready b k (st_drives st)" and rb: "readable (st_drives st) b k"
    and listed: "k \<in> set (listed_keys (st_drives st) b [])" and few: "length (listed_keys (st_drives st) b []) \<le> 1000"
  shows "\<exists>st' r. drain_bucket Cs b (n, st) = Some (st', r) \<and> bucket_ready b (st_drives st') \<and> \<not> readable (st_drives st') b k"
proof -
  from first_page_lists [OF assms] obtain l where l: "list_objects_v2 (st_drives st) b [] None None None 1000 = Ok l"
    "k \<in> om_key ` set (ls_objects l)" .
  have br: "bucket_ready b (st_drives st)" "valid_names b k" using rd by (simp_all add: ready_bucket)
  have names: "\<forall>obj \<in> set (ls_objects l). valid_names b (om_key obj)" using listed_readable(2) [OF br(1) l(1)] by blast
  have ne: "ls_objects l \<noteq> []" using l(2) by auto
  obtain n1 st1 where p: "delete_page Cs b (ls_objects l) (n, st) = (n1, st1)" by fastforce
  have "\<not> readable (st_drives st1) b k"
    using delete_page_target(2) [OF rd names, where Cs = Cs and n = n] l(2) by (auto simp: p)
  moreover have "bucket_ready b (st_drives st1)"
    using delete_page_ready [OF br(1) names ne, where Cs = Cs and n = n] by (simp add: p)
  ultimately obtain st' r where "drain_bucket Cs b (n1, st1) = Some (st', r)" "bucket_ready b (st_drives st')"
    "\<not> readable (st_drives st') b k"
    using drain_ends [of b st1 Cs n1] br(2) by blast
  moreover from l(1) ne p have "drain_bucket Cs b (n, st) = drain_bucket Cs b (n1, st1)" by (subst drain_bucket.simps) simp
  ultimately show ?thesis by auto
qed

lemma delete_bucket_target:
  assumes br: "bucket_ready b (st_drives st)" and names: "valid_names b k" and un: "\<not> readable (st_drives st) b k"
  shows "\<not> readable (st_drives (fst (delete_bucket st b))) b k"
proof (cases "fst (delete_bucket st b) = st")
  case False
  let ?cfg = "pjoin (pjoin (path_new SYS_DIR) ''buckets'') b"
  let ?ds' = "map (\<lambda>d. fst (drive_remove_dir_all (fst (drive_remove_dir_all d (r_bucket b))) ?cfg)) (st_drives st)"
  from br have t: "tidy (st_drives st)" "plain_comp b" by (simp_all add: bucket_ready_def)
  have paths: "r_bucket b = PathBuf False [b]" "?cfg = PathBuf False [SYS_DIR, ''buckets'', b]"
    using t(2) by (simp_all add: r_bucket_plain pjoin_plain path_new_plain plain_comp_def SYS_DIR_def)
  have safe: "safe [b]" "safe [SYS_DIR, ''buckets'', b]" using t(2) by (simp_all add: plain_comp_def SYS_DIR_def)
  have "drive_wf (fst (drive_remove_dir_all (fst (drive_remove_dir_all d (r_bucket b))) ?cfg))" if "d \<in> set (st_drives st)" for d
    unfolding paths using tidyD(1) [OF t(1) that] safe by (intro drive_remove_dir_all_eq(3)) simp_all
  then have "spared (\<lambda>_. False) (st_drives st) ?ds'"
    by (auto simp: spared_def list_all2_conv_all_nth intro: shrunk_trans [OF shrunk_remove(1) shrunk_remove(1)])
  moreover have "st_drives (fst (delete_bucket st b)) = ?ds'"
    using False by (auto simp: delete_bucket_def Let_def split: sum.splits)
  ultimately show ?thesis
    using shrunk_read_xl [OF t(1) _ names] un by (auto simp: readable_def)
qed (simp add: un)

section \<open>Properties of deletion\<close>

text \<open>C36: the console does not look at object lock.  An object under a legal hold or a retention that has not ended,
in an unversioned bucket of at most a thousand keys on drives that fail nothing: the S3 \<open>DELETE\<close> is refused and
changes nothing; the console's deletion of the object removes it, and so does its forced deletion of the bucket, which
comes to an end.\<close>

theorem console_ignores_object_lock:
  assumes "object_locked (ap_http A) (ss_store s) b k now" and "whole_object (parse_query (ap_http A) query)" and "k \<noteq> []"
    and rd: "ready b k (st_drives (ss_store s))" and rb: "readable (st_drives (ss_store s)) b k"
    and listed: "k \<in> set (listed_keys (st_drives (ss_store s)) b [])" "length (listed_keys (st_drives (ss_store s)) b []) \<le> 1000"
    and session: "session_ok E (cc_now c) hs"
  shows "delete_object_dispatch A C now (ss_store s) b k query = (ss_store s, error_reply ObjectLocked (resource_of b k))
    \<and> (\<exists>s' a. console_serve E c hs True (DeleteObject b k []) s = Some (s', a) \<and> \<not> readable (st_drives (ss_store s')) b k)
    \<and> (\<exists>s' a. console_serve E c hs True (DeleteBucket b [(''force'', ''true'')]) s = Some (s', a)
          \<and> \<not> readable (st_drives (ss_store s')) b k)"
proof (intro conjI)
  show "delete_object_dispatch A C now (ss_store s) b k query = (ss_store s, error_reply ObjectLocked (resource_of b k))"
    using assms(1-3) by (simp add: delete_whole_object check_object_lock_eq)
  have names: "valid_names b k" using rd by (simp add: ready_bucket)
  show "\<exists>s' a. console_serve E c hs True (DeleteObject b k []) s = Some (s', a) \<and> \<not> readable (st_drives (ss_store s')) b k"
    using delete_step(2) [OF rd names, of "in_background (cc_calls c 0)"] session
    by (auto simp: console_serve_def console_delete_object_def on_store_def split: prod.splits)
  from drain_target [OF rd rb listed] obtain st' r where run: "drain_bucket (cc_calls c) b (0, ss_store s) = Some (st', r)"
    "bucket_ready b (st_drives st')" "\<not> readable (st_drives st') b k" by blast
  show "\<exists>s' a. console_serve E c hs True (DeleteBucket b [(''force'', ''true'')]) s = Some (s', a)
          \<and> \<not> readable (st_drives (ss_store s')) b k"
    using run(1,3) session delete_bucket_target [OF run(2) names run(3)]
    by (cases r) (auto simp: console_serve_def console_delete_bucket_def force_param_def on_store_def split: prod.splits)
qed

text \<open>An example: the held object of \<open>ex_shared\<close>, and a session signed with the root password.\<close>

definition ex_config :: config where
  "ex_config = config_from_env (\<lambda>_. None)"

definition ex_console :: console_env where
  "ex_console = \<lparr> ce_app = ex_app, ce_iam = ex_iam_lib,
     ce_oidc_lib = \<lparr> ol_get = (\<lambda>u. FetchFailed []), ol_post = (\<lambda>u f. FetchFailed []), ol_header = (\<lambda>t. Err []),
       ol_key_error = (\<lambda>n e. None), ol_decode = (\<lambda>n e i a t. Err []), ol_encode = id, ol_rfc3339 = (\<lambda>t. None) \<rparr>,
     ce_oidc = None, ce_config = ex_config, ce_posture = pass_posture, ce_version = [], ce_iso8601 = (\<lambda>t. []),
     ce_created = (\<lambda>b. []), ce_index = [] \<rparr>"

definition ex_call :: console_call where
  "ex_call = \<lparr> cc_now = 1000, cc_calls = (\<lambda>n. ex_ctx ''u''), cc_io = (\<lambda>n. PersistOk), cc_random = [] \<rparr>"

definition ex_session :: header_map where
  "ex_session = [(''authorization'', ''Bearer '' @ issue_token ex_iam_lib ''minioadmin'' 900)]"

definition ex_state :: server_state where
  "ex_state = \<lparr> ss_iam = ex_iam, ss_users_file = None, ss_store = ex_shared \<rparr>"

lemma ex_session_ok: "session_ok ex_console (cc_now ex_call) ex_session"
proof -
  have pw: "cf_root_password (ce_config ex_console) = ''minioadmin''"
    by (simp add: ex_console_def ex_config_def config_from_env_def env_or_def env_var_def resolve_var_def ENV_PREFIXES_def)
  have d: "map digit_char [4, 4, 1, 0, 0] = ''44100''" by code_simp
  have "show_i64 44100 = ''44100''"
    unfolding d [symmetric] by (simp add: show_i64_def show_radix.simps)
  moreover have "hmac_sha256 ex_iam_lib ''minioadmin'' (str_bytes ''44100'') = replicate 32 15"
    by (simp add: hmac_sha256_def ex_iam_lib_def str_bytes_def)
  moreover have "list_all visible_ascii (''44100'' @ ''.'' @ hex_encode (replicate 32 15))" by code_simp
  ultimately have "list_all visible_ascii (issue_token ex_iam_lib ''minioadmin'' 900)"
    by (simp add: issue_token_def sign_def TOKEN_TTL_SECONDS_def)
  then have hdr: "header_str ex_session ''authorization'' = Some (''Bearer '' @ issue_token ex_iam_lib ''minioadmin'' 900)"
    by (simp add: ex_session_def header_str_def ascii_lowercase_def ascii_lower_char_def is_ascii_upper_def visible_ascii_def)
  have bearer: "Option.bind (header_str ex_session ''authorization'') (strip_prefix ''Bearer '')
      = Some (issue_token ex_iam_lib ''minioadmin'' 900)"
    by (simp only: hdr bind.simps strip_prefix_append)
  have env: "ce_iam ex_console = ex_iam_lib" "cc_now ex_call = 1000" by (simp_all add: ex_console_def ex_call_def)
  have "verify_token ex_iam_lib ''minioadmin'' (issue_token ex_iam_lib ''minioadmin'' 900) 1000"
    using verify_issued [of 900 ex_iam_lib "''minioadmin''" 1000] by simp
  then show ?thesis
    unfolding session_ok_def bearer by (simp add: env pw)
qed

lemma ex_shared_ready: "ready ''reports'' ''held'' (st_drives ex_shared)"
proof -
  have "valid_names ''reports'' ''held''" "''reports'' \<noteq> SYS_DIR" "vmode (st_drives ex_shared) ''reports'' = Off"
    by code_simp+
  with ex_shared_tidy ex_shared_healthy show ?thesis by (simp add: ready_def list_all_iff)
qed

lemma ex_shared_keys: "listed_keys (st_drives ex_shared) ''reports'' [] = [''held'']"
  by code_simp

theorem console_ignores_object_lock_witness:
  "snd (delete_object_dispatch ex_app (ex_ctx ''u'') 0 ex_shared ''reports'' ''held'' None) = error_reply ObjectLocked ''/reports/held'' \<and>
   (\<exists>s' a. console_serve ex_console ex_call ex_session True (DeleteBucket ''reports'' [(''force'', ''true'')]) ex_state = Some (s', a)
      \<and> \<not> readable (st_drives (ss_store s')) ''reports'' ''held'')"
proof -
  have st: "ss_store ex_state = ex_shared" by (simp add: ex_state_def)
  have h: "object_locked (ap_http ex_app) (ss_store ex_state) ''reports'' ''held'' 0" "whole_object (parse_query (ap_http ex_app) None)"
    "(''held'' :: string) \<noteq> []" "readable (st_drives (ss_store ex_state)) ''reports'' ''held''"
    "resource_of ''reports'' ''held'' = ''/reports/held''"
    by code_simp+
  have k: "''held'' \<in> set (listed_keys (st_drives (ss_store ex_state)) ''reports'' [])"
    "length (listed_keys (st_drives (ss_store ex_state)) ''reports'' []) \<le> 1000"
    by (simp_all add: st ex_shared_keys)
  from console_ignores_object_lock [OF h(1-3) ex_shared_ready [folded st] h(4) k ex_session_ok] show ?thesis
    by (simp add: st h(5))
qed

section \<open>Drives that refuse\<close>

definition refuses :: "drive \<Rightarrow> bool" where
  "refuses d \<longleftrightarrow> (\<forall>p. drv_fault d OpRemoveDirAll p \<and> drv_fault d OpRemoveDir p)"

lemma refuses_remove: "refuses d \<Longrightarrow> remove_object_dir b rel d = d"
  by (subst remove_object_dir_def)
    (simp add: Let_def refuses_def drive_remove_dir_all_def drive_remove_dir_def reach_def prune_empty.simps split: option.splits)

lemma delete_refused:
  assumes "vmode (st_drives st) b = Off" and "\<forall>d \<in> set (st_drives st). refuses d"
  shows "fst (delete_object C st b k) = st"
  using assms by (simp add: delete_object_def map_idI refuses_remove split: sum.splits)

lemma delete_page_refused:
  assumes "vmode (st_drives st) b = Off" and "\<forall>d \<in> set (st_drives st). refuses d"
  shows "snd (delete_page Cs b objs (n, st)) = st"
  by (induction objs arbitrary: n) (simp_all add: delete_refused [OF assms])

lemma drain_returns:
  assumes "drain_bucket Cs' b' p = Some y"
    and st: "vmode (st_drives st) b = Off" "\<forall>d \<in> set (st_drives st). refuses d"
    and l: "list_objects_v2 (st_drives st) b [] None None None 1000 = Ok l" "ls_objects l \<noteq> []"
  shows "b' = b \<longrightarrow> snd p \<noteq> st"
proof (rule drain_bucket.raw_induct [where P = "\<lambda>_ b' p _. b' = b \<longrightarrow> snd p \<noteq> st", OF _ assms(1)])
  fix drain Cs b' p y
  assume ih: "\<And>Cs b' p y. drain Cs b' p = Some y \<Longrightarrow> b' = b \<longrightarrow> snd p \<noteq> st"
    and run: "(case list_objects_v2 (st_drives (snd p)) b' [] None None None 1000 of
        Err e \<Rightarrow> Some (snd p, Err e)
      | Ok l \<Rightarrow> if ls_objects l = [] then Some (snd p, Ok ())
          else drain Cs b' (delete_page Cs b' (ls_objects l) p)) = Some (y :: store \<times> unit result)"
  show "b' = b \<longrightarrow> snd p \<noteq> st"
  proof (intro impI notI)
    assume eq: "b' = b" "snd p = st"
    then have p: "snd (delete_page Cs b' (ls_objects l) p) = st"
      using delete_page_refused [OF st, of Cs "ls_objects l" "fst p"] by (metis prod.collapse)
    from run eq l have "drain Cs b' (delete_page Cs b' (ls_objects l) p) = Some y" by simp
    from ih [OF this] eq(1) p show False by blast
  qed
qed

lemma drain_spins:
  assumes "vmode (st_drives st) b = Off" "\<forall>d \<in> set (st_drives st). refuses d"
    and "list_objects_v2 (st_drives st) b [] None None None 1000 = Ok l" "ls_objects l \<noteq> []"
  shows "drain_bucket Cs b (n, st) = None"
  using drain_returns [OF _ assms, of Cs b "(n, st)"] by (cases "drain_bucket Cs b (n, st)") auto

text \<open>C37: a forced deletion of a bucket over the console ends when the drives work and only then.  On drives that fail
nothing the loop over an unversioned bucket comes to an end, with the bucket still in order; on drives that refuse to
remove directories the request for a bucket with an object on its first page is never answered.\<close>

theorem force_delete_ends_iff_drives_remove:
  assumes "session_ok E (cc_now c) hs" and "vmode (st_drives (ss_store s)) b = Off" and "b \<noteq> SYS_DIR" "plain_comp b"
  shows "(tidy (st_drives (ss_store s)) \<and> list_all healthy (st_drives (ss_store s)) \<longrightarrow>
      console_serve E c hs True (DeleteBucket b [(''force'', ''true'')]) s \<noteq> None)
    \<and> (list_all refuses (st_drives (ss_store s)) \<and>
      list_objects_v2 (st_drives (ss_store s)) b [] None None None 1000 = Ok l \<and> ls_objects l \<noteq> [] \<longrightarrow>
      console_serve E c hs True (DeleteBucket b [(''force'', ''true'')]) s = None)"
proof (intro conjI)
  have serve: "console_serve E c hs True (DeleteBucket b [(''force'', ''true'')]) s = None \<longleftrightarrow>
      drain_bucket (cc_calls c) b (0, ss_store s) = None"
    using assms(1) by (auto simp: console_serve_def console_delete_bucket_def force_param_def split: option.splits sum.splits)
  show "tidy (st_drives (ss_store s)) \<and> list_all healthy (st_drives (ss_store s)) \<longrightarrow>
      console_serve E c hs True (DeleteBucket b [(''force'', ''true'')]) s \<noteq> None"
    using drain_ends [of b "ss_store s" "cc_calls c" 0] assms(2-4) serve by (auto simp: bucket_ready_def)
  show "list_all refuses (st_drives (ss_store s)) \<and>
      list_objects_v2 (st_drives (ss_store s)) b [] None None None 1000 = Ok l \<and> ls_objects l \<noteq> [] \<longrightarrow>
      console_serve E c hs True (DeleteBucket b [(''force'', ''true'')]) s = None"
    using drain_spins [OF assms(2)] serve by (auto simp: list_all_iff)
qed

definition ex_stuck_state :: server_state where
  "ex_stuck_state = ex_state \<lparr> ss_store := ex_shared \<lparr> st_drives :=
     map (\<lambda>d. d \<lparr> drv_fault := (\<lambda>op p. op = OpRemoveDirAll \<or> op = OpRemoveDir) \<rparr>) (st_drives ex_shared) \<rparr> \<rparr>"

lemma ex_stuck:
  "vmode (st_drives (ss_store ex_stuck_state)) ''reports'' = Off"
  "case list_objects_v2 (st_drives (ss_store ex_stuck_state)) ''reports'' [] None None None 1000 of Ok l \<Rightarrow> ls_objects l \<noteq> [] | Err e \<Rightarrow> False"
  by code_simp+

lemma ex_stuck_refuses: "list_all refuses (st_drives (ss_store ex_stuck_state))"
  by (simp add: ex_stuck_state_def list_all_iff refuses_def)

theorem force_delete_ends_iff_drives_remove_witness:
  "console_serve ex_console ex_call ex_session True (DeleteBucket ''reports'' [(''force'', ''true'')]) ex_state \<noteq> None \<and>
   console_serve ex_console ex_call ex_session True (DeleteBucket ''reports'' [(''force'', ''true'')]) ex_stuck_state = None"
proof -
  have b: "''reports'' \<noteq> SYS_DIR" "plain_comp ''reports''" "vmode (st_drives (ss_store ex_state)) ''reports'' = Off" by code_simp+
  have st: "ss_store ex_state = ex_shared" by (simp add: ex_state_def)
  have healthy: "list_all healthy (st_drives ex_shared)" using ex_shared_healthy by (simp add: list_all_iff)
  obtain l where "list_objects_v2 (st_drives (ss_store ex_stuck_state)) ''reports'' [] None None None 1000 = Ok l" "ls_objects l \<noteq> []"
    using ex_stuck(2) by (auto split: sum.splits)
  with force_delete_ends_iff_drives_remove [OF ex_session_ok ex_stuck(1) b(1,2), of l] ex_stuck_refuses
    force_delete_ends_iff_drives_remove [OF ex_session_ok b(3,1,2)] healthy ex_shared_tidy
  show ?thesis by (simp add: st)
qed

end
