(* ===== verification/Startup.thy ===== *)
theory Startup
  imports Oidc Kms Cluster Fs_Store
begin

text \<open>
  \<open>src/main.rs\<close>, \<open>src/tls.rs\<close> and \<open>ClusterTls::from_env\<close> of \<open>src/cluster/mtls.rs\<close>: the command line over the
  environment, the choice of a deployment profile, of a key provider and of a storage backend, and the steps of a
  start in the order in which any of them may refuse.  The operating system, the TLS libraries, Vault, the identity
  provider and the disks are arguments.
\<close>

section \<open>The command line\<close>

text \<open>\<open>KP_DEBUG\<close> as a log directive.\<close>

definition debug_directive :: "string \<Rightarrow> string" where
  "debug_directive v =
     (let l = ascii_lowercase (trim v)
      in if l = [] then ''info'' else if l \<in> {''true'', ''1'', ''on'', ''yes''} then ''debug'' else trim v)"

text \<open>How reading the command line ends: text is printed, a message and code 2, or the start goes on.\<close>

datatype cli = CliHelp | CliVersion | CliNeedsValue string | CliUnknownFlag string | CliRun environment

definition set_env :: "environment \<Rightarrow> string \<Rightarrow> string \<Rightarrow> environment" where
  "set_env env name v = env(name := Some v)"

definition set_env_addr :: "environment \<Rightarrow> string \<Rightarrow> string \<Rightarrow> environment" where
  "set_env_addr env name addr =
     set_env env name (case strip_prefix '':'' addr of Some port \<Rightarrow> ''0.0.0.0:'' @ port | None \<Rightarrow> addr)"

text \<open>\<open>Path::join\<close> with a relative name, on paths kept as strings.\<close>

definition path_join :: "string \<Rightarrow> string \<Rightarrow> string" where
  "path_join dir name = (if dir = [] \<or> last dir = CHR ''/'' then dir @ name else dir @ ''/'' @ name)"

definition apply_certs_dir :: "environment \<Rightarrow> string \<Rightarrow> environment" where
  "apply_certs_dir env dir =
     set_env (set_env (set_env env ''KP_TLS'' ''true'') ''KP_TLS_CERT'' (path_join dir ''public.crt''))
       ''KP_TLS_KEY'' (path_join dir ''private.key'')"

definition apply_paths :: "environment \<Rightarrow> string list \<Rightarrow> environment" where
  "apply_paths env paths =
     (case paths of
        [] \<Rightarrow> env
      | [p] \<Rightarrow> set_env env ''KP_DATA_DIR'' p
      | _ \<Rightarrow> set_env env ''KP_ERASURE_DRIVES'' (join_with '','' paths))"

definition IGNORED_FLAGS :: "string list" where
  "IGNORED_FLAGS = [''--quiet'', ''-q'', ''--anonymous'', ''--json'', ''--no-compat'']"

text \<open>The loop over the arguments; \<open>paths\<close> are those met so far.\<close>

fun cli_loop :: "environment \<Rightarrow> string list \<Rightarrow> string list \<Rightarrow> cli" where
  "cli_loop env paths [] = CliRun (apply_paths env paths)"
| "cli_loop env paths (a # rest) =
     (if a = ''-h'' \<or> a = ''--help'' then CliHelp
      else if a = ''--address'' then
        (case rest of [] \<Rightarrow> CliNeedsValue ''--address''
         | v # rest' \<Rightarrow> cli_loop (set_env_addr env ''KP_ADDRESS'' v) paths rest')
      else if a = ''--console-address'' then
        (case rest of [] \<Rightarrow> CliNeedsValue ''--console-address''
         | v # rest' \<Rightarrow> cli_loop (set_env_addr env ''KP_CONSOLE_ADDRESS'' v) paths rest')
      else if a = ''--certs-dir'' \<or> a = ''-C'' then
        (case rest of [] \<Rightarrow> CliNeedsValue ''--certs-dir''
         | v # rest' \<Rightarrow> cli_loop (apply_certs_dir env v) paths rest')
      else if a \<in> set IGNORED_FLAGS then cli_loop env paths rest
      else if starts_with a ''-'' then CliUnknownFlag a
      else cli_loop env (paths @ [a]) rest)"

text \<open>\<open>args\<close> without the program's name.\<close>

definition apply_cli :: "environment \<Rightarrow> string list \<Rightarrow> cli" where
  "apply_cli env args =
     (case args of
        [] \<Rightarrow> CliRun env
      | a # rest \<Rightarrow>
          if a = ''-h'' \<or> a = ''--help'' then CliHelp
          else if a = ''-v'' \<or> a = ''-V'' \<or> a = ''--version'' then CliVersion
          else cli_loop env [] (if a = ''server'' then rest else args))"

section \<open>The surroundings\<close>

text \<open>
  \<open>su_disk\<close> is the file tree under a local directory, \<open>su_remote\<close> the drive behind a node's URL; a function into
  \<open>string option\<close> gives the error of a step, if it fails: creating a directory, parsing a socket address, opening
  the access log, loading a certificate and its key, writing a file, building the two ends of mutual TLS.
  \<open>su_vault\<close> and \<open>su_vault_again\<close> are Vault's answers at the two calls of the provider's check.
\<close>

record surroundings =
  su_env :: environment
  su_read_file :: "string \<Rightarrow> string + bytes"
  su_keys :: key_dir
  su_entropy :: key_entropy
  su_key_lib :: key_lib
  su_crypto :: crypto_lib
  su_vault :: vault
  su_vault_again :: vault
  su_now :: nat
  su_victim :: nat
  su_mkdir :: "string \<Rightarrow> string option"
  su_disk :: "string \<Rightarrow> drive"
  su_remote :: "string \<Rightarrow> drive"
  su_store_env :: store_env
  su_users :: users_file
  su_oidc :: oidc_lib
  su_addr :: "string \<Rightarrow> string option"
  su_log :: "string \<Rightarrow> string option"
  su_exists :: "string \<Rightarrow> bool"
  su_write :: "string \<Rightarrow> string \<Rightarrow> string option"
  su_pem_file :: "string \<Rightarrow> string \<Rightarrow> string option"
  su_pem :: "string \<Rightarrow> string \<Rightarrow> string option"
  su_self_signed :: "string + string \<times> string"
  su_client_tls :: "bytes \<Rightarrow> bytes \<Rightarrow> bytes \<Rightarrow> string option"
  su_server_tls :: "bytes \<Rightarrow> bytes \<Rightarrow> bytes \<Rightarrow> string option"

section \<open>TLS\<close>

record cluster_tls =
  ct_ca :: bytes
  ct_cert :: bytes
  ct_key :: bytes

definition cluster_pem :: "surroundings \<Rightarrow> environment \<Rightarrow> string \<Rightarrow> string + bytes" where
  "cluster_pem W env name =
     (case env_given env name of
        None \<Rightarrow> Err (''KP_CLUSTER_TLS=true requires KP_'' @ name)
      | Some path \<Rightarrow>
          (case su_read_file W path of
             Err e \<Rightarrow> Err (''KP_'' @ name @ '' ('' @ path @ ''): '' @ e) | Ok c \<Rightarrow> Ok c))"

definition cluster_tls_from_env :: "surroundings \<Rightarrow> environment \<Rightarrow> string + cluster_tls option" where
  "cluster_tls_from_env W env =
     (if env_var env ''CLUSTER_TLS'' \<noteq> Some ''true'' then Ok None
      else case cluster_pem W env ''CLUSTER_TLS_CA'' of Err e \<Rightarrow> Err e | Ok ca \<Rightarrow>
        (case cluster_pem W env ''CLUSTER_TLS_CERT'' of Err e \<Rightarrow> Err e | Ok cert \<Rightarrow>
        (case cluster_pem W env ''CLUSTER_TLS_KEY'' of Err e \<Rightarrow> Err e | Ok key \<Rightarrow>
           Ok (Some \<lparr> ct_ca = ca, ct_cert = cert, ct_key = key \<rparr>))))"

definition TLS_CERT_FILE :: string where "TLS_CERT_FILE = ''tls-cert.pem''"
definition TLS_KEY_FILE :: string where "TLS_KEY_FILE = ''tls-key.pem''"

text \<open>Which certificate the server presents.\<close>

datatype tls_identity = TlsProvided string string | TlsReused string string | TlsGenerated string string

definition fails_with :: "string option \<Rightarrow> 'a \<Rightarrow> string + 'a" where
  "fails_with e x = (case e of Some m \<Rightarrow> Err m | None \<Rightarrow> Ok x)"

definition build_rustls_config :: "surroundings \<Rightarrow> config \<Rightarrow> string + tls_identity" where
  "build_rustls_config W c =
     (case (cf_tls_cert c, cf_tls_key c) of
        (Some cert, Some key) \<Rightarrow> fails_with (su_pem_file W cert key) (TlsProvided cert key)
      | _ \<Rightarrow>
          (let sys_dir = path_join (cf_data_dir c) ''.kerplace.sys'';
               cert_path = path_join sys_dir TLS_CERT_FILE; key_path = path_join sys_dir TLS_KEY_FILE
           in if su_exists W cert_path \<and> su_exists W key_path
              then fails_with (su_pem_file W cert_path key_path) (TlsReused cert_path key_path)
              else case su_self_signed W of Err e \<Rightarrow> Err e | Ok (cert, key) \<Rightarrow>
                (case su_mkdir W sys_dir of Some e \<Rightarrow> Err e | None \<Rightarrow>
                (case su_write W cert_path cert of Some e \<Rightarrow> Err e | None \<Rightarrow>
                (case su_write W key_path key of Some e \<Rightarrow> Err e | None \<Rightarrow>
                   fails_with (su_pem W cert key) (TlsGenerated cert key))))))"

section \<open>The storage backend\<close>

text \<open>An entry \<open>index=address\<close> of \<open>KP_NODES\<close>.\<close>

definition parse_node :: "string \<Rightarrow> string + nat \<times> string" where
  "parse_node p =
     (case split_once (CHR ''='') p of
        None \<Rightarrow> Err (''cluster node entry needs idx=addr: '' @ p)
      | Some (i, addr) \<Rightarrow>
          (case parse_u64 (trim i) of
             None \<Rightarrow> Err (''bad node index: '' @ i) | Some n \<Rightarrow> Ok (n, trim addr)))"

fun parse_nodes :: "string list \<Rightarrow> string + (nat \<times> string) list" where
  "parse_nodes [] = Ok []"
| "parse_nodes (p # ps) =
     (case parse_node p of
        Err e \<Rightarrow> Err e
      | Ok x \<Rightarrow> (case parse_nodes ps of Err e \<Rightarrow> Err e | Ok xs \<Rightarrow> Ok (x # xs)))"

text \<open>A comma-separated list without its blank pieces.\<close>

definition comma_list :: "string \<Rightarrow> string list" where
  "comma_list v = filter (\<lambda>s. s \<noteq> []) (map trim (split_on (CHR '','') v))"

definition node_entries :: "string \<Rightarrow> string + (nat \<times> string) list" where
  "node_entries v =
     (case parse_nodes (comma_list v) of Err e \<Rightarrow> Err e | Ok xs \<Rightarrow> Ok (sort_key fst xs))"

definition node_url :: "string \<Rightarrow> string \<Rightarrow> string" where
  "node_url scheme addr = (if starts_with addr ''http'' then addr else scheme @ ''://'' @ addr)"

datatype slot_place = LocalSlot string | RemoteSlot string

definition place_of :: "config \<Rightarrow> nat option \<Rightarrow> string \<Rightarrow> nat \<times> string \<Rightarrow> slot_place" where
  "place_of c self scheme = (\<lambda>(i, addr).
     if Some i = self then LocalSlot (cf_data_dir c) else RemoteSlot (node_url scheme addr))"

definition place_drive :: "surroundings \<Rightarrow> slot_place \<Rightarrow> drive" where
  "place_drive W s = (case s of LocalSlot dir \<Rightarrow> su_disk W dir | RemoteSlot base \<Rightarrow> su_remote W base)"

text \<open>The redundancy and the block size: a value that is no number counts as absent.\<close>

definition env_number :: "environment \<Rightarrow> string \<Rightarrow> nat \<Rightarrow> nat" where
  "env_number env name alt = (case Option.bind (env_var env name) parse_u64 of Some n \<Rightarrow> n | None \<Rightarrow> alt)"

definition erasure_params :: "environment \<Rightarrow> nat \<Rightarrow> nat \<times> nat" where
  "erasure_params env n = (env_number env ''ERASURE_PARITY'' (n div 2), env_number env ''ERASURE_BLOCK'' (2 ^ 20))"

datatype start_error =
    BadProfile string | SealedUnmet "string list" | BadDriveAddress string | DirectoryFailed string
  | KeyProviderFailed key_error | KeyProviderNotReady string key_error | BadNodes string | ClusterTlsFailed string
  | StoreFailed s3error | SealedWithoutIdp | AccessLogFailed string | TlsFailed string | BadAddress string

text \<open>The bases of the lock nodes, \<open>None\<close> when locks are local only.\<close>

datatype backend = FsBackend fs_store | ErasureBackend store "string list option"

definition open_drives :: "surroundings \<Rightarrow> environment \<Rightarrow> config \<Rightarrow> drive list \<Rightarrow> start_error + store" where
  "open_drives W env c ds =
     (case erasure_params env (length ds) of
        (parity, block) \<Rightarrow>
          (case with_drives (su_store_env W) ds (cf_encryption_enabled c) parity block of
             Err e \<Rightarrow> Err (StoreFailed e) | Ok st \<Rightarrow> Ok st))"

text \<open>
  The gateway: its slots in the order of their indices, the one it hosts itself on its data directory; the lock nodes
  are the other slots, addressed over plain HTTP.
\<close>

definition lock_bases :: "environment \<Rightarrow> nat option \<Rightarrow> (nat \<times> string) list \<Rightarrow> string list option" where
  "lock_bases env self entries =
     (if env_var env ''CLUSTER_LOCKS'' \<noteq> Some ''true'' then None
      else let bases = map (\<lambda>(_, addr). node_url ''http'' addr) (filter (\<lambda>(i, _). Some i \<noteq> self) entries)
           in if bases = [] then None else Some bases)"

definition gateway_places :: "environment \<Rightarrow> config \<Rightarrow> cluster_tls option \<Rightarrow> (nat \<times> string) list \<Rightarrow> slot_place list" where
  "gateway_places env c tls entries =
     (let self = Option.bind (env_var env ''NODE_INDEX'') parse_u64;
          scheme = (if tls \<noteq> None then ''https'' else ''http'')
      in map (place_of c self scheme) entries)"

definition open_gateway :: "surroundings \<Rightarrow> environment \<Rightarrow> config \<Rightarrow> string \<Rightarrow> start_error + backend" where
  "open_gateway W env c nodes =
     (case node_entries nodes of
        Err e \<Rightarrow> Err (BadNodes e)
      | Ok entries \<Rightarrow>
     (case cluster_tls_from_env W env of
        Err e \<Rightarrow> Err (ClusterTlsFailed e)
      | Ok tls \<Rightarrow>
     (case Option.bind tls (\<lambda>t. su_client_tls W (ct_ca t) (ct_cert t) (ct_key t)) of
        Some e \<Rightarrow> Err (ClusterTlsFailed e)
      | None \<Rightarrow>
          (let places = gateway_places env c tls entries
           in case (if \<exists>p \<in> set places. p = LocalSlot (cf_data_dir c) then su_mkdir W (cf_data_dir c) else None) of
                Some e \<Rightarrow> Err (DirectoryFailed e)
              | None \<Rightarrow>
                  (case open_drives W env c (map (place_drive W) places) of
                     Err e \<Rightarrow> Err e
                   | Ok st \<Rightarrow>
                       Ok (ErasureBackend st
                         (lock_bases env (Option.bind (env_var env ''NODE_INDEX'') parse_u64) entries)))))))"

text \<open>A single host: the listed drives, or four directories under the data directory.\<close>

definition erasure_dirs :: "environment \<Rightarrow> config \<Rightarrow> string list" where
  "erasure_dirs env c =
     (case env_given env ''ERASURE_DRIVES'' of
        Some v \<Rightarrow> comma_list v
      | None \<Rightarrow> map (\<lambda>i. path_join (path_join (cf_data_dir c) ''.erasure'') (''disk'' @ show_nat i)) [0, 1, 2, 3])"

definition open_local :: "surroundings \<Rightarrow> environment \<Rightarrow> config \<Rightarrow> start_error + backend" where
  "open_local W env c =
     (let dirs = erasure_dirs env c
      in case first_some (su_mkdir W) dirs of
           Some e \<Rightarrow> Err (StoreFailed (Internal ''erasure mkdir''))
         | None \<Rightarrow>
             (case open_drives W env c (map (su_disk W) dirs) of
                Err e \<Rightarrow> Err e | Ok st \<Rightarrow> Ok (ErasureBackend st None)))"

definition open_backend :: "surroundings \<Rightarrow> environment \<Rightarrow> config \<Rightarrow> start_error + backend" where
  "open_backend W env c =
     (if env_var env ''BACKEND'' = Some ''fs''
      then (case fs_new (su_disk W (cf_data_dir c)) (cf_encryption_enabled c) of
              Err e \<Rightarrow> Err (StoreFailed e) | Ok st \<Rightarrow> Ok (FsBackend st))
      else case env_given env ''NODES'' of
        Some nodes \<Rightarrow> open_gateway W env c nodes
      | None \<Rightarrow> open_local W env c)"

section \<open>The start\<close>

text \<open>\<open>KeyProvider::check\<close>: only the KMS provider does anything.\<close>

definition provider_check :: "surroundings \<Rightarrow> provider \<Rightarrow> provider \<times> (key_error + unit)" where
  "provider_check W p =
     (case p of
        KmsProvider k \<Rightarrow>
          (case kms_check (su_key_lib W) (su_vault W) (su_vault_again W) (su_now W) (su_victim W) k of
             (k', r) \<Rightarrow> (KmsProvider k', r))
      | _ \<Rightarrow> (p, Ok ()))"

text \<open>What a started node runs: the state every handler shares, and the certificate it presents.\<close>

record s3_server =
  sv_config :: config
  sv_provider :: provider
  sv_warning :: "string option"
  sv_backend :: backend
  sv_iam :: iam_store
  sv_oidc :: "oidc option"
  sv_access_log :: "string option"
  sv_tls :: "tls_identity option"
  sv_console :: "string option"

record drive_server =
  dv_address :: string
  dv_dir :: string
  dv_secret :: string
  dv_tls :: "cluster_tls option"

datatype outcome = Exited cli | Refused start_error | DriveNode drive_server | Serving s3_server

definition start_drive :: "surroundings \<Rightarrow> environment \<Rightarrow> config \<Rightarrow> outcome" where
  "start_drive W env c =
     (let secret = env_or env ''CLUSTER_SECRET'' []; addr = env_or env ''DRIVE_ADDR'' ''0.0.0.0:9100''
      in case su_addr W addr of
           Some e \<Rightarrow> Refused (BadDriveAddress e)
         | None \<Rightarrow>
        (case su_mkdir W (cf_data_dir c) of
           Some e \<Rightarrow> Refused (DirectoryFailed e)
         | None \<Rightarrow>
        (case cluster_tls_from_env W env of
           Err e \<Rightarrow> Refused (ClusterTlsFailed e)
         | Ok tls \<Rightarrow>
             (case Option.bind tls (\<lambda>t. su_server_tls W (ct_ca t) (ct_cert t) (ct_key t)) of
                Some e \<Rightarrow> Refused (ClusterTlsFailed e)
              | None \<Rightarrow>
                  DriveNode \<lparr> dv_address = addr, dv_dir = cf_data_dir c, dv_secret = secret, dv_tls = tls \<rparr>))))"

definition start_oidc :: "surroundings \<Rightarrow> environment \<Rightarrow> oidc option" where
  "start_oidc W env =
     (case oidc_from_env env of
        None \<Rightarrow> None
      | Some cfg \<Rightarrow> (case discover (su_oidc W) cfg of Ok o' \<Rightarrow> Some o' | Err e \<Rightarrow> None))"

text \<open>From the opened backend on: identities, the identity provider, the access log, TLS, the console, the address.\<close>

definition start_serving :: "surroundings \<Rightarrow> environment \<Rightarrow> config \<Rightarrow> profile \<Rightarrow> provider \<Rightarrow> backend \<Rightarrow> outcome" where
  "start_serving W env c p key b =
     (let sys_dir = path_join (cf_data_dir c) ''.kerplace.sys'';
          iam = load (path_join sys_dir ''iam'') (su_users W) (cf_root_user c) (cf_root_password c) (env_var env ''USERS'');
          idp = start_oidc W env
      in if p = Sealed \<and> idp = None then Refused SealedWithoutIdp
         else case Option.bind (cf_access_log c) (su_log W) of
           Some e \<Rightarrow> Refused (AccessLogFailed e)
         | None \<Rightarrow>
        (case (if cf_tls_enabled c
               then (case build_rustls_config W c of Err e \<Rightarrow> Err e | Ok t \<Rightarrow> Ok (Some t)) else Ok None) of
           Err e \<Rightarrow> Refused (TlsFailed e)
         | Ok tls \<Rightarrow>
        (case su_addr W (cf_address c) of
           Some e \<Rightarrow> Refused (BadAddress e)
         | None \<Rightarrow>
             Serving \<lparr> sv_config = c, sv_provider = key,
               sv_warning = custody_warning (provider_posture key) (cf_encryption_enabled c),
               sv_backend = b, sv_iam = iam, sv_oidc = idp, sv_access_log = cf_access_log c, sv_tls = tls,
               sv_console =
                 (if cf_console_enabled c \<and> su_addr W (cf_console_address c) = None
                  then Some (cf_console_address c) else None) \<rparr>)))"

definition start :: "surroundings \<Rightarrow> environment \<Rightarrow> outcome" where
  "start W env =
     (let c = config_from_env env
      in case parse_profile (env_or env ''PROFILE'' []) of
           Err e \<Rightarrow> Refused (BadProfile e)
         | Ok p \<Rightarrow>
             (if p = Sealed \<and> sealed_violations env c \<noteq> [] then Refused (SealedUnmet (sealed_violations env c))
              else if env_var env ''ROLE'' = Some ''drive'' then start_drive W env c
              else case su_mkdir W (path_join (cf_data_dir c) ''.kerplace.sys'') of
                Some e \<Rightarrow> Refused (DirectoryFailed e)
              | None \<Rightarrow>
             (case snd (provider_from_env (su_key_lib W) (su_crypto W) (su_read_file W) (su_entropy W) env (su_keys W)) of
                Err e \<Rightarrow> Refused (KeyProviderFailed e)
              | Ok key \<Rightarrow>
             (case provider_check W key of
                (key', Err e) \<Rightarrow> Refused (KeyProviderNotReady (po_kind (provider_posture key)) e)
              | (key', Ok _) \<Rightarrow>
             (case open_backend W env c of
                Err e \<Rightarrow> Refused e
              | Ok b \<Rightarrow> start_serving W env c p key' b)))))"

text \<open>\<open>main\<close>: the command line, then the start.\<close>

definition main :: "surroundings \<Rightarrow> string list \<Rightarrow> outcome" where
  "main W args = (case apply_cli (su_env W) args of CliRun env \<Rightarrow> start W env | x \<Rightarrow> Exited x)"

end
