(* ===== verification/Startup_Props.thy ===== *)
theory Startup_Props
  imports Startup Store_Instances
begin

text \<open>
  Properties of the start: what no command line can change, what a sealed deployment runs with, which erasure sets a
  node accepts, and two configurations it accepts that it should not.
\<close>

section \<open>The command line\<close>

text \<open>The variables a command line can set.\<close>

definition CLI_VARS :: "string set" where
  "CLI_VARS = {''KP_ADDRESS'', ''KP_CONSOLE_ADDRESS'', ''KP_TLS'', ''KP_TLS_CERT'', ''KP_TLS_KEY'', ''KP_DATA_DIR'',
     ''KP_ERASURE_DRIVES''}"

definition extends_env :: "environment \<Rightarrow> environment \<Rightarrow> bool" where
  "extends_env env env' \<longleftrightarrow>
     (\<forall>n. n \<notin> CLI_VARS \<longrightarrow> env' n = env n)
     \<and> (env' ''KP_TLS'' = Some ''true''
        \<or> (\<forall>n \<in> {''KP_TLS'', ''KP_TLS_CERT'', ''KP_TLS_KEY''}. env' n = env n))"

lemma extends_env_refl [simp]: "extends_env env env"
  by (simp add: extends_env_def)

lemma extends_set:
  assumes "extends_env env env'" "n \<in> {''KP_ADDRESS'', ''KP_CONSOLE_ADDRESS'', ''KP_DATA_DIR'', ''KP_ERASURE_DRIVES''}"
  shows "extends_env env (set_env env' n v)"
  using assms by (auto simp: extends_env_def set_env_def CLI_VARS_def)

lemma extends_addr:
  assumes "extends_env env env'" "n \<in> {''KP_ADDRESS'', ''KP_CONSOLE_ADDRESS''}"
  shows "extends_env env (set_env_addr env' n v)"
  using assms unfolding set_env_addr_def by (intro extends_set) auto

lemma extends_certs: "extends_env env env' \<Longrightarrow> extends_env env (apply_certs_dir env' dir)"
  by (auto simp: extends_env_def apply_certs_dir_def set_env_def CLI_VARS_def)

lemma extends_paths: "extends_env env env' \<Longrightarrow> extends_env env (apply_paths env' ps)"
  by (auto simp: apply_paths_def intro: extends_set split: list.splits)

text \<open>A property of environments that every flag and the drive paths keep is kept by the whole command line.\<close>

lemma cli_loop_rule:
  assumes run: "cli_loop env ps args = CliRun env'" and "P env"
    and addr: "\<And>e v. P e \<Longrightarrow> P (set_env_addr e ''KP_ADDRESS'' v)" "\<And>e v. P e \<Longrightarrow> P (set_env_addr e ''KP_CONSOLE_ADDRESS'' v)"
    and certs: "\<And>e v. P e \<Longrightarrow> P (apply_certs_dir e v)" and paths: "\<And>e qs. P e \<Longrightarrow> P (apply_paths e qs)"
  shows "P env'"
  using assms(1,2)
proof (induction env ps args rule: cli_loop.induct)
  case (1 env ps)
  then show ?case using paths by auto
next
  case (2 env ps a rest)
  note step = "2.prems"(1) [unfolded cli_loop.simps(2)]
  consider "a = ''--address''" | "a = ''--console-address''" | "a = ''--certs-dir'' \<or> a = ''-C''" | "a \<in> set IGNORED_FLAGS"
    | "a \<notin> {''--address'', ''--console-address'', ''--certs-dir'', ''-C''}" "a \<notin> set IGNORED_FLAGS" by blast
  then show ?case
  proof cases
    case 1
    with step show ?thesis using "2.IH"(1) addr(1) "2.prems"(2) by (cases rest) auto
  next
    case 2
    with step show ?thesis using "2.IH"(2) addr(2) "2.prems"(2) by (cases rest) auto
  next
    case 3
    with step show ?thesis using "2.IH"(3) certs "2.prems"(2) by (cases rest) auto
  next
    case 4
    then have "a \<noteq> ''-h''" "a \<noteq> ''--help''" "a \<noteq> ''--address''" "a \<noteq> ''--console-address''" "a \<noteq> ''--certs-dir''" "a \<noteq> ''-C''"
      by (auto simp: IGNORED_FLAGS_def)
    with 4 step show ?thesis using "2.IH"(4) "2.prems"(2) by simp
  next
    case 5
    with step show ?thesis using "2.IH"(5) "2.prems"(2) by (auto split: if_splits)
  qed
qed

lemma apply_cli_rule:
  assumes run: "apply_cli env args = CliRun env'" and "P env"
    and "\<And>e v. P e \<Longrightarrow> P (set_env_addr e ''KP_ADDRESS'' v)" "\<And>e v. P e \<Longrightarrow> P (set_env_addr e ''KP_CONSOLE_ADDRESS'' v)"
    and "\<And>e v. P e \<Longrightarrow> P (apply_certs_dir e v)" and "\<And>e qs. P e \<Longrightarrow> P (apply_paths e qs)"
  shows "P env'"
proof (cases args)
  case Nil
  with assms(1,2) show ?thesis by (simp add: apply_cli_def)
next
  case (Cons a rest)
  with run have "cli_loop env [] (if a = ''server'' then rest else args) = CliRun env'"
    unfolding apply_cli_def by (simp only: list.case cli.distinct cli.simps split: if_split_asm)
  from cli_loop_rule [where P = P, OF this assms(2-6)] show ?thesis by blast
qed

lemma apply_cli_extends: "apply_cli env args = CliRun env' \<Longrightarrow> extends_env env env'"
  by (erule apply_cli_rule) (simp_all add: extends_addr extends_certs extends_paths)

lemma extends_var:
  assumes "extends_env env env'" and "\<forall>p \<in> set ENV_PREFIXES. p @ name \<notin> CLI_VARS"
  shows "env_var env' name = env_var env name"
proof -
  have "\<forall>p \<in> set ENV_PREFIXES. env' (p @ name) = env (p @ name)"
    using assms by (simp only: extends_env_def) blast
  then show ?thesis by (simp add: env_var_def resolve_var_def ENV_PREFIXES_def split: option.split)
qed

lemma extends_vars:
  assumes "extends_env env env'"
  shows "env_var env' ''PROFILE'' = env_var env ''PROFILE''" "env_var env' ''AUTH'' = env_var env ''AUTH''"
    "env_var env' ''ENCRYPT'' = env_var env ''ENCRYPT''" "env_var env' ''BACKEND'' = env_var env ''BACKEND''"
    "env_var env' ''OIDC_ISSUER'' = env_var env ''OIDC_ISSUER''" "env_var env' ''KEY_PROVIDER'' = env_var env ''KEY_PROVIDER''"
    "env_var env' ''ERASURE_BLOCK'' = env_var env ''ERASURE_BLOCK''"
  by (rule extends_var [OF assms], simp add: ENV_PREFIXES_def CLI_VARS_def)+

lemma extends_tls:
  assumes "extends_env env env'" "cf_tls_enabled (config_from_env env)"
  shows "cf_tls_enabled (config_from_env env')"
proof (cases "env' ''KP_TLS'' = Some ''true''")
  case True
  then have "env_var env' ''TLS'' = Some ''true''" by (simp add: env_var_def resolve_var_def ENV_PREFIXES_def)
  moreover have "truthy ''true''" by code_simp
  ultimately show ?thesis by (simp add: config_from_env_def)
next
  case False
  with assms(1) have tls: "env' ''KP_TLS'' = env ''KP_TLS''" "env' ''KP_TLS_CERT'' = env ''KP_TLS_CERT''"
      "env' ''KP_TLS_KEY'' = env ''KP_TLS_KEY''" and other: "n \<notin> CLI_VARS \<Longrightarrow> env' n = env n" for n
    by (simp_all only: extends_env_def insert_iff empty_iff simp_thms ball_simps)
  have "env_var env' ''TLS'' = env_var env ''TLS''" "env_var env' ''TLS_CERT'' = env_var env ''TLS_CERT''"
      "env_var env' ''TLS_KEY'' = env_var env ''TLS_KEY''"
    by (simp_all add: env_var_def resolve_var_def ENV_PREFIXES_def tls other CLI_VARS_def split: option.split)
  with assms(2) show ?thesis by (simp add: config_from_env_def)
qed

text \<open>A command line never adds a violation of the sealed profile.\<close>

lemma sealed_violations_extends:
  assumes "extends_env env env'"
  shows "set (sealed_violations env' (config_from_env env')) \<subseteq> set (sealed_violations env (config_from_env env))"
proof -
  have "cf_auth_enabled (config_from_env env') = cf_auth_enabled (config_from_env env)"
    "cf_encryption_enabled (config_from_env env') = cf_encryption_enabled (config_from_env env)"
    "env_given env' ''OIDC_ISSUER'' = env_given env ''OIDC_ISSUER''"
    "env_or env' ''KEY_PROVIDER'' ''file'' = env_or env ''KEY_PROVIDER'' ''file''"
    by (simp_all add: config_from_env_def env_given_def env_or_def extends_vars [OF assms])
  then show ?thesis
    using extends_tls [OF assms] extends_vars(4) [OF assms] unfolding sealed_violations_def
    by (simp only: set_append) (intro Un_mono; auto)
qed

section \<open>The steps of a start\<close>

lemma start_Serving:
  assumes "start W env = Serving s"
  obtains p key key' b where "parse_profile (env_or env ''PROFILE'' []) = Ok p"
    "p = Sealed \<Longrightarrow> sealed_violations env (config_from_env env) = []"
    "snd (provider_from_env (su_key_lib W) (su_crypto W) (su_read_file W) (su_entropy W) env (su_keys W)) = Ok key"
    "provider_check W key = (key', Ok ())"
    "open_backend W env (config_from_env env) = Ok b"
    "start_serving W env (config_from_env env) p key' b = Serving s"
  using assms unfolding start_def Let_def start_drive_def
  by (auto split: sum.splits option.splits if_splits prod.splits)

lemma start_serving_Serving:
  assumes "start_serving W env c p key b = Serving s"
  shows "sv_config s = c" "sv_provider s = key" "sv_backend s = b"
    "sv_warning s = custody_warning (provider_posture key) (cf_encryption_enabled c)"
    "p = Sealed \<Longrightarrow> sv_oidc s \<noteq> None" "cf_tls_enabled c \<longleftrightarrow> sv_tls s \<noteq> None"
  using assms unfolding start_serving_def Let_def
  by (auto split: sum.splits option.splits if_splits)

lemma provider_from_env_not_file:
  assumes "snd (provider_from_env L A rf en env K) = Ok key" "env_or env ''KEY_PROVIDER'' ''file'' \<noteq> ''file''"
  shows "key \<noteq> FileProvider k"
  using assms by (auto simp: provider_from_env_def parse_provider_kind_def split: sum.splits prod.splits if_splits)

lemma provider_check_kind:
  assumes "provider_check W key = (key', r)"
  shows "(\<exists>k. key' = FileProvider k) \<longleftrightarrow> (\<exists>k. key = FileProvider k)"
  using assms by (auto simp: provider_check_def split: provider.splits prod.splits)

lemma open_drives_Ok:
  assumes "open_drives W env c ds = Ok st"
  shows "st_drives st = ds" "st_encrypt_all st = cf_encryption_enabled c"
    "st_block_size st = env_number env ''ERASURE_BLOCK'' (2 ^ 20)"
    "cd_parity (st_codec st) = env_number env ''ERASURE_PARITY'' (length ds div 2)"
    "cd_data (st_codec st) + cd_parity (st_codec st) = length ds"
    "1 \<le> cd_data (st_codec st)" "1 \<le> cd_parity (st_codec st)" "length ds \<le> 256"
  using assms
  by (auto simp: open_drives_def erasure_params_def with_drives_def codec_new_def Let_def split: sum.splits if_splits)

text \<open>An erasure backend rests on the drives it opened.\<close>

lemma open_backend_erasure:
  assumes "open_backend W env c = Ok (ErasureBackend st l)"
  shows "\<exists>ds. open_drives W env c ds = Ok st"
  using assms unfolding open_backend_def open_gateway_def open_local_def Let_def
  by (auto split: sum.splits option.splits if_splits)

lemma open_backend_not_fs:
  assumes "open_backend W env c = Ok b" "env_var env ''BACKEND'' \<noteq> Some ''fs''"
  shows "\<exists>st l. b = ErasureBackend st l"
  using assms unfolding open_backend_def open_gateway_def open_local_def Let_def
  by (auto split: sum.splits option.splits if_splits)

lemma main_Serving:
  assumes "main W args = Serving s"
  obtains env where "extends_env (su_env W) env" "start W env = Serving s"
  using assms unfolding main_def by (auto split: cli.splits intro: apply_cli_extends)

section \<open>One variable\<close>

text \<open>The environment with a block size of zero, and what a start makes of it.\<close>

definition zero_block :: "environment \<Rightarrow> environment" where
  "zero_block env = env(''KP_ERASURE_BLOCK'' := Some ''0'')"

fun zero_backend :: "backend \<Rightarrow> backend" where
  "zero_backend (ErasureBackend st l) = ErasureBackend (st\<lparr>st_block_size := 0\<rparr>) l"
| "zero_backend (FsBackend f) = FsBackend f"

fun zeroed :: "outcome \<Rightarrow> outcome" where
  "zeroed (Serving s) = Serving (s\<lparr>sv_backend := zero_backend (sv_backend s)\<rparr>)"
| "zeroed r = r"

lemma zero_block_var: "name \<noteq> ''ERASURE_BLOCK'' \<Longrightarrow> env_var (zero_block env) name = env_var env name"
  by (simp add: env_var_def resolve_var_def ENV_PREFIXES_def zero_block_def split: option.split)

lemma zero_block_self: "env_var (zero_block env) ''ERASURE_BLOCK'' = Some ''0''"
  by (simp add: env_var_def resolve_var_def ENV_PREFIXES_def zero_block_def)

lemma zero_block_given:
  "name \<noteq> ''ERASURE_BLOCK'' \<Longrightarrow> env_given (zero_block env) name = env_given env name"
  "name \<noteq> ''ERASURE_BLOCK'' \<Longrightarrow> env_or (zero_block env) name alt = env_or env name alt"
  by (simp_all add: env_given_def env_or_def zero_block_var)

lemmas zero_block_reads = zero_block_var zero_block_given

lemma zero_block_set: "n \<noteq> ''KP_ERASURE_BLOCK'' \<Longrightarrow> set_env (zero_block env) n v = zero_block (set_env env n v)"
  by (simp add: set_env_def zero_block_def fun_upd_twist)

lemma zero_block_flags:
  "set_env_addr (zero_block env) ''KP_ADDRESS'' v = zero_block (set_env_addr env ''KP_ADDRESS'' v)"
  "set_env_addr (zero_block env) ''KP_CONSOLE_ADDRESS'' v = zero_block (set_env_addr env ''KP_CONSOLE_ADDRESS'' v)"
  "apply_certs_dir (zero_block env) v = zero_block (apply_certs_dir env v)"
  "apply_paths (zero_block env) ps = zero_block (apply_paths env ps)"
  by (simp_all add: set_env_addr_def apply_certs_dir_def apply_paths_def zero_block_set split: list.split)

definition zero_cli :: "cli \<Rightarrow> cli" where
  "zero_cli x = (case x of CliRun env \<Rightarrow> CliRun (zero_block env) | _ \<Rightarrow> x)"

lemma zero_cli_simps [simp]:
  "zero_cli CliHelp = CliHelp" "zero_cli (CliNeedsValue n) = CliNeedsValue n" "zero_cli (CliUnknownFlag n) = CliUnknownFlag n"
  "zero_cli CliVersion = CliVersion" "zero_cli (CliRun env) = CliRun (zero_block env)"
  by (simp_all add: zero_cli_def)

lemma zero_block_loop: "cli_loop (zero_block env) ps args = zero_cli (cli_loop env ps args)"
proof (induction env ps args rule: cli_loop.induct)
  case (1 env ps)
  then show ?case by (simp add: zero_block_flags)
next
  case (2 env ps a rest)
  consider "a = ''-h'' \<or> a = ''--help''" | "a = ''--address''" | "a = ''--console-address''" | "a = ''--certs-dir'' \<or> a = ''-C''"
    | "a \<notin> {''-h'', ''--help'', ''--address'', ''--console-address'', ''--certs-dir'', ''-C''}" by blast
  then show ?case
  proof cases
    case 1
    then show ?thesis by auto
  next
    case 2
    then show ?thesis using "2.IH"(1) by (cases rest) (simp_all add: zero_block_flags)
  next
    case 3
    then show ?thesis using "2.IH"(2) by (cases rest) (simp_all add: zero_block_flags)
  next
    case 4
    then show ?thesis using "2.IH"(3) by (cases rest) (auto simp: zero_block_flags)
  next
    case 5
    then show ?thesis using "2.IH"(4,5) by simp
  qed
qed

lemma zero_block_cli: "apply_cli (zero_block env) args = zero_cli (apply_cli env args)"
  by (cases args) (simp_all only: apply_cli_def zero_block_loop list.case zero_cli_simps if_distrib [of zero_cli])

lemma zero_block_config: "config_from_env (zero_block env) = config_from_env env"
  by (simp add: config_from_env_def zero_block_reads)

lemma zero_block_sealed: "sealed_violations (zero_block env) c = sealed_violations env c"
  by (simp add: sealed_violations_def zero_block_reads)

lemma zero_block_provider: "provider_from_env L A rf en (zero_block env) K = provider_from_env L A rf en env K"
proof -
  have "kms_from_env L rf (zero_block env) = kms_from_env L rf env"
    by (simp add: kms_from_env_def zero_block_reads cong: option.case_cong)
  then show ?thesis by (simp add: provider_from_env_def zero_block_reads split: sum.split provider_kind.split)
qed

lemma world_env:
  "su_read_file (W\<lparr>su_env := x\<rparr>) = su_read_file W" "su_keys (W\<lparr>su_env := x\<rparr>) = su_keys W"
  "su_entropy (W\<lparr>su_env := x\<rparr>) = su_entropy W" "su_key_lib (W\<lparr>su_env := x\<rparr>) = su_key_lib W"
  "su_crypto (W\<lparr>su_env := x\<rparr>) = su_crypto W" "su_vault (W\<lparr>su_env := x\<rparr>) = su_vault W"
  "su_vault_again (W\<lparr>su_env := x\<rparr>) = su_vault_again W" "su_now (W\<lparr>su_env := x\<rparr>) = su_now W"
  "su_victim (W\<lparr>su_env := x\<rparr>) = su_victim W" "su_mkdir (W\<lparr>su_env := x\<rparr>) = su_mkdir W"
  "su_disk (W\<lparr>su_env := x\<rparr>) = su_disk W" "su_remote (W\<lparr>su_env := x\<rparr>) = su_remote W"
  "su_store_env (W\<lparr>su_env := x\<rparr>) = su_store_env W" "su_users (W\<lparr>su_env := x\<rparr>) = su_users W"
  "su_oidc (W\<lparr>su_env := x\<rparr>) = su_oidc W" "su_addr (W\<lparr>su_env := x\<rparr>) = su_addr W"
  "su_log (W\<lparr>su_env := x\<rparr>) = su_log W" "su_exists (W\<lparr>su_env := x\<rparr>) = su_exists W"
  "su_write (W\<lparr>su_env := x\<rparr>) = su_write W" "su_pem_file (W\<lparr>su_env := x\<rparr>) = su_pem_file W"
  "su_pem (W\<lparr>su_env := x\<rparr>) = su_pem W" "su_self_signed (W\<lparr>su_env := x\<rparr>) = su_self_signed W"
  "su_client_tls (W\<lparr>su_env := x\<rparr>) = su_client_tls W" "su_server_tls (W\<lparr>su_env := x\<rparr>) = su_server_tls W"
  by simp_all

lemma zero_block_oidc: "oidc_from_env (zero_block env) = oidc_from_env env"
  by (simp add: oidc_from_env_def zero_block_reads cong: option.case_cong)

lemma zero_block_world:
  "cluster_tls_from_env (W\<lparr>su_env := x\<rparr>) (zero_block env) = cluster_tls_from_env W env"
  "start_oidc (W\<lparr>su_env := x\<rparr>) (zero_block env) = start_oidc W env"
  "build_rustls_config (W\<lparr>su_env := x\<rparr>) c = build_rustls_config W c"
  "provider_check (W\<lparr>su_env := x\<rparr>) p = provider_check W p"
  "place_drive (W\<lparr>su_env := x\<rparr>) = place_drive W"
proof -
  have pem: "cluster_pem (W\<lparr>su_env := x\<rparr>) (zero_block env) name = cluster_pem W env name" if "name \<noteq> ''ERASURE_BLOCK''" for name
    using that by (simp only: cluster_pem_def zero_block_reads world_env not_False_eq_True)
  show "cluster_tls_from_env (W\<lparr>su_env := x\<rparr>) (zero_block env) = cluster_tls_from_env W env"
    by (simp add: cluster_tls_from_env_def pem zero_block_reads cong: sum.case_cong)
  show "start_oidc (W\<lparr>su_env := x\<rparr>) (zero_block env) = start_oidc W env"
    unfolding start_oidc_def zero_block_oidc world_env ..
  show "build_rustls_config (W\<lparr>su_env := x\<rparr>) c = build_rustls_config W c"
    unfolding build_rustls_config_def world_env ..
  show "provider_check (W\<lparr>su_env := x\<rparr>) p = provider_check W p"
    unfolding provider_check_def world_env ..
  show "place_drive (W\<lparr>su_env := x\<rparr>) = place_drive W"
    unfolding place_drive_def world_env ..
qed

lemma zero_block_drives:
  "open_drives (W\<lparr>su_env := x\<rparr>) (zero_block env) c ds = map_sum id (\<lambda>st. st\<lparr>st_block_size := 0\<rparr>) (open_drives W env c ds)"
proof -
  have "parse_u64 ''0'' = Some 0" by (simp add: parse_radix_def digit_value_def is_ascii_digit_def)
  then have n: "erasure_params (zero_block env) n = (fst (erasure_params env n), 0)" for n
    by (simp add: erasure_params_def env_number_def zero_block_reads zero_block_self)
  show ?thesis
    by (cases "erasure_params env (length ds)")
      (simp add: open_drives_def n with_drives_def Let_def split: sum.split)
qed

lemma zero_block_backend:
  "open_backend (W\<lparr>su_env := x\<rparr>) (zero_block env) c = map_sum id zero_backend (open_backend W env c)"
proof -
  have gateway: "open_gateway (W\<lparr>su_env := x\<rparr>) (zero_block env) c nodes = map_sum id zero_backend (open_gateway W env c nodes)" for nodes
    by (simp add: open_gateway_def zero_block_world zero_block_reads gateway_places_def lock_bases_def zero_block_drives
        Let_def split: sum.split option.split)
  have own: "open_local (W\<lparr>su_env := x\<rparr>) (zero_block env) c = map_sum id zero_backend (open_local W env c)"
    by (simp add: open_local_def erasure_dirs_def zero_block_reads zero_block_drives
        Let_def split: sum.split option.split)
  show ?thesis
    by (simp add: open_backend_def zero_block_reads gateway own split: option.split sum.split)
qed

lemma zero_block_serving:
  "start_serving (W\<lparr>su_env := x\<rparr>) (zero_block env) c p key (zero_backend b) = zeroed (start_serving W env c p key b)"
proof -
  have users: "env_var (zero_block env) ''USERS'' = env_var env ''USERS''" by (simp add: zero_block_reads)
  show ?thesis
    unfolding start_serving_def Let_def zero_block_world users world_env by (simp split: option.split sum.split if_split)
qed

lemma zero_block_start_drive: "start_drive (W\<lparr>su_env := x\<rparr>) (zero_block env) c = zeroed (start_drive W env c)"
  by (simp add: start_drive_def Let_def zero_block_world zero_block_reads split: option.split sum.split)

text \<open>A start with a block size of zero goes as it goes without, up to the block size of the store it opens.\<close>

lemma zero_block_start: "start (W\<lparr>su_env := x\<rparr>) (zero_block env) = zeroed (start W env)"
  by (simp add: start_def Let_def zero_block_config zero_block_sealed zero_block_provider zero_block_reads zero_block_world
      zero_block_start_drive zero_block_backend zero_block_serving split: sum.split option.split prod.split)

lemma zero_block_main: "main (W\<lparr>su_env := zero_block (su_env W)\<rparr>) args = zeroed (main W args)"
  by (simp add: main_def zero_block_cli zero_cli_def zero_block_start split: cli.split)

section \<open>Properties\<close>

text \<open>C32: a sealed deployment is sealed whatever the command line says.  If the environment asks for the profile
\<open>sealed\<close> and the node starts serving, on any command line, then requests are authenticated, it presents a certificate,
its backend is an erasure store that encrypts every object, the identity provider was reached, the key does not come
from a file of the host and there is no custody warning.\<close>

theorem sealed_server:
  assumes "main W args = Serving s" and "parse_profile (env_or (su_env W) ''PROFILE'' []) = Ok Sealed"
  shows "cf_auth_enabled (sv_config s) \<and> sv_tls s \<noteq> None \<and> (\<exists>st l. sv_backend s = ErasureBackend st l \<and> st_encrypt_all st)
    \<and> sv_oidc s \<noteq> None \<and> \<not> po_key_on_host (provider_posture (sv_provider s)) \<and> sv_warning s = None"
proof -
  from main_Serving [OF assms(1)] obtain env where env: "extends_env (su_env W) env" and st: "start W env = Serving s" .
  from start_Serving [OF st] obtain p key key' b where
    p: "parse_profile (env_or env ''PROFILE'' []) = Ok p" and v: "p = Sealed \<Longrightarrow> sealed_violations env (config_from_env env) = []"
    and k: "snd (provider_from_env (su_key_lib W) (su_crypto W) (su_read_file W) (su_entropy W) env (su_keys W)) = Ok key"
    and ch: "provider_check W key = (key', Ok ())" and b: "open_backend W env (config_from_env env) = Ok b"
    and sv: "start_serving W env (config_from_env env) p key' b = Serving s" by blast
  have sealed: "p = Sealed" using p assms(2) by (simp add: env_or_def extends_vars(1) [OF env])
  note ok = v [OF sealed, unfolded sealed_violations_Nil]
  from ok k ch have nofile: "\<nexists>k. key' = FileProvider k" using provider_from_env_not_file provider_check_kind by blast
  then have host: "\<not> po_key_on_host (provider_posture key')" by (cases key') (auto simp: pass_posture_def kms_posture_def)
  from open_backend_not_fs [OF b] ok obtain st' l where bk: "b = ErasureBackend st' l" by blast
  with b open_backend_erasure open_drives_Ok(2) ok have "st_encrypt_all st'" by blast
  with bk host ok start_serving_Serving [OF sv] sealed show ?thesis by (auto simp: custody_warning_def)
qed

text \<open>An example: a vault that always answers with the same key, an identity provider, disks that hold nothing.\<close>

definition ex_idp :: json where
  "ex_idp = JObj [(''authorization_endpoint'', JStr ''http://i/a''), (''token_endpoint'', JStr ''http://i/t''),
     (''jwks_uri'', JStr ''http://i/k''),
     (''keys'', JArr [JObj [(''kty'', JStr ''RSA''), (''n'', JStr ''AQ''), (''e'', JStr ''AQ'')]])]"

definition ex_world :: "(string \<times> string) list \<Rightarrow> surroundings" where
  "ex_world vars =
     \<lparr> su_env = map_of vars, su_read_file = (\<lambda>p. Ok [1]),
       su_keys = \<lparr> kd_files = [], kd_read_error = (\<lambda>n. None), kd_mkdir_error = None, kd_write_error = (\<lambda>n. None) \<rparr>,
       su_entropy = \<lparr> ke_master = replicate 32 5, ke_pq = \<lparr> pq_seed = [], pq_ek = [] \<rparr>, ke_salt = [], ke_nonce = [] \<rparr>,
       su_key_lib = \<lparr> kl_base64 = (\<lambda>s. Some (replicate 32 7)), kl_status = (\<lambda>n. []), kl_pem = (\<lambda>b. None),
         kl_build = (\<lambda>ca k. None), kl_hex_error = (\<lambda>s. []), kl_ek_ok = (\<lambda>b. True) \<rparr>,
       su_crypto = plain_lib, su_vault = (\<lambda>c u t b. VAnswer 200 (Ok (Some ''vault:v1:x'', Some ''p''))),
       su_vault_again = (\<lambda>c u t b. VAnswer 200 (Ok (None, Some ''p''))), su_now = 0, su_victim = 0,
       su_mkdir = (\<lambda>p. None), su_disk = (\<lambda>p. ex_drive p), su_remote = (\<lambda>p. ex_drive p),
       su_store_env = ex_env rs_mirror, su_users = None,
       su_oidc = \<lparr> ol_get = (\<lambda>u. Fetched ex_idp), ol_post = (\<lambda>u f. FetchFailed []), ol_header = (\<lambda>t. Err []),
         ol_key_error = (\<lambda>n e. None), ol_decode = (\<lambda>n e i a t. Err []), ol_encode = id, ol_rfc3339 = (\<lambda>t. None) \<rparr>,
       su_addr = (\<lambda>a. None), su_log = (\<lambda>p. None), su_exists = (\<lambda>p. False), su_write = (\<lambda>p c. None),
       su_pem_file = (\<lambda>c k. None), su_pem = (\<lambda>c k. None), su_self_signed = Ok ([], []),
       su_client_tls = (\<lambda>a b c. None), su_server_tls = (\<lambda>a b c. None) \<rparr>"

definition ex_sealed_list :: "string \<Rightarrow> (string \<times> string) list" where
  "ex_sealed_list block =
     [(''KP_PROFILE'', ''sealed''), (''KP_OIDC_ISSUER'', ''http://i''), (''KP_KEY_PROVIDER'', ''kms''),
      (''KP_KMS_ENDPOINT'', ''http://v''), (''KP_KMS_KEY'', ''k''), (''KP_KMS_TOKEN'', ''t''),
      (''KP_ERASURE_BLOCK'', block)]"

definition ex_sealed :: "string \<Rightarrow> surroundings" where
  "ex_sealed block = ex_world (ex_sealed_list block)"

definition ex_args :: "string list" where
  "ex_args = [''server'', ''--certs-dir'', ''/certs'', ''/d0'', ''/d1'']"

lemmas cli_defs = apply_cli_def IGNORED_FLAGS_def starts_with_def apply_certs_dir_def apply_paths_def set_env_def path_join_def

definition ex_sealed_env :: "string \<Rightarrow> environment" where
  "ex_sealed_env v = (map_of (ex_sealed_list v))
     (''KP_TLS'' := Some ''true'', ''KP_TLS_CERT'' := Some ''/certs/public.crt'', ''KP_TLS_KEY'' := Some ''/certs/private.key'',
      ''KP_ERASURE_DRIVES'' := Some ''/d0,/d1'')"

lemma ex_sealed_cli: "apply_cli (su_env (ex_sealed v)) ex_args = CliRun (ex_sealed_env v)"
  by (simp add: cli_defs ex_args_def ex_sealed_env_def ex_sealed_def ex_world_def)

lemma ex_sealed_vars:
  "parse_profile (env_or (ex_sealed_env v) ''PROFILE'' []) = Ok Sealed"
  "sealed_violations (ex_sealed_env v) (config_from_env (ex_sealed_env v)) = []"
  "env_var (ex_sealed_env v) ''ROLE'' = None" "env_var (ex_sealed_env v) ''BACKEND'' = None" "env_given (ex_sealed_env v) ''NODES'' = None"
  "erasure_dirs (ex_sealed_env v) (config_from_env (ex_sealed_env v)) = [''/d0'', ''/d1'']"
  "env_var (ex_sealed_env v) ''ERASURE_PARITY'' = None" "env_var (ex_sealed_env v) ''ERASURE_BLOCK'' = Some v"
  "cf_access_log (config_from_env (ex_sealed_env v)) = None"
  "start_oidc (ex_sealed v) (ex_sealed_env v) \<noteq> None"
  by code_simp+

lemma ex_sealed_world:
  "su_mkdir (ex_sealed v) p = None" "su_addr (ex_sealed v) p = None" "\<exists>t. build_rustls_config (ex_sealed v) c = Ok t"
  "ev_rs (su_store_env (ex_sealed v)) = rs_mirror"
  by (simp_all add: ex_sealed_def ex_world_def build_rustls_config_def fails_with_def Let_def ex_env_def split: option.split)

lemma ex_sealed_kms:
  "env_or (ex_sealed_env v) ''KEY_PROVIDER'' ''file'' = ''kms''" "env_given (ex_sealed_env v) ''KMS_ENDPOINT'' = Some ''http://v''"
  "env_given (ex_sealed_env v) ''KMS_KEY'' = Some ''k''" "env_given (ex_sealed_env v) ''KMS_TOKEN'' = Some ''t''"
  "env_var (ex_sealed_env v) ''KMS_CACHE_TTL'' = None" "env_var (ex_sealed_env v) ''KMS_TLS_SKIP_VERIFY'' = None"
  "env_given (ex_sealed_env v) ''KMS_CA'' = None"
  by code_simp+

lemma ex_sealed_provider:
  "case provider_from_env (su_key_lib (ex_sealed v)) (su_crypto (ex_sealed v)) (su_read_file (ex_sealed v)) (su_entropy (ex_sealed v))
       (ex_sealed_env v) (su_keys (ex_sealed v)) of
     (K, Ok key) \<Rightarrow> snd (provider_check (ex_sealed v) key) = Ok ()
   | _ \<Rightarrow> False"
proof -
  have utf8: "utf8_valid (str_bytes ''vault:v1:x'')" by code_simp
  show ?thesis
    by (simp add: provider_from_env_def parse_provider_kind_def kms_from_env_def ex_sealed_kms kms_new_def Let_def
        provider_check_def kms_check_def kms_new_wrapped_dek_def kms_unwrap_dek_def kms_post_def Kms.is_success_def
        dek_from_plaintext_def kms_cache_get_def dek_cache_get_def utf8 ex_sealed_def ex_world_def)
qed

definition ex_started :: "string \<Rightarrow> store" where
  "ex_started v = \<lparr> st_drives = [ex_drive ''/d0'', ex_drive ''/d1''], st_codec = \<lparr> cd_data = 1, cd_parity = 1 \<rparr>,
     st_block_size = (case parse_u64 v of Some n \<Rightarrow> n | None \<Rightarrow> 2 ^ 20), st_encrypt_all = True \<rparr>"

lemma ex_sealed_backend:
  "open_backend (ex_sealed v) (ex_sealed_env v) (config_from_env (ex_sealed_env v)) = Ok (ErasureBackend (ex_started v) None)"
proof -
  have "cf_encryption_enabled (config_from_env (ex_sealed_env v))" by code_simp
  moreover have "su_disk (ex_sealed v) = ex_drive" by (simp add: ex_sealed_def ex_world_def fun_eq_iff)
  ultimately show ?thesis
    by (simp add: open_backend_def open_local_def ex_sealed_vars ex_sealed_world open_drives_def erasure_params_def env_number_def
        with_drives_def codec_new_def Let_def ex_started_def) (simp add: rs_mirror_def split: option.split)
qed

lemma ex_sealed_serves: "\<exists>s. main (ex_sealed v) ex_args = Serving s \<and> sv_backend s = ErasureBackend (ex_started v) None"
proof -
  obtain K key key' where p: "provider_from_env (su_key_lib (ex_sealed v)) (su_crypto (ex_sealed v)) (su_read_file (ex_sealed v))
      (su_entropy (ex_sealed v)) (ex_sealed_env v) (su_keys (ex_sealed v)) = (K, Ok key)" "provider_check (ex_sealed v) key = (key', Ok ())"
    using ex_sealed_provider by (force split: prod.splits sum.splits intro: prod_eqI)
  obtain t where "build_rustls_config (ex_sealed v) (config_from_env (ex_sealed_env v)) = Ok t" using ex_sealed_world(3) by blast
  then have "\<exists>s. start_serving (ex_sealed v) (ex_sealed_env v) (config_from_env (ex_sealed_env v)) Sealed key'
      (ErasureBackend (ex_started v) None) = Serving s"
    using ex_sealed_vars(9,10) ex_sealed_world(2) by (simp add: start_serving_def Let_def)
  then obtain s where s: "start_serving (ex_sealed v) (ex_sealed_env v) (config_from_env (ex_sealed_env v)) Sealed key'
      (ErasureBackend (ex_started v) None) = Serving s" by blast
  then have "main (ex_sealed v) ex_args = Serving s"
    by (simp add: main_def ex_sealed_cli start_def Let_def ex_sealed_vars ex_sealed_world p ex_sealed_backend)
  with start_serving_Serving(3) [OF s] show ?thesis by blast
qed

theorem sealed_server_witness:
  "\<exists>s. main (ex_sealed ''1024'') ex_args = Serving s \<and> sv_tls s \<noteq> None \<and> sv_warning s = None"
proof -
  have p: "parse_profile (env_or (su_env (ex_sealed ''1024'')) ''PROFILE'' []) = Ok Sealed" by code_simp
  from ex_sealed_serves obtain s where s: "main (ex_sealed ''1024'') ex_args = Serving s" by blast
  from sealed_server [OF s p] s show ?thesis by blast
qed

text \<open>C39: a block size of zero is accepted and loses every body.  Where a node starts serving on an erasure store,
it also does so, on the same command line and with everything else alike, when \<open>KP_ERASURE_BLOCK=0\<close> is set; only the
block size of its store is then zero.  The sharded write of that store does the same with every body as with the empty
one: no byte of it is read, and a body that breaks off is not noticed.\<close>

theorem zero_block_size_drops_bodies:
  assumes "main W args = Serving s" and "sv_backend s = ErasureBackend st l"
  shows "main (W\<lparr>su_env := (su_env W)(''KP_ERASURE_BLOCK'' := Some ''0'')\<rparr>) args =
      Serving (s\<lparr>sv_backend := ErasureBackend (st\<lparr>st_block_size := 0\<rparr>) l\<rparr>)
    \<and> write_sharded E C (st\<lparr>st_block_size := 0\<rparr>) b k (Body p f) ct um enc ov
      = write_sharded E C (st\<lparr>st_block_size := 0\<rparr>) b k (Body [] False) ct um enc ov"
proof
  show "main (W\<lparr>su_env := (su_env W)(''KP_ERASURE_BLOCK'' := Some ''0'')\<rparr>) args =
      Serving (s\<lparr>sv_backend := ErasureBackend (st\<lparr>st_block_size := 0\<rparr>) l\<rparr>)"
    using zero_block_main [of W args] assms by (simp add: zero_block_def)
  have "read_blocks 0 False (Body p f) = ([[]], False)" for p :: bytes and f
    by (subst read_blocks.simps, subst read_blocks.simps) simp
  then show "write_sharded E C (st\<lparr>st_block_size := 0\<rparr>) b k (Body p f) ct um enc ov
      = write_sharded E C (st\<lparr>st_block_size := 0\<rparr>) b k (Body [] False) ct um enc ov"
    by (simp add: write_sharded_def)
qed

theorem zero_block_size_drops_bodies_witness:
  "\<exists>s st. main ((ex_sealed ''1024'')\<lparr>su_env := (su_env (ex_sealed ''1024''))(''KP_ERASURE_BLOCK'' := Some ''0'')\<rparr>) ex_args = Serving s
    \<and> sv_backend s = ErasureBackend st None
    \<and> (\<exists>st' m. write_sharded (ex_env rs_mirror) (ex_ctx ''u'') st ''bkt'' ''k'' (Body [1, 2, 3] False) [] [] False None = (st', Ok m)
      \<and> om_size m = 0)"
proof -
  obtain s where s: "main (ex_sealed ''1024'') ex_args = Serving s" "sv_backend s = ErasureBackend (ex_started ''1024'') None"
    using ex_sealed_serves by blast
  let ?empty = "\<lparr> st_drives = [ex_drive ''/d0'', ex_drive ''/d1''], st_codec = \<lparr> cd_data = 1, cd_parity = 1 \<rparr>,
     st_block_size = 0, st_encrypt_all = True \<rparr>"
  have st: "(ex_started ''1024'')\<lparr>st_block_size := 0\<rparr> = ?empty" by (simp add: ex_started_def)
  note zero = zero_block_size_drops_bodies [OF s, unfolded st]
  have "case write_sharded (ex_env rs_mirror) (ex_ctx ''u'') ?empty ''bkt'' ''k'' (Body [] False) [] [] False None of
      (st', Ok m) \<Rightarrow> om_size m = 0 | _ \<Rightarrow> False" by code_simp
  then have "\<exists>st' m. write_sharded (ex_env rs_mirror) (ex_ctx ''u'') ?empty ''bkt'' ''k'' (Body [1, 2, 3] False) [] [] False None
      = (st', Ok m) \<and> om_size m = 0"
    using zero [THEN conjunct2, of "ex_env rs_mirror" "ex_ctx ''u''" "''bkt''" "''k''" "[1, 2, 3]" False "[]" "[]" False None]
    by (simp only:) (auto split: prod.splits sum.splits)
  moreover have "sv_backend (s\<lparr>sv_backend := ErasureBackend ?empty None\<rparr>) = ErasureBackend ?empty None" by simp
  ultimately show ?thesis using zero [THEN conjunct1] by blast
qed

text \<open>C40: distributed locks do not work over mutual TLS.  A gateway with \<open>KP_CLUSTER_TLS=true\<close> and
\<open>KP_CLUSTER_LOCKS=true\<close> whose nodes are given without a scheme reaches its drives over \<open>https\<close> and its lock nodes over
plain \<open>http\<close>: no lock node has the URL of a drive, so whatever tokens a lock hands out, no write to a drive is fenced.\<close>

theorem mutual_tls_unfences:
  assumes "open_gateway W env c nodes = Ok (ErasureBackend st (Some bases))"
    and "node_entries nodes = Ok entries" and "\<forall>(i, addr) \<in> set entries. \<not> starts_with addr ''http''"
    and "cluster_tls_from_env W env = Ok (Some t)" and "set (map fst (fc_tokens ctx)) \<subseteq> set bases"
  shows "st_drives st = map (place_drive W) (gateway_places env c (Some t) entries)
    \<and> (\<forall>b \<in> set bases. starts_with b ''http://'')
    \<and> (\<forall>base. RemoteSlot base \<in> set (gateway_places env c (Some t) entries) \<longrightarrow>
          starts_with base ''https://'' \<and> fence_for (Some ctx) base = None)"
proof -
  note opened = assms(1) [unfolded open_gateway_def Let_def]
  have st: "open_drives W env c (map (place_drive W) (gateway_places env c (Some t) entries)) = Ok st"
    and bases: "lock_bases env (Option.bind (env_var env ''NODE_INDEX'') parse_u64) entries = Some bases"
    using opened assms(2,4) by (auto split: option.splits sum.splits if_splits)
  have url: "node_url scheme addr = scheme @ ''://'' @ addr" if "(i, addr) \<in> set entries" for i addr scheme
    using that assms(3) by (auto simp: node_url_def)
  have b: "\<exists>addr. b = ''http'' @ ''://'' @ addr" if "b \<in> set bases" for b
    using bases that url [of _ _ "''http''"] by (auto simp: lock_bases_def Let_def simp del: append.simps split: if_splits)
  have s: "\<exists>addr. base = ''https'' @ ''://'' @ addr" if "RemoteSlot base \<in> set (gateway_places env c (Some t) entries)" for base
    using that url [of _ _ "''https''"]
    by (auto simp: gateway_places_def Let_def place_of_def simp del: append.simps split: if_splits)
  have "fence_for (Some ctx) base = None" if "RemoteSlot base \<in> set (gateway_places env c (Some t) entries)" for base
  proof -
    have "base \<notin> set bases" using b s [OF that] by fastforce
    with assms(5) have "map_of (fc_tokens ctx) base = None" by (auto simp: map_of_eq_None_iff)
    then show ?thesis by (simp add: fence_for_def)
  qed
  then show ?thesis using open_drives_Ok(1) [OF st] b s by (fastforce simp: starts_with_iff)
qed

definition ex_gateway_env :: environment where
  "ex_gateway_env = map_of [(''KP_CLUSTER_TLS'', ''true''), (''KP_CLUSTER_LOCKS'', ''true''), (''KP_CLUSTER_TLS_CA'', ''ca''),
     (''KP_CLUSTER_TLS_CERT'', ''c''), (''KP_CLUSTER_TLS_KEY'', ''k'')]"

definition ex_gateway_entries :: "(nat \<times> string) list" where
  "ex_gateway_entries = [(0, ''n0:9100''), (1, ''n1:9100'')]"

lemma ex_gateway:
  "node_entries ''0=n0:9100,1=n1:9100'' = Ok ex_gateway_entries"
  "cluster_tls_from_env (ex_world []) ex_gateway_env = Ok (Some \<lparr> ct_ca = [1], ct_cert = [1], ct_key = [1] \<rparr>)"
  "\<exists>st. open_gateway (ex_world []) ex_gateway_env (config_from_env ex_gateway_env) ''0=n0:9100,1=n1:9100''
    = Ok (ErasureBackend st (Some [''http://n0:9100'', ''http://n1:9100'']))"
proof -
  have pieces: "comma_list ''0=n0:9100,1=n1:9100'' = [''0=n0:9100'', ''1=n1:9100'']" by code_simp
  have "split_once (CHR ''='') ''0=n0:9100'' = Some (''0'', ''n0:9100'')" "split_once (CHR ''='') ''1=n1:9100'' = Some (''1'', ''n1:9100'')"
    "trim ''0'' = ''0''" "trim ''1'' = ''1''" "trim ''n0:9100'' = ''n0:9100''" "trim ''n1:9100'' = ''n1:9100''"
    by code_simp+
  moreover have "parse_u64 ''0'' = Some 0" "parse_u64 ''1'' = Some 1"
    by (simp_all add: parse_radix_def digit_value_def is_ascii_digit_def)
  ultimately show n: "node_entries ''0=n0:9100,1=n1:9100'' = Ok ex_gateway_entries"
    by (simp add: node_entries_def pieces parse_node_def ex_gateway_entries_def)
  show t: "cluster_tls_from_env (ex_world []) ex_gateway_env = Ok (Some \<lparr> ct_ca = [1], ct_cert = [1], ct_key = [1] \<rparr>)"
    by code_simp
  have v: "env_var ex_gateway_env ''NODE_INDEX'' = None" "env_var ex_gateway_env ''CLUSTER_LOCKS'' = Some ''true''"
    "env_var ex_gateway_env ''ERASURE_PARITY'' = None" "env_var ex_gateway_env ''ERASURE_BLOCK'' = None"
    by code_simp+
  have "su_client_tls (ex_world []) a b c = None" "su_mkdir (ex_world []) p = None"
    "ev_rs (su_store_env (ex_world [])) = rs_mirror" for a b c p
    by (simp_all add: ex_world_def ex_env_def)
  then show "\<exists>st. open_gateway (ex_world []) ex_gateway_env (config_from_env ex_gateway_env) ''0=n0:9100,1=n1:9100''
    = Ok (ErasureBackend st (Some [''http://n0:9100'', ''http://n1:9100'']))"
    by (simp add: open_gateway_def n t v Let_def gateway_places_def ex_gateway_entries_def lock_bases_def node_url_def starts_with_def
        open_drives_def erasure_params_def env_number_def with_drives_def codec_new_def) (simp add: rs_mirror_def)
qed

theorem mutual_tls_unfences_witness:
  "\<exists>st. open_gateway (ex_world []) ex_gateway_env (config_from_env ex_gateway_env) ''0=n0:9100,1=n1:9100''
      = Ok (ErasureBackend st (Some [''http://n0:9100'', ''http://n1:9100'']))
    \<and> fence_for (Some \<lparr> fc_resource = ''b/k'', fc_tokens = [(''http://n0:9100'', 1), (''http://n1:9100'', 1)] \<rparr>) ''https://n0:9100'' = None"
proof -
  obtain st where st: "open_gateway (ex_world []) ex_gateway_env (config_from_env ex_gateway_env) ''0=n0:9100,1=n1:9100''
      = Ok (ErasureBackend st (Some [''http://n0:9100'', ''http://n1:9100'']))"
    using ex_gateway(3) by blast
  have "\<forall>(i, addr) \<in> set ex_gateway_entries. \<not> starts_with addr ''http''" by code_simp
  note unfenced = mutual_tls_unfences [OF st ex_gateway(1) this ex_gateway(2),
      of "\<lparr> fc_resource = ''b/k'', fc_tokens = [(''http://n0:9100'', 1), (''http://n1:9100'', 1)] \<rparr>"]
  have "RemoteSlot ''https://n0:9100'' \<in> set (gateway_places ex_gateway_env (config_from_env ex_gateway_env)
      (Some \<lparr> ct_ca = [1], ct_cert = [1], ct_key = [1] \<rparr>) ex_gateway_entries)"
    by code_simp
  with unfenced st show ?thesis by simp
qed

end
