(* ===== verification/Kpc.thy ===== *)
theory Kpc
  imports Json "HOL-Library.State_Monad"
begin

text \<open>
  \<open>kpc/src/main.rs\<close>, the custody command line: it keeps no state of its own and runs system tools in order.  The
  host is an argument: \<open>'w\<close> is whatever it remembers, and each call of a tool, of a file or of the terminal is a state
  transformer over it.  An error is the message \<open>anyhow\<close> displays for it.
\<close>

section \<open>The host\<close>

record proc =
  pr_success :: bool
  pr_stdout :: string
  pr_stderr :: string

text \<open>A child that is written to: it does not start, the pipe breaks, or it ends.\<close>

datatype piped = NotLaunched | PipeFailed string | Ran proc

text \<open>
  \<open>ho_run\<close> runs a command to its end, \<open>ho_pipe\<close> feeds it its standard input; \<open>ho_ask\<close> is the terminal's prompt without
  echo; \<open>ho_private\<close> sets the mode \<open>0600\<close>; \<open>ho_show\<close> is the debug form of a string; the parsers of JSON and TOML give
  their message on an error.
\<close>

record bucket_conf =
  kb_name :: string
  kb_mountpoint :: string

record instance_conf =
  ki_name :: string
  ki_tunnel_unit :: string
  ki_s3_endpoint :: string
  ki_access_key :: string
  ki_secret_file :: string
  ki_buckets :: "bucket_conf list"

record kms_conf =
  kk_addr :: string
  kk_cacert :: string
  kk_service :: string

record usb_conf =
  ku_label :: string
  ku_uuid :: string
  ku_unseal_file :: string

record kpc_config =
  kp_kms :: kms_conf
  kp_usb :: usb_conf
  kp_instances :: "instance_conf list"

text \<open>A section of the configuration file: an absent field is \<open>None\<close>.\<close>

definition def_service :: string where "def_service = ''openbao''"
definition def_unseal_file :: string where "def_unseal_file = ''kerplace-custody/unseal.json.gpg''"

definition kms_conf_of :: "string \<Rightarrow> string \<Rightarrow> string option \<Rightarrow> kms_conf" where
  "kms_conf_of addr cacert service =
     \<lparr> kk_addr = addr, kk_cacert = cacert, kk_service = (case service of Some s \<Rightarrow> s | None \<Rightarrow> def_service) \<rparr>"

definition usb_conf_of :: "string \<Rightarrow> string option \<Rightarrow> string option \<Rightarrow> usb_conf" where
  "usb_conf_of label uuid unseal =
     \<lparr> ku_label = label, ku_uuid = (case uuid of Some u \<Rightarrow> u | None \<Rightarrow> []),
       ku_unseal_file = (case unseal of Some f \<Rightarrow> f | None \<Rightarrow> def_unseal_file) \<rparr>"

record 'w host =
  ho_run :: "string \<Rightarrow> string list \<Rightarrow> ('w, string + proc) state"
  ho_pipe :: "string \<Rightarrow> string list \<Rightarrow> string \<Rightarrow> ('w, piped) state"
  ho_exists :: "string \<Rightarrow> ('w, bool) state"
  ho_read :: "string \<Rightarrow> ('w, string + string) state"
  ho_write :: "string \<Rightarrow> string \<Rightarrow> ('w, string + unit) state"
  ho_private :: "string \<Rightarrow> ('w, string + unit) state"
  ho_mkdir :: "string \<Rightarrow> ('w, string + unit) state"
  ho_ask :: "string \<Rightarrow> ('w, string option) state"
  ho_sleep :: "nat \<Rightarrow> ('w, unit) state"
  ho_print :: "string \<Rightarrow> ('w, unit) state"
  ho_warn :: "string \<Rightarrow> ('w, unit) state"
  ho_var :: "string \<Rightarrow> string option"
  ho_show :: "string \<Rightarrow> string"
  ho_json :: "string \<Rightarrow> string + json"
  ho_render :: "json \<Rightarrow> string"
  ho_toml :: "string \<Rightarrow> string + kpc_config"

definition load_config :: "'w host \<Rightarrow> string option \<Rightarrow> ('w, string + kpc_config) state" where
  "load_config H explicit =
     do {
       path \<leftarrow> (case explicit of
           Some p \<Rightarrow> State_Monad.return p
         | None \<Rightarrow>
             do {
               sys \<leftarrow> ho_exists H ''/etc/kerplace/kpc.toml'';
               State_Monad.return
                 (if sys then ''/etc/kerplace/kpc.toml''
                  else (case ho_var H ''HOME'' of Some h \<Rightarrow> h | None \<Rightarrow> []) @ ''/.config/kerplace/kpc.toml'')
             });
       s \<leftarrow> ho_read H path;
       State_Monad.return (case s of
           Err e \<Rightarrow> Err (''cannot read the config '' @ ho_show H path
             @ '' (create /etc/kerplace/kpc.toml or ~/.config/kerplace/kpc.toml)'')
         | Ok c \<Rightarrow> (case ho_toml H c of Err e \<Rightarrow> Err ''invalid TOML config'' | Ok conf \<Rightarrow> Ok conf))
     }"

fun json_bool :: "json \<Rightarrow> bool option" where
  "json_bool (JBool b) = Some b"
| "json_bool _ = None"

section \<open>Tools\<close>

definition apos :: "string \<Rightarrow> string" where "apos s = CHR 0x27 # s @ [CHR 0x27]"

definition sh :: "'w host \<Rightarrow> string \<Rightarrow> string list \<Rightarrow> ('w, string + proc) state" where
  "sh H cmd args =
     do {
       r \<leftarrow> ho_run H cmd args;
       State_Monad.return (case r of Ok p \<Rightarrow> Ok p | Err e \<Rightarrow> Err (''running '' @ apos cmd))
     }"

definition sh_trim :: "'w host \<Rightarrow> string \<Rightarrow> string list \<Rightarrow> ('w, string) state" where
  "sh_trim H cmd args =
     do {
       r \<leftarrow> ho_run H cmd args;
       State_Monad.return (case r of Ok p \<Rightarrow> trim (pr_stdout p) | Err e \<Rightarrow> [])
     }"

text \<open>\<open>sh(..).map(|s| s.status.success()).unwrap_or(false)\<close>.\<close>

definition succeeded :: "string + proc \<Rightarrow> bool" where
  "succeeded r = (case r of Ok p \<Rightarrow> pr_success p | Err e \<Rightarrow> False)"

text \<open>\<open>str::lines\<close>: a line may end in a carriage return and a line feed.\<close>

definition str_lines :: "string \<Rightarrow> string list" where
  "str_lines s =
     (let ls = split_on (CHR 0x0A) s;
          chomp = (\<lambda>l. if l \<noteq> [] \<and> last l = CHR 0x0D then butlast l else l)
      in map chomp (butlast ls) @ (if last ls = [] then [] else [last ls]))"

definition kms_sealed :: "'w host \<Rightarrow> kms_conf \<Rightarrow> ('w, bool option) state" where
  "kms_sealed H k =
     do {
       r \<leftarrow> sh H ''curl'' [''-s'', ''--cacert'', kk_cacert k, ''--max-time'', ''6'', kk_addr k @ ''/v1/sys/seal-status''];
       State_Monad.return (case r of
           Err e \<Rightarrow> None
         | Ok p \<Rightarrow> (case ho_json H (pr_stdout p) of Err e \<Rightarrow> None | Ok v \<Rightarrow> Option.bind (jget v ''sealed'') json_bool))
     }"

definition usb_present :: "'w host \<Rightarrow> usb_conf \<Rightarrow> ('w, bool) state" where
  "usb_present H u =
     do {
       by_uuid \<leftarrow> (if ku_uuid u = [] then State_Monad.return False else ho_exists H (''/dev/disk/by-uuid/'' @ ku_uuid u));
       if by_uuid then State_Monad.return True else ho_exists H (''/dev/disk/by-label/'' @ ku_label u)
     }"

definition usb_mount :: "'w host \<Rightarrow> usb_conf \<Rightarrow> ('w, string option) state" where
  "usb_mount H u =
     do {
       t \<leftarrow> sh_trim H ''findmnt'' [''-rn'', ''-S'', ''LABEL='' @ ku_label u, ''-o'', ''TARGET''];
       State_Monad.return (case str_lines t of l # ls \<Rightarrow> if l = [] then None else Some l | [] \<Rightarrow> None)
     }"

fun usb_mount_wait :: "'w host \<Rightarrow> usb_conf \<Rightarrow> nat \<Rightarrow> ('w, string option) state" where
  "usb_mount_wait H u 0 = usb_mount H u"
| "usb_mount_wait H u (Suc n) =
     do {
       m \<leftarrow> usb_mount H u;
       (case m of
          Some p \<Rightarrow> State_Monad.return (Some p)
        | None \<Rightarrow> do { _ \<leftarrow> ho_sleep H 1; usb_mount_wait H u n })
     }"

fun find_bucket :: "instance_conf list \<Rightarrow> string \<Rightarrow> (instance_conf \<times> bucket_conf) option" where
  "find_bucket [] name = None"
| "find_bucket (i # is) name =
     (case find (\<lambda>b. kb_name b = name) (ki_buckets i) of Some b \<Rightarrow> Some (i, b) | None \<Rightarrow> find_bucket is name)"

definition is_mounted :: "string \<Rightarrow> string \<Rightarrow> bool" where
  "is_mounted mounts mp =
     list_ex (\<lambda>l. let f = split_on (CHR '' '') l in length f > 2 \<and> f ! 1 = mp \<and> f ! 2 = ''fuse.s3fs'') (str_lines mounts)"

definition read_mounts :: "'w host \<Rightarrow> ('w, string) state" where
  "read_mounts H = do { r \<leftarrow> ho_read H ''/proc/mounts''; State_Monad.return (case r of Ok s \<Rightarrow> s | Err e \<Rightarrow> []) }"

text \<open>A sequence of actions, in order.\<close>

fun each :: "('a \<Rightarrow> ('w, unit) state) \<Rightarrow> 'a list \<Rightarrow> ('w, unit) state" where
  "each f [] = State_Monad.return ()"
| "each f (x # xs) = do { _ \<leftarrow> f x; each f xs }"

section \<open>Status\<close>

text \<open>\<open>{:<n}\<close> pads by characters; a byte of the form \<open>10xxxxxx\<close> continues one.\<close>

definition padded :: "nat \<Rightarrow> string \<Rightarrow> string" where
  "padded n s = s @ replicate (n - length (filter (\<lambda>c. (of_char c :: nat) div 64 \<noteq> 2) s)) (CHR '' '')"

definition dash :: string where "dash = [CHR 0xE2, CHR 0x80, CHR 0x94]"
definition check_mark :: string where "check_mark = [CHR 0xE2, CHR 0x9C, CHR 0x93]"

definition bucket_line :: "string \<Rightarrow> bucket_conf \<Rightarrow> string" where
  "bucket_line mounts b =
     ''        bucket '' @ padded 12 (kb_name b) @ '' ''
       @ padded 9 (if is_mounted mounts (kb_mountpoint b) then ''mounted'' else dash) @ '' '' @ kb_mountpoint b"

definition instance_status :: "'w host \<Rightarrow> string \<Rightarrow> instance_conf \<Rightarrow> ('w, unit) state" where
  "instance_status H mounts i =
     do {
       tun \<leftarrow> (if ki_tunnel_unit i = [] then State_Monad.return dash
               else do {
                 s \<leftarrow> sh_trim H ''systemctl'' [''--user'', ''is-active'', ki_tunnel_unit i];
                 State_Monad.return (if s = [] then ''?'' else s)
               });
       _ \<leftarrow> ho_print H (''inst  '' @ padded 14 (ki_name i) @ '' tunnel:'' @ tun);
       each (\<lambda>b. ho_print H (bucket_line mounts b)) (ki_buckets i)
     }"

definition cmd_status :: "'w host \<Rightarrow> kpc_config \<Rightarrow> ('w, string + unit) state" where
  "cmd_status H c =
     do {
       sealed \<leftarrow> kms_sealed H (kp_kms c);
       _ \<leftarrow> ho_print H (''KMS   '' @ padded 14 (case sealed of Some True \<Rightarrow> ''SEALED'' | Some False \<Rightarrow> ''unsealed'' | None \<Rightarrow> ''no answer'')
              @ '' '' @ kk_addr (kp_kms c));
       there \<leftarrow> usb_present H (kp_usb c);
       _ \<leftarrow> ho_print H (''USB   '' @ padded 14 (if there then ''present'' else ''ABSENT'')
              @ '' LABEL='' @ ku_label (kp_usb c) @ '' UUID='' @ ku_uuid (kp_usb c));
       mounts \<leftarrow> read_mounts H;
       _ \<leftarrow> each (instance_status H mounts) (kp_instances c);
       State_Monad.return (Ok ())
     }"

section \<open>Unsealing\<close>

text \<open>A graphical prompt: nothing when it does not start, fails or is left empty.\<close>

definition try_gui :: "'w host \<Rightarrow> string \<Rightarrow> string list \<Rightarrow> ('w, string option) state" where
  "try_gui H cmd args =
     do {
       r \<leftarrow> ho_run H cmd args;
       State_Monad.return (case r of
           Err e \<Rightarrow> None
         | Ok p \<Rightarrow> if \<not> pr_success p \<or> trim (pr_stdout p) = [] then None else Some (trim (pr_stdout p)))
     }"

definition get_passphrase :: "'w host \<Rightarrow> string \<Rightarrow> ('w, string + string) state" where
  "get_passphrase H prompt =
     do {
       tty \<leftarrow> ho_ask H (prompt @ '' '');
       (case tty of
          Some p \<Rightarrow> State_Monad.return (Ok p)
        | None \<Rightarrow>
            do {
              k \<leftarrow> try_gui H ''kdialog'' [''--password'', prompt];
              z \<leftarrow> (case k of Some p \<Rightarrow> State_Monad.return k
                    | None \<Rightarrow> try_gui H ''zenity'' [''--password'', ''--title'', prompt]);
              s \<leftarrow> (case z of Some p \<Rightarrow> State_Monad.return z
                    | None \<Rightarrow> try_gui H ''systemd-ask-password'' [''--no-tty'', ''--timeout=90'', prompt]);
              State_Monad.return (case s of Some p \<Rightarrow> Ok p
                | None \<Rightarrow> Err ''could not ask for the passphrase (no TTY and no graphical prompt)'')
            })
     }"

text \<open>The first of the keys in the decrypted material.\<close>

definition unseal_key :: "'w host \<Rightarrow> string \<Rightarrow> string + string" where
  "unseal_key H out =
     (case ho_json H out of
        Err e \<Rightarrow> Err ''invalid unseal JSON''
      | Ok v \<Rightarrow>
          (case Option.bind (jget v ''unseal_keys_b64'') as_array of
             Some (k # ks) \<Rightarrow>
               (case as_str k of Some s \<Rightarrow> Ok s | None \<Rightarrow> Err ''the material carries no unseal_keys_b64'')
           | _ \<Rightarrow> Err ''the material carries no unseal_keys_b64''))"

definition release_key :: "'w host \<Rightarrow> kpc_config \<Rightarrow> string \<Rightarrow> ('w, string + unit) state" where
  "release_key H c key =
     do {
       r \<leftarrow> ho_pipe H ''curl'' [''-s'', ''--cacert'', kk_cacert (kp_kms c), ''-X'', ''PUT'', ''--data'', ''@-'',
              kk_addr (kp_kms c) @ ''/v1/sys/unseal''] (ho_render H (JObj [(''key'', JStr key)]));
       (case r of
          NotLaunched \<Rightarrow> State_Monad.return (Err ''could not launch curl'')
        | PipeFailed e \<Rightarrow> State_Monad.return (Err e)
        | Ran p \<Rightarrow>
            (case Option.bind (case ho_json H (pr_stdout p) of Ok v \<Rightarrow> jget v ''sealed'' | Err e \<Rightarrow> None) json_bool of
               Some False \<Rightarrow> do { _ \<leftarrow> ho_print H (''KMS unsealed '' @ check_mark); State_Monad.return (Ok ()) }
             | Some True \<Rightarrow> State_Monad.return (Err ''the KMS is still sealed (key threshold > 1?)'')
             | None \<Rightarrow> State_Monad.return (Err (''unexpected response from the KMS: '' @ pr_stdout p))))
     }"

definition cmd_unseal :: "'w host \<Rightarrow> kpc_config \<Rightarrow> ('w, string + unit) state" where
  "cmd_unseal H c =
     do {
       m \<leftarrow> usb_mount_wait H (kp_usb c) 15;
       (case m of
          None \<Rightarrow> State_Monad.return (Err ''custody USB not mounted (LABEL not found)'')
        | Some mount \<Rightarrow>
            do {
              let file = mount @ ''/'' @ ku_unseal_file (kp_usb c);
              there \<leftarrow> ho_exists H file;
              if \<not> there then State_Monad.return (Err (''cannot find the unseal material on the USB: '' @ file))
              else do {
                pass \<leftarrow> get_passphrase H ''Custody USB passphrase:'';
                (case pass of
                   Err e \<Rightarrow> State_Monad.return (Err e)
                 | Ok phrase \<Rightarrow>
                     do {
                       r \<leftarrow> ho_pipe H ''gpg''
                              [''--batch'', ''--pinentry-mode'', ''loopback'', ''--passphrase-fd'', ''0'', ''-d'', file] phrase;
                       (case r of
                          NotLaunched \<Rightarrow> State_Monad.return (Err ''could not launch gpg'')
                        | PipeFailed e \<Rightarrow> State_Monad.return (Err e)
                        | Ran p \<Rightarrow>
                            if \<not> pr_success p \<or> pr_stdout p = []
                            then State_Monad.return (Err (''empty decryption '' @ dash @ '' wrong passphrase or invalid USB''))
                            else (case unseal_key H (pr_stdout p) of
                                    Err e \<Rightarrow> State_Monad.return (Err e)
                                  | Ok key \<Rightarrow> release_key H c key))
                     })
              }
            })
     }"

section \<open>Mounting and sealing\<close>

definition unmount_bucket :: "'w host \<Rightarrow> string \<Rightarrow> ('w, unit) state" where
  "unmount_bucket H mp =
     do {
       r \<leftarrow> sh H ''fusermount3'' [''-u'', mp];
       if succeeded r then State_Monad.return ()
       else do { _ \<leftarrow> sh H ''sudo'' [''umount'', ''-l'', mp]; State_Monad.return () }
     }"

definition seal_kms :: "'w host \<Rightarrow> kpc_config \<Rightarrow> ('w, string + unit) state" where
  "seal_kms H c =
     do {
       r \<leftarrow> sh H ''sudo'' [''systemctl'', ''restart'', kk_service (kp_kms c)];
       State_Monad.return (case r of
           Err e \<Rightarrow> Err e
         | Ok p \<Rightarrow>
             if \<not> pr_success p
             then Err (''could not restart '' @ apos (kk_service (kp_kms c)) @ '' (sudo): '' @ pr_stderr p)
             else Ok ())
     }"

definition instances :: "kpc_config \<Rightarrow> string option \<Rightarrow> instance_conf list" where
  "instances c name =
     (case name of Some n \<Rightarrow> filter (\<lambda>i. ki_name i = n) (kp_instances c) | None \<Rightarrow> kp_instances c)"

definition unmount_all :: "'w host \<Rightarrow> instance_conf list \<Rightarrow> ('w, unit) state" where
  "unmount_all H is = each (\<lambda>i. each (\<lambda>b. unmount_bucket H (kb_mountpoint b)) (ki_buckets i)) is"

definition cmd_seal :: "'w host \<Rightarrow> kpc_config \<Rightarrow> ('w, string + unit) state" where
  "cmd_seal H c =
     do {
       _ \<leftarrow> unmount_all H (kp_instances c);
       r \<leftarrow> seal_kms H c;
       (case r of
          Err e \<Rightarrow> State_Monad.return (Err e)
        | Ok _ \<Rightarrow> do { _ \<leftarrow> ho_print H ''KMS sealed + buckets unmounted.''; State_Monad.return (Ok ()) })
     }"

definition write_passwd :: "'w host \<Rightarrow> instance_conf \<Rightarrow> ('w, string + string) state" where
  "write_passwd H i =
     do {
       secret \<leftarrow> ho_read H (ki_secret_file i);
       (case secret of
          Err e \<Rightarrow> State_Monad.return (Err (''reading secret_file '' @ ki_secret_file i))
        | Ok s \<Rightarrow>
            do {
              let dir = (case ho_var H ''HOME'' of Some h \<Rightarrow> h | None \<Rightarrow> ''/tmp'') @ ''/.config/kerplace'';
              let passwd = dir @ ''/.kpc-passwd-'' @ ki_name i;
              _ \<leftarrow> ho_mkdir H dir;
              w \<leftarrow> ho_write H passwd (ki_access_key i @ '':'' @ trim s @ [CHR 0x0A]);
              (case w of
                 Err e \<Rightarrow> State_Monad.return (Err e)
               | Ok _ \<Rightarrow>
                   do {
                     q \<leftarrow> ho_private H passwd;
                     State_Monad.return (case q of Err e \<Rightarrow> Err e | Ok _ \<Rightarrow> Ok passwd)
                   })
            })
     }"

definition s3fs_args :: "instance_conf \<Rightarrow> bucket_conf \<Rightarrow> string \<Rightarrow> string list" where
  "s3fs_args i b passwd =
     [kb_name b, kb_mountpoint b, ''-o'', ''url='' @ ki_s3_endpoint i, ''-o'', ''use_path_request_style'',
      ''-o'', ''passwd_file='' @ passwd, ''-o'', ''dbglevel=err'']"

definition cmd_mount :: "'w host \<Rightarrow> kpc_config \<Rightarrow> string \<Rightarrow> ('w, string + unit) state" where
  "cmd_mount H c name =
     (case find_bucket (kp_instances c) name of
        None \<Rightarrow> State_Monad.return (Err (''bucket '' @ apos name @ '' is not in the config''))
      | Some (i, b) \<Rightarrow>
          do {
            mounts \<leftarrow> read_mounts H;
            if is_mounted mounts (kb_mountpoint b)
            then do { _ \<leftarrow> ho_print H (''already mounted: '' @ kb_name b @ '' @ '' @ kb_mountpoint b); State_Monad.return (Ok ()) }
            else do {
              w \<leftarrow> write_passwd H i;
              (case w of
                 Err e \<Rightarrow> State_Monad.return (Err e)
               | Ok passwd \<Rightarrow>
                   do {
                     d \<leftarrow> ho_mkdir H (kb_mountpoint b);
                     (case d of
                        Err e \<Rightarrow> State_Monad.return (Err e)
                      | Ok _ \<Rightarrow>
                          do {
                            r \<leftarrow> sh H ''s3fs'' (s3fs_args i b passwd);
                            (case r of
                               Err e \<Rightarrow> State_Monad.return (Err e)
                             | Ok p \<Rightarrow>
                                 if \<not> pr_success p
                                 then State_Monad.return (Err (''s3fs failed to mount '' @ apos (kb_name b) @ '': '' @ trim (pr_stderr p)
                                   @ CHR 0x0A # ''  hint: is any terminal/process sitting with its cwd INSIDE ''
                                   @ kb_mountpoint b @ ''? leave it (cd ~) and retry.''))
                                 else do {
                                   _ \<leftarrow> ho_print H (''mounted '' @ apos (kb_name b) @ '' @ '' @ kb_mountpoint b);
                                   State_Monad.return (Ok ())
                                 })
                          })
                   })
            }
          })"

definition cmd_umount :: "'w host \<Rightarrow> kpc_config \<Rightarrow> string \<Rightarrow> ('w, string + unit) state" where
  "cmd_umount H c name =
     (case find_bucket (kp_instances c) name of
        None \<Rightarrow> State_Monad.return (Err (''bucket '' @ apos name @ '' is not in the config''))
      | Some (i, b) \<Rightarrow>
          do {
            r \<leftarrow> sh H ''fusermount3'' [''-u'', kb_mountpoint b];
            if succeeded r
            then do { _ \<leftarrow> ho_print H (''unmounted '' @ kb_mountpoint b); State_Monad.return (Ok ()) }
            else do {
              _ \<leftarrow> sh H ''umount'' [''-l'', kb_mountpoint b];
              _ \<leftarrow> ho_print H (''unmounted (lazy) '' @ kb_mountpoint b);
              State_Monad.return (Ok ())
            }
          })"

section \<open>Raising and lowering\<close>

definition raise_tunnel :: "'w host \<Rightarrow> instance_conf \<Rightarrow> ('w, unit) state" where
  "raise_tunnel H i =
     (if ki_tunnel_unit i = [] then State_Monad.return ()
      else do {
        s \<leftarrow> sh_trim H ''systemctl'' [''--user'', ''is-active'', ki_tunnel_unit i];
        if s = ''active'' then State_Monad.return ()
        else do {
          _ \<leftarrow> ho_print H (''bringing up tunnel '' @ ki_tunnel_unit i);
          _ \<leftarrow> sh H ''systemctl'' [''--user'', ''start'', ki_tunnel_unit i];
          State_Monad.return ()
        }
      })"

definition stop_tunnel :: "'w host \<Rightarrow> instance_conf \<Rightarrow> ('w, unit) state" where
  "stop_tunnel H i =
     (if ki_tunnel_unit i = [] then State_Monad.return ()
      else do { _ \<leftarrow> sh H ''systemctl'' [''--user'', ''stop'', ki_tunnel_unit i]; State_Monad.return () })"

definition mount_or_warn :: "'w host \<Rightarrow> kpc_config \<Rightarrow> bucket_conf \<Rightarrow> ('w, unit) state" where
  "mount_or_warn H c b =
     do {
       r \<leftarrow> cmd_mount H c (kb_name b);
       (case r of
          Ok _ \<Rightarrow> State_Monad.return ()
        | Err e \<Rightarrow> ho_warn H (''  warning: could not mount '' @ apos (kb_name b) @ '': '' @ e))
     }"

definition cmd_enable :: "'w host \<Rightarrow> kpc_config \<Rightarrow> string option \<Rightarrow> ('w, string + unit) state" where
  "cmd_enable H c name =
     do {
       _ \<leftarrow> each (raise_tunnel H) (instances c name);
       sealed \<leftarrow> kms_sealed H (kp_kms c);
       u \<leftarrow> (if sealed = Some True then cmd_unseal H c
             else do { _ \<leftarrow> ho_print H ''KMS already unsealed.''; State_Monad.return (Ok ()) });
       (case u of
          Err e \<Rightarrow> State_Monad.return (Err e)
        | Ok _ \<Rightarrow>
            do {
              _ \<leftarrow> each (\<lambda>i. each (mount_or_warn H c) (ki_buckets i)) (instances c name);
              _ \<leftarrow> ho_print H ''---'';
              cmd_status H c
            })
     }"

definition cmd_disable :: "'w host \<Rightarrow> kpc_config \<Rightarrow> string option \<Rightarrow> ('w, string + unit) state" where
  "cmd_disable H c name =
     do {
       _ \<leftarrow> unmount_all H (instances c name);
       _ \<leftarrow> each (stop_tunnel H) (instances c name);
       r \<leftarrow> seal_kms H c;
       (case r of
          Err e \<Rightarrow> State_Monad.return (Err e)
        | Ok _ \<Rightarrow>
            do { _ \<leftarrow> ho_print H ''Down: buckets unmounted, tunnel stopped, KMS sealed.''; State_Monad.return (Ok ()) })
     }"

section \<open>Watching the USB\<close>

definition usb_path :: "kpc_config \<Rightarrow> string" where
  "usb_path c = ''/dev/disk/by-uuid/'' @ ku_uuid (kp_usb c)"

text \<open>One turn of the loop: what was seen last, and what is seen now.\<close>

definition watch_step :: "'w host \<Rightarrow> kpc_config \<Rightarrow> bool \<Rightarrow> ('w, bool) state" where
  "watch_step H c present =
     do {
       now \<leftarrow> ho_exists H (usb_path c);
       _ \<leftarrow> (if now \<and> \<not> present then
               do {
                 _ \<leftarrow> ho_warn H ''[kpc watch] USB inserted -> enable'';
                 r \<leftarrow> cmd_enable H c None;
                 (case r of Ok _ \<Rightarrow> State_Monad.return () | Err e \<Rightarrow> ho_warn H (''[kpc watch] enable failed: '' @ e))
               }
             else if \<not> now \<and> present then
               do {
                 _ \<leftarrow> ho_warn H ''[kpc watch] USB removed -> stopping tunnel(s)'';
                 each (stop_tunnel H) (kp_instances c)
               }
             else State_Monad.return ());
       _ \<leftarrow> ho_sleep H 2;
       State_Monad.return now
     }"

text \<open>\<open>cmd_watch\<close> loops for ever; this is its first \<open>n\<close> turns.\<close>

fun watch_turns :: "'w host \<Rightarrow> kpc_config \<Rightarrow> nat \<Rightarrow> bool \<Rightarrow> ('w, bool) state" where
  "watch_turns H c 0 present = State_Monad.return present"
| "watch_turns H c (Suc n) present = do { now \<leftarrow> watch_step H c present; watch_turns H c n now }"

definition watch_start :: "'w host \<Rightarrow> kpc_config \<Rightarrow> nat \<Rightarrow> ('w, bool) state" where
  "watch_start H c n =
     do { _ \<leftarrow> ho_warn H (''[kpc watch] watching '' @ usb_path c); watch_turns H c n False }"

section \<open>Commands\<close>

datatype kpc_cmd =
    Status | Unseal | Seal | Mount string | Umount string | ProvisionUsb "string option" | Enable "string option"
  | Disable "string option" | Backup "string option"

definition stub :: "'w host \<Rightarrow> string \<Rightarrow> string \<Rightarrow> ('w, string + unit) state" where
  "stub H name hint =
     do {
       _ \<leftarrow> ho_print H (''[kpc] '' @ apos name @ '' is not ported to native Rust yet.'');
       _ \<leftarrow> ho_print H (''      For now: '' @ hint);
       State_Monad.return (Ok ())
     }"

fun kpc_do :: "'w host \<Rightarrow> kpc_config \<Rightarrow> kpc_cmd \<Rightarrow> ('w, string + unit) state" where
  "kpc_do H c Status = cmd_status H c"
| "kpc_do H c Unseal = cmd_unseal H c"
| "kpc_do H c Seal = cmd_seal H c"
| "kpc_do H c (Mount b) = cmd_mount H c b"
| "kpc_do H c (Umount b) = cmd_umount H c b"
| "kpc_do H c (ProvisionUsb p) = stub H ''provision-usb'' ''use ~/.config/kerplace/usb-reprovision.sh''"
| "kpc_do H c (Enable i) = cmd_enable H c i"
| "kpc_do H c (Disable i) = cmd_disable H c i"
| "kpc_do H c (Backup d) = stub H ''backup'' ''use ~/.config/kerplace/dr-backup.sh''"

definition kpc_main :: "'w host \<Rightarrow> string option \<Rightarrow> kpc_cmd \<Rightarrow> ('w, string + unit) state" where
  "kpc_main H config cmd =
     do {
       c \<leftarrow> load_config H config;
       (case c of Err e \<Rightarrow> State_Monad.return (Err e) | Ok conf \<Rightarrow> kpc_do H conf cmd)
     }"

end
