(* ===== verification/Kpc_Props.thy ===== *)
theory Kpc_Props
  imports Kpc
begin

text \<open>
  Properties of the custody command line over a host that records every call and answers as it likes: a function of
  all that happened before decides each answer.
\<close>

section \<open>A recording host\<close>

datatype event =
    ERun string "string list" | EPipe string "string list" | EExists string | ERead string | EWrite string
  | EPrivate string | EMkdir string | EAsk | ESleep nat | EPrint string | EWarn string

record answers =
  an_run :: "event list \<Rightarrow> string \<Rightarrow> string list \<Rightarrow> string + proc"
  an_pipe :: "event list \<Rightarrow> string \<Rightarrow> string list \<Rightarrow> string \<Rightarrow> piped"
  an_exists :: "event list \<Rightarrow> string \<Rightarrow> bool"
  an_read :: "event list \<Rightarrow> string \<Rightarrow> string + string"
  an_write :: "event list \<Rightarrow> string \<Rightarrow> string + unit"
  an_ask :: "event list \<Rightarrow> string option"
  an_var :: "string \<Rightarrow> string option"
  an_json :: "string \<Rightarrow> string + json"
  an_toml :: "string \<Rightarrow> string + kpc_config"

definition record_event :: "(event list \<Rightarrow> 'a) \<Rightarrow> event \<Rightarrow> (event list, 'a) state" where
  "record_event f e = State (\<lambda>h. (f h, h @ [e]))"

definition recording :: "answers \<Rightarrow> event list host" where
  "recording A =
     \<lparr> ho_run = (\<lambda>cmd args. record_event (\<lambda>h. an_run A h cmd args) (ERun cmd args)),
       ho_pipe = (\<lambda>cmd args s. record_event (\<lambda>h. an_pipe A h cmd args s) (EPipe cmd args)),
       ho_exists = (\<lambda>p. record_event (\<lambda>h. an_exists A h p) (EExists p)),
       ho_read = (\<lambda>p. record_event (\<lambda>h. an_read A h p) (ERead p)),
       ho_write = (\<lambda>p s. record_event (\<lambda>h. an_write A h p) (EWrite p)),
       ho_private = (\<lambda>p. record_event (\<lambda>h. an_write A h p) (EPrivate p)),
       ho_mkdir = (\<lambda>p. record_event (\<lambda>h. an_write A h p) (EMkdir p)),
       ho_ask = (\<lambda>p. record_event (an_ask A) EAsk), ho_sleep = (\<lambda>n. record_event (\<lambda>h. ()) (ESleep n)),
       ho_print = (\<lambda>s. record_event (\<lambda>h. ()) (EPrint s)), ho_warn = (\<lambda>s. record_event (\<lambda>h. ()) (EWarn s)),
       ho_var = an_var A, ho_show = id, ho_json = an_json A, ho_render = (\<lambda>v. []), ho_toml = an_toml A \<rparr>"

lemma recording_run [simp]:
  "run_state (ho_run (recording A) cmd args) h = (an_run A h cmd args, h @ [ERun cmd args])"
  "run_state (ho_print (recording A) s) h = ((), h @ [EPrint s])"
  "run_state (ho_exists (recording A) p) h = (an_exists A h p, h @ [EExists p])"
  "run_state (ho_sleep (recording A) n) h = ((), h @ [ESleep n])"
  "run_state (ho_warn (recording A) s) h = ((), h @ [EWarn s])"
  by (simp_all add: recording_def record_event_def)

lemma run_bind [simp]: "run_state (State_Monad.bind f g) h = (case run_state f h of (x, h') \<Rightarrow> run_state (g x) h')"
  by (simp add: State_Monad.bind_def split: prod.splits)

lemma run_return [simp]: "run_state (State_Monad.return x) h = (x, h)"
  by (simp add: State_Monad.return_def)

lemma run_sh [simp]:
  "run_state (sh (recording A) cmd args) h =
     (case an_run A h cmd args of Ok p \<Rightarrow> Ok p | Err e \<Rightarrow> Err (''running '' @ apos cmd), h @ [ERun cmd args])"
  by (simp add: sh_def)

text \<open>A sequence leaves the events of its parts, one after the other.\<close>

lemma each_log:
  assumes "\<And>x h. x \<in> set xs \<Longrightarrow> \<exists>t. run_state (f x) h = ((), h @ t) \<and> Q x t"
  shows "\<exists>ts. run_state (each f xs) h = ((), h @ concat ts) \<and> list_all2 Q xs ts"
  using assms
proof (induction xs arbitrary: h)
  case (Cons x xs)
  then obtain t where t: "run_state (f x) h = ((), h @ t)" "Q x t" by (meson list.set_intros(1))
  from Cons obtain ts where "run_state (each f xs) (h @ t) = ((), (h @ t) @ concat ts)" "list_all2 Q xs ts"
    by (meson list.set_intros(2))
  with t show ?case by (intro exI [of _ "t # ts"]) simp
qed (rule exI [of _ "[]"], simp)

lemma list_all2_some: "list_all2 Q xs ts \<Longrightarrow> x \<in> set xs \<Longrightarrow> \<exists>t \<in> set ts. Q x t"
  by (induction rule: list_all2_induct) auto

definition unmounts :: "string \<Rightarrow> event" where "unmounts mp = ERun ''fusermount3'' [''-u'', mp]"
definition seals :: "kpc_config \<Rightarrow> event" where "seals c = ERun ''sudo'' [''systemctl'', ''restart'', kk_service (kp_kms c)]"

text \<open>The two ways an unmount is asked for: the plain one, and the lazy one that follows when it fails.\<close>

definition releases :: "string \<Rightarrow> event \<Rightarrow> bool" where
  "releases mp e \<longleftrightarrow> e = unmounts mp \<or> e = ERun ''sudo'' [''umount'', ''-l'', mp]"

definition unmounted :: "string set \<Rightarrow> event list \<Rightarrow> bool" where
  "unmounted mps t \<longleftrightarrow> (\<forall>mp \<in> mps. unmounts mp \<in> set t) \<and> (\<forall>e \<in> set t. \<forall>mp. releases mp e \<longrightarrow> mp \<in> mps)"

lemma unmounted_concat:
  assumes "list_all2 (\<lambda>x t. unmounted (F x) t) xs ts"
  shows "unmounted (\<Union> (F ` set xs)) (concat ts)"
  using assms by (induction rule: list_all2_induct) (auto simp: unmounted_def)

lemma unmount_log: "\<exists>t. run_state (unmount_bucket (recording A) mp) h = ((), h @ t) \<and> unmounted {mp} t"
  by (auto simp: unmount_bucket_def unmounted_def releases_def unmounts_def)

lemma unmount_all_log:
  "\<exists>t. run_state (unmount_all (recording A) is) h = ((), h @ t)
    \<and> unmounted {kb_mountpoint b | i b. i \<in> set is \<and> b \<in> set (ki_buckets i)} t"
proof -
  let ?F = "\<lambda>i. kb_mountpoint ` set (ki_buckets i)"
  have "\<exists>t. run_state (each (\<lambda>b. unmount_bucket (recording A) (kb_mountpoint b)) (ki_buckets i)) h = ((), h @ t)
      \<and> unmounted (?F i) t" for i h
  proof -
    from each_log [where xs = "ki_buckets i" and Q = "\<lambda>b t. unmounted {kb_mountpoint b} t" and h = h
        and f = "\<lambda>b. unmount_bucket (recording A) (kb_mountpoint b)", OF unmount_log]
    obtain ts where ts: "run_state (each (\<lambda>b. unmount_bucket (recording A) (kb_mountpoint b)) (ki_buckets i)) h = ((), h @ concat ts)"
      "list_all2 (\<lambda>b t. unmounted {kb_mountpoint b} t) (ki_buckets i) ts" by blast
    have "\<Union> ((\<lambda>b. {kb_mountpoint b}) ` set (ki_buckets i)) = ?F i" by blast
    with unmounted_concat [OF ts(2)] ts(1) show ?thesis by (intro exI [of _ "concat ts"]) simp
  qed
  from each_log [where xs = "is" and Q = "\<lambda>i t. unmounted (?F i) t" and h = h, OF this] obtain ts where
    ts: "run_state (unmount_all (recording A) is) h = ((), h @ concat ts)" "list_all2 (\<lambda>i t. unmounted (?F i) t) is ts"
    unfolding unmount_all_def by blast
  have "\<Union> (?F ` set is) = {kb_mountpoint b | i b. i \<in> set is \<and> b \<in> set (ki_buckets i)}" by blast
  with unmounted_concat [OF ts(2)] ts(1) show ?thesis by (intro exI [of _ "concat ts"]) simp
qed

lemma stop_log: "\<exists>t. run_state (each (stop_tunnel (recording A)) is) h = ((), h @ t) \<and> unmounted {} t"
proof -
  have "\<exists>t. run_state (stop_tunnel (recording A) i) h = ((), h @ t) \<and> unmounted {} t" for i h
    by (simp add: stop_tunnel_def unmounted_def releases_def unmounts_def)
  from each_log [where xs = "is" and Q = "\<lambda>i t. unmounted {} t" and f = "stop_tunnel (recording A)" and h = h, OF this]
  obtain ts where ts: "run_state (each (stop_tunnel (recording A)) is) h = ((), h @ concat ts)" "list_all2 (\<lambda>i t. unmounted {} t) is ts"
    by blast
  from unmounted_concat [OF ts(2)] ts(1) show ?thesis by (intro exI [of _ "concat ts"]) simp
qed

lemma seal_log:
  "\<exists>r. run_state (seal_kms (recording A) c) h = (r, h @ [seals c])
    \<and> (r = Ok () \<longleftrightarrow> (\<exists>p. an_run A h ''sudo'' [''systemctl'', ''restart'', kk_service (kp_kms c)] = Ok p \<and> pr_success p))"
  by (auto simp: seal_kms_def seals_def split: sum.splits)

section \<open>Sealing\<close>

text \<open>C38: sealing comes after unmounting.  Whatever the tools answer, \<open>kpc seal\<close>, \<open>kpc disable\<close> and
\<open>kpc disable <instance>\<close> first ask for every bucket of the instances they lower to be unmounted (all instances, or with a
name those of that name), and for the mount point of no other bucket; then they restart the key store, and then only print.
They report success exactly when the restart did.\<close>

theorem kpc_seals_last:
  assumes "cmd = Seal \<and> name = None \<or> cmd = Disable name" and "run_state (kpc_do (recording A) c cmd) h = (r, h')"
  shows "\<exists>t u. h' = h @ t @ [seals c] @ u
    \<and> unmounted {kb_mountpoint b | i b. i \<in> set (kp_instances c) \<and> (name = None \<or> name = Some (ki_name i)) \<and> b \<in> set (ki_buckets i)} t
    \<and> list_all (\<lambda>e. \<exists>s. e = EPrint s) u
    \<and> (r = Ok () \<longleftrightarrow> (\<exists>p. an_run A (h @ t) ''sudo'' [''systemctl'', ''restart'', kk_service (kp_kms c)] = Ok p \<and> pr_success p))"
proof -
  let ?mps = "{kb_mountpoint b | i b. i \<in> set (kp_instances c) \<and> (name = None \<or> name = Some (ki_name i)) \<and> b \<in> set (ki_buckets i)}"
  have chosen: "{kb_mountpoint b | i b. i \<in> set (instances c name) \<and> b \<in> set (ki_buckets i)} = ?mps"
    by (cases name) (auto simp: instances_def)
  obtain t where t: "run_state (unmount_all (recording A) (instances c name)) h = ((), h @ t)" "unmounted ?mps t"
    using unmount_all_log [of A "instances c name" h] unfolding chosen by blast
  obtain t' where t': "run_state (each (stop_tunnel (recording A)) (instances c name)) (h @ t) = ((), (h @ t) @ t')" "unmounted {} t'"
    using stop_log by blast
  obtain r1 where r1: "run_state (seal_kms (recording A) c) (h @ t) = (r1, (h @ t) @ [seals c])"
    "r1 = Ok () \<longleftrightarrow> (\<exists>p. an_run A (h @ t) ''sudo'' [''systemctl'', ''restart'', kk_service (kp_kms c)] = Ok p \<and> pr_success p)"
    using seal_log by blast
  obtain r2 where r2: "run_state (seal_kms (recording A) c) (h @ t @ t') = (r2, (h @ t @ t') @ [seals c])"
    "r2 = Ok () \<longleftrightarrow> (\<exists>p. an_run A (h @ t @ t') ''sudo'' [''systemctl'', ''restart'', kk_service (kp_kms c)] = Ok p \<and> pr_success p)"
    using seal_log by blast
  from assms(1) show ?thesis
  proof
    assume "cmd = Seal \<and> name = None"
    with assms(2) t(1) r1(1) have "\<exists>u. h' = h @ t @ [seals c] @ u \<and> list_all (\<lambda>e. \<exists>s. e = EPrint s) u \<and> (r = Ok () \<longleftrightarrow> r1 = Ok ())"
      by (auto simp: cmd_seal_def instances_def split: sum.splits)
    with t(2) r1(2) show ?thesis by blast
  next
    assume "cmd = Disable name"
    with assms(2) t(1) t'(1) r2(1) obtain u where "h' = h @ (t @ t') @ [seals c] @ u" "list_all (\<lambda>e. \<exists>s. e = EPrint s) u"
      "r = Ok () \<longleftrightarrow> r2 = Ok ()"
      by (auto simp: cmd_disable_def split: sum.splits)
    moreover have "unmounted ?mps (t @ t')" using t(2) t'(2) by (auto simp: unmounted_def)
    ultimately show ?thesis using r2(2) by (intro exI [of _ "t @ t'"] exI [of _ u]) simp
  qed
qed

definition ex_answers :: answers where
  "ex_answers = \<lparr> an_run = (\<lambda>h cmd args. Ok \<lparr> pr_success = (cmd = ''sudo''), pr_stdout = [], pr_stderr = [] \<rparr>),
     an_pipe = (\<lambda>h cmd args s. NotLaunched), an_exists = (\<lambda>h p. False), an_read = (\<lambda>h p. Ok []), an_write = (\<lambda>h p. Ok ()),
     an_ask = (\<lambda>h. None), an_var = (\<lambda>n. None), an_json = (\<lambda>s. Err []), an_toml = (\<lambda>s. Err []) \<rparr>"

definition ex_kpc :: kpc_config where
  "ex_kpc = \<lparr> kp_kms = kms_conf_of ''https://k'' ''ca'' None, kp_usb = usb_conf_of ''CUSTODY'' None None,
     kp_instances = [\<lparr> ki_name = ''a'', ki_tunnel_unit = ''t'', ki_s3_endpoint = [], ki_access_key = [], ki_secret_file = [],
       ki_buckets = [\<lparr> kb_name = ''docs'', kb_mountpoint = ''/m/docs'' \<rparr>] \<rparr>,
       \<lparr> ki_name = ''b'', ki_tunnel_unit = [], ki_s3_endpoint = [], ki_access_key = [], ki_secret_file = [],
       ki_buckets = [\<lparr> kb_name = ''pics'', kb_mountpoint = ''/m/pics'' \<rparr>] \<rparr>] \<rparr>"

lemma chosen_mounts:
  "{kb_mountpoint b | i b. i \<in> set is \<and> P i \<and> b \<in> set (ki_buckets i)} =
     set (concat (map (\<lambda>i. map kb_mountpoint (ki_buckets i)) (filter P is)))"
  by force

text \<open>Lowering all unmounts both buckets before the seal; lowering one seals under the bucket of the other.\<close>

theorem kpc_seals_last_witness:
  "(\<exists>t u. snd (run_state (kpc_do (recording ex_answers) ex_kpc (Disable None)) []) = t @ [seals ex_kpc] @ u
     \<and> unmounts ''/m/docs'' \<in> set t \<and> unmounts ''/m/pics'' \<in> set t)
   \<and> (\<exists>t u. snd (run_state (kpc_do (recording ex_answers) ex_kpc (Disable (Some ''a''))) []) = t @ [seals ex_kpc] @ u
     \<and> unmounts ''/m/docs'' \<in> set t \<and> unmounts ''/m/pics'' \<notin> set t)"
proof -
  have log: "\<exists>t u. snd (run_state (kpc_do (recording ex_answers) ex_kpc (Disable name)) []) = t @ [seals ex_kpc] @ u
     \<and> unmounted {kb_mountpoint b | i b. i \<in> set (kp_instances ex_kpc) \<and> (name = None \<or> name = Some (ki_name i)) \<and> b \<in> set (ki_buckets i)} t"
    for name
  proof -
    obtain r h' where run: "run_state (kpc_do (recording ex_answers) ex_kpc (Disable name)) [] = (r, h')" by force
    from kpc_seals_last [OF _ run, of name] run show ?thesis by auto
  qed
  have mps: "{kb_mountpoint b | i b. i \<in> set (kp_instances ex_kpc) \<and> (None = None \<or> None = Some (ki_name i)) \<and> b \<in> set (ki_buckets i)}
      = {''/m/docs'', ''/m/pics''}"
    "{kb_mountpoint b | i b. i \<in> set (kp_instances ex_kpc) \<and> (Some ''a'' = None \<or> Some ''a'' = Some (ki_name i)) \<and> b \<in> set (ki_buckets i)}
      = {''/m/docs''}"
    unfolding chosen_mounts by (simp_all add: ex_kpc_def)
  have all: "unmounts ''/m/docs'' \<in> set t \<and> unmounts ''/m/pics'' \<in> set t" if "unmounted {''/m/docs'', ''/m/pics''} t" for t
    using that by (simp add: unmounted_def)
  have one: "unmounts ''/m/docs'' \<in> set t \<and> unmounts ''/m/pics'' \<notin> set t" if "unmounted {''/m/docs''} t" for t
  proof -
    have "releases ''/m/pics'' (unmounts ''/m/pics'')" "''/m/pics'' \<notin> {''/m/docs''}" by (simp_all add: releases_def)
    with that show ?thesis by (auto simp: unmounted_def simp del: insert_iff)
  qed
  show ?thesis
    using log [of None, unfolded mps(1)] log [of "Some ''a''", unfolded mps(2)] all one by blast
qed

text \<open>
  A limit: a key store that gives no answer is taken for an unsealed one.
\<close>

lemma enable_trusts_silence:
  assumes "\<And>s. an_json A s = Err e"
  shows "run_state (cmd_enable (recording A) \<lparr> kp_kms = k, kp_usb = u, kp_instances = [] \<rparr> None) []
      = run_state (do { _ \<leftarrow> kms_sealed (recording A) k; _ \<leftarrow> ho_print (recording A) ''KMS already unsealed.'';
          _ \<leftarrow> ho_print (recording A) ''---'';
          cmd_status (recording A) \<lparr> kp_kms = k, kp_usb = u, kp_instances = [] \<rparr> }) []"
proof -
  have "ho_json (recording A) = an_json A" by (simp add: recording_def)
  then show ?thesis
    using assms by (simp add: cmd_enable_def instances_def kms_sealed_def split: sum.splits)
qed

end
