(* ===== verification/Spec2Isabelle.thy ===== *)
theory Spec2Isabelle
  imports S3_Error Custody Store_Multipart Heal_Props Listing_Props Cluster_Props Auth_Props Lifecycle_Props Hazard_Props
    Kms_Props Identity_Props Console_Props Startup_Props Kpc_Props
begin

text \<open>
  A verification library for KerPlace, an S3-compatible object store (\<open>src/src\<close>, Rust).

  \<^bold>\<open>The program.\<close>  A request enters through the router (\<open>router.rs\<close>) and the authentication
  middleware (\<open>auth/mod.rs\<close>), which resolves an identity (\<open>iam.rs\<close>), checks its AWS Signature V4
  (\<open>auth/sigv4.rs\<close>), its policy and its bucket scope, decodes \<open>aws-chunked\<close> bodies (\<open>auth/chunked.rs\<close>)
  and writes an access record (\<open>access_log.rs\<close>).  The handlers (\<open>handlers/*.rs\<close>) turn it into calls of
  the object store.  The erasure store (\<open>erasure/store.rs\<close>) cuts a body, encrypted or not
  (\<open>crypto/*.rs\<close>), into blocks, each block into data and parity shards (\<open>erasure/codec.rs\<close>), and writes
  one shard file per drive (\<open>erasure/drive.rs\<close>).  A drive is a local directory or a remote node
  (\<open>cluster/remote.rs\<close>) that serves one (\<open>cluster/server.rs\<close>); writers of one key exclude each other by
  a quorum of leases with fencing tokens (\<open>cluster/lock.rs\<close>).  A background pass (\<open>lifecycle.rs\<close>)
  deletes expired objects through the same store.  A single directory can be served instead of drives, by the
  plain filesystem backend (\<open>storage/fs.rs\<close>).  The administration API (\<open>handlers/admin.rs\<close>) and the web console
  (\<open>console/*.rs\<close>, on a port of its own) reach the same store and user table beside the S3 handlers; an external
  identity provider (\<open>auth/oidc.rs\<close>) backs temporary credentials (\<open>handlers/sts.rs\<close>) and the console's single
  sign-on.  The start (\<open>main.rs\<close>, \<open>config.rs\<close>) reads the command line and the environment, opens a key provider
  (\<open>crypto/provider.rs\<close>) and a backend, and refuses what the deployment profile forbids.

  \<^bold>\<open>Theories and sources.\<close>  Models first, in the order the code has them; each names its lines.
  \<^item> \<open>KP_Prelude\<close>: results, bytes, and the parts of Rust's standard library the sources use.
  \<^item> \<open>S3_Error\<close> (\<open>error.rs\<close>), \<open>Object_Types\<close> (\<open>storage/mod.rs\<close>), \<open>Layout\<close> (paths and documents of
    \<open>erasure/store.rs\<close>).
  \<^item> \<open>Drive\<close> (\<open>erasure/drive.rs\<close>): a file tree as a finite map from paths to directories and documents,
    with one function per operation and an environment that may fail any of them.
  \<^item> \<open>Codec\<close> (\<open>erasure/codec.rs\<close>), \<open>Crypto\<close> and \<open>Custody\<close> (\<open>crypto/mod.rs\<close>, \<open>crypto/provider.rs\<close>).
  \<^item> \<open>Store_Base\<close>, \<open>Store_Versions\<close>, \<open>Store_Objects\<close>, \<open>Store_Multipart\<close>, \<open>Store_Heal\<close>
    (\<open>erasure/store.rs\<close>): the record \<open>store\<close> holds the drives; an operation maps it to the changed
    store and a result.
  \<^item> \<open>Fs_Store\<close>, \<open>Fs_Objects\<close>, \<open>Fs_Listing\<close>, \<open>Fs_Multipart\<close> (\<open>storage/fs.rs\<close>): the record \<open>fs_store\<close> is one
    drive, whose tree holds payloads, metadata, histories and archived versions.
  \<^item> \<open>Lock\<close> and \<open>Cluster\<close> (\<open>cluster/*.rs\<close>), \<open>Iam\<close> (\<open>iam.rs\<close>), \<open>Sigv4\<close> and \<open>Auth\<close> (\<open>auth/*.rs\<close>).
  \<^item> \<open>Handlers\<close>, \<open>Bucket_Handlers\<close>, \<open>Object_Handlers\<close> (\<open>handlers/*.rs\<close>), \<open>Gateway\<close> (\<open>router.rs\<close>: a
    request through authentication and routing to the store), \<open>Lifecycle\<close> (\<open>lifecycle.rs\<close>).
  \<^item> \<open>Config\<close> (\<open>config.rs\<close>), \<open>Kms\<close> (key files and the KMS provider of \<open>crypto/*.rs\<close>), \<open>Startup\<close> (\<open>main.rs\<close>,
    \<open>tls.rs\<close>, \<open>cluster/mtls.rs\<close>): the environment is a function from names to values, a start maps the surroundings
    and the arguments to a running server or to the reason of its refusal.
  \<^item> \<open>Json\<close>, \<open>Madmin\<close> (\<open>madmin.rs\<close>), \<open>Admin\<close> (\<open>handlers/admin.rs\<close>), \<open>Oidc\<close> (\<open>auth/oidc.rs\<close>, \<open>handlers/sts.rs\<close>),
    \<open>Console_Auth\<close> and \<open>Console\<close> (\<open>console/*.rs\<close>): handlers over the record \<open>server_state\<close>, the user table, its
    document and the store.
  \<^item> \<open>Kpc\<close> (\<open>kpc/src/main.rs\<close>), the custody command line: a state transformer over the host it runs tools on, with
    every tool, file and prompt as an argument.

  Facts about each model, and the interfaces between components as locales, stand in theories of
  their own (\<open>Drive_Laws\<close>, \<open>Crypto_Facts\<close>, \<open>Store_Write\<close>, \<open>Store_Read\<close>, \<open>Store_Safety\<close>, \<open>Store_Frame\<close>,
  \<open>Heal_Facts\<close>, \<open>Listing_Keys\<close>, \<open>Listing_Pages\<close>, \<open>Key_Escape\<close>, \<open>Lock_Facts\<close>, \<open>Cluster_Facts\<close>, \<open>Iam_Facts\<close>,
  \<open>Auth_Facts\<close>, \<open>Chunk_Facts\<close>, \<open>Gateway_Facts\<close>, \<open>Lifecycle_Facts\<close>, \<open>Lifecycle_Progress\<close>; for the filesystem
  backend \<open>Fs_Files\<close>, its steps as updates of a map from paths to contents, \<open>Fs_Slots\<close> and \<open>Fs_Versions\<close>, the files
  of a key and the list of versions they hold, \<open>Fs_Refine\<close>, \<open>Fs_Steps\<close> and \<open>Fs_History\<close>, its operations on that
  list), and the
  numbered properties with their concrete instances in the theories named \<open>*_Props\<close>, in \<open>Codec\<close>, \<open>Custody\<close>
  and \<open>Madmin\<close>.

  \<^bold>\<open>What is shown.\<close>  What is put is read back byte for byte while \<open>K\<close> of the \<open>K + M\<close> drives serve, with
  an exact write quorum; healing restores full redundancy; one object's operations leave others
  alone.  (A put over an older object needs the drives that held it: a drive that missed the overwrite may serve the
  old metadata, which is shown too.)  The filesystem backend refines a list of versions: whatever puts, deletes and deletions of single
  versions follow one another, each version stays readable byte for byte until it is deleted.  A remote drive refines the local drive it speaks to, at most one gateway holds a lock, and
  as long as no lock table was collected a node takes writes only from the holder of its newest lease.  Handlers run
  only for identities whose signature, policy and scope allow it, and the signature that verification demands is the one
  a client computes from its own data.  Listings page through every key once.  A lifecycle
  pass ends, spares what it must and removes what is due.  A
  sealed start runs sealed, on any command line; a web identity is worth its token's groups for a bounded time; a key
  revoked in the KMS is not served beyond its cache lifetime; the custody command line unmounts before it seals.  Several properties state limits of the
  code instead: keys that climb out of a bucket or a credential's scope, truncated containers and
  uploads, batch and console deletes of locked objects, upload ids that are paths, a forced bucket deletion that never
  ends, a block size that loses every body, distributed locks over mutual TLS; further ones (collected lock slots, paths
  without authentication, tags that overwrite another object's metadata, pages of versions that lose versions, detached
  policies) are theorems without a number.

  \<^bold>\<open>Conventions.\<close>  An error is the left value of a sum, a panic an outcome of its own.  Rust's unsigned
  integers are naturals where the code's own guards keep them in range, and words where they wrap
  (the chunk counter of a nonce, \<open>days as i64\<close>).  Loops over data are structural; the listing pages
  of a lifecycle rule are a partial function that is shown to return, and the retries of the lock
  client are bounded by the 60 attempts of the code, so no definition needs fuel.  Operations of one
  key run under its lock and are atomic steps.  Clocks, random draws, and which drive operations and
  which network calls fail, are arguments.

  \<^bold>\<open>Libraries.\<close>  Reed-Solomon coding, AES-GCM, ML-KEM, Argon2, SHA-256, HMAC, MD5, XML and date parsing
  are not under \<open>src\<close>: they are parameters, and each theorem names the documented laws it uses; the
  witnesses instantiate them.  JSON documents are kept as the values they encode.

  \<^bold>\<open>Not modelled.\<close>  Sockets, the TLS handshake, the tracing output and the help text; \<open>harden.rs\<close>, two system calls
  whose failures are only logged; the access log's background writer; the rendering of documents as XML
  (\<open>s3/xml.rs\<close>, which a library does from the types) and of dates (\<open>s3/mod.rs\<close>, format strings of a library).
\<close>

end
